(* ===== verification/Prelude.thy ===== *)
theory Prelude
  imports Main "HOL-Library.Word"
begin

unbundle bit_operations_syntax

text \<open>
  Shared vocabulary of the StreamHouse development: machine integers and byte strings, the
  outcome type of fallible Rust code, cursor reads of the \<^verbatim>\<open>bytes\<close> interface
  (\<^verbatim>\<open>Buf::get_u8\<close>, \<^verbatim>\<open>get_u16\<close>, ... and \<^verbatim>\<open>to_le_bytes\<close>/\<^verbatim>\<open>from_le_bytes\<close>), the interface
  \<open>prefix_codec\<close> every self-delimiting encoder of the program satisfies, and the
  interface \<open>invariant_machine\<close> used by the stateful components.

  Integers are kept at their width: \<open>u64\<close> is a 64-bit word, so \<open>+\<close> wraps as the
  release build does; \<open>i64\<close> is the same word read as two's complement. A length
  (\<^verbatim>\<open>usize\<close>) is a \<open>nat\<close>, and every \<^verbatim>\<open>as u64\<close>/\<^verbatim>\<open>as u32\<close> of the source is written
  as \<open>of_nat\<close>, which truncates to the width.
\<close>

section \<open>Machine integers and bytes\<close>

type_synonym u8 = "8 word"
type_synonym u16 = "16 word"
type_synonym u32 = "32 word"
type_synonym u64 = "64 word"
type_synonym i64 = "64 word"
type_synonym i32 = "32 word"
type_synonym i16 = "16 word"
type_synonym bytes = "u8 list"

named_theorems codec_simps

lemma word_succ_greater: "x + 1 \<noteq> 0 \<Longrightarrow> x < (x + 1 :: 'a :: len word)"
  using unatSuc [of x] by (simp add: word_less_nat_alt add.commute)

section \<open>Outcomes\<close>

text \<open>
  A call of the source returns a value, returns an error, or panics (a slice out of range, a
  cursor read past the end). \<open>rbind\<close> is the \<^verbatim>\<open>?\<close> operator.
\<close>

datatype ('e, 'a) result = Ok 'a | Err 'e | Panic

fun rbind :: "('e, 'a) result \<Rightarrow> ('a \<Rightarrow> ('e, 'b) result) \<Rightarrow> ('e, 'b) result" where
  "rbind (Ok a) f = f a"
| "rbind (Err e) f = Err e"
| "rbind Panic f = Panic"

lemma rbind_cong [fundef_cong]:
  "x = y \<Longrightarrow> (\<And>a. y = Ok a \<Longrightarrow> f a = g a) \<Longrightarrow> rbind x f = rbind y g"
  by (cases y) auto

lemma rbind_eq_Ok: "rbind x f = Ok b \<longleftrightarrow> (\<exists>a. x = Ok a \<and> f a = Ok b)"
  by (cases x) auto

lemma rbind_assoc: "rbind (rbind x f) g = rbind x (\<lambda>a. rbind (f a) g)"
  by (cases x) auto

text \<open>\<^verbatim>\<open>Option::ok_or\<close> and \<^verbatim>\<open>Result::map_err\<close>.\<close>

fun ok_or :: "'e \<Rightarrow> 'a option \<Rightarrow> ('e, 'a) result" where
  "ok_or e None = Err e"
| "ok_or e (Some a) = Ok a"

fun map_err :: "('e \<Rightarrow> 'f) \<Rightarrow> ('e, 'a) result \<Rightarrow> ('f, 'a) result" where
  "map_err h (Ok a) = Ok a"
| "map_err h (Err e) = Err (h e)"
| "map_err h Panic = Panic"

lemma map_err_eq_Panic [simp]: "map_err h r = Panic \<longleftrightarrow> r = Panic"
  by (cases r) auto

text \<open>\<^verbatim>\<open>u64::saturating_sub\<close>.\<close>

definition saturating_sub :: "u64 \<Rightarrow> u64 \<Rightarrow> u64" where
  "saturating_sub a b = (if b \<le> a then a - b else 0)"

section \<open>Decimal display of unsigned integers\<close>

definition digit :: "nat \<Rightarrow> char" where "digit d = char_of (48 + d)"

fun show_nat :: "nat \<Rightarrow> string" where
  "show_nat n = (if n < 10 then [digit n] else show_nat (n div 10) @ [digit (n mod 10)])"

declare show_nat.simps [simp del]

definition show_int :: "int \<Rightarrow> string" where
  "show_int i = (if i < 0 then ''-'' @ show_nat (nat (- i)) else show_nat (nat i))"

definition is_digit :: "char \<Rightarrow> bool" where "is_digit ch \<longleftrightarrow> of_char ch \<in> {48..57::nat}"

definition read_nat :: "string \<Rightarrow> nat" where
  "read_nat cs = foldl (\<lambda>a ch. 10 * a + (of_char ch - 48)) 0 cs"

lemma of_char_digit: "d < 10 \<Longrightarrow> of_char (digit d) = 48 + d"
  by (simp add: digit_def)

lemma show_nat_digits: "list_all is_digit (show_nat n)"
proof (induction n rule: show_nat.induct)
  case (1 n)
  have d: "k < 10 \<Longrightarrow> is_digit (digit k)" for k
    using of_char_digit [of k] by (simp add: is_digit_def)
  show ?case using 1 d by (subst show_nat.simps) auto
qed

lemma read_show_nat: "read_nat (show_nat n) = n"
proof (induction n rule: show_nat.induct)
  case (1 n)
  then show ?case
    using of_char_digit [of n] of_char_digit [of "n mod 10"]
    by (subst show_nat.simps) (auto simp: read_nat_def)
qed

lemma show_nat_inj: "show_nat m = show_nat n \<Longrightarrow> m = n"
  by (metis read_show_nat)

lemma digit_run_unique:
  assumes "list_all is_digit as" "list_all is_digit bs" "as @ x # xs = bs @ y # ys" "\<not> is_digit x" "\<not> is_digit y"
  shows "as = bs"
proof -
  have "takeWhile is_digit (as @ x # xs) = as" "takeWhile is_digit (bs @ y # ys) = bs"
    using assms(1,2,4,5) by (simp_all add: takeWhile_append2 list_all_iff)
  with assms(3) show ?thesis by simp
qed

section \<open>Slices and cursors\<close>

text \<open>
  \<open>slice a b xs\<close> is \<^verbatim>\<open>&xs[a..b]\<close>, which panics unless \<open>a \<le> b \<le> length xs\<close>.
  A cursor is the list of the remaining bytes; reading more than remains panics.
\<close>

definition slice :: "nat \<Rightarrow> nat \<Rightarrow> 'a list \<Rightarrow> ('e, 'a list) result" where
  "slice a b xs = (if a \<le> b \<and> b \<le> length xs then Ok (take (b - a) (drop a xs)) else Panic)"

definition get_bytes :: "nat \<Rightarrow> bytes \<Rightarrow> ('e, bytes \<times> bytes) result" where
  "get_bytes n bs = (if n \<le> length bs then Ok (take n bs, drop n bs) else Panic)"

lemma slice_mid [codec_simps]: "slice (length as) (length as + length bs) (as @ bs @ cs) = Ok bs"
  by (simp add: slice_def)

lemma slice_all: "slice 0 (length xs) xs = Ok xs"
  by (simp add: slice_def)

lemma get_bytes_append [codec_simps]: "n = length as \<Longrightarrow> get_bytes n (as @ bs) = Ok (as, bs)"
  by (simp add: get_bytes_def)

lemma get_bytes_all [codec_simps]: "get_bytes (length bs) bs = Ok (bs, [])"
  by (simp add: get_bytes_def)

subsection \<open>Fixed-width integers, little and big endian\<close>

fun le_bytes :: "nat \<Rightarrow> 'a::len word \<Rightarrow> bytes" where
  "le_bytes 0 w = []"
| "le_bytes (Suc n) w = ucast w # le_bytes n (drop_bit 8 w)"

fun le_val :: "bytes \<Rightarrow> 'a::len word" where
  "le_val [] = 0"
| "le_val (b # bs) = ucast b OR push_bit 8 (le_val bs)"

definition be_bytes :: "nat \<Rightarrow> 'a::len word \<Rightarrow> bytes" where
  "be_bytes n w = rev (le_bytes n w)"

definition be_val :: "bytes \<Rightarrow> 'a::len word" where
  "be_val bs = le_val (rev bs)"

lemma length_le_bytes [simp]: "length (le_bytes n w) = n"
  by (induction n w rule: le_bytes.induct) auto

lemma length_be_bytes [simp]: "length (be_bytes n w) = n"
  by (simp add: be_bytes_def)

lemma le_step: "ucast (ucast w :: u8) OR push_bit 8 (take_bit n (drop_bit 8 w)) = take_bit (8 + n) (w :: 'a::len word)"
  by (rule bit_word_eqI) (auto simp: bit_simps)

lemma le_val_le_bytes: "le_val (le_bytes n w) = take_bit (8 * n) (w :: 'a::len word)"
proof (induction n arbitrary: w)
  case (Suc n)
  have "le_val (le_bytes (Suc n) w) = ucast (ucast w :: u8) OR push_bit 8 (take_bit (8 * n) (drop_bit 8 w))"
    by (simp add: Suc.IH)
  then show ?case by (simp add: le_step)
qed simp

lemma le_val_full: "LENGTH('a) \<le> 8 * n \<Longrightarrow> le_val (le_bytes n w) = (w :: 'a::len word)"
  by (simp add: le_val_le_bytes take_bit_word_eq_self)

lemma be_val_full: "LENGTH('a) \<le> 8 * n \<Longrightarrow> be_val (be_bytes n w) = (w :: 'a::len word)"
  by (simp add: be_val_def be_bytes_def le_val_full)

definition get_be :: "nat \<Rightarrow> bytes \<Rightarrow> ('e, 'a::len word \<times> bytes) result" where
  "get_be n bs = rbind (get_bytes n bs) (\<lambda>(x, rest). Ok (be_val x, rest))"

definition get_le :: "nat \<Rightarrow> bytes \<Rightarrow> ('e, 'a::len word \<times> bytes) result" where
  "get_le n bs = rbind (get_bytes n bs) (\<lambda>(x, rest). Ok (le_val x, rest))"

text \<open>The reads and writes the sources use, by the names of the \<^verbatim>\<open>bytes\<close> interface.\<close>

abbreviation put_u16 :: "u16 \<Rightarrow> bytes" where "put_u16 \<equiv> be_bytes 2"
abbreviation put_u32 :: "u32 \<Rightarrow> bytes" where "put_u32 \<equiv> be_bytes 4"
abbreviation put_u64 :: "u64 \<Rightarrow> bytes" where "put_u64 \<equiv> be_bytes 8"
abbreviation u32_to_le_bytes :: "u32 \<Rightarrow> bytes" where "u32_to_le_bytes \<equiv> le_bytes 4"
abbreviation u64_to_le_bytes :: "u64 \<Rightarrow> bytes" where "u64_to_le_bytes \<equiv> le_bytes 8"

definition get_u16 :: "bytes \<Rightarrow> ('e, u16 \<times> bytes) result" where "get_u16 = get_be 2"
definition get_u32 :: "bytes \<Rightarrow> ('e, u32 \<times> bytes) result" where "get_u32 = get_be 4"
definition get_u64 :: "bytes \<Rightarrow> ('e, u64 \<times> bytes) result" where "get_u64 = get_be 8"
definition get_u32_le :: "bytes \<Rightarrow> ('e, u32 \<times> bytes) result" where "get_u32_le = get_le 4"
definition get_u64_le :: "bytes \<Rightarrow> ('e, u64 \<times> bytes) result" where "get_u64_le = get_le 8"

section \<open>The interface of a self-delimiting codec\<close>

text \<open>
  \<open>get_many d n\<close> runs a decoder \<open>n\<close> times, as the \<^verbatim>\<open>for _ in 0..n\<close> loops of the readers do.
\<close>

fun get_many :: "(bytes \<Rightarrow> ('e, 'a \<times> bytes) result) \<Rightarrow> nat \<Rightarrow> bytes \<Rightarrow> ('e, 'a list \<times> bytes) result" where
  "get_many d 0 bs = Ok ([], bs)"
| "get_many d (Suc n) bs =
     rbind (d bs) (\<lambda>(x, rest). rbind (get_many d n rest) (\<lambda>(xs, rest'). Ok (x # xs, rest')))"

locale prefix_codec =
  fixes enc :: "'a \<Rightarrow> bytes"
    and dec :: "bytes \<Rightarrow> ('e, 'a \<times> bytes) result"
    and valid :: "'a \<Rightarrow> bool"
  assumes dec_enc: "valid v \<Longrightarrow> dec (enc v @ rest) = Ok (v, rest)"
begin

lemma enc_prefix_free:
  assumes "valid v" and "valid w" and "enc v @ r = enc w @ s"
  shows "v = w \<and> r = s"
proof -
  from assms(1,3) have "dec (enc w @ s) = Ok (v, r)" using dec_enc [of v r] by simp
  with assms(2) show ?thesis using dec_enc [of w s] by simp
qed

lemma get_many_enc:
  "(\<And>v. v \<in> set vs \<Longrightarrow> valid v) \<Longrightarrow> get_many dec (length vs) (concat (map enc vs) @ rest) = Ok (vs, rest)"
  by (induction vs) (auto simp: dec_enc)

lemma concat_enc_inj:
  assumes "\<And>v. v \<in> set vs \<union> set ws \<Longrightarrow> valid v" and "length vs = length ws"
    and "concat (map enc vs) = concat (map enc ws)"
  shows "vs = ws"
  using get_many_enc [of vs "[]"] get_many_enc [of ws "[]"] assms by simp

end

lemma get_be_put: "LENGTH('a) = 8 * n \<Longrightarrow> get_be n (be_bytes n (w :: 'a::len word) @ rest) = Ok (w, rest)"
  by (simp add: get_be_def get_bytes_def be_val_full)

lemma get_le_put: "LENGTH('a) = 8 * n \<Longrightarrow> get_le n (le_bytes n (w :: 'a::len word) @ rest) = Ok (w, rest)"
  by (simp add: get_le_def get_bytes_def le_val_full)

interpretation be16: prefix_codec put_u16 get_u16 "\<lambda>_. True"
  by unfold_locales (simp add: get_u16_def get_be_put)

interpretation be32: prefix_codec put_u32 get_u32 "\<lambda>_. True"
  by unfold_locales (simp add: get_u32_def get_be_put)

interpretation be64: prefix_codec put_u64 get_u64 "\<lambda>_. True"
  by unfold_locales (simp add: get_u64_def get_be_put)

interpretation le32: prefix_codec u32_to_le_bytes get_u32_le "\<lambda>_. True"
  by unfold_locales (simp add: get_u32_le_def get_le_put)

interpretation le64: prefix_codec u64_to_le_bytes get_u64_le "\<lambda>_. True"
  by unfold_locales (simp add: get_u64_le_def get_le_put)

lemmas fixed_dec_enc [codec_simps] =
  be16.dec_enc [OF TrueI] be32.dec_enc [OF TrueI] be64.dec_enc [OF TrueI]
  le32.dec_enc [OF TrueI] le64.dec_enc [OF TrueI]

section \<open>The interface of a machine with an invariant\<close>

text \<open>
  A component whose every operation \<open>step e\<close> keeps \<open>inv\<close> keeps it over any sequence of
  operations; a quantity \<open>rank\<close> no operation lowers is monotone along a run.
\<close>

locale invariant_machine =
  fixes step :: "'e \<Rightarrow> 's \<Rightarrow> 's" and inv :: "'s \<Rightarrow> bool"
  assumes step_inv: "inv s \<Longrightarrow> inv (step e s)"
begin

lemma run_inv: "inv s \<Longrightarrow> inv (fold step es s)"
  by (induction es arbitrary: s) (auto simp: step_inv)

end

section \<open>Lists\<close>

lemma sum_list_map_length: "sum_list (map length bss) = length (concat bss)"
  by (simp add: length_concat)

lemma in_concat_take: "x \<in> set (concat (take k xs)) \<longleftrightarrow> (\<exists>i<k. i < length xs \<and> x \<in> set (xs ! i))"
  by (auto simp: set_conv_nth [of "take k xs"])

lemma of_nat_less_self: "n < 2 ^ LENGTH('a) \<Longrightarrow> unat (of_nat n :: 'a::len word) = n"
  by (simp add: unat_of_nat take_bit_nat_eq_self)

lemma unat_of_nat_u64 [simp]: "n < 2 ^ 64 \<Longrightarrow> unat (of_nat n :: u64) = n"
  by (rule of_nat_less_self) simp

lemma unat_of_nat_u32 [simp]: "n < 2 ^ 32 \<Longrightarrow> unat (of_nat n :: u32) = n"
  by (rule of_nat_less_self) simp

lemma of_nat_u64_eq_0 [simp]: "n < 2 ^ 64 \<Longrightarrow> (of_nat n :: u64) = 0 \<longleftrightarrow> n = 0"
  by (metis unat_of_nat_u64 unat_eq_0)

lemma of_nat_u32_eq_0 [simp]: "n < 2 ^ 32 \<Longrightarrow> (of_nat n :: u32) = 0 \<longleftrightarrow> n = 0"
  by (metis unat_of_nat_u32 unat_eq_0)

lemma unat_saturating_sub: "unat (saturating_sub a b) = unat a - unat b"
  by (simp add: saturating_sub_def unat_sub word_le_nat_alt)

lemma sint_unat:
  assumes "0 \<le> sint (r :: 'a::len word)"
  shows "int (unat r) = sint r"
proof -
  have r: "r = of_nat (nat (sint r))" using assms by simp
  have "sint r < 2 ^ (LENGTH('a) - 1)" by (rule sint_lt)
  also have "\<dots> \<le> 2 ^ LENGTH('a)" by (rule power_increasing) simp_all
  finally have "nat (sint r) < 2 ^ LENGTH('a)" using assms by (simp add: nat_less_iff)
  then show ?thesis using of_nat_less_self [of "nat (sint r)", where 'a = 'a] assms r by simp
qed

end
