(* ===== verification/Core_Types.thy ===== *)
theory Core_Types
  imports Prelude
begin

text \<open>
  The data model of \<^verbatim>\<open>streamhouse-core\<close>: \<^verbatim>\<open>record.rs\<close> (the \<open>Record\<close>), \<^verbatim>\<open>segment.rs\<close>
  (\<open>SegmentInfo\<close>, \<open>Compression\<close> and its numeric codes) and \<^verbatim>\<open>error.rs\<close> (the error values).
  The payload of an I/O error is the operating system's and is not modelled.
\<close>

section \<open>Errors\<close>

datatype error =
    Io
  | InvalidMagic
  | InvalidVersion u16
  | UnsupportedVersion u16
  | InvalidCompression u16
  | CrcMismatch
  | OffsetNotFound u64
  | InvalidSegment string
  | CompressionError string
  | Decompression string
  | Unsupported string

section \<open>Records\<close>

record Record =
  rec_offset :: u64
  rec_timestamp :: u64
  rec_key :: "bytes option"
  rec_value :: bytes

definition Record_new :: "u64 \<Rightarrow> u64 \<Rightarrow> bytes option \<Rightarrow> bytes \<Rightarrow> Record" where
  "Record_new off ts k v = \<lparr>rec_offset = off, rec_timestamp = ts, rec_key = k, rec_value = v\<rparr>"

definition estimated_size :: "Record \<Rightarrow> nat" where
  "estimated_size r =
     8 + 8 + (case rec_key r of None \<Rightarrow> 0 | Some k \<Rightarrow> length k) + length (rec_value r)"

text \<open>
  Both on-disk formats (segment blocks and the write-ahead log) write a zero length for a
  missing key and for an empty one, so what can be read back is the record with an empty key
  turned into no key.
\<close>

definition stored_key :: "bytes option \<Rightarrow> bytes option" where
  "stored_key k = (if k = Some [] then None else k)"

definition stored_record :: "Record \<Rightarrow> Record" where
  "stored_record r = r\<lparr>rec_key := stored_key (rec_key r)\<rparr>"

lemma stored_record_simps [simp]:
  "rec_offset (stored_record r) = rec_offset r"
  "rec_timestamp (stored_record r) = rec_timestamp r"
  "rec_value (stored_record r) = rec_value r"
  by (simp_all add: stored_record_def)

lemma stored_record_id: "rec_key r \<noteq> Some [] \<Longrightarrow> stored_record r = r"
  by (simp add: stored_record_def stored_key_def)

section \<open>Segments\<close>

record SegmentInfo =
  si_id :: string
  si_topic :: string
  si_partition_id :: u32
  si_base_offset :: u64
  si_end_offset :: u64
  si_record_count :: u32
  si_size_bytes :: u64
  si_s3_bucket :: string
  si_s3_key :: string
  si_created_at :: i64
  si_min_timestamp :: i64
  si_max_timestamp :: i64

datatype Compression = CompNone | CompLz4 | CompZstd

text \<open>\<^verbatim>\<open>self.compression as u16\<close> (the \<^verbatim>\<open>repr(u16)\<close> discriminant) and its \<^verbatim>\<open>TryFrom<u16>\<close>.\<close>

fun compression_code :: "Compression \<Rightarrow> u16" where
  "compression_code CompNone = 0"
| "compression_code CompLz4 = 1"
| "compression_code CompZstd = 2"

definition compression_try_from :: "u16 \<Rightarrow> (error, Compression) result" where
  "compression_try_from v =
     (if v = 0 then Ok CompNone
      else if v = 1 then Ok CompLz4
      else if v = 2 then Ok CompZstd
      else Err (InvalidCompression v))"

lemma compression_roundtrip [simp]: "compression_try_from (compression_code c) = Ok c"
  by (cases c) (simp_all add: compression_try_from_def)

lemma compression_try_from_Ok: "compression_try_from v = Ok c \<Longrightarrow> v = compression_code c"
  by (auto simp: compression_try_from_def split: if_splits)

end
