(* ===== verification/Varint.thy ===== *)
theory Varint
  imports Core_Types
begin

text \<open>
  Variable-length integers, \<^verbatim>\<open>streamhouse-core/src/varint.rs\<close>: seven data bits per byte with a
  continuation bit, and ZigZag for signed values. The encoder loop runs until the shifted value is
  zero; the decoder loop carries the accumulated value and the shift.
\<close>

section \<open>Unsigned varints\<close>

lemma drop_bit_7_less: "drop_bit 7 v \<noteq> 0 \<Longrightarrow> unat (drop_bit 7 v) < unat (v :: u64)"
proof -
  assume "drop_bit 7 v \<noteq> 0"
  moreover have eq: "unat (drop_bit 7 v) = unat v div 128"
    by (simp add: drop_bit_eq_div unat_div)
  ultimately have "unat v \<noteq> 0" by (metis div_0 unat_eq_0)
  then show ?thesis by (simp add: eq)
qed

text \<open>
  \<^verbatim>\<open>byte = value & 0x7F; value >>= 7; if value != 0 { byte |= 0x80 }; put; if value == 0 { break }\<close>.
\<close>

function encode_varint_u64 :: "u64 \<Rightarrow> bytes" where
  "encode_varint_u64 value =
     (let byte = ucast (value AND 0x7F) :: u8; value' = drop_bit 7 value
      in if value' \<noteq> 0 then (byte OR 0x80) # encode_varint_u64 value' else [byte])"
  by pat_completeness auto

termination
  by (relation "measure unat") (auto simp: drop_bit_7_less)

declare encode_varint_u64.simps [simp del]

fun decode_varint_loop :: "u64 \<Rightarrow> nat \<Rightarrow> bytes \<Rightarrow> (error, u64 \<times> bytes) result" where
  "decode_varint_loop value sh [] = Err (InvalidSegment ''Truncated varint'')"
| "decode_varint_loop value sh (byte # buf) =
     (let value' = value OR push_bit sh (ucast (byte AND 0x7F)) in
      if byte AND 0x80 = 0 then Ok (value', buf)
      else if sh + 7 \<ge> 64 then Err (InvalidSegment ''Varint too large'')
      else decode_varint_loop value' (sh + 7) buf)"

definition decode_varint_u64 :: "bytes \<Rightarrow> (error, u64 \<times> bytes) result" where
  "decode_varint_u64 buf = decode_varint_loop 0 0 buf"

section \<open>Signed varints\<close>

text \<open>\<^verbatim>\<open>((value << 1) ^ (value >> 63)) as u64\<close>, the shift right being arithmetic.\<close>

definition zigzag :: "i64 \<Rightarrow> u64" where
  "zigzag value = push_bit 1 value XOR signed_drop_bit 63 value"

definition unzigzag :: "u64 \<Rightarrow> i64" where
  "unzigzag uns =
     (let value = drop_bit 1 uns in if uns AND 1 \<noteq> 0 then NOT value else value)"

definition encode_varint :: "i64 \<Rightarrow> bytes" where
  "encode_varint value = encode_varint_u64 (zigzag value)"

definition decode_varint :: "bytes \<Rightarrow> (error, i64 \<times> bytes) result" where
  "decode_varint buf = rbind (decode_varint_u64 buf) (\<lambda>(uns, rest). Ok (unzigzag uns, rest))"

section \<open>Round trips\<close>

lemma mask_7: "(0x7F :: 'a::len word) = mask 7"
  by (simp add: mask_eq_exp_minus_1)

lemma bit_7: "bit (0x80 :: int) n \<longleftrightarrow> n = 7"
proof -
  have "(0x80 :: int) = push_bit 7 1" by simp
  then show ?thesis by (simp only: bit_push_bit_iff bit_1_iff possible_bit_int) auto
qed

lemma byte_low [simp]:
  "ucast ((ucast (v AND 0x7F) :: u8) AND 0x7F) = (v AND 0x7F :: u64)"
  "ucast ((ucast (v AND 0x7F) OR 0x80 :: u8) AND 0x7F) = (v AND 0x7F :: u64)"
  unfolding mask_7 by (rule bit_word_eqI; auto simp: bit_simps bit_7)+

lemma byte_cont [simp]:
  "(ucast (v AND 0x7F :: u64) :: u8) AND 0x80 = 0"
  "(ucast (v AND 0x7F :: u64) OR 0x80 :: u8) AND 0x80 \<noteq> 0"
proof -
  show "(ucast (v AND 0x7F :: u64) :: u8) AND 0x80 = 0"
    unfolding mask_7 by (rule bit_word_eqI) (auto simp: bit_simps bit_7)
  have "bit ((ucast (v AND 0x7F :: u64) OR 0x80 :: u8) AND 0x80) 7"
    unfolding mask_7 by (simp add: bit_simps bit_7)
  then show "(ucast (v AND 0x7F :: u64) OR 0x80 :: u8) AND 0x80 \<noteq> 0"
    by fastforce
qed

lemma septet_join:
  "(acc OR push_bit sh (v AND 0x7F)) OR push_bit (sh + 7) (drop_bit 7 v) = acc OR push_bit sh (v :: u64)"
proof (rule bit_word_eqI)
  fix n
  have "sh + 7 \<le> n \<Longrightarrow> 7 + (n - (sh + 7)) = n - sh" by simp
  then show "bit ((acc OR push_bit sh (v AND 0x7F)) OR push_bit (sh + 7) (drop_bit 7 v)) n
           = bit (acc OR push_bit sh v) n"
    unfolding mask_7 by (cases "sh + 7 \<le> n") (auto simp: bit_simps)
qed

lemma septet_last: "drop_bit 7 v = 0 \<Longrightarrow> v AND 0x7F = (v :: u64)"
  using bits_ident [of 7 v] unfolding mask_7 take_bit_eq_mask by simp

text \<open>
  The decoder, started anywhere in a value (with what is left of it fitting above the current
  shift), consumes exactly the bytes the encoder produced.
\<close>

lemma decode_loop_encode:
  assumes "unat v < 2 ^ (64 - sh)" and "sh < 64"
  shows "decode_varint_loop acc sh (encode_varint_u64 v @ rest) = Ok (acc OR push_bit sh v, rest)"
  using assms
proof (induction v arbitrary: acc sh rule: encode_varint_u64.induct)
  case (1 v)
  have dv: "unat (drop_bit 7 v) = unat v div 128"
    by (simp add: drop_bit_eq_div unat_div)
  show ?case
  proof (cases "drop_bit 7 v = 0")
    case True
    then show ?thesis
      by (subst encode_varint_u64.simps) (simp add: Let_def del: push_bit_and, simp add: septet_last del: push_bit_and)
  next
    case False
    then have "unat v div 128 \<noteq> 0" using dv by (metis unat_eq_0)
    then have ge: "2 ^ 7 \<le> unat v" by simp
    then have "(2::nat) ^ 7 < 2 ^ (64 - sh)" using "1.prems"(1) by linarith
    then have sh: "sh + 7 < 64" using power_less_imp_less_exp [of "2::nat" 7 "64 - sh"] by linarith
    have "unat (drop_bit 7 v) < 2 ^ (64 - (sh + 7))"
    proof -
      have e: "64 - sh = 64 - (sh + 7) + 7" using sh by linarith
      have "(2::nat) ^ (64 - sh) = 2 ^ (64 - (sh + 7)) * 2 ^ 7" by (subst e) (rule power_add)
      with "1.prems"(1) show ?thesis by (simp add: dv less_mult_imp_div_less)
    qed
    then have "decode_varint_loop (acc OR push_bit sh (v AND 0x7F)) (sh + 7)
                 (encode_varint_u64 (drop_bit 7 v) @ rest)
               = Ok ((acc OR push_bit sh (v AND 0x7F)) OR push_bit (sh + 7) (drop_bit 7 v), rest)"
      using "1.IH" [OF refl refl] False sh by simp
    then show ?thesis
      using False sh
      by (subst encode_varint_u64.simps) (simp add: Let_def septet_join del: push_bit_and)
  qed
qed

lemma decode_encode_u64: "decode_varint_u64 (encode_varint_u64 v @ rest) = Ok (v, rest)"
  using decode_loop_encode [of v 0 0 rest] unsigned_less [of v]
  by (simp add: decode_varint_u64_def)

lemma bit_zigzag: "n < 64 \<Longrightarrow> bit (zigzag v) n \<longleftrightarrow> (1 \<le> n \<and> bit v (n - 1)) \<noteq> bit v 63"
  unfolding zigzag_def
  by (cases "n = 0")
    (simp_all only: bit_xor_iff bit_push_bit_iff bit_signed_drop_bit_iff possible_bit_word, simp_all)

lemma and_1_bit: "w AND 1 \<noteq> 0 \<longleftrightarrow> bit (w :: u64) 0"
  by (simp add: and_one_eq bit_0 mod_2_eq_odd)

lemma unzigzag_zigzag: "unzigzag (zigzag v) = v"
proof (rule bit_word_eqI)
  fix n assume "n < LENGTH(64)"
  then show "bit (unzigzag (zigzag v)) n = bit v n"
    by (cases "n = 63") (auto simp: unzigzag_def Let_def and_1_bit bit_zigzag bit_simps dest: bit_imp_le_length)
qed

interpretation vu64: prefix_codec encode_varint_u64 decode_varint_u64 "\<lambda>_. True"
  by unfold_locales (rule decode_encode_u64)

interpretation vi64: prefix_codec encode_varint decode_varint "\<lambda>_. True"
  by unfold_locales (simp add: encode_varint_def decode_varint_def decode_encode_u64 unzigzag_zigzag)

lemmas varint_dec_enc [codec_simps] = vu64.dec_enc [OF TrueI] vi64.dec_enc [OF TrueI]

section \<open>Sizes\<close>

lemma unat_drop_7: "unat (drop_bit 7 (v :: u64)) = unat v div 128"
  by (simp add: drop_bit_eq_div unat_div)

lemma length_encode_step:
  "length (encode_varint_u64 v) = (if unat v < 128 then 1 else Suc (length (encode_varint_u64 (drop_bit 7 v))))"
proof -
  have "drop_bit 7 v = 0 \<longleftrightarrow> unat v < 128"
    using unat_drop_7 [of v] unat_eq_0 [of "drop_bit 7 v"] by (metis div_eq_0_iff zero_neq_numeral)
  then show ?thesis
    by (subst encode_varint_u64.simps) (simp add: Let_def)
qed

text \<open>The encoding of \<open>v\<close> has \<open>n\<close> bytes exactly when \<open>v\<close> needs \<open>n\<close> groups of seven bits.\<close>

lemma length_encode_exact:
  "unat v < 2 ^ (7 * Suc n) \<Longrightarrow> n = 0 \<or> 2 ^ (7 * n) \<le> unat v \<Longrightarrow> length (encode_varint_u64 v) = Suc n"
proof (induction n arbitrary: v)
  case 0
  then show ?case by (subst length_encode_step) simp
next
  case (Suc n)
  from Suc.prems(2) have ge: "2 ^ (7 * n) * 128 \<le> unat v" by (simp add: power_add)
  have "unat (drop_bit 7 v) < 2 ^ (7 * Suc n)"
    using Suc.prems(1) by (simp add: unat_drop_7 less_mult_imp_div_less power_add)
  moreover have "2 ^ (7 * n) \<le> unat (drop_bit 7 v)"
    using ge by (simp add: unat_drop_7 less_eq_div_iff_mult_less_eq)
  ultimately have "length (encode_varint_u64 (drop_bit 7 v)) = Suc n" by (rule Suc.IH [OF _ disjI2])
  moreover have "\<not> unat v < 128" using ge by (metis div_by_1 less_eq_div_iff_mult_less_eq less_le_trans not_less mult_1 mult_le_mono1 one_le_numeral one_le_power)
  ultimately show ?case by (subst length_encode_step) simp
qed

lemma length_encode_le: "unat v < 2 ^ (7 * Suc n) \<Longrightarrow> length (encode_varint_u64 v) \<le> Suc n"
proof (induction n arbitrary: v)
  case 0
  then show ?case by (subst length_encode_step) simp
next
  case (Suc n)
  have "unat (drop_bit 7 v) < 2 ^ (7 * Suc n)"
    using Suc.prems by (simp add: unat_drop_7 less_mult_imp_div_less power_add)
  then have "length (encode_varint_u64 (drop_bit 7 v)) \<le> Suc n" by (rule Suc.IH)
  then show ?case by (subst length_encode_step) simp
qed

lemma length_encode_bounds:
  "1 \<le> length (encode_varint_u64 v)" "length (encode_varint_u64 v) \<le> 10"
proof -
  show "1 \<le> length (encode_varint_u64 v)" by (subst length_encode_step) simp
  have "unat v < 2 ^ (7 * Suc 9)" using unsigned_less [of v, where ?'a = nat] by simp
  then show "length (encode_varint_u64 v) \<le> 10" using length_encode_le [of v 9] by simp
qed

lemma encode_nonempty [simp]: "encode_varint_u64 v \<noteq> []" "encode_varint w \<noteq> []"
  using length_encode_bounds(1) [of v] length_encode_bounds(1) [of "zigzag w"]
  by (auto simp: encode_varint_def)

text \<open>
  Whatever bytes it is given, the decoder returns a value or an error and never reads past ten
  bytes; on success it consumed a non-empty prefix.
\<close>

lemma decode_loop_consumes:
  assumes "decode_varint_loop acc sh buf = Ok (v, rest)" and "sh < 64"
  shows "\<exists>p. buf = p @ rest \<and> p \<noteq> [] \<and> length p \<le> (70 - sh) div 7"
  using assms
proof (induction acc sh buf rule: decode_varint_loop.induct)
  case (2 acc sh b buf)
  show ?case
  proof (cases "b AND 0x80 = 0")
    case True
    with "2.prems" show ?thesis by (auto simp: Let_def intro!: exI [of _ "[b]"])
  next
    case False
    with "2.prems" have sh: "sh + 7 < 64" by (auto simp: Let_def split: if_splits)
    with False "2.prems" obtain p where "buf = p @ rest" "length p \<le> (70 - (sh + 7)) div 7"
      using "2.IH" [OF refl] by (auto simp: Let_def)
    moreover have "Suc ((70 - (sh + 7)) div 7) \<le> (70 - sh) div 7" using sh by linarith
    ultimately show ?thesis by (intro exI [of _ "b # p"]) auto
  qed
qed simp

lemma decode_loop_no_panic: "decode_varint_loop acc sh buf \<noteq> Panic"
  by (induction acc sh buf rule: decode_varint_loop.induct) (auto simp: Let_def)

lemma decode_u64_consumes:
  "decode_varint_u64 buf = Ok (v, rest) \<Longrightarrow> \<exists>p. buf = p @ rest \<and> p \<noteq> [] \<and> length p \<le> 10"
  using decode_loop_consumes [of 0 0 buf v rest] by (simp add: decode_varint_u64_def)

lemma decode_i64_consumes:
  "decode_varint buf = Ok (v, rest) \<Longrightarrow> \<exists>p. buf = p @ rest \<and> p \<noteq> [] \<and> length p \<le> 10"
  by (auto simp: decode_varint_def rbind_eq_Ok dest: decode_u64_consumes)

lemma decode_varint_shrinks:
  "decode_varint_u64 buf = Ok (v, rest) \<Longrightarrow> length rest < length buf"
  "decode_varint buf = Ok (w, rest) \<Longrightarrow> length rest < length buf"
  by (auto dest!: decode_u64_consumes decode_i64_consumes)

lemma decode_varint_no_panic: "decode_varint_u64 buf \<noteq> Panic" "decode_varint buf \<noteq> Panic"
  by (cases "decode_varint_u64 buf"; simp add: decode_varint_def decode_varint_u64_def decode_loop_no_panic split_beta)+

section \<open>Properties\<close>

text \<open>
  Variable-length integers are a self-delimiting code: for every 64-bit value, signed or unsigned,
  the decoder returns that value and leaves exactly the bytes after it; on arbitrary input it returns an
  error or consumes between one and ten bytes, and never panics.
\<close>

theorem varint_roundtrip:
  "decode_varint (encode_varint i @ rest) = Ok (i, rest)
   \<and> decode_varint_u64 (encode_varint_u64 v @ rest) = Ok (v, rest)
   \<and> (case decode_varint_u64 buf of
        Ok (_, rest') \<Rightarrow> \<exists>p. buf = p @ rest' \<and> 1 \<le> length p \<and> length p \<le> 10
      | Err _ \<Rightarrow> True | Panic \<Rightarrow> False)"
  using decode_varint_no_panic(1) [of buf] decode_u64_consumes [of buf]
  by (auto simp: codec_simps Suc_le_eq split: result.splits)

lemma length_encode_iff:
  "length (encode_varint_u64 v) = Suc n \<longleftrightarrow> unat v < 2 ^ (7 * Suc n) \<and> (n = 0 \<or> 2 ^ (7 * n) \<le> unat v)"
proof (induction n arbitrary: v)
  case 0
  then show ?case by (subst length_encode_step) simp
next
  case (Suc n)
  let ?d = "drop_bit 7 v"
  have up: "unat ?d < 2 ^ (7 * Suc n) \<longleftrightarrow> unat v < 2 ^ (7 * Suc (Suc n))"
    by (simp add: unat_drop_7 power_add div_less_iff_less_mult)
  have lo: "2 ^ (7 * n) \<le> unat ?d \<longleftrightarrow> 2 ^ (7 * Suc n) \<le> unat v"
    by (simp add: unat_drop_7 power_add less_eq_div_iff_mult_less_eq mult.commute)
  have ge: "128 \<le> unat v \<longleftrightarrow> 1 \<le> unat ?d" by (simp add: unat_drop_7 less_eq_div_iff_mult_less_eq)
  have "128 * 1 \<le> 128 * (2::nat) ^ (7 * n)" by (rule mult_le_mono2) simp
  moreover have "(2::nat) ^ (7 * Suc n) = 128 * 2 ^ (7 * n)" by (simp add: power_add)
  ultimately have big: "2 ^ (7 * Suc n) \<le> unat v \<Longrightarrow> 128 \<le> unat v" by linarith
  show ?case
    using Suc.IH [of ?d] up lo ge big by (subst length_encode_step) (cases "n = 0"; auto)
qed

text \<open>
  The encoding of an unsigned value has \<open>n + 1\<close> bytes exactly when the value needs \<open>n + 1\<close> groups of
  seven bits, so between one and ten bytes; a signed value takes one byte exactly when its ZigZag image is
  below 128.
\<close>

theorem varint_length:
  "1 \<le> length (encode_varint_u64 v) \<and> length (encode_varint_u64 v) \<le> 10
   \<and> (length (encode_varint_u64 v) = Suc n \<longleftrightarrow> unat v < 2 ^ (7 * Suc n) \<and> (n = 0 \<or> 2 ^ (7 * n) \<le> unat v))
   \<and> (length (encode_varint i) = 1 \<longleftrightarrow> unat (zigzag i) < 128)"
  using length_encode_bounds [of v] length_encode_iff [of v n] length_encode_iff [of "zigzag i" 0]
  by (simp add: encode_varint_def)

end
