(* ===== verification/Segment_Writer.thy ===== *)
theory Segment_Writer
  imports Varint
begin

text \<open>
  \<^verbatim>\<open>SegmentWriter\<close> (\<^verbatim>\<open>streamhouse-storage/src/segment/writer.rs\<close>) with the constants of
  \<^verbatim>\<open>segment/mod.rs\<close>: records are delta-encoded into a block, a full block is compressed and
  indexed, and \<open>finish\<close> lays out header, blocks, index and footer. The LZ4 compressor and the CRC-32
  function are third-party code and parameters of the definitions that call them.
\<close>

section \<open>Constants and state\<close>

definition SEGMENT_MAGIC :: bytes where "SEGMENT_MAGIC = [0x53, 0x54, 0x52, 0x4D]"
definition SEGMENT_VERSION :: u16 where "SEGMENT_VERSION = 1"
definition BLOCK_SIZE_TARGET :: nat where "BLOCK_SIZE_TARGET = 1024 * 1024"
definition HEADER_SIZE :: nat where "HEADER_SIZE = 64"
definition FOOTER_SIZE :: nat where "FOOTER_SIZE = 32"

record IndexEntry =
  ie_offset :: u64
  ie_file_position :: u64
  ie_timestamp :: u64

record SegmentWriter =
  sw_compression :: Compression
  sw_current_block :: bytes
  sw_blocks :: "bytes list"
  sw_index :: "IndexEntry list"
  sw_base_offset :: "u64 option"
  sw_last_offset :: "u64 option"
  sw_record_count :: u32
  sw_last_timestamp :: u64
  sw_first_timestamp :: "u64 option"

definition SegmentWriter_new :: "Compression \<Rightarrow> SegmentWriter" where
  "SegmentWriter_new c =
     \<lparr>sw_compression = c, sw_current_block = [], sw_blocks = [], sw_index = [],
      sw_base_offset = None, sw_last_offset = None, sw_record_count = 0,
      sw_last_timestamp = 0, sw_first_timestamp = None\<rparr>"

section \<open>Operations\<close>

definition encode_key :: "bytes option \<Rightarrow> bytes" where
  "encode_key k = (case k of Some key \<Rightarrow> encode_varint_u64 (of_nat (length key)) @ key
                   | None \<Rightarrow> encode_varint_u64 0)"

definition encode_value :: "bytes \<Rightarrow> bytes" where
  "encode_value v = encode_varint_u64 (of_nat (length v)) @ v"

definition encode_record :: "SegmentWriter \<Rightarrow> Record \<Rightarrow> SegmentWriter" where
  "encode_record w r =
     (let offset_delta = (case sw_last_offset w of Some prev \<Rightarrow> rec_offset r - prev | None \<Rightarrow> 0);
          timestamp_delta = rec_timestamp r - sw_last_timestamp w
      in w\<lparr>sw_last_timestamp := rec_timestamp r,
           sw_current_block := sw_current_block w
             @ encode_varint offset_delta @ encode_varint timestamp_delta
             @ encode_key (rec_key r) @ encode_value (rec_value r)\<rparr>)"

definition compress_block :: "(bytes \<Rightarrow> bytes) \<Rightarrow> Compression \<Rightarrow> bytes \<Rightarrow> (error, bytes) result" where
  "compress_block lz4 c block =
     (case c of CompNone \<Rightarrow> Ok block
      | CompLz4 \<Rightarrow> Ok (lz4 block)
      | CompZstd \<Rightarrow> Err (Unsupported ''Zstd compression not yet implemented''))"

definition flush_block :: "(bytes \<Rightarrow> bytes) \<Rightarrow> SegmentWriter \<Rightarrow> (error, SegmentWriter) result" where
  "flush_block lz4 w =
     (if sw_current_block w = [] then Ok w
      else rbind (compress_block lz4 (sw_compression w) (sw_current_block w)) (\<lambda>compressed.
        Ok (w\<lparr>sw_blocks := sw_blocks w @ [compressed], sw_current_block := []\<rparr>)))"

text \<open>The four stages of \<^verbatim>\<open>append\<close>: first record, flush of a full block, new block, encoding.\<close>

definition start_segment :: "Record \<Rightarrow> SegmentWriter \<Rightarrow> SegmentWriter" where
  "start_segment r w =
     (if sw_base_offset w = None
      then w\<lparr>sw_base_offset := Some (rec_offset r), sw_first_timestamp := Some (rec_timestamp r),
             sw_last_timestamp := rec_timestamp r,
             sw_index := sw_index w @ [\<lparr>ie_offset = rec_offset r,
               ie_file_position = of_nat HEADER_SIZE, ie_timestamp = rec_timestamp r\<rparr>]\<rparr>
      else w)"

definition start_block :: "Record \<Rightarrow> SegmentWriter \<Rightarrow> SegmentWriter" where
  "start_block r w =
     (if sw_current_block w = [] \<and> sw_base_offset w \<noteq> None
         \<and> length (sw_index w) < length (sw_blocks w) + 1
      then let file_position =
             of_nat HEADER_SIZE + sum_list (map (\<lambda>b. of_nat (length b)) (sw_blocks w))
           in w\<lparr>sw_index := sw_index w @ [\<lparr>ie_offset = rec_offset r,
                  ie_file_position = file_position, ie_timestamp = rec_timestamp r\<rparr>],
                sw_last_offset := None, sw_last_timestamp := rec_timestamp r\<rparr>
      else w)"

definition append_record :: "(bytes \<Rightarrow> bytes) \<Rightarrow> SegmentWriter \<Rightarrow> Record \<Rightarrow> (error, SegmentWriter) result" where
  "append_record lz4 w r =
     (let w1 = start_segment r w in
      rbind (if length (sw_current_block w1) \<ge> BLOCK_SIZE_TARGET then flush_block lz4 w1 else Ok w1)
        (\<lambda>w2. let w3 = encode_record (start_block r w2) r
              in Ok (w3\<lparr>sw_last_offset := Some (rec_offset r),
                        sw_record_count := sw_record_count w3 + 1\<rparr>)))"

definition write_header :: "SegmentWriter \<Rightarrow> u64 \<Rightarrow> u64 \<Rightarrow> bytes" where
  "write_header w base_offset end_offset =
     SEGMENT_MAGIC @ put_u16 SEGMENT_VERSION @ put_u16 (compression_code (sw_compression w))
     @ put_u64 base_offset @ put_u64 end_offset @ put_u32 (sw_record_count w)
     @ put_u32 (of_nat (length (sw_blocks w))) @ replicate 32 0"

definition put_index_entry :: "IndexEntry \<Rightarrow> bytes" where
  "put_index_entry e = put_u64 (ie_offset e) @ put_u64 (ie_file_position e) @ put_u64 (ie_timestamp e)"

definition write_index :: "SegmentWriter \<Rightarrow> bytes" where
  "write_index w = put_u32 (of_nat (length (sw_index w))) @ concat (map put_index_entry (sw_index w))"

definition write_footer :: "(bytes \<Rightarrow> u32) \<Rightarrow> bytes \<Rightarrow> u64 \<Rightarrow> bytes" where
  "write_footer crc32 buf index_start =
     buf @ put_u64 index_start @ put_u32 (crc32 buf) @ SEGMENT_MAGIC @ replicate 16 0"

definition finish :: "(bytes \<Rightarrow> bytes) \<Rightarrow> (bytes \<Rightarrow> u32) \<Rightarrow> SegmentWriter \<Rightarrow> (error, bytes) result" where
  "finish lz4 crc32 w0 =
     rbind (flush_block lz4 w0) (\<lambda>w.
     rbind (ok_or (InvalidSegment ''No records written'') (sw_base_offset w)) (\<lambda>base_offset.
     rbind (ok_or (InvalidSegment ''No records written'') (sw_last_offset w)) (\<lambda>end_offset.
       let output = write_header w base_offset end_offset @ concat (sw_blocks w);
           index_start = of_nat (length output)
       in Ok (write_footer crc32 (output @ write_index w) index_start))))"

definition min_timestamp :: "SegmentWriter \<Rightarrow> u64 option" where
  "min_timestamp w = sw_first_timestamp w"

definition max_timestamp :: "SegmentWriter \<Rightarrow> u64 option" where
  "max_timestamp w = (if sw_record_count w > 0 then Some (sw_last_timestamp w) else None)"

text \<open>A caller's loop: append every record in turn, stopping at the first error.\<close>

fun append_all :: "(bytes \<Rightarrow> bytes) \<Rightarrow> SegmentWriter \<Rightarrow> Record list \<Rightarrow> (error, SegmentWriter) result" where
  "append_all lz4 w [] = Ok w"
| "append_all lz4 w (r # rs) = rbind (append_record lz4 w r) (\<lambda>w'. append_all lz4 w' rs)"

definition write_segment ::
  "(bytes \<Rightarrow> bytes) \<Rightarrow> (bytes \<Rightarrow> u32) \<Rightarrow> Compression \<Rightarrow> Record list \<Rightarrow> (error, bytes) result" where
  "write_segment lz4 crc32 c rs = rbind (append_all lz4 (SegmentWriter_new c) rs) (finish lz4 crc32)"

end
