(* ===== verification/Segment_Layout.thy ===== *)
theory Segment_Layout
  imports Segment_Writer
begin

text \<open>
  What a segment file is, stated without the writer's mutable state: the records cut into non-empty
  blocks, each block delta-encoded from its own first record (\<open>encode_block\<close>), the index giving the
  first record and the file position of each block (\<open>index_entries\<close>), all framed by header and footer
  (\<open>segment_image\<close>). The main lemma, \<open>write_segment_layout\<close>, shows that appending records one by
  one and finishing produces exactly such an image: the writer refines this description.
\<close>

section \<open>The abstract layout\<close>

definition record_bytes :: "u64 \<Rightarrow> u64 \<Rightarrow> Record \<Rightarrow> bytes" where
  "record_bytes o' t r = encode_varint (rec_offset r - o') @ encode_varint (rec_timestamp r - t)
     @ encode_key (rec_key r) @ encode_value (rec_value r)"

fun encode_run :: "u64 \<Rightarrow> u64 \<Rightarrow> Record list \<Rightarrow> bytes" where
  "encode_run o' t [] = []"
| "encode_run o' t (r # rs) = record_bytes o' t r @ encode_run (rec_offset r) (rec_timestamp r) rs"

definition encode_block :: "Record list \<Rightarrow> bytes" where
  "encode_block rs = (case rs of [] \<Rightarrow> [] | r # _ \<Rightarrow> encode_run (rec_offset r) (rec_timestamp r) rs)"

definition stored_block :: "(bytes \<Rightarrow> bytes) \<Rightarrow> Compression \<Rightarrow> Record list \<Rightarrow> bytes" where
  "stored_block lz4 c b = (if c = CompLz4 then lz4 (encode_block b) else encode_block b)"

fun index_entries :: "(Record list \<Rightarrow> bytes) \<Rightarrow> u64 \<Rightarrow> Record list list \<Rightarrow> IndexEntry list" where
  "index_entries f pos [] = []"
| "index_entries f pos (b # bs) =
     \<lparr>ie_offset = rec_offset (hd b), ie_file_position = pos, ie_timestamp = rec_timestamp (hd b)\<rparr>
     # index_entries f (pos + of_nat (length (f b))) bs"

definition header_image :: "Compression \<Rightarrow> Record list list \<Rightarrow> bytes" where
  "header_image c blks = SEGMENT_MAGIC @ put_u16 SEGMENT_VERSION @ put_u16 (compression_code c)
     @ put_u64 (rec_offset (hd (concat blks))) @ put_u64 (rec_offset (last (concat blks)))
     @ put_u32 (of_nat (length (concat blks))) @ put_u32 (of_nat (length blks)) @ replicate 32 0"

definition index_image :: "IndexEntry list \<Rightarrow> bytes" where
  "index_image es = put_u32 (of_nat (length es)) @ concat (map put_index_entry es)"

definition footer_image :: "u64 \<Rightarrow> u32 \<Rightarrow> bytes" where
  "footer_image pos crc = put_u64 pos @ put_u32 crc @ SEGMENT_MAGIC @ replicate 16 0"

definition blocks_image :: "(bytes \<Rightarrow> bytes) \<Rightarrow> Compression \<Rightarrow> Record list list \<Rightarrow> bytes" where
  "blocks_image lz4 c blks = header_image c blks @ concat (map (stored_block lz4 c) blks)"

definition covered_image :: "(bytes \<Rightarrow> bytes) \<Rightarrow> Compression \<Rightarrow> Record list list \<Rightarrow> bytes" where
  "covered_image lz4 c blks = blocks_image lz4 c blks
     @ index_image (index_entries (stored_block lz4 c) (of_nat HEADER_SIZE) blks)"

definition segment_image ::
  "(bytes \<Rightarrow> bytes) \<Rightarrow> (bytes \<Rightarrow> u32) \<Rightarrow> Compression \<Rightarrow> Record list list \<Rightarrow> bytes" where
  "segment_image lz4 crc32 c blks = covered_image lz4 c blks
     @ footer_image (of_nat (length (blocks_image lz4 c blks))) (crc32 (covered_image lz4 c blks))"

text \<open>A block is closed by the first append that finds it at or above the target size.\<close>

definition blocks_sized :: "Record list list \<Rightarrow> bool" where
  "blocks_sized blks \<longleftrightarrow> (\<forall>b\<in>set blks. b \<noteq> [] \<and> length (encode_block (butlast b)) < BLOCK_SIZE_TARGET)"

section \<open>Lemmas on the layout\<close>

lemma encode_run_snoc:
  "encode_run o' t (rs @ [r]) =
     encode_run o' t rs @ (if rs = [] then record_bytes o' t r
                           else record_bytes (rec_offset (last rs)) (rec_timestamp (last rs)) r)"
  by (induction rs arbitrary: o' t) auto

lemma encode_block_snoc:
  "rs \<noteq> [] \<Longrightarrow> encode_block (rs @ [r]) =
     encode_block rs @ record_bytes (rec_offset (last rs)) (rec_timestamp (last rs)) r"
  by (cases rs) (simp_all add: encode_block_def encode_run_snoc split: list.splits)

lemma encode_block_single:
  "encode_block [r] = encode_varint 0 @ encode_varint 0 @ encode_key (rec_key r) @ encode_value (rec_value r)"
  by (simp add: encode_block_def record_bytes_def)

lemma record_bytes_nonempty [simp]: "record_bytes o' t r \<noteq> []"
  by (simp add: record_bytes_def)

lemma encode_block_empty [simp]: "encode_block rs = [] \<longleftrightarrow> rs = []"
  by (cases rs) (simp_all add: encode_block_def)

lemma encode_block_Nil [simp]: "encode_block [] = []"
  by (simp add: encode_block_def)

lemma length_index_entries [simp]: "length (index_entries f pos bs) = length bs"
  by (induction bs arbitrary: pos) auto

lemma index_entries_append:
  "index_entries f pos (bs @ cs) = index_entries f pos bs
     @ index_entries f (pos + sum_list (map (\<lambda>x. of_nat (length (f x))) bs)) cs"
  by (induction bs arbitrary: pos) (auto simp: add.assoc)

section \<open>The writer's state represents a layout\<close>

definition writer_rep ::
  "(bytes \<Rightarrow> bytes) \<Rightarrow> Compression \<Rightarrow> SegmentWriter \<Rightarrow> Record list list \<Rightarrow> Record list \<Rightarrow> bool" where
  "writer_rep lz4 c w full cur \<longleftrightarrow>
     sw_compression w = c \<and>
     sw_blocks w = map (stored_block lz4 c) full \<and>
     sw_current_block w = encode_block cur \<and>
     sw_index w = index_entries (stored_block lz4 c) (of_nat HEADER_SIZE) (full @ [cur]) \<and>
     sw_base_offset w = Some (rec_offset (hd (concat full @ cur))) \<and>
     sw_last_offset w = Some (rec_offset (last cur)) \<and>
     sw_last_timestamp w = rec_timestamp (last cur) \<and>
     sw_first_timestamp w = Some (rec_timestamp (hd (concat full @ cur))) \<and>
     sw_record_count w = of_nat (length (concat full @ cur)) \<and>
     blocks_sized (full @ [cur])"

lemma writer_rep_cur: "writer_rep lz4 c w full cur \<Longrightarrow> cur \<noteq> []"
  by (simp add: writer_rep_def blocks_sized_def)

lemma append_first:
  assumes "append_record lz4 (SegmentWriter_new c) r = Ok w"
  shows "writer_rep lz4 c w [] [r]"
  using assms
  by (auto simp: append_record_def start_segment_def start_block_def SegmentWriter_new_def
      encode_record_def writer_rep_def blocks_sized_def encode_block_single BLOCK_SIZE_TARGET_def)

lemma append_first_Ok: "\<exists>w. append_record lz4 (SegmentWriter_new c) r = Ok w"
  by (simp add: append_record_def start_segment_def SegmentWriter_new_def BLOCK_SIZE_TARGET_def Let_def)

lemma append_rep_same_block:
  assumes rep: "writer_rep lz4 c w full cur" and room: "length (encode_block cur) < BLOCK_SIZE_TARGET"
  shows "\<exists>w'. append_record lz4 w r = Ok w' \<and> writer_rep lz4 c w' full (cur @ [r])"
proof -
  have cur: "cur \<noteq> []" using rep by (rule writer_rep_cur)
  show ?thesis
    using rep room cur
    by (auto simp: append_record_def start_segment_def start_block_def encode_record_def writer_rep_def
        blocks_sized_def Let_def encode_block_snoc record_bytes_def index_entries_append hd_append)
qed

lemma append_rep_new_block:
  assumes rep: "writer_rep lz4 c w full cur" and "c \<noteq> CompZstd"
    and room: "\<not> length (encode_block cur) < BLOCK_SIZE_TARGET"
  shows "\<exists>w'. append_record lz4 w r = Ok w' \<and> writer_rep lz4 c w' (full @ [cur]) [r]"
proof -
  have cur: "cur \<noteq> []" using rep by (rule writer_rep_cur)
  have "compress_block lz4 c (encode_block cur) = Ok (stored_block lz4 c cur)"
    using assms(2) by (cases c) (simp_all add: compress_block_def stored_block_def)
  then show ?thesis
    using rep room cur
    by (auto simp: append_record_def start_segment_def start_block_def encode_record_def writer_rep_def
        flush_block_def blocks_sized_def Let_def encode_block_single index_entries_append
        BLOCK_SIZE_TARGET_def comp_def hd_append)
qed

lemma append_rep:
  assumes "writer_rep lz4 c w full cur" and "c \<noteq> CompZstd"
  shows "\<exists>w' full' cur'. append_record lz4 w r = Ok w' \<and> writer_rep lz4 c w' full' cur'
           \<and> concat full' @ cur' = concat full @ cur @ [r]"
proof (cases "length (encode_block cur) < BLOCK_SIZE_TARGET")
  case True
  then show ?thesis using append_rep_same_block [OF assms(1), of r] by fastforce
next
  case False
  then show ?thesis using append_rep_new_block [OF assms, of r] by fastforce
qed

lemma append_all_rep:
  assumes "writer_rep lz4 c w full cur" and "c \<noteq> CompZstd"
  shows "\<exists>w' full' cur'. append_all lz4 w rs = Ok w' \<and> writer_rep lz4 c w' full' cur'
           \<and> concat full' @ cur' = concat full @ cur @ rs"
  using assms(1)
proof (induction rs arbitrary: w full cur)
  case Nil
  then show ?case by auto
next
  case (Cons r rs)
  obtain w1 f1 c1 where 1: "append_record lz4 w r = Ok w1" "writer_rep lz4 c w1 f1 c1"
    "concat f1 @ c1 = concat full @ cur @ [r]"
    using append_rep [OF Cons.prems assms(2)] by blast
  then show ?case using Cons.IH [OF 1(2)] by fastforce
qed

section \<open>Finishing\<close>

lemma finish_rep:
  assumes rep: "writer_rep lz4 c w full cur" and c: "c \<noteq> CompZstd"
  shows "finish lz4 crc32 w = Ok (segment_image lz4 crc32 c (full @ [cur]))"
proof -
  have cur: "cur \<noteq> []" using rep by (rule writer_rep_cur)
  have "compress_block lz4 c (encode_block cur) = Ok (stored_block lz4 c cur)"
    using c by (cases c) (simp_all add: compress_block_def stored_block_def)
  then show ?thesis
    using rep cur
    by (simp add: finish_def flush_block_def writer_rep_def segment_image_def covered_image_def
        blocks_image_def header_image_def index_image_def footer_image_def write_header_def
        write_index_def write_footer_def Let_def comp_def add.commute)
qed

lemma write_segment_layout:
  assumes "rs \<noteq> []" and c: "c \<noteq> CompZstd"
  shows "\<exists>blks. concat blks = rs \<and> blks \<noteq> [] \<and> blocks_sized blks
           \<and> write_segment lz4 crc32 c rs = Ok (segment_image lz4 crc32 c blks)"
proof -
  obtain r rs' where rs: "rs = r # rs'" using assms(1) by (cases rs) auto
  obtain w1 where w1: "append_record lz4 (SegmentWriter_new c) r = Ok w1"
    using append_first_Ok by blast
  obtain w full cur where a: "append_all lz4 w1 rs' = Ok w" "writer_rep lz4 c w full cur"
    "concat full @ cur = r # rs'"
    using append_all_rep [OF append_first [OF w1] c, of rs'] by auto
  have "write_segment lz4 crc32 c rs = Ok (segment_image lz4 crc32 c (full @ [cur]))"
    using w1 a finish_rep [OF a(2) c] by (simp add: write_segment_def rs)
  then show ?thesis
    using a rs by (intro exI [of _ "full @ [cur]"]) (simp add: writer_rep_def)
qed

text \<open>A Zstd writer accepts records as long as one block suffices and fails when a block is closed.\<close>

lemma append_all_zstd:
  assumes "writer_rep lz4 CompZstd w [] cur"
  shows "append_all lz4 w rs = Err (Unsupported ''Zstd compression not yet implemented'')
       \<or> (\<exists>w' cur'. append_all lz4 w rs = Ok w' \<and> writer_rep lz4 CompZstd w' [] cur')"
  using assms
proof (induction rs arbitrary: w cur)
  case (Cons r rs)
  show ?case
  proof (cases "length (encode_block cur) < BLOCK_SIZE_TARGET")
    case True
    then show ?thesis using append_rep_same_block [OF Cons.prems, of r] Cons.IH by fastforce
  next
    case False
    then show ?thesis
      using Cons.prems writer_rep_cur [OF Cons.prems]
      by (simp add: append_record_def start_segment_def writer_rep_def flush_block_def compress_block_def Let_def)
  qed
qed auto

lemma write_segment_zstd:
  assumes "rs \<noteq> []"
  shows "write_segment lz4 crc32 CompZstd rs = Err (Unsupported ''Zstd compression not yet implemented'')"
proof -
  obtain r rs' where rs: "rs = r # rs'" using assms by (cases rs) auto
  obtain w1 where w1: "append_record lz4 (SegmentWriter_new CompZstd) r = Ok w1"
    using append_first_Ok by blast
  consider "append_all lz4 w1 rs' = Err (Unsupported ''Zstd compression not yet implemented'')"
    | w cur where "append_all lz4 w1 rs' = Ok w" "writer_rep lz4 CompZstd w [] cur"
    using append_all_zstd [OF append_first [OF w1], of rs'] by blast
  then show ?thesis
  proof cases
    case 1
    then show ?thesis by (simp add: write_segment_def rs w1)
  next
    case (2 w cur)
    then show ?thesis
      using writer_rep_cur [OF 2(2)]
      by (simp add: write_segment_def rs w1 finish_def flush_block_def compress_block_def writer_rep_def)
  qed
qed

lemma write_segment_empty:
  "write_segment lz4 crc32 c [] = Err (InvalidSegment ''No records written'')"
  by (simp add: write_segment_def finish_def flush_block_def SegmentWriter_new_def)

end
