(* ===== verification/Segment_Reader.thy ===== *)
theory Segment_Reader
  imports Segment_Writer
begin

text \<open>
  \<^verbatim>\<open>SegmentReader\<close> (\<^verbatim>\<open>streamhouse-storage/src/segment/reader.rs\<close>): opening a segment (size check,
  header, footer with CRC and magic, index), decoding a block, reading every record and reading from
  an offset through a binary search of the index. The LZ4 decompressor and the CRC-32 function are
  parameters. Slices out of range and cursor reads past the end are panics, as in the source.
\<close>

section \<open>State\<close>

record SegmentHeader =
  sh_version :: u16
  sh_compression :: Compression
  sh_base_offset :: u64
  sh_end_offset :: u64
  sh_record_count :: u32
  sh_block_count :: u32

record SegmentReader =
  sr_data :: bytes
  sr_header :: SegmentHeader
  sr_index :: "IndexEntry list"
  sr_index_position :: u64

section \<open>Opening a segment\<close>

definition read_header :: "bytes \<Rightarrow> (error, SegmentHeader) result" where
  "read_header data =
     rbind (slice 0 HEADER_SIZE data) (\<lambda>c0.
     rbind (get_bytes 4 c0) (\<lambda>(magic, c1).
     if magic \<noteq> SEGMENT_MAGIC then Err InvalidMagic else
     rbind (get_u16 c1) (\<lambda>(version, c2).
     if version \<noteq> SEGMENT_VERSION then Err (UnsupportedVersion version) else
     rbind (get_u16 c2) (\<lambda>(compression_value, c3).
     rbind (compression_try_from compression_value) (\<lambda>compression.
     rbind (get_u64 c3) (\<lambda>(base_offset, c4).
     rbind (get_u64 c4) (\<lambda>(end_offset, c5).
     rbind (get_u32 c5) (\<lambda>(record_count, c6).
     rbind (get_u32 c6) (\<lambda>(block_count, c7).
       Ok \<lparr>sh_version = version, sh_compression = compression, sh_base_offset = base_offset,
           sh_end_offset = end_offset, sh_record_count = record_count,
           sh_block_count = block_count\<rparr>)))))))))"

definition read_footer :: "(bytes \<Rightarrow> u32) \<Rightarrow> bytes \<Rightarrow> nat \<Rightarrow> (error, u64) result" where
  "read_footer crc32 data footer_start =
     rbind (slice footer_start (length data) data) (\<lambda>c0.
     rbind (get_u64 c0) (\<lambda>(index_position, c1).
     rbind (get_u32 c1) (\<lambda>(stored_crc, c2).
     rbind (slice 0 footer_start data) (\<lambda>covered.
     if stored_crc \<noteq> crc32 covered then Err CrcMismatch else
     rbind (get_bytes 4 c2) (\<lambda>(magic, c3).
     if magic \<noteq> SEGMENT_MAGIC then Err InvalidMagic else Ok index_position)))))"

definition get_index_entry :: "bytes \<Rightarrow> (error, IndexEntry \<times> bytes) result" where
  "get_index_entry c0 =
     rbind (get_u64 c0) (\<lambda>(off, c1).
     rbind (get_u64 c1) (\<lambda>(pos, c2).
     rbind (get_u64 c2) (\<lambda>(ts, c3).
       Ok (\<lparr>ie_offset = off, ie_file_position = pos, ie_timestamp = ts\<rparr>, c3))))"

definition read_index :: "bytes \<Rightarrow> nat \<Rightarrow> (error, IndexEntry list) result" where
  "read_index data index_start =
     rbind (slice index_start (length data) data) (\<lambda>c0.
     rbind (get_u32 c0) (\<lambda>(entry_count, c1).
     rbind (get_many get_index_entry (unat entry_count) c1) (\<lambda>(index, c2). Ok index)))"

definition SegmentReader_new :: "(bytes \<Rightarrow> u32) \<Rightarrow> bytes \<Rightarrow> (error, SegmentReader) result" where
  "SegmentReader_new crc32 data =
     (if length data < HEADER_SIZE + FOOTER_SIZE then Err (InvalidSegment ''Segment too small'') else
      rbind (read_header data) (\<lambda>header.
      rbind (read_footer crc32 data (length data - FOOTER_SIZE)) (\<lambda>index_position.
      rbind (read_index data (unat index_position)) (\<lambda>index.
        Ok \<lparr>sr_data = data, sr_header = header, sr_index = index,
            sr_index_position = index_position\<rparr>))))"

section \<open>Blocks\<close>

definition decompress_block ::
  "(bytes \<Rightarrow> (string, bytes) result) \<Rightarrow> Compression \<Rightarrow> bytes \<Rightarrow> (error, bytes) result" where
  "decompress_block unlz4 c block_data =
     (case c of CompNone \<Rightarrow> Ok block_data
      | CompLz4 \<Rightarrow> map_err Decompression (unlz4 block_data)
      | CompZstd \<Rightarrow> Err (Unsupported ''Zstd compression not yet implemented''))"

definition decode_key :: "bytes \<Rightarrow> (error, bytes option \<times> bytes) result" where
  "decode_key cursor =
     rbind (decode_varint_u64 cursor) (\<lambda>(key_len, c).
     if key_len > 0 then
       if length c < unat key_len
       then Err (InvalidSegment ''Unexpected end of block reading key'')
       else Ok (Some (take (unat key_len) c), drop (unat key_len) c)
     else Ok (None, c))"

definition decode_value :: "bytes \<Rightarrow> (error, bytes \<times> bytes) result" where
  "decode_value cursor =
     rbind (decode_varint_u64 cursor) (\<lambda>(value_len, c).
     if length c < unat value_len
     then Err (InvalidSegment ''Unexpected end of block reading value'')
     else Ok (take (unat value_len) c, drop (unat value_len) c))"

text \<open>The body of the \<^verbatim>\<open>while cursor.has_remaining()\<close> loop, then the loop.\<close>

definition decode_one :: "u64 \<Rightarrow> u64 \<Rightarrow> bytes \<Rightarrow> (error, Record \<times> bytes) result" where
  "decode_one current_offset current_timestamp cursor =
     rbind (decode_varint cursor) (\<lambda>(offset_delta, c1).
     rbind (decode_varint c1) (\<lambda>(timestamp_delta, c2).
     rbind (decode_key c2) (\<lambda>(key, c3).
     rbind (decode_value c3) (\<lambda>(val, c4).
       Ok (Record_new (current_offset + offset_delta) (current_timestamp + timestamp_delta) key val, c4)))))"

lemma decode_key_shrinks: "decode_key c = Ok (k, rest) \<Longrightarrow> length rest < length c"
  by (fastforce simp: decode_key_def rbind_eq_Ok split: if_splits dest: decode_varint_shrinks(1))

lemma decode_value_shrinks: "decode_value c = Ok (v, rest) \<Longrightarrow> length rest < length c"
  by (fastforce simp: decode_value_def rbind_eq_Ok split: if_splits dest: decode_varint_shrinks(1))

lemma decode_one_shrinks: "decode_one o' t c = Ok (r, rest) \<Longrightarrow> length rest < length c"
  by (auto simp: decode_one_def rbind_eq_Ok
      dest!: decode_varint_shrinks(2) decode_key_shrinks decode_value_shrinks)

function decode_block :: "u64 \<Rightarrow> u64 \<Rightarrow> bytes \<Rightarrow> (error, Record list) result" where
  "decode_block current_offset current_timestamp cursor =
     (if cursor = [] then Ok []
      else rbind (decode_one current_offset current_timestamp cursor) (\<lambda>(r, rest).
           rbind (decode_block (rec_offset r) (rec_timestamp r) rest) (\<lambda>rs. Ok (r # rs))))"
  by pat_completeness auto
termination
  by (relation "measure (\<lambda>(o', t, c). length c)") (auto simp: decode_one_shrinks)

declare decode_block.simps [simp del]

definition read_block ::
  "(bytes \<Rightarrow> (string, bytes) result) \<Rightarrow> SegmentReader \<Rightarrow> nat \<Rightarrow> (error, Record list) result" where
  "read_block unlz4 r block_index =
     (if block_index \<ge> length (sr_index r)
      then Err (InvalidSegment ''Block index out of range'')
      else
        let entry = sr_index r ! block_index;
            block_start = unat (ie_file_position entry);
            block_end = (if block_index + 1 < length (sr_index r)
                         then unat (ie_file_position (sr_index r ! (block_index + 1)))
                         else unat (sr_index_position r))
        in rbind (slice block_start block_end (sr_data r)) (\<lambda>block_data.
           rbind (decompress_block unlz4 (sh_compression (sr_header r)) block_data) (\<lambda>decompressed.
             decode_block (ie_offset entry) (ie_timestamp entry) decompressed)))"

section \<open>Reading\<close>

text \<open>\<^verbatim>\<open>for i in from..index.len() { records.extend(f(self.read_block(i)?)) }\<close>.\<close>

fun read_blocks ::
  "(bytes \<Rightarrow> (string, bytes) result) \<Rightarrow> SegmentReader \<Rightarrow> (Record \<Rightarrow> bool) \<Rightarrow> nat list \<Rightarrow> (error, Record list) result" where
  "read_blocks unlz4 r keep [] = Ok []"
| "read_blocks unlz4 r keep (i # is) =
     rbind (read_block unlz4 r i) (\<lambda>block_records.
     rbind (read_blocks unlz4 r keep is) (\<lambda>more. Ok (filter keep block_records @ more)))"

definition read_all :: "(bytes \<Rightarrow> (string, bytes) result) \<Rightarrow> SegmentReader \<Rightarrow> (error, Record list) result" where
  "read_all unlz4 r = read_blocks unlz4 r (\<lambda>_. True) [0..<length (sr_index r)]"

function bsearch :: "IndexEntry list \<Rightarrow> u64 \<Rightarrow> nat \<Rightarrow> nat \<Rightarrow> nat" where
  "bsearch index off left right =
     (if left < right then
        let mid = (left + right) div 2 in
        if ie_offset (index ! mid) \<le> off then bsearch index off (mid + 1) right
        else bsearch index off left mid
      else left)"
  by pat_completeness auto
termination
  by (relation "measure (\<lambda>(ix, off, l, r). r - l)") auto

declare bsearch.simps [simp del]

definition find_block_for_offset :: "SegmentReader \<Rightarrow> u64 \<Rightarrow> nat" where
  "find_block_for_offset r off =
     (if sr_index r = [] then 0
      else let left = bsearch (sr_index r) off 0 (length (sr_index r))
           in if left > 0 then left - 1 else 0)"

definition read_from_offset ::
  "(bytes \<Rightarrow> (string, bytes) result) \<Rightarrow> SegmentReader \<Rightarrow> u64 \<Rightarrow> (error, Record list) result" where
  "read_from_offset unlz4 r start_offset =
     read_blocks unlz4 r (\<lambda>rec. rec_offset rec \<ge> start_offset)
       [find_block_for_offset r start_offset..<length (sr_index r)]"

end
