(* ===== verification/Segment_Roundtrip.thy ===== *)
theory Segment_Roundtrip
  imports Segment_Layout Segment_Reader
begin

text \<open>
  Reading back what was written. The block compressor is an interface, \<open>block_codec\<close>, that the
  model's \<open>compress_block\<close>/\<open>decompress_block\<close> satisfy for every supported compression; a segment image
  opens, each of its blocks decodes to the records it was built from, and seeking by offset returns
  exactly the records at or after that offset.
\<close>

section \<open>Decoding a block\<close>

definition record_fits :: "Record \<Rightarrow> bool" where
  "record_fits r \<longleftrightarrow> (case rec_key r of None \<Rightarrow> True | Some k \<Rightarrow> length k < 2 ^ 64) \<and> length (rec_value r) < 2 ^ 64"

lemma decode_key_encode:
  "(case k of None \<Rightarrow> True | Some key \<Rightarrow> length key < 2 ^ 64) \<Longrightarrow>
   decode_key (encode_key k @ rest) = Ok (stored_key k, rest)"
  by (cases k) (auto simp: decode_key_def encode_key_def stored_key_def codec_simps word_gt_0)

lemma decode_value_encode:
  "length v < 2 ^ 64 \<Longrightarrow> decode_value (encode_value v @ rest) = Ok (v, rest)"
  by (simp add: decode_value_def encode_value_def codec_simps)

lemma decode_one_record:
  "record_fits r \<Longrightarrow> decode_one o' t (record_bytes o' t r @ rest) = Ok (stored_record r, rest)"
  by (simp add: decode_one_def record_bytes_def codec_simps decode_key_encode decode_value_encode
      record_fits_def Record_new_def stored_record_def)

lemma decode_block_run:
  "(\<And>r. r \<in> set rs \<Longrightarrow> record_fits r) \<Longrightarrow> decode_block o' t (encode_run o' t rs) = Ok (map stored_record rs)"
proof (induction rs arbitrary: o' t)
  case Nil
  then show ?case by (simp add: decode_block.simps)
next
  case (Cons r rs)
  then have "decode_block (rec_offset r) (rec_timestamp r) (encode_run (rec_offset r) (rec_timestamp r) rs)
      = Ok (map stored_record rs)" by simp
  with Cons.prems show ?case
    by (simp add: decode_block.simps [of o' t] decode_one_record)
qed

section \<open>The block compressor\<close>

text \<open>
  LZ4 is third-party code; its documented contract, for inputs whose length fits the 32-bit size
  prefix of \<^verbatim>\<open>compress_prepend_size\<close>, is that decompression returns the input.
\<close>

definition lz4_contract :: "(bytes \<Rightarrow> bytes) \<Rightarrow> (bytes \<Rightarrow> (string, bytes) result) \<Rightarrow> bool" where
  "lz4_contract lz4 unlz4 \<longleftrightarrow> (\<forall>b. length b < 2 ^ 32 \<longrightarrow> unlz4 (lz4 b) = Ok b)"

locale block_codec =
  fixes comp :: "bytes \<Rightarrow> (error, bytes) result"
    and decomp :: "bytes \<Rightarrow> (error, bytes) result"
    and fits :: "bytes \<Rightarrow> bool"
  assumes comp_total: "fits b \<Longrightarrow> \<exists>z. comp b = Ok z"
    and decomp_comp: "fits b \<Longrightarrow> comp b = Ok z \<Longrightarrow> decomp z = Ok b"
begin

lemma comp_inj: "fits a \<Longrightarrow> fits b \<Longrightarrow> comp a = comp b \<Longrightarrow> a = b"
  using comp_total decomp_comp by (metis result.inject(1))

lemma decode_compressed:
  "fits b \<Longrightarrow> comp b = Ok z \<Longrightarrow> rbind (decomp z) (decode_block o' t) = decode_block o' t b"
  by (simp add: decomp_comp)

end

interpretation plain_block: block_codec "compress_block lz4 CompNone" "decompress_block unlz4 CompNone" "\<lambda>_. True"
  by unfold_locales (simp_all add: compress_block_def decompress_block_def)

lemma block_codec_supported:
  assumes "lz4_contract lz4 unlz4" and "c \<noteq> CompZstd"
  shows "block_codec (compress_block lz4 c) (decompress_block unlz4 c) (\<lambda>b. length b < 2 ^ 32)"
  using assms
  by unfold_locales
    (cases c; auto simp: compress_block_def decompress_block_def lz4_contract_def)+

definition record_small :: "Record \<Rightarrow> bool" where
  "record_small r \<longleftrightarrow> (case rec_key r of None \<Rightarrow> 0 | Some k \<Rightarrow> length k) + length (rec_value r) \<le> 2 ^ 31"

lemma record_small_fits: "record_small r \<Longrightarrow> record_fits r"
  by (cases "rec_key r") (auto simp: record_small_def record_fits_def)

lemma length_record_bytes: "record_small r \<Longrightarrow> length (record_bytes o' t r) \<le> 2 ^ 31 + 40"
proof -
  assume small: "record_small r"
  have v: "length (encode_varint x) \<le> 10" for x
    by (simp add: encode_varint_def length_encode_bounds(2))
  have k: "length (encode_key (rec_key r)) \<le> 10 + (case rec_key r of None \<Rightarrow> 0 | Some k \<Rightarrow> length k)"
    by (cases "rec_key r") (simp_all add: encode_key_def length_encode_bounds(2))
  have "length (encode_value (rec_value r)) \<le> 10 + length (rec_value r)"
    by (simp add: encode_value_def length_encode_bounds(2))
  with small k v [of "rec_offset r - o'"] v [of "rec_timestamp r - t"] show ?thesis
    by (simp add: record_bytes_def record_small_def)
qed

lemma length_encode_block:
  assumes "b \<noteq> []" and "length (encode_block (butlast b)) < BLOCK_SIZE_TARGET"
    and "\<And>r. r \<in> set b \<Longrightarrow> record_small r"
  shows "length (encode_block b) < 2 ^ 32"
proof -
  obtain b' r where b: "b = b' @ [r]" using assms(1) by (cases b rule: rev_cases) auto
  have "record_small r" using assms(3) b by simp
  then have r: "length (record_bytes o' t r) \<le> 2 ^ 31 + 40" for o' t by (rule length_record_bytes)
  show ?thesis
  proof (cases "b' = []")
    case True
    then show ?thesis using r [of "rec_offset r" "rec_timestamp r"] by (simp add: b encode_block_def)
  next
    case False
    then show ?thesis
      using r [of "rec_offset (last b')" "rec_timestamp (last b')"] assms(2)
      by (simp add: b encode_block_snoc BLOCK_SIZE_TARGET_def)
  qed
qed

lemma decompress_stored_block:
  assumes "lz4_contract lz4 unlz4" and "c \<noteq> CompZstd" and "length (encode_block b) < 2 ^ 32"
  shows "decompress_block unlz4 c (stored_block lz4 c b) = Ok (encode_block b)"
proof -
  have "compress_block lz4 c (encode_block b) = Ok (stored_block lz4 c b)"
    using assms(2) by (cases c) (simp_all add: compress_block_def stored_block_def)
  then show ?thesis
    using block_codec.decomp_comp [OF block_codec_supported [OF assms(1,2)]] assms(3) by blast
qed

section \<open>Opening an image\<close>

lemma image_lengths [simp]:
  "length SEGMENT_MAGIC = 4" "length (header_image c blks) = HEADER_SIZE"
  "length (footer_image p k) = FOOTER_SIZE"
  by (simp_all add: SEGMENT_MAGIC_def header_image_def footer_image_def HEADER_SIZE_def FOOTER_SIZE_def)

definition image_header :: "Compression \<Rightarrow> Record list list \<Rightarrow> SegmentHeader" where
  "image_header c blks =
     \<lparr>sh_version = SEGMENT_VERSION, sh_compression = c, sh_base_offset = rec_offset (hd (concat blks)),
      sh_end_offset = rec_offset (last (concat blks)), sh_record_count = of_nat (length (concat blks)),
      sh_block_count = of_nat (length blks)\<rparr>"

lemma read_header_image: "read_header (header_image c blks @ rest) = Ok (image_header c blks)"
proof -
  have "(slice 0 HEADER_SIZE (header_image c blks @ rest) :: (error, bytes) result) = Ok (header_image c blks)"
    by (simp add: slice_def)
  then show ?thesis
    by (simp add: read_header_def) (simp add: header_image_def codec_simps image_header_def)
qed

interpretation entry_codec: prefix_codec put_index_entry get_index_entry "\<lambda>_. True"
  by unfold_locales (simp add: get_index_entry_def put_index_entry_def codec_simps)

lemma read_index_image:
  assumes "length es < 2 ^ 32"
  shows "read_index (pre @ index_image es @ post) (length pre) = Ok es"
  using assms entry_codec.get_many_enc [of es post]
  by (simp add: read_index_def slice_def index_image_def codec_simps)

lemma read_footer_image:
  "read_footer crc32 (pre @ footer_image p (crc32 pre)) (length pre) = Ok p"
  by (simp add: read_footer_def slice_def) (simp add: footer_image_def codec_simps)

definition image_reader :: "(bytes \<Rightarrow> bytes) \<Rightarrow> (bytes \<Rightarrow> u32) \<Rightarrow> Compression \<Rightarrow> Record list list \<Rightarrow> SegmentReader" where
  "image_reader lz4 crc32 c blks =
     \<lparr>sr_data = segment_image lz4 crc32 c blks, sr_header = image_header c blks,
      sr_index = index_entries (stored_block lz4 c) (of_nat HEADER_SIZE) blks,
      sr_index_position = of_nat (length (blocks_image lz4 c blks))\<rparr>"

lemma open_image:
  assumes len: "length (segment_image lz4 crc32 c blks) < 2 ^ 64" and n: "length blks < 2 ^ 32"
  shows "SegmentReader_new crc32 (segment_image lz4 crc32 c blks) = Ok (image_reader lz4 crc32 c blks)"
proof -
  let ?d = "segment_image lz4 crc32 c blks"
  let ?es = "index_entries (stored_block lz4 c) (of_nat HEADER_SIZE) blks"
  let ?p = "of_nat (length (blocks_image lz4 c blks)) :: u64"
  have hdr: "read_header ?d = Ok (image_header c blks)"
    by (simp add: segment_image_def covered_image_def blocks_image_def read_header_image)
  have foot: "read_footer crc32 ?d (length ?d - FOOTER_SIZE) = Ok ?p"
    using read_footer_image [of crc32 "covered_image lz4 c blks" ?p] by (simp add: segment_image_def)
  have "length (blocks_image lz4 c blks) < 2 ^ 64"
    using len by (simp add: segment_image_def covered_image_def)
  then have "unat ?p = length (blocks_image lz4 c blks)" by simp
  then have idx: "read_index ?d (unat ?p) = Ok ?es"
    using read_index_image [of ?es "blocks_image lz4 c blks"] n
    by (simp add: segment_image_def covered_image_def)
  have "\<not> length ?d < HEADER_SIZE + FOOTER_SIZE"
    by (simp add: segment_image_def covered_image_def blocks_image_def)
  with hdr foot idx show ?thesis
    by (simp add: SegmentReader_new_def image_reader_def)
qed

section \<open>Reading the blocks of an image\<close>

lemma index_entries_nth:
  "i < length bs \<Longrightarrow> index_entries f pos bs ! i =
     \<lparr>ie_offset = rec_offset (hd (bs ! i)),
      ie_file_position = pos + of_nat (length (concat (map f (take i bs)))),
      ie_timestamp = rec_timestamp (hd (bs ! i))\<rparr>"
proof (induction bs arbitrary: i pos)
  case (Cons b bs)
  then show ?case by (cases i) (simp_all add: add.assoc)
qed simp

lemma blocks_image_split:
  assumes "i < length blks"
  shows "segment_image lz4 crc32 c blks =
    (header_image c blks @ concat (map (stored_block lz4 c) (take i blks))) @ stored_block lz4 c (blks ! i)
      @ (concat (map (stored_block lz4 c) (drop (Suc i) blks))
         @ index_image (index_entries (stored_block lz4 c) (of_nat HEADER_SIZE) blks)
         @ footer_image (of_nat (length (blocks_image lz4 c blks))) (crc32 (covered_image lz4 c blks)))"
proof -
  have "concat (map (stored_block lz4 c) blks) = concat (map (stored_block lz4 c) (take i blks))
      @ stored_block lz4 c (blks ! i) @ concat (map (stored_block lz4 c) (drop (Suc i) blks))"
    by (subst id_take_nth_drop [OF assms]) simp
  then show ?thesis
    unfolding segment_image_def by (simp add: covered_image_def blocks_image_def)
qed

lemma block_position:
  assumes len: "length (segment_image lz4 crc32 c blks) < 2 ^ 64" and i: "i \<le> length blks"
  shows "unat (of_nat HEADER_SIZE + of_nat (length (concat (map (stored_block lz4 c) (take i blks)))) :: u64)
       = HEADER_SIZE + length (concat (map (stored_block lz4 c) (take i blks)))"
proof -
  have "concat (map (stored_block lz4 c) blks) = concat (map (stored_block lz4 c) (take i blks))
      @ concat (map (stored_block lz4 c) (drop i blks))"
    by (metis append_take_drop_id concat_append map_append)
  then have "HEADER_SIZE + length (concat (map (stored_block lz4 c) (take i blks))) < 2 ^ 64"
    using len unfolding segment_image_def covered_image_def blocks_image_def by simp
  then show ?thesis using unat_of_nat_u64 by (metis of_nat_add)
qed

lemma read_image_block:
  assumes lz4: "lz4_contract lz4 unlz4" and c: "c \<noteq> CompZstd"
    and len: "length (segment_image lz4 crc32 c blks) < 2 ^ 64"
    and sized: "blocks_sized blks" and small: "\<And>r. r \<in> set (concat blks) \<Longrightarrow> record_small r"
    and i: "i < length blks"
  shows "read_block unlz4 (image_reader lz4 crc32 c blks) i = Ok (map stored_record (blks ! i))"
proof -
  let ?f = "stored_block lz4 c" and ?r = "image_reader lz4 crc32 c blks" and ?b = "blks ! i"
  let ?pos = "\<lambda>j. HEADER_SIZE + length (concat (map ?f (take j blks)))"
  have b: "?b \<in> set blks" "?b \<noteq> []" using i sized by (auto simp: blocks_sized_def)
  have start: "unat (ie_file_position (sr_index ?r ! i)) = ?pos i"
    using i block_position [OF len, of i] by (simp add: image_reader_def index_entries_nth)
  have stop: "(if i + 1 < length (sr_index ?r) then unat (ie_file_position (sr_index ?r ! (i + 1)))
       else unat (sr_index_position ?r)) = ?pos (Suc i)"
    using i block_position [OF len, of "Suc i"]
    by (cases "Suc i < length blks") (simp_all add: image_reader_def index_entries_nth blocks_image_def)
  have "?pos (Suc i) = ?pos i + length (?f ?b)"
    using i by (simp add: take_Suc_conv_app_nth)
  then have sl: "(slice (?pos i) (?pos (Suc i)) (segment_image lz4 crc32 c blks) :: (error, bytes) result) = Ok (?f ?b)"
    using slice_mid [of "header_image c blks @ concat (map ?f (take i blks))"]
    by (subst blocks_image_split [OF i]) (simp add: add.assoc)
  have "length (encode_block ?b) < 2 ^ 32"
    using b sized small by (intro length_encode_block) (auto simp: blocks_sized_def)
  then have de: "decompress_block unlz4 c (?f ?b) = Ok (encode_block ?b)"
    by (rule decompress_stored_block [OF lz4 c])
  have "encode_block ?b = encode_run (rec_offset (hd ?b)) (rec_timestamp (hd ?b)) ?b"
    using b(2) by (cases ?b) (simp_all add: encode_block_def)
  then have "decode_block (rec_offset (hd ?b)) (rec_timestamp (hd ?b)) (encode_block ?b) = Ok (map stored_record ?b)"
    using b(1) small by (auto intro!: decode_block_run record_small_fits)
  then show ?thesis
    using start stop sl de i
    by (simp add: read_block_def Let_def) (simp add: image_reader_def image_header_def index_entries_nth)
qed

lemma read_blocks_image:
  assumes "\<And>i. i \<in> set is \<Longrightarrow> read_block unlz4 r i = Ok (map stored_record (blks ! i))"
  shows "read_blocks unlz4 r keep is = Ok (filter keep (map stored_record (concat (map ((!) blks) is))))"
  using assms by (induction "is") auto

lemma read_all_image:
  assumes "\<And>i. i < length blks \<Longrightarrow> read_block unlz4 r i = Ok (map stored_record (blks ! i))"
    and "length (sr_index r) = length blks"
  shows "read_all unlz4 r = Ok (map stored_record (concat blks))"
  using read_blocks_image [of "[0..<length blks]" unlz4 r blks "\<lambda>_. True"] assms
  by (simp add: read_all_def map_nth)

section \<open>Seeking\<close>

lemma bsearch_spec:
  assumes "\<And>i j. i < j \<Longrightarrow> j < length ix \<Longrightarrow> ie_offset (ix ! i) < ie_offset (ix ! j)"
    and "left \<le> right" and "right \<le> length ix"
    and "\<And>j. j < left \<Longrightarrow> ie_offset (ix ! j) \<le> off"
    and "\<And>j. right \<le> j \<Longrightarrow> j < length ix \<Longrightarrow> off < ie_offset (ix ! j)"
  shows "let l = bsearch ix off left right in l \<le> length ix
     \<and> (\<forall>j<l. ie_offset (ix ! j) \<le> off) \<and> (\<forall>j<length ix. l \<le> j \<longrightarrow> off < ie_offset (ix ! j))"
  using assms
proof (induction ix off left right rule: bsearch.induct)
  case (1 ix off left right)
  let ?mid = "(left + right) div 2"
  note up = "1.prems"(1)
  show ?case
  proof (cases "left < right")
    case True
    then have mid: "left \<le> ?mid" "?mid < right" "?mid < length ix" using "1.prems" by auto
    show ?thesis
    proof (cases "ie_offset (ix ! ?mid) \<le> off")
      case le: True
      have "ie_offset (ix ! j) \<le> off" if "j < ?mid + 1" for j
      proof (cases "j = ?mid")
        case False
        with that up [of j ?mid] mid le show ?thesis by force
      qed (simp add: le)
      then show ?thesis
        using "1.IH"(1) [OF True refl le] "1.prems" mid le True
        by (simp add: bsearch.simps [of ix off left right])
    next
      case gt: False
      have "off < ie_offset (ix ! j)" if "?mid \<le> j" "j < length ix" for j
      proof (cases "j = ?mid")
        case True
        with gt show ?thesis by (simp add: not_le)
      next
        case False
        with that have "ie_offset (ix ! ?mid) < ie_offset (ix ! j)" by (intro up) auto
        with gt show ?thesis by (simp add: not_le)
      qed
      then show ?thesis
        using "1.IH"(2) [OF True refl gt] "1.prems" mid gt True
        by (simp add: bsearch.simps [of ix off left right])
    qed
  next
    case False
    then have "bsearch ix off left right = left" by (simp add: bsearch.simps [of ix off left right])
    with False "1.prems" show ?thesis by (simp add: Let_def)
  qed
qed

text \<open>With strictly increasing offsets, no record of an earlier block reaches the block's first offset.\<close>

lemma earlier_block_smaller:
  assumes inc: "sorted_wrt (<) (map rec_offset (concat blks))" and ne: "\<And>b. b \<in> set blks \<Longrightarrow> b \<noteq> []"
    and ij: "i < j" "j < length blks" and r: "r \<in> set (blks ! i)"
  shows "rec_offset r < rec_offset (hd (blks ! j))"
proof -
  have d: "concat blks = concat (take j blks) @ concat (drop j blks)"
    by (metis append_take_drop_id concat_append)
  have "r \<in> set (concat (take j blks))" using ij r by (auto simp only: in_concat_take intro!: exI [of _ i])
  moreover have "blks ! j \<noteq> []" using ij ne by simp
  then have "hd (blks ! j) \<in> set (concat (drop j blks))"
    using ij by (simp add: Cons_nth_drop_Suc [symmetric])
  ultimately show ?thesis using inc unfolding d by (auto simp: sorted_wrt_append)
qed

lemma read_from_image:
  assumes rd: "\<And>i. i < length blks \<Longrightarrow> read_block unlz4 r i = Ok (map stored_record (blks ! i))"
    and ix: "sr_index r = index_entries f pos blks" and blks: "blks \<noteq> []"
    and inc: "sorted_wrt (<) (map rec_offset (concat blks))" and ne: "\<And>b. b \<in> set blks \<Longrightarrow> b \<noteq> []"
  shows "read_from_offset unlz4 r start = Ok (filter (\<lambda>x. rec_offset x \<ge> start) (map stored_record (concat blks)))"
proof -
  let ?k = "find_block_for_offset r start" and ?P = "\<lambda>x. rec_offset x \<ge> start"
  let ?l = "bsearch (sr_index r) start 0 (length (sr_index r))"
  have up: "ie_offset (sr_index r ! i) < ie_offset (sr_index r ! j)" if "i < j" "j < length (sr_index r)" for i j
    using that earlier_block_smaller [OF inc ne, of i j "hd (blks ! i)"] ne [of "blks ! i"]
    by (simp add: ix index_entries_nth)
  have l: "?l \<le> length blks" "j < ?l \<Longrightarrow> ie_offset (sr_index r ! j) \<le> start" for j
    using bsearch_spec [OF up, of 0 "length (sr_index r)" start] by (auto simp: Let_def ix)
  have k: "?k \<le> length blks" "?k > 0 \<Longrightarrow> ?k < length blks \<and> rec_offset (hd (blks ! ?k)) \<le> start"
    using l(1) l(2) [of "?l - 1"] blks
    by (auto simp: find_block_for_offset_def Let_def ix index_entries_nth split: if_splits)
  have none: "\<not> ?P x" if x: "x \<in> set (concat (take ?k blks))" for x
  proof -
    obtain i where "i < ?k" "x \<in> set (blks ! i)" using x unfolding in_concat_take by blast
    then show ?thesis using k(2) earlier_block_smaller [OF inc ne, of i ?k x] by force
  qed
  have "concat (map ((!) blks) [?k..<length blks]) = concat (drop ?k blks)"
    by (metis drop_map drop_upt map_nth add_0)
  then have "read_from_offset unlz4 r start = Ok (filter ?P (map stored_record (concat (drop ?k blks))))"
    using read_blocks_image [of "[?k..<length blks]" unlz4 r blks ?P] rd by (simp add: read_from_offset_def ix)
  moreover have "filter ?P (map stored_record (concat (take ?k blks))) = []"
    using none by (auto simp: filter_empty_conv)
  ultimately show ?thesis
    by (metis (no_types, lifting) append_Nil append_take_drop_id concat_append filter_append map_append)
qed

end
