(* ===== verification/Segment_Properties.thy ===== *)
theory Segment_Properties
  imports Segment_Roundtrip
begin

text \<open>
  The properties of the segment format: round trip, seeking, the error outcomes of the writer, what a
  successful open guarantees, and what the reader does with an index position the CRC does not cover.
\<close>

lemmas segment_eval = write_segment_def append_record_def start_segment_def start_block_def
  encode_record_def SegmentWriter_new_def finish_def flush_block_def compress_block_def write_header_def
  write_index_def write_footer_def put_index_entry_def encode_key_def encode_value_def encode_varint_def
  zigzag_def encode_varint_u64.simps BLOCK_SIZE_TARGET_def HEADER_SIZE_def SEGMENT_MAGIC_def
  Record_new_def Let_def

definition demo_records :: "Record list" where
  "demo_records = [Record_new 100 5 (Some [1]) [2, 3], Record_new 101 7 None []]"

lemma demo_segment_length:
  "write_segment (\<lambda>b. b) (\<lambda>_. 0) CompLz4 demo_records = Ok d \<Longrightarrow> length d < 2 ^ 64"
  by (simp add: demo_records_def segment_eval) (auto simp: segment_eval)

lemma block_count_le: "blocks_sized blks \<Longrightarrow> length blks \<le> length (concat blks)"
proof (induction blks)
  case (Cons b blks)
  then show ?case by (cases b) (auto simp: blocks_sized_def)
qed simp

lemma written_image:
  assumes "rs \<noteq> []" "c \<noteq> CompZstd" "length rs < 2 ^ 32"
    and "write_segment lz4 crc32 c rs = Ok data" "length data < 2 ^ 64"
  obtains blks where "concat blks = rs" "blks \<noteq> []" "blocks_sized blks"
    "data = segment_image lz4 crc32 c blks"
    "SegmentReader_new crc32 data = Ok (image_reader lz4 crc32 c blks)"
proof -
  obtain blks where b: "concat blks = rs" "blks \<noteq> []" "blocks_sized blks"
    "write_segment lz4 crc32 c rs = Ok (segment_image lz4 crc32 c blks)"
    using write_segment_layout [OF assms(1,2)] by blast
  have "length blks < 2 ^ 32" using block_count_le [OF b(3)] b(1) assms(3) by simp
  then show thesis using that [of blks] b assms(4,5) open_image [of lz4 crc32 c blks] by simp
qed

lemma written_decodes:
  assumes "lz4_contract lz4 unlz4" and "rs \<noteq> []" and "c \<noteq> CompZstd" and "length rs < 2 ^ 32"
    and "\<And>r. r \<in> set rs \<Longrightarrow> record_small r" and w: "write_segment lz4 crc32 c rs = Ok data" and len: "length data < 2 ^ 64"
  shows "\<exists>rd. SegmentReader_new crc32 data = Ok rd \<and> read_all unlz4 rd = Ok (map stored_record rs)
       \<and> sh_base_offset (sr_header rd) = rec_offset (hd rs) \<and> sh_end_offset (sr_header rd) = rec_offset (last rs)
       \<and> unat (sh_record_count (sr_header rd)) = length rs"
proof -
  obtain blks where b: "concat blks = rs" "blocks_sized blks" "data = segment_image lz4 crc32 c blks"
    and op: "SegmentReader_new crc32 data = Ok (image_reader lz4 crc32 c blks)"
    using written_image [OF assms(2,3,4) w len] by metis
  have "read_all unlz4 (image_reader lz4 crc32 c blks) = Ok (map stored_record (concat blks))"
    using b len assms by (intro read_all_image read_image_block) (auto simp: image_reader_def)
  then show ?thesis
    using op b(1) assms(4) by (simp add: image_reader_def image_header_def)
qed

lemma written_seeks:
  assumes "lz4_contract lz4 unlz4" and "rs \<noteq> []" and "c \<noteq> CompZstd" and "length rs < 2 ^ 32"
    and "\<And>r. r \<in> set rs \<Longrightarrow> record_small r" and "sorted_wrt (<) (map rec_offset rs)"
    and "write_segment lz4 crc32 c rs = Ok data" and "length data < 2 ^ 64"
  shows "\<exists>rd. SegmentReader_new crc32 data = Ok rd \<and>
    read_from_offset unlz4 rd start = Ok (filter (\<lambda>r. rec_offset r \<ge> start) (map stored_record rs))"
proof -
  obtain blks where b: "concat blks = rs" "blks \<noteq> []" "blocks_sized blks" "data = segment_image lz4 crc32 c blks"
    and op: "SegmentReader_new crc32 data = Ok (image_reader lz4 crc32 c blks)"
    using written_image [OF assms(2,3,4,7,8)] by metis
  have rd: "read_block unlz4 (image_reader lz4 crc32 c blks) i = Ok (map stored_record (blks ! i))"
    if "i < length blks" for i
    using that b assms by (intro read_image_block) auto
  have "read_from_offset unlz4 (image_reader lz4 crc32 c blks) start
      = Ok (filter (\<lambda>r. rec_offset r \<ge> start) (map stored_record (concat blks)))"
    using b assms(6) by (intro read_from_image [OF rd]) (auto simp: image_reader_def blocks_sized_def)
  then show ?thesis using op b(1) by auto
qed

text \<open>
  C1. Segment round trip: for a supported compression, a non-empty batch of fewer than 2^32 records is
  always accepted, and the bytes the writer produces (below the 64-bit address range) open and read
  back as the same records in the same order (an empty key is stored as no key), with the header
  carrying the first and last offset and the record count.
\<close>

theorem segment_roundtrip:
  assumes "lz4_contract lz4 unlz4" and "rs \<noteq> []" and "c \<noteq> CompZstd" and "length rs < 2 ^ 32"
    and "\<And>r. r \<in> set rs \<Longrightarrow> record_small r"
  shows "\<exists>data. write_segment lz4 crc32 c rs = Ok data \<and> (length data < 2 ^ 64 \<longrightarrow>
     (\<exists>rd. SegmentReader_new crc32 data = Ok rd \<and> read_all unlz4 rd = Ok (map stored_record rs)
       \<and> sh_base_offset (sr_header rd) = rec_offset (hd rs) \<and> sh_end_offset (sr_header rd) = rec_offset (last rs)
       \<and> unat (sh_record_count (sr_header rd)) = length rs))"
proof -
  obtain data where "write_segment lz4 crc32 c rs = Ok data"
    using write_segment_layout [OF assms(2,3)] by blast
  then show ?thesis using written_decodes [OF assms(1-5), of crc32 data] by blast
qed

theorem segment_roundtrip_witness:
  "\<exists>data rd. write_segment (\<lambda>b. b) (\<lambda>_. 0) CompLz4 demo_records = Ok data
     \<and> SegmentReader_new (\<lambda>_. 0) data = Ok rd \<and> read_all Ok rd = Ok demo_records"
proof -
  have "lz4_contract (\<lambda>b. b) Ok" by (simp add: lz4_contract_def)
  moreover have "r \<in> set demo_records \<Longrightarrow> record_small r" for r
    by (auto simp: demo_records_def record_small_def Record_new_def)
  moreover have "map stored_record demo_records = demo_records"
    by (simp add: demo_records_def stored_record_def stored_key_def Record_new_def)
  ultimately show ?thesis
    using segment_roundtrip [of "\<lambda>b. b" Ok demo_records CompLz4 "\<lambda>_. 0"] demo_segment_length
    by (auto simp: demo_records_def)
qed

text \<open>
  C2. Seeking: when the offsets of a segment increase strictly, reading from an offset (binary search
  over the index, then a scan of the remaining blocks) returns exactly the records at or after it.
\<close>

theorem read_from_offset_complete:
  assumes "lz4_contract lz4 unlz4" and "rs \<noteq> []" and "c \<noteq> CompZstd" and "length rs < 2 ^ 32"
    and "\<And>r. r \<in> set rs \<Longrightarrow> record_small r" and "sorted_wrt (<) (map rec_offset rs)"
    and "write_segment lz4 crc32 c rs = Ok data" and "length data < 2 ^ 64"
  shows "\<exists>rd. SegmentReader_new crc32 data = Ok rd \<and>
    read_from_offset unlz4 rd start = Ok (filter (\<lambda>r. rec_offset r \<ge> start) (map stored_record rs))"
  using assms by (rule written_seeks)

theorem read_from_offset_complete_witness:
  "\<exists>data rd. write_segment (\<lambda>b. b) (\<lambda>_. 0) CompLz4 demo_records = Ok data
     \<and> SegmentReader_new (\<lambda>_. 0) data = Ok rd \<and> read_from_offset Ok rd 101 = Ok [Record_new 101 7 None []]"
proof -
  have lz4: "lz4_contract (\<lambda>b. b) Ok" by (simp add: lz4_contract_def)
  obtain data where w: "write_segment (\<lambda>b. b) (\<lambda>_. 0) CompLz4 demo_records = Ok data"
    using write_segment_layout [of demo_records CompLz4] by (auto simp: demo_records_def)
  have "r \<in> set demo_records \<Longrightarrow> record_small r" for r
    by (auto simp: demo_records_def record_small_def Record_new_def)
  then have "\<exists>rd. SegmentReader_new (\<lambda>_. 0) data = Ok rd \<and> read_from_offset Ok rd 101
      = Ok (filter (\<lambda>r. rec_offset r \<ge> 101) (map stored_record demo_records))"
    using read_from_offset_complete [OF lz4 _ _ _ _ _ w demo_segment_length [OF w], of 101]
    by (simp add: demo_records_def Record_new_def)
  then show ?thesis
    using w by (simp add: demo_records_def stored_record_def stored_key_def Record_new_def)
qed

text \<open>
  Writer errors: finishing a segment with no records is an error, and so is any Zstd segment, at
  the latest when its last block is closed; no bytes are produced in either case.
\<close>

theorem write_segment_errors:
  "write_segment lz4 crc32 c [] = Err (InvalidSegment ''No records written'')
   \<and> write_segment lz4 crc32 CompZstd (r # rs) = Err (Unsupported ''Zstd compression not yet implemented'')"
  by (simp add: write_segment_empty write_segment_zstd)

lemma rbind_case_eq_Ok:
  "rbind x (\<lambda>(a, b). f a b) = Ok y \<longleftrightarrow> (\<exists>a b. x = Ok (a, b) \<and> f a b = Ok y)"
  by (cases x) (auto split: prod.splits)

lemma get_bytes_Ok: "get_bytes n bs = Ok (x, rest) \<longleftrightarrow> n \<le> length bs \<and> x = take n bs \<and> rest = drop n bs"
  by (auto simp: get_bytes_def)

lemma get_be_Ok: "get_be n bs = Ok (x, rest) \<longleftrightarrow> n \<le> length bs \<and> x = be_val (take n bs) \<and> rest = drop n bs"
  by (auto simp: get_be_def rbind_case_eq_Ok get_bytes_Ok)

lemma slice_Ok: "slice a b xs = Ok ys \<longleftrightarrow> a \<le> b \<and> b \<le> length xs \<and> ys = take (b - a) (drop a xs)"
  by (auto simp: slice_def)

lemmas cursor_Ok = rbind_case_eq_Ok rbind_eq_Ok get_bytes_Ok get_be_Ok slice_Ok get_u16_def get_u32_def get_u64_def

lemma read_header_Ok:
  "read_header data = Ok h \<Longrightarrow> take 4 data = SEGMENT_MAGIC \<and> be_val (take 2 (drop 4 data)) = SEGMENT_VERSION"
  by (auto simp: read_header_def cursor_Ok HEADER_SIZE_def drop_take min_def split: if_splits)

lemma read_footer_Ok:
  "read_footer crc32 data n = Ok p \<Longrightarrow> be_val (take 4 (drop (n + 8) data)) = crc32 (take n data)
     \<and> take 4 (drop (n + 12) data) = SEGMENT_MAGIC \<and> p = be_val (take 8 (drop n data))"
  by (auto simp: read_footer_def cursor_Ok add.commute split: if_splits)

text \<open>
  Integrity: a segment that opens has both magic numbers, the supported version, and a stored
  CRC equal to the CRC of every byte before the footer, so any change to those bytes that changes the
  CRC makes opening fail.
\<close>

theorem open_checks_integrity:
  assumes "SegmentReader_new crc32 data = Ok rd"
  shows "HEADER_SIZE + FOOTER_SIZE \<le> length data \<and> take 4 data = SEGMENT_MAGIC
    \<and> be_val (take 2 (drop 4 data)) = SEGMENT_VERSION
    \<and> be_val (take 4 (drop (length data - FOOTER_SIZE + 8) data)) = crc32 (take (length data - FOOTER_SIZE) data)
    \<and> take 4 (drop (length data - FOOTER_SIZE + 12) data) = SEGMENT_MAGIC \<and> sr_data rd = data"
  using assms
  by (auto simp: SegmentReader_new_def rbind_eq_Ok dest: read_header_Ok read_footer_Ok split: if_splits)

theorem open_checks_integrity_witness:
  "\<exists>data rd. SegmentReader_new (\<lambda>_. 0) data = Ok rd \<and> take 4 data = SEGMENT_MAGIC \<and> sr_data rd = data"
proof -
  obtain data where w: "write_segment (\<lambda>b. b) (\<lambda>_. 0) CompLz4 demo_records = Ok data"
    using write_segment_layout [of demo_records CompLz4] by (auto simp: demo_records_def)
  obtain rd where "SegmentReader_new (\<lambda>_. 0) data = Ok rd"
    using written_image [OF _ _ _ w demo_segment_length [OF w]] by (auto simp: demo_records_def)
  then show ?thesis using open_checks_integrity [of "\<lambda>_. 0" data rd] by blast
qed

text \<open>
  The index position is stored in the footer, outside the bytes the CRC covers, and is not range
  checked: a segment whose only damage is an index position past the end of the file makes the reader
  panic instead of returning an error.
\<close>

theorem bad_index_position_panics:
  assumes "unat pos > length (covered_image lz4 c blks) + FOOTER_SIZE"
  shows "SegmentReader_new crc32 (covered_image lz4 c blks @ footer_image pos (crc32 (covered_image lz4 c blks))) = Panic"
proof -
  let ?all = "covered_image lz4 c blks" and ?d = "covered_image lz4 c blks @ footer_image pos (crc32 (covered_image lz4 c blks))"
  have "read_header ?d = Ok (image_header c blks)"
    by (simp add: covered_image_def blocks_image_def read_header_image)
  moreover have "read_footer crc32 ?d (length ?d - FOOTER_SIZE) = Ok pos"
    using read_footer_image [of crc32 ?all pos] by simp
  moreover have "read_index ?d (unat pos) = Panic"
    using assms by (simp add: read_index_def slice_def)
  moreover have "\<not> length ?d < HEADER_SIZE + FOOTER_SIZE"
    by (simp add: covered_image_def blocks_image_def)
  ultimately show ?thesis by (simp add: SegmentReader_new_def)
qed

theorem bad_index_position_panics_witness:
  "SegmentReader_new (\<lambda>_. 0) (covered_image (\<lambda>b. b) CompNone [demo_records]
     @ footer_image 1000 ((\<lambda>_. 0) (covered_image (\<lambda>b. b) CompNone [demo_records]))) = Panic"
  by (rule bad_index_position_panics)
    (simp add: covered_image_def blocks_image_def HEADER_SIZE_def FOOTER_SIZE_def stored_block_def
      encode_block_def record_bytes_def index_image_def demo_records_def segment_eval)

text \<open>
  The timestamps a finished writer reports as minimum and maximum are those of the first and the
  last record appended, whatever the order of the timestamps in between.
\<close>

theorem writer_timestamps_first_last:
  assumes "append_all lz4 (SegmentWriter_new c) rs = Ok w" and "rs \<noteq> []" and "c \<noteq> CompZstd" and "length rs < 2 ^ 32"
  shows "min_timestamp w = Some (rec_timestamp (hd rs)) \<and> max_timestamp w = Some (rec_timestamp (last rs))"
proof -
  obtain r rs' where rs: "rs = r # rs'" using assms(2) by (cases rs) auto
  obtain w1 where w1: "append_record lz4 (SegmentWriter_new c) r = Ok w1"
    using append_first_Ok by blast
  obtain full cur where a: "writer_rep lz4 c w full cur" "concat full @ cur = rs"
    using append_all_rep [OF append_first [OF w1] assms(3), of rs'] assms(1) by (auto simp: rs w1)
  have "cur \<noteq> []" using a(1) by (rule writer_rep_cur)
  then have "last rs = last cur" using a(2) by auto
  moreover have "sw_record_count w > 0"
    using a assms(2,4) by (simp add: writer_rep_def word_gt_0 del: of_nat_add length_append)
  ultimately show ?thesis
    using a by (simp add: writer_rep_def min_timestamp_def max_timestamp_def)
qed

theorem writer_timestamps_first_last_witness:
  "\<exists>w. append_all (\<lambda>b. b) (SegmentWriter_new CompNone) [Record_new 0 9 None [], Record_new 1 4 None []] = Ok w
     \<and> min_timestamp w = Some 9 \<and> max_timestamp w = Some 4"
proof -
  let ?rs = "[Record_new 0 9 None [], Record_new 1 4 None []]"
  obtain w where w: "append_all (\<lambda>b. b) (SegmentWriter_new CompNone) ?rs = Ok w"
    by (simp add: segment_eval)
  show ?thesis
    using writer_timestamps_first_last [OF w] w by (simp add: Record_new_def)
qed

end
