(* ===== verification/Wal_Format.thy ===== *)
theory Wal_Format
  imports Core_Types
begin

text \<open>
  The write-ahead log file, \<^verbatim>\<open>streamhouse-storage/src/wal.rs\<close>: \<open>serialize_record\<close> (size, CRC, timestamp,
  key, value, all little endian) and \<open>read_wal_file\<close>, the loop that recovery runs over the file. The CRC
  hasher is third-party code: a function of the bytes fed to it. The file is its content; an operating
  system read error is the caller's outcome (see \<open>Wal_Recovery\<close>).
\<close>

section \<open>Records and their serialisation\<close>

record WALRecord =
  wr_key :: "bytes option"
  wr_value :: bytes
  wr_timestamp :: u64

definition key_size :: "bytes option \<Rightarrow> u32" where
  "key_size key = of_nat (case key of None \<Rightarrow> 0 | Some k \<Rightarrow> length k)"

definition key_bytes :: "bytes option \<Rightarrow> bytes" where
  "key_bytes key = (case key of None \<Rightarrow> [] | Some k \<Rightarrow> k)"

definition wal_payload :: "bytes option \<Rightarrow> bytes \<Rightarrow> u64 \<Rightarrow> bytes" where
  "wal_payload key val timestamp =
     u64_to_le_bytes timestamp @ u32_to_le_bytes (key_size key) @ key_bytes key
     @ u32_to_le_bytes (of_nat (length val)) @ val"

definition serialize_record :: "(bytes \<Rightarrow> u32) \<Rightarrow> bytes option \<Rightarrow> bytes \<Rightarrow> u64 \<Rightarrow> bytes" where
  "serialize_record crc32 key val timestamp =
     (let value_size = of_nat (length val) :: u32;
          record_size = 4 + 8 + 4 + key_size key + 4 + value_size
      in u32_to_le_bytes record_size
         @ u32_to_le_bytes (crc32 (wal_payload key val timestamp))
         @ wal_payload key val timestamp)"

section \<open>Reading a file\<close>

text \<open>
  The body of the loop, given the \<open>record_size\<close> bytes of one entry: \<open>Ok None\<close> is the CRC mismatch
  that is logged and skipped. Indexing the buffer out of range panics.
\<close>

definition parse_wal_record :: "(bytes \<Rightarrow> u32) \<Rightarrow> bytes \<Rightarrow> (error, WALRecord option) result" where
  "parse_wal_record crc32 record_buf =
     rbind (get_u32_le record_buf) (\<lambda>(stored_crc, c1).
     if stored_crc \<noteq> crc32 c1 then Ok None else
     rbind (get_u64_le c1) (\<lambda>(timestamp, c2).
     rbind (get_u32_le c2) (\<lambda>(ksize, c3).
     rbind (if ksize > 0 then rbind (get_bytes (unat ksize) c3) (\<lambda>(k, c). Ok (Some k, c)) else Ok (None, c3))
       (\<lambda>(key, c4).
     rbind (get_u32_le c4) (\<lambda>(vsize, c5).
     rbind (get_bytes (unat vsize) c5) (\<lambda>(val, c6).
       Ok (Some \<lparr>wr_key = key, wr_value = val, wr_timestamp = timestamp\<rparr>)))))))"

function read_wal_file :: "(bytes \<Rightarrow> u32) \<Rightarrow> bytes \<Rightarrow> (error, WALRecord list) result" where
  "read_wal_file crc32 file =
     (if length file < 4 then Ok []
      else
        let record_size = unat (le_val (take 4 file) :: u32); rest = drop 4 file in
        if length rest < record_size then Ok []
        else rbind (parse_wal_record crc32 (take record_size rest)) (\<lambda>parsed.
             rbind (read_wal_file crc32 (drop record_size rest)) (\<lambda>records.
               Ok (case parsed of None \<Rightarrow> records | Some r \<Rightarrow> r # records))))"
  by pat_completeness auto
termination
  by (relation "measure (\<lambda>(c, f). length f)") auto

declare read_wal_file.simps [simp del]

section \<open>Lemmas\<close>

text \<open>What one appended record reads back as, and the size limit under which it does.\<close>

definition wal_serialize :: "(bytes \<Rightarrow> u32) \<Rightarrow> WALRecord \<Rightarrow> bytes" where
  "wal_serialize crc32 r = serialize_record crc32 (wr_key r) (wr_value r) (wr_timestamp r)"

definition wal_stored :: "WALRecord \<Rightarrow> WALRecord" where
  "wal_stored r = r\<lparr>wr_key := stored_key (wr_key r)\<rparr>"

definition wal_fits :: "WALRecord \<Rightarrow> bool" where
  "wal_fits r \<longleftrightarrow> 20 + length (key_bytes (wr_key r)) + length (wr_value r) < 2 ^ 32"

lemma length_wal_payload [simp]: "length (wal_payload k v t) = 16 + length (key_bytes k) + length v"
  by (simp add: wal_payload_def)

lemma key_size_alt: "key_size k = of_nat (length (key_bytes k))"
  by (simp add: key_size_def key_bytes_def split: option.splits)

lemma wal_serialize_alt:
  "wal_serialize crc32 r =
     u32_to_le_bytes (of_nat (20 + length (key_bytes (wr_key r)) + length (wr_value r)))
     @ u32_to_le_bytes (crc32 (wal_payload (wr_key r) (wr_value r) (wr_timestamp r)))
     @ wal_payload (wr_key r) (wr_value r) (wr_timestamp r)"
  by (simp add: wal_serialize_def serialize_record_def Let_def key_size_alt ac_simps)

lemma length_wal_serialize:
  "length (wal_serialize crc32 r) = 24 + length (key_bytes (wr_key r)) + length (wr_value r)"
  by (simp add: wal_serialize_alt)

lemma parse_wal_serialized:
  assumes "wal_fits r"
  shows "parse_wal_record crc32 (u32_to_le_bytes (crc32 (wal_payload (wr_key r) (wr_value r) (wr_timestamp r)))
      @ wal_payload (wr_key r) (wr_value r) (wr_timestamp r)) = Ok (Some (wal_stored r))"
proof -
  have k: "length (key_bytes (wr_key r)) < 2 ^ 32" and v: "length (wr_value r) < 2 ^ 32"
    using assms by (auto simp: wal_fits_def)
  have sk: "stored_key (wr_key r) = (if key_bytes (wr_key r) = [] then None else Some (key_bytes (wr_key r)))"
    by (auto simp: stored_key_def key_bytes_def split: option.splits)
  show ?thesis
    using k v
    by (simp add: parse_wal_record_def wal_payload_def codec_simps key_size_alt word_gt_0 wal_stored_def sk)
qed

text \<open>One entry at the head of the file, intact or with a checksum that does not match.\<close>

lemma read_wal_entry:
  assumes "4 + length p < 2 ^ 32"
  shows "read_wal_file crc32 (u32_to_le_bytes (of_nat (4 + length p)) @ u32_to_le_bytes k @ p @ rest) =
     rbind (parse_wal_record crc32 (u32_to_le_bytes k @ p)) (\<lambda>parsed.
     rbind (read_wal_file crc32 rest) (\<lambda>records.
       Ok (case parsed of None \<Rightarrow> records | Some r \<Rightarrow> r # records)))"
proof -
  let ?f = "u32_to_le_bytes (of_nat (4 + length p)) @ u32_to_le_bytes k @ p @ rest"
  have "unat (le_val (take 4 ?f) :: u32) = 4 + length p"
    using assms unat_of_nat_u32 [OF assms] by (simp add: le_val_full del: of_nat_add)
  then show ?thesis
    by (subst read_wal_file.simps) (simp add: Let_def)
qed

lemma read_wal_cons:
  assumes "wal_fits r"
  shows "read_wal_file crc32 (wal_serialize crc32 r @ rest) =
     rbind (read_wal_file crc32 rest) (\<lambda>rs. Ok (wal_stored r # rs))"
  using assms read_wal_entry [of "wal_payload (wr_key r) (wr_value r) (wr_timestamp r)" crc32]
    parse_wal_serialized [OF assms, of crc32]
  by (simp add: wal_serialize_alt wal_fits_def add.assoc del: of_nat_add)

lemma read_wal_append:
  "(\<And>r. r \<in> set rs \<Longrightarrow> wal_fits r) \<Longrightarrow> read_wal_file crc32 (concat (map (wal_serialize crc32) rs) @ rest) =
     rbind (read_wal_file crc32 rest) (\<lambda>more. Ok (map wal_stored rs @ more))"
  by (induction rs) (auto simp: read_wal_cons rbind_assoc; cases "read_wal_file crc32 rest"; simp)+

lemma read_wal_torn:
  assumes "wal_fits r" and "n < length (wal_serialize crc32 r)"
  shows "read_wal_file crc32 (take n (wal_serialize crc32 r)) = Ok []"
proof (cases "n < 4")
  case True
  then have "length (take n (wal_serialize crc32 r)) < 4" by simp
  then show ?thesis by (subst read_wal_file.simps) (simp only: if_True)
next
  case False
  let ?len = "20 + length (key_bytes (wr_key r)) + length (wr_value r)"
  have "take 4 (take n (wal_serialize crc32 r)) = u32_to_le_bytes (of_nat ?len)"
    using False by (simp add: wal_serialize_alt min_def del: of_nat_add)
  then have "unat (le_val (take 4 (take n (wal_serialize crc32 r))) :: u32) = ?len"
    using assms(1) by (simp add: le_val_full wal_fits_def del: of_nat_add)
  moreover have "n - 4 < ?len" using False assms(2) by (simp add: length_wal_serialize)
  ultimately show ?thesis
    using False assms(2) by (subst read_wal_file.simps) (simp add: Let_def length_wal_serialize min_def)
qed

text \<open>The longest run of complete entries within the first \<open>n\<close> bytes.\<close>

fun whole_entries :: "(bytes \<Rightarrow> u32) \<Rightarrow> nat \<Rightarrow> WALRecord list \<Rightarrow> nat" where
  "whole_entries crc32 n [] = 0"
| "whole_entries crc32 n (r # rs) =
     (let l = length (wal_serialize crc32 r) in if l \<le> n then Suc (whole_entries crc32 (n - l) rs) else 0)"

lemma read_wal_prefix:
  "(\<And>r. r \<in> set rs \<Longrightarrow> wal_fits r) \<Longrightarrow> read_wal_file crc32 (take n (concat (map (wal_serialize crc32) rs)))
     = Ok (map wal_stored (take (whole_entries crc32 n rs) rs))"
proof (induction rs arbitrary: n)
  case Nil
  show ?case by (simp add: read_wal_file.simps)
next
  case (Cons r rs)
  show ?case
  proof (cases "length (wal_serialize crc32 r) \<le> n")
    case True
    then show ?thesis using Cons by (simp add: read_wal_cons Let_def)
  next
    case False
    then show ?thesis using Cons.prems by (simp add: read_wal_torn Let_def)
  qed
qed

lemma whole_entries_le: "whole_entries crc32 n rs \<le> length rs"
  by (induction crc32 n rs rule: whole_entries.induct) (auto simp: Let_def)

lemma whole_entries_max:
  "j \<le> length rs \<Longrightarrow> length (concat (map (wal_serialize crc32) (take j rs))) \<le> n \<Longrightarrow> j \<le> whole_entries crc32 n rs"
proof (induction rs arbitrary: j n)
  case (Cons r rs)
  show ?case
  proof (cases j)
    case (Suc i)
    have "i \<le> whole_entries crc32 (n - length (wal_serialize crc32 r)) rs"
      using Cons.prems Suc by (intro Cons.IH) auto
    then show ?thesis using Cons.prems Suc by (simp add: Let_def)
  qed simp
qed simp

definition demo_wal :: "WALRecord list" where
  "demo_wal = [\<lparr>wr_key = Some [7], wr_value = [1, 2], wr_timestamp = 11\<rparr>,
               \<lparr>wr_key = None, wr_value = [], wr_timestamp = 12\<rparr>]"

lemma demo_wal_fits: "r \<in> set demo_wal \<Longrightarrow> wal_fits r"
  by (auto simp: demo_wal_def wal_fits_def key_bytes_def)

section \<open>Properties of the log file\<close>

text \<open>
  C24. Crash recovery of a torn log: whatever prefix of the appended bytes survives, reading the file
  succeeds and returns exactly the records whose entries lie completely within the prefix, in
  order; with the whole file it returns them all.
\<close>

theorem wal_recovers_complete_prefix:
  assumes "\<And>r. r \<in> set rs \<Longrightarrow> wal_fits r"
  shows "\<exists>k\<le>length rs. read_wal_file crc32 (take n (concat (map (wal_serialize crc32) rs))) = Ok (map wal_stored (take k rs))
     \<and> (\<forall>j\<le>length rs. length (concat (map (wal_serialize crc32) (take j rs))) \<le> n \<longrightarrow> j \<le> k)"
  using read_wal_prefix [OF assms] whole_entries_le whole_entries_max by metis

theorem wal_recovers_complete_prefix_witness:
  "\<exists>k\<le>2. read_wal_file (\<lambda>_. 0) (take 30 (concat (map (wal_serialize (\<lambda>_. 0)) demo_wal)))
       = Ok (map wal_stored (take k demo_wal)) \<and> 1 \<le> k"
proof -
  obtain k where k: "k \<le> length demo_wal"
    "read_wal_file (\<lambda>_. 0) (take 30 (concat (map (wal_serialize (\<lambda>_. 0)) demo_wal))) = Ok (map wal_stored (take k demo_wal))"
    "\<forall>j\<le>length demo_wal. length (concat (map (wal_serialize (\<lambda>_. 0)) (take j demo_wal))) \<le> 30 \<longrightarrow> j \<le> k"
    using wal_recovers_complete_prefix [of demo_wal "\<lambda>_. 0" 30] demo_wal_fits by blast
  have "1 \<le> k" using k(3) by (auto simp: demo_wal_def length_wal_serialize key_bytes_def)
  moreover have "k \<le> 2" using k(1) by (simp add: demo_wal_def)
  ultimately show ?thesis using k(2) by blast
qed

text \<open>
  A damaged entry costs only itself: between intact entries, one whose stored checksum differs
  from the checksum of its payload is skipped and every other record is recovered.
\<close>

theorem wal_skips_corrupt_record:
  assumes "\<And>r. r \<in> set as \<Longrightarrow> wal_fits r" and "\<And>r. r \<in> set bs \<Longrightarrow> wal_fits r"
    and "4 + length p < 2 ^ 32" and "crc32 p \<noteq> k"
  shows "read_wal_file crc32 (concat (map (wal_serialize crc32) as)
       @ (u32_to_le_bytes (of_nat (4 + length p)) @ u32_to_le_bytes k @ p)
       @ concat (map (wal_serialize crc32) bs)) = Ok (map wal_stored as @ map wal_stored bs)"
proof -
  have "read_wal_file crc32 (concat (map (wal_serialize crc32) bs)) = Ok (map wal_stored bs)"
    using read_wal_append [of bs crc32 "[]"] assms(2) by (simp add: read_wal_file.simps [of crc32 "[]"])
  moreover have "parse_wal_record crc32 (u32_to_le_bytes k @ p) = Ok None"
    using assms(4) by (simp add: parse_wal_record_def codec_simps)
  ultimately show ?thesis
    using read_wal_append [of as crc32] assms(1) read_wal_entry [OF assms(3), of crc32 k]
    by (simp del: of_nat_add)
qed

theorem wal_skips_corrupt_record_witness:
  "read_wal_file (\<lambda>_. 0) (concat (map (wal_serialize (\<lambda>_. 0)) demo_wal)
       @ (u32_to_le_bytes (of_nat (4 + length [9, 9 :: u8])) @ u32_to_le_bytes 5 @ [9, 9])
       @ concat (map (wal_serialize (\<lambda>_. 0)) demo_wal)) = Ok (map wal_stored demo_wal @ map wal_stored demo_wal)"
  by (rule wal_skips_corrupt_record) (auto simp: demo_wal_fits)

text \<open>
  An entry whose size field is below four (a zero-filled tail, for instance) is not treated as a
  partial or corrupt record: indexing the four checksum bytes panics, and recovery of the file with
  it, whatever was recovered before.
\<close>

theorem wal_short_entry_panics:
  assumes "\<And>r. r \<in> set rs \<Longrightarrow> wal_fits r" and "unat sz < 4" and "unat sz \<le> length rest"
  shows "read_wal_file crc32 (concat (map (wal_serialize crc32) rs) @ u32_to_le_bytes sz @ rest) = Panic"
proof -
  have "parse_wal_record crc32 (take (unat sz) rest) = Panic"
    using assms(2) by (simp add: parse_wal_record_def get_u32_le_def get_le_def get_bytes_def)
  then have "read_wal_file crc32 (u32_to_le_bytes sz @ rest) = Panic"
    using assms(3) by (subst read_wal_file.simps) (simp add: Let_def le_val_full)
  then show ?thesis using read_wal_append [of rs crc32] assms(1) by simp
qed

theorem wal_short_entry_panics_witness:
  "read_wal_file (\<lambda>_. 0) (concat (map (wal_serialize (\<lambda>_. 0)) demo_wal) @ u32_to_le_bytes 0 @ []) = Panic"
  by (rule wal_short_entry_panics) (auto simp: demo_wal_fits)

end
