(* ===== verification/Wal_Recovery.thy ===== *)
theory Wal_Recovery
  imports Wal_Format "HOL-Library.Sublist"
begin

text \<open>
  Which WAL files belong to a partition, \<^verbatim>\<open>WAL::open\<close> (the file name) and \<^verbatim>\<open>WAL::recover_partition\<close>
  (the scan of the shared directory) of \<^verbatim>\<open>streamhouse-storage/src/wal.rs\<close>. A directory is the list of
  its entries in the order the operating system returns them; an entry is a file (its content, or
  \<open>None\<close> when it cannot be read) or an error of the directory iterator.
\<close>

section \<open>File names\<close>

definition wal_prefix :: "string \<Rightarrow> u32 \<Rightarrow> string" where
  "wal_prefix topic partition_id = topic @ ''-'' @ show_nat (unat partition_id)"

definition wal_filename :: "string \<Rightarrow> u32 \<Rightarrow> string option \<Rightarrow> string" where
  "wal_filename topic partition_id agent_id =
     (case agent_id of
        Some a \<Rightarrow> wal_prefix topic partition_id @ ''-'' @ a @ ''.wal''
      | None \<Rightarrow> wal_prefix topic partition_id @ ''.wal'')"

section \<open>The directory scan\<close>

definition is_stale_name :: "string \<Rightarrow> u32 \<Rightarrow> string \<Rightarrow> string \<Rightarrow> bool" where
  "is_stale_name topic partition_id own_agent_id name =
     (let pre = wal_prefix topic partition_id;
          own_filename = wal_filename topic partition_id (Some own_agent_id)
      in if \<not> prefix pre name \<or> \<not> suffix ''.wal'' name then False
         else if name = own_filename then False
         else let after_prefix = drop (length pre) name
              in \<not> (after_prefix \<noteq> ''.wal'' \<and> \<not> prefix ''-'' after_prefix))"

datatype dir_entry = DirFile string "bytes option" | DirEntryError

datatype dir_listing = DirEntries "dir_entry list" | DirNotFound | DirError

fun recover_entries ::
  "(bytes \<Rightarrow> u32) \<Rightarrow> (string \<Rightarrow> bool) \<Rightarrow> dir_entry list \<Rightarrow> (error, WALRecord list \<times> string list) result" where
  "recover_entries crc32 stale [] = Ok ([], [])"
| "recover_entries crc32 stale (DirEntryError # es) = Err Io"
| "recover_entries crc32 stale (DirFile name content # es) =
     (if \<not> stale name then recover_entries crc32 stale es
      else case content of
        None \<Rightarrow> recover_entries crc32 stale es
      | Some file \<Rightarrow>
          (case read_wal_file crc32 file of
             Ok records \<Rightarrow> rbind (recover_entries crc32 stale es)
               (\<lambda>(all_records, stale_files). Ok (records @ all_records, name # stale_files))
           | Err e \<Rightarrow> recover_entries crc32 stale es
           | Panic \<Rightarrow> Panic))"

definition recover_partition ::
  "(bytes \<Rightarrow> u32) \<Rightarrow> dir_listing \<Rightarrow> string \<Rightarrow> u32 \<Rightarrow> string \<Rightarrow> (error, WALRecord list \<times> string list) result" where
  "recover_partition crc32 dir topic partition_id own_agent_id =
     (case dir of
        DirNotFound \<Rightarrow> Ok ([], [])
      | DirError \<Rightarrow> Err Io
      | DirEntries es \<Rightarrow> recover_entries crc32 (is_stale_name topic partition_id own_agent_id) es)"

section \<open>Which names are selected\<close>

lemma filename_shape:
  "\<exists>x xs. wal_filename t p ag = wal_prefix t p @ x # xs \<and> \<not> is_digit x"
  by (cases ag) (simp_all add: wal_filename_def is_digit_def)

lemma suffix_filename: "suffix ''.wal'' (wal_filename t p ag)"
  by (cases ag) (simp_all add: wal_filename_def suffix_def)

lemma stale_same_partition:
  "is_stale_name t p own (wal_filename t p ag) \<longleftrightarrow> ag \<noteq> Some own"
proof -
  have "wal_filename t p ag = wal_filename t p (Some own) \<longleftrightarrow> ag = Some own"
    by (cases ag) (simp_all add: wal_filename_def)
  moreover have "prefix (wal_prefix t p) (wal_filename t p ag)"
    by (cases ag) (simp_all add: wal_filename_def)
  moreover have "drop (length (wal_prefix t p)) (wal_filename t p ag) = ''.wal''
      \<or> prefix ''-'' (drop (length (wal_prefix t p)) (wal_filename t p ag))"
    by (cases ag) (simp_all add: wal_filename_def)
  ultimately show ?thesis
    using suffix_filename [of t p ag] by (auto simp: is_stale_name_def Let_def)
qed

lemma stale_other_partition: "p \<noteq> q \<Longrightarrow> \<not> is_stale_name t p own (wal_filename t q ag)"
proof
  assume pq: "p \<noteq> q" and st: "is_stale_name t p own (wal_filename t q ag)"
  let ?after = "drop (length (wal_prefix t p)) (wal_filename t q ag)"
  from st have "prefix (wal_prefix t p) (wal_filename t q ag)"
    and after: "?after = ''.wal'' \<or> prefix ''-'' ?after"
    by (simp_all add: is_stale_name_def Let_def split: if_splits)
  then have "wal_filename t q ag = wal_prefix t p @ ?after"
    by (metis append_eq_conv_conj prefix_def)
  moreover have "\<exists>y ys. ?after = y # ys \<and> \<not> is_digit y"
    using after
  proof
    assume "?after = ''.wal''"
    then show ?thesis by (simp add: is_digit_def)
  next
    assume "prefix ''-'' ?after"
    then obtain zs where "?after = CHR ''-'' # zs" by (auto simp: prefix_def)
    then show ?thesis by (simp add: is_digit_def)
  qed
  then obtain y ys where "?after = y # ys" "\<not> is_digit y" by blast
  moreover obtain x xs where "wal_filename t q ag = wal_prefix t q @ x # xs" "\<not> is_digit x"
    using filename_shape by blast
  ultimately have "show_nat (unat q) = show_nat (unat p)"
    using digit_run_unique [OF show_nat_digits show_nat_digits, of "unat q" x xs "unat p" y ys]
    by (simp add: wal_prefix_def)
  then show False using pq show_nat_inj by (metis word_unat_eq_iff)
qed

lemma stale_longer_topic:
  "own \<noteq> show_nat (unat q) \<Longrightarrow> is_stale_name t p own (wal_filename (wal_prefix t p) q None)"
  by (simp add: is_stale_name_def Let_def wal_filename_def wal_prefix_def [of "wal_prefix t p"] suffix_def)

section \<open>Properties of partition recovery\<close>

text \<open>
  Ownership of log files: among the files this program names, partition recovery takes exactly
  those of the same topic and partition written by another agent (or without an agent), never this
  agent's own file and never a file of another partition of the topic.
\<close>

theorem stale_wal_selection:
  "is_stale_name topic p own (wal_filename topic q agent) \<longleftrightarrow> p = q \<and> agent \<noteq> Some own"
  using stale_same_partition stale_other_partition by (cases "p = q") auto

text \<open>
  The selection is by name only, and topic names may contain the separator: for a topic whose name
  is another topic's name followed by a dash and a partition number, every legacy log file of every
  partition is taken over by that other topic's partition, unless it bears the agent's own name.
\<close>

theorem stale_wal_cross_topic:
  assumes "own \<noteq> show_nat (unat q)"
  shows "is_stale_name topic p own (wal_filename (topic @ ''-'' @ show_nat (unat p)) q None)"
  using stale_longer_topic [OF assms, of topic p] by (simp add: wal_prefix_def)

theorem stale_wal_cross_topic_witness:
  "is_stale_name ''orders'' 1 ''agent-a'' (wal_filename (''orders'' @ ''-'' @ show_nat (unat (1 :: u32))) 0 None)"
  by (rule stale_wal_cross_topic) (simp add: show_nat.simps digit_def)

lemma recover_entries_readable:
  assumes "\<And>n rs r. (n, rs) \<in> set files \<Longrightarrow> r \<in> set rs \<Longrightarrow> wal_fits r"
  shows "recover_entries crc32 stale (map (\<lambda>(n, rs). DirFile n (Some (concat (map (wal_serialize crc32) rs)))) files)
    = Ok (map wal_stored (concat (map snd (filter (\<lambda>(n, rs). stale n) files))), map fst (filter (\<lambda>(n, rs). stale n) files))"
  using assms
proof (induction files)
  case (Cons f files)
  obtain n rs where f: "f = (n, rs)" by force
  have "\<And>r. r \<in> set rs \<Longrightarrow> wal_fits r" using Cons.prems f by auto
  then have "read_wal_file crc32 (concat (map (wal_serialize crc32) rs)) = Ok (map wal_stored rs)"
    using read_wal_append [of rs crc32 "[]"] by (simp add: read_wal_file.simps [of crc32 "[]"])
  moreover have "recover_entries crc32 stale (map (\<lambda>(n, rs). DirFile n (Some (concat (map (wal_serialize crc32) rs)))) files)
    = Ok (map wal_stored (concat (map snd (filter (\<lambda>(n, rs). stale n) files))), map fst (filter (\<lambda>(n, rs). stale n) files))"
    using Cons.prems by (intro Cons.IH) auto
  ultimately show ?case by (simp add: f)
qed simp

text \<open>
  Failover recovers everything: over a directory of intact logs, partition recovery returns the
  records of every selected file, file by file in directory order, and the list of the files to delete
  once they are flushed; a missing directory is an empty recovery.
\<close>

theorem recover_partition_complete:
  assumes "\<And>n rs r. (n, rs) \<in> set files \<Longrightarrow> r \<in> set rs \<Longrightarrow> wal_fits r"
  shows "recover_partition crc32 (DirEntries (map (\<lambda>(n, rs). DirFile n (Some (concat (map (wal_serialize crc32) rs)))) files)) topic p own
    = (let mine = filter (\<lambda>(n, rs). is_stale_name topic p own n) files
       in Ok (map wal_stored (concat (map snd mine)), map fst mine))
    \<and> recover_partition crc32 DirNotFound topic p own = Ok ([], [])"
proof -
  show ?thesis
    using recover_entries_readable [of files crc32 "is_stale_name topic p own"] assms
    by (simp add: recover_partition_def Let_def)
qed

theorem recover_partition_complete_witness:
  "recover_partition (\<lambda>_. 0) (DirEntries (map (\<lambda>(n, rs). DirFile n (Some (concat (map (wal_serialize (\<lambda>_. 0)) rs))))
      [(wal_filename ''t'' 3 (Some ''b''), demo_wal), (wal_filename ''t'' 3 (Some ''a''), demo_wal)])) ''t'' 3 ''a''
    = Ok (map wal_stored demo_wal, [wal_filename ''t'' 3 (Some ''b'')])"
proof -
  let ?files = "[(wal_filename ''t'' 3 (Some ''b''), demo_wal), (wal_filename ''t'' 3 (Some ''a''), demo_wal)]"
  have "recover_partition (\<lambda>_. 0) (DirEntries (map (\<lambda>(n, rs). DirFile n (Some (concat (map (wal_serialize (\<lambda>_. 0)) rs)))) ?files)) ''t'' 3 ''a''
    = (let mine = filter (\<lambda>(n, rs). is_stale_name ''t'' 3 ''a'' n) ?files
       in Ok (map wal_stored (concat (map snd mine)), map fst mine))"
    by (rule recover_partition_complete [THEN conjunct1]) (auto dest: demo_wal_fits)
  then show ?thesis by (simp add: stale_same_partition)
qed

end
