(* ===== verification/Wal_Writer.thy ===== *)
theory Wal_Writer
  imports Wal_Format
begin

text \<open>
  The group-commit writer of \<^verbatim>\<open>streamhouse-storage/src/wal.rs\<close> (\<^verbatim>\<open>WAL::open\<close>, \<^verbatim>\<open>append\<close>,
  \<^verbatim>\<open>append_batch\<close>, \<^verbatim>\<open>recover\<close> and the task \<^verbatim>\<open>WalWriter\<close>). Callers send commands over a channel; one
  turn of the task's loop receives a command, drains the ones that are waiting, flushes, answers and
  truncates. A turn is the list of the commands it received, in channel order, together with the
  outcomes of the file operations it performs, which are the operating system's. Each one-shot reply
  channel is a number; \<open>SenderDropped\<close> is a reply channel closed without an answer.
  \<open>ww_file\<close> is the content of the file and \<open>ww_durable\<close> what the last successful \<^verbatim>\<open>sync_data\<close> covered.
\<close>

section \<open>State\<close>

datatype SyncPolicy = SyncAlways | SyncInterval nat | SyncNever

record WALConfig =
  wc_sync_policy :: SyncPolicy
  wc_max_size_bytes :: u64
  wc_batch_enabled :: bool
  wc_batch_max_records :: nat
  wc_batch_max_bytes :: nat
  wc_batch_max_age_ms :: u64
  wc_agent_id :: "string option"

definition WALConfig_default :: WALConfig where
  "WALConfig_default =
     \<lparr>wc_sync_policy = SyncInterval 100, wc_max_size_bytes = 1024 * 1024 * 1024,
      wc_batch_enabled = False, wc_batch_max_records = 1000, wc_batch_max_bytes = 1024 * 1024,
      wc_batch_max_age_ms = 10, wc_agent_id = None\<rparr>"

datatype WalCmd = Append bytes nat | Flush nat | Truncate nat | QueryPending nat

datatype WalReply = Flushed bool | Pending nat nat | Truncated bool | SenderDropped

record WalWriter =
  ww_file :: bytes
  ww_durable :: bytes
  ww_batch :: bytes
  ww_batch_count :: nat
  ww_current_size :: u64
  ww_batch_max_records :: nat
  ww_batch_max_bytes :: nat
  ww_sync_on_flush :: bool

definition wal_open :: "WALConfig \<Rightarrow> bytes \<Rightarrow> WalWriter" where
  "wal_open cfg file =
     \<lparr>ww_file = file, ww_durable = file, ww_batch = [], ww_batch_count = 0,
      ww_current_size = of_nat (length file),
      ww_batch_max_records = (if wc_batch_enabled cfg then wc_batch_max_records cfg else 1),
      ww_batch_max_bytes = (if wc_batch_enabled cfg then wc_batch_max_bytes cfg else 0),
      ww_sync_on_flush = (wc_sync_policy cfg \<noteq> SyncNever)\<rparr>"

section \<open>File operations\<close>

text \<open>A failing write may have written a prefix of the batch.\<close>

datatype flush_io = FlushOk | WriteFails nat | SyncFails
datatype trunc_io = TruncOk | SeekFails | SetLenFails | TruncSyncFails

definition do_flush :: "flush_io \<Rightarrow> WalWriter \<Rightarrow> WalWriter \<times> bool" where
  "do_flush io w =
     (if ww_batch w = [] then (w, True)
      else
        let data = ww_batch w;
            w1 = w\<lparr>ww_batch := [], ww_batch_count := 0\<rparr>;
            w2 = w1\<lparr>ww_file := ww_file w @ data\<rparr>;
            w3 = (if ww_sync_on_flush w then w2\<lparr>ww_durable := ww_file w2\<rparr> else w2);
            w4 = w3\<lparr>ww_current_size := ww_current_size w + of_nat (length data)\<rparr>
        in case io of
             WriteFails n \<Rightarrow> (w1\<lparr>ww_file := ww_file w @ take n data\<rparr>, False)
           | SyncFails \<Rightarrow> (if ww_sync_on_flush w then (w2, False) else (w4, True))
           | FlushOk \<Rightarrow> (w4, True))"

definition do_truncate :: "trunc_io \<Rightarrow> WalWriter \<Rightarrow> WalWriter \<times> bool" where
  "do_truncate io w =
     (let w1 = w\<lparr>ww_batch := [], ww_batch_count := 0\<rparr>;
          w2 = w1\<lparr>ww_file := []\<rparr>;
          w3 = (if ww_sync_on_flush w then w2\<lparr>ww_durable := []\<rparr> else w2);
          w4 = w3\<lparr>ww_current_size := 0\<rparr>
      in case io of
           SeekFails \<Rightarrow> (w1, False)
         | SetLenFails \<Rightarrow> (w1, False)
         | TruncSyncFails \<Rightarrow> (if ww_sync_on_flush w then (w2, False) else (w4, True))
         | TruncOk \<Rightarrow> (w4, True))"

section \<open>One turn of the writer task\<close>

record WalTurn =
  wt_writer :: WalWriter
  wt_flush_waiters :: "nat list"
  wt_queries :: "nat list"
  wt_truncate_waiter :: "nat option"
  wt_dropped :: "nat list"

definition process_cmd :: "WalCmd \<Rightarrow> WalTurn \<Rightarrow> WalTurn" where
  "process_cmd c t =
     (case c of
        Append data cnt \<Rightarrow>
          t\<lparr>wt_writer := (wt_writer t)\<lparr>ww_batch := ww_batch (wt_writer t) @ data,
                                     ww_batch_count := ww_batch_count (wt_writer t) + cnt\<rparr>\<rparr>
      | Flush tx \<Rightarrow> t\<lparr>wt_flush_waiters := wt_flush_waiters t @ [tx]\<rparr>
      | QueryPending tx \<Rightarrow> t\<lparr>wt_queries := wt_queries t @ [tx]\<rparr>
      | Truncate tx \<Rightarrow>
          t\<lparr>wt_truncate_waiter := Some tx,
            wt_dropped := wt_dropped t @ (case wt_truncate_waiter t of None \<Rightarrow> [] | Some old \<Rightarrow> [old])\<rparr>)"

definition should_flush :: "WalTurn \<Rightarrow> bool" where
  "should_flush t =
     (let w = wt_writer t in
      wt_flush_waiters t \<noteq> []
      \<or> ww_batch_count w \<ge> ww_batch_max_records w
      \<or> (ww_batch_max_bytes w > 0 \<and> length (ww_batch w) \<ge> ww_batch_max_bytes w))"

definition WalTurn_start :: "WalWriter \<Rightarrow> WalTurn" where
  "WalTurn_start w = \<lparr>wt_writer = w, wt_flush_waiters = [], wt_queries = [], wt_truncate_waiter = None, wt_dropped = []\<rparr>"

definition wal_turn ::
  "flush_io \<Rightarrow> trunc_io \<Rightarrow> WalCmd list \<Rightarrow> WalWriter \<Rightarrow> WalWriter \<times> (nat \<times> WalReply) list" where
  "wal_turn fio tio cmds w0 =
     (let t = fold process_cmd cmds (WalTurn_start w0);
          (w1, ok) = (if should_flush t \<and> ww_batch (wt_writer t) \<noteq> [] then do_flush fio (wt_writer t)
                      else (wt_writer t, True));
          replies = map (\<lambda>tx. (tx, SenderDropped)) (wt_dropped t)
            @ map (\<lambda>tx. (tx, Flushed ok)) (wt_flush_waiters t)
            @ map (\<lambda>tx. (tx, Pending (ww_batch_count w1) (length (ww_batch w1)))) (wt_queries t)
      in case wt_truncate_waiter t of
           None \<Rightarrow> (w1, replies)
         | Some tx \<Rightarrow> (let (w2, done) = do_truncate tio w1 in (w2, replies @ [(tx, Truncated done)])))"

text \<open>The loop's other turns: the age timeout of a non-empty batch, and the final flush on close.\<close>

datatype WalEvent = Turn flush_io trunc_io "WalCmd list" | AgeTimeout flush_io | ChannelClosed flush_io

fun wal_step :: "WalEvent \<Rightarrow> WalWriter \<Rightarrow> WalWriter" where
  "wal_step (Turn fio tio cmds) w = fst (wal_turn fio tio cmds w)"
| "wal_step (AgeTimeout fio) w = fst (do_flush fio w)"
| "wal_step (ChannelClosed fio) w = (if ww_batch w \<noteq> [] then fst (do_flush fio w) else w)"

section \<open>Callers\<close>

definition append_cmds ::
  "(bytes \<Rightarrow> u32) \<Rightarrow> WALConfig \<Rightarrow> bytes option \<Rightarrow> bytes \<Rightarrow> u64 \<Rightarrow> nat \<Rightarrow> WalCmd list" where
  "append_cmds crc32 cfg key val timestamp tx =
     Append (serialize_record crc32 key val timestamp) 1
     # (if \<not> wc_batch_enabled cfg then [Flush tx] else [])"

definition append_batch_cmds ::
  "(bytes \<Rightarrow> u32) \<Rightarrow> WALConfig \<Rightarrow> (bytes option \<times> bytes) list \<Rightarrow> u64 \<Rightarrow> nat \<Rightarrow> WalCmd list" where
  "append_batch_cmds crc32 cfg records timestamp tx =
     (if records = [] then []
      else Append (concat (map (\<lambda>(key, val). serialize_record crc32 key val timestamp) records)) (length records)
           # (if \<not> wc_batch_enabled cfg then [Flush tx] else []))"

text \<open>\<^verbatim>\<open>recover\<close>: flush what is pending, then read the file.\<close>

definition wal_recover :: "(bytes \<Rightarrow> u32) \<Rightarrow> flush_io \<Rightarrow> WalWriter \<Rightarrow> (error, WALRecord list) result" where
  "wal_recover crc32 fio w =
     (let (w', replies) = wal_turn fio TruncOk [Flush 0] w
      in if (0, Flushed True) \<in> set replies then read_wal_file crc32 (ww_file w') else Err Io)"

section \<open>What a turn does\<close>

fun appended :: "WalCmd list \<Rightarrow> bytes" where
  "appended [] = []"
| "appended (Append data n # cs) = data @ appended cs"
| "appended (_ # cs) = appended cs"

fun appended_count :: "WalCmd list \<Rightarrow> nat" where
  "appended_count [] = 0"
| "appended_count (Append data n # cs) = n + appended_count cs"
| "appended_count (_ # cs) = appended_count cs"

fun no_truncate :: "WalCmd list \<Rightarrow> bool" where
  "no_truncate [] = True"
| "no_truncate (Truncate tx # cs) = False"
| "no_truncate (_ # cs) = no_truncate cs"

fun flush_ids :: "WalCmd list \<Rightarrow> nat list" where
  "flush_ids [] = []"
| "flush_ids (Flush tx # cs) = tx # flush_ids cs"
| "flush_ids (_ # cs) = flush_ids cs"

lemma drain_writer:
  "wt_writer (fold process_cmd cs t) =
     (wt_writer t)\<lparr>ww_batch := ww_batch (wt_writer t) @ appended cs,
                  ww_batch_count := ww_batch_count (wt_writer t) + appended_count cs\<rparr>"
proof (induction cs arbitrary: t)
  case (Cons c cs)
  then show ?case by (cases c) (simp_all add: process_cmd_def)
qed simp

lemma drain_waiters:
  "wt_flush_waiters (fold process_cmd cs t) = wt_flush_waiters t @ flush_ids cs"
  "wt_truncate_waiter (fold process_cmd cs t) = None \<longleftrightarrow> wt_truncate_waiter t = None \<and> no_truncate cs"
proof (induction cs arbitrary: t)
  case (Cons c cs)
  { case 1 then show ?case using Cons.IH(1) by (cases c) (simp_all add: process_cmd_def) }
  { case 2 then show ?case using Cons.IH(2) by (cases c) (simp_all add: process_cmd_def) }
qed simp_all

text \<open>The turn's writer after its commands and, if one is due, its flush; before any truncation.\<close>

definition flushed_writer :: "flush_io \<Rightarrow> WalCmd list \<Rightarrow> WalWriter \<Rightarrow> WalWriter \<times> bool" where
  "flushed_writer fio cmds w0 =
     (let w = w0\<lparr>ww_batch := ww_batch w0 @ appended cmds, ww_batch_count := ww_batch_count w0 + appended_count cmds\<rparr>;
          due = flush_ids cmds \<noteq> [] \<or> ww_batch_count w \<ge> ww_batch_max_records w
            \<or> (ww_batch_max_bytes w > 0 \<and> length (ww_batch w) \<ge> ww_batch_max_bytes w)
      in if due \<and> ww_batch w \<noteq> [] then do_flush fio w else (w, True))"

lemma flushed_writer_alt:
  "(let t = fold process_cmd cmds (WalTurn_start w) in
    if should_flush t \<and> ww_batch (wt_writer t) \<noteq> [] then do_flush fio (wt_writer t) else (wt_writer t, True))
   = flushed_writer fio cmds w"
  unfolding flushed_writer_def should_flush_def Let_def drain_writer drain_waiters
  by (simp add: WalTurn_start_def)

lemma start_waiters: "wt_flush_waiters (fold process_cmd cmds (WalTurn_start w)) = flush_ids cmds"
  by (simp add: drain_waiters WalTurn_start_def)

lemma wal_turn_alt:
  "wal_turn fio tio cmds w =
     (let t = fold process_cmd cmds (WalTurn_start w);
          (w1, ok) = flushed_writer fio cmds w;
          replies = map (\<lambda>tx. (tx, SenderDropped)) (wt_dropped t)
            @ map (\<lambda>tx. (tx, Flushed ok)) (flush_ids cmds)
            @ map (\<lambda>tx. (tx, Pending (ww_batch_count w1) (length (ww_batch w1)))) (wt_queries t)
      in case wt_truncate_waiter t of
           None \<Rightarrow> (w1, replies)
         | Some tx \<Rightarrow> (let (w2, done) = do_truncate tio w1 in (w2, replies @ [(tx, Truncated done)])))"
  unfolding wal_turn_def flushed_writer_alt [symmetric] Let_def start_waiters by (rule refl)

lemma turn_no_truncate: "no_truncate cmds \<Longrightarrow> fst (wal_turn fio tio cmds w) = fst (flushed_writer fio cmds w)"
  using drain_waiters(2) [of cmds "WalTurn_start w"]
  by (simp add: wal_turn_alt Let_def split_beta WalTurn_start_def)

lemma turn_truncate:
  assumes "\<not> no_truncate cmds"
  shows "fst (wal_turn fio tio cmds w) = fst (do_truncate tio (fst (flushed_writer fio cmds w)))"
proof -
  obtain tx where "wt_truncate_waiter (fold process_cmd cmds (WalTurn_start w)) = Some tx"
    using drain_waiters(2) [of cmds "WalTurn_start w"] assms by blast
  then show ?thesis by (simp add: wal_turn_alt Let_def split_beta)
qed

lemma turn_flush_reply:
  "(tx, Flushed ok) \<in> set (snd (wal_turn fio tio cmds w)) \<longleftrightarrow> tx \<in> set (flush_ids cmds) \<and> ok = snd (flushed_writer fio cmds w)"
  by (cases "wt_truncate_waiter (fold process_cmd cmds (WalTurn_start w))")
    (auto simp: wal_turn_alt Let_def split_beta)

lemma do_flush_ok:
  "snd (do_flush io w) \<Longrightarrow> ww_file (fst (do_flush io w)) = ww_file w @ ww_batch w \<and> ww_batch (fst (do_flush io w)) = []"
  by (auto simp: do_flush_def Let_def split: flush_io.splits if_splits)

lemma do_flush_durable:
  "snd (do_flush io w) \<Longrightarrow> ww_sync_on_flush w \<Longrightarrow> ww_batch w \<noteq> [] \<Longrightarrow>
   ww_durable (fst (do_flush io w)) = ww_file (fst (do_flush io w))"
  by (auto simp: do_flush_def Let_def split: flush_io.splits if_splits)

lemma do_flush_frame:
  "ww_sync_on_flush (fst (do_flush io w)) = ww_sync_on_flush w"
  "ww_batch_max_records (fst (do_flush io w)) = ww_batch_max_records w"
  "ww_batch_max_bytes (fst (do_flush io w)) = ww_batch_max_bytes w"
  by (auto simp: do_flush_def Let_def split: flush_io.splits)

lemma acked_flush:
  assumes "flush_ids cmds \<noteq> []" and "snd (flushed_writer fio cmds w)"
  shows "ww_file (fst (flushed_writer fio cmds w)) = ww_file w @ ww_batch w @ appended cmds"
    and "ww_batch (fst (flushed_writer fio cmds w)) = []"
    and "ww_sync_on_flush w \<Longrightarrow> ww_durable w = ww_file w \<or> ww_batch w @ appended cmds \<noteq> [] \<Longrightarrow>
         ww_durable (fst (flushed_writer fio cmds w)) = ww_file (fst (flushed_writer fio cmds w))"
proof -
  let ?w = "w\<lparr>ww_batch := ww_batch w @ appended cmds, ww_batch_count := ww_batch_count w + appended_count cmds\<rparr>"
  have eq: "flushed_writer fio cmds w = (if ww_batch w @ appended cmds \<noteq> [] then do_flush fio ?w else (?w, True))"
    using assms(1) by (simp add: flushed_writer_def Let_def)
  show "ww_file (fst (flushed_writer fio cmds w)) = ww_file w @ ww_batch w @ appended cmds"
    and "ww_batch (fst (flushed_writer fio cmds w)) = []"
    using assms(2) do_flush_ok [of fio ?w] by (auto simp: eq split: if_splits)
  show "ww_durable (fst (flushed_writer fio cmds w)) = ww_file (fst (flushed_writer fio cmds w))"
    if "ww_sync_on_flush w" "ww_durable w = ww_file w \<or> ww_batch w @ appended cmds \<noteq> []"
    using that assms(2) do_flush_durable [of fio ?w] by (auto simp: eq split: if_splits)
qed

section \<open>The log as an abstract sequence of bytes\<close>

text \<open>
  Abstractly the writer is the byte sequence \<open>log_of\<close>: what is in the file followed by what is
  pending. While file operations succeed and nothing is truncated, every event only appends to it.
\<close>

definition log_of :: "WalWriter \<Rightarrow> bytes" where "log_of w = ww_file w @ ww_batch w"

fun event_ok :: "WalEvent \<Rightarrow> bool" where
  "event_ok (Turn fio tio cmds) \<longleftrightarrow> fio = FlushOk \<and> no_truncate cmds"
| "event_ok (AgeTimeout fio) \<longleftrightarrow> fio = FlushOk"
| "event_ok (ChannelClosed fio) \<longleftrightarrow> fio = FlushOk"

fun event_bytes :: "WalEvent \<Rightarrow> bytes" where
  "event_bytes (Turn fio tio cmds) = appended cmds"
| "event_bytes _ = []"

lemma do_flush_FlushOk: "log_of (fst (do_flush FlushOk w)) = log_of w"
  "ww_current_size w = of_nat (length (ww_file w)) \<Longrightarrow>
   ww_current_size (fst (do_flush FlushOk w)) = of_nat (length (ww_file (fst (do_flush FlushOk w))))"
  by (auto simp: do_flush_def log_of_def Let_def)

lemma flushed_FlushOk: "log_of (fst (flushed_writer FlushOk cmds w)) = log_of w @ appended cmds"
  "ww_current_size w = of_nat (length (ww_file w)) \<Longrightarrow>
   ww_current_size (fst (flushed_writer FlushOk cmds w)) = of_nat (length (ww_file (fst (flushed_writer FlushOk cmds w))))"
  by (auto simp: flushed_writer_def Let_def do_flush_FlushOk) (simp_all add: log_of_def)

lemma wal_step_appends:
  "event_ok e \<Longrightarrow> log_of (wal_step e w) = log_of w @ event_bytes e"
  "event_ok e \<Longrightarrow> ww_current_size w = of_nat (length (ww_file w)) \<Longrightarrow>
   ww_current_size (wal_step e w) = of_nat (length (ww_file (wal_step e w)))"
  by (cases e; simp add: turn_no_truncate flushed_FlushOk do_flush_FlushOk)+

text \<open>The batch buffer is bounded after every event, failed file operations included.\<close>

definition batch_bounded :: "WalWriter \<Rightarrow> bool" where
  "batch_bounded w \<longleftrightarrow> ww_batch w = [] \<or> ww_batch_count w < ww_batch_max_records w
     \<and> (ww_batch_max_bytes w = 0 \<or> length (ww_batch w) < ww_batch_max_bytes w)"

lemma do_flush_empties: "ww_batch (fst (do_flush io w)) = []"
  by (auto simp: do_flush_def Let_def split: flush_io.splits)

lemma do_flush_bounded: "batch_bounded (fst (do_flush io w))"
  by (simp add: batch_bounded_def do_flush_empties)

lemma flushed_bounded: "batch_bounded (fst (flushed_writer fio cmds w))"
  by (auto simp: flushed_writer_def Let_def batch_bounded_def do_flush_empties)

lemma turn_bounded: "batch_bounded (fst (wal_turn fio tio cmds w))"
proof (cases "no_truncate cmds")
  case True
  then show ?thesis by (simp add: turn_no_truncate flushed_bounded)
next
  case False
  then show ?thesis
    by (auto simp: turn_truncate do_truncate_def Let_def batch_bounded_def split: trunc_io.split)
qed

interpretation wal_machine: invariant_machine wal_step batch_bounded
proof unfold_locales
  fix e w assume "batch_bounded w"
  then show "batch_bounded (wal_step e w)"
    by (cases e) (simp_all add: turn_bounded do_flush_bounded)
qed

section \<open>Properties of the writer\<close>

text \<open>
  An acknowledged flush is a promise kept: if a turn without truncation answers a flush request
  with success, everything pending before and everything appended in the turn is in the file, in
  order; and with syncing enabled it is on stable storage.
\<close>

theorem acknowledged_flush_is_durable:
  assumes "(tx, Flushed True) \<in> set (snd (wal_turn fio tio cmds w))" and "no_truncate cmds"
    and "ww_durable w = ww_file w"
  shows "let w' = fst (wal_turn fio tio cmds w) in
     ww_file w' = ww_file w @ ww_batch w @ appended cmds \<and> ww_batch w' = []
     \<and> (ww_sync_on_flush w \<longrightarrow> ww_durable w' = ww_file w @ ww_batch w @ appended cmds)"
proof -
  have a: "flush_ids cmds \<noteq> []" "snd (flushed_writer fio cmds w)"
    using assms(1) by (auto simp: turn_flush_reply)
  show ?thesis
    using acked_flush [OF a] assms(2,3) by (auto simp: turn_no_truncate Let_def)
qed

theorem acknowledged_flush_is_durable_witness:
  "ww_durable (fst (wal_turn FlushOk TruncOk [Append [1, 2] 1, Flush 7] (wal_open WALConfig_default [9]))) = [9, 1, 2]"
proof -
  let ?w = "wal_open WALConfig_default [9]"
  have "(7, Flushed True) \<in> set (snd (wal_turn FlushOk TruncOk [Append [1, 2] 1, Flush 7] ?w))"
    by (simp add: turn_flush_reply flushed_writer_def do_flush_def wal_open_def Let_def)
  from acknowledged_flush_is_durable [OF this] show ?thesis
    by (simp add: Let_def wal_open_def WALConfig_default_def)
qed

text \<open>
  No loss, no reordering: over any sequence of turns, timeouts and the final close in which the
  file operations succeed and nothing is truncated, file plus pending batch is what it was followed by
  exactly the appended bytes in the order they were received, and the recorded size is the file's.
\<close>

theorem wal_run_appends_in_order:
  assumes "list_all event_ok es" and "ww_current_size w = of_nat (length (ww_file w))"
  shows "log_of (fold wal_step es w) = log_of w @ concat (map event_bytes es)
    \<and> ww_current_size (fold wal_step es w) = of_nat (length (ww_file (fold wal_step es w)))"
  using assms
proof (induction es arbitrary: w)
  case (Cons e es)
  then show ?case using Cons.IH [of "wal_step e w"] by (simp add: wal_step_appends)
qed simp

theorem wal_run_appends_in_order_witness:
  "log_of (fold wal_step [Turn FlushOk TruncOk [Append [1] 1], AgeTimeout FlushOk, Turn FlushOk TruncOk [Append [2] 1, Flush 0]]
     (wal_open WALConfig_default [])) = [1, 2]"
  using wal_run_appends_in_order [of "[Turn FlushOk TruncOk [Append [1] 1], AgeTimeout FlushOk, Turn FlushOk TruncOk [Append [2] 1, Flush 0]]"
      "wal_open WALConfig_default []"]
  by (simp add: wal_open_def log_of_def)

text \<open>
  Bounded buffering: from an open log, after any sequence of events, with or without failing file
  operations, the pending batch is empty or below both the record and the byte threshold; with
  batching disabled no record stays pending.
\<close>

theorem wal_batch_bounded:
  "batch_bounded (fold wal_step es (wal_open cfg file))"
  by (rule wal_machine.run_inv) (simp add: batch_bounded_def wal_open_def)

text \<open>
  Truncation is applied after everything else in its turn: whatever the order of the commands, a
  turn that contains a truncate request leaves the log empty, so a record appended after the request
  and acknowledged as flushed in the same turn is lost.
\<close>

theorem truncate_wins_over_later_appends:
  assumes "\<not> no_truncate cmds"
  shows "log_of (fst (wal_turn fio TruncOk cmds w)) = [] \<and> ww_current_size (fst (wal_turn fio TruncOk cmds w)) = 0"
  using assms by (simp add: turn_truncate do_truncate_def Let_def log_of_def)

theorem truncate_wins_over_later_appends_witness:
  "let out = wal_turn FlushOk TruncOk [Truncate 0, Append [5] 1, Flush 1] (wal_open WALConfig_default [])
   in (1, Flushed True) \<in> set (snd out) \<and> log_of (fst out) = []"
proof -
  have "(1, Flushed True) \<in> set (snd (wal_turn FlushOk TruncOk [Truncate 0, Append [5] 1, Flush 1] (wal_open WALConfig_default [])))"
    by (simp add: turn_flush_reply flushed_writer_def do_flush_def wal_open_def Let_def)
  moreover have "log_of (fst (wal_turn FlushOk TruncOk [Truncate 0, Append [5] 1, Flush 1] (wal_open WALConfig_default []))) = []"
    using truncate_wins_over_later_appends [of "[Truncate 0, Append [5] 1, Flush 1]" FlushOk "wal_open WALConfig_default []"] by simp
  ultimately show ?thesis by (simp add: Let_def)
qed

lemma append_batch_bytes:
  "appended (append_batch_cmds crc32 cfg records ts tx) =
     concat (map (\<lambda>(k, v). wal_serialize crc32 \<lparr>wr_key = k, wr_value = v, wr_timestamp = ts\<rparr>) records)"
  by (simp add: append_batch_cmds_def wal_serialize_def)

lemma append_batch_shape:
  "no_truncate (append_batch_cmds crc32 cfg records ts tx)"
  "records \<noteq> [] \<Longrightarrow> \<not> wc_batch_enabled cfg \<Longrightarrow> flush_ids (append_batch_cmds crc32 cfg records ts tx) = [tx]"
  by (simp_all add: append_batch_cmds_def)

text \<open>
  C25. Write, crash, recover: with batching disabled (the default) and syncing on, when the writer task
  takes a batch append and its flush request in one turn and acknowledges it, what is on stable storage
  recovers to the records that were there followed by the batch, in order.
\<close>

theorem acknowledged_batch_survives_crash:
  assumes "\<And>r. r \<in> set old \<Longrightarrow> wal_fits r"
    and "\<And>k v. (k, v) \<in> set records \<Longrightarrow> wal_fits \<lparr>wr_key = k, wr_value = v, wr_timestamp = ts\<rparr>"
    and "\<not> wc_batch_enabled cfg" and "wc_sync_policy cfg \<noteq> SyncNever" and "records \<noteq> []"
    and "w = wal_open cfg (concat (map (wal_serialize crc32) old))"
    and "(tx, Flushed True) \<in> set (snd (wal_turn fio tio (append_batch_cmds crc32 cfg records ts tx) w))"
  shows "read_wal_file crc32 (ww_durable (fst (wal_turn fio tio (append_batch_cmds crc32 cfg records ts tx) w)))
    = Ok (map wal_stored (old @ map (\<lambda>(k, v). \<lparr>wr_key = k, wr_value = v, wr_timestamp = ts\<rparr>) records))"
proof -
  let ?cmds = "append_batch_cmds crc32 cfg records ts tx"
  let ?new = "map (\<lambda>(k, v). \<lparr>wr_key = k, wr_value = v, wr_timestamp = ts\<rparr>) records"
  have a: "flush_ids ?cmds \<noteq> []" "snd (flushed_writer fio ?cmds w)"
    using assms(7) by (auto simp: turn_flush_reply)
  have "ww_durable (fst (wal_turn fio tio ?cmds w)) = concat (map (wal_serialize crc32) old) @ appended ?cmds"
    using acked_flush [OF a] assms(4,6) by (simp add: turn_no_truncate append_batch_shape wal_open_def)
  also have "\<dots> = concat (map (wal_serialize crc32) (old @ ?new))"
    unfolding append_batch_bytes map_append concat_append map_map comp_def
    by (intro arg_cong2 [where f = append] arg_cong [where f = concat] map_cong) auto
  finally have eq: "ww_durable (fst (wal_turn fio tio ?cmds w)) = concat (map (wal_serialize crc32) (old @ ?new))" .
  have "\<And>r. r \<in> set (old @ ?new) \<Longrightarrow> wal_fits r" using assms(1,2) by auto
  then show ?thesis
    unfolding eq using read_wal_append [of "old @ ?new" crc32 "[]"] by (simp add: read_wal_file.simps [of crc32 "[]"])
qed

theorem acknowledged_batch_survives_crash_witness:
  "read_wal_file (\<lambda>_. 0) (ww_durable (fst (wal_turn FlushOk TruncOk (append_batch_cmds (\<lambda>_. 0) WALConfig_default [(Some [1], [2])] 5 3)
      (wal_open WALConfig_default (concat (map (wal_serialize (\<lambda>_. 0)) demo_wal))))))
    = Ok (map wal_stored (demo_wal @ [\<lparr>wr_key = Some [1], wr_value = [2], wr_timestamp = 5\<rparr>]))"
proof -
  let ?w = "wal_open WALConfig_default (concat (map (wal_serialize (\<lambda>_. 0)) demo_wal))"
  let ?cmds = "append_batch_cmds (\<lambda>_. 0) WALConfig_default [(Some [1], [2])] 5 3"
  have "(3, Flushed True) \<in> set (snd (wal_turn FlushOk TruncOk ?cmds ?w))"
    by (simp add: turn_flush_reply flushed_writer_def do_flush_def wal_open_def append_batch_cmds_def
        WALConfig_default_def Let_def)
  then show ?thesis
    using acknowledged_batch_survives_crash [OF demo_wal_fits, of demo_wal "[(Some [1], [2])]" 5 WALConfig_default ?w "\<lambda>_. 0" 3 FlushOk TruncOk]
    by (simp add: wal_fits_def key_bytes_def WALConfig_default_def)
qed

end
