(* ===== verification/Circuit_Breaker.thy ===== *)
theory Circuit_Breaker
  imports Prelude
begin

text \<open>
  The circuit breaker in front of S3, \<^verbatim>\<open>streamhouse-storage/src/circuit_breaker.rs\<close>. Each method is one
  step; the clock reading (\<^verbatim>\<open>now_micros\<close>) is an argument of the steps that take one. The state byte is
  kept as the source keeps it, with its conversion.
\<close>

section \<open>State\<close>

datatype CircuitState = Closed | Open | HalfOpen

fun state_code :: "CircuitState \<Rightarrow> u8" where
  "state_code Closed = 0"
| "state_code Open = 1"
| "state_code HalfOpen = 2"

definition CircuitState_from :: "u8 \<Rightarrow> CircuitState" where
  "CircuitState_from v = (if v = 0 then Closed else if v = 1 then Open else if v = 2 then HalfOpen else Closed)"

record CircuitBreakerConfig =
  cbc_failure_threshold :: u32
  cbc_success_threshold :: u32
  cbc_timeout_micros :: nat

definition CircuitBreakerConfig_default :: CircuitBreakerConfig where
  "CircuitBreakerConfig_default =
     \<lparr>cbc_failure_threshold = 5, cbc_success_threshold = 2, cbc_timeout_micros = 30000000\<rparr>"

record CircuitBreaker =
  cb_state :: u8
  cb_failure_count :: u64
  cb_success_count :: u64
  cb_opened_at :: u64
  cb_config :: CircuitBreakerConfig

definition CircuitBreaker_new :: "CircuitBreakerConfig \<Rightarrow> CircuitBreaker" where
  "CircuitBreaker_new cfg =
     \<lparr>cb_state = state_code Closed, cb_failure_count = 0, cb_success_count = 0, cb_opened_at = 0,
      cb_config = cfg\<rparr>"

section \<open>Operations\<close>

definition current_state :: "CircuitBreaker \<Rightarrow> CircuitState" where
  "current_state cb = CircuitState_from (cb_state cb)"

definition transition_to_open :: "u64 \<Rightarrow> CircuitBreaker \<Rightarrow> CircuitBreaker" where
  "transition_to_open now cb =
     cb\<lparr>cb_state := state_code Open, cb_opened_at := now, cb_failure_count := 0, cb_success_count := 0\<rparr>"

definition transition_to_half_open :: "CircuitBreaker \<Rightarrow> CircuitBreaker" where
  "transition_to_half_open cb =
     cb\<lparr>cb_state := state_code HalfOpen, cb_success_count := 0, cb_failure_count := 0\<rparr>"

definition transition_to_closed :: "CircuitBreaker \<Rightarrow> CircuitBreaker" where
  "transition_to_closed cb =
     cb\<lparr>cb_state := state_code Closed, cb_success_count := 0, cb_failure_count := 0\<rparr>"

definition allow_request :: "u64 \<Rightarrow> CircuitBreaker \<Rightarrow> CircuitBreaker \<times> bool" where
  "allow_request now cb =
     (case current_state cb of
        Closed \<Rightarrow> (cb, True)
      | Open \<Rightarrow>
          (let timeout_micros = of_nat (cbc_timeout_micros (cb_config cb)) :: u64
           in if now - cb_opened_at cb \<ge> timeout_micros then (transition_to_half_open cb, True)
              else (cb, False))
      | HalfOpen \<Rightarrow> (cb, True))"

definition report_success :: "CircuitBreaker \<Rightarrow> CircuitBreaker" where
  "report_success cb =
     (case current_state cb of
        Closed \<Rightarrow> cb\<lparr>cb_failure_count := 0\<rparr>
      | HalfOpen \<Rightarrow>
          (let success_count = cb_success_count cb + 1; cb1 = cb\<lparr>cb_success_count := success_count\<rparr>
           in if success_count \<ge> ucast (cbc_success_threshold (cb_config cb))
              then transition_to_closed cb1 else cb1)
      | Open \<Rightarrow> cb)"

definition report_failure :: "u64 \<Rightarrow> CircuitBreaker \<Rightarrow> CircuitBreaker" where
  "report_failure now cb =
     (case current_state cb of
        Closed \<Rightarrow>
          (let failure_count = cb_failure_count cb + 1; cb1 = cb\<lparr>cb_failure_count := failure_count\<rparr>
           in if failure_count \<ge> ucast (cbc_failure_threshold (cb_config cb))
              then transition_to_open now cb1 else cb1)
      | HalfOpen \<Rightarrow> transition_to_open now cb
      | Open \<Rightarrow> cb)"

definition reset :: "CircuitBreaker \<Rightarrow> CircuitBreaker" where
  "reset cb = transition_to_closed cb"

datatype cb_event = AllowRequest u64 | ReportSuccess | ReportFailure u64 | Reset

fun cb_step :: "cb_event \<Rightarrow> CircuitBreaker \<Rightarrow> CircuitBreaker" where
  "cb_step (AllowRequest now) cb = fst (allow_request now cb)"
| "cb_step ReportSuccess cb = report_success cb"
| "cb_step (ReportFailure now) cb = report_failure now cb"
| "cb_step Reset cb = reset cb"

section \<open>Invariant\<close>

text \<open>
  Counters belong to one state each and stay below their threshold (at least one, since the
  comparison follows the increment), so they never wrap.
\<close>

definition counter_below :: "u64 \<Rightarrow> u32 \<Rightarrow> bool" where
  "counter_below n threshold \<longleftrightarrow> n = 0 \<or> unat n < unat threshold"

definition cb_inv :: "CircuitBreaker \<Rightarrow> bool" where
  "cb_inv cb \<longleftrightarrow> cb_state cb \<in> {0, 1, 2}
     \<and> (case current_state cb of
          Closed \<Rightarrow> cb_success_count cb = 0 \<and> counter_below (cb_failure_count cb) (cbc_failure_threshold (cb_config cb))
        | Open \<Rightarrow> cb_success_count cb = 0 \<and> cb_failure_count cb = 0
        | HalfOpen \<Rightarrow> cb_failure_count cb = 0 \<and> counter_below (cb_success_count cb) (cbc_success_threshold (cb_config cb)))"

lemma state_codes [simp]:
  "CircuitState_from 0 = Closed" "CircuitState_from 1 = Open" "CircuitState_from 2 = HalfOpen"
  by (simp_all add: CircuitState_from_def)

lemma CircuitState_from_code [simp]: "CircuitState_from (state_code s) = s"
  by (cases s) simp_all

lemmas cb_defs = current_state_def transition_to_open_def transition_to_half_open_def
  transition_to_closed_def allow_request_def report_success_def report_failure_def reset_def Let_def

lemma ucast_u32_le: "(ucast t :: u64) \<le> n \<longleftrightarrow> unat (t :: u32) \<le> unat n"
proof -
  have "unat t < 2 ^ 64" using unsigned_less [of t, where ?'a = nat] by simp
  then have "unat (ucast t :: u64) = unat t" by (simp add: unsigned_ucast_eq take_bit_nat_eq_self)
  then show ?thesis by (simp add: word_le_nat_alt)
qed

lemma counter_step:
  assumes "counter_below n t" and "\<not> ucast t \<le> n + 1"
  shows "counter_below (n + 1) t"
  using assms by (simp add: counter_below_def ucast_u32_le)

interpretation breaker: invariant_machine cb_step cb_inv
proof unfold_locales
  fix e cb assume inv: "cb_inv cb"
  show "cb_inv (cb_step e cb)"
  proof (cases e)
    case (AllowRequest now)
    with inv show ?thesis
      by (auto simp: cb_inv_def cb_defs counter_below_def split: CircuitState.splits)
  next
    case ReportSuccess
    with inv show ?thesis
      by (auto simp: cb_inv_def cb_defs counter_below_def ucast_u32_le split: CircuitState.splits)
  next
    case (ReportFailure now)
    with inv show ?thesis
      by (auto simp: cb_inv_def cb_defs counter_below_def ucast_u32_le split: CircuitState.splits)
  next
    case Reset
    with inv show ?thesis by (simp add: cb_inv_def cb_defs counter_below_def)
  qed
qed

lemma unat_Suc_u64: "unat n < unat (t :: u32) \<Longrightarrow> unat (n + 1 :: u64) = Suc (unat n)"
proof -
  assume "unat n < unat t"
  then have "unat n < 2 ^ 32" using unsigned_less [of t, where ?'a = nat] by simp
  then show ?thesis by (simp add: unat_word_ariths)
qed

lemma current_state_simps [simp]:
  "current_state (cb\<lparr>cb_failure_count := x\<rparr>) = current_state cb"
  "current_state (cb\<lparr>cb_success_count := x\<rparr>) = current_state cb"
  "current_state (transition_to_open now cb) = Open"
  "current_state (transition_to_half_open cb) = HalfOpen"
  "current_state (transition_to_closed cb) = Closed"
  by (simp_all add: current_state_def transition_to_open_def transition_to_half_open_def transition_to_closed_def)

lemma report_failure_closed:
  "current_state cb = Closed \<Longrightarrow> report_failure now cb =
     (if unat (cbc_failure_threshold (cb_config cb)) \<le> unat (cb_failure_count cb + 1)
      then transition_to_open now (cb\<lparr>cb_failure_count := cb_failure_count cb + 1\<rparr>)
      else cb\<lparr>cb_failure_count := cb_failure_count cb + 1\<rparr>)"
  by (simp add: report_failure_def Let_def ucast_u32_le)

lemma report_success_half_open:
  "current_state cb = HalfOpen \<Longrightarrow> report_success cb =
     (if unat (cbc_success_threshold (cb_config cb)) \<le> unat (cb_success_count cb + 1)
      then transition_to_closed (cb\<lparr>cb_success_count := cb_success_count cb + 1\<rparr>)
      else cb\<lparr>cb_success_count := cb_success_count cb + 1\<rparr>)"
  by (simp add: report_success_def Let_def ucast_u32_le)

section \<open>Properties\<close>

text \<open>
  Counting failures: a closed breaker with no recorded failure stays closed through fewer
  consecutive failures than the threshold and is open, with the time of the last failure, when the
  threshold is reached.
\<close>

theorem breaker_opens_at_threshold:
  assumes "current_state cb = Closed" and "cb_failure_count cb = 0"
    and "0 < unat (cbc_failure_threshold (cb_config cb))"
  shows "(length ts < unat (cbc_failure_threshold (cb_config cb)) \<longrightarrow> current_state (fold report_failure ts cb) = Closed)
    \<and> (length ts = unat (cbc_failure_threshold (cb_config cb)) \<longrightarrow>
         current_state (fold report_failure ts cb) = Open \<and> cb_opened_at (fold report_failure ts cb) = last ts)"
proof -
  let ?thr = "cbc_failure_threshold (cb_config cb)"
  have below: "current_state (fold report_failure ts cb) = Closed \<and> cb_config (fold report_failure ts cb) = cb_config cb
      \<and> unat (cb_failure_count (fold report_failure ts cb)) = length ts" if "length ts < unat ?thr" for ts
    using that
  proof (induction ts rule: rev_induct)
    case (snoc t ts)
    let ?c = "fold report_failure ts cb"
    have c: "current_state ?c = Closed" "cb_config ?c = cb_config cb" "unat (cb_failure_count ?c) = length ts"
      using snoc by auto
    have "unat (cb_failure_count ?c + 1) = Suc (length ts)"
      using unat_Suc_u64 [of "cb_failure_count ?c" ?thr] c snoc.prems by simp
    then show ?case
      using c snoc.prems by (simp add: report_failure_closed)
  qed (use assms in simp)
  have "current_state (fold report_failure ts cb) = Open \<and> cb_opened_at (fold report_failure ts cb) = last ts"
    if len: "length ts = unat ?thr"
  proof -
    obtain us t where ts: "ts = us @ [t]" using len assms(3) by (cases ts rule: rev_cases) auto
    have c: "current_state (fold report_failure us cb) = Closed" "cb_config (fold report_failure us cb) = cb_config cb"
      "unat (cb_failure_count (fold report_failure us cb)) = length us"
      using below [of us] len ts by auto
    have "unat (cb_failure_count (fold report_failure us cb) + 1) = length ts"
      using unat_Suc_u64 [of "cb_failure_count (fold report_failure us cb)" ?thr] c len ts by simp
    then show ?thesis
      using c len ts
      by (simp add: report_failure_closed) (simp add: transition_to_open_def)
  qed
  with below [of ts] show ?thesis by blast
qed

theorem breaker_opens_at_threshold_witness:
  "current_state (fold report_failure [10, 20, 30, 40, 50] (CircuitBreaker_new CircuitBreakerConfig_default)) = Open"
  using breaker_opens_at_threshold [of "CircuitBreaker_new CircuitBreakerConfig_default" "[10, 20, 30, 40, 50]"]
  by (simp add: CircuitBreaker_new_def CircuitBreakerConfig_default_def current_state_def)

text \<open>
  Failing fast: while the breaker is open and the timeout has not elapsed, every request is
  refused and no sequence of requests and reports changes the breaker in any way.
\<close>

theorem open_breaker_rejects:
  assumes "current_state cb = Open"
    and "\<And>e. e \<in> set es \<Longrightarrow> e \<noteq> Reset"
    and "\<And>now. AllowRequest now \<in> set es \<Longrightarrow> now - cb_opened_at cb < of_nat (cbc_timeout_micros (cb_config cb))"
  shows "fold cb_step es cb = cb \<and> (\<forall>now. AllowRequest now \<in> set es \<longrightarrow> \<not> snd (allow_request now cb))"
proof -
  have "cb_step e cb = cb" if e: "e \<in> set es" for e
  proof (cases e)
    case (AllowRequest now)
    then show ?thesis using assms(1) assms(3) [of now] e by (simp add: allow_request_def Let_def not_le [symmetric])
  qed (use assms(1) assms(2) [OF e] in \<open>auto simp: report_success_def report_failure_def\<close>)
  then have "fold cb_step es cb = cb"
    by (induction es) auto
  moreover have "\<not> snd (allow_request now cb)" if "AllowRequest now \<in> set es" for now
    using assms(1) assms(3) [OF that] by (simp add: allow_request_def Let_def not_le [symmetric])
  ultimately show ?thesis by blast
qed

theorem open_breaker_rejects_witness:
  "let cb = report_failure 100 (CircuitBreaker_new \<lparr>cbc_failure_threshold = 1, cbc_success_threshold = 2, cbc_timeout_micros = 50\<rparr>)
   in fold cb_step [ReportSuccess, AllowRequest 149] cb = cb \<and> \<not> snd (allow_request 149 cb)"
proof -
  let ?cb = "report_failure 100 (CircuitBreaker_new \<lparr>cbc_failure_threshold = 1, cbc_success_threshold = 2, cbc_timeout_micros = 50\<rparr>)"
  have cb: "?cb = \<lparr>cb_state = 1, cb_failure_count = 0, cb_success_count = 0, cb_opened_at = 100,
     cb_config = \<lparr>cbc_failure_threshold = 1, cbc_success_threshold = 2, cbc_timeout_micros = 50\<rparr>\<rparr>"
    by (simp add: cb_defs CircuitBreaker_new_def)
  have "fold cb_step [ReportSuccess, AllowRequest 149] ?cb = ?cb \<and>
      (\<forall>now. AllowRequest now \<in> set [ReportSuccess, AllowRequest 149] \<longrightarrow> \<not> snd (allow_request now ?cb))"
    unfolding cb by (rule open_breaker_rejects) (auto simp: current_state_def)
  then show ?thesis by simp
qed

text \<open>
  Recovery: the first request after the timeout is let through and moves the breaker to half-open
  with fresh counters; then any failure reopens it at once, and it closes exactly when the number of
  consecutive successes reaches the threshold.
\<close>

theorem half_open_recovery:
  assumes "current_state cb = Open" and "of_nat (cbc_timeout_micros (cb_config cb)) \<le> now - cb_opened_at cb"
    and "0 < unat (cbc_success_threshold (cb_config cb))"
  shows "let (h, allowed) = allow_request now cb in
     allowed \<and> current_state h = HalfOpen \<and> current_state (report_failure t h) = Open
     \<and> (n < unat (cbc_success_threshold (cb_config cb)) \<longrightarrow> current_state ((report_success ^^ n) h) = HalfOpen)
     \<and> (n = unat (cbc_success_threshold (cb_config cb)) \<longrightarrow> current_state ((report_success ^^ n) h) = Closed)"
proof -
  let ?h = "transition_to_half_open cb" and ?thr = "cbc_success_threshold (cb_config cb)"
  have allow: "allow_request now cb = (?h, True)" using assms by (simp add: allow_request_def Let_def)
  have h: "current_state ?h = HalfOpen" "cb_success_count ?h = 0" "cb_config ?h = cb_config cb"
    by (simp, simp_all add: transition_to_half_open_def)
  have below: "current_state ((report_success ^^ n) ?h) = HalfOpen \<and> cb_config ((report_success ^^ n) ?h) = cb_config cb
      \<and> unat (cb_success_count ((report_success ^^ n) ?h)) = n" if "n < unat ?thr" for n
    using that
  proof (induction n)
    case (Suc n)
    let ?c = "(report_success ^^ n) ?h"
    have c: "current_state ?c = HalfOpen" "cb_config ?c = cb_config cb" "unat (cb_success_count ?c) = n"
      using Suc by auto
    have "unat (cb_success_count ?c + 1) = Suc n"
      using unat_Suc_u64 [of "cb_success_count ?c" ?thr] c Suc.prems by simp
    then show ?case
      using c Suc.prems by (simp add: report_success_half_open)
  qed (use h in simp)
  have "current_state ((report_success ^^ n) ?h) = Closed" if n: "n = unat ?thr"
  proof -
    have "0 < n" using n assms(3) by simp
    then obtain m where m: "n = Suc m" using gr0_implies_Suc by blast
    have c: "current_state ((report_success ^^ m) ?h) = HalfOpen" "cb_config ((report_success ^^ m) ?h) = cb_config cb"
      "unat (cb_success_count ((report_success ^^ m) ?h)) = m" using below [of m] n m by auto
    have "unat (cb_success_count ((report_success ^^ m) ?h) + 1) = n"
      using unat_Suc_u64 [of "cb_success_count ((report_success ^^ m) ?h)" ?thr] c n m by simp
    then have "current_state (report_success ((report_success ^^ m) ?h)) = Closed"
      using c n by (simp add: report_success_half_open)
    moreover have "(report_success ^^ n) ?h = report_success ((report_success ^^ m) ?h)"
      unfolding m by simp
    ultimately show ?thesis by simp
  qed
  moreover have "current_state (report_failure t ?h) = Open"
    using h by (simp add: report_failure_def)
  ultimately show ?thesis using allow h below [of n] by simp
qed

theorem half_open_recovery_witness:
  "current_state ((report_success ^^ 2) (fst (allow_request 30000100
     (transition_to_open 100 (CircuitBreaker_new CircuitBreakerConfig_default))))) = Closed"
  using half_open_recovery [of "transition_to_open 100 (CircuitBreaker_new CircuitBreakerConfig_default)" 30000100 0 2]
  by (simp add: transition_to_open_def CircuitBreaker_new_def CircuitBreakerConfig_default_def current_state_def
      split_beta Let_def)

text \<open>
  Well-formedness over every history: the state byte stays one of the three codes, each counter is
  non-zero only in the state it belongs to and stays below its threshold, and every step moves along an
  edge of the documented diagram (closed to open, open to half-open, half-open to either, and a reset).
\<close>

theorem breaker_history:
  "let cb = fold cb_step es (CircuitBreaker_new cfg) in cb_inv cb \<and>
     (current_state cb, current_state (cb_step e cb)) \<in>
       {(Closed, Open), (Open, HalfOpen), (HalfOpen, Closed), (HalfOpen, Open)} \<union> Id
       \<union> (if e = Reset then UNIV \<times> {Closed} else {})"
proof -
  let ?cb = "fold cb_step es (CircuitBreaker_new cfg)"
  have "cb_inv ?cb"
    by (rule breaker.run_inv) (simp add: cb_inv_def CircuitBreaker_new_def current_state_def counter_below_def)
  moreover have "(current_state cb, current_state (cb_step e cb)) \<in>
       {(Closed, Open), (Open, HalfOpen), (HalfOpen, Closed), (HalfOpen, Open)} \<union> Id
       \<union> (if e = Reset then UNIV \<times> {Closed} else {})" for cb
    by (cases e; cases "CircuitState_from (cb_state cb)") (auto simp: cb_defs)
  ultimately show ?thesis by (simp add: Let_def)
qed

end
