(* ===== verification/Storage_Types.thy ===== *)
theory Storage_Types
  imports Core_Types
begin

text \<open>
  Types the storage components share: the errors of \<^verbatim>\<open>streamhouse-storage/src/error.rs\<close> and the segment row
  of the metadata store (\<^verbatim>\<open>SegmentInfo\<close> of \<^verbatim>\<open>streamhouse-metadata/src/types.rs\<close>). A \<^verbatim>\<open>SegmentError\<close> carries the text of
  its message; where the message is the text of another error, \<open>SegmentError\<close> carries that error itself.
\<close>

datatype storage_error =
    TopicNotFoundError string
  | PartitionNotFoundError string u32
  | S3UploadFailed string
  | MetadataError
  | ObjectStoreError
  | SegmentError error
  | SegmentErrorMsg string
  | OffsetNotFoundError u64
  | IoError
  | S3RateLimited
  | S3CircuitOpen

text \<open>A row of the metadata store's segment table (\<^verbatim>\<open>streamhouse_metadata::SegmentInfo\<close>).\<close>

record SegmentMeta =
  sm_id :: string
  sm_topic :: string
  sm_partition_id :: u32
  sm_base_offset :: u64
  sm_end_offset :: u64
  sm_record_count :: u32
  sm_size_bytes :: u64
  sm_s3_bucket :: string
  sm_s3_key :: string
  sm_created_at :: i64
  sm_min_timestamp :: i64
  sm_max_timestamp :: i64

end
