(* ===== verification/Partition_Writer.thy ===== *)
theory Partition_Writer
  imports Segment_Writer Wal_Writer Wal_Recovery Circuit_Breaker Storage_Types
begin

text \<open>
  The write path of one partition, \<^verbatim>\<open>streamhouse-storage/src/writer.rs\<close> (\<^verbatim>\<open>PartitionWriter\<close> and the
  partition choice of \<^verbatim>\<open>TopicWriter\<close>), with its configuration (\<^verbatim>\<open>config.rs\<close>) and the throttle in front of
  S3 (\<^verbatim>\<open>throttle.rs\<close>). Records are appended to the WAL, to a
  buffer and to the current segment; rolling finishes the segment, uploads it, registers it in the
  metadata store, clears the buffer and truncates the WAL.

  What the outside answers is an argument: the throttle's token bucket and clock and the object store's
  answer at every attempt, the metadata store's answer, the WAL's file operations. \<open>world\<close> is what
  outlives the writer: the object store and the partition's metadata. The payload of an error that
  quotes another crate's error is that error's value or is left out. A one-shot request to the WAL task is
  processed in one or two turns of its loop.
\<close>

section \<open>Configuration and world\<close>

record WriteConfig =
  cfg_segment_max_size :: nat
  cfg_segment_max_age_ms :: u64
  cfg_s3_bucket :: string
  cfg_s3_region :: string
  cfg_s3_endpoint :: "string option"
  cfg_block_size_target :: nat
  cfg_s3_upload_retries :: u32
  cfg_wal_config :: "WALConfig option"
  cfg_throttle_config :: "CircuitBreakerConfig option"
  cfg_multipart_threshold :: nat
  cfg_multipart_part_size :: nat
  cfg_parallel_upload_parts :: nat
  cfg_durable_batch_max_age_ms :: u64
  cfg_durable_batch_max_records :: nat
  cfg_durable_batch_max_bytes :: nat

definition WriteConfig_default :: WriteConfig where
  "WriteConfig_default =
     \<lparr>cfg_segment_max_size = 64 * 1024 * 1024, cfg_segment_max_age_ms = 10 * 60 * 1000,
      cfg_s3_bucket = ''streamhouse'', cfg_s3_region = ''us-east-1'', cfg_s3_endpoint = None,
      cfg_block_size_target = 1024 * 1024, cfg_s3_upload_retries = 3,
      cfg_wal_config = Some WALConfig_default, cfg_throttle_config = None,
      cfg_multipart_threshold = 8 * 1024 * 1024, cfg_multipart_part_size = 8 * 1024 * 1024,
      cfg_parallel_upload_parts = 4, cfg_durable_batch_max_age_ms = 200,
      cfg_durable_batch_max_records = 10000, cfg_durable_batch_max_bytes = 16 * 1024 * 1024\<rparr>"

record world =
  w_objects :: "string \<Rightarrow> bytes option"
  w_segments :: "SegmentMeta list"
  w_high_watermark :: u64
  w_removed_files :: "string list"

section \<open>The throttle\<close>

datatype ThrottleDecision = Allow | RateLimited | CircuitOpen

text \<open>\<open>token\<close> is the answer of the rate limiter's bucket.\<close>

definition throttle_acquire :: "u64 \<Rightarrow> bool \<Rightarrow> CircuitBreaker \<Rightarrow> CircuitBreaker \<times> ThrottleDecision" where
  "throttle_acquire now token cb =
     (let (cb', allowed) = allow_request now cb in
      if \<not> allowed then (cb', CircuitOpen)
      else if \<not> token then (cb', RateLimited)
      else (cb', Allow))"

definition throttle_report :: "u64 \<Rightarrow> bool \<Rightarrow> CircuitBreaker \<Rightarrow> CircuitBreaker" where
  "throttle_report now success cb = (if success then report_success cb else report_failure now cb)"

section \<open>Uploads\<close>

text \<open>A failed request may have stored the object all the same.\<close>

datatype put_outcome = PutOk | PutFailed string bool

record upload_env =
  ue_clock :: "nat \<Rightarrow> u64"
  ue_token :: "nat \<Rightarrow> bool"
  ue_put :: "nat \<Rightarrow> put_outcome"
  ue_multipart_start :: "string option"
  ue_multipart_part :: "nat \<Rightarrow> string option"
  ue_multipart_complete :: "(string \<times> bool) option"

definition acquire_if :: "upload_env \<Rightarrow> nat \<Rightarrow> CircuitBreaker option \<Rightarrow> CircuitBreaker option \<times> ThrottleDecision" where
  "acquire_if env attempt throttle =
     (case throttle of
        None \<Rightarrow> (None, Allow)
      | Some cb \<Rightarrow> (let (cb', d) = throttle_acquire (ue_clock env attempt) (ue_token env attempt) cb in (Some cb', d)))"

definition report_if :: "upload_env \<Rightarrow> nat \<Rightarrow> bool \<Rightarrow> CircuitBreaker option \<Rightarrow> CircuitBreaker option" where
  "report_if env attempt success throttle = map_option (throttle_report (ue_clock env attempt) success) throttle"

text \<open>
  The loop over attempts; \<open>n\<close> attempts remain, and falling out of the loop is \<^verbatim>\<open>unreachable!()\<close>.
\<close>

type_synonym objects = "string \<Rightarrow> bytes option"

fun upload_attempts ::
  "upload_env \<Rightarrow> string \<Rightarrow> bytes \<Rightarrow> nat \<Rightarrow> nat \<Rightarrow> CircuitBreaker option \<Rightarrow> objects
     \<Rightarrow> CircuitBreaker option \<times> objects \<times> (storage_error, unit) result" where
  "upload_attempts env key data attempt 0 throttle objs = (throttle, objs, Panic)"
| "upload_attempts env key data attempt (Suc n) throttle objs =
     (let (throttle1, decision) = acquire_if env attempt throttle in
      case decision of
        RateLimited \<Rightarrow> (throttle1, objs, Err S3RateLimited)
      | CircuitOpen \<Rightarrow> (throttle1, objs, Err S3CircuitOpen)
      | Allow \<Rightarrow>
          (case ue_put env attempt of
             PutOk \<Rightarrow> (report_if env attempt True throttle1, objs(key \<mapsto> data), Ok ())
           | PutFailed e stored \<Rightarrow>
               (let objs1 = (if stored then objs(key \<mapsto> data) else objs);
                    throttle2 = report_if env attempt False throttle1
                in if n > 0 then upload_attempts env key data (Suc attempt) n throttle2 objs1
                   else (throttle2, objs1, Err (S3UploadFailed e)))))"

text \<open>The parts are those of \<^verbatim>\<open>data.chunks(part_size)\<close>; the first part that fails ends the upload.\<close>

definition failing_part :: "upload_env \<Rightarrow> nat \<Rightarrow> string option" where
  "failing_part env num_parts =
     (case filter (\<lambda>i. ue_multipart_part env i \<noteq> None) [0..<num_parts] of
        [] \<Rightarrow> None | i # _ \<Rightarrow> ue_multipart_part env i)"

definition upload_multipart ::
  "upload_env \<Rightarrow> nat \<Rightarrow> string \<Rightarrow> bytes \<Rightarrow> CircuitBreaker option \<Rightarrow> objects
     \<Rightarrow> CircuitBreaker option \<times> objects \<times> (storage_error, unit) result" where
  "upload_multipart env part_size key data throttle objs =
     (if part_size = 0 then (throttle, objs, Panic)
      else let num_parts = (length data + part_size - 1) div part_size;
               (throttle1, decision) = acquire_if env 0 throttle
        in case decision of
             RateLimited \<Rightarrow> (throttle1, objs, Err S3RateLimited)
           | CircuitOpen \<Rightarrow> (throttle1, objs, Err S3CircuitOpen)
           | Allow \<Rightarrow>
               (case ue_multipart_start env of
                  Some e \<Rightarrow> (report_if env 0 False throttle1, objs, Err (S3UploadFailed (''Failed to start multipart: '' @ e)))
                | None \<Rightarrow>
                    (case failing_part env num_parts of
                       Some e \<Rightarrow> (report_if env 0 False throttle1, objs, Err (S3UploadFailed (''Part write failed: '' @ e)))
                     | None \<Rightarrow>
                         (case ue_multipart_complete env of
                            Some (e, stored) \<Rightarrow> (report_if env 0 False throttle1,
                                       if stored then objs(key \<mapsto> data) else objs,
                                       Err (S3UploadFailed (''Multipart upload failed: '' @ e)))
                          | None \<Rightarrow> (report_if env 0 True throttle1, objs(key \<mapsto> data), Ok ())))))"

definition upload_to_s3 ::
  "upload_env \<Rightarrow> WriteConfig \<Rightarrow> string \<Rightarrow> bytes \<Rightarrow> CircuitBreaker option \<Rightarrow> objects
     \<Rightarrow> CircuitBreaker option \<times> objects \<times> (storage_error, unit) result" where
  "upload_to_s3 env cfg key data throttle objs =
     (if length data \<ge> cfg_multipart_threshold cfg
      then upload_multipart env (cfg_multipart_part_size cfg) key data throttle objs
      else upload_attempts env key data 0 (unat (cfg_s3_upload_retries cfg)) throttle objs)"

section \<open>The writer\<close>

record PartitionWriter =
  pw_org_id :: string
  pw_topic :: string
  pw_partition_id :: u32
  pw_current_segment :: SegmentWriter
  pw_current_offset :: u64
  pw_segment_created_at :: i64
  pw_segment_size_estimate :: nat
  pw_s3_data_prefix :: string
  pw_wal :: "(WALConfig \<times> WalWriter) option"
  pw_throttle :: "CircuitBreaker option"
  pw_stale_wal_files :: "string list"
  pw_buffered_records :: "Record list"
  pw_config :: WriteConfig

text \<open>
  A request to the WAL task and its answer: its commands are processed in one turn, or split over two
  when the task wakes up in between. A request without \<open>Flush\<close> (batched mode) is answered by the send.
\<close>

record wal_env =
  we_split :: nat
  we_first :: flush_io
  we_second :: flush_io

definition wal_request ::
  "wal_env \<Rightarrow> WalCmd list \<Rightarrow> WalWriter \<Rightarrow> WalWriter \<times> (nat \<times> WalReply) list" where
  "wal_request we cmds w =
     (let first = take (we_split we) cmds; second = drop (we_split we) cmds;
          (w1, r1) = (if first = [] then (w, []) else wal_turn (we_first we) TruncOk first w);
          (w2, r2) = (if second = [] then (w1, []) else wal_turn (we_second we) TruncOk second w1)
      in (w2, r1 @ r2))"

definition wal_request_ok :: "WalCmd list \<Rightarrow> (nat \<times> WalReply) list \<Rightarrow> bool" where
  "wal_request_ok cmds replies = (\<forall>tx\<in>set (flush_ids cmds). (tx, Flushed True) \<in> set replies)"

definition log_to_wal :: "wal_env \<Rightarrow> (WALConfig \<Rightarrow> WalCmd list) \<Rightarrow> PartitionWriter \<Rightarrow> PartitionWriter \<times> bool" where
  "log_to_wal we cmds_of pw =
     (case pw_wal pw of
        None \<Rightarrow> (pw, True)
      | Some (cfg, w) \<Rightarrow>
          (let cmds = cmds_of cfg; (w', replies) = wal_request we cmds w
           in (pw\<lparr>pw_wal := Some (cfg, w')\<rparr>, wal_request_ok cmds replies)))"

text \<open>The common tail of both appends: estimate, buffer, segment.\<close>

definition store_record :: "(bytes \<Rightarrow> bytes) \<Rightarrow> Record \<Rightarrow> PartitionWriter \<Rightarrow> PartitionWriter \<times> (storage_error, unit) result" where
  "store_record lz4 r pw =
     (let pw1 = pw\<lparr>pw_segment_size_estimate := pw_segment_size_estimate pw + estimated_size r,
                   pw_buffered_records := pw_buffered_records pw @ [r]\<rparr>
      in case append_record lz4 (pw_current_segment pw1) r of
           Ok seg \<Rightarrow> (pw1\<lparr>pw_current_segment := seg\<rparr>, Ok ())
         | Err e \<Rightarrow> (pw1, Err (SegmentError e))
         | Panic \<Rightarrow> (pw1, Panic))"

definition pw_append ::
  "(bytes \<Rightarrow> bytes) \<Rightarrow> (bytes \<Rightarrow> u32) \<Rightarrow> wal_env \<Rightarrow> u64 \<Rightarrow> bytes option \<Rightarrow> bytes \<Rightarrow> u64 \<Rightarrow> PartitionWriter
     \<Rightarrow> PartitionWriter \<times> (storage_error, u64) result" where
  "pw_append lz4 crc32 we now key val timestamp pw =
     (let offset = pw_current_offset pw;
          pw1 = pw\<lparr>pw_current_offset := pw_current_offset pw + 1\<rparr>;
          (pw2, logged) = log_to_wal we (\<lambda>cfg. append_cmds crc32 cfg key val now 0) pw1
      in if \<not> logged then (pw2, Err IoError)
         else (let (pw3, res) = store_record lz4 (Record_new offset timestamp key val) pw2
               in (pw3, rbind res (\<lambda>_. Ok offset))))"

fun store_batch ::
  "(bytes \<Rightarrow> bytes) \<Rightarrow> u64 \<Rightarrow> (bytes option \<times> bytes \<times> u64) list \<Rightarrow> PartitionWriter
     \<Rightarrow> PartitionWriter \<times> (storage_error, unit) result" where
  "store_batch lz4 offset [] pw = (pw, Ok ())"
| "store_batch lz4 offset ((key, val, timestamp) # rs) pw =
     (case store_record lz4 (Record_new offset timestamp key val) pw of
        (pw1, Ok _) \<Rightarrow> store_batch lz4 (offset + 1) rs pw1
      | (pw1, Err e) \<Rightarrow> (pw1, Err e)
      | (pw1, Panic) \<Rightarrow> (pw1, Panic))"

definition pw_append_batch ::
  "(bytes \<Rightarrow> bytes) \<Rightarrow> (bytes \<Rightarrow> u32) \<Rightarrow> wal_env \<Rightarrow> u64 \<Rightarrow> (bytes option \<times> bytes \<times> u64) list \<Rightarrow> PartitionWriter
     \<Rightarrow> PartitionWriter \<times> (storage_error, u64 list) result" where
  "pw_append_batch lz4 crc32 we now records pw =
     (if records = [] then (pw, Ok [])
      else let base_offset = pw_current_offset pw;
               offsets = map (\<lambda>i. base_offset + of_nat i) [0..<length records];
               pw1 = pw\<lparr>pw_current_offset := pw_current_offset pw + of_nat (length records)\<rparr>;
               (pw2, logged) = log_to_wal we
                 (\<lambda>cfg. append_batch_cmds crc32 cfg (map (\<lambda>(key, val, _). (key, val)) records) now 0) pw1
           in if \<not> logged then (pw2, Err IoError)
              else (let (pw3, res) = store_batch lz4 base_offset records pw2
                    in (pw3, rbind res (\<lambda>_. Ok offsets))))"

text \<open>
  The buffer is sorted by offset, so \<^verbatim>\<open>binary_search_by_key\<close> returns the position of the first record at
  or after the requested offset, found or not.
\<close>

definition read_buffered :: "u64 \<Rightarrow> nat \<Rightarrow> PartitionWriter \<Rightarrow> Record list" where
  "read_buffered start_offset max_records pw =
     (if pw_buffered_records pw = [] then []
      else let start_idx = length (takeWhile (\<lambda>r. rec_offset r < start_offset) (pw_buffered_records pw))
           in take max_records (drop start_idx (pw_buffered_records pw)))"

definition should_roll_segment :: "i64 \<Rightarrow> PartitionWriter \<Rightarrow> bool" where
  "should_roll_segment now pw =
     (pw_segment_size_estimate pw \<ge> cfg_segment_max_size (pw_config pw)
      \<or> cfg_segment_max_age_ms (pw_config pw) \<le> now - pw_segment_created_at pw)"

section \<open>Rolling a segment\<close>

definition pad20 :: "nat \<Rightarrow> string" where
  "pad20 n = replicate (20 - length (show_nat n)) (CHR ''0'') @ show_nat n"

definition segment_key :: "PartitionWriter \<Rightarrow> u64 \<Rightarrow> string" where
  "segment_key pw base_offset =
     pw_s3_data_prefix pw @ ''/'' @ pw_topic pw @ ''/'' @ show_nat (unat (pw_partition_id pw)) @ ''/''
     @ pad20 (unat base_offset) @ ''.seg''"

record roll_env =
  ro_now :: i64
  ro_upload :: upload_env
  ro_metadata_ok :: bool
  ro_flush :: flush_io
  ro_truncate :: trunc_io

definition unwrap_or :: "'a \<Rightarrow> 'a option \<Rightarrow> 'a" where
  "unwrap_or d x = (case x of Some a \<Rightarrow> a | None \<Rightarrow> d)"

definition segment_row ::
  "roll_env \<Rightarrow> PartitionWriter \<Rightarrow> SegmentWriter \<Rightarrow> u64 \<Rightarrow> u64 \<Rightarrow> string \<Rightarrow> bytes \<Rightarrow> SegmentMeta" where
  "segment_row env pw segment base_offset end_offset s3_key segment_bytes =
     \<lparr>sm_id = pw_topic pw @ ''-'' @ show_nat (unat (pw_partition_id pw)) @ ''-'' @ show_nat (unat base_offset),
      sm_topic = pw_topic pw, sm_partition_id = pw_partition_id pw,
      sm_base_offset = base_offset, sm_end_offset = end_offset,
      sm_record_count = sw_record_count segment, sm_size_bytes = of_nat (length segment_bytes),
      sm_s3_bucket = cfg_s3_bucket (pw_config pw), sm_s3_key = s3_key, sm_created_at = ro_now env,
      sm_min_timestamp = unwrap_or (ro_now env) (min_timestamp segment),
      sm_max_timestamp = unwrap_or (ro_now env) (max_timestamp segment)\<rparr>"

text \<open>The end of \<^verbatim>\<open>roll_segment\<close>, after the metadata store has accepted the segment.\<close>

definition roll_cleanup :: "roll_env \<Rightarrow> PartitionWriter \<Rightarrow> world \<Rightarrow> PartitionWriter \<times> world \<times> (storage_error, unit) result" where
  "roll_cleanup env pw wd =
     (let pw1 = pw\<lparr>pw_buffered_records := []\<rparr>;
          (pw2, truncated) =
            (case pw_wal pw1 of
               None \<Rightarrow> (pw1, True)
             | Some (cfg, w) \<Rightarrow>
                 (let (w', replies) = wal_turn (ro_flush env) (ro_truncate env) [Truncate 0] w
                  in (pw1\<lparr>pw_wal := Some (cfg, w')\<rparr>, (0, Truncated True) \<in> set replies)))
      in if \<not> truncated then (pw2, wd, Err IoError)
         else (pw2\<lparr>pw_stale_wal_files := [], pw_segment_created_at := ro_now env, pw_segment_size_estimate := 0\<rparr>,
               wd\<lparr>w_removed_files := w_removed_files wd @ pw_stale_wal_files pw2\<rparr>, Ok ()))"

definition roll_segment ::
  "(bytes \<Rightarrow> bytes) \<Rightarrow> (bytes \<Rightarrow> u32) \<Rightarrow> roll_env \<Rightarrow> PartitionWriter \<Rightarrow> world
     \<Rightarrow> PartitionWriter \<times> world \<times> (storage_error, unit) result" where
  "roll_segment lz4 crc32 env pw wd =
     (let segment = pw_current_segment pw;
          pw1 = pw\<lparr>pw_current_segment := SegmentWriter_new CompLz4\<rparr>
      in case (sw_base_offset segment, sw_last_offset segment) of
           (Some base_offset, Some end_offset) \<Rightarrow>
             (case finish lz4 crc32 segment of
                Ok segment_bytes \<Rightarrow>
                  (let s3_key = segment_key pw1 base_offset;
                       (throttle', objs', uploaded) =
                         upload_to_s3 (ro_upload env) (pw_config pw1) s3_key segment_bytes (pw_throttle pw1) (w_objects wd);
                       pw2 = pw1\<lparr>pw_throttle := throttle'\<rparr>; wd1 = wd\<lparr>w_objects := objs'\<rparr>
                   in case uploaded of
                        Ok _ \<Rightarrow>
                          (let info = segment_row env pw segment base_offset end_offset s3_key segment_bytes
                           in if \<not> ro_metadata_ok env then (pw2, wd1, Err MetadataError)
                              else roll_cleanup env pw2
                                (wd1\<lparr>w_segments := w_segments wd1 @ [info], w_high_watermark := end_offset + 1\<rparr>))
                      | Err e \<Rightarrow> (pw2, wd1, Err e)
                      | Panic \<Rightarrow> (pw2, wd1, Panic))
              | Err e \<Rightarrow> (pw1, wd, Err (SegmentError e))
              | Panic \<Rightarrow> (pw1, wd, Panic))
         | _ \<Rightarrow> (pw1, wd, Err (SegmentErrorMsg ''Cannot roll empty segment'')))"

definition pw_flush ::
  "(bytes \<Rightarrow> bytes) \<Rightarrow> (bytes \<Rightarrow> u32) \<Rightarrow> roll_env \<Rightarrow> PartitionWriter \<Rightarrow> world
     \<Rightarrow> PartitionWriter \<times> world \<times> (storage_error, unit) result" where
  "pw_flush lz4 crc32 env pw wd =
     (if sw_record_count (pw_current_segment pw) > 0 \<and> should_roll_segment (ro_now env) pw
      then roll_segment lz4 crc32 env pw wd
      else (pw, wd, Ok ()))"

definition flush_durable ::
  "(bytes \<Rightarrow> bytes) \<Rightarrow> (bytes \<Rightarrow> u32) \<Rightarrow> roll_env \<Rightarrow> PartitionWriter \<Rightarrow> world
     \<Rightarrow> PartitionWriter \<times> world \<times> (storage_error, u64 option) result" where
  "flush_durable lz4 crc32 env pw wd =
     (if sw_record_count (pw_current_segment pw) > 0
      then let end_offset = sw_last_offset (pw_current_segment pw);
               (pw', wd', res) = roll_segment lz4 crc32 env pw wd
           in (pw', wd', rbind res (\<lambda>_. Ok end_offset))
      else (pw, wd, Ok None))"

section \<open>Creation and recovery\<close>

text \<open>
  \<^verbatim>\<open>PartitionWriter::new\<close>: the records recovered from the WAL files of other agents (none when the scan
  failed), then those of the own WAL, are replayed from the high watermark on. \<open>known\<close> is the
  metadata store's answer, \<open>others\<close> that of \<open>recover_partition\<close>, \<open>own\<close> the opened WAL with what it recovered.
\<close>

fun replay ::
  "(bytes \<Rightarrow> bytes) \<Rightarrow> WALRecord list \<Rightarrow> u64 \<times> Record list \<times> SegmentWriter
     \<Rightarrow> (storage_error, u64 \<times> Record list \<times> SegmentWriter) result" where
  "replay lz4 [] s = Ok s"
| "replay lz4 (wr # wrs) (offset, buffered, seg) =
     (let r = Record_new offset (wr_timestamp wr) (wr_key wr) (wr_value wr) in
      rbind (map_err SegmentError (append_record lz4 seg r)) (\<lambda>seg'. replay lz4 wrs (offset + 1, buffered @ [r], seg')))"

definition PartitionWriter_new ::
  "(bytes \<Rightarrow> bytes) \<Rightarrow> i64 \<Rightarrow> u64 option \<Rightarrow> (error, WALRecord list \<times> string list) result
     \<Rightarrow> (WalWriter \<times> WALRecord list) option \<Rightarrow> string \<Rightarrow> string \<Rightarrow> u32 \<Rightarrow> WriteConfig \<Rightarrow> string
     \<Rightarrow> (storage_error, PartitionWriter) result" where
  "PartitionWriter_new lz4 now known others own org_id topic partition_id config s3_data_prefix =
     rbind (ok_or (PartitionNotFoundError topic partition_id) known) (\<lambda>high_watermark.
     let base = \<lparr>pw_org_id = org_id, pw_topic = topic, pw_partition_id = partition_id,
            pw_current_segment = SegmentWriter_new CompLz4, pw_current_offset = high_watermark,
            pw_segment_created_at = now, pw_segment_size_estimate = 0, pw_s3_data_prefix = s3_data_prefix,
            pw_wal = None, pw_throttle = map_option CircuitBreaker_new (cfg_throttle_config config),
            pw_stale_wal_files = [], pw_buffered_records = [], pw_config = config\<rparr>
     in case cfg_wal_config config of
          None \<Rightarrow> Ok base
        | Some wcfg \<Rightarrow>
            (let (other_records, stale) =
               (case wc_agent_id wcfg of
                  None \<Rightarrow> ([], [])
                | Some _ \<Rightarrow> (case others of Ok (rs, stale) \<Rightarrow> (rs, stale) | _ \<Rightarrow> ([], [])))
             in case own of
                  None \<Rightarrow> Err IoError
                | Some (w, own_records) \<Rightarrow>
                    rbind (replay lz4 (other_records @ own_records) (high_watermark, [], SegmentWriter_new CompLz4))
                      (\<lambda>(offset, buffered, seg).
                        Ok (base\<lparr>pw_current_segment := seg, pw_current_offset := offset,
                                 pw_wal := Some (wcfg, w), pw_stale_wal_files := stale,
                                 pw_buffered_records := buffered\<rparr>))))"

section \<open>Choosing the partition\<close>

text \<open>
  \<open>hash\<close> is \<^verbatim>\<open>DefaultHasher\<close>; without a key the counter, a wrapping \<^verbatim>\<open>u32\<close>, is advanced. A remainder by
  zero panics.
\<close>

definition select_partition ::
  "(bytes \<Rightarrow> u64) \<Rightarrow> nat \<Rightarrow> bytes option \<Rightarrow> u32 \<Rightarrow> u32 \<times> (storage_error, u32) result" where
  "select_partition hash partitions key counter =
     (case key of
        Some k \<Rightarrow> (counter, if (of_nat partitions :: u64) = 0 then Panic
                            else Ok (ucast (hash k mod of_nat partitions)))
      | None \<Rightarrow> (counter + 1, if (of_nat partitions :: u32) = 0 then Panic
                              else Ok (counter mod of_nat partitions)))"

end
