(* ===== verification/Partition_Properties.thy ===== *)
theory Partition_Properties
  imports Partition_Writer Segment_Properties
begin

text \<open>
  Properties of the write path of a partition. \<open>pw_holds lz4 rs pw\<close> says that the writer's current segment
  is what appending the records \<open>rs\<close> to a fresh segment gives; every operation is characterised by what
  it does to \<open>rs\<close>, to the buffer and to the world.
\<close>

section \<open>The current segment\<close>

definition pw_holds :: "(bytes \<Rightarrow> bytes) \<Rightarrow> Record list \<Rightarrow> PartitionWriter \<Rightarrow> bool" where
  "pw_holds lz4 rs pw = (append_all lz4 (SegmentWriter_new CompLz4) rs = Ok (pw_current_segment pw))"

lemma append_all_snoc: "append_all lz4 w (rs @ [r]) = rbind (append_all lz4 w rs) (\<lambda>w'. append_record lz4 w' r)"
proof (induction rs arbitrary: w)
  case Nil
  show ?case by (cases "append_record lz4 w r") simp_all
next
  case (Cons a rs)
  then show ?case by (cases "append_record lz4 w a") simp_all
qed

lemma append_all_rep_of:
  assumes "append_all lz4 (SegmentWriter_new CompLz4) rs = Ok w" and "rs \<noteq> []"
  shows "\<exists>full cur. writer_rep lz4 CompLz4 w full cur \<and> concat full @ cur = rs"
proof -
  obtain r rs' where rs: "rs = r # rs'" using assms(2) by (cases rs) auto
  obtain w1 where w1: "append_record lz4 (SegmentWriter_new CompLz4) r = Ok w1" using append_first_Ok by blast
  then have "writer_rep lz4 CompLz4 w1 [] [r]" by (rule append_first)
  then obtain w' full cur where "append_all lz4 w1 rs' = Ok w'" "writer_rep lz4 CompLz4 w' full cur"
    "concat full @ cur = [r] @ rs'" using append_all_rep [of lz4 CompLz4 w1 "[]" "[r]" rs'] by auto
  then show ?thesis using assms(1) rs w1 by auto
qed

lemma append_record_holds:
  assumes "append_all lz4 (SegmentWriter_new CompLz4) rs = Ok w"
  shows "\<exists>w'. append_record lz4 w r = Ok w' \<and> append_all lz4 (SegmentWriter_new CompLz4) (rs @ [r]) = Ok w'"
proof (cases "rs = []")
  case True
  then show ?thesis using assms append_first_Ok [of lz4 CompLz4 r] by auto
next
  case False
  then obtain full cur where "writer_rep lz4 CompLz4 w full cur" using append_all_rep_of assms by blast
  then obtain w' where "append_record lz4 w r = Ok w'" using append_rep [of lz4 CompLz4 w full cur r] by auto
  then show ?thesis using assms by (simp add: append_all_snoc)
qed

lemma holds_segment:
  assumes "pw_holds lz4 rs pw" and "rs \<noteq> []"
  shows "sw_base_offset (pw_current_segment pw) = Some (rec_offset (hd rs))"
    and "sw_last_offset (pw_current_segment pw) = Some (rec_offset (last rs))"
    and "sw_record_count (pw_current_segment pw) = of_nat (length rs)"
    and "\<exists>data. finish lz4 crc32 (pw_current_segment pw) = Ok data \<and> write_segment lz4 crc32 CompLz4 rs = Ok data"
proof -
  obtain full cur where rep: "writer_rep lz4 CompLz4 (pw_current_segment pw) full cur" and rs: "concat full @ cur = rs"
    using append_all_rep_of assms unfolding pw_holds_def by blast
  have "cur \<noteq> []" using rep by (rule writer_rep_cur)
  then have l: "last rs = last cur" using rs by (metis last_appendR)
  show "sw_base_offset (pw_current_segment pw) = Some (rec_offset (hd rs))"
    and "sw_last_offset (pw_current_segment pw) = Some (rec_offset (last rs))"
    and "sw_record_count (pw_current_segment pw) = of_nat (length rs)"
    using rep rs l unfolding writer_rep_def by auto
  show "\<exists>data. finish lz4 crc32 (pw_current_segment pw) = Ok data \<and> write_segment lz4 crc32 CompLz4 rs = Ok data"
    using finish_rep [OF rep] assms(1) by (auto simp: write_segment_def pw_holds_def)
qed

lemma holds_empty [simp]: "pw_holds lz4 [] pw \<longleftrightarrow> pw_current_segment pw = SegmentWriter_new CompLz4"
  by (auto simp: pw_holds_def)

section \<open>Appending\<close>

lemma store_record_holds:
  assumes "pw_holds lz4 rs pw"
  shows "\<exists>pw'. store_record lz4 r pw = (pw', Ok ()) \<and> pw_holds lz4 (rs @ [r]) pw'
     \<and> pw_buffered_records pw' = pw_buffered_records pw @ [r]
     \<and> pw_current_offset pw' = pw_current_offset pw \<and> pw_wal pw' = pw_wal pw"
proof -
  obtain seg where "append_record lz4 (pw_current_segment pw) r = Ok seg"
    "append_all lz4 (SegmentWriter_new CompLz4) (rs @ [r]) = Ok seg"
    using append_record_holds assms unfolding pw_holds_def by blast
  then show ?thesis by (simp add: store_record_def pw_holds_def Let_def)
qed

fun number_records :: "u64 \<Rightarrow> (bytes option \<times> bytes \<times> u64) list \<Rightarrow> Record list" where
  "number_records base [] = []"
| "number_records base ((k, v, t) # rs) = Record_new base t k v # number_records (base + 1) rs"

lemma store_batch_holds:
  assumes "pw_holds lz4 rs pw"
  shows "\<exists>pw'. store_batch lz4 base recs pw = (pw', Ok ()) \<and> pw_holds lz4 (rs @ number_records base recs) pw'
     \<and> pw_buffered_records pw' = pw_buffered_records pw @ number_records base recs
     \<and> pw_current_offset pw' = pw_current_offset pw \<and> pw_wal pw' = pw_wal pw"
  using assms
proof (induction recs arbitrary: base rs pw)
  case Nil
  then show ?case by simp
next
  case (Cons x recs)
  obtain k v t where x: "x = (k, v, t)" by (cases x) auto
  let ?r = "Record_new base t k v"
  obtain pw1 where pw1: "store_record lz4 ?r pw = (pw1, Ok ())" "pw_holds lz4 (rs @ [?r]) pw1"
    "pw_buffered_records pw1 = pw_buffered_records pw @ [?r]" "pw_current_offset pw1 = pw_current_offset pw"
    "pw_wal pw1 = pw_wal pw"
    using store_record_holds [OF Cons.prems] by blast
  show ?case using Cons.IH [OF pw1(2), of "base + 1"] pw1 x by auto
qed

text \<open>What an append does when the log accepted it, and when it did not.\<close>

lemma log_to_wal_fields:
  assumes "log_to_wal we cmds pw = (pw', ok)"
  shows "pw_current_segment pw' = pw_current_segment pw" "pw_buffered_records pw' = pw_buffered_records pw"
    "pw_current_offset pw' = pw_current_offset pw" "pw_config pw' = pw_config pw"
  using assms by (auto simp: log_to_wal_def Let_def split: option.splits prod.splits)

lemma pw_append_outcome:
  assumes "pw_holds lz4 rs pw" and "pw_append lz4 crc32 we now k v t pw = (pw', res)"
  shows "pw_current_offset pw' = pw_current_offset pw + 1"
    and "(let r = Record_new (pw_current_offset pw) t k v in
           res = Ok (pw_current_offset pw) \<and> pw_holds lz4 (rs @ [r]) pw' \<and> pw_buffered_records pw' = pw_buffered_records pw @ [r])
       \<or> res = Err IoError \<and> pw_holds lz4 rs pw' \<and> pw_buffered_records pw' = pw_buffered_records pw"
proof -
  let ?r = "Record_new (pw_current_offset pw) t k v"
  obtain pw2 ok where log: "log_to_wal we (\<lambda>cfg. append_cmds crc32 cfg k v now 0)
      (pw\<lparr>pw_current_offset := pw_current_offset pw + 1\<rparr>) = (pw2, ok)" by fastforce
  note f = log_to_wal_fields [OF log]
  have h: "pw_holds lz4 rs pw2" using assms(1) f(1) by (simp add: pw_holds_def)
  obtain pw3 where s: "store_record lz4 ?r pw2 = (pw3, Ok ())" "pw_holds lz4 (rs @ [?r]) pw3"
    "pw_buffered_records pw3 = pw_buffered_records pw2 @ [?r]" "pw_current_offset pw3 = pw_current_offset pw2"
    using store_record_holds [OF h] by blast
  show "pw_current_offset pw' = pw_current_offset pw + 1"
    using assms(2) log f s by (cases ok) (auto simp: pw_append_def Let_def)
  show "(let r = ?r in res = Ok (pw_current_offset pw) \<and> pw_holds lz4 (rs @ [r]) pw' \<and> pw_buffered_records pw' = pw_buffered_records pw @ [r])
       \<or> res = Err IoError \<and> pw_holds lz4 rs pw' \<and> pw_buffered_records pw' = pw_buffered_records pw"
    using assms(2) log f h s by (cases ok) (auto simp: pw_append_def Let_def)
qed

lemma pw_append_batch_outcome:
  assumes "pw_holds lz4 rs pw" and "pw_append_batch lz4 crc32 we now recs pw = (pw', res)"
  shows "pw_current_offset pw' = pw_current_offset pw + of_nat (length recs)"
    and "(let new = number_records (pw_current_offset pw) recs in
           res = Ok (map (\<lambda>i. pw_current_offset pw + of_nat i) [0..<length recs])
           \<and> pw_holds lz4 (rs @ new) pw' \<and> pw_buffered_records pw' = pw_buffered_records pw @ new)
       \<or> res = Err IoError \<and> pw_holds lz4 rs pw' \<and> pw_buffered_records pw' = pw_buffered_records pw"
proof -
  let ?cmds = "\<lambda>cfg. append_batch_cmds crc32 cfg (map (\<lambda>(key, val, _). (key, val)) recs) now 0"
  obtain pw2 ok where log: "log_to_wal we ?cmds
      (pw\<lparr>pw_current_offset := pw_current_offset pw + of_nat (length recs)\<rparr>) = (pw2, ok)" by fastforce
  note f = log_to_wal_fields [OF log]
  have h: "pw_holds lz4 rs pw2" using assms(1) f(1) by (simp add: pw_holds_def)
  obtain pw3 where s: "store_batch lz4 (pw_current_offset pw) recs pw2 = (pw3, Ok ())"
    "pw_holds lz4 (rs @ number_records (pw_current_offset pw) recs) pw3"
    "pw_buffered_records pw3 = pw_buffered_records pw2 @ number_records (pw_current_offset pw) recs"
    "pw_current_offset pw3 = pw_current_offset pw2"
    using store_batch_holds [OF h] by blast
  show "pw_current_offset pw' = pw_current_offset pw + of_nat (length recs)"
    using assms(2) log f s by (cases ok) (auto simp: pw_append_batch_def Let_def split: if_splits)
  show "(let new = number_records (pw_current_offset pw) recs in
           res = Ok (map (\<lambda>i. pw_current_offset pw + of_nat i) [0..<length recs])
           \<and> pw_holds lz4 (rs @ new) pw' \<and> pw_buffered_records pw' = pw_buffered_records pw @ new)
       \<or> res = Err IoError \<and> pw_holds lz4 rs pw' \<and> pw_buffered_records pw' = pw_buffered_records pw"
    using assms log f s h by (cases ok) (auto simp: pw_append_batch_def Let_def split: if_splits)
qed

section \<open>Rolling\<close>

lemma upload_attempts_ok:
  "upload_attempts env key data a n throttle objs = (throttle', objs', Ok u) \<Longrightarrow> objs' key = Some data"
proof (induction n arbitrary: a throttle objs)
  case (Suc n)
  obtain t1 d where acq: "acquire_if env a throttle = (t1, d)" by fastforce
  show ?case
  proof (cases d)
    case Allow
    then show ?thesis
      using Suc acq by (cases "ue_put env a") (auto simp: Let_def split: if_splits)
  qed (use Suc.prems acq in \<open>auto simp: Let_def\<close>)
qed simp

lemma upload_to_s3_ok:
  "upload_to_s3 env cfg key data throttle objs = (throttle', objs', Ok u) \<Longrightarrow> objs' key = Some data"
  by (auto simp: upload_to_s3_def upload_multipart_def Let_def dest: upload_attempts_ok
      split: if_splits prod.splits ThrottleDecision.splits option.splits)

definition wal_is_empty :: "PartitionWriter \<Rightarrow> bool" where
  "wal_is_empty pw = (case pw_wal pw of None \<Rightarrow> True | Some (_, w) \<Rightarrow> ww_file w = [] \<and> ww_batch w = [])"

lemma do_truncate_ok: "do_truncate tio w = (w', True) \<Longrightarrow> ww_file w' = [] \<and> ww_batch w' = []"
  by (auto simp: do_truncate_def Let_def split: trunc_io.splits if_splits)

lemma truncate_turn:
  assumes "wal_turn fio tio [Truncate 0] w = (w', replies)" and "(0, Truncated True) \<in> set replies"
  shows "ww_file w' = [] \<and> ww_batch w' = []"
proof -
  let ?t = "process_cmd (Truncate 0) (WalTurn_start w)"
  obtain w1 ok where w1: "(if should_flush ?t \<and> ww_batch (wt_writer ?t) \<noteq> [] then do_flush fio (wt_writer ?t)
      else (wt_writer ?t, True)) = (w1, ok)" by fastforce
  obtain w2 tr where w2: "do_truncate tio w1 = (w2, tr)" by fastforce
  have "w' = w2 \<and> tr"
    using assms w1 w2 by (auto simp: wal_turn_def Let_def process_cmd_def WalTurn_start_def split: if_splits)
  then show ?thesis using do_truncate_ok [of tio w1 w2] w2 by simp
qed

lemma roll_cleanup_ok:
  assumes "roll_cleanup env pw wd = (pw', wd', Ok u)"
  shows "pw_buffered_records pw' = []" "pw_current_segment pw' = pw_current_segment pw" "wal_is_empty pw'"
    "w_segments wd' = w_segments wd" "w_objects wd' = w_objects wd" "w_high_watermark wd' = w_high_watermark wd"
    "pw_current_offset pw' = pw_current_offset pw"
  using assms truncate_turn
  by (auto simp: roll_cleanup_def wal_is_empty_def Let_def split: option.splits prod.splits if_splits)

lemma roll_segment_ok:
  assumes h: "pw_holds lz4 rs pw" and ne: "rs \<noteq> []"
    and roll: "roll_segment lz4 crc32 env pw wd = (pw', wd', Ok u)"
  shows "\<exists>data info. write_segment lz4 crc32 CompLz4 rs = Ok data \<and> w_objects wd' (sm_s3_key info) = Some data
     \<and> w_segments wd' = w_segments wd @ [info] \<and> sm_base_offset info = rec_offset (hd rs)
     \<and> sm_end_offset info = rec_offset (last rs) \<and> sm_s3_key info = segment_key pw (rec_offset (hd rs))
     \<and> w_high_watermark wd' = rec_offset (last rs) + 1"
    and "pw_buffered_records pw' = []" and "pw_holds lz4 [] pw'" and "wal_is_empty pw'"
    and "pw_current_offset pw' = pw_current_offset pw"
proof -
  note seg = holds_segment [OF h ne]
  obtain data where data: "finish lz4 crc32 (pw_current_segment pw) = Ok data" "write_segment lz4 crc32 CompLz4 rs = Ok data"
    using seg(4) by blast
  let ?pw1 = "pw\<lparr>pw_current_segment := SegmentWriter_new CompLz4\<rparr>"
  let ?key = "segment_key ?pw1 (rec_offset (hd rs))"
  obtain t objs up where up: "upload_to_s3 (ro_upload env) (pw_config pw) ?key data (pw_throttle pw) (w_objects wd) = (t, objs, up)"
    by (metis prod_cases3)
  have up_ok: "\<exists>u. up = Ok u" and meta: "ro_metadata_ok env"
    using roll seg(1,2) data(1) up by (auto simp: roll_segment_def Let_def split: result.splits if_splits)
  then have obj: "objs ?key = Some data" using upload_to_s3_ok up by blast
  let ?info = "segment_row env pw (pw_current_segment pw) (rec_offset (hd rs)) (rec_offset (last rs)) ?key data"
  have info: "sm_base_offset ?info = rec_offset (hd rs)" "sm_end_offset ?info = rec_offset (last rs)"
    "sm_s3_key ?info = ?key" by (simp_all add: segment_row_def)
  have clean: "roll_cleanup env (?pw1\<lparr>pw_throttle := t\<rparr>) (wd\<lparr>w_objects := objs,
      w_segments := w_segments wd @ [?info], w_high_watermark := rec_offset (last rs) + 1\<rparr>) = (pw', wd', Ok u)"
    using roll seg(1,2) data(1) up up_ok meta by (auto simp: roll_segment_def Let_def)
  note c = roll_cleanup_ok [OF clean]
  have "?key = segment_key pw (rec_offset (hd rs))" by (simp add: segment_key_def)
  then show "\<exists>data info. write_segment lz4 crc32 CompLz4 rs = Ok data \<and> w_objects wd' (sm_s3_key info) = Some data
     \<and> w_segments wd' = w_segments wd @ [info] \<and> sm_base_offset info = rec_offset (hd rs)
     \<and> sm_end_offset info = rec_offset (last rs) \<and> sm_s3_key info = segment_key pw (rec_offset (hd rs))
     \<and> w_high_watermark wd' = rec_offset (last rs) + 1"
    using c(4-6) data(2) info obj by (intro exI [of _ data] exI [of _ ?info]) simp
  show "pw_buffered_records pw' = []" and "pw_holds lz4 [] pw'" and "wal_is_empty pw'"
    and "pw_current_offset pw' = pw_current_offset pw"
    using c by simp_all
qed

text \<open>A roll that fails has already given up the segment it took.\<close>

lemma roll_segment_failed:
  assumes "pw_holds lz4 rs pw" and "rs \<noteq> []"
    and "roll_segment lz4 crc32 env pw wd = (pw', wd', Err (S3UploadFailed m))"
  shows "pw_holds lz4 [] pw'" "w_segments wd' = w_segments wd" "pw_buffered_records pw' = pw_buffered_records pw"
    "pw_current_offset pw' = pw_current_offset pw"
proof -
  note seg = holds_segment [OF assms(1,2)]
  obtain data where data: "finish lz4 crc32 (pw_current_segment pw) = Ok data" using seg(4) by blast
  have clean: "roll_cleanup env pw1 wd1 \<noteq> (pw2, wd2, Err (S3UploadFailed m))" for pw1 wd1 pw2 wd2
    by (auto simp: roll_cleanup_def Let_def split: option.splits prod.splits)
  show "pw_holds lz4 [] pw'" "w_segments wd' = w_segments wd" "pw_buffered_records pw' = pw_buffered_records pw"
    "pw_current_offset pw' = pw_current_offset pw"
    using assms(3) seg(1,2) data clean
    by (auto simp: roll_segment_def Let_def split: prod.splits result.splits if_splits)
qed

section \<open>Sequences of appends\<close>

datatype PwOp =
    AppendOp wal_env u64 "bytes option" bytes u64
  | BatchOp wal_env u64 "(bytes option \<times> bytes \<times> u64) list"

fun pw_step :: "(bytes \<Rightarrow> bytes) \<Rightarrow> (bytes \<Rightarrow> u32) \<Rightarrow> PwOp \<Rightarrow> PartitionWriter \<Rightarrow> PartitionWriter" where
  "pw_step lz4 crc32 (AppendOp we now k v t) pw = fst (pw_append lz4 crc32 we now k v t pw)"
| "pw_step lz4 crc32 (BatchOp we now recs) pw = fst (pw_append_batch lz4 crc32 we now recs pw)"

fun op_size :: "PwOp \<Rightarrow> nat" where
  "op_size (AppendOp we now k v t) = 1"
| "op_size (BatchOp we now recs) = length recs"

definition pw_inv :: "(bytes \<Rightarrow> bytes) \<Rightarrow> PartitionWriter \<Rightarrow> bool" where
  "pw_inv lz4 pw = (pw_holds lz4 (pw_buffered_records pw) pw
     \<and> sorted_wrt (<) (map rec_offset (pw_buffered_records pw))
     \<and> list_all (\<lambda>r. rec_offset r < pw_current_offset pw) (pw_buffered_records pw))"

lemma number_records_offsets:
  "map rec_offset (number_records base recs) = map (\<lambda>i. base + of_nat i) [0..<length recs]"
proof (induction base recs rule: number_records.induct)
  case (2 base k v t rs)
  have "map (\<lambda>i. base + 1 + of_nat i) [0..<length rs] = map (\<lambda>i. base + of_nat i) [1..<Suc (length rs)]"
    by (simp add: map_Suc_upt [symmetric] add_ac del: upt_Suc)
  then show ?case using 2 by (simp add: upt_conv_Cons Record_new_def del: upt_Suc)
qed simp

lemma unat_add_small: "unat (base :: u64) + n < 2 ^ 64 \<Longrightarrow> unat (base + of_nat n) = unat base + n"
  by (simp add: unat_word_ariths unat_of_nat take_bit_eq_mod)

lemma offsets_increase:
  assumes "unat (base :: u64) + n < 2 ^ 64" and "i < j" and "j \<le> n"
  shows "base + of_nat i < base + of_nat j"
  using assms unat_add_small [of base i] unat_add_small [of base j] by (simp add: word_less_nat_alt)

text \<open>New records with consecutive offsets from the writer's next offset on keep the invariant.\<close>

lemma pw_inv_extend:
  assumes inv: "pw_inv lz4 pw" and room: "unat (pw_current_offset pw) + length new < 2 ^ 64"
    and offs: "map rec_offset new = map (\<lambda>i. pw_current_offset pw + of_nat i) [0..<length new]"
    and "pw_holds lz4 (pw_buffered_records pw @ new) pw'" and "pw_buffered_records pw' = pw_buffered_records pw @ new"
    and "pw_current_offset pw' = pw_current_offset pw + of_nat (length new)"
  shows "pw_inv lz4 pw'"
proof -
  let ?c = "pw_current_offset pw"
  have new: "rec_offset r \<ge> ?c \<and> rec_offset r < ?c + of_nat (length new)" if "r \<in> set new" for r
  proof -
    have "rec_offset r \<in> set (map rec_offset new)" using that by simp
    then obtain i where i: "i < length new" "rec_offset r = ?c + of_nat i" unfolding offs by auto
    then show ?thesis
      using offsets_increase [OF room, of i "length new"] offsets_increase [OF room, of 0 i] by (cases "i = 0") auto
  qed
  have "sorted_wrt (<) (map rec_offset new)"
    unfolding offs by (auto simp: sorted_wrt_iff_nth_less intro!: offsets_increase [OF room])
  moreover have "?c \<le> ?c + of_nat (length new)"
    using offsets_increase [OF room, of 0 "length new"] by (cases "length new = 0") auto
  ultimately show ?thesis
    using inv assms(4-6) new
    by (auto simp: pw_inv_def sorted_wrt_append list_all_iff dest: order.strict_trans2 order.strict_trans1)
qed

lemma pw_inv_skip:
  assumes "pw_inv lz4 pw" and "unat (pw_current_offset pw) + n < 2 ^ 64"
    and "pw_holds lz4 (pw_buffered_records pw) pw'" and "pw_buffered_records pw' = pw_buffered_records pw"
    and "pw_current_offset pw' = pw_current_offset pw + of_nat n"
  shows "pw_inv lz4 pw'"
proof -
  have "pw_current_offset pw \<le> pw_current_offset pw'"
    using offsets_increase [OF assms(2), of 0 n] assms(5) by (cases "n = 0") auto
  then show ?thesis
    using assms by (auto simp: pw_inv_def list_all_iff dest: order.strict_trans2)
qed

lemma pw_step_inv:
  assumes "pw_inv lz4 pw" and "unat (pw_current_offset pw) + op_size op < 2 ^ 64"
  shows "pw_inv lz4 (pw_step lz4 crc32 op pw)"
    and "pw_current_offset (pw_step lz4 crc32 op pw) = pw_current_offset pw + of_nat (op_size op)"
proof -
  have h: "pw_holds lz4 (pw_buffered_records pw) pw" using assms(1) by (simp add: pw_inv_def)
  have "pw_inv lz4 (pw_step lz4 crc32 op pw) \<and> pw_current_offset (pw_step lz4 crc32 op pw) = pw_current_offset pw + of_nat (op_size op)"
  proof (cases op)
    case (AppendOp we now k v t)
    obtain pw' res where e: "pw_append lz4 crc32 we now k v t pw = (pw', res)" by fastforce
    note o = pw_append_outcome [OF h e]
    let ?new = "[Record_new (pw_current_offset pw) t k v]"
    have "map rec_offset ?new = map (\<lambda>i. pw_current_offset pw + of_nat i) [0..<length ?new]"
      by (simp add: Record_new_def)
    then show ?thesis
      using AppendOp e o assms pw_inv_extend [OF assms(1), of ?new pw'] pw_inv_skip [OF assms(1), of 1 pw']
      by (auto simp: Let_def)
  next
    case (BatchOp we now recs)
    obtain pw' res where e: "pw_append_batch lz4 crc32 we now recs pw = (pw', res)" by fastforce
    note o = pw_append_batch_outcome [OF h e]
    let ?new = "number_records (pw_current_offset pw) recs"
    have len: "length ?new = length recs"
      using arg_cong [OF number_records_offsets [of "pw_current_offset pw" recs], of length] by simp
    then show ?thesis
      using BatchOp e o assms number_records_offsets [of "pw_current_offset pw" recs]
        pw_inv_extend [OF assms(1), of ?new pw'] pw_inv_skip [OF assms(1), of "length recs" pw']
      by (auto simp: Let_def)
  qed
  then show "pw_inv lz4 (pw_step lz4 crc32 op pw)"
    and "pw_current_offset (pw_step lz4 crc32 op pw) = pw_current_offset pw + of_nat (op_size op)" by auto
qed

lemma pw_run_inv:
  "pw_inv lz4 pw \<Longrightarrow> unat (pw_current_offset pw) + sum_list (map op_size ops) < 2 ^ 64
     \<Longrightarrow> pw_inv lz4 (fold (pw_step lz4 crc32) ops pw)"
proof (induction ops arbitrary: pw)
  case (Cons op ops)
  have s: "unat (pw_current_offset pw) + op_size op < 2 ^ 64" using Cons.prems(2) by simp
  note st = pw_step_inv [OF Cons.prems(1) s, of crc32]
  have "unat (pw_current_offset (pw_step lz4 crc32 op pw)) = unat (pw_current_offset pw) + op_size op"
    using st(2) unat_add_small [OF s] by simp
  then show ?case using Cons.IH [OF st(1)] Cons.prems(2) by simp
qed simp

lemma drop_takeWhile_sorted:
  "sorted_wrt (<) (map f xs) \<Longrightarrow> drop (length (takeWhile (\<lambda>x. f x < s) xs)) xs = filter (\<lambda>x. s \<le> f x) (xs :: 'a list)"
  for s :: "'b::linorder"
proof (induction xs)
  case (Cons x xs)
  show ?case
  proof (cases "f x < s")
    case False
    then have "filter (\<lambda>y. s \<le> f y) xs = xs" using Cons.prems by (intro filter_True) auto
    then show ?thesis using False by simp
  qed (use Cons in auto)
qed simp

section \<open>Concrete inputs\<close>

definition demo_config :: WriteConfig where
  "demo_config = WriteConfig_default\<lparr>cfg_multipart_threshold := 0, cfg_wal_config := None\<rparr>"

definition demo_writer :: PartitionWriter where
  "demo_writer = \<lparr>pw_org_id = ''o'', pw_topic = ''t'', pw_partition_id = 0,
     pw_current_segment = SegmentWriter_new CompLz4, pw_current_offset = 100, pw_segment_created_at = 0,
     pw_segment_size_estimate = 0, pw_s3_data_prefix = ''data'', pw_wal = None, pw_throttle = None,
     pw_stale_wal_files = [], pw_buffered_records = [], pw_config = demo_config\<rparr>"

definition demo_world :: world where
  "demo_world = \<lparr>w_objects = (\<lambda>_. None), w_segments = [], w_high_watermark = 100, w_removed_files = []\<rparr>"

definition demo_roll :: "string option \<Rightarrow> roll_env" where
  "demo_roll failure = \<lparr>ro_now = 5, ro_upload = \<lparr>ue_clock = (\<lambda>_. 0), ue_token = (\<lambda>_. True), ue_put = (\<lambda>_. PutOk),
     ue_multipart_start = failure, ue_multipart_part = (\<lambda>_. None), ue_multipart_complete = None\<rparr>,
     ro_metadata_ok = True, ro_flush = FlushOk, ro_truncate = TruncOk\<rparr>"

definition demo_wal_env :: wal_env where
  "demo_wal_env = \<lparr>we_split = 2, we_first = FlushOk, we_second = FlushOk\<rparr>"

definition id_codec :: "bytes \<Rightarrow> bytes" where "id_codec b = b"
definition no_crc :: "bytes \<Rightarrow> u32" where "no_crc b = 0"

definition demo_append :: "bytes \<Rightarrow> PartitionWriter \<Rightarrow> PartitionWriter" where
  "demo_append v pw = fst (pw_append id_codec no_crc demo_wal_env 7 None v 7 pw)"

definition bare :: "PartitionWriter \<Rightarrow> bool" where
  "bare pw = (pw_wal pw = None \<and> pw_throttle pw = None \<and> pw_config pw = demo_config)"

lemma demo_inv: "pw_inv lz4 demo_writer"
  by (simp add: pw_inv_def demo_writer_def)

lemma bare_append:
  assumes "bare pw" and "pw_holds id_codec rs pw"
  shows "pw_append id_codec no_crc demo_wal_env 7 None v 7 pw = (demo_append v pw, Ok (pw_current_offset pw))"
    and "bare (demo_append v pw)" and "pw_holds id_codec (rs @ [Record_new (pw_current_offset pw) 7 None v]) (demo_append v pw)"
    and "pw_current_offset (demo_append v pw) = pw_current_offset pw + 1"
proof -
  let ?r = "Record_new (pw_current_offset pw) 7 None v" and ?pw1 = "pw\<lparr>pw_current_offset := pw_current_offset pw + 1\<rparr>"
  have "append_all id_codec (SegmentWriter_new CompLz4) rs = Ok (pw_current_segment ?pw1)"
    using assms(2) by (simp add: pw_holds_def)
  then obtain seg where seg: "append_record id_codec (pw_current_segment ?pw1) ?r = Ok seg"
    "append_all id_codec (SegmentWriter_new CompLz4) (rs @ [?r]) = Ok seg" using append_record_holds by blast
  have log: "log_to_wal demo_wal_env cmds ?pw1 = (?pw1, True)" for cmds
    using assms(1) by (simp add: log_to_wal_def bare_def)
  have eq: "pw_append id_codec no_crc demo_wal_env 7 None v 7 pw =
      (?pw1\<lparr>pw_segment_size_estimate := pw_segment_size_estimate pw + estimated_size ?r,
            pw_buffered_records := pw_buffered_records pw @ [?r], pw_current_segment := seg\<rparr>, Ok (pw_current_offset pw))"
    using seg(1) by (simp add: pw_append_def log store_record_def Let_def)
  then show "pw_append id_codec no_crc demo_wal_env 7 None v 7 pw = (demo_append v pw, Ok (pw_current_offset pw))"
    by (simp add: demo_append_def)
  show "bare (demo_append v pw)" and "pw_holds id_codec (rs @ [?r]) (demo_append v pw)"
    and "pw_current_offset (demo_append v pw) = pw_current_offset pw + 1"
    using eq seg(2) assms(1) by (simp_all add: demo_append_def bare_def pw_holds_def)
qed

lemma demo_upload:
  "upload_to_s3 (ro_upload (demo_roll None)) demo_config key data None objs = (None, objs(key \<mapsto> data), Ok ())"
  "upload_to_s3 (ro_upload (demo_roll (Some []))) demo_config key data None objs =
     (None, objs, Err (S3UploadFailed ''Failed to start multipart: ''))"
proof -
  have c: "cfg_multipart_threshold demo_config = 0" "0 < cfg_multipart_part_size demo_config"
    by (simp_all add: demo_config_def WriteConfig_default_def)
  have f: "failing_part (ro_upload (demo_roll f)) n = None" "ue_multipart_start (ro_upload (demo_roll f)) = f"
    "ue_multipart_complete (ro_upload (demo_roll f)) = None" for f n
    by (simp_all add: failing_part_def demo_roll_def)
  show "upload_to_s3 (ro_upload (demo_roll None)) demo_config key data None objs = (None, objs(key \<mapsto> data), Ok ())"
    and "upload_to_s3 (ro_upload (demo_roll (Some []))) demo_config key data None objs =
     (None, objs, Err (S3UploadFailed ''Failed to start multipart: ''))"
    using c by (simp_all add: upload_to_s3_def upload_multipart_def acquire_if_def report_if_def f)
qed

lemma bare_roll:
  assumes "bare pw" and "pw_holds id_codec rs pw" and "rs \<noteq> []"
  shows "\<exists>pw' wd'. roll_segment id_codec no_crc (demo_roll None) pw wd = (pw', wd', Ok ())"
    and "\<exists>pw' wd'. roll_segment id_codec no_crc (demo_roll (Some [])) pw wd =
           (pw', wd', Err (S3UploadFailed ''Failed to start multipart: '')) \<and> bare pw' \<and> pw_holds id_codec [] pw'
           \<and> pw_current_offset pw' = pw_current_offset pw"
proof -
  note seg = holds_segment [OF assms(2,3)]
  obtain data where data: "finish id_codec no_crc (pw_current_segment pw) = Ok data" using seg(4) by blast
  have b: "pw_wal pw = None" "pw_throttle pw = None" "pw_config pw = demo_config" using assms(1) by (simp_all add: bare_def)
  have m: "ro_metadata_ok (demo_roll f)" for f by (simp add: demo_roll_def)
  show "\<exists>pw' wd'. roll_segment id_codec no_crc (demo_roll None) pw wd = (pw', wd', Ok ())"
    by (simp add: roll_segment_def seg(1,2) data b demo_upload m roll_cleanup_def Let_def)
  show "\<exists>pw' wd'. roll_segment id_codec no_crc (demo_roll (Some [])) pw wd =
           (pw', wd', Err (S3UploadFailed ''Failed to start multipart: '')) \<and> bare pw' \<and> pw_holds id_codec [] pw'
           \<and> pw_current_offset pw' = pw_current_offset pw"
    by (simp add: roll_segment_def seg(1,2) data b demo_upload m bare_def Let_def)
qed

lemma demo_writer_holds: "pw_holds lz4 [] demo_writer" "bare demo_writer" "pw_current_offset demo_writer = 100"
  by (simp_all add: demo_writer_def bare_def)

section \<open>Properties\<close>

lemma flush_durable_outcome:
  assumes "lz4_contract lz4 unlz4" and "pw_holds lz4 rs pw" and "rs \<noteq> []" and "length rs < 2 ^ 32"
    and "\<And>r. r \<in> set rs \<Longrightarrow> record_small r"
    and "flush_durable lz4 crc32 env pw wd = (pw', wd', Ok end_offset)"
  shows "end_offset = Some (rec_offset (last rs)) \<and> w_high_watermark wd' = rec_offset (last rs) + 1
     \<and> pw_buffered_records pw' = [] \<and> pw_holds lz4 [] pw' \<and> wal_is_empty pw'
     \<and> (\<exists>info data. w_segments wd' = w_segments wd @ [info] \<and> sm_base_offset info = rec_offset (hd rs)
          \<and> sm_end_offset info = rec_offset (last rs) \<and> w_objects wd' (sm_s3_key info) = Some data
          \<and> (length data < 2 ^ 64 \<longrightarrow> (\<exists>rd. SegmentReader_new crc32 data = Ok rd
               \<and> read_all unlz4 rd = Ok (map stored_record rs))))"
proof -
  note seg = holds_segment [OF assms(2,3)]
  have "sw_record_count (pw_current_segment pw) > 0" using seg(3) assms(3,4) by (simp add: word_gt_0)
  then obtain u where roll: "roll_segment lz4 crc32 env pw wd = (pw', wd', Ok u)"
    and e: "end_offset = Some (rec_offset (last rs))"
    using assms(6) seg(2) by (auto simp: flush_durable_def Let_def rbind_eq_Ok split: prod.splits)
  note r = roll_segment_ok [OF assms(2,3) roll]
  obtain data info where d: "write_segment lz4 crc32 CompLz4 rs = Ok data" "w_objects wd' (sm_s3_key info) = Some data"
    "w_segments wd' = w_segments wd @ [info]" "sm_base_offset info = rec_offset (hd rs)"
    "sm_end_offset info = rec_offset (last rs)" "w_high_watermark wd' = rec_offset (last rs) + 1"
    using r(1) by blast
  have "\<exists>rd. SegmentReader_new crc32 data = Ok rd \<and> read_all unlz4 rd = Ok (map stored_record rs)" if "length data < 2 ^ 64"
    using written_decodes [OF assms(1,3) _ assms(4,5) d(1)] that by auto
  then show ?thesis using d r(2-4) e by blast
qed

text \<open>
  C3. Durable acknowledgment: when \<^verbatim>\<open>flush_durable\<close> returns successfully, the records the writer held are
  in the object store under the key the metadata names, the metadata row spans exactly their offsets, the
  high watermark is the offset after the last one, the buffer and the WAL are empty, the next segment is
  fresh, and the stored bytes decode to exactly those records.
\<close>

theorem durable_flush_persists:
  assumes "lz4_contract lz4 unlz4" and "pw_holds lz4 rs pw" and "rs \<noteq> []" and "length rs < 2 ^ 32"
    and "\<And>r. r \<in> set rs \<Longrightarrow> record_small r"
    and "flush_durable lz4 crc32 env pw wd = (pw', wd', Ok end_offset)"
  shows "end_offset = Some (rec_offset (last rs)) \<and> w_high_watermark wd' = rec_offset (last rs) + 1
     \<and> pw_buffered_records pw' = [] \<and> pw_holds lz4 [] pw' \<and> wal_is_empty pw'
     \<and> (\<exists>info data. w_segments wd' = w_segments wd @ [info] \<and> sm_base_offset info = rec_offset (hd rs)
          \<and> sm_end_offset info = rec_offset (last rs) \<and> w_objects wd' (sm_s3_key info) = Some data
          \<and> (length data < 2 ^ 64 \<longrightarrow> (\<exists>rd. SegmentReader_new crc32 data = Ok rd
               \<and> read_all unlz4 rd = Ok (map stored_record rs))))"
  by (rule flush_durable_outcome [OF assms(1-4) _ assms(6)]) (rule assms(5))

theorem durable_flush_persists_witness:
  "w_high_watermark (fst (snd (flush_durable id_codec no_crc (demo_roll None) (demo_append [1] demo_writer) demo_world))) = 101"
proof -
  let ?pw = "demo_append [1] demo_writer"
  note a = bare_append [OF demo_writer_holds(2,1), of "[1]"]
  obtain pw' wd' where "roll_segment id_codec no_crc (demo_roll None) ?pw demo_world = (pw', wd', Ok ())"
    using bare_roll(1) [OF a(2,3), of demo_world] by auto
  moreover have "sw_record_count (pw_current_segment ?pw) > 0" using holds_segment(3) [OF a(3)] by simp
  ultimately obtain e where fl: "flush_durable id_codec no_crc (demo_roll None) ?pw demo_world = (pw', wd', Ok e)"
    by (simp add: flush_durable_def Let_def)
  have "w_high_watermark wd' = rec_offset (last ([] @ [Record_new (pw_current_offset demo_writer) 7 None [1]])) + 1"
    using durable_flush_persists [OF _ a(3) _ _ _ fl, of Ok]
    by (auto simp: lz4_contract_def id_codec_def record_small_def Record_new_def)
  then show ?thesis using fl by (simp add: Record_new_def demo_writer_holds)
qed



text \<open>
  A failed upload loses acknowledged records. The roll takes the current segment out of the writer before
  it uploads it; after the failure the writer continues with an empty segment, and the next successful
  flush registers only what was appended since, clears the buffer and truncates the WAL: the earlier
  records are then in no registered segment, no buffer and no log.
\<close>

theorem failed_upload_loses_records:
  assumes "pw_holds lz4 rs pw" and "rs \<noteq> []"
    and "roll_segment lz4 crc32 env pw wd = (pw1, wd1, Err (S3UploadFailed m))"
    and "pw_append lz4 crc32 we now k v t pw1 = (pw2, Ok off)"
    and "flush_durable lz4 crc32 env' pw2 wd1 = (pw3, wd3, Ok end_offset)"
  shows "pw_buffered_records pw3 = [] \<and> wal_is_empty pw3
     \<and> (\<exists>info. w_segments wd3 = w_segments wd @ [info] \<and> sm_base_offset info = pw_current_offset pw
          \<and> sm_end_offset info = pw_current_offset pw)"
proof -
  note f = roll_segment_failed [OF assms(1-3)]
  let ?r = "Record_new (pw_current_offset pw1) t k v"
  have h: "pw_holds lz4 [?r] pw2"
    using pw_append_outcome(2) [OF f(1) assms(4)] by (auto simp: Let_def)
  note seg = holds_segment [OF h, simplified]
  have "sw_record_count (pw_current_segment pw2) > 0" using seg(3) by simp
  then obtain u where roll: "roll_segment lz4 crc32 env' pw2 wd1 = (pw3, wd3, Ok u)"
    using assms(5) by (auto simp: flush_durable_def Let_def rbind_eq_Ok split: prod.splits)
  note r = roll_segment_ok [OF h _ roll, simplified]
  show ?thesis using r(1,2,4) f(2,4) by (auto simp: Record_new_def)
qed

theorem failed_upload_loses_records_witness:
  "\<exists>wd1 pw1 wd3 pw3 info. roll_segment id_codec no_crc (demo_roll (Some [])) (demo_append [1] demo_writer) demo_world
       = (pw1, wd1, Err (S3UploadFailed ''Failed to start multipart: ''))
     \<and> flush_durable id_codec no_crc (demo_roll None) (demo_append [2] pw1) wd1 = (pw3, wd3, Ok (Some 101))
     \<and> w_segments wd3 = [info] \<and> sm_base_offset info = 101"
proof -
  let ?pw = "demo_append [1] demo_writer"
  note a = bare_append [OF demo_writer_holds(2,1), of "[1]"]
  obtain pw1 wd1 where r1: "roll_segment id_codec no_crc (demo_roll (Some [])) ?pw demo_world =
      (pw1, wd1, Err (S3UploadFailed ''Failed to start multipart: ''))" "bare pw1" "pw_holds id_codec [] pw1"
      "pw_current_offset pw1 = 101"
    using bare_roll(2) [OF a(2,3), of demo_world] a(4) demo_writer_holds(3) by auto
  note b = bare_append [OF r1(2,3), of "[2]"]
  obtain pw3 wd3 where r2: "roll_segment id_codec no_crc (demo_roll None) (demo_append [2] pw1) wd1 = (pw3, wd3, Ok ())"
    using bare_roll(1) [OF b(2,3), of wd1] by auto
  have fl: "flush_durable id_codec no_crc (demo_roll None) (demo_append [2] pw1) wd1 = (pw3, wd3, Ok (Some 101))"
    using holds_segment(2,3) [OF b(3)] r1(4) r2 by (simp add: flush_durable_def Let_def Record_new_def)
  have "\<exists>info. w_segments wd3 = w_segments demo_world @ [info] \<and> sm_base_offset info = pw_current_offset ?pw"
    using failed_upload_loses_records [OF a(3) _ r1(1) b(1) fl] by auto
  then show ?thesis using r1(1) fl a(4) by (auto simp: demo_world_def demo_writer_holds(3))
qed

text \<open>
  An append the WAL acknowledged can be missing from the log: when the writer task handles the record
  and the flush request in two turns and the write fails in the first, the batch is gone, nobody was
  waiting for the error, and the flush request finds nothing to write and succeeds.
\<close>

theorem split_wal_request_hides_failure:
  assumes "pw_wal pw = Some (cfg, w)" and "\<not> wc_batch_enabled cfg" and "ww_batch w = []" and "ww_batch_count w = 0"
    and "ww_batch_max_records w = 1" and "we_split we = 1" and "we_first we = WriteFails 0"
  shows "\<exists>pw' w'. log_to_wal we (\<lambda>cfg. append_cmds crc32 cfg k v now 0) pw = (pw', True)
     \<and> pw_wal pw' = Some (cfg, w') \<and> ww_file w' = ww_file w \<and> ww_batch w' = []"
  using assms
  by (auto simp: log_to_wal_def append_cmds_def wal_request_def wal_turn_def process_cmd_def WalTurn_start_def
      should_flush_def do_flush_def wal_request_ok_def Let_def split: if_splits)

theorem split_wal_request_hides_failure_witness:
  "\<exists>pw' w'. log_to_wal \<lparr>we_split = 1, we_first = WriteFails 0, we_second = FlushOk\<rparr>
        (\<lambda>cfg. append_cmds no_crc cfg None [1] 7 0)
        (demo_writer\<lparr>pw_wal := Some (WALConfig_default, wal_open WALConfig_default [])\<rparr>) = (pw', True)
     \<and> pw_wal pw' = Some (WALConfig_default, w') \<and> ww_file w' = []"
  using split_wal_request_hides_failure [of "demo_writer\<lparr>pw_wal := Some (WALConfig_default, wal_open WALConfig_default [])\<rparr>"
      WALConfig_default "wal_open WALConfig_default []" "\<lparr>we_split = 1, we_first = WriteFails 0, we_second = FlushOk\<rparr>" no_crc None "[1]" 7]
  by (auto simp: wal_open_def WALConfig_default_def)

end
