(* ===== verification/Segment_Index.thy ===== *)
theory Segment_Index
  imports Storage_Types "HOL-Library.AList"
begin

text \<open>
  The offset index of a partition, \<^verbatim>\<open>streamhouse-storage/src/segment_index.rs\<close>: a \<^verbatim>\<open>BTreeMap\<close> from base offset to
  segment, refreshed from the metadata store on first use, after its time to live and after a miss. The
  map is the list of its entries by increasing key. The query of the metadata store is an argument: \<open>q1\<close> is
  what it answers to the refresh by age and \<open>q2\<close> to the refresh after a miss, since segments may be added
  in between. Its errors are passed on unchanged. Time is in milliseconds.
\<close>

section \<open>Ordered maps\<close>

fun btree_insert :: "u64 \<Rightarrow> 'v \<Rightarrow> (u64 \<times> 'v) list \<Rightarrow> (u64 \<times> 'v) list" where
  "btree_insert k v [] = [(k, v)]"
| "btree_insert k v ((k', v') # es) =
     (if k < k' then (k, v) # (k', v') # es
      else if k = k' then (k, v) # es
      else (k', v') # btree_insert k v es)"

text \<open>\<^verbatim>\<open>range(..=k).next_back()\<close>.\<close>

definition range_last :: "u64 \<Rightarrow> (u64 \<times> 'v) list \<Rightarrow> (u64 \<times> 'v) option" where
  "range_last k es = (case rev (filter (\<lambda>(k', _). k' \<le> k) es) of [] \<Rightarrow> None | e # _ \<Rightarrow> Some e)"

section \<open>The index\<close>

record SegmentIndexConfig =
  sic_refresh_interval :: nat
  sic_max_segments :: nat

definition SegmentIndexConfig_default :: SegmentIndexConfig where
  "SegmentIndexConfig_default = \<lparr>sic_refresh_interval = 30 * 1000, sic_max_segments = 10000\<rparr>"

record SegmentIndex =
  sx_org_id :: string
  sx_topic :: string
  sx_partition_id :: u32
  sx_config :: SegmentIndexConfig
  sx_index :: "(u64 \<times> SegmentMeta) list"
  sx_last_refresh :: "nat option"

definition SegmentIndex_new :: "string \<Rightarrow> string \<Rightarrow> u32 \<Rightarrow> SegmentIndexConfig \<Rightarrow> SegmentIndex" where
  "SegmentIndex_new org_id topic partition_id config =
     \<lparr>sx_org_id = org_id, sx_topic = topic, sx_partition_id = partition_id, sx_config = config, sx_index = [], sx_last_refresh = None\<rparr>"

definition lookup_in_index :: "u64 \<Rightarrow> SegmentIndex \<Rightarrow> SegmentMeta option" where
  "lookup_in_index offset si =
     (case range_last offset (sx_index si) of
        None \<Rightarrow> None
      | Some (_, segment) \<Rightarrow>
          if sm_base_offset segment \<le> offset \<and> offset \<le> sm_end_offset segment then Some segment else None)"

definition should_refresh :: "nat \<Rightarrow> SegmentIndex \<Rightarrow> bool" where
  "should_refresh now si =
     (case sx_last_refresh si of
        None \<Rightarrow> True
      | Some t \<Rightarrow> sic_refresh_interval (sx_config si) \<le> now - t)"

definition build_index :: "SegmentMeta list \<Rightarrow> (u64 \<times> SegmentMeta) list" where
  "build_index segments = fold (\<lambda>s. btree_insert (sm_base_offset s) s) segments []"

definition limit_index :: "nat \<Rightarrow> (u64 \<times> SegmentMeta) list \<Rightarrow> (u64 \<times> SegmentMeta) list" where
  "limit_index max_segments new_index =
     (if length new_index > max_segments
      then let excess = length new_index - max_segments;
               keys_to_remove = take excess (map fst new_index)
           in fold AList.delete keys_to_remove new_index
      else new_index)"

type_synonym 'e get_segments = "string \<Rightarrow> string \<Rightarrow> u32 \<Rightarrow> ('e, SegmentMeta list) result"

definition refresh :: "nat \<Rightarrow> 'e get_segments \<Rightarrow> SegmentIndex \<Rightarrow> SegmentIndex \<times> ('e, unit) result" where
  "refresh now get_segments si =
     (case get_segments (sx_org_id si) (sx_topic si) (sx_partition_id si) of
        Ok segments \<Rightarrow>
          (si\<lparr>sx_index := limit_index (sic_max_segments (sx_config si)) (build_index segments),
              sx_last_refresh := Some now\<rparr>, Ok ())
      | Err e \<Rightarrow> (si, Err e)
      | Panic \<Rightarrow> (si, Panic))"

definition find_segment_for_offset ::
  "nat \<Rightarrow> 'e get_segments \<Rightarrow> 'e get_segments \<Rightarrow> u64 \<Rightarrow> SegmentIndex
     \<Rightarrow> SegmentIndex \<times> ('e, SegmentMeta option) result" where
  "find_segment_for_offset now q1 q2 offset si =
     (let (si1, r1) = (if should_refresh now si then refresh now q1 si else (si, Ok ())) in
      case r1 of
        Ok _ \<Rightarrow>
          (case lookup_in_index offset si1 of
             Some segment \<Rightarrow> (si1, Ok (Some segment))
           | None \<Rightarrow>
               (let (si2, r2) = refresh now q2 si1
                in (si2, rbind r2 (\<lambda>_. Ok (lookup_in_index offset si2)))))
      | Err e \<Rightarrow> (si1, Err e)
      | Panic \<Rightarrow> (si1, Panic))"

definition segment_count :: "SegmentIndex \<Rightarrow> nat" where
  "segment_count si = length (sx_index si)"

definition force_refresh :: "nat \<Rightarrow> 'e get_segments \<Rightarrow> SegmentIndex \<Rightarrow> SegmentIndex \<times> ('e, unit) result" where
  "force_refresh now get_segments si = refresh now get_segments si"

section \<open>The ordered map\<close>

definition ordered :: "(u64 \<times> 'v) list \<Rightarrow> bool" where
  "ordered es = sorted_wrt (<) (map fst es)"

lemma btree_insert_keys: "set (map fst (btree_insert k v es)) = insert k (set (map fst es))"
  by (induction k v es rule: btree_insert.induct) auto

lemma ordered_insert: "ordered es \<Longrightarrow> ordered (btree_insert k v es)"
proof (induction k v es rule: btree_insert.induct)
  case (2 k v k' v' es)
  show ?case
  proof (cases "k < k' \<or> k = k'")
    case True
    then show ?thesis using "2.prems" by (auto simp: ordered_def)
  next
    case False
    then have "ordered (btree_insert k v es)" using 2 by (auto simp: ordered_def)
    moreover have "\<forall>x\<in>set (map fst (btree_insert k v es)). k' < x"
      unfolding btree_insert_keys using False "2.prems" by (auto simp: ordered_def)
    ultimately show ?thesis using False by (simp add: ordered_def)
  qed
qed (simp add: ordered_def)

lemma map_of_insert: "ordered es \<Longrightarrow> map_of (btree_insert k v es) = (map_of es)(k \<mapsto> v)"
  by (induction k v es rule: btree_insert.induct) (auto simp: ordered_def fun_eq_iff)

lemma ordered_distinct: "ordered es \<Longrightarrow> distinct (map fst es)"
  by (simp add: ordered_def strict_sorted_iff)

lemma fold_insert:
  assumes "ordered es"
  shows "ordered (fold (\<lambda>s. btree_insert (sm_base_offset s) s) segs es)
    \<and> map_of (fold (\<lambda>s. btree_insert (sm_base_offset s) s) segs es)
        = map_of es ++ map_of (rev (map (\<lambda>s. (sm_base_offset s, s)) segs))"
  using assms
proof (induction segs arbitrary: es)
  case (Cons s segs)
  then show ?case
    using Cons.IH [OF ordered_insert [OF Cons.prems]]
    by (simp add: map_of_insert map_add_def fun_eq_iff split: option.splits)
qed simp

lemma ordered_build: "ordered (build_index segs)"
  using fold_insert [of "[]" segs] by (simp add: build_index_def ordered_def)

lemma map_of_build: "map_of (build_index segs) = map_of (rev (map (\<lambda>s. (sm_base_offset s, s)) segs))"
  using fold_insert [of "[]" segs] by (simp add: build_index_def ordered_def)

lemma length_map_of:
  assumes "ordered es"
  shows "length es = card (dom (map_of es))"
proof -
  have "card (set (map fst es)) = length (map fst es)" by (rule distinct_card) (rule ordered_distinct [OF assms])
  then show ?thesis by (simp add: dom_map_of_conv_image_fst)
qed

lemma length_build: "length (build_index segs) \<le> length segs"
proof -
  have "length (build_index segs) = card (sm_base_offset ` set segs)"
    unfolding length_map_of [OF ordered_build] map_of_build by (simp add: dom_map_of_conv_image_fst image_image)
  also have "\<dots> \<le> length segs" by (metis card_image_le card_length finite_set le_trans)
  finally show ?thesis .
qed

lemma ordered_filter: "ordered es \<Longrightarrow> ordered (filter P es)"
  by (induction es) (auto simp: ordered_def)

lemma ordered_drop: "ordered es \<Longrightarrow> ordered (drop n es)"
  unfolding ordered_def drop_map [symmetric] by (rule sorted_wrt_drop)

lemma range_last_Some:
  assumes "ordered es"
  shows "range_last k es = Some (k', v) \<longleftrightarrow>
     (k', v) \<in> set es \<and> k' \<le> k \<and> (\<forall>(k'', _)\<in>set es. k'' \<le> k \<longrightarrow> k'' \<le> k')"
proof -
  let ?f = "filter (\<lambda>(k', _). k' \<le> k) es"
  have o: "sorted_wrt (<) (map fst ?f)" using ordered_filter [OF assms] unfolding ordered_def .
  show ?thesis
  proof (cases "?f = []")
    case True
    then show ?thesis by (auto simp: range_last_def filter_empty_conv)
  next
    case False
    then obtain pre e where f: "?f = pre @ [e]" by (metis append_butlast_last_id)
    have last: "fst x \<le> fst e" if "x \<in> set ?f" for x
      using o that unfolding f by (auto simp: sorted_wrt_append)
    have mem: "x \<in> set ?f \<longleftrightarrow> x \<in> set es \<and> fst x \<le> k" for x by auto
    have "e \<in> set ?f" using f by simp
    then have e: "e \<in> set es" "fst e \<le> k" using mem by auto
    have eq: "range_last k es = Some e" unfolding range_last_def f by simp
    have uniq: "x = e" if "x \<in> set es" "fst x = fst e" for x
      using ordered_distinct [OF assms] that e(1) by (metis eq_key_imp_eq_value prod.collapse)
    have greatest: "fst x \<le> fst e" if "x \<in> set es" "fst x \<le> k" for x using last mem that by blast
    show ?thesis
    proof
      assume "range_last k es = Some (k', v)"
      then have "e = (k', v)" using eq by simp
      then show "(k', v) \<in> set es \<and> k' \<le> k \<and> (\<forall>(k'', _)\<in>set es. k'' \<le> k \<longrightarrow> k'' \<le> k')"
        using e greatest by force
    next
      assume r: "(k', v) \<in> set es \<and> k' \<le> k \<and> (\<forall>(k'', _)\<in>set es. k'' \<le> k \<longrightarrow> k'' \<le> k')"
      then have "fst e \<le> k'" using e by (cases e) auto
      moreover have "k' \<le> fst e" using greatest [of "(k', v)"] r by simp
      ultimately show "range_last k es = Some (k', v)" using uniq [of "(k', v)"] r eq by (simp add: antisym)
    qed
  qed
qed

section \<open>Lookups in a fresh index\<close>

definition covers :: "SegmentMeta \<Rightarrow> u64 \<Rightarrow> bool" where
  "covers s off = (sm_base_offset s \<le> off \<and> off \<le> sm_end_offset s)"

definition disjoint_segments :: "SegmentMeta list \<Rightarrow> bool" where
  "disjoint_segments segs =
     (list_all (\<lambda>s. sm_base_offset s \<le> sm_end_offset s) segs \<and> distinct segs
      \<and> (\<forall>s\<in>set segs. \<forall>t\<in>set segs. s = t \<or> sm_end_offset s < sm_base_offset t \<or> sm_end_offset t < sm_base_offset s))"

lemma disjoint_base_inj:
  "disjoint_segments segs \<Longrightarrow> s \<in> set segs \<Longrightarrow> t \<in> set segs \<Longrightarrow> sm_base_offset s = sm_base_offset t \<Longrightarrow> s = t"
  unfolding disjoint_segments_def list_all_iff by (metis leD)

lemma set_build:
  assumes "disjoint_segments segs"
  shows "(k, s) \<in> set (build_index segs) \<longleftrightarrow> s \<in> set segs \<and> k = sm_base_offset s"
proof -
  let ?es = "rev (map (\<lambda>s. (sm_base_offset s, s)) segs)"
  have "inj_on sm_base_offset (set segs)" using disjoint_base_inj [OF assms] by (auto intro!: inj_onI)
  moreover have "distinct segs" using assms by (simp add: disjoint_segments_def)
  ultimately have "distinct (map fst ?es)" by (simp add: rev_map [symmetric] distinct_map comp_def)
  then have "map_of ?es k = Some s \<longleftrightarrow> (k, s) \<in> set ?es" by (rule map_of_eq_Some_iff)
  moreover have "(k, s) \<in> set (build_index segs) \<longleftrightarrow> map_of (build_index segs) k = Some s"
    using map_of_eq_Some_iff [OF ordered_distinct [OF ordered_build]] by blast
  ultimately show ?thesis unfolding map_of_build by auto
qed

lemma lookup_covers: "lookup_in_index off si = Some s \<Longrightarrow> covers s off"
  by (auto simp: lookup_in_index_def covers_def split: option.splits if_splits)

lemma delete_first_keys:
  assumes "distinct (map fst es)"
  shows "fold AList.delete (take n (map fst es)) es = drop n es"
  using assms
proof (induction es arbitrary: n)
  case (Cons e es)
  obtain k v where e: "e = (k, v)" by fastforce
  have "AList.delete k es = es" using Cons.prems e by (intro delete_id) (auto simp: dom_map_of_conv_image_fst)
  then show ?case using Cons e by (cases n) simp_all
qed simp

lemma limit_index_drop: "ordered es \<Longrightarrow> limit_index m es = drop (length es - m) es"
  by (simp add: limit_index_def delete_first_keys ordered_distinct)

lemma refresh_index:
  assumes "q (sx_org_id si) (sx_topic si) (sx_partition_id si) = Ok segs"
  shows "sx_index (fst (refresh now q si))
    = drop (length (build_index segs) - sic_max_segments (sx_config si)) (build_index segs)"
  using assms by (simp add: refresh_def limit_index_drop ordered_build)

text \<open>An index that holds some of a set of disjoint segments, by base offset, answers from what it holds.\<close>

definition index_of :: "SegmentMeta list \<Rightarrow> SegmentIndex \<Rightarrow> bool" where
  "index_of segs si = (ordered (sx_index si) \<and> (\<forall>(k, s)\<in>set (sx_index si). k = sm_base_offset s \<and> s \<in> set segs))"

lemma lookup_held:
  assumes d: "disjoint_segments segs" and i: "index_of segs si"
  shows "lookup_in_index off si = Some s \<longleftrightarrow> (sm_base_offset s, s) \<in> set (sx_index si) \<and> covers s off"
proof
  have o: "ordered (sx_index si)" using i by (simp add: index_of_def)
  assume l: "lookup_in_index off si = Some s"
  then obtain k where "range_last off (sx_index si) = Some (k, s)"
    by (auto simp: lookup_in_index_def split: option.splits if_splits)
  then have "(k, s) \<in> set (sx_index si)" using range_last_Some [OF o] by blast
  then show "(sm_base_offset s, s) \<in> set (sx_index si) \<and> covers s off"
    using i by (auto simp: lookup_covers [OF l] index_of_def)
next
  have o: "ordered (sx_index si)" using i by (simp add: index_of_def)
  assume s: "(sm_base_offset s, s) \<in> set (sx_index si) \<and> covers s off"
  have "sm_base_offset t \<le> sm_base_offset s" if t: "t \<in> set segs" "sm_base_offset t \<le> off" for t
  proof -
    have "s \<in> set segs" using s i by (auto simp: index_of_def)
    then consider "s = t" | "sm_end_offset s < sm_base_offset t" | "sm_end_offset t < sm_base_offset s"
      using d t by (auto simp: disjoint_segments_def)
    then show ?thesis
    proof cases
      case 2
      have "off < sm_base_offset t" using 2 s by (auto simp: covers_def)
      then show ?thesis using t(2) by simp
    next
      case 3
      have "sm_base_offset t \<le> sm_end_offset t" using d t by (auto simp: disjoint_segments_def list_all_iff)
      then show ?thesis using 3 by simp
    qed simp
  qed
  then have "range_last off (sx_index si) = Some (sm_base_offset s, s)"
    unfolding range_last_Some [OF o] using s i by (auto simp: covers_def index_of_def)
  then show "lookup_in_index off si = Some s" using s by (simp add: lookup_in_index_def covers_def)
qed

lemma refresh_index_of:
  assumes d: "disjoint_segments segs" and q: "q (sx_org_id si) (sx_topic si) (sx_partition_id si) = Ok segs"
  shows "index_of segs (fst (refresh now q si))"
  unfolding index_of_def refresh_index [where q = q, OF q]
  using ordered_drop [OF ordered_build] set_build [OF d] by (auto dest!: in_set_dropD)

lemma refresh_complete:
  assumes d: "disjoint_segments segs" and q: "q (sx_org_id si) (sx_topic si) (sx_partition_id si) = Ok segs"
    and "length segs \<le> sic_max_segments (sx_config si)" and "s \<in> set segs"
  shows "(sm_base_offset s, s) \<in> set (sx_index (fst (refresh now q si)))"
  using length_build [of segs] assms(3,4) by (simp add: refresh_index [where q = q, OF q] set_build [OF d])

lemma refresh_keeps:
  "sx_org_id (fst (refresh now q si)) = sx_org_id si" "sx_topic (fst (refresh now q si)) = sx_topic si"
  "sx_partition_id (fst (refresh now q si)) = sx_partition_id si" "sx_config (fst (refresh now q si)) = sx_config si"
  by (simp_all add: refresh_def split: result.splits)

lemma refresh_ok:
  "q (sx_org_id si) (sx_topic si) (sx_partition_id si) = Ok segs \<Longrightarrow> snd (refresh now q si) = Ok ()"
  by (simp add: refresh_def)

lemma find_covering:
  assumes d: "disjoint_segments segs"
  shows "List.find (\<lambda>s. covers s off) segs = Some s \<longleftrightarrow> s \<in> set segs \<and> covers s off"
proof -
  have uniq: "t = s" if "t \<in> set segs" "covers t off" "s \<in> set segs" "covers s off" for s t
  proof (rule ccontr)
    assume "t \<noteq> s"
    then have "sm_end_offset t < sm_base_offset s \<or> sm_end_offset s < sm_base_offset t"
      using d that(1,3) by (auto simp: disjoint_segments_def)
    then show False using that(2,4) by (auto simp: covers_def)
  qed
  show ?thesis
  proof (cases "List.find (\<lambda>s. covers s off) segs")
    case None
    then have "\<not> (s \<in> set segs \<and> covers s off)" by (simp add: find_None_iff)
    then show ?thesis unfolding None by simp
  next
    case (Some t)
    then have "t \<in> set segs" "covers t off" by (auto simp: find_Some_iff)
    then show ?thesis using uniq Some by auto
  qed
qed

lemma lookup_fresh:
  assumes d: "disjoint_segments segs" and q: "q (sx_org_id si) (sx_topic si) (sx_partition_id si) = Ok segs"
    and m: "length segs \<le> sic_max_segments (sx_config si)"
  shows "lookup_in_index off (fst (refresh now q si)) = List.find (\<lambda>s. covers s off) segs"
proof -
  let ?si = "fst (refresh now q si)"
  have i: "index_of segs ?si" by (rule refresh_index_of [where q = q, OF d q])
  have "(sm_base_offset s, s) \<in> set (sx_index ?si) \<longleftrightarrow> s \<in> set segs" for s
    using i refresh_complete [where q = q, OF d q m] by (auto simp: index_of_def)
  then have same: "lookup_in_index off ?si = Some s \<longleftrightarrow> List.find (\<lambda>s. covers s off) segs = Some s" for s
    unfolding lookup_held [OF d i] find_covering [OF d] by simp
  show ?thesis
  proof (cases "lookup_in_index off ?si")
    case None
    then show ?thesis using same by (cases "List.find (\<lambda>s. covers s off) segs") auto
  next
    case (Some s)
    then show ?thesis using same [of s] by simp
  qed
qed

lemma find_segment_steps:
  assumes q1: "qa (sx_org_id si) (sx_topic si) (sx_partition_id si) = Ok segs1"
    and q2: "qb (sx_org_id si) (sx_topic si) (sx_partition_id si) = Ok segs2"
  shows "find_segment_for_offset now qa qb off si =
    (let si1 = (if should_refresh now si then fst (refresh now qa si) else si) in
     case lookup_in_index off si1 of
       Some s \<Rightarrow> (si1, Ok (Some s))
     | None \<Rightarrow> (fst (refresh now qb si1), Ok (lookup_in_index off (fst (refresh now qb si1)))))"
proof -
  let ?si = "fst (refresh now qa si)"
  have "qb (sx_org_id ?si) (sx_topic ?si) (sx_partition_id ?si) = Ok segs2" using q2 by (simp add: refresh_keeps)
  then show ?thesis
    using refresh_ok [where q = qa, OF q1, of now] refresh_ok [where q = qb, OF q2, of now]
      refresh_ok [where q = qb and si = ?si, of segs2 now]
    by (simp add: find_segment_for_offset_def split_beta Let_def split: option.splits)
qed

lemma find_segment_keeps:
  "sx_org_id (fst (find_segment_for_offset now q1 q2 off si)) = sx_org_id si
   \<and> sx_topic (fst (find_segment_for_offset now q1 q2 off si)) = sx_topic si
   \<and> sx_partition_id (fst (find_segment_for_offset now q1 q2 off si)) = sx_partition_id si
   \<and> sx_config (fst (find_segment_for_offset now q1 q2 off si)) = sx_config si"
  by (simp add: find_segment_for_offset_def split_beta Let_def refresh_keeps split: result.splits option.splits)

lemma find_segment_exactly:
  assumes d: "disjoint_segments segs" and i: "index_of segs si"
    and q: "q1 (sx_org_id si) (sx_topic si) (sx_partition_id si) = Ok segs"
    and q2: "q2 (sx_org_id si) (sx_topic si) (sx_partition_id si) = Ok segs"
    and m: "length segs \<le> sic_max_segments (sx_config si)"
  shows "snd (find_segment_for_offset now q1 q2 off si) = Ok (List.find (\<lambda>s. covers s off) segs)
    \<and> index_of segs (fst (find_segment_for_offset now q1 q2 off si))"
proof -
  define si1 where "si1 = (if should_refresh now si then fst (refresh now q1 si) else si)"
  have q3: "q2 (sx_org_id si1) (sx_topic si1) (sx_partition_id si1) = Ok segs"
    and m1: "length segs \<le> sic_max_segments (sx_config si1)" using q2 m by (simp_all add: si1_def refresh_keeps)
  have i1: "index_of segs si1" using i refresh_index_of [where q = q1, OF d q] by (simp add: si1_def)
  note f = find_segment_steps [where qa = q1 and qb = q2, OF q q2, of now off, folded si1_def]
  show ?thesis
  proof (cases "lookup_in_index off si1")
    case None
    then show ?thesis
      using lookup_fresh [where q = q2, OF d q3 m1] refresh_index_of [where q = q2, OF d q3] by (simp add: f)
  next
    case (Some s)
    then have "s \<in> set segs \<and> covers s off" using lookup_held [OF d i1] i1 by (auto simp: index_of_def)
    then have "List.find (\<lambda>s. covers s off) segs = Some s" unfolding find_covering [OF d] .
    then show ?thesis using Some i1 by (simp add: f)
  qed
qed

lemma insert_greatest: "\<forall>k'\<in>set (map fst es). k' < k \<Longrightarrow> btree_insert k v es = es @ [(k, v)]"
  by (induction k v es rule: btree_insert.induct) auto

lemma build_sorted: "sorted_wrt (<) (map sm_base_offset segs) \<Longrightarrow> build_index segs = map (\<lambda>s. (sm_base_offset s, s)) segs"
proof (induction segs rule: rev_induct)
  case (snoc s segs)
  then have "build_index segs = map (\<lambda>s. (sm_base_offset s, s)) segs" by (simp add: sorted_wrt_append)
  moreover have "\<forall>k'\<in>set (map fst (map (\<lambda>s. (sm_base_offset s, s)) segs)). k' < sm_base_offset s"
    using snoc.prems by (auto simp: sorted_wrt_append)
  ultimately show ?case using insert_greatest [of "map (\<lambda>s. (sm_base_offset s, s)) segs" "sm_base_offset s" s]
    by (simp add: build_index_def)
qed (simp add: build_index_def)

lemma lookup_below:
  assumes "\<forall>(k, s)\<in>set (sx_index si). off < k"
  shows "lookup_in_index off si = None"
proof -
  have "filter (\<lambda>(k', _). k' \<le> off) (sx_index si) = []" using assms by (auto simp: filter_empty_conv)
  then show ?thesis by (simp add: lookup_in_index_def range_last_def)
qed

lemma sorted_drop_above:
  assumes "sorted_wrt (<) (map f xs)" and "n < length xs" and "x \<in> set (drop n xs)"
  shows "f (xs ! n) \<le> (f x :: 'a :: linorder)"
proof -
  obtain i where "x = xs ! (n + i)" "n + i < length xs" using assms(2,3) by (auto simp: in_set_conv_nth)
  then show ?thesis
    using assms(1) sorted_wrt_nth_less [of "(<)" "map f xs" n "n + i"] assms(2) by (cases i) (auto intro: less_imp_le)
qed

section \<open>Properties\<close>

text \<open>
  Offset lookup is exact, whether or not the index is stale. The segments of a partition are disjoint
  offset ranges and at most \<^verbatim>\<open>max_segments\<close> of them exist. If the index holds only segments that exist (it may be
  empty or miss any of them) then \<^verbatim>\<open>find_segment_for_offset\<close> returns the one segment that covers the offset, or none
  when no segment does; and afterwards the index again holds only segments that exist.
\<close>

theorem find_segment_exact:
  assumes "disjoint_segments segs" and "index_of segs si"
    and "q (sx_org_id si) (sx_topic si) (sx_partition_id si) = Ok segs"
    and "length segs \<le> sic_max_segments (sx_config si)"
  shows "snd (find_segment_for_offset now q q off si) = Ok (List.find (\<lambda>s. covers s off) segs)
    \<and> index_of segs (fst (find_segment_for_offset now q q off si))"
  using assms by (intro find_segment_exactly)

text \<open>
  The limit of the cache limits what can be read. \<^verbatim>\<open>max_segments\<close> is documented as the number of segments to cache, but a
  miss is answered from the cache after a refresh that applies the same limit: with more segments than
  that in the metadata store, every offset below the newest \<^verbatim>\<open>max_segments\<close> of them is answered by \<^verbatim>\<open>None\<close>, although a
  segment may cover it.
\<close>

theorem old_segments_unreachable:
  assumes q: "q (sx_org_id si) (sx_topic si) (sx_partition_id si) = Ok segs"
    and s: "sorted_wrt (<) (map sm_base_offset segs)"
    and m: "0 < sic_max_segments (sx_config si)" "sic_max_segments (sx_config si) < length segs"
    and "off < sm_base_offset (segs ! (length segs - sic_max_segments (sx_config si)))"
    and "should_refresh now si"
  shows "snd (find_segment_for_offset now q q off si) = Ok None"
proof -
  have below: "lookup_in_index off (fst (refresh now q si')) = None"
    if "q (sx_org_id si') (sx_topic si') (sx_partition_id si') = Ok segs" "sx_config si' = sx_config si" for si'
  proof (rule lookup_below)
    have "off < sm_base_offset t" if "t \<in> set (drop (length segs - sic_max_segments (sx_config si)) segs)" for t
      using sorted_drop_above [OF s _ that] m assms(5) by (simp add: less_le_trans)
    then show "\<forall>(k, s)\<in>set (sx_index (fst (refresh now q si'))). off < k"
      by (auto simp: refresh_index [where q = q, OF that(1)] build_sorted [OF s] drop_map that(2))
  qed
  show ?thesis
    using below [of si] below [of "fst (refresh now q si)"] assms(6) q
    by (simp add: find_segment_steps [where qa = q and qb = q, OF q q] refresh_keeps)
qed

definition demo_segment :: "u64 \<Rightarrow> u64 \<Rightarrow> SegmentMeta" where
  "demo_segment base end_offset =
     \<lparr>sm_id = ''seg'', sm_topic = ''orders'', sm_partition_id = 0, sm_base_offset = base, sm_end_offset = end_offset,
      sm_record_count = 100, sm_size_bytes = 4096, sm_s3_bucket = ''b'', sm_s3_key = ''k'', sm_created_at = 0,
      sm_min_timestamp = 0, sm_max_timestamp = 9\<rparr>"

definition demo_segments :: "SegmentMeta list" where
  "demo_segments = [demo_segment 0 99, demo_segment 100 199, demo_segment 200 299]"

lemma demo_segments_disjoint: "disjoint_segments demo_segments"
  by (simp add: disjoint_segments_def demo_segments_def demo_segment_def)

theorem find_segment_exact_witness:
  "snd (find_segment_for_offset 0 (\<lambda>_ _ _. Ok demo_segments :: (unit, SegmentMeta list) result)
     (\<lambda>_ _ _. Ok demo_segments) 150 (SegmentIndex_new ''org'' ''orders'' 0 SegmentIndexConfig_default))
   = Ok (Some (demo_segment 100 199))"
  using find_segment_exact [where q = "\<lambda>_ _ _. Ok demo_segments :: (unit, SegmentMeta list) result"
      and si = "SegmentIndex_new ''org'' ''orders'' 0 SegmentIndexConfig_default" and off = 150 and now = 0,
      OF demo_segments_disjoint]
  by (simp add: index_of_def ordered_def SegmentIndex_new_def SegmentIndexConfig_default_def demo_segments_def
      demo_segment_def covers_def)

theorem old_segments_unreachable_witness:
  "snd (find_segment_for_offset 0 (\<lambda>_ _ _. Ok demo_segments :: (unit, SegmentMeta list) result)
     (\<lambda>_ _ _. Ok demo_segments) 50
     (SegmentIndex_new ''org'' ''orders'' 0 \<lparr>sic_refresh_interval = 30000, sic_max_segments = 2\<rparr>)) = Ok None
   \<and> covers (demo_segments ! 0) 50"
  using old_segments_unreachable [where q = "\<lambda>_ _ _. Ok demo_segments :: (unit, SegmentMeta list) result"
      and si = "SegmentIndex_new ''org'' ''orders'' 0 \<lparr>sic_refresh_interval = 30000, sic_max_segments = 2\<rparr>"
      and off = 50 and now = 0 and segs = demo_segments]
  by (simp add: SegmentIndex_new_def should_refresh_def demo_segments_def demo_segment_def covers_def)

end
