(* ===== verification/Segment_Cache.thy ===== *)
theory Segment_Cache
  imports Storage_Types
begin

text \<open>
  The disk cache of segments, \<^verbatim>\<open>streamhouse-storage/src/cache.rs\<close>. The state carries the content of the
  cache directory beside the fields of \<^verbatim>\<open>SegmentCache\<close>. The \<^verbatim>\<open>lru\<close> package is a parameter, a record of the
  operations the cache calls; \<open>lru_contract\<close> states what its documentation promises. What the file system
  answers is an argument of each operation: whether a read fails, whether a removal fails, and what a failed
  write leaves in the file. Metrics and the floating-point ratios of the statistics are left out.
\<close>

section \<open>The interface of the LRU package\<close>

record 'l LruOps =
  lru_new :: "nat \<Rightarrow> 'l"
  lru_get :: "string \<Rightarrow> 'l \<Rightarrow> 'l"
  lru_put :: "string \<Rightarrow> u64 \<Rightarrow> 'l \<Rightarrow> 'l"
  lru_pop_lru :: "'l \<Rightarrow> ((string \<times> u64) \<times> 'l) option"
  lru_len :: "'l \<Rightarrow> nat"

section \<open>The cache\<close>

record 'l SegmentCache =
  sc_cache_dir :: string
  sc_max_size_bytes :: u64
  sc_current_size :: u64
  sc_lru :: 'l
  sc_hits :: u64
  sc_misses :: u64
  sc_evictions :: u64
  sc_disk :: "string \<rightharpoonup> bytes"

definition LRU_CAPACITY :: nat where "LRU_CAPACITY = 10000"

definition SegmentCache_new :: "'l LruOps \<Rightarrow> string \<Rightarrow> u64 \<Rightarrow> (string \<rightharpoonup> bytes) \<Rightarrow> 'l SegmentCache" where
  "SegmentCache_new lru cache_dir max_size_bytes disk =
     \<lparr>sc_cache_dir = cache_dir, sc_max_size_bytes = max_size_bytes, sc_current_size = 0,
      sc_lru = lru_new lru LRU_CAPACITY, sc_hits = 0, sc_misses = 0, sc_evictions = 0, sc_disk = disk\<rparr>"

text \<open>\<^verbatim>\<open>Path::join\<close>: an absolute argument replaces the directory.\<close>

definition path_join :: "string \<Rightarrow> string \<Rightarrow> string" where
  "path_join dir name =
     (if take 1 name = ''/'' then name
      else if dir = [] \<or> last dir = CHR ''/'' then dir @ name
      else dir @ ''/'' @ name)"

definition cache_path :: "'l SegmentCache \<Rightarrow> string \<Rightarrow> string" where
  "cache_path c cache_key = path_join (sc_cache_dir c) (cache_key @ ''.seg'')"

definition cache_get ::
  "'l LruOps \<Rightarrow> bool \<Rightarrow> string \<Rightarrow> 'l SegmentCache \<Rightarrow> 'l SegmentCache \<times> (storage_error, bytes option) result" where
  "cache_get lru read_fails cache_key c =
     (case sc_disk c (cache_path c cache_key) of
        None \<Rightarrow> (c\<lparr>sc_misses := sc_misses c + 1\<rparr>, Ok None)
      | Some data \<Rightarrow>
          if read_fails then (c, Err IoError)
          else (c\<lparr>sc_lru := lru_get lru cache_key (sc_lru c), sc_hits := sc_hits c + 1\<rparr>, Ok (Some data)))"

text \<open>One pass of the eviction loop, after \<^verbatim>\<open>pop_lru\<close> has returned an entry.\<close>

definition evict_entry :: "(string \<Rightarrow> bool) \<Rightarrow> string \<times> u64 \<Rightarrow> 'l \<Rightarrow> 'l SegmentCache \<Rightarrow> 'l SegmentCache" where
  "evict_entry remove_fails e l c =
     c\<lparr>sc_lru := l,
       sc_disk := (if remove_fails (fst e) then sc_disk c else (sc_disk c)(cache_path c (fst e) := None)),
       sc_current_size := saturating_sub (sc_current_size c) (snd e),
       sc_evictions := sc_evictions c + 1\<rparr>"

text \<open>
  The eviction loop. Each pass takes an entry out of the LRU list, so the number of entries bounds the
  passes; \<open>evict_loop_exit\<close> below shows that the loop ends by its own condition.
\<close>

fun evict_loop :: "'l LruOps \<Rightarrow> (string \<Rightarrow> bool) \<Rightarrow> u64 \<Rightarrow> nat \<Rightarrow> 'l SegmentCache \<Rightarrow> 'l SegmentCache" where
  "evict_loop lru remove_fails needed passes c =
     (if sc_current_size c + needed > sc_max_size_bytes c then
        (case lru_pop_lru lru (sc_lru c) of
           None \<Rightarrow> c
         | Some (e, l) \<Rightarrow>
             (case passes of
                0 \<Rightarrow> c
              | Suc n \<Rightarrow> evict_loop lru remove_fails needed n (evict_entry remove_fails e l c)))
      else c)"

declare evict_loop.simps [simp del]

definition evict_if_needed :: "'l LruOps \<Rightarrow> (string \<Rightarrow> bool) \<Rightarrow> u64 \<Rightarrow> 'l SegmentCache \<Rightarrow> 'l SegmentCache" where
  "evict_if_needed lru remove_fails needed c =
     evict_loop lru remove_fails needed (lru_len lru (sc_lru c)) c"

text \<open>What the file system does to a write: it succeeds, or fails and leaves some content or no file.\<close>

datatype write_outcome = Written | WriteFailed "bytes option"

record cache_faults =
  cf_read_fails :: bool
  cf_remove_fails :: "string \<Rightarrow> bool"
  cf_write :: write_outcome

definition cache_put ::
  "'l LruOps \<Rightarrow> cache_faults \<Rightarrow> string \<Rightarrow> bytes \<Rightarrow> 'l SegmentCache \<Rightarrow> 'l SegmentCache \<times> (storage_error, unit) result" where
  "cache_put lru faults cache_key data c =
     (let size = of_nat (length data);
          c1 = evict_if_needed lru (cf_remove_fails faults) size c;
          path = cache_path c1 cache_key
      in case cf_write faults of
           WriteFailed left \<Rightarrow> (c1\<lparr>sc_disk := (sc_disk c1)(path := left)\<rparr>, Err IoError)
         | Written \<Rightarrow>
             (c1\<lparr>sc_disk := (sc_disk c1)(path \<mapsto> data),
                 sc_current_size := sc_current_size c1 + size,
                 sc_lru := lru_put lru cache_key size (sc_lru c1)\<rparr>, Ok ()))"

record CacheStats =
  cs_current_size :: u64
  cs_max_size :: u64
  cs_entry_count :: nat
  cs_hits :: u64
  cs_misses :: u64
  cs_evictions :: u64

definition stats :: "'l LruOps \<Rightarrow> 'l SegmentCache \<Rightarrow> CacheStats" where
  "stats lru c =
     \<lparr>cs_current_size = sc_current_size c, cs_max_size = sc_max_size_bytes c, cs_entry_count = lru_len lru (sc_lru c),
      cs_hits = sc_hits c, cs_misses = sc_misses c, cs_evictions = sc_evictions c\<rparr>"

section \<open>What the LRU package promises\<close>

text \<open>
  \<open>entries\<close> reads the content of an LRU list, most recently used first. \<^verbatim>\<open>get\<close> moves an entry to the front, \<^verbatim>\<open>put\<close>
  adds or replaces one at the front and drops the last when the capacity is exceeded, \<^verbatim>\<open>pop_lru\<close> removes the last.
\<close>

definition promote :: "string \<Rightarrow> (string \<times> u64) list \<Rightarrow> (string \<times> u64) list" where
  "promote k es = (case map_of es k of None \<Rightarrow> es | Some v \<Rightarrow> (k, v) # filter (\<lambda>e. fst e \<noteq> k) es)"

definition lru_contract :: "'l LruOps \<Rightarrow> ('l \<Rightarrow> (string \<times> u64) list) \<Rightarrow> bool" where
  "lru_contract lru entries =
     (entries (lru_new lru LRU_CAPACITY) = []
      \<and> (\<forall>k l. entries (lru_get lru k l) = promote k (entries l))
      \<and> (\<forall>k v l. entries (lru_put lru k v l) = take LRU_CAPACITY ((k, v) # filter (\<lambda>e. fst e \<noteq> k) (entries l)))
      \<and> (\<forall>l. entries l = [] \<longrightarrow> lru_pop_lru lru l = None)
      \<and> (\<forall>l es e. entries l = es @ [e] \<longrightarrow> (\<exists>l'. lru_pop_lru lru l = Some (e, l') \<and> entries l' = es))
      \<and> (\<forall>l. lru_len lru l = length (entries l)))"

text \<open>A list is an LRU list in the sense of the contract.\<close>

definition list_lru :: "(string \<times> u64) list LruOps" where
  "list_lru =
     \<lparr>lru_new = (\<lambda>_. []), lru_get = promote,
      lru_put = (\<lambda>k v es. take LRU_CAPACITY ((k, v) # filter (\<lambda>e. fst e \<noteq> k) es)),
      lru_pop_lru = (\<lambda>es. if es = [] then None else Some (last es, butlast es)),
      lru_len = length\<rparr>"

lemma list_lru_contract: "lru_contract list_lru (\<lambda>es. es)"
  by (simp add: lru_contract_def list_lru_def)

section \<open>Eviction\<close>

lemma pop_cases:
  assumes "lru_contract lru entries"
  obtains (empty) "entries l = []" "lru_pop_lru lru l = None"
  | (entry) es e l' where "entries l = es @ [e]" "lru_pop_lru lru l = Some (e, l')" "entries l' = es"
proof (cases "entries l" rule: rev_cases)
  case Nil
  then show thesis using assms empty by (simp add: lru_contract_def)
next
  case (snoc es e)
  then have "\<exists>l'. lru_pop_lru lru l = Some (e, l') \<and> entries l' = es"
    using assms unfolding lru_contract_def by blast
  then show thesis using entry snoc by blast
qed

lemma evict_entry_fields [simp]:
  "sc_cache_dir (evict_entry rf e l c) = sc_cache_dir c" "sc_max_size_bytes (evict_entry rf e l c) = sc_max_size_bytes c"
  "sc_lru (evict_entry rf e l c) = l" "sc_current_size (evict_entry rf e l c) = saturating_sub (sc_current_size c) (snd e)"
  by (simp_all add: evict_entry_def)

lemma evict_loop_induct:
  assumes "lru_contract lru entries" and "P c"
    and "\<And>c es e l. P c \<Longrightarrow> entries (sc_lru c) = es @ [e] \<Longrightarrow> entries l = es \<Longrightarrow> P (evict_entry rf e l c)"
  shows "P (evict_loop lru rf needed passes c)"
  using assms(2)
proof (induction passes arbitrary: c)
  case 0
  then show ?case by (simp add: evict_loop.simps split: option.splits)
next
  case (Suc n)
  show ?case
  proof (cases rule: pop_cases [OF assms(1), of "sc_lru c"])
    case 1
    then show ?thesis using Suc.prems by (subst evict_loop.simps) simp
  next
    case (2 es e l')
    then show ?thesis using Suc.IH [OF assms(3) [OF Suc.prems 2(1,3)]] Suc.prems by (subst evict_loop.simps) simp
  qed
qed

text \<open>The loop stops because the new segment fits or because nothing is left to evict.\<close>

lemma evict_loop_exit:
  assumes "lru_contract lru entries" and "length (entries (sc_lru c)) \<le> passes"
  shows "sc_current_size (evict_loop lru rf needed passes c) + needed \<le> sc_max_size_bytes (evict_loop lru rf needed passes c)
    \<or> entries (sc_lru (evict_loop lru rf needed passes c)) = []"
  using assms(2)
proof (induction passes arbitrary: c)
  case 0
  then show ?case by (auto simp: evict_loop.simps split: option.splits)
next
  case (Suc n)
  show ?case
  proof (cases rule: pop_cases [OF assms(1), of "sc_lru c"])
    case 1
    then show ?thesis by (subst (1 2 3) evict_loop.simps) (simp add: not_less)
  next
    case (2 es e l')
    then have "length (entries (sc_lru (evict_entry rf e l' c))) \<le> n" using Suc.prems by simp
    from Suc.IH [OF this] show ?thesis using 2 by (subst (1 2 3) evict_loop.simps) (auto simp: not_less)
  qed
qed

lemma evict_exit:
  assumes "lru_contract lru entries"
  shows "sc_current_size (evict_if_needed lru rf needed c) + needed \<le> sc_max_size_bytes (evict_if_needed lru rf needed c)
    \<or> entries (sc_lru (evict_if_needed lru rf needed c)) = []"
  unfolding evict_if_needed_def using assms(1) by (intro evict_loop_exit) (auto simp: lru_contract_def)

lemma evict_loop_frame:
  "sc_cache_dir (evict_loop lru rf needed passes c) = sc_cache_dir c
   \<and> sc_max_size_bytes (evict_loop lru rf needed passes c) = sc_max_size_bytes c
   \<and> sc_disk (evict_loop lru rf needed passes c) p \<in> {sc_disk c p, None}"
proof (induction passes arbitrary: c)
  case 0
  then show ?case by (simp add: evict_loop.simps split: option.splits)
next
  case (Suc n)
  show ?case
  proof (cases "sc_current_size c + needed > sc_max_size_bytes c \<and> lru_pop_lru lru (sc_lru c) \<noteq> None")
    case True
    then obtain e l where "lru_pop_lru lru (sc_lru c) = Some (e, l)" by auto
    then have "evict_loop lru rf needed (Suc n) c = evict_loop lru rf needed n (evict_entry rf e l c)"
      using True by (subst evict_loop.simps) simp
    moreover have "sc_disk (evict_entry rf e l c) p \<in> {sc_disk c p, None}" by (simp add: evict_entry_def)
    ultimately show ?thesis using Suc.IH [of "evict_entry rf e l c"] by auto
  next
    case False
    then show ?thesis by (subst (1 2 3) evict_loop.simps) (auto split: option.splits)
  qed
qed

lemma evict_frame [simp]:
  "sc_cache_dir (evict_if_needed lru rf needed c) = sc_cache_dir c"
  "sc_max_size_bytes (evict_if_needed lru rf needed c) = sc_max_size_bytes c"
  by (simp_all add: evict_if_needed_def evict_loop_frame)

lemma evict_disk: "sc_disk (evict_if_needed lru rf needed c) p \<in> {sc_disk c p, None}"
  unfolding evict_if_needed_def using evict_loop_frame by blast

section \<open>Keys and paths\<close>

definition relative_key :: "string \<Rightarrow> bool" where
  "relative_key k = (take 1 k \<noteq> ''/'')"

lemma cache_path_inj:
  "relative_key k \<Longrightarrow> relative_key k' \<Longrightarrow> cache_path c k = cache_path c k' \<longleftrightarrow> k = k'"
  by (cases k; cases k') (auto simp: relative_key_def cache_path_def path_join_def)

lemma cache_path_cong: "sc_cache_dir c = sc_cache_dir c' \<Longrightarrow> cache_path c = cache_path c'"
  by (simp add: cache_path_def fun_eq_iff)

lemma cache_get_result:
  "snd (cache_get lru False k c) = Ok (sc_disk c (cache_path c k))"
  by (simp add: cache_get_def split: option.splits)

lemma cache_get_frame [simp]:
  "sc_cache_dir (fst (cache_get lru rf k c)) = sc_cache_dir c"
  "sc_max_size_bytes (fst (cache_get lru rf k c)) = sc_max_size_bytes c"
  "sc_disk (fst (cache_get lru rf k c)) = sc_disk c"
  "sc_current_size (fst (cache_get lru rf k c)) = sc_current_size c"
  by (simp_all add: cache_get_def split: option.splits)

lemma cache_put_frame [simp]:
  "sc_cache_dir (fst (cache_put lru f k d c)) = sc_cache_dir c"
  "sc_max_size_bytes (fst (cache_put lru f k d c)) = sc_max_size_bytes c"
  by (simp_all add: cache_put_def Let_def split: write_outcome.splits)

lemma cache_put_disk:
  "sc_disk (fst (cache_put lru f k d c)) (cache_path c k)
     = (case cf_write f of Written \<Rightarrow> Some d | WriteFailed left \<Rightarrow> left)"
  "p \<noteq> cache_path c k \<Longrightarrow> sc_disk (fst (cache_put lru f k d c)) p \<in> {sc_disk c p, None}"
proof -
  have "cache_path (evict_if_needed lru (cf_remove_fails f) n c) = cache_path c" for n by (rule cache_path_cong) simp
  then show "sc_disk (fst (cache_put lru f k d c)) (cache_path c k)
      = (case cf_write f of Written \<Rightarrow> Some d | WriteFailed left \<Rightarrow> left)"
    and "p \<noteq> cache_path c k \<Longrightarrow> sc_disk (fst (cache_put lru f k d c)) p \<in> {sc_disk c p, None}"
    using evict_disk [of lru "cf_remove_fails f" "of_nat (length d)" c p]
    by (auto simp: cache_put_def Let_def split: write_outcome.splits)
qed

lemma cache_put_result: "snd (cache_put lru f k d c) = (case cf_write f of Written \<Rightarrow> Ok () | WriteFailed _ \<Rightarrow> Err IoError)"
  by (simp add: cache_put_def Let_def split: write_outcome.splits)

section \<open>The accounting of the cache\<close>

text \<open>
  A fetch is how the partition reader uses the cache: look the key up and put the downloaded data on a
  miss. \<open>cache_ok\<close> says that the files of the directory are exactly the tracked entries, with their sizes, and that
  the size counter is their total, within the limit.
\<close>

definition no_faults :: cache_faults where
  "no_faults = \<lparr>cf_read_fails = False, cf_remove_fails = (\<lambda>_. False), cf_write = Written\<rparr>"

definition fetch_step :: "'l LruOps \<Rightarrow> string \<times> bytes \<Rightarrow> 'l SegmentCache \<Rightarrow> 'l SegmentCache" where
  "fetch_step lru kd c =
     (let (c1, r) = cache_get lru False (fst kd) c in
      if r = Ok None then fst (cache_put lru no_faults (fst kd) (snd kd) c1) else c1)"

definition tracked_ok :: "('l \<Rightarrow> (string \<times> u64) list) \<Rightarrow> 'l SegmentCache \<Rightarrow> bool" where
  "tracked_ok entries c =
     (let es = entries (sc_lru c) in
      distinct (map fst es) \<and> list_all relative_key (map fst es)
      \<and> (\<forall>p. sc_disk c p \<noteq> None \<longrightarrow> p \<in> cache_path c ` set (map fst es))
      \<and> list_all (\<lambda>(k, v). map_option length (sc_disk c (cache_path c k)) = Some (unat v)) es
      \<and> unat (sc_current_size c) = sum_list (map (unat \<circ> snd) es))"

definition cache_ok :: "('l \<Rightarrow> (string \<times> u64) list) \<Rightarrow> 'l SegmentCache \<Rightarrow> bool" where
  "cache_ok entries c = (tracked_ok entries c \<and> sc_current_size c \<le> sc_max_size_bytes c)"

lemma tracked_okD:
  assumes "tracked_ok entries c"
  shows "distinct (map fst (entries (sc_lru c)))"
    and "k \<in> fst ` set (entries (sc_lru c)) \<Longrightarrow> relative_key k"
    and "sc_disk c p \<noteq> None \<Longrightarrow> p \<in> cache_path c ` fst ` set (entries (sc_lru c))"
    and "(k, v) \<in> set (entries (sc_lru c)) \<Longrightarrow> map_option length (sc_disk c (cache_path c k)) = Some (unat v)"
    and "unat (sc_current_size c) = sum_list (map (unat \<circ> snd) (entries (sc_lru c)))"
  using assms unfolding tracked_ok_def Let_def list_all_iff set_map by (blast, blast, blast, blast, blast)

lemma tracked_okI:
  assumes "distinct (map fst (entries (sc_lru c)))"
    and "\<And>k. k \<in> fst ` set (entries (sc_lru c)) \<Longrightarrow> relative_key k"
    and "\<And>p. sc_disk c p \<noteq> None \<Longrightarrow> p \<in> cache_path c ` fst ` set (entries (sc_lru c))"
    and "\<And>k v. (k, v) \<in> set (entries (sc_lru c)) \<Longrightarrow> map_option length (sc_disk c (cache_path c k)) = Some (unat v)"
    and "unat (sc_current_size c) = sum_list (map (unat \<circ> snd) (entries (sc_lru c)))"
  shows "tracked_ok entries c"
  using assms unfolding tracked_ok_def Let_def list_all_iff set_map by blast

lemma tracked_path_inj:
  "tracked_ok entries c \<Longrightarrow> k \<in> fst ` set (entries (sc_lru c)) \<Longrightarrow> relative_key k'
    \<Longrightarrow> cache_path c k = cache_path c k' \<longleftrightarrow> k = k'"
  by (rule cache_path_inj [OF tracked_okD(2)])

lemma evict_entry_tracked:
  assumes t: "tracked_ok entries c" and e: "entries (sc_lru c) = es @ [e]" and l: "entries l = es"
  shows "tracked_ok entries (evict_entry (\<lambda>_. False) e l c)"
proof (rule tracked_okI)
  let ?c = "evict_entry (\<lambda>_. False) e l c"
  have p: "cache_path ?c = cache_path c" by (rule cache_path_cong) simp
  have d: "sc_disk ?c = (sc_disk c)(cache_path c (fst e) := None)" by (simp add: evict_entry_def)
  have all: "set (entries (sc_lru c)) = insert e (set es)" by (simp add: e)
  show "distinct (map fst (entries (sc_lru ?c)))" using tracked_okD(1) [OF t] by (simp add: e l)
  show "relative_key k" if "k \<in> fst ` set (entries (sc_lru ?c))" for k
    using that tracked_okD(2) [OF t, of k] by (simp add: all l)
  show "q \<in> cache_path ?c ` fst ` set (entries (sc_lru ?c))" if "sc_disk ?c q \<noteq> None" for q
    using that tracked_okD(3) [OF t, of q] unfolding p d by (simp add: all l split: if_splits)
  show "map_option length (sc_disk ?c (cache_path ?c k)) = Some (unat v)" if "(k, v) \<in> set (entries (sc_lru ?c))" for k v
  proof -
    have kv: "(k, v) \<in> set es" using that by (simp add: l)
    then have "k \<in> fst ` set es" by force
    moreover have "fst e \<notin> fst ` set es" using tracked_okD(1) [OF t] by (simp add: e)
    ultimately have "k \<noteq> fst e" by metis
    moreover have "relative_key (fst e)" using tracked_okD(2) [OF t, of "fst e"] by (simp add: all)
    moreover have "k \<in> fst ` set (entries (sc_lru c))" using kv unfolding all by force
    ultimately have "cache_path c k \<noteq> cache_path c (fst e)"
      using tracked_path_inj [OF t, of k "fst e"] by blast
    then show ?thesis unfolding p d using tracked_okD(4) [OF t, of k v] kv by (simp add: all)
  qed
  show "unat (sc_current_size ?c) = sum_list (map (unat \<circ> snd) (entries (sc_lru ?c)))"
    using tracked_okD(5) [OF t] by (simp add: e l unat_saturating_sub)
qed

lemma evict_tracked:
  "lru_contract lru entries \<Longrightarrow> tracked_ok entries c \<Longrightarrow> tracked_ok entries (evict_if_needed lru (\<lambda>_. False) needed c)"
  unfolding evict_if_needed_def by (rule evict_loop_induct [where P = "tracked_ok entries"]) (auto intro: evict_entry_tracked)

lemma evict_shrinks:
  fixes c :: "'l SegmentCache"
  assumes "lru_contract lru entries"
  shows "length (entries (sc_lru (evict_if_needed lru rf needed c))) \<le> length (entries (sc_lru c))
    \<and> sc_current_size (evict_if_needed lru rf needed c) \<le> sc_current_size c"
  unfolding evict_if_needed_def
proof (rule evict_loop_induct [OF assms])
  fix c' :: "'l SegmentCache" and es e l
  assume "length (entries (sc_lru c')) \<le> length (entries (sc_lru c)) \<and> sc_current_size c' \<le> sc_current_size c"
    and "entries (sc_lru c') = es @ [e]" and "entries l = es"
  then show "length (entries (sc_lru (evict_entry rf e l c'))) \<le> length (entries (sc_lru c))
      \<and> sc_current_size (evict_entry rf e l c') \<le> sc_current_size c"
    by (auto simp: word_le_nat_alt unat_saturating_sub)
qed simp

lemma untracked:
  "tracked_ok entries c \<Longrightarrow> sc_disk c (cache_path c k) = None \<Longrightarrow> k \<notin> fst ` set (entries (sc_lru c))"
  using tracked_okD(4) by fastforce

lemma lru_put_entries:
  assumes "lru_contract lru entries" and "k \<notin> fst ` set (entries l)" and "length (entries l) < LRU_CAPACITY"
  shows "entries (lru_put lru k v l) = (k, v) # entries l"
proof -
  have "filter (\<lambda>e. fst e \<noteq> k) (entries l) = entries l" using assms(2) by (auto simp: filter_id_conv)
  then show ?thesis using assms(1,3) by (simp add: lru_contract_def)
qed

lemma put_tracked:
  assumes ct: "lru_contract lru entries" and t: "tracked_ok entries c" and k: "relative_key k" "k \<notin> fst ` set (entries (sc_lru c))"
    and cap: "length (entries (sc_lru c)) < LRU_CAPACITY" and fit: "unat (sc_current_size c) + length d < 2 ^ 64"
  shows "tracked_ok entries
    (c\<lparr>sc_disk := (sc_disk c)(cache_path c k \<mapsto> d), sc_current_size := sc_current_size c + of_nat (length d),
       sc_lru := lru_put lru k (of_nat (length d)) (sc_lru c)\<rparr>)" (is "tracked_ok entries ?c")
proof (rule tracked_okI)
  have n: "unat (of_nat (length d) :: u64) = length d" using fit by (simp add: unat_of_nat take_bit_nat_eq_self)
  have es: "entries (sc_lru ?c) = (k, of_nat (length d)) # entries (sc_lru c)"
    using lru_put_entries [OF ct k(2) cap] by simp
  have p: "cache_path ?c = cache_path c" by (rule cache_path_cong) simp
  show "distinct (map fst (entries (sc_lru ?c)))" unfolding es using tracked_okD(1) [OF t] k(2) by simp
  show "relative_key k'" if "k' \<in> fst ` set (entries (sc_lru ?c))" for k'
    using that tracked_okD(2) [OF t, of k'] k(1) unfolding es by auto
  show "q \<in> cache_path ?c ` fst ` set (entries (sc_lru ?c))" if "sc_disk ?c q \<noteq> None" for q
    using that tracked_okD(3) [OF t, of q] unfolding es p by (cases "q = cache_path c k") simp_all
  show "map_option length (sc_disk ?c (cache_path ?c k')) = Some (unat v)" if "(k', v) \<in> set (entries (sc_lru ?c))" for k' v
  proof (cases "k' = k")
    case True
    then have "v = of_nat (length d)" using that k(2) unfolding es by force
    then show ?thesis using True n unfolding p by simp
  next
    case False
    then have kv: "(k', v) \<in> set (entries (sc_lru c))" using that unfolding es by simp
    then have "cache_path c k' \<noteq> cache_path c k" using tracked_path_inj [OF t _ k(1), of k'] False by force
    then show ?thesis using tracked_okD(4) [OF t kv] unfolding p by simp
  qed
  have "unat (sc_current_size c + of_nat (length d)) = unat (sc_current_size c) + length d"
    using fit n by (simp add: unat_word_ariths)
  then show "unat (sc_current_size ?c) = sum_list (map (unat \<circ> snd) (entries (sc_lru ?c)))"
    using tracked_okD(5) [OF t] n unfolding es by simp
qed

lemma put_ok:
  assumes ct: "lru_contract lru entries" and ok: "cache_ok entries c" and k: "relative_key k"
    and miss: "sc_disk c (cache_path c k) = None" and cap: "length (entries (sc_lru c)) < LRU_CAPACITY"
    and m: "unat (sc_max_size_bytes c) < 2 ^ 63" and d: "length d \<le> unat (sc_max_size_bytes c)"
  shows "cache_ok entries (fst (cache_put lru no_faults k d c))
    \<and> length (entries (sc_lru (fst (cache_put lru no_faults k d c)))) \<le> Suc (length (entries (sc_lru c)))"
proof -
  let ?n = "of_nat (length d) :: u64"
  define c1 where "c1 = evict_if_needed lru (\<lambda>_. False) ?n c"
  have t1: "tracked_ok entries c1" using ct ok by (simp add: c1_def cache_ok_def evict_tracked)
  have p1: "cache_path c1 = cache_path c" unfolding c1_def by (rule cache_path_cong) simp
  have "sc_disk c1 (cache_path c k) = None"
    using evict_disk [of lru "\<lambda>_. False" ?n c "cache_path c k"] miss by (simp add: c1_def)
  then have k1: "k \<notin> fst ` set (entries (sc_lru c1))" using untracked [OF t1, of k] by (simp add: p1)
  have len: "length (entries (sc_lru c1)) \<le> length (entries (sc_lru c))" and le: "sc_current_size c1 \<le> sc_current_size c"
    using evict_shrinks [OF ct] by (simp_all add: c1_def)
  have n: "unat ?n = length d" using d m by (simp add: unat_of_nat take_bit_nat_eq_self)
  have "unat (sc_current_size c1) \<le> unat (sc_max_size_bytes c)"
    using le ok by (auto simp: cache_ok_def word_le_nat_alt)
  then have fit: "unat (sc_current_size c1) + length d < 2 ^ 64" using d m by simp
  then have add: "unat (sc_current_size c1 + ?n) = unat (sc_current_size c1) + length d" using n by (simp add: unat_word_ariths)
  have "sc_current_size c1 + ?n \<le> sc_max_size_bytes c"
  proof (cases "entries (sc_lru c1) = []")
    case True
    then have "unat (sc_current_size c1) = 0" using tracked_okD(5) [OF t1] by simp
    then show ?thesis using add d by (simp add: word_le_nat_alt)
  next
    case False
    then show ?thesis using evict_exit [OF ct, where c = c and rf = "\<lambda>_. False" and needed = ?n] by (simp add: c1_def)
  qed
  moreover have put: "fst (cache_put lru no_faults k d c) =
      c1\<lparr>sc_disk := (sc_disk c1)(cache_path c1 k \<mapsto> d), sc_current_size := sc_current_size c1 + ?n,
         sc_lru := lru_put lru k ?n (sc_lru c1)\<rparr>"
    by (simp add: cache_put_def no_faults_def Let_def c1_def)
  moreover have "sc_max_size_bytes c1 = sc_max_size_bytes c" by (simp add: c1_def)
  ultimately show ?thesis
    using put_tracked [OF ct t1 k k1 _ fit] lru_put_entries [OF ct k1, of ?n] len cap by (simp add: cache_ok_def)
qed

lemma promote_set: "distinct (map fst es) \<Longrightarrow> set (promote k es) = set es \<and> distinct (map fst (promote k es))
    \<and> length (promote k es) = length es \<and> sum_list (map (unat \<circ> snd) (promote k es)) = sum_list (map (unat \<circ> snd) es)"
proof (induction es)
  case (Cons e es)
  show ?case
  proof (cases "fst e = k")
    case True
    then have "k \<notin> fst ` set es" using Cons.prems by simp
    then have "filter (\<lambda>e. fst e \<noteq> k) es = es" by (auto simp: filter_id_conv)
    then show ?thesis using True Cons.prems by (cases e) (simp add: promote_def)
  next
    case False
    show ?thesis
    proof (cases "map_of es k")
      case None
      then have "promote k (e # es) = e # es" using False by (cases e) (simp add: promote_def)
      then show ?thesis using Cons.prems by simp
    next
      case (Some v)
      then have "promote k (e # es) = (k, v) # e # filter (\<lambda>e. fst e \<noteq> k) es"
        using False by (cases e) (simp add: promote_def)
      moreover have "promote k es = (k, v) # filter (\<lambda>e. fst e \<noteq> k) es" using Some by (simp add: promote_def)
      moreover have "fst e \<notin> fst ` set (filter (\<lambda>e. fst e \<noteq> k) es)" using Cons.prems by (simp add: image_iff)
      ultimately show ?thesis using Cons False by (simp add: insert_commute)
    qed
  qed
qed (simp add: promote_def)

lemma get_ok:
  assumes ct: "lru_contract lru entries" and t: "tracked_ok entries c"
  shows "tracked_ok entries (fst (cache_get lru rf k c))
    \<and> length (entries (sc_lru (fst (cache_get lru rf k c)))) = length (entries (sc_lru c))"
proof -
  let ?c = "fst (cache_get lru rf k c)"
  have "entries (sc_lru ?c) \<in> {entries (sc_lru c), promote k (entries (sc_lru c))}"
    using ct by (auto simp: cache_get_def lru_contract_def split: option.splits)
  then have same: "set (entries (sc_lru ?c)) = set (entries (sc_lru c)) \<and> distinct (map fst (entries (sc_lru ?c)))
      \<and> length (entries (sc_lru ?c)) = length (entries (sc_lru c))
      \<and> sum_list (map (unat \<circ> snd) (entries (sc_lru ?c))) = sum_list (map (unat \<circ> snd) (entries (sc_lru c)))"
    using promote_set [OF tracked_okD(1) [OF t], of k] tracked_okD(1) [OF t] by (elim insertE) simp_all
  have "cache_path ?c = cache_path c" by (rule cache_path_cong) simp
  then have "tracked_ok entries ?c"
    using same tracked_okD [OF t] by (intro tracked_okI) simp_all
  then show ?thesis using same by simp
qed

lemma fetch_ok:
  assumes ct: "lru_contract lru entries" and ok: "cache_ok entries c" and "relative_key (fst kd)"
    and "length (entries (sc_lru c)) < LRU_CAPACITY" and "unat (sc_max_size_bytes c) < 2 ^ 63"
    and "length (snd kd) \<le> unat (sc_max_size_bytes c)"
  shows "cache_ok entries (fetch_step lru kd c) \<and> sc_max_size_bytes (fetch_step lru kd c) = sc_max_size_bytes c
    \<and> length (entries (sc_lru (fetch_step lru kd c))) \<le> Suc (length (entries (sc_lru c)))"
proof -
  let ?c = "fst (cache_get lru False (fst kd) c)"
  have t: "tracked_ok entries c" using ok by (simp add: cache_ok_def)
  have g: "cache_ok entries ?c" "length (entries (sc_lru ?c)) = length (entries (sc_lru c))"
    using get_ok [OF ct t, of False "fst kd"] ok by (simp_all add: cache_ok_def)
  have p: "cache_path ?c = cache_path c" by (rule cache_path_cong) simp
  show ?thesis
  proof (cases "sc_disk c (cache_path c (fst kd))")
    case None
    then have "sc_disk ?c (cache_path ?c (fst kd)) = None" by (simp add: p)
    then show ?thesis
      using put_ok [OF ct g(1) assms(3)] None g(2) assms(4-6)
      by (simp add: fetch_step_def split_beta cache_get_result)
  next
    case Some
    then show ?thesis using g by (simp add: fetch_step_def split_beta cache_get_result)
  qed
qed

lemma fetches_ok:
  assumes "lru_contract lru entries" and "cache_ok entries c" and "unat (sc_max_size_bytes c) < 2 ^ 63"
    and "length (entries (sc_lru c)) + length fs \<le> LRU_CAPACITY"
    and "\<forall>(k, d)\<in>set fs. relative_key k \<and> length d \<le> unat (sc_max_size_bytes c)"
  shows "cache_ok entries (fold (fetch_step lru) fs c)"
  using assms(2-)
proof (induction fs arbitrary: c)
  case (Cons kd fs)
  have "cache_ok entries (fetch_step lru kd c) \<and> sc_max_size_bytes (fetch_step lru kd c) = sc_max_size_bytes c
      \<and> length (entries (sc_lru (fetch_step lru kd c))) \<le> Suc (length (entries (sc_lru c)))"
    using Cons.prems by (intro fetch_ok [OF assms(1)]) auto
  then show ?case using Cons.IH [of "fetch_step lru kd c"] Cons.prems by simp
qed simp

section \<open>Files the LRU list does not track\<close>

definition stuck :: "('l \<Rightarrow> (string \<times> u64) list) \<Rightarrow> string \<Rightarrow> bytes \<Rightarrow> 'l SegmentCache \<Rightarrow> bool" where
  "stuck entries k part c =
     (sc_disk c (cache_path c k) = Some part \<and> k \<notin> fst ` set (entries (sc_lru c))
      \<and> (\<forall>k'\<in>fst ` set (entries (sc_lru c)). relative_key k'))"

lemma evict_entry_stuck:
  assumes k: "relative_key k" and s: "stuck entries k part c" and e: "entries (sc_lru c) = es @ [e]" and l: "entries l = es"
  shows "stuck entries k part (evict_entry rf e l c)"
proof -
  have p: "cache_path (evict_entry rf e l c) = cache_path c" by (rule cache_path_cong) simp
  have "relative_key (fst e)" "fst e \<noteq> k" using s by (auto simp: stuck_def e)
  then have "cache_path c (fst e) \<noteq> cache_path c k" using k by (simp add: cache_path_inj)
  then have "sc_disk (evict_entry rf e l c) (cache_path c k) = Some part" using s by (simp add: evict_entry_def stuck_def)
  then show ?thesis using s by (simp add: stuck_def p e l)
qed

lemma evict_keys:
  assumes "lru_contract lru entries"
  shows "set (entries (sc_lru (evict_if_needed lru rf needed c))) \<subseteq> set (entries (sc_lru c))"
  unfolding evict_if_needed_def by (rule evict_loop_induct [OF assms]) auto

lemma evict_stuck:
  "lru_contract lru entries \<Longrightarrow> relative_key k \<Longrightarrow> stuck entries k part c \<Longrightarrow> stuck entries k part (evict_if_needed lru rf needed c)"
  unfolding evict_if_needed_def
  by (rule evict_loop_induct [where P = "stuck entries k part"]) (auto intro: evict_entry_stuck)

lemma get_stuck:
  assumes "lru_contract lru entries" and "stuck entries k part c"
  shows "stuck entries k part (fst (cache_get lru rf k' c))"
proof -
  let ?c = "fst (cache_get lru rf k' c)"
  have "cache_path ?c = cache_path c" by (rule cache_path_cong) simp
  moreover have "entries (sc_lru ?c) \<in> {entries (sc_lru c), promote k' (entries (sc_lru c))}"
    using assms(1) by (auto simp: cache_get_def lru_contract_def split: option.splits)
  moreover have "fst ` set (promote k' es) \<subseteq> fst ` set es" for es
    using map_of_SomeD [of es k'] by (force simp: promote_def split: option.splits)
  ultimately have "fst ` set (entries (sc_lru ?c)) \<subseteq> fst ` set (entries (sc_lru c))" by (elim insertE) simp_all
  then have "k \<notin> fst ` set (entries (sc_lru ?c))" "\<forall>k'\<in>fst ` set (entries (sc_lru ?c)). relative_key k'"
    using assms(2) unfolding stuck_def by blast+
  then show ?thesis using assms(2) \<open>cache_path ?c = cache_path c\<close> by (simp add: stuck_def)
qed

lemma put_stuck:
  assumes ct: "lru_contract lru entries" and k: "relative_key k" "relative_key k'" "k' \<noteq> k" and s: "stuck entries k part c"
  shows "stuck entries k part (fst (cache_put lru f k' d c))"
proof -
  let ?n = "of_nat (length d) :: u64"
  define c1 where "c1 = evict_if_needed lru (cf_remove_fails f) ?n c"
  have s1: "stuck entries k part c1" unfolding c1_def using ct k(1) s by (rule evict_stuck)
  have ne: "cache_path c1 k' \<noteq> cache_path c1 k" using k by (simp add: cache_path_inj)
  have keys: "fst ` set (entries (lru_put lru k' ?n (sc_lru c1))) \<subseteq> insert k' (fst ` set (entries (sc_lru c1)))"
    using ct by (auto simp: lru_contract_def dest!: in_set_takeD)
  show ?thesis
  proof (cases "cf_write f")
    case Written
    have "fst (cache_put lru f k' d c) =
      c1\<lparr>sc_disk := (sc_disk c1)(cache_path c1 k' \<mapsto> d), sc_current_size := sc_current_size c1 + ?n,
         sc_lru := lru_put lru k' ?n (sc_lru c1)\<rparr>" (is "_ = ?c")
      by (simp add: cache_put_def Written Let_def c1_def)
    moreover have "cache_path ?c = cache_path c1" by (rule cache_path_cong) simp
    moreover have "\<forall>k'\<in>fst ` set (entries (lru_put lru k' ?n (sc_lru c1))). relative_key k'"
      and "k \<notin> fst ` set (entries (lru_put lru k' ?n (sc_lru c1)))"
      using s1 keys k unfolding stuck_def by blast+
    ultimately show ?thesis using s1 ne by (simp add: stuck_def)
  next
    case (WriteFailed left)
    have "fst (cache_put lru f k' d c) = c1\<lparr>sc_disk := (sc_disk c1)(cache_path c1 k' := left)\<rparr>" (is "_ = ?c")
      by (simp add: cache_put_def WriteFailed Let_def c1_def)
    moreover have "cache_path ?c = cache_path c1" by (rule cache_path_cong) simp
    ultimately show ?thesis using s1 ne by (simp add: stuck_def)
  qed
qed

lemma fetch_stuck:
  assumes ct: "lru_contract lru entries" and k: "relative_key k" "relative_key (fst kd)" and s: "stuck entries k part c"
  shows "stuck entries k part (fetch_step lru kd c)"
proof -
  have g: "stuck entries k part (fst (cache_get lru False (fst kd) c))" using ct s by (rule get_stuck)
  show ?thesis
  proof (cases "fst kd = k")
    case True
    then have "sc_disk c (cache_path c (fst kd)) = Some part" using s by (simp add: stuck_def)
    then show ?thesis using g by (simp add: fetch_step_def split_beta cache_get_result)
  next
    case False
    then show ?thesis
      using g put_stuck [OF ct k False g] by (simp add: fetch_step_def split_beta)
  qed
qed

lemma fetches_stuck:
  assumes "lru_contract lru entries" and "relative_key k" and "stuck entries k part c"
    and "\<forall>kd\<in>set fs. relative_key (fst kd)"
  shows "stuck entries k part (fold (fetch_step lru) fs c)"
  using assms(3,4) by (induction fs arbitrary: c) (auto intro: fetch_stuck [OF assms(1,2)])

lemma failed_put_stuck:
  assumes ct: "lru_contract lru entries" and t: "tracked_ok entries c" and miss: "sc_disk c (cache_path c k) = None"
    and f: "cf_write f = WriteFailed (Some part)"
  shows "stuck entries k part (fst (cache_put lru f k d c))"
proof -
  define c1 where "c1 = evict_if_needed lru (cf_remove_fails f) (of_nat (length d)) c"
  have keys: "set (entries (sc_lru c1)) \<subseteq> set (entries (sc_lru c))" unfolding c1_def by (rule evict_keys [OF ct])
  have "fst (cache_put lru f k d c) = c1\<lparr>sc_disk := (sc_disk c1)(cache_path c1 k \<mapsto> part)\<rparr>" (is "_ = ?c")
    by (simp add: cache_put_def f Let_def c1_def)
  moreover have "cache_path ?c = cache_path c1" by (rule cache_path_cong) simp
  ultimately show ?thesis
    using keys untracked [OF t miss] tracked_okD(2) [OF t] by (auto simp: stuck_def)
qed

section \<open>Properties\<close>

text \<open>
  The cache returns what was put. After a successful \<^verbatim>\<open>put\<close> a \<^verbatim>\<open>get\<close> of the same key returns the data; a \<^verbatim>\<open>get\<close> of
  any other key returns what it returned before or reports a miss (the entry was evicted), whatever
  removals failed on the way.
\<close>

theorem cache_put_get:
  assumes "cf_write faults = Written" and "relative_key k" and "relative_key k'" and "k' \<noteq> k"
  shows "snd (cache_put lru faults k data c) = Ok ()
    \<and> snd (cache_get lru False k (fst (cache_put lru faults k data c))) = Ok (Some data)
    \<and> snd (cache_get lru False k' (fst (cache_put lru faults k data c))) \<in> {snd (cache_get lru False k' c), Ok None}"
proof -
  let ?c = "fst (cache_put lru faults k data c)"
  have p: "cache_path ?c = cache_path c" by (rule cache_path_cong) simp
  have "cache_path c k' \<noteq> cache_path c k" using assms by (simp add: cache_path_inj)
  then show ?thesis
    using cache_put_disk(1) [of lru faults k data c] cache_put_disk(2) [of "cache_path c k'" c k lru faults data] assms(1) by (auto simp: cache_get_result cache_put_result p)
qed

text \<open>
  C37. The cache keeps its budget. Starting from an empty directory, after any sequence of at most 10000 fetches
  (look up, and on a miss put) of segments no larger than the limit, with the file system working, the
  files on disk are exactly the entries the LRU list tracks, the size counter is the sum of their sizes,
  and it is at most \<^verbatim>\<open>max_size_bytes\<close>.
\<close>

theorem cache_within_budget:
  assumes "lru_contract lru entries" and "unat max_size < 2 ^ 63" and "length fs \<le> LRU_CAPACITY"
    and "\<forall>(k, d)\<in>set fs. relative_key k \<and> length d \<le> unat max_size"
  shows "cache_ok entries (fold (fetch_step lru) fs (SegmentCache_new lru dir max_size (\<lambda>_. None)))"
proof -
  let ?c = "SegmentCache_new lru dir max_size (\<lambda>_. None)"
  have "entries (sc_lru ?c) = []" using assms(1) by (simp add: SegmentCache_new_def lru_contract_def)
  moreover have "cache_ok entries ?c"
    using calculation by (simp add: cache_ok_def tracked_ok_def SegmentCache_new_def)
  ultimately show ?thesis
    using assms by (intro fetches_ok) (auto simp: SegmentCache_new_def)
qed

text \<open>
  A write that fails halfway poisons the cache. If \<^verbatim>\<open>put\<close> fails after writing part of the data, the partial file stays at the
  key's path but is not in the LRU list: whatever is fetched afterwards, the file is never evicted and never
  replaced, and every later \<^verbatim>\<open>get\<close> of the key returns the partial data as a hit.
\<close>

theorem failed_put_poisons:
  assumes "lru_contract lru entries" and "tracked_ok entries c" and "relative_key k"
    and "sc_disk c (cache_path c k) = None" and "cf_write faults = WriteFailed (Some part)"
    and "\<forall>kd\<in>set fs. relative_key (fst kd)"
  shows "snd (cache_put lru faults k data c) = Err IoError
    \<and> snd (cache_get lru False k (fold (fetch_step lru) fs (fst (cache_put lru faults k data c)))) = Ok (Some part)"
proof -
  have "stuck entries k part (fold (fetch_step lru) fs (fst (cache_put lru faults k data c)))"
    using assms by (intro fetches_stuck failed_put_stuck)
  then show ?thesis using assms(5) by (simp add: cache_put_result cache_get_result stuck_def)
qed

section \<open>The properties on concrete caches\<close>

theorem cache_put_get_witness:
  "snd (cache_get list_lru False ''a'' (fst (cache_put list_lru no_faults ''a'' [1, 2]
     (SegmentCache_new list_lru ''/tmp/cache'' 100 (\<lambda>_. None))))) = Ok (Some [1, 2])"
  using cache_put_get [of no_faults "''a''" "''b''" list_lru "[1, 2]" "SegmentCache_new list_lru ''/tmp/cache'' 100 (\<lambda>_. None)"]
  by (simp add: no_faults_def relative_key_def)

theorem cache_within_budget_witness:
  "cache_ok (\<lambda>es. es) (fold (fetch_step list_lru) [(''a'', [1, 2]), (''b'', [3, 4])]
     (SegmentCache_new list_lru ''/tmp/cache'' 3 (\<lambda>_. None)))"
  using cache_within_budget [OF list_lru_contract, of 3 "[(''a'', [1, 2]), (''b'', [3, 4])]" "''/tmp/cache''"]
  by (simp add: relative_key_def LRU_CAPACITY_def)

theorem failed_put_poisons_witness:
  "snd (cache_get list_lru False ''a'' (fold (fetch_step list_lru) [(''b'', [3, 4]), (''a'', [1, 2])]
     (fst (cache_put list_lru (no_faults\<lparr>cf_write := WriteFailed (Some [1])\<rparr>) ''a'' [1, 2]
        (SegmentCache_new list_lru ''/tmp/cache'' 3 (\<lambda>_. None)))))) = Ok (Some [1])"
  using failed_put_poisons [OF list_lru_contract, of "SegmentCache_new list_lru ''/tmp/cache'' 3 (\<lambda>_. None)" "''a''"
      "no_faults\<lparr>cf_write := WriteFailed (Some [1])\<rparr>" "[1]" "[(''b'', [3, 4]), (''a'', [1, 2])]" "[1, 2]"]
  by (simp add: relative_key_def tracked_ok_def SegmentCache_new_def list_lru_def)

end
