(* ===== verification/Partition_Reader.thy ===== *)
theory Partition_Reader
  imports Segment_Index Segment_Cache Segment_Properties
begin

text \<open>
  The partition reader, \<^verbatim>\<open>streamhouse-storage/src/reader.rs\<close>: find the segment of an offset in the index, take
  its bytes from the cache or the object store, decode it, go on to the next segment until enough records are
  collected. The reader owns its index and shares the cache, which is a field here since a read uses it
  alone. What the outside answers in the \<open>n\<close>-th pass of the loop is the record \<open>env n\<close>: the clock, the two possible
  metadata queries, the object store and the file system under the cache. The number of records that triggers
  prefetching is computed in floating point by the source and is an argument.
\<close>

section \<open>State and environment\<close>

record 'l PartitionReader =
  pr_org_id :: string
  pr_topic :: string
  pr_partition_id :: u32
  pr_cache :: "'l SegmentCache"
  pr_segment_index :: SegmentIndex

definition with_index_config ::
  "string \<Rightarrow> string \<Rightarrow> u32 \<Rightarrow> 'l SegmentCache \<Rightarrow> SegmentIndexConfig \<Rightarrow> 'l PartitionReader" where
  "with_index_config org_id topic partition_id cache index_config =
     \<lparr>pr_org_id = org_id, pr_topic = topic, pr_partition_id = partition_id, pr_cache = cache,
      pr_segment_index = SegmentIndex_new org_id topic partition_id index_config\<rparr>"

definition PartitionReader_new :: "string \<Rightarrow> string \<Rightarrow> u32 \<Rightarrow> 'l SegmentCache \<Rightarrow> 'l PartitionReader" where
  "PartitionReader_new org_id topic partition_id cache =
     with_index_config org_id topic partition_id cache SegmentIndexConfig_default"

record 'e read_env =
  re_now :: nat
  re_query :: "'e get_segments"
  re_requery :: "'e get_segments"
  re_object :: "string \<rightharpoonup> bytes"
  re_faults :: cache_faults

section \<open>Reading one segment\<close>

definition cache_key :: "'l PartitionReader \<Rightarrow> SegmentMeta \<Rightarrow> string" where
  "cache_key r info =
     pr_org_id r @ ''-'' @ pr_topic r @ ''-'' @ show_nat (unat (pr_partition_id r)) @ ''-''
     @ show_nat (unat (sm_base_offset info)) @ ''-'' @ show_int (sint (sm_created_at info))"

definition get_segment ::
  "'l LruOps \<Rightarrow> 'e read_env \<Rightarrow> SegmentMeta \<Rightarrow> 'l PartitionReader \<Rightarrow> 'l PartitionReader \<times> (storage_error, bytes) result" where
  "get_segment lru env info r =
     (let key = cache_key r info;
          (c1, cached) = cache_get lru (cf_read_fails (re_faults env)) key (pr_cache r);
          r1 = r\<lparr>pr_cache := c1\<rparr>
      in case cached of
           Err e \<Rightarrow> (r1, Err e)
         | Panic \<Rightarrow> (r1, Panic)
         | Ok (Some data) \<Rightarrow> (r1, Ok data)
         | Ok None \<Rightarrow>
             (case re_object env (sm_s3_key info) of
                None \<Rightarrow> (r1, Err ObjectStoreError)
              | Some data \<Rightarrow>
                  (let (c2, stored) = cache_put lru (re_faults env) key data c1
                   in (r1\<lparr>pr_cache := c2\<rparr>, rbind stored (\<lambda>_. Ok data)))))"

definition find_segment ::
  "'e read_env \<Rightarrow> u64 \<Rightarrow> 'l PartitionReader \<Rightarrow> 'l PartitionReader \<times> ('e, SegmentMeta option) result" where
  "find_segment env offset r =
     (let (si, found) = find_segment_for_offset (re_now env) (re_query env) (re_requery env) offset (pr_segment_index r)
      in (r\<lparr>pr_segment_index := si\<rparr>, found))"

text \<open>
  The part of a pass that can fail: find the segment, fetch it, open it and decode from the offset. \<open>None\<close> says
  that no segment holds the offset.
\<close>

definition read_segment ::
  "'l LruOps \<Rightarrow> (bytes \<Rightarrow> u32) \<Rightarrow> (bytes \<Rightarrow> (string, bytes) result) \<Rightarrow> 'e read_env \<Rightarrow> u64 \<Rightarrow> 'l PartitionReader
     \<Rightarrow> 'l PartitionReader \<times> (storage_error, (SegmentMeta \<times> Record list) option) result" where
  "read_segment lru crc32 unlz4 env offset r =
     (let (r1, found) = find_segment env offset r in
      case found of
        Err _ \<Rightarrow> (r1, Err MetadataError)
      | Panic \<Rightarrow> (r1, Panic)
      | Ok None \<Rightarrow> (r1, Ok None)
      | Ok (Some info) \<Rightarrow>
          (let (r2, fetched) = get_segment lru env info r1
           in (r2, rbind fetched (\<lambda>data.
                   rbind (map_err SegmentError (SegmentReader_new crc32 data)) (\<lambda>reader.
                   rbind (map_err SegmentError (read_from_offset unlz4 reader offset)) (\<lambda>records.
                   Ok (Some (info, records))))))))"

section \<open>The read loop\<close>

type_synonym read_progress = "Record list \<times> SegmentMeta option"

function read_loop ::
  "'l LruOps \<Rightarrow> (bytes \<Rightarrow> u32) \<Rightarrow> (bytes \<Rightarrow> (string, bytes) result) \<Rightarrow> (nat \<Rightarrow> 'e read_env) \<Rightarrow> u64 \<Rightarrow> nat
     \<Rightarrow> nat \<Rightarrow> Record list \<Rightarrow> u64 \<Rightarrow> SegmentMeta option \<Rightarrow> 'l PartitionReader
     \<Rightarrow> 'l PartitionReader \<times> (storage_error, read_progress) result" where
  "read_loop lru crc32 unlz4 env start_offset max_records pass records current_offset last_segment_info r =
     (if length records < max_records then
        (case read_segment lru crc32 unlz4 (env pass) current_offset r of
           (r1, Err e) \<Rightarrow> (r1, Err e)
         | (r1, Panic) \<Rightarrow> (r1, Panic)
         | (r1, Ok None) \<Rightarrow>
             if records = [] then (r1, Err (OffsetNotFoundError start_offset))
             else (r1, Ok (records, last_segment_info))
         | (r1, Ok (Some (info, segment_records))) \<Rightarrow>
             if segment_records = [] then (r1, Ok (records, last_segment_info))
             else let needed = max_records - length records in
               if length segment_records \<le> needed
               then read_loop lru crc32 unlz4 env start_offset max_records (Suc pass) (records @ segment_records)
                      (sm_end_offset info + 1) (Some info) r1
               else (r1, Ok (records @ take needed segment_records, last_segment_info)))
      else (r, Ok (records, last_segment_info)))"
  by pat_completeness auto
termination
  by (relation "measure (\<lambda>(_, _, _, _, _, max_records, _, records, _). max_records - length records)") (auto simp: neq_Nil_conv)

declare read_loop.simps [simp del]

section \<open>Prefetching\<close>

text \<open>\<^verbatim>\<open>prefetch_next_segments\<close> builds this key without the creation time.\<close>

definition prefetch_key :: "'l PartitionReader \<Rightarrow> SegmentMeta \<Rightarrow> string" where
  "prefetch_key r segment =
     pr_org_id r @ ''-'' @ pr_topic r @ ''-'' @ show_nat (unat (pr_partition_id r)) @ ''-''
     @ show_nat (unat (sm_base_offset segment))"

definition prefetch_offsets :: "SegmentMeta \<Rightarrow> nat \<Rightarrow> u64 list" where
  "prefetch_offsets current n = map (\<lambda>i. sm_end_offset current + 1 + of_nat i * 10000) [0..<n]"

text \<open>One of the spawned downloads; every error is dropped.\<close>

definition prefetch_one :: "'l LruOps \<Rightarrow> 'e read_env \<Rightarrow> u64 \<Rightarrow> 'l PartitionReader \<Rightarrow> 'l PartitionReader" where
  "prefetch_one lru env offset_to_find r =
     (let (r1, found) = find_segment env offset_to_find r in
      case found of
        Ok (Some segment) \<Rightarrow>
          (let key = prefetch_key r1 segment;
               (c1, cached) = cache_get lru (cf_read_fails (re_faults env)) key (pr_cache r1);
               r2 = r1\<lparr>pr_cache := c1\<rparr>
           in case cached of
                Ok (Some _) \<Rightarrow> r2
              | _ \<Rightarrow>
                  (case re_object env (sm_s3_key segment) of
                     None \<Rightarrow> r2
                   | Some data \<Rightarrow> r2\<lparr>pr_cache := fst (cache_put lru (re_faults env) key data c1)\<rparr>))
      | _ \<Rightarrow> r1)"

definition prefetch_next_segments ::
  "'l LruOps \<Rightarrow> (nat \<Rightarrow> 'e read_env) \<Rightarrow> SegmentMeta \<Rightarrow> nat \<Rightarrow> 'l PartitionReader \<Rightarrow> 'l PartitionReader" where
  "prefetch_next_segments lru env current n r =
     fold (\<lambda>(i, off). prefetch_one lru (env i) off) (enumerate 0 (prefetch_offsets current n)) r"

section \<open>The read operation\<close>

record ReadResult =
  rr_records :: "Record list"
  rr_high_watermark :: u64

text \<open>
  The second component of the result says for which segment prefetching was started, if it was; the spawned task runs
  beside or after the rest of the read.
\<close>

definition read ::
  "'l LruOps \<Rightarrow> (bytes \<Rightarrow> u32) \<Rightarrow> (bytes \<Rightarrow> (string, bytes) result) \<Rightarrow> (nat \<Rightarrow> 'e read_env) \<Rightarrow> nat
     \<Rightarrow> (string \<Rightarrow> string \<Rightarrow> u32 \<Rightarrow> ('e, u64 option) result) \<Rightarrow> u64 \<Rightarrow> nat \<Rightarrow> 'l PartitionReader
     \<Rightarrow> 'l PartitionReader \<times> SegmentMeta option \<times> (storage_error, ReadResult) result" where
  "read lru crc32 unlz4 env prefetch_threshold get_partition start_offset max_records r =
     (let (r1, outcome) = read_loop lru crc32 unlz4 env start_offset max_records 0 [] start_offset None r in
      case outcome of
        Err e \<Rightarrow> (r1, None, Err e)
      | Panic \<Rightarrow> (r1, None, Panic)
      | Ok (records, last_segment_info) \<Rightarrow>
          (let spawned = (if prefetch_threshold \<le> length records then last_segment_info else None)
           in (r1, spawned,
               case get_partition (pr_org_id r) (pr_topic r) (pr_partition_id r) of
                 Err _ \<Rightarrow> Err MetadataError
               | Panic \<Rightarrow> Panic
               | Ok None \<Rightarrow> Err (PartitionNotFoundError (pr_topic r) (pr_partition_id r))
               | Ok (Some high_watermark) \<Rightarrow> Ok \<lparr>rr_records = records, rr_high_watermark = high_watermark\<rparr>)))"

end
