(* ===== verification/Reader_Properties.thy ===== *)
theory Reader_Properties
  imports Partition_Reader
begin

text \<open>
  Reading a partition end to end: segments the writer produced, stored under the keys of their metadata rows, are
  read back by the partition reader as the log they hold, across segment boundaries and through the cache.
\<close>

section \<open>Cache keys\<close>

lemma minus_not_digit: "\<not> is_digit (CHR ''-'')"
  by (simp add: is_digit_def)

lemma cache_key_base:
  assumes "cache_key r a = cache_key r b"
  shows "sm_base_offset a = sm_base_offset b"
proof -
  have "show_nat (unat (sm_base_offset a)) @ CHR ''-'' # show_int (sint (sm_created_at a))
      = show_nat (unat (sm_base_offset b)) @ CHR ''-'' # show_int (sint (sm_created_at b))"
    using assms by (simp add: cache_key_def)
  then have "show_nat (unat (sm_base_offset a)) = show_nat (unat (sm_base_offset b))"
    by (rule digit_run_unique [OF show_nat_digits show_nat_digits]) (simp_all add: minus_not_digit)
  then have "unat (sm_base_offset a) = unat (sm_base_offset b)" by (rule show_nat_inj)
  then show ?thesis by (simp add: word_unat_eq_iff)
qed

lemma prefetch_key_differs: "prefetch_key r a \<noteq> cache_key r b"
proof
  assume "prefetch_key r a = cache_key r b"
  then have "show_nat (unat (sm_base_offset a)) = show_nat (unat (sm_base_offset b)) @ CHR ''-'' # show_int (sint (sm_created_at b))"
    by (simp add: cache_key_def prefetch_key_def)
  then have "CHR ''-'' \<in> set (show_nat (unat (sm_base_offset a)))" by simp
  then show False using show_nat_digits minus_not_digit by (metis list_all_iff)
qed

lemma relative_cache_key: "relative_key (pr_org_id r) \<Longrightarrow> relative_key (cache_key r info) \<and> relative_key (prefetch_key r info)"
  by (cases "pr_org_id r") (simp_all add: relative_key_def cache_key_def prefetch_key_def)

lemma key_cong:
  "pr_org_id r = pr_org_id r' \<Longrightarrow> pr_topic r = pr_topic r' \<Longrightarrow> pr_partition_id r = pr_partition_id r'
    \<Longrightarrow> cache_key r = cache_key r' \<and> prefetch_key r = prefetch_key r'"
  by (simp add: cache_key_def prefetch_key_def fun_eq_iff)

section \<open>What is kept\<close>

definition same_partition :: "'l PartitionReader \<Rightarrow> 'l PartitionReader \<Rightarrow> bool" where
  "same_partition r r' =
     (pr_org_id r' = pr_org_id r \<and> pr_topic r' = pr_topic r \<and> pr_partition_id r' = pr_partition_id r
      \<and> sc_cache_dir (pr_cache r') = sc_cache_dir (pr_cache r)
      \<and> sx_org_id (pr_segment_index r') = sx_org_id (pr_segment_index r)
      \<and> sx_topic (pr_segment_index r') = sx_topic (pr_segment_index r)
      \<and> sx_partition_id (pr_segment_index r') = sx_partition_id (pr_segment_index r)
      \<and> sx_config (pr_segment_index r') = sx_config (pr_segment_index r))"

lemma same_partition_trans: "same_partition a b \<Longrightarrow> same_partition b c \<Longrightarrow> same_partition a c"
  by (simp add: same_partition_def)

definition entry_path :: "'l PartitionReader \<Rightarrow> SegmentMeta \<Rightarrow> string" where
  "entry_path r info = cache_path (pr_cache r) (cache_key r info)"

lemma entry_path_cong: "same_partition r r' \<Longrightarrow> entry_path r' = entry_path r"
  using key_cong [of r r'] cache_path_cong [of "pr_cache r" "pr_cache r'"]
  by (simp add: same_partition_def entry_path_def fun_eq_iff)

text \<open>A cached file of a segment of the partition holds the bytes the object store holds.\<close>

definition coherent :: "(string \<rightharpoonup> bytes) \<Rightarrow> SegmentMeta list \<Rightarrow> 'l PartitionReader \<Rightarrow> bool" where
  "coherent obj segs r =
     list_all (\<lambda>info. sc_disk (pr_cache r) (entry_path r info) \<in> {None, obj (sm_s3_key info)}) segs"

definition quiet :: "cache_faults \<Rightarrow> bool" where
  "quiet f = (\<not> cf_read_fails f \<and> cf_write f = Written)"

lemma get_segment_keeps: "same_partition r (fst (get_segment lru env info r)) \<and>
    pr_segment_index (fst (get_segment lru env info r)) = pr_segment_index r"
  by (simp add: get_segment_def same_partition_def split_beta Let_def split: result.splits option.splits)

lemma get_segment_disk:
  "sc_disk (pr_cache (fst (get_segment lru env info r))) =
    (if sc_disk (pr_cache r) (entry_path r info) = None
     then case re_object env (sm_s3_key info) of
            None \<Rightarrow> sc_disk (pr_cache r)
          | Some data \<Rightarrow> sc_disk (fst (cache_put lru (re_faults env) (cache_key r info) data
                (fst (cache_get lru (cf_read_fails (re_faults env)) (cache_key r info) (pr_cache r)))))
     else sc_disk (pr_cache r))"
  by (simp add: get_segment_def entry_path_def cache_get_def split_beta Let_def split: option.splits)

lemma get_segment_ok:
  assumes rel: "relative_key (pr_org_id r)" and q: "quiet (re_faults env)" and o: "re_object env = obj"
    and d: "disjoint_segments segs" and c: "coherent obj segs r" and i: "info \<in> set segs" "obj (sm_s3_key info) = Some data"
  shows "snd (get_segment lru env info r) = Ok data \<and> coherent obj segs (fst (get_segment lru env info r))"
proof -
  let ?r = "fst (get_segment lru env info r)" and ?k = "cache_key r info"
  let ?c = "fst (cache_get lru False ?k (pr_cache r))"
  have p: "entry_path ?r = entry_path r" using get_segment_keeps by (rule entry_path_cong [OF conjunct1])
  have cp: "cache_path ?c = cache_path (pr_cache r)" by (rule cache_path_cong) simp
  have held: "sc_disk (pr_cache r) (entry_path r info) \<in> {None, Some data}"
    using c i by (auto simp: coherent_def list_all_iff)
  then have "snd (get_segment lru env info r) = Ok data"
    using q o i by (auto simp: get_segment_def quiet_def entry_path_def split_beta Let_def cache_get_result cache_put_result)
  moreover have "sc_disk (pr_cache ?r) (entry_path r t) \<in> {None, obj (sm_s3_key t)}" if t: "t \<in> set segs" for t
  proof (cases "sc_disk (pr_cache r) (entry_path r info) = None")
    case True
    have "sc_disk (pr_cache ?r) = sc_disk (fst (cache_put lru (re_faults env) ?k data ?c))"
      using True q o i by (simp add: get_segment_disk quiet_def)
    moreover have "sc_disk (fst (cache_put lru (re_faults env) ?k data ?c)) (entry_path r info) = Some data"
      using cache_put_disk(1) [of lru "re_faults env" ?k data ?c] q by (simp add: cp quiet_def entry_path_def)
    moreover have "sc_disk (fst (cache_put lru (re_faults env) ?k data ?c)) (entry_path r t) \<in> {sc_disk (pr_cache r) (entry_path r t), None}"
      if "t \<noteq> info"
    proof -
      have "cache_key r t \<noteq> ?k" using cache_key_base [of r t info] disjoint_base_inj [OF d t i(1)] that by blast
      then have "entry_path r t \<noteq> cache_path ?c ?k"
        using relative_cache_key [OF rel] by (simp add: cp entry_path_def cache_path_inj)
      then show ?thesis using cache_put_disk(2) [of "entry_path r t" ?c ?k lru "re_faults env" data] by simp
    qed
    ultimately show ?thesis using c i t by (cases "t = info") (auto simp: coherent_def list_all_iff)
  next
    case False
    then have "sc_disk (pr_cache ?r) = sc_disk (pr_cache r)" unfolding get_segment_disk by (simp only: if_False)
    then show ?thesis using c t by (simp add: coherent_def list_all_iff)
  qed
  ultimately show ?thesis by (simp add: coherent_def list_all_iff p)
qed

section \<open>A stored partition\<close>

fun contiguous :: "SegmentMeta list \<Rightarrow> bool" where
  "contiguous [] = True"
| "contiguous [s] = (sm_base_offset s \<le> sm_end_offset s)"
| "contiguous (s # t # ss) =
     (sm_base_offset s \<le> sm_end_offset s \<and> sm_end_offset s < sm_base_offset t
      \<and> sm_base_offset t = sm_end_offset s + 1 \<and> contiguous (t # ss))"

lemma contiguous_tl: "contiguous (s # ss) \<Longrightarrow> sm_base_offset s \<le> sm_end_offset s \<and> contiguous ss"
  by (cases ss) auto

lemma contiguous_above: "contiguous (s # ss) \<Longrightarrow> t \<in> set ss \<Longrightarrow> sm_end_offset s < sm_base_offset t"
proof (induction ss arbitrary: s)
  case (Cons u ss)
  then have u: "sm_end_offset s < sm_base_offset u" "sm_base_offset u \<le> sm_end_offset u" "contiguous (u # ss)"
    using contiguous_tl [of u ss] by auto
  show ?case
  proof (cases "t = u")
    case False
    then have "sm_end_offset u < sm_base_offset t" using Cons u(3) by auto
    then show ?thesis using u(1,2) by simp
  qed (use u in simp)
qed simp

lemma contiguous_append: "contiguous (xs @ ys) \<Longrightarrow> contiguous ys"
  by (induction xs) (auto dest: contiguous_tl)

lemma contiguous_mem: "contiguous ss \<Longrightarrow> s \<in> set ss \<Longrightarrow> sm_base_offset s \<le> sm_end_offset s"
  by (induction ss) (auto dest: contiguous_tl)

lemma contiguous_first: "contiguous ss \<Longrightarrow> s \<in> set ss \<Longrightarrow> sm_base_offset (hd ss) \<le> sm_base_offset s"
proof (cases ss)
  case (Cons t ts)
  assume c: "contiguous ss" and s: "s \<in> set ss"
  show ?thesis
  proof (cases "s = t")
    case False
    then have "sm_end_offset t < sm_base_offset s" using contiguous_above [of t ts s] c s Cons by simp
    moreover have "sm_base_offset t \<le> sm_end_offset t" using contiguous_tl [of t ts] c Cons by simp
    ultimately show ?thesis by (simp add: Cons)
  qed (simp add: Cons)
qed simp

lemma contiguous_disjoint: "contiguous ss \<Longrightarrow> disjoint_segments ss"
proof (induction ss)
  case (Cons s ss)
  then have "disjoint_segments ss" by (auto dest: contiguous_tl)
  moreover have "s \<notin> set ss"
    using contiguous_above [OF Cons.prems, of s] contiguous_tl [OF Cons.prems] by (meson leD)
  ultimately show ?case
    using contiguous_above [OF Cons.prems] contiguous_tl [OF Cons.prems]
    by (auto simp: disjoint_segments_def)
qed (simp add: disjoint_segments_def)

text \<open>
  The object of a segment row is what the segment writer makes of its records, whose offsets run from the
  row's base to its end offset.
\<close>

definition segment_stored ::
  "(bytes \<Rightarrow> bytes) \<Rightarrow> (bytes \<Rightarrow> u32) \<Rightarrow> (string \<rightharpoonup> bytes) \<Rightarrow> SegmentMeta \<times> Record list \<Rightarrow> bool" where
  "segment_stored lz4 crc32 obj sr =
     (case sr of (info, rs) \<Rightarrow>
        rs \<noteq> [] \<and> length rs < 2 ^ 32 \<and> list_all record_small rs \<and> sorted_wrt (<) (map rec_offset rs)
        \<and> rec_offset (hd rs) = sm_base_offset info \<and> rec_offset (last rs) = sm_end_offset info
        \<and> (case obj (sm_s3_key info) of
             None \<Rightarrow> False
           | Some data \<Rightarrow> length data < 2 ^ 64
               \<and> (write_segment lz4 crc32 CompNone rs = Ok data \<or> write_segment lz4 crc32 CompLz4 rs = Ok data)))"

lemma segment_stored_reads:
  assumes "lz4_contract lz4 unlz4" and s: "segment_stored lz4 crc32 obj (info, rs)"
  obtains data rd where "obj (sm_s3_key info) = Some data" and "SegmentReader_new crc32 data = Ok rd"
    and "read_from_offset unlz4 rd off = Ok (filter (\<lambda>r. off \<le> rec_offset r) (map stored_record rs))"
proof -
  obtain data c where d: "obj (sm_s3_key info) = Some data" "length data < 2 ^ 64"
    and c: "c \<noteq> CompZstd" "write_segment lz4 crc32 c rs = Ok data"
    using s by (auto simp: segment_stored_def split: option.splits)
  then have "\<exists>rd. SegmentReader_new crc32 data = Ok rd \<and>
      read_from_offset unlz4 rd off = Ok (filter (\<lambda>r. off \<le> rec_offset r) (map stored_record rs))"
    using s by (intro written_seeks [OF assms(1) _ c(1) _ _ _ c(2) d(2)]) (auto simp: segment_stored_def list_all_iff)
  then show thesis using that d(1) by blast
qed

lemma stored_offsets:
  assumes "segment_stored lz4 crc32 obj (info, rs)" and "r \<in> set rs"
  shows "sm_base_offset info \<le> rec_offset r \<and> rec_offset r \<le> sm_end_offset info"
proof -
  have s: "sorted_wrt (<) (map rec_offset rs)" and e: "rec_offset (hd rs) = sm_base_offset info" "rec_offset (last rs) = sm_end_offset info"
    using assms(1) by (auto simp: segment_stored_def)
  obtain i where i: "i < length rs" "r = rs ! i" using assms(2) by (auto simp: in_set_conv_nth)
  have le: "rec_offset (rs ! j) \<le> rec_offset (rs ! k)" if "j \<le> k" "k < length rs" for j k
    using s that sorted_wrt_nth_less [of "(<)" "map rec_offset rs" j k] by (cases "j = k") (auto intro: less_imp_le)
  have "rec_offset (rs ! 0) \<le> rec_offset r" "rec_offset r \<le> rec_offset (rs ! (length rs - 1))"
    using i le [of 0 i] le [of i "length rs - 1"] by auto
  moreover have "rs \<noteq> []" using i by auto
  ultimately show ?thesis using e by (simp add: hd_conv_nth last_conv_nth)
qed

section \<open>One pass\<close>

definition reader_ok :: "(string \<rightharpoonup> bytes) \<Rightarrow> SegmentMeta list \<Rightarrow> 'l PartitionReader \<Rightarrow> bool" where
  "reader_ok obj segs r =
     (relative_key (pr_org_id r) \<and> index_of segs (pr_segment_index r) \<and> coherent obj segs r
      \<and> length segs \<le> sic_max_segments (sx_config (pr_segment_index r))
      \<and> sx_org_id (pr_segment_index r) = pr_org_id r \<and> sx_topic (pr_segment_index r) = pr_topic r
      \<and> sx_partition_id (pr_segment_index r) = pr_partition_id r)"

text \<open>What the outside answers in a pass: the metadata store lists the segments, the objects are there, the cache disk works.\<close>

definition serves :: "(string \<rightharpoonup> bytes) \<Rightarrow> SegmentMeta list \<Rightarrow> 'l PartitionReader \<Rightarrow> 'e read_env \<Rightarrow> bool" where
  "serves obj segs r env =
     (re_query env (pr_org_id r) (pr_topic r) (pr_partition_id r) = Ok segs
      \<and> re_requery env (pr_org_id r) (pr_topic r) (pr_partition_id r) = Ok segs
      \<and> re_object env = obj \<and> quiet (re_faults env))"

lemma serves_cong: "same_partition r r' \<Longrightarrow> serves obj segs r' env = serves obj segs r env"
  by (simp add: serves_def same_partition_def)

lemma find_segment_ok:
  assumes d: "disjoint_segments segs" and ok: "reader_ok obj segs r" and sv: "serves obj segs r env"
  shows "snd (find_segment env off r) = Ok (List.find (\<lambda>s. covers s off) segs)
    \<and> reader_ok obj segs (fst (find_segment env off r)) \<and> same_partition r (fst (find_segment env off r))"
proof -
  let ?f = "find_segment_for_offset (re_now env) (re_query env) (re_requery env) off (pr_segment_index r)"
  have f: "snd ?f = Ok (List.find (\<lambda>s. covers s off) segs) \<and> index_of segs (fst ?f)"
    using ok sv by (intro find_segment_exactly [OF d]) (auto simp: reader_ok_def serves_def)
  have r: "fst (find_segment env off r) = r\<lparr>pr_segment_index := fst ?f\<rparr>" "snd (find_segment env off r) = snd ?f"
    by (simp_all add: find_segment_def split_beta)
  have sp: "same_partition r (fst (find_segment env off r))"
    by (simp add: r same_partition_def find_segment_keeps)
  have "coherent obj segs (fst (find_segment env off r)) = coherent obj segs r"
    unfolding coherent_def entry_path_cong [OF sp] by (simp add: r)
  then show ?thesis
    using f sp ok find_segment_keeps [of "re_now env" "re_query env" "re_requery env" off "pr_segment_index r"]
    by (simp add: r reader_ok_def)
qed

lemma read_segment_none:
  assumes "disjoint_segments segs" and "reader_ok obj segs r" and "serves obj segs r env" and "\<forall>s\<in>set segs. \<not> covers s off"
  shows "snd (read_segment lru crc32 unlz4 env off r) = Ok None"
proof -
  have "List.find (\<lambda>s. covers s off) segs = None" using assms(4) by (auto simp: find_None_iff)
  then have "snd (find_segment env off r) = Ok None" using find_segment_ok [OF assms(1-3), of off] by simp
  then show ?thesis by (simp add: read_segment_def split_beta)
qed

lemma read_segment_ok:
  assumes lz4: "lz4_contract lz4 unlz4" and d: "disjoint_segments segs" and ok: "reader_ok obj segs r" and sv: "serves obj segs r env"
    and i: "info \<in> set segs" "covers info off" and st: "segment_stored lz4 crc32 obj (info, rs)"
  shows "snd (read_segment lru crc32 unlz4 env off r) = Ok (Some (info, filter (\<lambda>r. off \<le> rec_offset r) (map stored_record rs)))
    \<and> reader_ok obj segs (fst (read_segment lru crc32 unlz4 env off r))
    \<and> same_partition r (fst (read_segment lru crc32 unlz4 env off r))"
proof -
  let ?r1 = "fst (find_segment env off r)" and ?g = "get_segment lru env info"
  obtain data rd where rd: "obj (sm_s3_key info) = Some data" "SegmentReader_new crc32 data = Ok rd"
    "read_from_offset unlz4 rd off = Ok (filter (\<lambda>r. off \<le> rec_offset r) (map stored_record rs))"
    using segment_stored_reads [OF lz4 st] by blast
  have "List.find (\<lambda>s. covers s off) segs = Some info" using i unfolding find_covering [OF d] by blast
  then have f: "snd (find_segment env off r) = Ok (Some info)" "reader_ok obj segs ?r1" "same_partition r ?r1"
    using find_segment_ok [OF d ok sv, of off] by auto
  have g: "snd (?g ?r1) = Ok data \<and> coherent obj segs (fst (?g ?r1))"
    using f(2) sv i(1) rd(1) by (intro get_segment_ok [OF _ _ _ d]) (auto simp: reader_ok_def serves_def)
  have k: "same_partition ?r1 (fst (?g ?r1))" "pr_segment_index (fst (?g ?r1)) = pr_segment_index ?r1"
    using get_segment_keeps by blast+
  have "reader_ok obj segs (fst (?g ?r1))"
    using f(2) g k by (simp add: reader_ok_def same_partition_def)
  then show ?thesis
    using f g rd k same_partition_trans [OF f(3) k(1)] by (simp add: read_segment_def split_beta)
qed

section \<open>The loop\<close>

definition partition_stored ::
  "(bytes \<Rightarrow> bytes) \<Rightarrow> (bytes \<Rightarrow> u32) \<Rightarrow> (string \<rightharpoonup> bytes) \<Rightarrow> (SegmentMeta \<times> Record list) list \<Rightarrow> bool" where
  "partition_stored lz4 crc32 obj plog =
     (plog \<noteq> [] \<and> contiguous (map fst plog) \<and> list_all (segment_stored lz4 crc32 obj) plog
      \<and> sm_end_offset (fst (last plog)) + 1 \<noteq> 0)"

abbreviation log_of :: "(SegmentMeta \<times> Record list) list \<Rightarrow> Record list" where
  "log_of plog \<equiv> map stored_record (concat (map snd plog))"

abbreviation from_offset :: "u64 \<Rightarrow> Record list \<Rightarrow> Record list" where
  "from_offset off \<equiv> filter (\<lambda>r. off \<le> rec_offset r)"

lemma contiguous_below: "contiguous (xs @ s # ys) \<Longrightarrow> t \<in> set xs \<Longrightarrow> sm_end_offset t < sm_base_offset s"
  by (induction xs) (auto dest: contiguous_tl intro: contiguous_above)

lemma from_offset_later:
  assumes "contiguous (info # map fst post)" and "list_all (segment_stored lz4 crc32 obj) post" and "off \<le> sm_end_offset info"
  shows "from_offset off (log_of post) = log_of post"
proof -
  have "off \<le> rec_offset r" if "(t, rs) \<in> set post" "r \<in> set rs" for t rs r
  proof -
    have "sm_end_offset info < sm_base_offset t" using contiguous_above [OF assms(1)] that(1) by force
    moreover have "sm_base_offset t \<le> rec_offset r"
      using stored_offsets [of lz4 crc32 obj t rs r] assms(2) that by (auto simp: list_all_iff)
    ultimately show ?thesis using assms(3) by simp
  qed
  then show ?thesis by (auto simp: filter_id_conv)
qed

lemma from_offset_earlier:
  assumes "contiguous (map fst pre @ info # ss)" and "list_all (segment_stored lz4 crc32 obj) pre" and "sm_base_offset info \<le> off"
  shows "from_offset off (log_of pre) = []"
proof -
  have "rec_offset r < off" if "(t, rs) \<in> set pre" "r \<in> set rs" for t rs r
  proof -
    have "sm_end_offset t < sm_base_offset info" using contiguous_below [OF assms(1)] that(1) by force
    moreover have "rec_offset r \<le> sm_end_offset t"
      using stored_offsets [of lz4 crc32 obj t rs r] assms(2) that by (auto simp: list_all_iff)
    ultimately show ?thesis using assms(3) by simp
  qed
  then show ?thesis by (force simp: filter_empty_conv not_le)
qed

lemma covered_nonempty:
  assumes "segment_stored lz4 crc32 obj (info, rs)" and "covers info off"
  shows "from_offset off (map stored_record rs) \<noteq> []"
proof -
  have "last rs \<in> set rs" "off \<le> rec_offset (last rs)" using assms by (auto simp: segment_stored_def covers_def)
  then show ?thesis by (auto simp: filter_empty_conv)
qed

lemma read_loop_pass:
  assumes "length records < max_records"
    and "snd (read_segment lru crc32 unlz4 (env pass) cur r) = Ok (Some (info, srs))" and "srs \<noteq> []"
  shows "snd (read_loop lru crc32 unlz4 env start max_records pass records cur last_info r) =
    (if length srs \<le> max_records - length records
     then snd (read_loop lru crc32 unlz4 env start max_records (Suc pass) (records @ srs) (sm_end_offset info + 1) (Some info)
            (fst (read_segment lru crc32 unlz4 (env pass) cur r)))
     else Ok (records @ take (max_records - length records) srs, last_info))"
  using assms by (subst read_loop.simps) (cases "read_segment lru crc32 unlz4 (env pass) cur r", simp)

lemma read_loop_end:
  assumes "snd (read_segment lru crc32 unlz4 (env pass) cur r) = Ok None" and "records \<noteq> []"
  shows "snd (read_loop lru crc32 unlz4 env start max_records pass records cur last_info r) = Ok (records, last_info)"
  using assms by (subst read_loop.simps) (cases "read_segment lru crc32 unlz4 (env pass) cur r", simp)

lemma read_loop_full:
  "\<not> length records < max_records \<Longrightarrow>
    snd (read_loop lru crc32 unlz4 env start max_records pass records cur last_info r) = Ok (records, last_info)"
  by (subst read_loop.simps) simp

lemma after_last_uncovered:
  assumes "contiguous ss" and "ss \<noteq> []" and "sm_end_offset (last ss) < off"
  shows "\<forall>s\<in>set ss. \<not> covers s off"
proof
  fix s assume s: "s \<in> set ss"
  have "sm_end_offset s \<le> sm_end_offset (last ss)"
  proof (cases "s = last ss")
    case False
    then have "s \<in> set (butlast ss)"
      using s arg_cong [OF append_butlast_last_id [OF assms(2)], of set] by auto
    then have "sm_end_offset s < sm_base_offset (last ss)"
      using contiguous_below [of "butlast ss" "last ss" "[]" s] assms(1,2) by simp
    moreover have "sm_base_offset (last ss) \<le> sm_end_offset (last ss)" using contiguous_mem [OF assms(1)] assms(2) by simp
    ultimately show ?thesis by simp
  qed simp
  then show "\<not> covers s off" using assms(3) by (auto simp: covers_def)
qed

lemma read_loop_log:
  assumes lz4: "lz4_contract lz4 unlz4" and st: "partition_stored lz4 crc32 obj plog"
    and "plog = pre @ (info, rs) # post" and "covers info cur"
    and "reader_ok obj (map fst plog) r" and "\<And>n. serves obj (map fst plog) r (env n)"
  shows "\<exists>l. snd (read_loop lru crc32 unlz4 env start max_records pass records cur last_info r)
    = Ok (records @ take (max_records - length records) (from_offset cur (log_of ((info, rs) # post))), l)"
  using assms(3-)
proof (induction post arbitrary: pre info rs cur r pass records last_info)
  case Nil
  let ?srs = "from_offset cur (map stored_record rs)"
  let ?r1 = "fst (read_segment lru crc32 unlz4 (env pass) cur r)"
  have d: "disjoint_segments (map fst plog)" and sg: "segment_stored lz4 crc32 obj (info, rs)"
    using st Nil by (auto simp: partition_stored_def contiguous_disjoint)
  have i: "info \<in> set (map fst plog)" using Nil by simp
  note rd = read_segment_ok [OF lz4 d Nil.prems(3) Nil.prems(4) i Nil.prems(2) sg, where lru = lru]
  have sv: "serves obj (map fst plog) ?r1 (env n)" for n
    using rd Nil.prems(4) serves_cong [of r ?r1 obj "map fst plog" "env n"] by auto
  have "\<forall>s\<in>set (map fst plog). \<not> covers s (sm_end_offset info + 1)"
    using st Nil(1) word_succ_greater [of "sm_end_offset info"]
    by (intro after_last_uncovered) (auto simp: partition_stored_def)
  then have none: "snd (read_segment lru crc32 unlz4 (env (Suc pass)) (sm_end_offset info + 1) ?r1) = Ok None"
    using read_segment_none [OF d _ sv] rd by blast
  have ne: "?srs \<noteq> []" by (rule covered_nonempty [OF sg Nil.prems(2)])
  show ?case
  proof (cases "length records < max_records")
    case True
    then show ?thesis
      using read_loop_pass [where env = env and pass = pass, OF True conjunct1 [OF rd] ne] read_loop_end [where env = env and pass = "Suc pass", OF none] ne by auto
  qed (simp add: read_loop_full)
next
  case (Cons p post)
  obtain info' rs' where p: "p = (info', rs')" by fastforce
  let ?srs = "from_offset cur (map stored_record rs)"
  let ?r1 = "fst (read_segment lru crc32 unlz4 (env pass) cur r)"
  have d: "disjoint_segments (map fst plog)" and sg: "segment_stored lz4 crc32 obj (info, rs)"
    and sp: "list_all (segment_stored lz4 crc32 obj) (p # post)" and c: "contiguous (info # map fst (p # post))"
    using st Cons.prems(1) contiguous_append [of "map fst pre" "info # map fst (p # post)"]
    by (auto simp: partition_stored_def contiguous_disjoint)
  have i: "info \<in> set (map fst plog)" using Cons.prems(1) by simp
  note rd = read_segment_ok [OF lz4 d Cons.prems(3) Cons.prems(4) i Cons.prems(2) sg, where lru = lru]
  have sv: "serves obj (map fst plog) ?r1 (env n)" for n
    using rd Cons.prems(4) serves_cong [of r ?r1 obj "map fst plog" "env n"] by auto
  have ne: "?srs \<noteq> []" by (rule covered_nonempty [OF sg Cons.prems(2)])
  have later: "from_offset cur (log_of (p # post)) = log_of (p # post)"
    using Cons.prems(2) by (intro from_offset_later [OF c sp]) (simp add: covers_def)
  have nx: "sm_end_offset info + 1 = sm_base_offset info'" "sm_base_offset info' \<le> sm_end_offset info'"
    using c p contiguous_tl [of info' "map fst post"] by auto
  have all: "from_offset (sm_end_offset info + 1) (log_of (p # post)) = log_of (p # post)"
  proof -
    have "from_offset (sm_base_offset info') (map stored_record rs') = map stored_record rs'"
      using stored_offsets [of lz4 crc32 obj info' rs'] sp p by (auto simp: filter_id_conv)
    moreover have "from_offset (sm_base_offset info') (log_of post) = log_of post"
      using c sp p nx by (intro from_offset_later [of info']) auto
    ultimately show ?thesis by (simp add: p nx)
  qed
  have "plog = (pre @ [(info, rs)]) @ (info', rs') # post" "covers info' (sm_end_offset info + 1)"
    using Cons.prems(1) p nx by (simp_all add: covers_def)
  then have IH: "\<exists>l. snd (read_loop lru crc32 unlz4 env start max_records (Suc pass) (records @ ?srs) (sm_end_offset info + 1) (Some info) ?r1)
      = Ok ((records @ ?srs) @ take (max_records - length (records @ ?srs)) (log_of (p # post)), l)"
    using Cons.IH [OF _ _ _ sv] rd all p by metis
  show ?case
  proof (cases "length records < max_records")
    case True
    then show ?thesis
      using read_loop_pass [where env = env and pass = pass, OF True conjunct1 [OF rd] ne] IH later by (auto simp: add.commute)
  qed (simp add: read_loop_full)
qed

section \<open>Properties\<close>

lemma contiguous_split:
  assumes "contiguous (map fst plog)" and "plog \<noteq> []"
    and "sm_base_offset (fst (hd plog)) \<le> off" and "off \<le> sm_end_offset (fst (last plog))"
  shows "\<exists>pre info rs post. plog = pre @ (info, rs) # post \<and> covers info off"
  using assms
proof (induction plog)
  case (Cons p plog)
  obtain info rs where p: "p = (info, rs)" by fastforce
  show ?case
  proof (cases "off \<le> sm_end_offset info")
    case True
    then have "covers info off" using Cons.prems p by (simp add: covers_def)
    then show ?thesis using p by (metis append_Nil)
  next
    case False
    then have ne: "plog \<noteq> []" using Cons.prems p by auto
    then obtain q plog' where q: "plog = q # plog'" by (meson neq_Nil_conv)
    have "sm_base_offset (fst q) = sm_end_offset info + 1" using Cons.prems(1) by (simp add: p q)
    then have "sm_base_offset (fst (hd plog)) \<le> off"
      using False inc_le [of "sm_end_offset info" off] by (simp add: q not_le)
    moreover have "contiguous (map fst plog)" using contiguous_tl [of "fst p" "map fst plog"] Cons.prems(1) by simp
    ultimately obtain pre i' rs' post where "plog = pre @ (i', rs') # post \<and> covers i' off"
      using Cons.IH ne Cons.prems(4) by auto
    then show ?thesis by (metis append_Cons)
  qed
qed simp


lemma find_segment_frame:
  "pr_cache (fst (find_segment env off r)) = pr_cache r \<and> same_partition r (fst (find_segment env off r))"
  by (simp add: find_segment_def split_beta same_partition_def find_segment_keeps)

lemma prefetch_one_disk:
  assumes "relative_key (pr_org_id r)"
  shows "sc_disk (pr_cache (prefetch_one lru env off r)) (entry_path r info) \<in> {sc_disk (pr_cache r) (entry_path r info), None}
    \<and> same_partition r (prefetch_one lru env off r)"
proof -
  let ?r = "fst (find_segment env off r)"
  have c: "pr_cache ?r = pr_cache r" and sp: "same_partition r ?r" using find_segment_frame by blast+
  have put: "sc_disk (fst (cache_put lru f (prefetch_key ?r s) d (fst (cache_get lru rf (prefetch_key ?r s) (pr_cache r))))) (entry_path r info)
      \<in> {sc_disk (pr_cache r) (entry_path r info), None}" for f s d rf
  proof -
    let ?c = "fst (cache_get lru rf (prefetch_key ?r s) (pr_cache r))"
    have cp: "cache_path ?c = cache_path (pr_cache r)" by (rule cache_path_cong) simp
    have k: "prefetch_key ?r s = prefetch_key r s" using key_cong [of r ?r] sp by (simp add: same_partition_def)
    have "cache_path (pr_cache r) (cache_key r info) \<noteq> cache_path (pr_cache r) (prefetch_key r s)"
      using relative_cache_key [OF assms] prefetch_key_differs [of r s info] by (auto simp: cache_path_inj)
    then show ?thesis
      using cache_put_disk(2) [of "entry_path r info" ?c "prefetch_key r s" lru f d] by (simp add: cp [unfolded k] k entry_path_def)
  qed
  have "sc_disk (pr_cache (prefetch_one lru env off r)) (entry_path r info) \<in> {sc_disk (pr_cache r) (entry_path r info), None}"
    using put by (simp add: prefetch_one_def split_beta Let_def c split: result.splits option.splits)
  moreover have "same_partition ?r (prefetch_one lru env off r)"
    by (simp add: prefetch_one_def split_beta Let_def same_partition_def split: result.splits option.splits)
  ultimately show ?thesis using same_partition_trans [OF sp] by blast
qed

text \<open>
  Prefetching never helps. A prefetch stores what it downloads under a key without the creation time, a read looks under a
  key with it, and the two never coincide. Whatever segments are prefetched, the cache entry a later read of
  the partition looks for is not created: it is what it was before, or has been evicted to make room.
\<close>

theorem prefetch_never_helps:
  assumes "relative_key (pr_org_id r)"
  shows "sc_disk (pr_cache (prefetch_next_segments lru env current n r)) (entry_path r info)
    \<in> {sc_disk (pr_cache r) (entry_path r info), None}"
proof -
  have "sc_disk (pr_cache (fold (\<lambda>(i, off). prefetch_one lru (env i) off) xs r')) (entry_path r info)
      \<in> {sc_disk (pr_cache r) (entry_path r info), None}"
    if "sc_disk (pr_cache r') (entry_path r info) \<in> {sc_disk (pr_cache r) (entry_path r info), None}" "same_partition r r'" for xs r'
    using that
  proof (induction xs arbitrary: r')
    case (Cons x xs)
    obtain i off where x: "x = (i, off)" by fastforce
    have "relative_key (pr_org_id r')" using assms Cons.prems(2) by (simp add: same_partition_def)
    note one = prefetch_one_disk [OF this, of lru "env i" off info]
    have "entry_path r' = entry_path r" by (rule entry_path_cong [OF Cons.prems(2)])
    then have "sc_disk (pr_cache (prefetch_one lru (env i) off r')) (entry_path r info) \<in> {sc_disk (pr_cache r) (entry_path r info), None}"
      using one Cons.prems(1) by auto
    then show ?case using Cons.IH same_partition_trans [OF Cons.prems(2)] one by (simp add: x)
  qed simp
  then show ?thesis by (simp add: prefetch_next_segments_def same_partition_def)
qed

section \<open>The properties on a concrete partition\<close>

definition demo_env :: "bytes \<Rightarrow> nat \<Rightarrow> unit read_env" where
  "demo_env data n =
     \<lparr>re_now = n, re_query = (\<lambda>_ _ _. Ok [demo_segment 100 101]), re_requery = (\<lambda>_ _ _. Ok [demo_segment 100 101]),
      re_object = [''k'' \<mapsto> data], re_faults = no_faults\<rparr>"

definition demo_reader :: "(string \<times> u64) list PartitionReader" where
  "demo_reader = PartitionReader_new ''org'' ''orders'' 0 (SegmentCache_new list_lru ''/cache'' 1000 (\<lambda>_. None))"

lemma demo_reader_ok: "reader_ok [''k'' \<mapsto> data] [demo_segment 100 101] demo_reader"
  by (simp add: reader_ok_def demo_reader_def PartitionReader_new_def with_index_config_def SegmentIndex_new_def
      relative_key_def index_of_def ordered_def coherent_def SegmentCache_new_def SegmentIndexConfig_default_def)


theorem prefetch_never_helps_witness:
  "sc_disk (pr_cache (prefetch_next_segments list_lru (demo_env [1, 2]) (demo_segment 0 99) 2 demo_reader))
     (entry_path demo_reader (demo_segment 100 101)) = None"
  using prefetch_never_helps [of demo_reader list_lru "demo_env [1, 2]" "demo_segment 0 99" 2 "demo_segment 100 101"]
  by (simp add: demo_reader_def PartitionReader_new_def with_index_config_def SegmentCache_new_def relative_key_def)

end
