(* ===== verification/Kafka_Types.thy ===== *)
theory Kafka_Types
  imports Prelude
begin

text \<open>
  Tables of the Kafka protocol, \<^verbatim>\<open>streamhouse-kafka/src/error.rs\<close> and \<^verbatim>\<open>types.rs\<close>: the
  errors of the crate, the wire codes, the conversion between them, the API keys with their
  version ranges and the record attributes. \<^verbatim>\<open>i16\<close> values are 16-bit words read as two's
  complement. Constructors carry a prefix where the source's names collide
  (\<^verbatim>\<open>ErrorCode::None\<close> is \<open>EC_None\<close>); the payload of an I/O error is the operating system's and
  is left out.
\<close>

section \<open>Errors and error codes\<close>

datatype KafkaError =
    Unknown string
  | KIo
  | Protocol string
  | TopicNotFound string
  | PartitionNotFound string u32
  | InvalidRequest string
  | UnsupportedApi i16 i16
  | ConsumerGroupError string
  | NotCoordinator string
  | RebalanceInProgress string
  | MemberNotFound string string
  | InvalidGeneration i32 i32
  | OffsetOutOfRange u64
  | MetadataStore string
  | Storage string
  | KCompression string
  | ConnectionClosed
  | AuthenticationError string
  | AuthorizationError string

text \<open>
  \<^verbatim>\<open>#[repr(i16)] enum ErrorCode\<close> is represented by its discriminant, which \<^verbatim>\<open>as_i16\<close> reads; the
  variants are names for the discriminants the source gives them.
\<close>

datatype ErrorCode = ErrorCode (ErrorCode_as_i16: i16)

abbreviation "EC_None \<equiv> ErrorCode 0"
abbreviation "EC_UnknownServerError \<equiv> ErrorCode (-1)"
abbreviation "EC_OffsetOutOfRange \<equiv> ErrorCode 1"
abbreviation "EC_CorruptMessage \<equiv> ErrorCode 2"
abbreviation "EC_UnknownTopicOrPartition \<equiv> ErrorCode 3"
abbreviation "EC_InvalidFetchSize \<equiv> ErrorCode 4"
abbreviation "EC_LeaderNotAvailable \<equiv> ErrorCode 5"
abbreviation "EC_NotLeaderOrFollower \<equiv> ErrorCode 6"
abbreviation "EC_RequestTimedOut \<equiv> ErrorCode 7"
abbreviation "EC_BrokerNotAvailable \<equiv> ErrorCode 8"
abbreviation "EC_ReplicaNotAvailable \<equiv> ErrorCode 9"
abbreviation "EC_MessageTooLarge \<equiv> ErrorCode 10"
abbreviation "EC_StaleControllerEpoch \<equiv> ErrorCode 11"
abbreviation "EC_OffsetMetadataTooLarge \<equiv> ErrorCode 12"
abbreviation "EC_NetworkException \<equiv> ErrorCode 13"
abbreviation "EC_CoordinatorLoadInProgress \<equiv> ErrorCode 14"
abbreviation "EC_CoordinatorNotAvailable \<equiv> ErrorCode 15"
abbreviation "EC_NotCoordinator \<equiv> ErrorCode 16"
abbreviation "EC_InvalidTopicException \<equiv> ErrorCode 17"
abbreviation "EC_RecordListTooLarge \<equiv> ErrorCode 18"
abbreviation "EC_NotEnoughReplicas \<equiv> ErrorCode 19"
abbreviation "EC_NotEnoughReplicasAfterAppend \<equiv> ErrorCode 20"
abbreviation "EC_InvalidRequiredAcks \<equiv> ErrorCode 21"
abbreviation "EC_IllegalGeneration \<equiv> ErrorCode 22"
abbreviation "EC_InconsistentGroupProtocol \<equiv> ErrorCode 23"
abbreviation "EC_InvalidGroupId \<equiv> ErrorCode 24"
abbreviation "EC_UnknownMemberId \<equiv> ErrorCode 25"
abbreviation "EC_InvalidSessionTimeout \<equiv> ErrorCode 26"
abbreviation "EC_RebalanceInProgress \<equiv> ErrorCode 27"
abbreviation "EC_InvalidCommitOffsetSize \<equiv> ErrorCode 28"
abbreviation "EC_TopicAuthorizationFailed \<equiv> ErrorCode 29"
abbreviation "EC_GroupAuthorizationFailed \<equiv> ErrorCode 30"
abbreviation "EC_ClusterAuthorizationFailed \<equiv> ErrorCode 31"
abbreviation "EC_InvalidTimestamp \<equiv> ErrorCode 32"
abbreviation "EC_UnsupportedSaslMechanism \<equiv> ErrorCode 33"
abbreviation "EC_IllegalSaslState \<equiv> ErrorCode 34"
abbreviation "EC_UnsupportedVersion \<equiv> ErrorCode 35"
abbreviation "EC_TopicAlreadyExists \<equiv> ErrorCode 36"
abbreviation "EC_InvalidPartitions \<equiv> ErrorCode 37"
abbreviation "EC_InvalidReplicationFactor \<equiv> ErrorCode 38"
abbreviation "EC_InvalidReplicaAssignment \<equiv> ErrorCode 39"
abbreviation "EC_InvalidConfig \<equiv> ErrorCode 40"
abbreviation "EC_NotController \<equiv> ErrorCode 41"
abbreviation "EC_InvalidRequest \<equiv> ErrorCode 42"
abbreviation "EC_UnsupportedForMessageFormat \<equiv> ErrorCode 43"
abbreviation "EC_PolicyViolation \<equiv> ErrorCode 44"
abbreviation "EC_OutOfOrderSequenceNumber \<equiv> ErrorCode 45"
abbreviation "EC_DuplicateSequenceNumber \<equiv> ErrorCode 46"
abbreviation "EC_InvalidProducerEpoch \<equiv> ErrorCode 47"
abbreviation "EC_InvalidTxnState \<equiv> ErrorCode 48"
abbreviation "EC_InvalidProducerIdMapping \<equiv> ErrorCode 49"
abbreviation "EC_InvalidTransactionTimeout \<equiv> ErrorCode 50"
abbreviation "EC_ConcurrentTransactions \<equiv> ErrorCode 51"
abbreviation "EC_TransactionCoordinatorFenced \<equiv> ErrorCode 52"
abbreviation "EC_TransactionalIdAuthorizationFailed \<equiv> ErrorCode 53"
abbreviation "EC_SecurityDisabled \<equiv> ErrorCode 54"
abbreviation "EC_OperationNotAttempted \<equiv> ErrorCode 55"
abbreviation "EC_KafkaStorageError \<equiv> ErrorCode 56"
abbreviation "EC_LogDirNotFound \<equiv> ErrorCode 57"
abbreviation "EC_SaslAuthenticationFailed \<equiv> ErrorCode 58"
abbreviation "EC_UnknownProducerId \<equiv> ErrorCode 59"
abbreviation "EC_ReassignmentInProgress \<equiv> ErrorCode 60"
abbreviation "EC_DelegationTokenAuthDisabled \<equiv> ErrorCode 61"
abbreviation "EC_DelegationTokenNotFound \<equiv> ErrorCode 62"
abbreviation "EC_DelegationTokenOwnerMismatch \<equiv> ErrorCode 63"
abbreviation "EC_DelegationTokenRequestNotAllowed \<equiv> ErrorCode 64"
abbreviation "EC_DelegationTokenAuthorizationFailed \<equiv> ErrorCode 65"
abbreviation "EC_DelegationTokenExpired \<equiv> ErrorCode 66"
abbreviation "EC_InvalidPrincipalType \<equiv> ErrorCode 67"
abbreviation "EC_NonEmptyGroup \<equiv> ErrorCode 68"
abbreviation "EC_GroupIdNotFound \<equiv> ErrorCode 69"
abbreviation "EC_FetchSessionIdNotFound \<equiv> ErrorCode 70"
abbreviation "EC_InvalidFetchSessionEpoch \<equiv> ErrorCode 71"
abbreviation "EC_ListenerNotFound \<equiv> ErrorCode 72"
abbreviation "EC_TopicDeletionDisabled \<equiv> ErrorCode 73"
abbreviation "EC_FencedLeaderEpoch \<equiv> ErrorCode 74"
abbreviation "EC_UnknownLeaderEpoch \<equiv> ErrorCode 75"
abbreviation "EC_UnsupportedCompressionType \<equiv> ErrorCode 76"
abbreviation "EC_StaleBrokerEpoch \<equiv> ErrorCode 77"
abbreviation "EC_OffsetNotAvailable \<equiv> ErrorCode 78"
abbreviation "EC_MemberIdRequired \<equiv> ErrorCode 79"
abbreviation "EC_PreferredLeaderNotAvailable \<equiv> ErrorCode 80"
abbreviation "EC_GroupMaxSizeReached \<equiv> ErrorCode 81"
abbreviation "EC_FencedInstanceId \<equiv> ErrorCode 82"
abbreviation "EC_EligibleLeadersNotAvailable \<equiv> ErrorCode 83"
abbreviation "EC_ElectionNotNeeded \<equiv> ErrorCode 84"
abbreviation "EC_NoReassignmentInProgress \<equiv> ErrorCode 85"
abbreviation "EC_GroupSubscribedToTopic \<equiv> ErrorCode 86"
abbreviation "EC_InvalidRecord \<equiv> ErrorCode 87"
abbreviation "EC_UnstableOffsetCommit \<equiv> ErrorCode 88"
abbreviation "EC_ThrottlingQuotaExceeded \<equiv> ErrorCode 89"

text \<open>\<^verbatim>\<open>impl From<&KafkaError> for ErrorCode\<close>.\<close>

definition ErrorCode_from :: "KafkaError \<Rightarrow> ErrorCode" where
  "ErrorCode_from err =
     (case err of
        TopicNotFound _ \<Rightarrow> EC_UnknownTopicOrPartition
      | PartitionNotFound _ _ \<Rightarrow> EC_UnknownTopicOrPartition
      | InvalidRequest _ \<Rightarrow> EC_InvalidRequest
      | UnsupportedApi _ _ \<Rightarrow> EC_UnsupportedVersion
      | NotCoordinator _ \<Rightarrow> EC_NotCoordinator
      | RebalanceInProgress _ \<Rightarrow> EC_RebalanceInProgress
      | MemberNotFound _ _ \<Rightarrow> EC_UnknownMemberId
      | InvalidGeneration _ _ \<Rightarrow> EC_IllegalGeneration
      | OffsetOutOfRange _ \<Rightarrow> EC_OffsetOutOfRange
      | KCompression _ \<Rightarrow> EC_UnsupportedCompressionType
      | AuthenticationError _ \<Rightarrow> EC_SaslAuthenticationFailed
      | AuthorizationError _ \<Rightarrow> EC_ClusterAuthorizationFailed
      | _ \<Rightarrow> EC_UnknownServerError)"

section \<open>API keys and versions\<close>

datatype ApiKey =
    Api_Produce | Api_Fetch | Api_ListOffsets | Api_Metadata | Api_OffsetCommit
  | Api_OffsetFetch | Api_FindCoordinator | Api_JoinGroup | Api_Heartbeat | Api_LeaveGroup
  | Api_SyncGroup | Api_DescribeGroups | Api_ListGroups | Api_ApiVersions | Api_CreateTopics
  | Api_DeleteTopics | Api_InitProducerId | Api_AddPartitionsToTxn | Api_AddOffsetsToTxn | Api_EndTxn
  | Api_TxnOffsetCommit | Api_SaslHandshake | Api_SaslAuthenticate

fun ApiKey_as_i16 :: "ApiKey \<Rightarrow> i16" where
  "ApiKey_as_i16 Api_Produce = 0"
| "ApiKey_as_i16 Api_Fetch = 1"
| "ApiKey_as_i16 Api_ListOffsets = 2"
| "ApiKey_as_i16 Api_Metadata = 3"
| "ApiKey_as_i16 Api_OffsetCommit = 8"
| "ApiKey_as_i16 Api_OffsetFetch = 9"
| "ApiKey_as_i16 Api_FindCoordinator = 10"
| "ApiKey_as_i16 Api_JoinGroup = 11"
| "ApiKey_as_i16 Api_Heartbeat = 12"
| "ApiKey_as_i16 Api_LeaveGroup = 13"
| "ApiKey_as_i16 Api_SyncGroup = 14"
| "ApiKey_as_i16 Api_DescribeGroups = 15"
| "ApiKey_as_i16 Api_ListGroups = 16"
| "ApiKey_as_i16 Api_ApiVersions = 18"
| "ApiKey_as_i16 Api_CreateTopics = 19"
| "ApiKey_as_i16 Api_DeleteTopics = 20"
| "ApiKey_as_i16 Api_InitProducerId = 22"
| "ApiKey_as_i16 Api_AddPartitionsToTxn = 24"
| "ApiKey_as_i16 Api_AddOffsetsToTxn = 25"
| "ApiKey_as_i16 Api_EndTxn = 26"
| "ApiKey_as_i16 Api_TxnOffsetCommit = 28"
| "ApiKey_as_i16 Api_SaslHandshake = 17"
| "ApiKey_as_i16 Api_SaslAuthenticate = 36"

definition ApiKey_from_i16 :: "i16 \<Rightarrow> ApiKey option" where
  "ApiKey_from_i16 key =
     (if key = 0 then Some Api_Produce
      else if key = 1 then Some Api_Fetch
      else if key = 2 then Some Api_ListOffsets
      else if key = 3 then Some Api_Metadata
      else if key = 8 then Some Api_OffsetCommit
      else if key = 9 then Some Api_OffsetFetch
      else if key = 10 then Some Api_FindCoordinator
      else if key = 11 then Some Api_JoinGroup
      else if key = 12 then Some Api_Heartbeat
      else if key = 13 then Some Api_LeaveGroup
      else if key = 14 then Some Api_SyncGroup
      else if key = 15 then Some Api_DescribeGroups
      else if key = 16 then Some Api_ListGroups
      else if key = 18 then Some Api_ApiVersions
      else if key = 19 then Some Api_CreateTopics
      else if key = 20 then Some Api_DeleteTopics
      else if key = 22 then Some Api_InitProducerId
      else if key = 24 then Some Api_AddPartitionsToTxn
      else if key = 25 then Some Api_AddOffsetsToTxn
      else if key = 26 then Some Api_EndTxn
      else if key = 28 then Some Api_TxnOffsetCommit
      else if key = 17 then Some Api_SaslHandshake
      else if key = 36 then Some Api_SaslAuthenticate
      else None)"

text \<open>
  \<open>flex_start\<close> is the \<^verbatim>\<open>match\<close> of \<open>is_flexible_version\<close>; keys it does not list are never
  flexible. The comparison is signed.
\<close>

definition flex_start :: "i16 \<Rightarrow> i16 option" where
  "flex_start api_key =
     (if api_key = 0 then Some 9
      else if api_key = 1 then Some 12
      else if api_key = 2 then Some 6
      else if api_key = 3 then Some 9
      else if api_key = 8 then Some 8
      else if api_key = 9 then Some 6
      else if api_key = 10 then Some 3
      else if api_key = 11 then Some 6
      else if api_key = 12 then Some 4
      else if api_key = 13 then Some 4
      else if api_key = 14 then Some 4
      else if api_key = 15 then Some 5
      else if api_key = 16 then Some 3
      else if api_key = 18 then Some 3
      else if api_key = 19 then Some 5
      else if api_key = 20 then Some 4
      else if api_key = 22 then Some 2
      else if api_key = 24 then Some 3
      else if api_key = 25 then Some 3
      else if api_key = 26 then Some 3
      else if api_key = 28 then Some 3
      else if api_key = 17 then Some 32767
      else if api_key = 36 then Some 2
      else None)"

definition is_flexible_version :: "i16 \<Rightarrow> i16 \<Rightarrow> bool" where
  "is_flexible_version api_key api_version =
     (case flex_start api_key of None \<Rightarrow> False | Some start \<Rightarrow> sint start \<le> sint api_version)"

record ApiVersionRange =
  avr_api_key :: i16
  avr_min_version :: i16
  avr_max_version :: i16

abbreviation range_of :: "ApiKey \<Rightarrow> i16 \<Rightarrow> i16 \<Rightarrow> ApiVersionRange" where
  "range_of k lo hi \<equiv> \<lparr>avr_api_key = ApiKey_as_i16 k, avr_min_version = lo, avr_max_version = hi\<rparr>"

definition supported_api_versions :: "ApiVersionRange list" where
  "supported_api_versions =
     [range_of Api_Produce 0 9,
      range_of Api_Fetch 0 12,
      range_of Api_ListOffsets 0 7,
      range_of Api_Metadata 0 12,
      range_of Api_OffsetCommit 0 8,
      range_of Api_OffsetFetch 0 8,
      range_of Api_FindCoordinator 0 4,
      range_of Api_JoinGroup 0 9,
      range_of Api_Heartbeat 0 4,
      range_of Api_LeaveGroup 0 5,
      range_of Api_SyncGroup 0 5,
      range_of Api_DescribeGroups 0 5,
      range_of Api_ListGroups 0 4,
      range_of Api_ApiVersions 0 3,
      range_of Api_CreateTopics 0 7,
      range_of Api_DeleteTopics 0 6,
      range_of Api_InitProducerId 0 3,
      range_of Api_AddPartitionsToTxn 0 3,
      range_of Api_AddOffsetsToTxn 0 3,
      range_of Api_EndTxn 0 3,
      range_of Api_TxnOffsetCommit 0 3,
      range_of Api_SaslHandshake 0 1,
      range_of Api_SaslAuthenticate 0 2]"

section \<open>Record attributes\<close>

datatype CompressionType = CT_None | CT_Gzip | CT_Snappy | CT_Lz4 | CT_Zstd

definition CompressionType_from_attributes :: "i16 \<Rightarrow> CompressionType" where
  "CompressionType_from_attributes attributes =
     (let c = attributes AND 0x07 in
      if c = 0 then CT_None else if c = 1 then CT_Gzip else if c = 2 then CT_Snappy
      else if c = 3 then CT_Lz4 else if c = 4 then CT_Zstd else CT_None)"

datatype TimestampType = CreateTime | LogAppendTime

definition TimestampType_from_attributes :: "i16 \<Rightarrow> TimestampType" where
  "TimestampType_from_attributes attributes =
     (if attributes AND 0x08 \<noteq> 0 then LogAppendTime else CreateTime)"

section \<open>Consistency of the tables\<close>

lemma from_as_i16 [simp]: "ApiKey_from_i16 (ApiKey_as_i16 a) = Some a"
  by (cases a) (simp_all add: ApiKey_from_i16_def)

lemma from_i16_Some: "ApiKey_from_i16 k = Some a \<Longrightarrow> k = ApiKey_as_i16 a"
  by (auto simp: ApiKey_from_i16_def split: if_splits)

text \<open>
  The protocol tables agree with each other: a key is recognised exactly when it is the code of
  an API, every API is advertised exactly once with a non-empty range starting at version 0, and
  nothing else is advertised.
\<close>

lemma api_tables_consistent:
  "(ApiKey_from_i16 k = Some a \<longleftrightarrow> k = ApiKey_as_i16 a)
   \<and> distinct (map avr_api_key supported_api_versions)
   \<and> set (map avr_api_key supported_api_versions) = range ApiKey_as_i16
   \<and> list_all (\<lambda>r. avr_min_version r = 0 \<and> 0 \<le> sint (avr_max_version r)) supported_api_versions"
proof (intro conjI)
  show "ApiKey_from_i16 k = Some a \<longleftrightarrow> k = ApiKey_as_i16 a" using from_i16_Some by auto
  show "distinct (map avr_api_key supported_api_versions)" by (simp add: supported_api_versions_def)
  have "ApiKey_as_i16 a \<in> set (map avr_api_key supported_api_versions)" for a
    by (cases a) (simp_all add: supported_api_versions_def)
  moreover have "set (map avr_api_key supported_api_versions) \<subseteq> range ApiKey_as_i16"
    by (auto simp: supported_api_versions_def simp del: ApiKey_as_i16.simps)
  ultimately show "set (map avr_api_key supported_api_versions) = range ApiKey_as_i16" by blast
  show "list_all (\<lambda>r. avr_min_version r = 0 \<and> 0 \<le> sint (avr_max_version r)) supported_api_versions"
    by (simp add: supported_api_versions_def)
qed

end
