(* ===== verification/Kafka_Codec.thy ===== *)
theory Kafka_Codec
  imports Kafka_Types Varint
begin

text \<open>
  Framing and primitive types of the Kafka protocol, \<^verbatim>\<open>streamhouse-kafka/src/codec.rs\<close>: the
  length-prefixed frame codec, the request and response headers, and the readers and writers of
  strings, byte arrays, arrays, varints and tagged fields. A \<^verbatim>\<open>BytesMut\<close> cursor is the list of the
  bytes left; a Rust \<^verbatim>\<open>String\<close> is the list of its UTF-8 bytes, and \<open>utf8_valid\<close> is what
  \<^verbatim>\<open>String::from_utf8\<close> accepts. Messages of \<^verbatim>\<open>from_utf8\<close> errors are cut to the program's own text.
\<close>

section \<open>What the parsers use of the standard library\<close>

definition utf8_cont :: "u8 \<Rightarrow> bool" where "utf8_cont b = (0x80 \<le> b \<and> b \<le> 0xBF)"

fun utf8_valid :: "bytes \<Rightarrow> bool" where
  "utf8_valid [] = True"
| "utf8_valid (b # bs) =
     (if b \<le> 0x7F then utf8_valid bs
      else if 0xC2 \<le> b \<and> b \<le> 0xDF then
        (case bs of c1 # r \<Rightarrow> utf8_cont c1 \<and> utf8_valid r | _ \<Rightarrow> False)
      else if 0xE0 \<le> b \<and> b \<le> 0xEF then
        (case bs of c1 # c2 # r \<Rightarrow>
           utf8_cont c1 \<and> utf8_cont c2 \<and> (b = 0xE0 \<longrightarrow> 0xA0 \<le> c1) \<and> (b = 0xED \<longrightarrow> c1 \<le> 0x9F) \<and> utf8_valid r
         | _ \<Rightarrow> False)
      else if 0xF0 \<le> b \<and> b \<le> 0xF4 then
        (case bs of c1 # c2 # c3 # r \<Rightarrow>
           utf8_cont c1 \<and> utf8_cont c2 \<and> utf8_cont c3 \<and> (b = 0xF0 \<longrightarrow> 0x90 \<le> c1) \<and> (b = 0xF4 \<longrightarrow> c1 \<le> 0x8F)
           \<and> utf8_valid r
         | _ \<Rightarrow> False)
      else False)"

text \<open>
  \<^verbatim>\<open>Vec::with_capacity(n)\<close> for elements of \<open>sz\<close> bytes panics when the allocation would exceed
  \<^verbatim>\<open>isize::MAX\<close>.
\<close>

definition vec_with_capacity :: "nat \<Rightarrow> nat \<Rightarrow> (KafkaError, unit) result" where
  "vec_with_capacity sz n = (if n * sz \<le> 2 ^ 63 - 1 then Ok () else Panic)"

definition get_i16 :: "bytes \<Rightarrow> (KafkaError, i16 \<times> bytes) result" where "get_i16 = get_be 2"
definition get_i32 :: "bytes \<Rightarrow> (KafkaError, i32 \<times> bytes) result" where "get_i32 = get_be 4"

abbreviation put_i16 :: "i16 \<Rightarrow> bytes" where "put_i16 \<equiv> be_bytes 2"
abbreviation put_i32 :: "i32 \<Rightarrow> bytes" where "put_i32 \<equiv> be_bytes 4"

section \<open>Frames\<close>

record KafkaCodec =
  max_frame_size :: u64

definition MAX_FRAME_SIZE :: u64 where "MAX_FRAME_SIZE = 100 * 1024 * 1024"

definition with_max_frame_size :: "u64 \<Rightarrow> KafkaCodec" where
  "with_max_frame_size n = \<lparr>max_frame_size = n\<rparr>"

definition KafkaCodec_new :: KafkaCodec where
  "KafkaCodec_new = \<lparr>max_frame_size = MAX_FRAME_SIZE\<rparr>"

definition frame_too_big :: "u64 \<Rightarrow> u64 \<Rightarrow> KafkaError" where
  "frame_too_big len mx =
     Protocol (''Frame size '' @ show_nat (unat len) @ '' exceeds maximum '' @ show_nat (unat mx))"

text \<open>\<^verbatim>\<open>get_i32() as usize\<close> sign-extends, so a negative length is a huge one.\<close>

definition decode_frame :: "KafkaCodec \<Rightarrow> bytes \<Rightarrow> (KafkaError, bytes option \<times> bytes) result" where
  "decode_frame codec src =
     (if length src < 4 then Ok (None, src)
      else rbind (get_i32 (take 4 src)) (\<lambda>(n, _).
        let len = (scast n :: u64) in
        if max_frame_size codec < len then Err (frame_too_big len (max_frame_size codec))
        else let total_length = 4 + len in
          if length src < unat total_length then Ok (None, src)
          else rbind (get_bytes 4 src) (\<lambda>(_, src').
            rbind (get_bytes (unat len) src') (\<lambda>(payload, src''). Ok (Some payload, src'')))))"

definition encode_frame :: "KafkaCodec \<Rightarrow> bytes \<Rightarrow> bytes \<Rightarrow> (KafkaError, bytes) result" where
  "encode_frame codec item dst =
     (if unat (max_frame_size codec) < length item
      then Err (frame_too_big (of_nat (length item)) (max_frame_size codec))
      else Ok (dst @ put_i32 (of_nat (length item)) @ item))"

section \<open>Varints\<close>

fun parse_varint_loop :: "u64 \<Rightarrow> nat \<Rightarrow> bytes \<Rightarrow> (KafkaError, u64 \<times> bytes) result" where
  "parse_varint_loop acc sh [] = Err (Protocol ''Buffer too short for varint'')"
| "parse_varint_loop acc sh (byte # buf) =
     (let acc' = acc OR push_bit sh (ucast (byte AND 0x7F)) in
      if byte AND 0x80 = 0 then Ok (acc', buf)
      else if sh + 7 \<ge> 64 then Err (Protocol ''Varint too long'')
      else parse_varint_loop acc' (sh + 7) buf)"

definition parse_unsigned_varint :: "bytes \<Rightarrow> (KafkaError, u64 \<times> bytes) result" where
  "parse_unsigned_varint buf = parse_varint_loop 0 0 buf"

definition parse_signed_varint :: "bytes \<Rightarrow> (KafkaError, i64 \<times> bytes) result" where
  "parse_signed_varint buf = rbind (parse_unsigned_varint buf)
     (\<lambda>(uns, rest). Ok (drop_bit 1 uns XOR (- (uns AND 1)), rest))"

function encode_unsigned_varint :: "u64 \<Rightarrow> bytes" where
  "encode_unsigned_varint value =
     (let byte = ucast (value AND 0x7F) :: u8; value' = drop_bit 7 value;
          byte' = (if value' \<noteq> 0 then byte OR 0x80 else byte)
      in byte' # (if value' = 0 then [] else encode_unsigned_varint value'))"
  by pat_completeness auto
termination
  by (relation "measure unat") (auto simp: drop_bit_7_less)

declare encode_unsigned_varint.simps [simp del]

definition encode_signed_varint :: "i64 \<Rightarrow> bytes" where
  "encode_signed_varint value =
     encode_unsigned_varint (push_bit 1 value XOR signed_drop_bit 63 value)"

section \<open>Strings and byte arrays\<close>

text \<open>\<^verbatim>\<open>String::from_utf8(..).map_err(..)\<close>, with the message's own text.\<close>

definition from_utf8 :: "string \<Rightarrow> bytes \<Rightarrow> (KafkaError, bytes) result" where
  "from_utf8 what bs = (if utf8_valid bs then Ok bs else Err (Protocol (''Invalid UTF-8 in '' @ what)))"

definition parse_nullable_string :: "bytes \<Rightarrow> (KafkaError, bytes option \<times> bytes) result" where
  "parse_nullable_string buf =
     (if length buf < 2 then Err (Protocol ''Buffer too short for string'')
      else rbind (get_i16 buf) (\<lambda>(n, buf).
        if sint n < 0 then Ok (None, buf)
        else let len = unat n in
          if length buf < len then Err (Protocol (''Buffer too short for string of length '' @ show_nat len))
          else rbind (get_bytes len buf) (\<lambda>(bs, buf).
            rbind (from_utf8 ''string'' bs) (\<lambda>s. Ok (Some s, buf)))))"

definition parse_compact_nullable_string :: "bytes \<Rightarrow> (KafkaError, bytes option \<times> bytes) result" where
  "parse_compact_nullable_string buf =
     rbind (parse_unsigned_varint buf) (\<lambda>(n, buf).
       if n = 0 then Ok (None, buf)
       else let len = unat n - 1 in
         if length buf < len then Err (Protocol (''Buffer too short for compact string of length '' @ show_nat len))
         else rbind (get_bytes len buf) (\<lambda>(bs, buf).
           rbind (from_utf8 ''compact string'' bs) (\<lambda>s. Ok (Some s, buf))))"

definition parse_string :: "bytes \<Rightarrow> (KafkaError, bytes \<times> bytes) result" where
  "parse_string buf = rbind (parse_nullable_string buf)
     (\<lambda>(s, buf). rbind (ok_or (Protocol ''Expected non-null string'') s) (\<lambda>s. Ok (s, buf)))"

definition parse_compact_string :: "bytes \<Rightarrow> (KafkaError, bytes \<times> bytes) result" where
  "parse_compact_string buf = rbind (parse_compact_nullable_string buf)
     (\<lambda>(s, buf). rbind (ok_or (Protocol ''Expected non-null compact string'') s) (\<lambda>s. Ok (s, buf)))"

definition parse_nullable_bytes :: "bytes \<Rightarrow> (KafkaError, bytes option \<times> bytes) result" where
  "parse_nullable_bytes buf =
     (if length buf < 4 then Err (Protocol ''Buffer too short for bytes'')
      else rbind (get_i32 buf) (\<lambda>(n, buf).
        if sint n < 0 then Ok (None, buf)
        else let len = unat n in
          if length buf < len then Err (Protocol (''Buffer too short for bytes of length '' @ show_nat len))
          else rbind (get_bytes len buf) (\<lambda>(bs, buf). Ok (Some bs, buf))))"

definition parse_compact_nullable_bytes :: "bytes \<Rightarrow> (KafkaError, bytes option \<times> bytes) result" where
  "parse_compact_nullable_bytes buf =
     rbind (parse_unsigned_varint buf) (\<lambda>(n, buf).
       if n = 0 then Ok (None, buf)
       else let len = unat n - 1 in
         if length buf < len then Err (Protocol (''Buffer too short for compact bytes of length '' @ show_nat len))
         else rbind (get_bytes len buf) (\<lambda>(bs, buf). Ok (Some bs, buf)))"

definition encode_nullable_string :: "bytes option \<Rightarrow> bytes" where
  "encode_nullable_string s =
     (case s of Some s \<Rightarrow> put_i16 (of_nat (length s)) @ s | None \<Rightarrow> put_i16 (- 1))"

definition encode_compact_nullable_string :: "bytes option \<Rightarrow> bytes" where
  "encode_compact_nullable_string s =
     (case s of Some s \<Rightarrow> encode_unsigned_varint (of_nat (length s + 1)) @ s
      | None \<Rightarrow> encode_unsigned_varint 0)"

definition encode_string :: "bytes \<Rightarrow> bytes" where
  "encode_string s = put_i16 (of_nat (length s)) @ s"

definition encode_compact_string :: "bytes \<Rightarrow> bytes" where
  "encode_compact_string s = encode_unsigned_varint (of_nat (length s + 1)) @ s"

definition encode_nullable_bytes :: "bytes option \<Rightarrow> bytes" where
  "encode_nullable_bytes b =
     (case b of Some b \<Rightarrow> put_i32 (of_nat (length b)) @ b | None \<Rightarrow> put_i32 (- 1))"

definition encode_compact_nullable_bytes :: "bytes option \<Rightarrow> bytes" where
  "encode_compact_nullable_bytes b =
     (case b of Some b \<Rightarrow> encode_unsigned_varint (of_nat (length b + 1)) @ b
      | None \<Rightarrow> encode_unsigned_varint 0)"

section \<open>Arrays and tagged fields\<close>

text \<open>\<open>sz\<close> is the size in memory of one parsed element, which \<^verbatim>\<open>Vec::with_capacity\<close> multiplies.\<close>

definition parse_array ::
  "nat \<Rightarrow> (bytes \<Rightarrow> (KafkaError, 'a \<times> bytes) result) \<Rightarrow> bytes \<Rightarrow> (KafkaError, 'a list \<times> bytes) result" where
  "parse_array sz parse_element buf =
     (if length buf < 4 then Err (Protocol ''Buffer too short for array'')
      else rbind (get_i32 buf) (\<lambda>(n, buf).
        if sint n < 0 then Ok ([], buf)
        else rbind (vec_with_capacity sz (unat n)) (\<lambda>_. get_many parse_element (unat n) buf)))"

definition parse_compact_array ::
  "nat \<Rightarrow> (bytes \<Rightarrow> (KafkaError, 'a \<times> bytes) result) \<Rightarrow> bytes \<Rightarrow> (KafkaError, 'a list \<times> bytes) result" where
  "parse_compact_array sz parse_element buf =
     rbind (parse_unsigned_varint buf) (\<lambda>(n, buf).
       if n = 0 then Ok ([], buf)
       else rbind (vec_with_capacity sz (unat n - 1)) (\<lambda>_. get_many parse_element (unat n - 1) buf))"

fun skip_fields :: "nat \<Rightarrow> bytes \<Rightarrow> (KafkaError, unit \<times> bytes) result" where
  "skip_fields 0 buf = Ok ((), buf)"
| "skip_fields (Suc k) buf =
     rbind (parse_unsigned_varint buf) (\<lambda>(_, buf).
       rbind (parse_unsigned_varint buf) (\<lambda>(sz, buf).
         if length buf < unat sz then Err (Protocol ''Buffer too short for tagged field'')
         else skip_fields k (drop (unat sz) buf)))"

definition skip_tagged_fields :: "bytes \<Rightarrow> (KafkaError, unit \<times> bytes) result" where
  "skip_tagged_fields buf = rbind (parse_unsigned_varint buf) (\<lambda>(n, buf). skip_fields (unat n) buf)"

definition encode_empty_tagged_fields :: bytes where
  "encode_empty_tagged_fields = encode_unsigned_varint 0"

section \<open>Headers\<close>

record RequestHeader =
  rh_api_key :: i16
  rh_api_version :: i16
  rh_correlation_id :: i32
  rh_client_id :: "bytes option"

definition RequestHeader_parse :: "bytes \<Rightarrow> (KafkaError, RequestHeader \<times> bytes) result" where
  "RequestHeader_parse buf =
     (if length buf < 8 then Err (Protocol ''Request header too short'')
      else rbind (get_i16 buf) (\<lambda>(api_key, buf).
        rbind (get_i16 buf) (\<lambda>(api_version, buf).
        rbind (get_i32 buf) (\<lambda>(correlation_id, buf).
        let flexible = is_flexible_version api_key api_version in
        rbind (if flexible then parse_compact_nullable_string buf else parse_nullable_string buf)
          (\<lambda>(client_id, buf).
        rbind (if flexible then skip_tagged_fields buf else Ok ((), buf)) (\<lambda>(_, buf).
          Ok (\<lparr>rh_api_key = api_key, rh_api_version = api_version,
               rh_correlation_id = correlation_id, rh_client_id = client_id\<rparr>, buf)))))))"

definition ResponseHeader_encode :: "i32 \<Rightarrow> bytes" where
  "ResponseHeader_encode correlation_id = put_i32 correlation_id"

definition ResponseHeader_encode_flexible :: "i32 \<Rightarrow> bytes" where
  "ResponseHeader_encode_flexible correlation_id = put_i32 correlation_id @ encode_empty_tagged_fields"

end
