(* ===== verification/Kafka_Wire.thy ===== *)
theory Kafka_Wire
  imports Kafka_Codec
begin

text \<open>
  Correctness of the wire codec of \<^verbatim>\<open>streamhouse-kafka/src/codec.rs\<close>: its varints are those of
  \<^verbatim>\<open>streamhouse-core\<close>, every writer is a prefix code its reader inverts, the request header reader
  inverts the wire format of a header and never panics, and framing does not depend on how the
  transport cuts the stream.
\<close>

section \<open>The two varint implementations agree\<close>

fun varint_error :: "error \<Rightarrow> KafkaError" where
  "varint_error (InvalidSegment m) =
     Protocol (if m = ''Truncated varint'' then ''Buffer too short for varint'' else ''Varint too long'')"
| "varint_error _ = Protocol []"

lemma encode_unsigned_varint_eq: "encode_unsigned_varint v = encode_varint_u64 v"
proof (induction v rule: encode_unsigned_varint.induct)
  case (1 v)
  then show ?case
    by (subst encode_unsigned_varint.simps, subst encode_varint_u64.simps) (simp add: Let_def)
qed

lemma parse_varint_loop_eq: "parse_varint_loop acc sh buf = map_err varint_error (decode_varint_loop acc sh buf)"
  by (induction acc sh buf rule: parse_varint_loop.induct) (simp_all add: Let_def)

lemma parse_unsigned_varint_eq: "parse_unsigned_varint buf = map_err varint_error (decode_varint_u64 buf)"
  by (simp add: parse_unsigned_varint_def decode_varint_u64_def parse_varint_loop_eq)

lemma zigzag_decode_eq: "drop_bit 1 uns XOR (- (uns AND 1)) = unzigzag (uns :: u64)"
proof (cases "bit uns 0")
  case True
  then have "uns AND 1 = 1" by (simp add: and_one_eq bit_0 odd_iff_mod_2_eq_one)
  then show ?thesis by (simp add: unzigzag_def Let_def)
next
  case False
  then have "uns AND 1 = 0" using and_1_bit by blast
  then show ?thesis by (simp add: unzigzag_def)
qed

lemma parse_signed_varint_eq: "parse_signed_varint buf = map_err varint_error (decode_varint buf)"
  by (cases "decode_varint_u64 buf")
    (auto simp: parse_signed_varint_def decode_varint_def parse_unsigned_varint_eq zigzag_decode_eq [simplified])

lemma encode_signed_varint_eq: "encode_signed_varint v = encode_varint v"
  by (simp add: encode_signed_varint_def encode_varint_def encode_unsigned_varint_eq zigzag_def)

section \<open>Prefix codes\<close>

text \<open>
  An element a Kafka array can hold: a prefix code with the crate's error type. Arrays of it, in the
  classic and in the compact format, are prefix codes again.
\<close>

definition array_bytes :: "('a \<Rightarrow> bytes) \<Rightarrow> 'a list \<Rightarrow> bytes" where
  "array_bytes enc xs = put_i32 (of_nat (length xs)) @ concat (map enc xs)"

definition compact_array_bytes :: "('a \<Rightarrow> bytes) \<Rightarrow> 'a list \<Rightarrow> bytes" where
  "compact_array_bytes enc xs = encode_unsigned_varint (of_nat (length xs + 1)) @ concat (map enc xs)"

lemma parse_unsigned_varint_enc [codec_simps]:
  "parse_unsigned_varint (encode_unsigned_varint v @ rest) = Ok (v, rest)"
  by (simp add: parse_unsigned_varint_eq encode_unsigned_varint_eq codec_simps)

lemma get_i_put [codec_simps]:
  "get_i16 (put_i16 v @ rest) = Ok (v, rest)" "get_i32 (put_i32 w @ rest) = Ok (w, rest)"
  by (simp_all add: get_i16_def get_i32_def get_be_put)

lemma sint_of_nat_small [codec_simps]:
  "n < 2 ^ 15 \<Longrightarrow> sint (of_nat n :: i16) = int n" "m < 2 ^ 31 \<Longrightarrow> sint (of_nat m :: i32) = int m"
  by (simp_all add: signed_of_nat signed_take_bit_int_eq_self)

lemma unat_of_nat_small [codec_simps]:
  "n < 2 ^ 15 \<Longrightarrow> unat (of_nat n :: i16) = n" "m < 2 ^ 31 \<Longrightarrow> unat (of_nat m :: i32) = m"
  by (simp_all add: of_nat_less_self)

locale wire_element = prefix_codec enc dec valid
  for enc :: "'a \<Rightarrow> bytes" and dec :: "bytes \<Rightarrow> (KafkaError, 'a \<times> bytes) result" and valid :: "'a \<Rightarrow> bool"
begin

lemma parse_array_enc:
  assumes "\<And>x. x \<in> set xs \<Longrightarrow> valid x" and "length xs < 2 ^ 31" and "length xs * sz < 2 ^ 63"
  shows "parse_array sz dec (array_bytes enc xs @ rest) = Ok (xs, rest)"
  using assms get_many_enc [of xs rest] sint_of_nat_small(2) [OF assms(2)] unat_of_nat_small(2) [OF assms(2)]
  by (simp add: parse_array_def array_bytes_def codec_simps vec_with_capacity_def)

lemma parse_compact_array_enc:
  assumes "\<And>x. x \<in> set xs \<Longrightarrow> valid x" and "length xs + 1 < 2 ^ 64" and "length xs * sz < 2 ^ 63"
  shows "parse_compact_array sz dec (compact_array_bytes enc xs @ rest) = Ok (xs, rest)"
  using assms of_nat_u64_eq_0 [of "length xs + 1"] unat_of_nat_u64 [of "length xs + 1"] get_many_enc [of xs rest]
  by (simp add: parse_compact_array_def compact_array_bytes_def codec_simps vec_with_capacity_def del: of_nat_Suc of_nat_add)

end

definition short_string :: "bytes \<Rightarrow> bool" where "short_string s = (utf8_valid s \<and> length s < 2 ^ 15)"
definition long_string :: "bytes \<Rightarrow> bool" where "long_string s = (utf8_valid s \<and> length s + 1 < 2 ^ 64)"

lemmas compact_length_simps = of_nat_u64_eq_0 [of "length s + 1" for s] unat_of_nat_u64 [of "length s + 1" for s]

lemma parse_nullable_string_enc [codec_simps]:
  "pred_option short_string s \<Longrightarrow> parse_nullable_string (encode_nullable_string s @ rest) = Ok (s, rest)"
  by (cases s) (auto simp: parse_nullable_string_def encode_nullable_string_def codec_simps short_string_def from_utf8_def)

lemma parse_compact_nullable_string_enc [codec_simps]:
  "pred_option long_string s \<Longrightarrow> parse_compact_nullable_string (encode_compact_nullable_string s @ rest) = Ok (s, rest)"
  by (cases s) (auto simp: parse_compact_nullable_string_def encode_compact_nullable_string_def codec_simps
      long_string_def from_utf8_def compact_length_simps simp del: of_nat_Suc of_nat_add)

interpretation nullable_string: wire_element encode_nullable_string parse_nullable_string "pred_option short_string"
  by unfold_locales (rule parse_nullable_string_enc)

interpretation compact_nullable_string:
  wire_element encode_compact_nullable_string parse_compact_nullable_string "pred_option long_string"
  by unfold_locales (rule parse_compact_nullable_string_enc)

interpretation plain_string: wire_element encode_string parse_string short_string
  using parse_nullable_string_enc [of "Some s" for s]
  by unfold_locales (simp add: parse_string_def encode_string_def encode_nullable_string_def)

interpretation compact_string: wire_element encode_compact_string parse_compact_string long_string
  using parse_compact_nullable_string_enc [of "Some s" for s]
  by unfold_locales (simp add: parse_compact_string_def encode_compact_string_def encode_compact_nullable_string_def)

interpretation nullable_bytes: wire_element encode_nullable_bytes parse_nullable_bytes
    "pred_option (\<lambda>b. length b < 2 ^ 31)"
  by unfold_locales (auto simp: parse_nullable_bytes_def encode_nullable_bytes_def codec_simps split: option.splits)

interpretation compact_nullable_bytes: wire_element encode_compact_nullable_bytes parse_compact_nullable_bytes
    "pred_option (\<lambda>b. length b + 1 < 2 ^ 64)"
  by unfold_locales (auto simp: parse_compact_nullable_bytes_def encode_compact_nullable_bytes_def codec_simps
      compact_length_simps simp del: of_nat_Suc of_nat_add split: option.splits)

interpretation signed_varint: wire_element encode_signed_varint parse_signed_varint "\<lambda>_. True"
  by unfold_locales (simp add: parse_signed_varint_eq encode_signed_varint_eq codec_simps)

section \<open>Tagged fields and headers\<close>

definition tagged_field_bytes :: "u64 \<times> bytes \<Rightarrow> bytes" where
  "tagged_field_bytes f =
     encode_unsigned_varint (fst f) @ encode_unsigned_varint (of_nat (length (snd f))) @ snd f"

definition tagged_bytes :: "(u64 \<times> bytes) list \<Rightarrow> bytes" where
  "tagged_bytes fs = encode_unsigned_varint (of_nat (length fs)) @ concat (map tagged_field_bytes fs)"

definition tags_fit :: "(u64 \<times> bytes) list \<Rightarrow> bool" where
  "tags_fit fs = (length fs < 2 ^ 64 \<and> list_all (\<lambda>f. length (snd f) < 2 ^ 64) fs)"

lemma skip_fields_enc:
  "list_all (\<lambda>f. length (snd f) < 2 ^ 64) fs \<Longrightarrow>
     skip_fields (length fs) (concat (map tagged_field_bytes fs) @ rest) = Ok ((), rest)"
  by (induction fs) (simp_all add: tagged_field_bytes_def codec_simps)

lemma skip_tagged_fields_enc: "tags_fit fs \<Longrightarrow> skip_tagged_fields (tagged_bytes fs @ rest) = Ok ((), rest)"
  by (simp add: skip_tagged_fields_def tagged_bytes_def codec_simps tags_fit_def skip_fields_enc)

text \<open>
  The wire format of a request header, as the reader of the source understands it: in a flexible
  version the client id is a compact string and tagged fields follow.
\<close>

definition header_bytes :: "RequestHeader \<Rightarrow> (u64 \<times> bytes) list \<Rightarrow> bytes" where
  "header_bytes h fs =
     put_i16 (rh_api_key h) @ put_i16 (rh_api_version h) @ put_i32 (rh_correlation_id h)
     @ (if is_flexible_version (rh_api_key h) (rh_api_version h)
        then encode_compact_nullable_string (rh_client_id h) @ tagged_bytes fs
        else encode_nullable_string (rh_client_id h))"

definition header_fits :: "RequestHeader \<Rightarrow> bool" where
  "header_fits h = pred_option (if is_flexible_version (rh_api_key h) (rh_api_version h)
                                then long_string else short_string) (rh_client_id h)"

section \<open>No reader panics\<close>

text \<open>
  \<open>safe_read buf r\<close>: the outcome \<open>r\<close> of reading \<open>buf\<close> is a value with a suffix of the buffer, or an
  error, and not a panic.
\<close>

definition safe_read :: "bytes \<Rightarrow> ('e, 'a \<times> bytes) result \<Rightarrow> bool" where
  "safe_read buf r = (case r of Ok (_, rest) \<Rightarrow> (\<exists>pre. buf = pre @ rest) | Err _ \<Rightarrow> True | Panic \<Rightarrow> False)"

lemma safe_read_simps [simp]:
  "safe_read buf (Ok (a, rest)) \<longleftrightarrow> (\<exists>pre. buf = pre @ rest)" "safe_read buf (Err e)" "\<not> safe_read buf Panic"
  by (simp_all add: safe_read_def)

lemma safe_read_bind:
  assumes "safe_read buf r" and "\<And>a rest. r = Ok (a, rest) \<Longrightarrow> safe_read rest (q a rest)"
  shows "safe_read buf (rbind r (\<lambda>(a, rest). q a rest))"
proof (cases r)
  case (Ok ar)
  obtain a rest where ar: "ar = (a, rest)" by (cases ar)
  with Ok assms(1) obtain pre where pre: "buf = pre @ rest" by auto
  have "safe_read rest (q a rest)" using assms(2) Ok ar by simp
  then show ?thesis using Ok ar pre by (cases "q a rest") (auto intro: exI [of _ "pre @ p" for p])
qed (use assms(1) in simp_all)

lemma safe_read_pure: "f \<noteq> Panic \<Longrightarrow> safe_read buf (rbind f (\<lambda>s. Ok (g s, buf)))"
  by (cases f) auto

lemma suffix_drop: "\<exists>pre. buf = pre @ drop n buf"
  using append_take_drop_id [of n buf] by metis

lemma safe_read_get_bytes: "n \<le> length buf \<Longrightarrow> safe_read buf (get_bytes n buf)"
  by (simp add: get_bytes_def suffix_drop)

lemma safe_read_get_be: "n \<le> length buf \<Longrightarrow> safe_read buf (get_be n buf)"
  by (simp add: get_be_def get_bytes_def suffix_drop)

lemma safe_read_varint: "safe_read buf (parse_unsigned_varint buf)"
  using decode_varint_no_panic(1) [of buf]
  by (cases "decode_varint_u64 buf") (auto simp: parse_unsigned_varint_eq dest: decode_u64_consumes)

lemma safe_read_payload:
  assumes "\<And>bs. f bs \<noteq> Panic"
  shows "safe_read buf (if length buf < n then Err e
           else rbind (get_bytes n buf) (\<lambda>(bs, buf). rbind (f bs) (\<lambda>s. Ok (g s, buf))))"
  using assms by (auto intro!: safe_read_bind safe_read_get_bytes safe_read_pure)

lemma from_utf8_no_panic: "from_utf8 w bs \<noteq> Panic"
  by (simp add: from_utf8_def)

lemma safe_read_nullable_string: "safe_read buf (parse_nullable_string buf)"
  unfolding parse_nullable_string_def get_i16_def Let_def
  by (auto intro!: safe_read_bind safe_read_get_be safe_read_get_bytes safe_read_pure from_utf8_no_panic)

lemma safe_read_compact_nullable_string: "safe_read buf (parse_compact_nullable_string buf)"
  unfolding parse_compact_nullable_string_def Let_def
  by (auto intro!: safe_read_bind safe_read_varint safe_read_get_bytes safe_read_pure from_utf8_no_panic)

lemma ok_or_no_panic: "ok_or e a \<noteq> Panic"
  by (cases a) auto

lemma safe_read_strings:
  "safe_read buf (parse_string buf)" "safe_read buf (parse_compact_string buf)"
  unfolding parse_string_def parse_compact_string_def
  by (auto intro!: safe_read_bind safe_read_nullable_string safe_read_compact_nullable_string safe_read_pure ok_or_no_panic)

lemma safe_read_bytes:
  "safe_read buf (parse_nullable_bytes buf)" "safe_read buf (parse_compact_nullable_bytes buf)"
  unfolding parse_nullable_bytes_def parse_compact_nullable_bytes_def get_i32_def Let_def
  by (auto intro!: safe_read_bind safe_read_varint safe_read_get_be safe_read_get_bytes)

lemma safe_read_drop: "safe_read (drop n buf) r \<Longrightarrow> safe_read buf r"
proof (cases r)
  case (Ok ar)
  obtain a rest where ar: "ar = (a, rest)" by (cases ar)
  assume "safe_read (drop n buf) r"
  then obtain pre where "drop n buf = pre @ rest" using Ok ar by auto
  then have "buf = (take n buf @ pre) @ rest" using append_take_drop_id [of n buf] by simp
  then show ?thesis unfolding Ok ar safe_read_simps by (rule exI)
qed simp_all

lemma safe_read_skip_fields: "safe_read buf (skip_fields k buf)"
proof (induction k arbitrary: buf)
  case (Suc k)
  have "safe_read b (skip_fields k (drop n b))" for b n
    by (rule safe_read_drop [OF Suc.IH])
  then show ?case by (auto intro!: safe_read_bind safe_read_varint)
qed simp

lemma safe_read_tagged: "safe_read buf (skip_tagged_fields buf)"
  unfolding skip_tagged_fields_def by (auto intro!: safe_read_bind safe_read_varint safe_read_skip_fields)

lemma get_be_length: "get_be n buf = Ok (a, rest) \<Longrightarrow> length rest = length buf - n"
  by (auto simp: get_be_def get_bytes_def rbind_eq_Ok split: if_splits)

lemma safe_read_header: "safe_read buf (RequestHeader_parse buf)"
  unfolding RequestHeader_parse_def get_i16_def get_i32_def Let_def
  by (auto intro!: safe_read_bind safe_read_get_be safe_read_nullable_string safe_read_compact_nullable_string
      safe_read_tagged dest!: get_be_length)

section \<open>Frames over a stream\<close>

text \<open>
  \<open>drain\<close> is what a framed transport does with its buffer: it calls the decoder until no whole frame is
  left, keeps the rest for the next chunk, and stops at an error.
\<close>

lemma decode_frame_shrinks: "decode_frame codec src = Ok (Some p, src') \<Longrightarrow> length src' < length src"
  by (auto simp: decode_frame_def Let_def get_bytes_def get_i32_def get_be_def split: if_splits)

function drain :: "KafkaCodec \<Rightarrow> bytes \<Rightarrow> (KafkaError, bytes list \<times> bytes) result" where
  "drain codec src =
     (case decode_frame codec src of
        Ok (Some p, src') \<Rightarrow> rbind (drain codec src') (\<lambda>(ps, rest). Ok (p # ps, rest))
      | Ok (None, src') \<Rightarrow> Ok ([], src')
      | Err e \<Rightarrow> Err e
      | Panic \<Rightarrow> Panic)"
  by pat_completeness auto
termination
  by (relation "measure (\<lambda>(codec, src). length src)") (auto simp: decode_frame_shrinks)

declare drain.simps [simp del]

fun encode_frames :: "KafkaCodec \<Rightarrow> bytes list \<Rightarrow> bytes \<Rightarrow> (KafkaError, bytes) result" where
  "encode_frames codec [] dst = Ok dst"
| "encode_frames codec (f # fs) dst = rbind (encode_frame codec f dst) (encode_frames codec fs)"

definition frame_bytes :: "bytes \<Rightarrow> bytes" where
  "frame_bytes f = put_i32 (of_nat (length f)) @ f"

definition frame_fits :: "KafkaCodec \<Rightarrow> bytes \<Rightarrow> bool" where
  "frame_fits codec f = (length f \<le> unat (max_frame_size codec) \<and> length f < 2 ^ 31)"

lemma encode_frames_bytes:
  "list_all (frame_fits codec) fs \<Longrightarrow> encode_frames codec fs dst = Ok (dst @ concat (map frame_bytes fs))"
  by (induction fs arbitrary: dst) (auto simp: encode_frame_def frame_fits_def frame_bytes_def)

lemma scast_length: "n < 2 ^ 31 \<Longrightarrow> scast (of_nat n :: i32) = (of_nat n :: u64)"
  by (simp add: signed_of_nat signed_take_bit_int_eq_self)

lemma frame_length_ok:
  assumes "frame_fits codec f"
  shows "\<not> max_frame_size codec < of_nat (length f)" and "unat (4 + of_nat (length f) :: u64) = 4 + length f"
    and "unat (of_nat (length f) :: u64) = length f"
proof -
  have lt: "length f < 2 ^ 31" using assms by (simp add: frame_fits_def)
  show u: "unat (of_nat (length f) :: u64) = length f" using lt by simp
  show "\<not> max_frame_size codec < of_nat (length f)"
    using assms u by (simp add: frame_fits_def word_less_nat_alt)
  have "(4 + of_nat (length f) :: u64) = of_nat (4 + length f)" by simp
  then show "unat (4 + of_nat (length f) :: u64) = 4 + length f"
    using unat_of_nat_u64 [of "4 + length f"] lt by simp
qed

lemma decode_frame_whole:
  assumes "frame_fits codec f"
  shows "decode_frame codec (frame_bytes f @ rest) = Ok (Some f, rest)"
proof -
  have "get_i32 (take 4 (frame_bytes f @ rest)) = Ok (of_nat (length f), [])"
    using get_i_put(2) [of "of_nat (length f)" "[]"] by (simp add: frame_bytes_def)
  moreover have "get_bytes 4 (frame_bytes f @ rest) = (Ok (put_i32 (of_nat (length f)), f @ rest) :: (KafkaError, _) result)"
    by (simp add: frame_bytes_def get_bytes_append)
  ultimately show ?thesis
    using assms frame_length_ok [OF assms]
    by (simp add: decode_frame_def Let_def scast_length frame_fits_def codec_simps) (simp add: frame_bytes_def)
qed

lemma decode_frame_part:
  assumes "frame_fits codec f" and "src @ tail = frame_bytes f @ rest" and "length src < length (frame_bytes f)"
  shows "decode_frame codec src = Ok (None, src)"
proof (cases "length src < 4")
  case False
  have "take 4 src = take 4 (frame_bytes f @ rest)"
    using False arg_cong [OF assms(2), of "take 4"] by simp
  then have "get_i32 (take 4 src) = Ok (of_nat (length f), [])"
    using get_i_put(2) [of "of_nat (length f)" "[]"] by (simp add: frame_bytes_def)
  then show ?thesis
    using assms frame_length_ok [OF assms(1)] False
    by (simp add: decode_frame_def Let_def scast_length frame_fits_def frame_bytes_def)
qed (simp add: decode_frame_def)

lemma drain_whole:
  "list_all (frame_fits codec) fs \<Longrightarrow> drain codec (concat (map frame_bytes fs)) = Ok (fs, [])"
proof (induction fs)
  case Nil
  then show ?case by (subst drain.simps) (simp add: decode_frame_def)
next
  case (Cons f fs)
  then show ?case
    using decode_frame_whole [of codec f "concat (map frame_bytes fs)"] by (subst drain.simps) simp
qed

lemma drain_split:
  assumes "list_all (frame_fits codec) fs" and "a @ b = concat (map frame_bytes fs)"
  shows "\<exists>k r. drain codec a = Ok (take k fs, r) \<and> drain codec (r @ b) = Ok (drop k fs, [])"
  using assms
proof (induction fs arbitrary: a)
  case Nil
  then show ?case using drain_whole [of codec "[]"] by auto
next
  case (Cons f fs)
  then have fit: "frame_fits codec f" by simp
  show ?case
  proof (cases "length a < length (frame_bytes f)")
    case True
    then have "decode_frame codec a = Ok (None, a)"
      using decode_frame_part [OF fit, of a b] Cons.prems(2) by simp
    then have "drain codec a = Ok (take 0 (f # fs), a)" by (subst drain.simps) simp
    then show ?thesis using drain_whole [OF Cons.prems(1)] Cons.prems(2) by (metis drop0)
  next
    case False
    define a' where "a' = drop (length (frame_bytes f)) a"
    have "take (length (frame_bytes f)) a = frame_bytes f"
      using False arg_cong [OF Cons.prems(2), of "take (length (frame_bytes f))"] by simp
    then have a: "a = frame_bytes f @ a'"
      unfolding a'_def using append_take_drop_id [of "length (frame_bytes f)" a] by simp
    with Cons.prems Cons.IH [of a'] obtain k r where
      k: "drain codec a' = Ok (take k fs, r)" "drain codec (r @ b) = Ok (drop k fs, [])" by auto
    have "drain codec a = Ok (take (Suc k) (f # fs), r)"
      using k(1) decode_frame_whole [OF fit, of a'] a by (subst drain.simps) simp
    then show ?thesis using k(2) by (metis drop_Suc_Cons)
  qed
qed

lemma encode_frames_fit:
  "encode_frames codec fs dst = Ok out \<Longrightarrow> unat (max_frame_size codec) < 2 ^ 31 \<Longrightarrow> list_all (frame_fits codec) fs"
  by (induction fs arbitrary: dst) (auto simp: rbind_eq_Ok encode_frame_def frame_fits_def split: if_splits)

section \<open>Properties\<close>

text \<open>
  C36. Framing is independent of how the transport cuts the stream: when frames were written and the
  bytes arrive in two chunks, draining the first chunk yields some of the frames, and draining what
  was kept followed by the second chunk yields exactly the others, with nothing left over.
\<close>

theorem frames_survive_chunking:
  assumes "encode_frames codec fs [] = Ok (a @ b)" and "unat (max_frame_size codec) < 2 ^ 31"
  shows "\<exists>k r. drain codec a = Ok (take k fs, r) \<and> drain codec (r @ b) = Ok (drop k fs, [])"
proof -
  have fit: "list_all (frame_fits codec) fs" using encode_frames_fit assms by blast
  then have "a @ b = concat (map frame_bytes fs)"
    using encode_frames_bytes [of codec fs "[]"] assms(1) by simp
  then show ?thesis using drain_split fit by blast
qed

theorem frames_survive_chunking_witness:
  "\<exists>k r. drain (with_max_frame_size 16) [0, 0, 0, 2, 1] = Ok (take k [[1, 2], [3]], r)
     \<and> drain (with_max_frame_size 16) (r @ [2, 0, 0, 0, 1, 3]) = Ok (drop k [[1, 2], [3]], [])"
proof -
  have four: "le_bytes 4 w = [ucast w, ucast (drop_bit 8 w), ucast (drop_bit 16 w), ucast (drop_bit 24 w)]" for w :: i32
    by (simp add: numeral_eq_Suc)
  have "encode_frames (with_max_frame_size 16) [[1, 2], [3]] [] = Ok ([0, 0, 0, 2, 1] @ [2, 0, 0, 0, 1, 3])"
    by (simp add: with_max_frame_size_def encode_frame_def be_bytes_def four)
  then show ?thesis by (rule frames_survive_chunking) (simp add: with_max_frame_size_def)
qed

text \<open>
  The Kafka crate's varints are those of the core crate: the encoders produce the same bytes, and the
  decoders return the same value and remaining input or fail on the same inputs, for signed and
  unsigned values.
\<close>

theorem kafka_varints_agree_with_core:
  "encode_unsigned_varint v = encode_varint_u64 v \<and> encode_signed_varint i = encode_varint i
   \<and> parse_unsigned_varint buf = map_err varint_error (decode_varint_u64 buf)
   \<and> parse_signed_varint buf = map_err varint_error (decode_varint buf)"
  by (simp add: encode_unsigned_varint_eq encode_signed_varint_eq parse_unsigned_varint_eq parse_signed_varint_eq)

text \<open>
  Every writer of the wire format is inverted by its reader, whatever follows in the buffer: strings
  shorter than 32 KiB in the classic format and any length in the compact one, nullable values, byte
  arrays, and arrays of strings in both formats.
\<close>

theorem wire_values_roundtrip:
  assumes "list_all short_string ss" and "s \<in> set ss" and "length ss < 2 ^ 31" and "length ss * sz < 2 ^ 63"
    and "length b < 2 ^ 31"
  shows "parse_string (encode_string s @ rest) = Ok (s, rest)
    \<and> parse_nullable_string (encode_nullable_string None @ rest) = Ok (None, rest)
    \<and> parse_nullable_string (encode_nullable_string (Some s) @ rest) = Ok (Some s, rest)
    \<and> parse_compact_string (encode_compact_string s @ rest) = Ok (s, rest)
    \<and> parse_nullable_bytes (encode_nullable_bytes (Some b) @ rest) = Ok (Some b, rest)
    \<and> parse_compact_nullable_bytes (encode_compact_nullable_bytes (Some b) @ rest) = Ok (Some b, rest)
    \<and> parse_array sz parse_string (array_bytes encode_string ss @ rest) = Ok (ss, rest)
    \<and> parse_compact_array sz parse_compact_string (compact_array_bytes encode_compact_string ss @ rest) = Ok (ss, rest)"
proof -
  have short: "short_string x" if "x \<in> set ss" for x using assms(1) that by (simp add: list_all_iff)
  then have long: "long_string x" if "x \<in> set ss" for x
    using that by (auto simp: short_string_def long_string_def dest!: short)
  have "parse_string (encode_string s @ rest) = Ok (s, rest)" using plain_string.dec_enc short assms(2) .
  moreover have "parse_nullable_string (encode_nullable_string None @ rest) = Ok (None, rest)"
    and "parse_nullable_string (encode_nullable_string (Some s) @ rest) = Ok (Some s, rest)"
    using short assms(2) by (simp_all add: parse_nullable_string_enc)
  moreover have "parse_compact_string (encode_compact_string s @ rest) = Ok (s, rest)"
    using compact_string.dec_enc long assms(2) .
  moreover have "parse_nullable_bytes (encode_nullable_bytes (Some b) @ rest) = Ok (Some b, rest)"
    using assms(5) by (intro nullable_bytes.dec_enc) simp
  moreover have "parse_compact_nullable_bytes (encode_compact_nullable_bytes (Some b) @ rest) = Ok (Some b, rest)"
    using assms(5) by (intro compact_nullable_bytes.dec_enc) simp
  moreover have "parse_array sz parse_string (array_bytes encode_string ss @ rest) = Ok (ss, rest)"
    using short assms(3,4) by (rule plain_string.parse_array_enc)
  moreover have "parse_compact_array sz parse_compact_string (compact_array_bytes encode_compact_string ss @ rest) = Ok (ss, rest)"
    using long assms(3,4) by (intro compact_string.parse_compact_array_enc) auto
  ultimately show ?thesis by blast
qed

theorem wire_values_roundtrip_witness:
  "parse_array 24 parse_string (array_bytes encode_string [[0x61], [0xC3, 0xA9]] @ [9]) = Ok ([[0x61], [0xC3, 0xA9]], [9])
   \<and> parse_compact_string (encode_compact_string [0xC3, 0xA9] @ [9]) = Ok ([0xC3, 0xA9], [9])"
  using wire_values_roundtrip [of "[[0x61], [0xC3, 0xA9]]" "[0xC3, 0xA9]" 24 "[]" "[9]"]
  by (simp add: short_string_def utf8_cont_def)

text \<open>
  A request header written in the format of its version is read back exactly, and the body starts
  where the header ends: the reader picks the compact or the classic client id by the version table and
  skips every tagged field.
\<close>

theorem request_header_roundtrip:
  assumes "header_fits h" and "tags_fit fs"
  shows "RequestHeader_parse (header_bytes h fs @ body) = Ok (h, body)"
  using assms
  by (simp add: RequestHeader_parse_def header_bytes_def header_fits_def Let_def codec_simps skip_tagged_fields_enc
      split: if_splits)

theorem request_header_roundtrip_witness:
  "RequestHeader_parse (header_bytes \<lparr>rh_api_key = 18, rh_api_version = 3, rh_correlation_id = 7,
      rh_client_id = Some [0x61, 0x62]\<rparr> [(0, [1, 2, 3])] @ [42])
   = Ok (\<lparr>rh_api_key = 18, rh_api_version = 3, rh_correlation_id = 7, rh_client_id = Some [0x61, 0x62]\<rparr>, [42])"
  by (rule request_header_roundtrip)
    (simp_all add: header_fits_def tags_fit_def short_string_def long_string_def)

text \<open>
  On any bytes whatsoever a client can send, the header reader and the string, byte and tagged-field
  readers return a value together with a suffix of their input, or an error; they never panic.
\<close>

theorem wire_readers_never_panic:
  "safe_read buf (RequestHeader_parse buf) \<and> safe_read buf (parse_string buf)
   \<and> safe_read buf (parse_compact_string buf) \<and> safe_read buf (parse_nullable_bytes buf)
   \<and> safe_read buf (parse_compact_nullable_bytes buf) \<and> safe_read buf (skip_tagged_fields buf)"
  by (simp add: safe_read_header safe_read_strings safe_read_bytes safe_read_tagged)

text \<open>
  The classic string writer truncates the length to 16 bits: a string of 32768 to 65535 bytes is
  written with a negative length, which the reader takes for null, leaving the text in the stream as
  if it were the next field.
\<close>

theorem long_string_reads_as_null:
  assumes "2 ^ 15 \<le> length s" and "length s < 2 ^ 16"
  shows "parse_nullable_string (encode_string s @ rest) = Ok (None, s @ rest)"
proof -
  have u: "uint (of_nat (length s) :: i16) = int (length s)"
    using assms(2) by (simp add: uint_nat of_nat_less_self)
  have "(int (length s) + 32768) mod 65536 = (int (length s) - 32768 + 65536) mod 65536" by (simp add: add.commute)
  also have "\<dots> = int (length s) - 32768" using assms by (subst mod_add_self2) simp
  finally have "sint (of_nat (length s) :: i16) = int (length s) - 2 ^ 16"
    using u unfolding sint_uint by (simp add: signed_take_bit_eq_take_bit_shift take_bit_eq_mod)
  then have "sint (of_nat (length s) :: i16) < 0" using assms(2) by simp
  then show ?thesis by (simp add: parse_nullable_string_def encode_string_def codec_simps)
qed

theorem long_string_reads_as_null_witness:
  "parse_nullable_string (encode_string (replicate (2 ^ 15) 0x61) @ [9]) = Ok (None, replicate (2 ^ 15) 0x61 @ [9])"
  by (rule long_string_reads_as_null) simp_all

text \<open>
  A compact array's element count comes from the wire unchecked and is handed to
  \<^verbatim>\<open>Vec::with_capacity\<close>: a count whose allocation exceeds \<^verbatim>\<open>isize::MAX\<close> panics, whatever follows.
\<close>

theorem compact_array_count_panics:
  assumes "2 ^ 63 \<le> (unat n - 1) * sz"
  shows "parse_compact_array sz p (encode_unsigned_varint n @ rest) = Panic"
  using assms by (auto simp: parse_compact_array_def codec_simps vec_with_capacity_def)

theorem compact_array_count_panics_witness:
  "parse_compact_array 24 parse_compact_string (encode_unsigned_varint 0x4000000000000000 @ []) = Panic"
  by (rule compact_array_count_panics) simp

end
