(* ===== verification/Group_Coordinator.thy ===== *)
theory Group_Coordinator
  imports Kafka_Types "HOL-Library.AList" "HOL-Library.Multiset"
begin

text \<open>
  The consumer group coordinator, \<^verbatim>\<open>streamhouse-kafka/src/coordinator.rs\<close>: the group state machine,
  protocol selection, and the JoinGroup, SyncGroup, Heartbeat, LeaveGroup, DescribeGroups and ListGroups
  requests. A request holds the write lock of its group from its first access to its end, so it is one
  step; every handler returns \<^verbatim>\<open>Ok\<close>, so the model returns the response itself.

  A \<^verbatim>\<open>HashMap\<close> (and the \<^verbatim>\<open>DashMap\<close> of the groups) is an association list without duplicate keys; the
  order in which Rust iterates over it is a parameter (\<open>iteration\<close>), of which the properties assume only
  that it is a permutation (\<open>hash_iteration\<close>). The generated UUID and the clock, read once per
  request, are arguments. Generations are \<^verbatim>\<open>i32\<close> and wrap.
\<close>

section \<open>State\<close>

datatype GroupState = GS_Empty | GS_PreparingRebalance | GS_CompletingRebalance | GS_Stable | GS_Dead

fun GroupState_as_str :: "GroupState \<Rightarrow> string" where
  "GroupState_as_str GS_Empty = ''Empty''"
| "GroupState_as_str GS_PreparingRebalance = ''PreparingRebalance''"
| "GroupState_as_str GS_CompletingRebalance = ''CompletingRebalance''"
| "GroupState_as_str GS_Stable = ''Stable''"
| "GroupState_as_str GS_Dead = ''Dead''"

record MemberProtocol =
  mp_name :: string
  mp_metadata :: bytes

record GroupMember =
  gm_member_id :: string
  gm_client_id :: string
  gm_client_host :: string
  gm_session_timeout_ms :: i32
  gm_rebalance_timeout_ms :: i32
  gm_protocol_type :: string
  gm_protocols :: "MemberProtocol list"
  gm_assignment :: bytes
  gm_last_heartbeat :: nat

type_synonym member_map = "(string \<times> GroupMember) list"

record ConsumerGroup =
  cg_group_id :: string
  cg_state :: GroupState
  cg_generation_id :: i32
  cg_protocol_type :: "string option"
  cg_protocol_name :: "string option"
  cg_leader_id :: "string option"
  cg_members :: member_map
  cg_pending_members :: member_map
  cg_state_timestamp :: nat

type_synonym group_map = "((string \<times> string) \<times> ConsumerGroup) list"

record iteration =
  it_members :: "member_map \<Rightarrow> member_map"
  it_votes :: "(string \<times> nat) list \<Rightarrow> (string \<times> nat) list"
  it_groups :: "group_map \<Rightarrow> group_map"

definition hash_iteration :: "iteration \<Rightarrow> bool" where
  "hash_iteration it = ((\<forall>xs. mset (it_members it xs) = mset xs) \<and> (\<forall>xs. mset (it_votes it xs) = mset xs)
     \<and> (\<forall>xs. mset (it_groups it xs) = mset xs))"

definition ConsumerGroup_new :: "nat \<Rightarrow> string \<Rightarrow> ConsumerGroup" where
  "ConsumerGroup_new now group_id =
     \<lparr>cg_group_id = group_id, cg_state = GS_Empty, cg_generation_id = 0, cg_protocol_type = None,
      cg_protocol_name = None, cg_leader_id = None, cg_members = [], cg_pending_members = [],
      cg_state_timestamp = now\<rparr>"

definition transition_to :: "nat \<Rightarrow> GroupState \<Rightarrow> ConsumerGroup \<Rightarrow> ConsumerGroup" where
  "transition_to now new_state g = g\<lparr>cg_state := new_state, cg_state_timestamp := now\<rparr>"

definition member_ids :: "iteration \<Rightarrow> ConsumerGroup \<Rightarrow> string list" where
  "member_ids it g = map fst (it_members it (cg_members g))"

text \<open>\<^verbatim>\<open>*votes.entry(name).or_insert(0) += 1\<close>, for every protocol of every member.\<close>

definition vote :: "string \<Rightarrow> (string \<times> nat) list \<Rightarrow> (string \<times> nat) list" where
  "vote name votes = AList.update name ((case map_of votes name of Some n \<Rightarrow> n | None \<Rightarrow> 0) + 1) votes"

definition protocol_votes :: "GroupMember list \<Rightarrow> (string \<times> nat) list" where
  "protocol_votes ms = fold (\<lambda>m votes. fold (\<lambda>p. vote (mp_name p)) (gm_protocols m) votes) ms []"

definition select_protocol :: "iteration \<Rightarrow> ConsumerGroup \<Rightarrow> string option" where
  "select_protocol it g =
     (if cg_members g = [] then None
      else let votes = protocol_votes (map snd (it_members it (cg_members g)));
               member_count = length (cg_members g)
        in case filter (\<lambda>(_, n). n = member_count) (it_votes it votes) of
             [] \<Rightarrow> None
           | (name, _) # _ \<Rightarrow> Some name)"

text \<open>\<^verbatim>\<open>members.keys().next().cloned()\<close>, and the loops that insert drained entries.\<close>

definition first_key :: "iteration \<Rightarrow> member_map \<Rightarrow> string option" where
  "first_key it ms = (case it_members it ms of [] \<Rightarrow> None | (k, _) # _ \<Rightarrow> Some k)"

definition insert_all :: "member_map \<Rightarrow> member_map \<Rightarrow> member_map" where
  "insert_all xs ms = fold (\<lambda>(k, m). AList.update k m) xs ms"

section \<open>The coordinator and its responses\<close>

type_synonym GroupCoordinator = group_map

definition get_or_create_group :: "nat \<Rightarrow> string \<Rightarrow> string \<Rightarrow> GroupCoordinator \<Rightarrow> ConsumerGroup" where
  "get_or_create_group now org_id group_id groups =
     (case map_of groups (org_id, group_id) of Some g \<Rightarrow> g | None \<Rightarrow> ConsumerGroup_new now group_id)"

record JoinGroupMember =
  jgm_member_id :: string
  jgm_metadata :: bytes

record JoinGroupResult =
  jgr_error_code :: ErrorCode
  jgr_generation_id :: i32
  jgr_protocol_type :: "string option"
  jgr_protocol_name :: "string option"
  jgr_leader :: string
  jgr_member_id :: string
  jgr_members :: "JoinGroupMember list"

record SyncGroupAssignment =
  sga_member_id :: string
  sga_assignment :: bytes

record SyncGroupResult =
  sgr_error_code :: ErrorCode
  sgr_assignment :: bytes

record DescribeGroupMember =
  dgm_member_id :: string
  dgm_client_id :: string
  dgm_client_host :: string
  dgm_member_metadata :: bytes
  dgm_member_assignment :: bytes

record DescribeGroupResult =
  dgr_error_code :: ErrorCode
  dgr_group_id :: string
  dgr_state :: string
  dgr_protocol_type :: string
  dgr_protocol :: string
  dgr_members :: "DescribeGroupMember list"

record ListGroupResult =
  lgr_group_id :: string
  lgr_protocol_type :: string
  lgr_group_state :: string

definition or_default :: "'a list option \<Rightarrow> 'a list" where
  "or_default x = (case x of Some s \<Rightarrow> s | None \<Rightarrow> [])"

definition first_metadata :: "GroupMember \<Rightarrow> bytes" where
  "first_metadata m = (case gm_protocols m of [] \<Rightarrow> [] | p # _ \<Rightarrow> mp_metadata p)"

section \<open>JoinGroup\<close>

definition MIN_SESSION_TIMEOUT_MS :: i32 where "MIN_SESSION_TIMEOUT_MS = 6000"
definition MAX_SESSION_TIMEOUT_MS :: i32 where "MAX_SESSION_TIMEOUT_MS = 300000"

definition clamp_session :: "i32 \<Rightarrow> i32" where
  "clamp_session t =
     (if sint t < sint MIN_SESSION_TIMEOUT_MS then MIN_SESSION_TIMEOUT_MS
      else if sint MAX_SESSION_TIMEOUT_MS < sint t then MAX_SESSION_TIMEOUT_MS else t)"

text \<open>The \<^verbatim>\<open>match group.state\<close> of the handler.\<close>

definition admit :: "iteration \<Rightarrow> nat \<Rightarrow> GroupMember \<Rightarrow> ConsumerGroup \<Rightarrow> ConsumerGroup" where
  "admit it now member g =
     (let member_id = gm_member_id member in
      if cg_state g = GS_Empty \<or> cg_state g = GS_Dead then
        let g1 = g\<lparr>cg_members := [(member_id, member)],
                   cg_protocol_type := Some (gm_protocol_type member),
                   cg_leader_id := Some member_id,
                   cg_generation_id := cg_generation_id g + 1\<rparr>
        in transition_to now GS_CompletingRebalance (g1\<lparr>cg_protocol_name := select_protocol it g1\<rparr>)
      else if cg_state g = GS_PreparingRebalance then
        g\<lparr>cg_pending_members := AList.update member_id member (cg_pending_members g)\<rparr>
      else
        transition_to now GS_PreparingRebalance
          (g\<lparr>cg_pending_members := insert_all (it_members it (cg_members g))
                (AList.update member_id member (cg_pending_members g)),
             cg_members := [],
             cg_generation_id := cg_generation_id g + 1\<rparr>))"

text \<open>The block under ``Check if we should complete the join''.\<close>

definition complete_join :: "iteration \<Rightarrow> nat \<Rightarrow> ConsumerGroup \<Rightarrow> ConsumerGroup" where
  "complete_join it now g =
     (if cg_state g = GS_PreparingRebalance \<and> cg_pending_members g \<noteq> [] then
        let g1 = g\<lparr>cg_members := insert_all (it_members it (cg_pending_members g)) (cg_members g),
                   cg_pending_members := []\<rparr>;
            keep = (case cg_leader_id g1 of None \<Rightarrow> False | Some l \<Rightarrow> map_of (cg_members g1) l \<noteq> None);
            g2 = (if keep then g1 else g1\<lparr>cg_leader_id := first_key it (cg_members g1)\<rparr>)
        in transition_to now GS_CompletingRebalance (g2\<lparr>cg_protocol_name := select_protocol it g2\<rparr>)
      else g)"

definition join_refused :: "ErrorCode \<Rightarrow> string \<Rightarrow> JoinGroupResult" where
  "join_refused code member_id =
     \<lparr>jgr_error_code = code, jgr_generation_id = - 1, jgr_protocol_type = None, jgr_protocol_name = None,
      jgr_leader = [], jgr_member_id = member_id, jgr_members = []\<rparr>"

definition join_reply :: "iteration \<Rightarrow> string \<Rightarrow> ConsumerGroup \<Rightarrow> JoinGroupResult" where
  "join_reply it member_id g =
     \<lparr>jgr_error_code = EC_None, jgr_generation_id = cg_generation_id g,
      jgr_protocol_type = cg_protocol_type g, jgr_protocol_name = cg_protocol_name g,
      jgr_leader = or_default (cg_leader_id g), jgr_member_id = member_id,
      jgr_members =
        (if cg_leader_id g = Some member_id
         then map (\<lambda>(_, m). \<lparr>jgm_member_id = gm_member_id m, jgm_metadata = first_metadata m\<rparr>)
                (it_members it (cg_members g))
         else [])\<rparr>"

definition join_group ::
  "iteration \<Rightarrow> string \<Rightarrow> nat \<Rightarrow> GroupCoordinator \<Rightarrow> string \<Rightarrow> string \<Rightarrow> string option \<Rightarrow> string \<Rightarrow> string \<Rightarrow> i32 \<Rightarrow> i32
     \<Rightarrow> string \<Rightarrow> MemberProtocol list \<Rightarrow> GroupCoordinator \<times> JoinGroupResult" where
  "join_group it uuid now groups org_id group_id member_id client_id client_host session_timeout_ms
     rebalance_timeout_ms protocol_type protocols =
     (let session_timeout_ms = clamp_session session_timeout_ms;
          g = get_or_create_group now org_id group_id groups;
          created = AList.update (org_id, group_id) g groups
      in case member_id of
           None \<Rightarrow> (created, join_refused EC_MemberIdRequired (client_id @ ''-'' @ uuid))
         | Some member_id \<Rightarrow>
             if member_id = [] then (created, join_refused EC_MemberIdRequired (client_id @ ''-'' @ uuid))
             else if (case cg_protocol_type g of Some existing \<Rightarrow> existing \<noteq> protocol_type | None \<Rightarrow> False)
             then (created, join_refused EC_InconsistentGroupProtocol member_id)
             else let member = \<lparr>gm_member_id = member_id, gm_client_id = client_id, gm_client_host = client_host,
                        gm_session_timeout_ms = session_timeout_ms, gm_rebalance_timeout_ms = rebalance_timeout_ms,
                        gm_protocol_type = protocol_type, gm_protocols = protocols, gm_assignment = [],
                        gm_last_heartbeat = now\<rparr>;
                      g' = complete_join it now (admit it now member g)
               in (AList.update (org_id, group_id) g' groups, join_reply it member_id g'))"

section \<open>SyncGroup, Heartbeat and LeaveGroup\<close>

definition assign_member :: "SyncGroupAssignment \<Rightarrow> member_map \<Rightarrow> member_map" where
  "assign_member a ms =
     (case map_of ms (sga_member_id a) of
        Some m \<Rightarrow> AList.update (sga_member_id a) (m\<lparr>gm_assignment := sga_assignment a\<rparr>) ms
      | None \<Rightarrow> ms)"

definition sync_refused :: "ErrorCode \<Rightarrow> SyncGroupResult" where
  "sync_refused code = \<lparr>sgr_error_code = code, sgr_assignment = []\<rparr>"

definition sync_reply :: "string \<Rightarrow> ConsumerGroup \<Rightarrow> SyncGroupResult" where
  "sync_reply member_id g = \<lparr>sgr_error_code = EC_None,
     sgr_assignment = or_default (map_option gm_assignment (map_of (cg_members g) member_id))\<rparr>"

definition sync_group ::
  "nat \<Rightarrow> GroupCoordinator \<Rightarrow> string \<Rightarrow> string \<Rightarrow> i32 \<Rightarrow> string \<Rightarrow> SyncGroupAssignment list
     \<Rightarrow> GroupCoordinator \<times> SyncGroupResult" where
  "sync_group now groups org_id group_id generation_id member_id assignments =
     (case map_of groups (org_id, group_id) of
        None \<Rightarrow> (groups, sync_refused EC_GroupIdNotFound)
      | Some g \<Rightarrow>
          if map_of (cg_members g) member_id = None then (groups, sync_refused EC_UnknownMemberId)
          else if generation_id \<noteq> cg_generation_id g then (groups, sync_refused EC_IllegalGeneration)
          else (case cg_state g of
              GS_Empty \<Rightarrow> (groups, sync_refused EC_UnknownMemberId)
            | GS_Dead \<Rightarrow> (groups, sync_refused EC_UnknownMemberId)
            | GS_PreparingRebalance \<Rightarrow> (groups, sync_refused EC_RebalanceInProgress)
            | GS_CompletingRebalance \<Rightarrow>
                let g' = (if cg_leader_id g = Some member_id
                          then transition_to now GS_Stable
                                 (g\<lparr>cg_members := fold assign_member assignments (cg_members g)\<rparr>)
                          else g)
                in (AList.update (org_id, group_id) g' groups, sync_reply member_id g')
            | GS_Stable \<Rightarrow> (groups, sync_reply member_id g)))"

definition heartbeat ::
  "nat \<Rightarrow> GroupCoordinator \<Rightarrow> string \<Rightarrow> string \<Rightarrow> i32 \<Rightarrow> string \<Rightarrow> GroupCoordinator \<times> ErrorCode" where
  "heartbeat now groups org_id group_id generation_id member_id =
     (case map_of groups (org_id, group_id) of
        None \<Rightarrow> (groups, EC_GroupIdNotFound)
      | Some g \<Rightarrow>
          (case map_of (cg_members g) member_id of
             None \<Rightarrow> (groups, EC_UnknownMemberId)
           | Some m \<Rightarrow>
               if generation_id \<noteq> cg_generation_id g then (groups, EC_IllegalGeneration)
               else (AList.update (org_id, group_id)
                       (g\<lparr>cg_members := AList.update member_id (m\<lparr>gm_last_heartbeat := now\<rparr>) (cg_members g)\<rparr>) groups,
                     case cg_state g of
                       GS_PreparingRebalance \<Rightarrow> EC_RebalanceInProgress
                     | GS_CompletingRebalance \<Rightarrow> EC_RebalanceInProgress
                     | GS_Stable \<Rightarrow> EC_None
                     | GS_Empty \<Rightarrow> EC_UnknownMemberId
                     | GS_Dead \<Rightarrow> EC_UnknownMemberId)))"

definition leave_body :: "iteration \<Rightarrow> nat \<Rightarrow> string \<Rightarrow> ConsumerGroup \<Rightarrow> ConsumerGroup" where
  "leave_body it now member_id g =
     (let g1 = g\<lparr>cg_members := AList.delete member_id (cg_members g)\<rparr> in
      if cg_members g1 = [] then
        (transition_to now GS_Empty g1)\<lparr>cg_leader_id := None, cg_protocol_type := None, cg_protocol_name := None\<rparr>
      else
        let g2 = g1\<lparr>cg_generation_id := cg_generation_id g1 + 1\<rparr>;
            g3 = (if cg_leader_id g2 = Some member_id
                  then g2\<lparr>cg_leader_id := first_key it (cg_members g2)\<rparr> else g2)
        in transition_to now GS_PreparingRebalance g3)"

definition leave_group ::
  "iteration \<Rightarrow> nat \<Rightarrow> GroupCoordinator \<Rightarrow> string \<Rightarrow> string \<Rightarrow> string \<Rightarrow> GroupCoordinator \<times> ErrorCode" where
  "leave_group it now groups org_id group_id member_id =
     (case map_of groups (org_id, group_id) of
        None \<Rightarrow> (groups, EC_GroupIdNotFound)
      | Some g \<Rightarrow>
          if map_of (cg_members g) member_id = None then (groups, EC_UnknownMemberId)
          else (AList.update (org_id, group_id) (leave_body it now member_id g) groups, EC_None))"

section \<open>DescribeGroups and ListGroups\<close>

definition describe_group :: "iteration \<Rightarrow> GroupCoordinator \<Rightarrow> string \<Rightarrow> string \<Rightarrow> DescribeGroupResult option" where
  "describe_group it groups org_id group_id =
     map_option (\<lambda>g. \<lparr>dgr_error_code = EC_None, dgr_group_id = cg_group_id g,
         dgr_state = GroupState_as_str (cg_state g), dgr_protocol_type = or_default (cg_protocol_type g),
         dgr_protocol = or_default (cg_protocol_name g),
         dgr_members = map (\<lambda>(_, m). \<lparr>dgm_member_id = gm_member_id m, dgm_client_id = gm_client_id m,
             dgm_client_host = gm_client_host m, dgm_member_metadata = first_metadata m,
             dgm_member_assignment = gm_assignment m\<rparr>) (it_members it (cg_members g))\<rparr>)
       (map_of groups (org_id, group_id))"

definition list_groups :: "iteration \<Rightarrow> GroupCoordinator \<Rightarrow> string \<Rightarrow> ListGroupResult list" where
  "list_groups it groups org_id =
     map (\<lambda>(_, g). \<lparr>lgr_group_id = cg_group_id g, lgr_protocol_type = or_default (cg_protocol_type g),
                   lgr_group_state = GroupState_as_str (cg_state g)\<rparr>)
       (filter (\<lambda>((entry_org_id, _), _). entry_org_id = org_id) (it_groups it groups))"

section \<open>Requests\<close>

datatype CoordRequest =
    JoinReq string nat string string "string option" string string i32 i32 string "MemberProtocol list"
  | SyncReq nat string string i32 string "SyncGroupAssignment list"
  | HeartbeatReq nat string string i32 string
  | LeaveReq nat string string string

fun coord_step :: "iteration \<Rightarrow> CoordRequest \<Rightarrow> GroupCoordinator \<Rightarrow> GroupCoordinator" where
  "coord_step it (JoinReq uuid now org gid mid cid host st rt pt ps) groups =
     fst (join_group it uuid now groups org gid mid cid host st rt pt ps)"
| "coord_step it (SyncReq now org gid gen mid as) groups = fst (sync_group now groups org gid gen mid as)"
| "coord_step it (HeartbeatReq now org gid gen mid) groups = fst (heartbeat now groups org gid gen mid)"
| "coord_step it (LeaveReq now org gid mid) groups = fst (leave_group it now groups org gid mid)"

fun req_key :: "CoordRequest \<Rightarrow> string \<times> string" where
  "req_key (JoinReq uuid now org gid mid cid host st rt pt ps) = (org, gid)"
| "req_key (SyncReq now org gid gen mid as) = (org, gid)"
| "req_key (HeartbeatReq now org gid gen mid) = (org, gid)"
| "req_key (LeaveReq now org gid mid) = (org, gid)"

end
