(* ===== verification/Group_Invariants.thy ===== *)
theory Group_Invariants
  imports Group_Coordinator
begin

text \<open>
  The invariant of the consumer group coordinator and the effect of each request on a group that
  satisfies it. \<open>joined_fields\<close> and \<open>joined_members\<close> give the outcome of an accepted JoinGroup in every
  state; \<open>coordinator\<close> interprets the invariant machine on the requests.
\<close>

section \<open>Association lists in iteration order\<close>

lemma it_members_facts:
  assumes "hash_iteration it"
  shows "set (it_members it xs) = set xs" "distinct (map fst (it_members it xs)) \<longleftrightarrow> distinct (map fst xs)"
    "it_members it xs = [] \<longleftrightarrow> xs = []" "it_members it [p] = [p]" "length (it_members it xs) = length xs"
proof -
  have m: "mset (it_members it ys) = mset ys" for ys using assms by (simp add: hash_iteration_def)
  show "set (it_members it xs) = set xs" using mset_eq_setD [OF m] .
  show "distinct (map fst (it_members it xs)) \<longleftrightarrow> distinct (map fst xs)"
    using m by (intro mset_eq_imp_distinct_iff) simp
  show "it_members it xs = [] \<longleftrightarrow> xs = []" using m [of xs] by (metis mset_zero_iff)
  show "it_members it [p] = [p]" using m [of "[p]"] by simp
  show "length (it_members it xs) = length xs" using m [of xs] by (metis size_mset)
qed

lemma it_members_map_of:
  "hash_iteration it \<Longrightarrow> distinct (map fst xs) \<Longrightarrow> map_of (it_members it xs) = map_of xs"
  by (simp add: map_of_inject_set it_members_facts)

lemma insert_all_simps [simp]:
  "insert_all [] ms = ms" "insert_all ((k, m) # xs) ms = insert_all xs (AList.update k m ms)"
  by (simp_all add: insert_all_def)

lemma map_of_insert_all: "map_of (insert_all xs ms) = map_of ms ++ map_of (rev xs)"
proof (induction xs arbitrary: ms)
  case (Cons x xs)
  then show ?case by (cases x) (auto simp: update_conv' map_add_def fun_eq_iff split: option.splits)
qed simp

lemma distinct_insert_all: "distinct (map fst ms) \<Longrightarrow> distinct (map fst (insert_all xs ms))"
  by (induction xs arbitrary: ms) (auto simp: distinct_update)

lemma map_of_insert_distinct:
  "distinct (map fst xs) \<Longrightarrow> map_of (insert_all xs ms) = map_of ms ++ map_of xs"
proof -
  assume d: "distinct (map fst xs)"
  then have "distinct (map fst (rev xs))" by (simp add: rev_map [symmetric])
  then have "map_of (rev xs) = map_of xs" using d by (simp only: map_of_inject_set set_rev)
  then show ?thesis by (simp add: map_of_insert_all)
qed

lemma insert_all_empty: "insert_all xs ms = [] \<longleftrightarrow> xs = [] \<and> ms = []"
proof (induction xs arbitrary: ms)
  case (Cons x xs)
  have "insert_all (x # xs) ms \<noteq> []" by (cases x) (simp add: Cons.IH)
  then show ?case by simp
qed simp

lemma map_of_None_iff: "map_of ms = Map.empty \<longleftrightarrow> ms = []"
  by (cases ms) auto

lemma first_key_in:
  "hash_iteration it \<Longrightarrow> ms \<noteq> [] \<Longrightarrow> \<exists>k. first_key it ms = Some k \<and> k \<in> dom (map_of ms)"
proof -
  assume it: "hash_iteration it" and "ms \<noteq> []"
  then obtain k m rest where e: "it_members it ms = (k, m) # rest"
    using it_members_facts(3) [OF it] by (metis neq_Nil_conv surj_pair)
  then have "(k, m) \<in> set ms" using it_members_facts(1) [OF it, of ms] by auto
  then have "k \<in> dom (map_of ms)" by (meson domI weak_map_of_SomeI)
  then show ?thesis using e by (simp add: first_key_def)
qed

lemma delete_distinct_map_of: "map_of (AList.delete k ms) = (map_of ms)(k := None)"
  by (simp add: delete_conv')

section \<open>The invariant of a group\<close>

definition member_ok :: "ConsumerGroup \<Rightarrow> string \<Rightarrow> GroupMember \<Rightarrow> bool" where
  "member_ok g k m = (gm_member_id m = k \<and> cg_protocol_type g = Some (gm_protocol_type m)
     \<and> 6000 \<le> sint (gm_session_timeout_ms m) \<and> sint (gm_session_timeout_ms m) \<le> 300000)"

definition members_ok :: "ConsumerGroup \<Rightarrow> bool" where
  "members_ok g = (\<forall>k m. map_of (cg_members g) k = Some m \<longrightarrow> member_ok g k m)"

definition leader_ok :: "ConsumerGroup \<Rightarrow> bool" where
  "leader_ok g = (case cg_leader_id g of None \<Rightarrow> cg_members g = [] | Some l \<Rightarrow> l \<in> dom (map_of (cg_members g)))"

definition group_inv :: "ConsumerGroup \<Rightarrow> bool" where
  "group_inv g = (distinct (map fst (cg_members g)) \<and> cg_pending_members g = [] \<and> cg_state g \<noteq> GS_Dead
     \<and> (cg_state g = GS_Empty \<longleftrightarrow> cg_members g = []) \<and> (cg_protocol_type g = None \<longleftrightarrow> cg_members g = [])
     \<and> leader_ok g \<and> members_ok g)"

lemma group_invD:
  assumes "group_inv g"
  shows "distinct (map fst (cg_members g))" "cg_pending_members g = []" "cg_state g \<noteq> GS_Dead"
    "cg_state g = GS_Empty \<longleftrightarrow> cg_members g = []" "cg_protocol_type g = None \<longleftrightarrow> cg_members g = []"
    "leader_ok g" "members_ok g"
  using assms by (simp_all add: group_inv_def)

lemma transition_to_fields [simp]:
  "cg_state (transition_to now s g) = s" "cg_members (transition_to now s g) = cg_members g"
  "cg_pending_members (transition_to now s g) = cg_pending_members g"
  "cg_generation_id (transition_to now s g) = cg_generation_id g"
  "cg_protocol_type (transition_to now s g) = cg_protocol_type g"
  "cg_protocol_name (transition_to now s g) = cg_protocol_name g"
  "cg_leader_id (transition_to now s g) = cg_leader_id g" "cg_group_id (transition_to now s g) = cg_group_id g"
  by (simp_all add: transition_to_def)

lemma group_inv_new: "group_inv (ConsumerGroup_new now gid)"
  by (simp add: group_inv_def ConsumerGroup_new_def leader_ok_def members_ok_def)

section \<open>JoinGroup on a group\<close>

abbreviation joined :: "iteration \<Rightarrow> nat \<Rightarrow> GroupMember \<Rightarrow> ConsumerGroup \<Rightarrow> ConsumerGroup" where
  "joined it now member g \<equiv> complete_join it now (admit it now member g)"

lemma joined_members:
  assumes "hash_iteration it" and "group_inv g"
  shows "map_of (cg_members (joined it now member g)) =
     (if cg_state g = GS_PreparingRebalance then (map_of (cg_members g))(gm_member_id member \<mapsto> member)
      else [gm_member_id member \<mapsto> member] ++ map_of (cg_members g))"
    and "distinct (map fst (cg_members (joined it now member g)))"
proof -
  note facts = it_members_facts [OF assms(1)] and g = group_invD [OF assms(2)]
  have dist: "distinct (map fst (insert_all (it_members it (cg_members g)) [(gm_member_id member, member)]))"
    by (rule distinct_insert_all) simp
  show "map_of (cg_members (joined it now member g)) =
     (if cg_state g = GS_PreparingRebalance then (map_of (cg_members g))(gm_member_id member \<mapsto> member)
      else [gm_member_id member \<mapsto> member] ++ map_of (cg_members g))"
    using g facts dist
    by (cases "cg_state g")
      (auto simp: admit_def complete_join_def Let_def update_conv' insert_all_empty map_of_insert_distinct
        it_members_map_of [OF assms(1)])
  show "distinct (map fst (cg_members (joined it now member g)))"
    using g facts dist
    by (cases "cg_state g")
      (auto simp: admit_def complete_join_def Let_def distinct_update distinct_insert_all)
qed

lemma joined_fields:
  assumes "hash_iteration it" and "group_inv g"
  shows "cg_state (joined it now member g) = GS_CompletingRebalance"
    and "cg_pending_members (joined it now member g) = []"
    and "cg_generation_id (joined it now member g) =
           cg_generation_id g + (if cg_state g = GS_PreparingRebalance then 0 else 1)"
    and "cg_protocol_type (joined it now member g) =
           (if cg_members g = [] then Some (gm_protocol_type member) else cg_protocol_type g)"
    and "cg_group_id (joined it now member g) = cg_group_id g"
  using group_invD [OF assms(2)] it_members_facts [OF assms(1)]
  by (cases "cg_state g"; auto simp: admit_def complete_join_def Let_def insert_all_empty)+

lemma complete_join_leader:
  assumes "hash_iteration it" and "cg_pending_members g \<noteq> []" and "cg_state g = GS_PreparingRebalance"
  shows "leader_ok (complete_join it now g)"
proof -
  let ?ms = "insert_all (it_members it (cg_pending_members g)) (cg_members g)"
  have "?ms \<noteq> []" using assms(2) it_members_facts(3) [OF assms(1)] by (simp add: insert_all_empty)
  then obtain k where "first_key it ?ms = Some k" "k \<in> dom (map_of ?ms)" using first_key_in assms(1) by blast
  then show ?thesis
    using assms(2,3) by (auto simp: complete_join_def Let_def leader_ok_def split: option.splits)
qed

lemma joined_leader:
  assumes "hash_iteration it" and "group_inv g"
  shows "leader_ok (joined it now member g)"
proof (cases "cg_state g = GS_Empty")
  case True
  then show ?thesis by (simp add: admit_def complete_join_def Let_def leader_ok_def)
next
  case False
  then have "cg_state (admit it now member g) = GS_PreparingRebalance"
    and "cg_pending_members (admit it now member g) \<noteq> []"
    using group_invD(3) [OF assms(2)]
    by (cases "cg_state g"; simp add: admit_def Let_def insert_all_empty)+
  then show ?thesis using complete_join_leader assms(1) by blast
qed

lemma joined_inv:
  assumes "hash_iteration it" and "group_inv g"
    and "6000 \<le> sint (gm_session_timeout_ms member)" and "sint (gm_session_timeout_ms member) \<le> 300000"
    and "cg_protocol_type g = None \<or> cg_protocol_type g = Some (gm_protocol_type member)"
  shows "group_inv (joined it now member g)"
proof -
  let ?g = "joined it now member g"
  note g = group_invD [OF assms(2)]
  have "map_of (cg_members ?g) (gm_member_id member) \<noteq> None"
    by (auto simp: joined_members(1) [OF assms(1,2)] map_add_def split: option.splits)
  then have "cg_members ?g \<noteq> []" by auto
  moreover have "members_ok ?g"
    using g(4,5,7) assms(3-5)
    by (auto simp: members_ok_def member_ok_def joined_members(1) [OF assms(1,2)] joined_fields [OF assms(1,2)]
        split: if_splits)
  ultimately show ?thesis
    using g(5) joined_leader [OF assms(1,2), of now member] joined_members(2) [OF assms(1,2), of now member]
    by (auto simp: group_inv_def joined_fields [OF assms(1,2)])
qed

lemma clamp_session_bounds: "6000 \<le> sint (clamp_session t) \<and> sint (clamp_session t) \<le> 300000"
  by (auto simp: clamp_session_def MIN_SESSION_TIMEOUT_MS_def MAX_SESSION_TIMEOUT_MS_def)

section \<open>The other requests on a group\<close>

lemma leave_body_inv:
  assumes "hash_iteration it" and "group_inv g" and "map_of (cg_members g) mid \<noteq> None"
  shows "group_inv (leave_body it now mid g)"
proof -
  note g = group_invD [OF assms(2)]
  let ?ms = "AList.delete mid (cg_members g)"
  have d: "distinct (map fst ?ms)" using g(1) by (rule distinct_delete)
  have ok: "members_ok (leave_body it now mid g)" if "?ms \<noteq> []"
    using g(7) that by (auto simp: leave_body_def Let_def members_ok_def member_ok_def delete_conv' split: if_splits)
  show ?thesis
  proof (cases "?ms = []")
    case True
    then show ?thesis using g by (simp add: leave_body_def Let_def group_inv_def leader_ok_def members_ok_def)
  next
    case False
    then obtain k where "first_key it ?ms = Some k" "k \<in> dom (map_of ?ms)"
      using first_key_in assms(1) by blast
    then have "leader_ok (leave_body it now mid g)"
      using False g(6) assms(3)
      by (auto simp: leave_body_def Let_def leader_ok_def delete_conv' split: option.splits)
    then show ?thesis
      using False g d ok [OF False] by (auto simp: leave_body_def Let_def group_inv_def)
  qed
qed

text \<open>Assignments and heartbeats rewrite members in place.\<close>

definition same_members :: "ConsumerGroup \<Rightarrow> member_map \<Rightarrow> bool" where
  "same_members g ms = (map fst ms = map fst (cg_members g) \<and> (\<forall>k m. map_of ms k = Some m \<longrightarrow>
     (\<exists>m'. map_of (cg_members g) k = Some m' \<and> gm_member_id m = gm_member_id m'
        \<and> gm_protocol_type m = gm_protocol_type m' \<and> gm_session_timeout_ms m = gm_session_timeout_ms m')))"

lemma update_keys_in: "k \<in> dom (map_of ms) \<Longrightarrow> map fst (AList.update k v ms) = map fst ms"
  by (induction ms) auto

lemma same_members_update:
  assumes "same_members g ms" and "map_of ms k = Some m" and "gm_member_id m' = gm_member_id m"
    and "gm_protocol_type m' = gm_protocol_type m" and "gm_session_timeout_ms m' = gm_session_timeout_ms m"
  shows "same_members g (AList.update k m' ms)"
proof -
  have "map fst (AList.update k m' ms) = map fst ms" using assms(2) by (intro update_keys_in) auto
  then show ?thesis using assms unfolding same_members_def by (auto simp: update_conv')
qed

lemma same_members_assign: "same_members g ms \<Longrightarrow> same_members g (assign_member a ms)"
  by (auto simp: assign_member_def split: option.splits intro!: same_members_update)

lemma same_members_assign_all: "same_members g ms \<Longrightarrow> same_members g (fold assign_member as ms)"
  by (induction as arbitrary: ms) (auto simp: same_members_assign)

lemma same_members_refl: "same_members g (cg_members g)"
  by (simp add: same_members_def)

lemma same_members_inv:
  assumes "group_inv g" and "same_members g ms" and "s \<noteq> GS_Dead" and "s = GS_Empty \<longleftrightarrow> cg_state g = GS_Empty"
  shows "group_inv (g\<lparr>cg_members := ms, cg_state := s, cg_state_timestamp := t\<rparr>)"
proof -
  note g = group_invD [OF assms(1)]
  have keys: "map fst ms = map fst (cg_members g)" using assms(2) by (simp add: same_members_def)
  moreover have "dom (map_of xs) = set (map fst xs)" for xs :: member_map
    by (simp add: dom_map_of_conv_image_fst)
  ultimately have "dom (map_of ms) = dom (map_of (cg_members g))" by (simp only:)
  moreover have "ms = [] \<longleftrightarrow> cg_members g = []" using keys by (metis map_is_Nil_conv)
  moreover have "member_ok g k m" if "map_of ms k = Some m" for k m
  proof -
    obtain m' where "map_of (cg_members g) k = Some m'" "gm_member_id m = gm_member_id m'"
      "gm_protocol_type m = gm_protocol_type m'" "gm_session_timeout_ms m = gm_session_timeout_ms m'"
      using \<open>map_of ms k = Some m\<close> assms(2) unfolding same_members_def by blast
    then show ?thesis using g(7) by (simp add: members_ok_def member_ok_def)
  qed
  ultimately show ?thesis
    using g keys assms(3,4)
    by (simp add: group_inv_def leader_ok_def members_ok_def member_ok_def split: option.splits)
qed

end
