(* ===== verification/Group_Properties.thy ===== *)
theory Group_Properties
  imports Group_Invariants
begin

text \<open>
  Properties of the consumer group coordinator: its invariant over every sequence of requests, the
  generation as a fence, the distribution of the leader's assignments, protocol selection, and the
  isolation of tenants.
\<close>

section \<open>The invariant of the coordinator\<close>

definition coord_inv :: "GroupCoordinator \<Rightarrow> bool" where
  "coord_inv groups = (distinct (map fst groups)
     \<and> (\<forall>key g. map_of groups key = Some g \<longrightarrow> group_inv g \<and> cg_group_id g = snd key))"

lemma coord_inv_update:
  "coord_inv groups \<Longrightarrow> group_inv g \<Longrightarrow> cg_group_id g = snd key \<Longrightarrow> coord_inv (AList.update key g groups)"
  by (auto simp: coord_inv_def distinct_update update_conv')

lemma coord_invD: "coord_inv groups \<Longrightarrow> map_of groups key = Some g \<Longrightarrow> group_inv g \<and> cg_group_id g = snd key"
  unfolding coord_inv_def by blast

lemma get_or_create_inv:
  "coord_inv groups \<Longrightarrow> group_inv (get_or_create_group now org gid groups)
     \<and> cg_group_id (get_or_create_group now org gid groups) = gid"
  using group_inv_new [of now gid] coord_invD [of groups "(org, gid)"]
  by (cases "map_of groups (org, gid)") (auto simp: get_or_create_group_def ConsumerGroup_new_def)

lemma sync_body_inv:
  assumes "group_inv g" and "cg_state g = GS_CompletingRebalance"
  shows "group_inv (transition_to now GS_Stable (g\<lparr>cg_members := fold assign_member as (cg_members g)\<rparr>))"
  using same_members_inv [OF assms(1) same_members_assign_all [OF same_members_refl], of GS_Stable now as] assms(2)
  by (simp add: transition_to_def)

lemma heartbeat_body_inv:
  assumes "group_inv g" and "map_of (cg_members g) mid = Some m"
  shows "group_inv (g\<lparr>cg_members := AList.update mid (m\<lparr>gm_last_heartbeat := now\<rparr>) (cg_members g)\<rparr>)"
proof -
  have "same_members g (AList.update mid (m\<lparr>gm_last_heartbeat := now\<rparr>) (cg_members g))"
    using same_members_update [OF same_members_refl assms(2)] by simp
  then show ?thesis
    using same_members_inv [OF assms(1), of _ "cg_state g" "cg_state_timestamp g"] group_invD(3) [OF assms(1)]
    by simp
qed

lemma join_group_inv:
  assumes "hash_iteration it" and "coord_inv groups"
  shows "coord_inv (fst (join_group it uuid now groups org gid mid cid host st rt pt ps))"
proof -
  let ?g = "get_or_create_group now org gid groups"
  have g: "group_inv ?g" "cg_group_id ?g = gid" using get_or_create_inv assms(2) by blast+
  then have created: "coord_inv (AList.update (org, gid) ?g groups)" using coord_inv_update assms(2) by simp
  have "coord_inv (AList.update (org, gid) (joined it now m ?g) groups)"
    if "gm_session_timeout_ms m = clamp_session st" "gm_protocol_type m = pt"
      "\<not> (case cg_protocol_type ?g of Some existing \<Rightarrow> existing \<noteq> pt | None \<Rightarrow> False)" for m
    using that g joined_inv [OF assms(1) g(1), of m now] clamp_session_bounds [of st] joined_fields(5) [OF assms(1) g(1), of now m]
    by (intro coord_inv_update assms(2)) (auto split: option.splits)
  then show ?thesis using created by (auto simp: join_group_def Let_def split: option.splits)
qed

lemma coord_step_inv:
  assumes "hash_iteration it" and "coord_inv groups"
  shows "coord_inv (coord_step it r groups)"
proof (cases r)
  case (JoinReq uuid now org gid mid cid host st rt pt ps)
  then show ?thesis using join_group_inv assms by simp
next
  case (SyncReq now org gid gen mid as)
  then show ?thesis
    using assms(2) coord_invD [OF assms(2)] coord_inv_update [OF assms(2)] sync_body_inv
    by (auto simp: sync_group_def Let_def split: option.splits GroupState.splits)
next
  case (HeartbeatReq now org gid gen mid)
  then show ?thesis
    using assms(2) coord_invD [OF assms(2)] coord_inv_update [OF assms(2)] heartbeat_body_inv
    by (auto simp: heartbeat_def split: option.splits)
next
  case (LeaveReq now org gid mid)
  have "cg_group_id (leave_body it now mid g) = cg_group_id g" for g
    by (simp add: leave_body_def Let_def)
  then show ?thesis
    using LeaveReq assms(2) coord_invD [OF assms(2)] coord_inv_update [OF assms(2)] leave_body_inv [OF assms(1)]
    by (auto simp: leave_group_def split: option.splits)
qed

interpretation coordinator: invariant_machine "coord_step it" "\<lambda>groups. hash_iteration it \<longrightarrow> coord_inv groups" for it
  by unfold_locales (simp add: coord_step_inv)

section \<open>What a request does to a group\<close>

lemma coord_step_other: "key \<noteq> req_key r \<Longrightarrow> map_of (coord_step it r groups) key = map_of groups key"
  by (cases r) (auto simp: join_group_def sync_group_def heartbeat_def leave_group_def Let_def update_conv'
      split: option.splits GroupState.splits)

lemma fenced:
  assumes "map_of groups (org, gid) = Some g" and "gen \<noteq> cg_generation_id g"
  shows "fst (heartbeat now groups org gid gen mid) = groups"
    and "snd (heartbeat now groups org gid gen mid) \<in> {EC_IllegalGeneration, EC_UnknownMemberId}"
    and "fst (sync_group now groups org gid gen mid as) = groups"
    and "sgr_error_code (snd (sync_group now groups org gid gen mid as)) \<in> {EC_IllegalGeneration, EC_UnknownMemberId}"
  using assms by (auto simp: heartbeat_def sync_group_def sync_refused_def split: option.splits)

definition assignments_of :: "ConsumerGroup \<Rightarrow> string \<Rightarrow> bytes option" where
  "assignments_of g k = map_option gm_assignment (map_of (cg_members g) k)"

text \<open>From a stable group, a request rebalances into a new generation, empties the group, or changes nothing that matters.\<close>

definition stable_successor :: "ConsumerGroup \<Rightarrow> ConsumerGroup \<Rightarrow> bool" where
  "stable_successor g g' =
     (cg_generation_id g' = cg_generation_id g + 1 \<and> cg_state g' \<in> {GS_PreparingRebalance, GS_CompletingRebalance}
      \<or> cg_state g' = GS_Empty \<and> cg_members g' = []
      \<or> cg_state g' = GS_Stable \<and> cg_generation_id g' = cg_generation_id g \<and> cg_leader_id g' = cg_leader_id g
        \<and> cg_protocol_name g' = cg_protocol_name g \<and> assignments_of g' = assignments_of g)"

lemma stable_successor_refl: "cg_state g = GS_Stable \<Longrightarrow> stable_successor g g"
  by (simp add: stable_successor_def)

lemma stable_step:
  assumes "hash_iteration it" and "coord_inv groups" and "map_of groups key = Some g" and "cg_state g = GS_Stable"
  shows "\<exists>g'. map_of (coord_step it r groups) key = Some g' \<and> stable_successor g g'"
proof (cases "req_key r = key")
  case False
  then show ?thesis using coord_step_other [of key r it groups] assms(3) stable_successor_refl [OF assms(4)] by auto
next
  case True
  have inv: "group_inv g" using coord_invD assms(2,3) by blast
  show ?thesis
  proof (cases r)
    case (JoinReq uuid now org gid mid cid host st rt pt ps)
    have "stable_successor g (joined it now m g)" for m
      using joined_fields [OF assms(1) inv, of now m] assms(4) by (simp add: stable_successor_def)
    then show ?thesis
      using JoinReq True assms(3) stable_successor_refl [OF assms(4)]
      by (auto simp: join_group_def get_or_create_group_def Let_def update_conv' split: option.splits)
  next
    case (SyncReq now org gid gen mid as)
    then show ?thesis
      using True assms(3,4) stable_successor_refl by (auto simp: sync_group_def split: option.splits)
  next
    case (HeartbeatReq now org gid gen mid)
    have "stable_successor g (g\<lparr>cg_members := AList.update mid (m\<lparr>gm_last_heartbeat := now\<rparr>) (cg_members g)\<rparr>)"
      if "map_of (cg_members g) mid = Some m" for m
      using that assms(4) by (auto simp: stable_successor_def assignments_of_def update_conv' fun_eq_iff)
    then show ?thesis
      using HeartbeatReq True assms(3,4) stable_successor_refl
      by (auto simp: heartbeat_def update_conv' split: option.splits)
  next
    case (LeaveReq now org gid mid)
    have "stable_successor g (leave_body it now mid g)"
      by (simp add: stable_successor_def leave_body_def Let_def)
    then show ?thesis
      using LeaveReq True assms(3,4) stable_successor_refl
      by (auto simp: leave_group_def update_conv' split: option.splits)
  qed
qed

section \<open>Assignments\<close>

definition assigned :: "SyncGroupAssignment list \<Rightarrow> string \<Rightarrow> bytes option" where
  "assigned as = map_of (rev (map (\<lambda>a. (sga_member_id a, sga_assignment a)) as))"

lemma map_of_assign_member:
  "map_of (assign_member a ms) k = (if k = sga_member_id a
     then map_option (\<lambda>m. m\<lparr>gm_assignment := sga_assignment a\<rparr>) (map_of ms k) else map_of ms k)"
  by (auto simp: assign_member_def update_conv' split: option.splits)

lemma map_of_assign_all:
  "map_option gm_assignment (map_of (fold assign_member as ms) k) =
     map_option (\<lambda>m. case assigned as k of Some x \<Rightarrow> x | None \<Rightarrow> gm_assignment m) (map_of ms k)"
proof (induction as arbitrary: ms)
  case Nil
  then show ?case by (simp add: assigned_def)
next
  case (Cons a as)
  then show ?case
    by (cases "map_of ms k") (auto simp: assigned_def map_of_assign_member map_add_def split: option.splits)
qed

lemma assign_all_dom: "map_of (fold assign_member as ms) k = None \<longleftrightarrow> map_of ms k = None"
  by (induction as arbitrary: ms) (auto simp: map_of_assign_member)

section \<open>Protocol selection\<close>

definition protocol_names :: "GroupMember \<Rightarrow> string list" where
  "protocol_names m = map mp_name (gm_protocols m)"

lemma fold_vote_names: "fold (\<lambda>p. vote (mp_name p)) ps v = fold vote (map mp_name ps) v"
  by (simp add: fold_map comp_def)

lemma protocol_votes_flat: "protocol_votes ms = fold vote (concat (map protocol_names ms)) []"
proof -
  have "fold (\<lambda>m votes. fold (\<lambda>p. vote (mp_name p)) (gm_protocols m) votes) ms v =
      fold vote (concat (map protocol_names ms)) v" for v
    unfolding fold_vote_names by (induction ms arbitrary: v) (simp_all add: protocol_names_def)
  then show ?thesis by (simp add: protocol_votes_def)
qed

lemma map_of_votes:
  "map_of (fold vote ns v) k =
     (if map_of v k = None \<and> count_list ns k = 0 then None
      else Some ((case map_of v k of Some n \<Rightarrow> n | None \<Rightarrow> 0) + count_list ns k))"
  by (induction ns arbitrary: v) (auto simp: vote_def update_conv' split: option.splits)

lemma distinct_votes: "distinct (map fst v) \<Longrightarrow> distinct (map fst (fold vote ns v))"
  by (induction ns arbitrary: v) (auto simp: vote_def distinct_update)

lemma count_supporters:
  "(\<And>m. m \<in> set ms \<Longrightarrow> distinct (protocol_names m)) \<Longrightarrow>
     count_list (concat (map protocol_names ms)) p = length (filter (\<lambda>m. p \<in> set (protocol_names m)) ms)"
proof (induction ms)
  case (Cons m ms)
  have "count_list xs p = (if p \<in> set xs then 1 else 0)" if "distinct xs" for xs :: "string list"
    using that by (induction xs) auto
  then show ?case using Cons by simp
qed simp

lemma length_filter_all: "length (filter P xs) = length xs \<longleftrightarrow> (\<forall>x\<in>set xs. P x)"
  by (metis filter_id_conv filter_True length_filter_less nat_neq_iff)

section \<open>A concrete group\<close>

definition demo_iteration :: iteration where
  "demo_iteration = \<lparr>it_members = rev, it_votes = id, it_groups = id\<rparr>"

definition demo_member :: "string \<Rightarrow> GroupMember" where
  "demo_member mid = \<lparr>gm_member_id = mid, gm_client_id = ''c'', gm_client_host = ''h'', gm_session_timeout_ms = 10000,
     gm_rebalance_timeout_ms = 60000, gm_protocol_type = ''consumer'',
     gm_protocols = [\<lparr>mp_name = ''range'', mp_metadata = [1]\<rparr>], gm_assignment = [], gm_last_heartbeat = 0\<rparr>"

definition demo_group :: "GroupState \<Rightarrow> ConsumerGroup" where
  "demo_group st = \<lparr>cg_group_id = ''g'', cg_state = st, cg_generation_id = 3, cg_protocol_type = Some ''consumer'',
     cg_protocol_name = Some ''range'', cg_leader_id = Some ''a'',
     cg_members = [(''a'', demo_member ''a''), (''b'', demo_member ''b'')], cg_pending_members = [],
     cg_state_timestamp = 0\<rparr>"

lemma demo_iteration_hash: "hash_iteration demo_iteration"
  by (simp add: hash_iteration_def demo_iteration_def)

lemma demo_group_inv: "st \<noteq> GS_Empty \<Longrightarrow> st \<noteq> GS_Dead \<Longrightarrow> coord_inv [((''o'', ''g''), demo_group st)]"
  by (auto simp: coord_inv_def group_inv_def demo_group_def demo_member_def leader_ok_def members_ok_def member_ok_def
      split: if_splits)

section \<open>Properties\<close>

text \<open>
  C34. Whatever requests arrive in whatever order, and however the hash maps iterate, every group the
  coordinator holds is well formed: it is filed under its own id, no member is pending between
  requests, the state is never Dead and is Empty exactly when there are no members, the leader is a
  member, the protocol type is that of every member, every member is filed under its id, and every
  session timeout lies between 6 and 300 seconds.
\<close>

theorem coordinator_invariant:
  assumes "hash_iteration it"
  shows "coord_inv (fold (coord_step it) rs [])"
proof -
  have "hash_iteration it \<longrightarrow> coord_inv (fold (coord_step it) rs [])"
    by (rule coordinator.run_inv) (simp add: coord_inv_def)
  then show ?thesis using assms by blast
qed

theorem coordinator_invariant_witness:
  "coord_inv (fold (coord_step demo_iteration)
     [JoinReq ''u'' 1 ''o'' ''g'' (Some ''a'') ''c'' ''h'' 0 60000 ''consumer'' [], LeaveReq 2 ''o'' ''g'' ''a''] [])"
  by (rule coordinator_invariant) (rule demo_iteration_hash)

text \<open>
  C35. While a group is stable its generation fixes everything a consumer was told: a request of any kind
  to any group leaves the leader, the protocol and every member's assignment as they were, or it moves
  the group to the next generation and out of the stable state, or the last member left. After the move,
  heartbeats and syncs that carry the old generation are refused and change nothing.
\<close>

theorem stable_generation_is_fenced:
  assumes "hash_iteration it" and "coord_inv groups"
    and "map_of groups (org, gid) = Some g" and "cg_state g = GS_Stable"
  shows "\<exists>g'. map_of (coord_step it r groups) (org, gid) = Some g' \<and> stable_successor g g'
     \<and> (cg_state g' \<notin> {GS_Stable, GS_Empty} \<longrightarrow>
          fst (heartbeat now (coord_step it r groups) org gid (cg_generation_id g) mid) = coord_step it r groups
          \<and> snd (heartbeat now (coord_step it r groups) org gid (cg_generation_id g) mid) \<in> {EC_IllegalGeneration, EC_UnknownMemberId}
          \<and> fst (sync_group now (coord_step it r groups) org gid (cg_generation_id g) mid as) = coord_step it r groups
          \<and> sgr_error_code (snd (sync_group now (coord_step it r groups) org gid (cg_generation_id g) mid as))
              \<in> {EC_IllegalGeneration, EC_UnknownMemberId})"
proof -
  obtain g' where g': "map_of (coord_step it r groups) (org, gid) = Some g'" "stable_successor g g'"
    using stable_step assms by blast
  have "cg_generation_id g \<noteq> cg_generation_id g'" if "cg_state g' \<notin> {GS_Stable, GS_Empty}"
    using that g'(2) by (auto simp: stable_successor_def)
  then show ?thesis using g' fenced [OF g'(1)] by blast
qed

theorem stable_generation_is_fenced_witness:
  "\<exists>g'. map_of (coord_step demo_iteration (LeaveReq 5 ''o'' ''g'' ''a'') [((''o'', ''g''), demo_group GS_Stable)]) (''o'', ''g'') = Some g'
     \<and> stable_successor (demo_group GS_Stable) g'"
proof -
  have "map_of [((''o'', ''g''), demo_group GS_Stable)] (''o'', ''g'') = Some (demo_group GS_Stable)"
    and "cg_state (demo_group GS_Stable) = GS_Stable" by (simp_all add: demo_group_def)
  then show ?thesis
    using stable_generation_is_fenced [OF demo_iteration_hash demo_group_inv, of GS_Stable] by blast
qed

text \<open>
  SyncGroup distributes what the leader sent: once the leader's sync of the current generation is
  accepted the group is stable, and from then on a sync of any member returns the last assignment the
  leader listed for it, or the one it already had when the leader listed none.
\<close>

theorem sync_distributes_assignments:
  assumes "map_of groups (org, gid) = Some g" and "group_inv g" and "cg_state g = GS_CompletingRebalance"
    and "cg_leader_id g = Some leader" and "map_of (cg_members g) mid = Some m"
  shows "let groups' = fst (sync_group now groups org gid (cg_generation_id g) leader as) in
     sync_group now' groups' org gid (cg_generation_id g) mid as' =
       (groups', \<lparr>sgr_error_code = EC_None,
                 sgr_assignment = (case assigned as mid of Some x \<Rightarrow> x | None \<Rightarrow> gm_assignment m)\<rparr>)"
proof -
  let ?g = "transition_to now GS_Stable (g\<lparr>cg_members := fold assign_member as (cg_members g)\<rparr>)"
  have "map_of (cg_members g) leader \<noteq> None"
    using group_invD(6) [OF assms(2)] assms(4) by (auto simp: leader_ok_def)
  then have "fst (sync_group now groups org gid (cg_generation_id g) leader as) = AList.update (org, gid) ?g groups"
    using assms(1,3,4) by (auto simp: sync_group_def Let_def)
  moreover have "map_of (cg_members ?g) mid \<noteq> None" using assms(5) by (simp add: assign_all_dom)
  moreover have "or_default (map_option gm_assignment (map_of (cg_members ?g) mid)) =
      (case assigned as mid of Some x \<Rightarrow> x | None \<Rightarrow> gm_assignment m)"
    using assms(5) map_of_assign_all [of as "cg_members g" mid]
    by (cases "map_of (fold assign_member as (cg_members g)) mid") (auto simp: or_default_def)
  ultimately show ?thesis
    by (simp only: Let_def) (auto simp: sync_group_def update_conv' sync_reply_def)
qed

theorem sync_distributes_assignments_witness:
  "snd (sync_group 8 (fst (sync_group 7 [((''o'', ''g''), demo_group GS_CompletingRebalance)] ''o'' ''g'' 3 ''a''
      [\<lparr>sga_member_id = ''b'', sga_assignment = [4, 2]\<rparr>])) ''o'' ''g'' 3 ''b'' []) =
   \<lparr>sgr_error_code = EC_None, sgr_assignment = [4, 2]\<rparr>"
proof -
  let ?g = "demo_group GS_CompletingRebalance"
  have "group_inv ?g" using demo_group_inv [of GS_CompletingRebalance] by (simp add: coord_inv_def)
  then show ?thesis
    using sync_distributes_assignments [of "[((''o'', ''g''), ?g)]" "''o''" "''g''" ?g "''a''" "''b''" "demo_member ''b''"
        7 "[\<lparr>sga_member_id = ''b'', sga_assignment = [4, 2]\<rparr>]" 8 "[]"]
    by (simp add: demo_group_def assigned_def Let_def)
qed

text \<open>
  Tenants are isolated: a request of one organization, whatever it is, leaves every group of every
  other organization exactly as it was, so neither DescribeGroups nor the contents of ListGroups change
  for them.
\<close>

theorem tenants_are_isolated:
  assumes "hash_iteration it" and "coord_inv groups" and "fst (req_key r) \<noteq> org"
  shows "map_of (coord_step it r groups) (org, gid) = map_of groups (org, gid)
    \<and> describe_group it (coord_step it r groups) org gid = describe_group it groups org gid
    \<and> set (list_groups it (coord_step it r groups) org) = set (list_groups it groups org)"
proof -
  let ?gs = "coord_step it r groups"
  have same: "map_of ?gs (org, k) = map_of groups (org, k)" for k
    using coord_step_other [of "(org, k)" r it groups] assms(3) by (cases "req_key r") auto
  have d: "distinct (map fst ?gs)" "distinct (map fst groups)"
    using coord_step_inv [OF assms(1,2), of r] assms(2) by (auto simp: coord_inv_def)
  have "((org, k), g) \<in> set ?gs \<longleftrightarrow> ((org, k), g) \<in> set groups" for k g
    by (simp only: map_of_eq_Some_iff [OF d(1), symmetric] map_of_eq_Some_iff [OF d(2), symmetric] same)
  moreover have "set (it_groups it gs) = set gs" for gs
    using assms(1) by (metis hash_iteration_def mset_eq_setD)
  ultimately have "set (filter (\<lambda>((o', _), _). o' = org) (it_groups it ?gs)) = set (filter (\<lambda>((o', _), _). o' = org) (it_groups it groups))"
    by auto
  then have "set (list_groups it ?gs org) = set (list_groups it groups org)"
    unfolding list_groups_def set_map by simp
  then show ?thesis using same [of gid] by (simp add: describe_group_def)
qed

theorem tenants_are_isolated_witness:
  "map_of (coord_step demo_iteration (LeaveReq 5 ''other'' ''g'' ''a'') [((''o'', ''g''), demo_group GS_Stable)]) (''o'', ''g'')
     = Some (demo_group GS_Stable)"
  using tenants_are_isolated [OF demo_iteration_hash demo_group_inv, of GS_Stable "LeaveReq 5 ''other'' ''g'' ''a''" "''o''" "''g''"]
  by simp

text \<open>
  Protocol selection is right when no member lists a protocol twice: the protocol chosen is one that
  every member supports, and none is chosen only when no protocol is supported by all.
\<close>

theorem select_protocol_common:
  assumes "hash_iteration it" and "cg_members g \<noteq> []"
    and "\<And>k m. (k, m) \<in> set (cg_members g) \<Longrightarrow> distinct (protocol_names m)"
  shows "case select_protocol it g of
     Some p \<Rightarrow> \<forall>(k, m)\<in>set (cg_members g). p \<in> set (protocol_names m)
   | None \<Rightarrow> \<forall>p. \<exists>(k, m)\<in>set (cg_members g). p \<notin> set (protocol_names m)"
proof -
  let ?ms = "map snd (it_members it (cg_members g))" and ?n = "length (cg_members g)"
  note facts = it_members_facts [OF assms(1)]
  let ?votes = "protocol_votes ?ms"
  have dm: "distinct (protocol_names m)" if "m \<in> set ?ms" for m using that assms(3) facts(1) by auto
  have "map_of ?votes p = (let n = length (filter (\<lambda>m. p \<in> set (protocol_names m)) ?ms) in if n = 0 then None else Some n)" for p
    using count_supporters [of ?ms p] dm by (simp add: protocol_votes_flat map_of_votes Let_def)
  moreover have "length ?ms = ?n" by (simp add: facts(5))
  moreover have "?n \<noteq> 0" using assms(2) by simp
  ultimately have "map_of ?votes p = Some ?n \<longleftrightarrow> (\<forall>m\<in>set ?ms. p \<in> set (protocol_names m))" for p
    using length_filter_all [of "\<lambda>m. p \<in> set (protocol_names m)" ?ms] by (auto simp: Let_def)
  moreover have "set (it_votes it ?votes) = set ?votes" using assms(1) by (metis hash_iteration_def mset_eq_setD)
  moreover have "(p, n) \<in> set ?votes \<longleftrightarrow> map_of ?votes p = Some n" for p n
    using map_of_eq_Some_iff [of ?votes p n] by (simp add: protocol_votes_flat distinct_votes)
  ultimately have win: "(p, ?n) \<in> set (it_votes it ?votes) \<longleftrightarrow> (\<forall>(k, m)\<in>set (cg_members g). p \<in> set (protocol_names m))" for p
    using facts(1) [of "cg_members g"] by auto
  show ?thesis
  proof (cases "filter (\<lambda>(_, n). n = ?n) (it_votes it ?votes)")
    case Nil
    then have "(p, ?n) \<notin> set (it_votes it ?votes)" for p by (auto simp: filter_empty_conv)
    then have "\<exists>x\<in>set (cg_members g). \<not> (case x of (k, m) \<Rightarrow> p \<in> set (protocol_names m))" for p
      using win [of p] by blast
    then show ?thesis using Nil assms(2) by (simp add: select_protocol_def Let_def case_prod_unfold)
  next
    case (Cons v vs)
    obtain p n where v: "v = (p, n)" by (cases v)
    have "v \<in> set (filter (\<lambda>(_, n). n = ?n) (it_votes it ?votes))" unfolding Cons by simp
    then have "(p, ?n) \<in> set (it_votes it ?votes)" using v by auto
    then have "\<forall>(k, m)\<in>set (cg_members g). p \<in> set (protocol_names m)" using win by blast
    then show ?thesis using Cons v assms(2) by (simp add: select_protocol_def Let_def)
  qed
qed

theorem select_protocol_common_witness:
  "case select_protocol demo_iteration (demo_group GS_Stable) of
     Some p \<Rightarrow> \<forall>(k, m)\<in>set (cg_members (demo_group GS_Stable)). p \<in> set (protocol_names m)
   | None \<Rightarrow> \<forall>p. \<exists>(k, m)\<in>set (cg_members (demo_group GS_Stable)). p \<notin> set (protocol_names m)"
  by (rule select_protocol_common)
    (auto simp: demo_iteration_hash demo_group_def demo_member_def protocol_names_def)

text \<open>
  A member that rejoins a stable (or completing) group with new subscription metadata is answered as
  if it had joined, but its new data is thrown away: the entry moved back from the old member table
  overwrites the one just inserted.
\<close>

theorem rejoin_discards_new_metadata:
  assumes "hash_iteration it" and "group_inv g" and "cg_state g \<in> {GS_Stable, GS_CompletingRebalance}"
    and "map_of (cg_members g) (gm_member_id new) = Some old"
  shows "map_of (cg_members (complete_join it now (admit it now new g))) (gm_member_id new) = Some old
    \<and> cg_generation_id (complete_join it now (admit it now new g)) = cg_generation_id g + 1"
  using joined_members(1) [OF assms(1,2), of now new] joined_fields(3) [OF assms(1,2), of now new] assms(3,4)
  by (auto simp: map_add_def)

theorem rejoin_discards_new_metadata_witness:
  "map_of (cg_members (complete_join demo_iteration 9 (admit demo_iteration 9
      ((demo_member ''b'')\<lparr>gm_protocols := []\<rparr>) (demo_group GS_Stable)))) ''b'' = Some (demo_member ''b'')"
proof -
  have "group_inv (demo_group GS_Stable)" using demo_group_inv [of GS_Stable] by (simp add: coord_inv_def)
  then show ?thesis
    using rejoin_discards_new_metadata [OF demo_iteration_hash, of "demo_group GS_Stable" "(demo_member ''b'')\<lparr>gm_protocols := []\<rparr>" "demo_member ''b''" 9]
    by (simp add: demo_group_def demo_member_def)
qed

end
