(* ===== verification/Metadata_Types.thy ===== *)
theory Metadata_Types
  imports Storage_Types
begin

text \<open>
  Types of the metadata store that its clients share: the errors of \<^verbatim>\<open>streamhouse-metadata/src/error.rs\<close> and the
  lease, transfer and change-reason types of \<^verbatim>\<open>types.rs\<close>. Times are milliseconds since the epoch and \<open>int\<close>: the sources keep
  them in an \<^verbatim>\<open>i64\<close> whose range (292 million years) no operation leaves. An epoch counter is a \<open>nat\<close> for the same reason.
\<close>

datatype metadata_error =
    TopicNotFound string
  | TopicAlreadyExists string
  | PartitionNotFound string u32
  | NotFoundError string
  | ConflictError string
  | DatabaseError
  | InvalidOffset string
  | SerializationError
  | MigrationError string
  | AuthenticationError string
  | AuthorizationError string
  | QuotaExceeded string
  | SequenceError string
  | InternalError string
  | TransactionError string
  | ProducerFenced string
  | NotImplemented string

type_synonym partition_key = "string \<times> u32"

record PartitionLease =
  pl_organization_id :: string
  pl_topic :: string
  pl_partition_id :: u32
  pl_leader_agent_id :: string
  pl_lease_expires_at :: int
  pl_acquired_at :: int
  pl_epoch :: nat

datatype LeaderChangeReason = LeaseExpiredReason | GracefulHandoff | AgentCrash | RebalanceReason | InitialReason

datatype LeaseTransferState = Pending | Accepted | Completing | Completed | Rejected | TimedOut | Failed

record LeaseTransfer =
  lt_transfer_id :: string
  lt_topic :: string
  lt_partition_id :: u32
  lt_from_agent_id :: string
  lt_to_agent_id :: string
  lt_from_epoch :: nat
  lt_state :: LeaseTransferState
  lt_reason :: LeaderChangeReason
  lt_initiated_at :: int
  lt_completed_at :: "int option"
  lt_timeout_at :: int
  lt_last_flushed_offset :: "u64 option"
  lt_high_watermark :: "u64 option"
  lt_error :: "string option"

definition LeaseTransferState_display :: "LeaseTransferState \<Rightarrow> string" where
  "LeaseTransferState_display s =
     (case s of Pending \<Rightarrow> ''pending'' | Accepted \<Rightarrow> ''accepted'' | Completing \<Rightarrow> ''completing'' | Completed \<Rightarrow> ''completed''
      | Rejected \<Rightarrow> ''rejected'' | TimedOut \<Rightarrow> ''timed_out'' | Failed \<Rightarrow> ''failed'')"

text \<open>The derived \<^verbatim>\<open>Debug\<close> text.\<close>

definition LeaseTransferState_debug :: "LeaseTransferState \<Rightarrow> string" where
  "LeaseTransferState_debug s =
     (case s of Pending \<Rightarrow> ''Pending'' | Accepted \<Rightarrow> ''Accepted'' | Completing \<Rightarrow> ''Completing'' | Completed \<Rightarrow> ''Completed''
      | Rejected \<Rightarrow> ''Rejected'' | TimedOut \<Rightarrow> ''TimedOut'' | Failed \<Rightarrow> ''Failed'')"

text \<open>\<^verbatim>\<open>FromStr\<close> lower-cases its input first; the store only passes text it wrote itself, which is lower case.\<close>

definition LeaseTransferState_from_str :: "string \<Rightarrow> (string, LeaseTransferState) result" where
  "LeaseTransferState_from_str s =
     (let l = map (\<lambda>ch. if of_char ch \<in> {65..90::nat} then char_of (of_char ch + 32 :: nat) else ch) s in
      if l = ''pending'' then Ok Pending else if l = ''accepted'' then Ok Accepted
      else if l = ''completing'' then Ok Completing else if l = ''completed'' then Ok Completed
      else if l = ''rejected'' then Ok Rejected else if l = ''timed_out'' then Ok TimedOut
      else if l = ''failed'' then Ok Failed else Err (''Unknown transfer state: '' @ s))"

lemma transfer_state_roundtrip: "LeaseTransferState_from_str (LeaseTransferState_display s) = Ok s"
  by (cases s) (simp_all add: LeaseTransferState_from_str_def LeaseTransferState_display_def)

end
