(* ===== verification/Lease_Store.thy ===== *)
theory Lease_Store
  imports Metadata_Types
begin

text \<open>
  The lease tables of the metadata store: the lease and transfer operations of \<^verbatim>\<open>SqliteMetadataStore\<close>
  (\<^verbatim>\<open>streamhouse-metadata/src/store.rs\<close>). A table is a map or
  a list of rows and a statement its effect on them: \<^verbatim>\<open>partition_leases\<close> is unique in topic and partition, \<^verbatim>\<open>lease_transfers\<close> in the
  transfer id. Arguments of an operation say what the database does beside that: \<open>exec_fails\<close> that the writing statement
  fails (a foreign key, a lock, the connection), in which case nothing changes, \<open>query_fails\<close> that a reading one does.
\<close>

section \<open>Tables\<close>

record lease_db =
  partition_leases :: "partition_key \<rightharpoonup> PartitionLease"
  lease_transfers :: "LeaseTransfer list"

definition lease_db_empty :: lease_db where
  "lease_db_empty = \<lparr>partition_leases = (\<lambda>_. None), lease_transfers = []\<rparr>"

definition show_partition :: "string \<Rightarrow> u32 \<Rightarrow> string" where
  "show_partition topic partition_id = topic @ ''/'' @ show_nat (unat partition_id)"

section \<open>Leases\<close>

definition get_partition_lease :: "int \<Rightarrow> string \<Rightarrow> u32 \<Rightarrow> lease_db \<Rightarrow> PartitionLease option" where
  "get_partition_lease now topic partition_id db =
     (case partition_leases db (topic, partition_id) of
        None \<Rightarrow> None
      | Some l \<Rightarrow> if pl_lease_expires_at l > now then Some l else None)"

text \<open>The \<^verbatim>\<open>INSERT ... ON CONFLICT(topic, partition_id) DO UPDATE\<close> of \<^verbatim>\<open>acquire_partition_lease\<close>.\<close>

definition upsert_lease :: "int \<Rightarrow> string \<Rightarrow> string \<Rightarrow> u32 \<Rightarrow> string \<Rightarrow> int \<Rightarrow> lease_db \<Rightarrow> lease_db" where
  "upsert_lease now organization_id topic partition_id agent_id expires_at db =
     (case partition_leases db (topic, partition_id) of
        None \<Rightarrow>
          db\<lparr>partition_leases := (partition_leases db)((topic, partition_id) \<mapsto>
               \<lparr>pl_organization_id = organization_id, pl_topic = topic, pl_partition_id = partition_id,
                pl_leader_agent_id = agent_id, pl_lease_expires_at = expires_at, pl_acquired_at = now, pl_epoch = 1\<rparr>)\<rparr>
      | Some l \<Rightarrow>
          if agent_id = pl_leader_agent_id l \<or> pl_lease_expires_at l < now
          then db\<lparr>partition_leases := (partition_leases db)((topic, partition_id) \<mapsto>
                 l\<lparr>pl_leader_agent_id := agent_id, pl_lease_expires_at := expires_at, pl_acquired_at := now,
                   pl_epoch := pl_epoch l + 1\<rparr>)\<rparr>
          else db)"

definition acquire_partition_lease ::
  "bool \<Rightarrow> bool \<Rightarrow> int \<Rightarrow> string \<Rightarrow> string \<Rightarrow> u32 \<Rightarrow> string \<Rightarrow> int \<Rightarrow> lease_db
     \<Rightarrow> lease_db \<times> (metadata_error, PartitionLease) result" where
  "acquire_partition_lease exec_fails query_fails now organization_id topic partition_id agent_id lease_duration_ms db =
     (if exec_fails then (db, Err DatabaseError)
      else let db1 = upsert_lease now organization_id topic partition_id agent_id (now + lease_duration_ms) db in
        if query_fails then (db1, Err DatabaseError)
        else (db1,
          case get_partition_lease now topic partition_id db1 of
            Some lease \<Rightarrow>
              if pl_leader_agent_id lease = agent_id then Ok lease
              else Err (ConflictError (''Partition '' @ show_partition topic partition_id @ '' is already leased to another agent''))
          | None \<Rightarrow>
              Err (NotFoundError (''Lease for partition '' @ show_partition topic partition_id @ '' not found after acquisition''))))"

definition release_partition_lease ::
  "bool \<Rightarrow> string \<Rightarrow> u32 \<Rightarrow> string \<Rightarrow> lease_db \<Rightarrow> lease_db \<times> (metadata_error, unit) result" where
  "release_partition_lease exec_fails topic partition_id agent_id db =
     (if exec_fails then (db, Err DatabaseError)
      else case partition_leases db (topic, partition_id) of
        Some l \<Rightarrow>
          if pl_leader_agent_id l = agent_id
          then (db\<lparr>partition_leases := (partition_leases db)((topic, partition_id) := None)\<rparr>, Ok ())
          else (db, Err (NotFoundError (''No lease found for partition '' @ show_partition topic partition_id
                          @ '' held by agent '' @ agent_id)))
      | None \<Rightarrow> (db, Err (NotFoundError (''No lease found for partition '' @ show_partition topic partition_id
                          @ '' held by agent '' @ agent_id))))"

section \<open>Transfers\<close>

definition get_lease_transfer :: "string \<Rightarrow> lease_db \<Rightarrow> LeaseTransfer option" where
  "get_lease_transfer transfer_id db = List.find (\<lambda>t. lt_transfer_id t = transfer_id) (lease_transfers db)"

definition update_transfers :: "(LeaseTransfer \<Rightarrow> bool) \<Rightarrow> (LeaseTransfer \<Rightarrow> LeaseTransfer) \<Rightarrow> lease_db \<Rightarrow> lease_db" where
  "update_transfers P f db = db\<lparr>lease_transfers := map (\<lambda>t. if P t then f t else t) (lease_transfers db)\<rparr>"

definition in_progress :: "LeaseTransferState \<Rightarrow> bool" where
  "in_progress s = (s = Pending \<or> s = Accepted \<or> s = Completing)"

text \<open>\<open>transfer_id\<close> is the random UUID the source generates.\<close>

definition initiate_lease_transfer ::
  "bool \<Rightarrow> bool \<Rightarrow> int \<Rightarrow> string \<Rightarrow> string \<Rightarrow> u32 \<Rightarrow> string \<Rightarrow> string \<Rightarrow> LeaderChangeReason \<Rightarrow> u32 \<Rightarrow> lease_db
     \<Rightarrow> lease_db \<times> (metadata_error, LeaseTransfer) result" where
  "initiate_lease_transfer exec_fails query_fails now transfer_id topic partition_id from_agent_id to_agent_id reason timeout_ms db =
     (if query_fails then (db, Err DatabaseError) else
      case get_partition_lease now topic partition_id db of
        None \<Rightarrow> (db, Err (NotFoundError (''No lease found for partition '' @ show_partition topic partition_id)))
      | Some lease \<Rightarrow>
          if pl_leader_agent_id lease \<noteq> from_agent_id
          then (db, Err (ConflictError (''Partition '' @ show_partition topic partition_id @ '' is not held by agent '' @ from_agent_id)))
          else if \<exists>t\<in>set (lease_transfers db). lt_topic t = topic \<and> lt_partition_id t = partition_id \<and> in_progress (lt_state t)
          then (db, Err (ConflictError (''A transfer is already in progress for partition '' @ show_partition topic partition_id)))
          else if exec_fails then (db, Err DatabaseError)
          else let t = \<lparr>lt_transfer_id = transfer_id, lt_topic = topic, lt_partition_id = partition_id,
                 lt_from_agent_id = from_agent_id, lt_to_agent_id = to_agent_id, lt_from_epoch = pl_epoch lease,
                 lt_state = Pending, lt_reason = reason, lt_initiated_at = now, lt_completed_at = None,
                 lt_timeout_at = now + uint timeout_ms, lt_last_flushed_offset = None, lt_high_watermark = None, lt_error = None\<rparr>
               in (db\<lparr>lease_transfers := lease_transfers db @ [t]\<rparr>, Ok t))"

definition accept_lease_transfer ::
  "bool \<Rightarrow> bool \<Rightarrow> int \<Rightarrow> string \<Rightarrow> string \<Rightarrow> lease_db \<Rightarrow> lease_db \<times> (metadata_error, LeaseTransfer) result" where
  "accept_lease_transfer exec_fails query_fails now transfer_id agent_id db =
     (if query_fails then (db, Err DatabaseError) else
      case get_lease_transfer transfer_id db of
        None \<Rightarrow> (db, Err (NotFoundError (''Transfer '' @ transfer_id @ '' not found'')))
      | Some t \<Rightarrow>
          if lt_state t \<noteq> Pending then (db, Err (ConflictError (''Transfer '' @ transfer_id @ '' is in state '' @ LeaseTransferState_debug (lt_state t) @ '', not pending'')))
          else if lt_to_agent_id t \<noteq> agent_id
          then (db, Err (ConflictError (''Transfer '' @ transfer_id @ '' is for agent '' @ lt_to_agent_id t @ '', not '' @ agent_id)))
          else if now > lt_timeout_at t then (db, Err (ConflictError (''Transfer '' @ transfer_id @ '' has timed out'')))
          else if exec_fails then (db, Err DatabaseError)
          else (update_transfers (\<lambda>u. lt_transfer_id u = transfer_id) (\<lambda>u. u\<lparr>lt_state := Accepted\<rparr>) db,
                Ok (t\<lparr>lt_state := Accepted\<rparr>)))"

text \<open>
  The statements of \<^verbatim>\<open>complete_lease_transfer\<close> run in one transaction: either all of them take effect or none. The log of leader
  changes it also writes is read by nothing and left out.
\<close>

definition complete_lease_transfer ::
  "bool \<Rightarrow> bool \<Rightarrow> int \<Rightarrow> string \<Rightarrow> u64 \<Rightarrow> u64 \<Rightarrow> lease_db \<Rightarrow> lease_db \<times> (metadata_error, PartitionLease) result" where
  "complete_lease_transfer exec_fails query_fails now transfer_id last_flushed_offset high_watermark db =
     (if query_fails then (db, Err DatabaseError) else
      case get_lease_transfer transfer_id db of
        None \<Rightarrow> (db, Err (NotFoundError (''Transfer '' @ transfer_id @ '' not found'')))
      | Some t \<Rightarrow>
          if lt_state t \<noteq> Accepted then (db, Err (ConflictError (''Transfer '' @ transfer_id @ '' is in state '' @ LeaseTransferState_debug (lt_state t) @ '', not accepted'')))
          else if exec_fails then (db, Err DatabaseError)
          else let k = (lt_topic t, lt_partition_id t); new_epoch = lt_from_epoch t + 1; lease_expires_at = now + 30000;
                 db1 = update_transfers (\<lambda>u. lt_transfer_id u = transfer_id)
                   (\<lambda>u. u\<lparr>lt_state := Completed, lt_completed_at := Some now, lt_last_flushed_offset := Some last_flushed_offset,
                          lt_high_watermark := Some high_watermark\<rparr>) db;
                 db2 = db1\<lparr>partition_leases := (partition_leases db1)(k := map_option
                   (\<lambda>l. l\<lparr>pl_leader_agent_id := lt_to_agent_id t, pl_epoch := new_epoch, pl_lease_expires_at := lease_expires_at,
                          pl_acquired_at := now\<rparr>) (partition_leases db1 k))\<rparr>
               in (db2, Ok \<lparr>pl_organization_id = '''', pl_topic = lt_topic t, pl_partition_id = lt_partition_id t,
                     pl_leader_agent_id = lt_to_agent_id t, pl_lease_expires_at = lease_expires_at, pl_acquired_at = now,
                     pl_epoch = new_epoch\<rparr>))"

definition reject_lease_transfer ::
  "bool \<Rightarrow> int \<Rightarrow> string \<Rightarrow> string \<Rightarrow> lease_db \<Rightarrow> lease_db \<times> (metadata_error, unit) result" where
  "reject_lease_transfer exec_fails now transfer_id reason db =
     (if exec_fails then (db, Err DatabaseError)
      else let P = (\<lambda>t. lt_transfer_id t = transfer_id \<and> (lt_state t = Pending \<or> lt_state t = Accepted)) in
        if \<exists>t\<in>set (lease_transfers db). P t
        then (update_transfers P (\<lambda>t. t\<lparr>lt_state := Rejected, lt_completed_at := Some now, lt_error := Some reason\<rparr>) db, Ok ())
        else (db, Err (ConflictError (''Transfer '' @ transfer_id @ '' not found or already completed''))))"

definition get_pending_transfers_for_agent :: "string \<Rightarrow> lease_db \<Rightarrow> LeaseTransfer list" where
  "get_pending_transfers_for_agent agent_id db =
     sort_key lt_initiated_at (filter (\<lambda>t. (lt_from_agent_id t = agent_id \<or> lt_to_agent_id t = agent_id) \<and> in_progress (lt_state t))
       (lease_transfers db))"

definition cleanup_timed_out_transfers :: "int \<Rightarrow> lease_db \<Rightarrow> lease_db \<times> nat" where
  "cleanup_timed_out_transfers now db =
     (let P = (\<lambda>t. (lt_state t = Pending \<or> lt_state t = Accepted) \<and> lt_timeout_at t < now)
      in (update_transfers P (\<lambda>t. t\<lparr>lt_state := TimedOut, lt_completed_at := Some now, lt_error := Some ''Transfer timed out''\<rparr>) db,
          length (filter P (lease_transfers db))))"

section \<open>The stores as trait objects\<close>

text \<open>
  The agent sees a store as \<^verbatim>\<open>dyn MetadataStore\<close>: a record of the operations it calls. \<open>db_env\<close> says what the database does
  during a call.
\<close>

record 'db MetadataStore =
  ms_get_topic_organization_id :: "string \<Rightarrow> 'db \<Rightarrow> (metadata_error, string option) result"
  ms_acquire_partition_lease :: "int \<Rightarrow> string \<Rightarrow> string \<Rightarrow> u32 \<Rightarrow> string \<Rightarrow> int \<Rightarrow> 'db \<Rightarrow> 'db \<times> (metadata_error, PartitionLease) result"
  ms_release_partition_lease :: "string \<Rightarrow> u32 \<Rightarrow> string \<Rightarrow> 'db \<Rightarrow> 'db \<times> (metadata_error, unit) result"
  ms_initiate_lease_transfer ::
    "int \<Rightarrow> string \<Rightarrow> u32 \<Rightarrow> string \<Rightarrow> string \<Rightarrow> LeaderChangeReason \<Rightarrow> u32 \<Rightarrow> 'db \<Rightarrow> 'db \<times> (metadata_error, LeaseTransfer) result"
  ms_accept_lease_transfer :: "int \<Rightarrow> string \<Rightarrow> string \<Rightarrow> 'db \<Rightarrow> 'db \<times> (metadata_error, LeaseTransfer) result"
  ms_complete_lease_transfer :: "int \<Rightarrow> string \<Rightarrow> u64 \<Rightarrow> u64 \<Rightarrow> 'db \<Rightarrow> 'db \<times> (metadata_error, PartitionLease) result"
  ms_reject_lease_transfer :: "int \<Rightarrow> string \<Rightarrow> string \<Rightarrow> string \<Rightarrow> 'db \<Rightarrow> 'db \<times> (metadata_error, unit) result"
  ms_get_pending_transfers_for_agent :: "string \<Rightarrow> 'db \<Rightarrow> (metadata_error, LeaseTransfer list) result"

record db_env =
  de_exec_fails :: bool
  de_acquire_fails :: bool
  de_query_fails :: bool
  de_uuid_fails :: "string \<Rightarrow> bool"
  de_topic_org :: "string \<Rightarrow> (metadata_error, string option) result"
  de_transfer_id :: string

definition sqlite_store :: "db_env \<Rightarrow> lease_db MetadataStore" where
  "sqlite_store env =
     \<lparr>ms_get_topic_organization_id = (\<lambda>topic _. de_topic_org env topic),
      ms_acquire_partition_lease = acquire_partition_lease (de_exec_fails env) (de_query_fails env),
      ms_release_partition_lease = release_partition_lease (de_exec_fails env),
      ms_initiate_lease_transfer = (\<lambda>now. initiate_lease_transfer (de_exec_fails env) (de_query_fails env) now (de_transfer_id env)),
      ms_accept_lease_transfer = accept_lease_transfer (de_exec_fails env) (de_query_fails env),
      ms_complete_lease_transfer = complete_lease_transfer (de_exec_fails env) (de_query_fails env),
      ms_reject_lease_transfer = (\<lambda>now transfer_id _. reject_lease_transfer (de_exec_fails env) now transfer_id),
      ms_get_pending_transfers_for_agent =
        (\<lambda>agent_id db. if de_query_fails env then Err DatabaseError else Ok (get_pending_transfers_for_agent agent_id db))\<rparr>"

end
