(* ===== verification/Lease_Manager.thy ===== *)
theory Lease_Manager
  imports Lease_Store "HOL-Library.AList"
begin

text \<open>
  The lease manager of an agent, \<^verbatim>\<open>streamhouse-agent/src/lease_manager.rs\<close>: a cache of the leases the agent holds, in front of the
  metadata store, with acquisition, renewal, release, transfer and the epoch check before a write. The cache is an
  association list; its order stands for the arbitrary order of the hash map. An operation reads the clock as \<open>now\<close> and gets the
  store as an argument. The background tasks are the functions they run per pass.
\<close>

section \<open>State and errors\<close>

datatype AgentError =
    NotStarted
  | AlreadyStarted
  | LeaseHeldByOther string
  | LeaseExpired string u32
  | StaleEpoch nat nat
  | Metadata metadata_error
  | Storage string
  | AgentIo
  | AgentJoin

record CachedLease =
  cl_topic :: string
  cl_partition_id :: u32
  cl_epoch :: nat
  cl_expires_at :: int

record LeaseManager =
  lm_agent_id :: string
  lm_leases :: "(partition_key \<times> CachedLease) list"

definition DEFAULT_LEASE_DURATION_MS :: int where "DEFAULT_LEASE_DURATION_MS = 300000"

definition LeaseManager_new :: "string \<Rightarrow> LeaseManager" where
  "LeaseManager_new agent_id = \<lparr>lm_agent_id = agent_id, lm_leases = []\<rparr>"

definition is_expired :: "int \<Rightarrow> int \<Rightarrow> bool" where
  "is_expired now expires_at = (now \<ge> expires_at)"

section \<open>Acquiring and releasing\<close>

definition get_epoch :: "int \<Rightarrow> string \<Rightarrow> u32 \<Rightarrow> LeaseManager \<Rightarrow> nat option" where
  "get_epoch now topic partition_id lm =
     (case map_of (lm_leases lm) (topic, partition_id) of
        None \<Rightarrow> None
      | Some lease \<Rightarrow> if is_expired now (cl_expires_at lease) then None else Some (cl_epoch lease))"

definition cache_lease :: "string \<Rightarrow> u32 \<Rightarrow> PartitionLease \<Rightarrow> LeaseManager \<Rightarrow> LeaseManager" where
  "cache_lease topic partition_id lease lm =
     lm\<lparr>lm_leases := AList.update (topic, partition_id)
          \<lparr>cl_topic = topic, cl_partition_id = partition_id, cl_epoch = pl_epoch lease, cl_expires_at = pl_lease_expires_at lease\<rparr>
          (lm_leases lm)\<rparr>"

definition no_organization :: "string \<Rightarrow> string \<Rightarrow> AgentError" where
  "no_organization topic what =
     Metadata (InternalError (''Topic '' @ [CHR 0x27] @ topic @ [CHR 0x27] @ '' has no organization ID ''
       @ [CHR 0xE2, CHR 0x80, CHR 0x94] @ '' cannot '' @ what @ '' lease''))"

definition acquire_with ::
  "string \<Rightarrow> 'db MetadataStore \<Rightarrow> int \<Rightarrow> string \<Rightarrow> u32 \<Rightarrow> LeaseManager \<Rightarrow> 'db \<Rightarrow> LeaseManager \<times> 'db \<times> (AgentError, PartitionLease) result" where
  "acquire_with what ms now topic partition_id lm db =
     (case ms_get_topic_organization_id ms topic db of
        Err e \<Rightarrow> (lm, db, Err (Metadata e))
      | Panic \<Rightarrow> (lm, db, Panic)
      | Ok None \<Rightarrow> (lm, db, Err (no_organization topic what))
      | Ok (Some org_id) \<Rightarrow>
          (let (db1, acquired) = ms_acquire_partition_lease ms now org_id topic partition_id (lm_agent_id lm)
                 DEFAULT_LEASE_DURATION_MS db
           in case acquired of
                Err e \<Rightarrow> (lm, db1, Err (Metadata e))
              | Panic \<Rightarrow> (lm, db1, Panic)
              | Ok lease \<Rightarrow> (cache_lease topic partition_id lease lm, db1, Ok lease)))"

definition acquire_lease ::
  "'db MetadataStore \<Rightarrow> int \<Rightarrow> string \<Rightarrow> u32 \<Rightarrow> LeaseManager \<Rightarrow> 'db \<Rightarrow> LeaseManager \<times> 'db \<times> (AgentError, nat) result" where
  "acquire_lease ms now topic partition_id lm db =
     (let (lm1, db1, r) = acquire_with ''acquire'' ms now topic partition_id lm db
      in (lm1, db1, rbind r (\<lambda>lease. Ok (pl_epoch lease))))"

definition ensure_lease ::
  "'db MetadataStore \<Rightarrow> int \<Rightarrow> string \<Rightarrow> u32 \<Rightarrow> LeaseManager \<Rightarrow> 'db \<Rightarrow> LeaseManager \<times> 'db \<times> (AgentError, nat) result" where
  "ensure_lease ms now topic partition_id lm db =
     (case get_epoch now topic partition_id lm of
        Some epoch \<Rightarrow> (lm, db, Ok epoch)
      | None \<Rightarrow> acquire_lease ms now topic partition_id lm db)"

definition drop_lease :: "string \<Rightarrow> u32 \<Rightarrow> LeaseManager \<Rightarrow> LeaseManager" where
  "drop_lease topic partition_id lm = lm\<lparr>lm_leases := AList.delete (topic, partition_id) (lm_leases lm)\<rparr>"

definition release_lease ::
  "'db MetadataStore \<Rightarrow> string \<Rightarrow> u32 \<Rightarrow> LeaseManager \<Rightarrow> 'db \<Rightarrow> LeaseManager \<times> 'db \<times> (AgentError, unit) result" where
  "release_lease ms topic partition_id lm db =
     (let (db1, r) = ms_release_partition_lease ms topic partition_id (lm_agent_id lm) db
      in (drop_lease topic partition_id lm, db1, map_err Metadata r))"

text \<open>\<open>ms i\<close> is the store as the \<open>i\<close>-th call of a loop sees it. A failed release is only logged.\<close>

definition release_all_leases ::
  "(nat \<Rightarrow> 'db MetadataStore) \<Rightarrow> LeaseManager \<Rightarrow> 'db \<Rightarrow> LeaseManager \<times> 'db \<times> (AgentError, unit) result" where
  "release_all_leases ms lm db =
     (let (lm1, db1) = fold (\<lambda>(i, (t, p)) (lm, db). let (lm', db', _) = release_lease (ms i) t p lm db in (lm', db'))
            (enumerate 0 (map fst (lm_leases lm))) (lm, db)
      in (lm1, db1, Ok ()))"

definition get_active_leases :: "int \<Rightarrow> LeaseManager \<Rightarrow> (string \<times> u32 \<times> nat) list" where
  "get_active_leases now lm =
     map (\<lambda>l. (cl_topic l, cl_partition_id l, cl_epoch l)) (filter (\<lambda>l. \<not> is_expired now (cl_expires_at l)) (map snd (lm_leases lm)))"

definition validate_epoch :: "int \<Rightarrow> string \<Rightarrow> u32 \<Rightarrow> nat \<Rightarrow> LeaseManager \<Rightarrow> (AgentError, unit) result" where
  "validate_epoch now topic partition_id expected_epoch lm =
     (case get_epoch now topic partition_id lm of
        Some current_epoch \<Rightarrow> if current_epoch = expected_epoch then Ok () else Err (StaleEpoch expected_epoch current_epoch)
      | None \<Rightarrow> Err (LeaseExpired topic partition_id))"

section \<open>Renewal\<close>

definition renew_lease ::
  "'db MetadataStore \<Rightarrow> int \<Rightarrow> string \<Rightarrow> u32 \<Rightarrow> LeaseManager \<Rightarrow> 'db \<Rightarrow> LeaseManager \<times> 'db \<times> (AgentError, unit) result" where
  "renew_lease ms now topic partition_id lm db =
     (let (lm1, db1, r) = acquire_with ''renew'' ms now topic partition_id lm db
      in (lm1, db1, rbind r (\<lambda>_. Ok ())))"

text \<open>Renewing one lease in the background task: a failed renewal evicts the lease only when it has expired.\<close>

definition renew_one ::
  "'db MetadataStore \<Rightarrow> int \<Rightarrow> string \<Rightarrow> u32 \<Rightarrow> LeaseManager \<Rightarrow> 'db \<Rightarrow> LeaseManager \<times> 'db" where
  "renew_one ms now topic partition_id lm db =
     (case renew_lease ms now topic partition_id lm db of
        (lm1, db1, Ok _) \<Rightarrow> (lm1, db1)
      | (lm1, db1, _) \<Rightarrow>
          if (case map_of (lm_leases lm1) (topic, partition_id) of None \<Rightarrow> True | Some l \<Rightarrow> is_expired now (cl_expires_at l))
          then (drop_lease topic partition_id lm1, db1)
          else (lm1, db1))"

definition leases_to_renew :: "int \<Rightarrow> LeaseManager \<Rightarrow> partition_key list" where
  "leases_to_renew now lm = map fst (filter (\<lambda>(_, l). \<not> is_expired now (cl_expires_at l)) (lm_leases lm))"

definition renewal_pass ::
  "(nat \<Rightarrow> 'db MetadataStore) \<Rightarrow> (nat \<Rightarrow> int) \<Rightarrow> int \<Rightarrow> LeaseManager \<Rightarrow> 'db \<Rightarrow> LeaseManager \<times> 'db" where
  "renewal_pass ms clock now lm db =
     fold (\<lambda>(i, (t, p)) (lm, db). renew_one (ms i) (clock i) t p lm db) (enumerate 0 (leases_to_renew now lm)) (lm, db)"

section \<open>Transfers\<close>

definition initiate_transfer ::
  "'db MetadataStore \<Rightarrow> 'db MetadataStore \<Rightarrow> int \<Rightarrow> string \<Rightarrow> u32 \<Rightarrow> string \<Rightarrow> LeaderChangeReason \<Rightarrow> u32 \<Rightarrow> LeaseManager \<Rightarrow> 'db
     \<Rightarrow> LeaseManager \<times> 'db \<times> (AgentError, string) result" where
  "initiate_transfer ms ms' now topic partition_id to_agent_id reason timeout_ms lm db =
     (case ensure_lease ms now topic partition_id lm db of
        (lm1, db1, Err e) \<Rightarrow> (lm1, db1, Err e)
      | (lm1, db1, Panic) \<Rightarrow> (lm1, db1, Panic)
      | (lm1, db1, Ok _) \<Rightarrow>
          (let (db2, r) = ms_initiate_lease_transfer ms' now topic partition_id (lm_agent_id lm1) to_agent_id reason timeout_ms db1
           in (lm1, db2, rbind (map_err Metadata r) (\<lambda>t. Ok (lt_transfer_id t)))))"

definition complete_transfer ::
  "'db MetadataStore \<Rightarrow> int \<Rightarrow> string \<Rightarrow> u64 \<Rightarrow> u64 \<Rightarrow> LeaseManager \<Rightarrow> 'db \<Rightarrow> LeaseManager \<times> 'db \<times> (AgentError, unit) result" where
  "complete_transfer ms now transfer_id last_flushed_offset high_watermark lm db =
     (case ms_complete_lease_transfer ms now transfer_id last_flushed_offset high_watermark db of
        (db1, Err e) \<Rightarrow> (lm, db1, Err (Metadata e))
      | (db1, Panic) \<Rightarrow> (lm, db1, Panic)
      | (db1, Ok lease) \<Rightarrow> (drop_lease (pl_topic lease) (pl_partition_id lease) lm, db1, Ok ()))"

definition accept_transfer ::
  "'db MetadataStore \<Rightarrow> int \<Rightarrow> string \<Rightarrow> LeaseManager \<Rightarrow> 'db \<Rightarrow> 'db \<times> (AgentError, unit) result" where
  "accept_transfer ms now transfer_id lm db =
     (let (db1, r) = ms_accept_lease_transfer ms now transfer_id (lm_agent_id lm) db
      in (db1, rbind (map_err Metadata r) (\<lambda>_. Ok ())))"

definition reject_transfer ::
  "'db MetadataStore \<Rightarrow> int \<Rightarrow> string \<Rightarrow> string \<Rightarrow> LeaseManager \<Rightarrow> 'db \<Rightarrow> 'db \<times> (AgentError, unit) result" where
  "reject_transfer ms now transfer_id reason lm db =
     (let (db1, r) = ms_reject_lease_transfer ms now transfer_id (lm_agent_id lm) reason db in (db1, map_err Metadata r))"

definition get_incoming_transfers :: "'db MetadataStore \<Rightarrow> LeaseManager \<Rightarrow> 'db \<Rightarrow> (AgentError, LeaseTransfer list) result" where
  "get_incoming_transfers ms lm db =
     rbind (map_err Metadata (ms_get_pending_transfers_for_agent ms (lm_agent_id lm) db))
       (\<lambda>ts. Ok (filter (\<lambda>t. lt_to_agent_id t = lm_agent_id lm) ts))"

definition transfer_or_release ::
  "(nat \<Rightarrow> 'db MetadataStore) \<Rightarrow> (nat \<Rightarrow> int) \<Rightarrow> string list \<Rightarrow> u32 \<Rightarrow> nat \<times> partition_key \<Rightarrow> LeaseManager \<times> 'db \<Rightarrow> LeaseManager \<times> 'db" where
  "transfer_or_release ms clock available_agents timeout_ms ik s =
     (case (ik, s) of ((i, (t, p)), (lm, db)) \<Rightarrow>
        (case initiate_transfer (ms (3 * i)) (ms (3 * i + 1)) (clock i) t p (available_agents ! (i mod length available_agents))
                GracefulHandoff timeout_ms lm db of
           (lm1, db1, Ok _) \<Rightarrow> (lm1, db1)
         | (lm1, db1, _) \<Rightarrow> (let (lm2, db2, _) = release_lease (ms (3 * i + 2)) t p lm1 db1 in (lm2, db2))))"

definition transfer_all_leases ::
  "(nat \<Rightarrow> 'db MetadataStore) \<Rightarrow> (nat \<Rightarrow> int) \<Rightarrow> string list \<Rightarrow> u32 \<Rightarrow> LeaseManager \<Rightarrow> 'db
     \<Rightarrow> LeaseManager \<times> 'db \<times> (AgentError, unit) result" where
  "transfer_all_leases ms clock available_agents timeout_ms lm db =
     (if lm_leases lm = [] then (lm, db, Ok ())
      else if available_agents = [] then release_all_leases ms lm db
      else let (lm1, db1) = fold (transfer_or_release ms clock available_agents timeout_ms)
             (enumerate 0 (map fst (lm_leases lm))) (lm, db)
           in (lm1, db1, Ok ()))"

end
