(* ===== verification/Lease_Store_Postgres.thy ===== *)
theory Lease_Store_Postgres
  imports Lease_Store
begin

text \<open>
  The lease and transfer operations of the Postgres store (\<^verbatim>\<open>streamhouse-metadata/src/postgres.rs\<close>), over the same tables. \<open>uuid_fails\<close>
  says which organization ids do not parse as a UUID; the parser is another package. The text of its error is left out.
\<close>

definition pg_acquire_partition_lease ::
  "(string \<Rightarrow> bool) \<Rightarrow> bool \<Rightarrow> bool \<Rightarrow> int \<Rightarrow> string \<Rightarrow> string \<Rightarrow> u32 \<Rightarrow> string \<Rightarrow> int \<Rightarrow> lease_db
     \<Rightarrow> lease_db \<times> (metadata_error, PartitionLease) result" where
  "pg_acquire_partition_lease uuid_fails exec_fails query_fails now organization_id topic partition_id agent_id lease_duration_ms db =
     (if uuid_fails organization_id then (db, Err (InternalError (''invalid organization_id '' @ organization_id)))
      else if exec_fails then (db, Err DatabaseError)
      else let db1 = upsert_lease now organization_id topic partition_id agent_id (now + lease_duration_ms) db in
        if query_fails then (db1, Err DatabaseError)
        else (db1,
          case get_partition_lease now topic partition_id db1 of
            Some lease \<Rightarrow>
              if pl_leader_agent_id lease = agent_id then Ok lease
              else Err (ConflictError (''Partition '' @ show_partition topic partition_id @ '' is already leased to another agent''))
          | None \<Rightarrow>
              Err (NotFoundError (''Lease for partition '' @ show_partition topic partition_id @ '' not found after acquisition''))))"

definition pg_initiate_lease_transfer ::
  "bool \<Rightarrow> bool \<Rightarrow> int \<Rightarrow> string \<Rightarrow> string \<Rightarrow> u32 \<Rightarrow> string \<Rightarrow> string \<Rightarrow> LeaderChangeReason \<Rightarrow> u32 \<Rightarrow> lease_db
     \<Rightarrow> lease_db \<times> (metadata_error, LeaseTransfer) result" where
  "pg_initiate_lease_transfer exec_fails query_fails now transfer_id topic partition_id from_agent_id to_agent_id reason timeout_ms db =
     (if query_fails then (db, Err DatabaseError) else
      case get_partition_lease now topic partition_id db of
        None \<Rightarrow> (db, Err (NotFoundError (''No lease for '' @ show_partition topic partition_id)))
      | Some lease \<Rightarrow>
          if pl_leader_agent_id lease \<noteq> from_agent_id
          then (db, Err (ConflictError (''Agent '' @ from_agent_id @ '' is not the current leader'')))
          else if exec_fails then (db, Err DatabaseError)
          else let t = \<lparr>lt_transfer_id = transfer_id, lt_topic = topic, lt_partition_id = partition_id,
                 lt_from_agent_id = from_agent_id, lt_to_agent_id = to_agent_id, lt_from_epoch = pl_epoch lease,
                 lt_state = Pending, lt_reason = reason, lt_initiated_at = now, lt_completed_at = None,
                 lt_timeout_at = now + uint timeout_ms, lt_last_flushed_offset = None, lt_high_watermark = None, lt_error = None\<rparr>
               in (db\<lparr>lease_transfers := lease_transfers db @ [t]\<rparr>, Ok t))"

definition pg_accept_lease_transfer ::
  "bool \<Rightarrow> bool \<Rightarrow> string \<Rightarrow> string \<Rightarrow> lease_db \<Rightarrow> lease_db \<times> (metadata_error, LeaseTransfer) result" where
  "pg_accept_lease_transfer exec_fails query_fails transfer_id agent_id db =
     (if exec_fails then (db, Err DatabaseError)
      else let P = (\<lambda>t. lt_transfer_id t = transfer_id \<and> lt_to_agent_id t = agent_id \<and> lt_state t = Pending) in
        if \<not> (\<exists>t\<in>set (lease_transfers db). P t)
        then (db, Err (NotFoundError (''Transfer '' @ transfer_id @ '' not found or not pending for agent '' @ agent_id)))
        else let db1 = update_transfers P (\<lambda>t. t\<lparr>lt_state := Accepted\<rparr>) db
             in (db1, if query_fails then Err DatabaseError
                      else ok_or (NotFoundError (''Transfer '' @ transfer_id @ '' not found'')) (get_lease_transfer transfer_id db1)))"

text \<open>
  A transfer is completed by an ordinary acquisition for the target agent after it has been marked completed, in separate
  statements; \<open>acquire_fails\<close> and \<open>query_fails\<close> are the outcomes of the acquisition.
\<close>

definition pg_complete_lease_transfer ::
  "(string \<Rightarrow> bool) \<Rightarrow> bool \<Rightarrow> bool \<Rightarrow> bool \<Rightarrow> int \<Rightarrow> string \<Rightarrow> u64 \<Rightarrow> u64 \<Rightarrow> lease_db
     \<Rightarrow> lease_db \<times> (metadata_error, PartitionLease) result" where
  "pg_complete_lease_transfer uuid_fails exec_fails acquire_fails query_fails now transfer_id last_flushed_offset high_watermark db =
     (case get_lease_transfer transfer_id db of
        None \<Rightarrow> (db, Err (NotFoundError (''Transfer '' @ transfer_id @ '' not found'')))
      | Some t \<Rightarrow>
          if lt_state t \<noteq> Accepted then (db, Err (ConflictError (''Transfer '' @ transfer_id @ '' is not in accepted state'')))
          else if exec_fails then (db, Err DatabaseError)
          else let db1 = update_transfers (\<lambda>u. lt_transfer_id u = transfer_id)
                 (\<lambda>u. u\<lparr>lt_state := Completed, lt_completed_at := Some now, lt_last_flushed_offset := Some last_flushed_offset,
                        lt_high_watermark := Some high_watermark\<rparr>) db;
                 org_id = (case get_partition_lease now (lt_topic t) (lt_partition_id t) db1 of
                             None \<Rightarrow> [] | Some l \<Rightarrow> pl_organization_id l)
               in pg_acquire_partition_lease uuid_fails acquire_fails query_fails now org_id (lt_topic t) (lt_partition_id t)
                    (lt_to_agent_id t) 30000 db1)"

definition pg_reject_lease_transfer ::
  "bool \<Rightarrow> string \<Rightarrow> string \<Rightarrow> string \<Rightarrow> lease_db \<Rightarrow> lease_db \<times> (metadata_error, unit) result" where
  "pg_reject_lease_transfer exec_fails transfer_id agent_id reason db =
     (if exec_fails then (db, Err DatabaseError)
      else let P = (\<lambda>t. lt_transfer_id t = transfer_id \<and> (lt_from_agent_id t = agent_id \<or> lt_to_agent_id t = agent_id)
                       \<and> (lt_state t = Pending \<or> lt_state t = Accepted)) in
        if \<exists>t\<in>set (lease_transfers db). P t
        then (update_transfers P (\<lambda>t. t\<lparr>lt_state := Rejected, lt_error := Some reason\<rparr>) db, Ok ())
        else (db, Err (NotFoundError (''Transfer '' @ transfer_id @ '' not found or not in rejectable state''))))"

definition pg_get_pending_transfers_for_agent :: "string \<Rightarrow> lease_db \<Rightarrow> LeaseTransfer list" where
  "pg_get_pending_transfers_for_agent agent_id db =
     sort_key lt_initiated_at (filter (\<lambda>t. (lt_from_agent_id t = agent_id \<or> lt_to_agent_id t = agent_id)
         \<and> (lt_state t = Pending \<or> lt_state t = Accepted)) (lease_transfers db))"

definition postgres_store :: "db_env \<Rightarrow> lease_db MetadataStore" where
  "postgres_store env =
     \<lparr>ms_get_topic_organization_id = (\<lambda>topic _. de_topic_org env topic),
      ms_acquire_partition_lease = pg_acquire_partition_lease (de_uuid_fails env) (de_exec_fails env) (de_query_fails env),
      ms_release_partition_lease = release_partition_lease (de_exec_fails env),
      ms_initiate_lease_transfer = (\<lambda>now. pg_initiate_lease_transfer (de_exec_fails env) (de_query_fails env) now (de_transfer_id env)),
      ms_accept_lease_transfer = (\<lambda>_. pg_accept_lease_transfer (de_exec_fails env) (de_query_fails env)),
      ms_complete_lease_transfer =
        pg_complete_lease_transfer (de_uuid_fails env) (de_exec_fails env) (de_acquire_fails env) (de_query_fails env),
      ms_reject_lease_transfer = (\<lambda>_. pg_reject_lease_transfer (de_exec_fails env)),
      ms_get_pending_transfers_for_agent =
        (\<lambda>agent_id db. if de_query_fails env then Err DatabaseError else Ok (pg_get_pending_transfers_for_agent agent_id db))\<rparr>"

end
