(* ===== verification/Lease_Safety.thy ===== *)
theory Lease_Safety
  imports Lease_Manager Lease_Store_Postgres
begin

text \<open>
  Leases across agents. A cluster is a store, a clock and the lease managers of all agents; its steps are the operations of the
  managers in any order. The interface \<open>lease_service\<close> states what the managers rely on; both stores provide it. Under it, at most
  one agent considers a partition its own at any time. The clocks of the agents and of the store are taken to agree.
\<close>

section \<open>The interface\<close>

definition may_take :: "int \<Rightarrow> string \<Rightarrow> PartitionLease option \<Rightarrow> bool" where
  "may_take now agent_id row =
     (case row of None \<Rightarrow> True | Some l \<Rightarrow> pl_leader_agent_id l = agent_id \<or> pl_lease_expires_at l < now)"

locale lease_service =
  fixes store :: "'x \<Rightarrow> 'db MetadataStore"
    and row :: "'db \<Rightarrow> partition_key \<rightharpoonup> PartitionLease"
  assumes acquire_other:
    "k \<noteq> (t, p) \<Longrightarrow> row (fst (ms_acquire_partition_lease (store x) now org t p a dur db)) k = row db k"
    and acquire_row:
    "row (fst (ms_acquire_partition_lease (store x) now org t p a dur db)) (t, p) = row db (t, p)
      \<or> (may_take now a (row db (t, p)) \<and>
         (\<exists>l. row (fst (ms_acquire_partition_lease (store x) now org t p a dur db)) (t, p) = Some l
              \<and> pl_leader_agent_id l = a \<and> pl_lease_expires_at l = now + dur))"
    and acquire_Ok:
    "snd (ms_acquire_partition_lease (store x) now org t p a dur db) = Ok l
      \<Longrightarrow> row (fst (ms_acquire_partition_lease (store x) now org t p a dur db)) (t, p) = Some l \<and> pl_leader_agent_id l = a"
    and release_row:
    "row (fst (ms_release_partition_lease (store x) t p a db)) k = row db k
      \<or> (k = (t, p) \<and> row (fst (ms_release_partition_lease (store x) t p a db)) k = None
          \<and> (\<exists>l. row db k = Some l \<and> pl_leader_agent_id l = a))"
    and initiate_row: "row (fst (ms_initiate_lease_transfer (store x) now t p a b reason tmo db)) = row db"
    and accept_row: "row (fst (ms_accept_lease_transfer (store x) now i a db)) = row db"
    and reject_row: "row (fst (ms_reject_lease_transfer (store x) now i a why db)) = row db"

section \<open>Clusters\<close>

record 'db cluster =
  cl_now :: int
  cl_db :: 'db
  cl_managers :: "string \<Rightarrow> LeaseManager"

datatype 'x cluster_step =
    Tick nat
  | Ensure 'x string string u32
  | Renew 'x string string u32
  | Release 'x string string u32
  | Initiate 'x 'x string string u32 string LeaderChangeReason u32
  | Accept 'x string string
  | Reject 'x string string string
  | Complete 'x string string u64 u64

definition at_agent ::
  "string \<Rightarrow> (LeaseManager \<Rightarrow> 'db \<Rightarrow> LeaseManager \<times> 'db \<times> 'r) \<Rightarrow> 'db cluster \<Rightarrow> 'db cluster" where
  "at_agent a f c =
     (let (lm, db, _) = f (cl_managers c a) (cl_db c) in c\<lparr>cl_db := db, cl_managers := (cl_managers c)(a := lm)\<rparr>)"

definition cluster_step :: "('x \<Rightarrow> 'db MetadataStore) \<Rightarrow> 'x cluster_step \<Rightarrow> 'db cluster \<Rightarrow> 'db cluster" where
  "cluster_step store s c =
     (case s of
        Tick d \<Rightarrow> c\<lparr>cl_now := cl_now c + int d\<rparr>
      | Ensure x a t p \<Rightarrow> at_agent a (ensure_lease (store x) (cl_now c) t p) c
      | Renew x a t p \<Rightarrow> at_agent a (\<lambda>lm db. let (lm', db') = renew_one (store x) (cl_now c) t p lm db in (lm', db', ())) c
      | Release x a t p \<Rightarrow> at_agent a (release_lease (store x) t p) c
      | Initiate x x' a t p b reason tmo \<Rightarrow> at_agent a (initiate_transfer (store x) (store x') (cl_now c) t p b reason tmo) c
      | Accept x a i \<Rightarrow> at_agent a (\<lambda>lm db. (lm, accept_transfer (store x) (cl_now c) i lm db)) c
      | Reject x a i why \<Rightarrow> at_agent a (\<lambda>lm db. (lm, reject_transfer (store x) (cl_now c) i why lm db)) c
      | Complete x a i off hw \<Rightarrow> at_agent a (complete_transfer (store x) (cl_now c) i off hw) c)"

definition cluster_start :: "int \<Rightarrow> 'db \<Rightarrow> 'db cluster" where
  "cluster_start now db = \<lparr>cl_now = now, cl_db = db, cl_managers = LeaseManager_new\<rparr>"

fun completes :: "'x cluster_step \<Rightarrow> bool" where
  "completes (Complete x a i off hw) = True"
| "completes _ = False"

text \<open>Agent \<open>a\<close> considers partition \<open>(t, p)\<close> its own.\<close>

definition holds :: "'db cluster \<Rightarrow> string \<Rightarrow> partition_key \<Rightarrow> bool" where
  "holds c a k = (get_epoch (cl_now c) (fst k) (snd k) (cl_managers c a) \<noteq> None)"

section \<open>The cache of a manager\<close>

definition cached :: "LeaseManager \<Rightarrow> partition_key \<rightharpoonup> CachedLease" where
  "cached lm = map_of (lm_leases lm)"

lemma cached_simps [simp]:
  "cached (LeaseManager_new a) = (\<lambda>_. None)"
  "cached (drop_lease t p lm) = (cached lm)((t, p) := None)"
  "cached (cache_lease t p l lm) = (cached lm)((t, p) \<mapsto>
     \<lparr>cl_topic = t, cl_partition_id = p, cl_epoch = pl_epoch l, cl_expires_at = pl_lease_expires_at l\<rparr>)"
  by (simp_all add: cached_def LeaseManager_new_def drop_lease_def cache_lease_def update_conv' delete_conv' fun_eq_iff)

lemma agent_id_simps [simp]:
  "lm_agent_id (LeaseManager_new a) = a" "lm_agent_id (drop_lease t p lm) = lm_agent_id lm"
  "lm_agent_id (cache_lease t p l lm) = lm_agent_id lm"
  by (simp_all add: LeaseManager_new_def drop_lease_def cache_lease_def)

lemma get_epoch_cached:
  "get_epoch now t p lm = Some e \<longleftrightarrow> (\<exists>l. cached lm (t, p) = Some l \<and> now < cl_expires_at l \<and> cl_epoch l = e)"
  by (auto simp: get_epoch_def cached_def is_expired_def split: option.splits)

section \<open>The invariant\<close>

text \<open>
  Every unexpired cached lease is backed by the row of the store: the agent is the leader there and the row expires no earlier. Rows
  never run further ahead than the lease duration.
\<close>

definition backed :: "('db \<Rightarrow> partition_key \<rightharpoonup> PartitionLease) \<Rightarrow> int \<Rightarrow> 'db \<Rightarrow> LeaseManager \<Rightarrow> bool" where
  "backed row now db lm =
     (\<forall>k l. cached lm k = Some l \<longrightarrow> now < cl_expires_at l \<longrightarrow>
        (\<exists>r. row db k = Some r \<and> pl_leader_agent_id r = lm_agent_id lm \<and> cl_expires_at l \<le> pl_lease_expires_at r))"

definition bounded_rows :: "('db \<Rightarrow> partition_key \<rightharpoonup> PartitionLease) \<Rightarrow> int \<Rightarrow> 'db \<Rightarrow> bool" where
  "bounded_rows row now db = (\<forall>k r. row db k = Some r \<longrightarrow> pl_lease_expires_at r \<le> now + DEFAULT_LEASE_DURATION_MS)"

definition cluster_ok :: "('db \<Rightarrow> partition_key \<rightharpoonup> PartitionLease) \<Rightarrow> 'db cluster \<Rightarrow> bool" where
  "cluster_ok row c =
     (bounded_rows row (cl_now c) (cl_db c)
      \<and> (\<forall>a. lm_agent_id (cl_managers c a) = a \<and> backed row (cl_now c) (cl_db c) (cl_managers c a)))"

lemma holds_cached: "holds c a k \<longleftrightarrow> (\<exists>l. cached (cl_managers c a) k = Some l \<and> cl_now c < cl_expires_at l)"
  by (cases k) (auto simp: holds_def get_epoch_def cached_def is_expired_def split: option.splits)

lemma backedD:
  "backed row now db lm \<Longrightarrow> cached lm k = Some l \<Longrightarrow> now < cl_expires_at l
    \<Longrightarrow> \<exists>r. row db k = Some r \<and> pl_leader_agent_id r = lm_agent_id lm \<and> cl_expires_at l \<le> pl_lease_expires_at r"
  unfolding backed_def by blast

lemma cluster_ok_exclusive:
  assumes "cluster_ok row c" and "holds c a k" and "holds c b k"
  shows "a = b"
proof -
  have "\<exists>r. row (cl_db c) k = Some r \<and> pl_leader_agent_id r = d" if "holds c d k" for d
    using that assms(1) backedD [of row "cl_now c" "cl_db c" "cl_managers c d" k] unfolding holds_cached cluster_ok_def by metis
  from this [OF assms(2)] this [OF assms(3)] show ?thesis by auto
qed

text \<open>What an operation of agent \<open>a\<close> must do for the invariant: keep its own cache backed and leave unexpired rows of others alone.\<close>

definition safe_op ::
  "('db \<Rightarrow> partition_key \<rightharpoonup> PartitionLease) \<Rightarrow> int \<Rightarrow> LeaseManager \<Rightarrow> 'db \<Rightarrow> LeaseManager \<Rightarrow> 'db \<Rightarrow> bool" where
  "safe_op row now lm db lm' db' =
     (bounded_rows row now db \<longrightarrow> backed row now db lm \<longrightarrow>
        lm_agent_id lm' = lm_agent_id lm \<and> bounded_rows row now db' \<and> backed row now db' lm'
        \<and> (\<forall>k r. row db k = Some r \<longrightarrow> pl_leader_agent_id r \<noteq> lm_agent_id lm \<longrightarrow> now < pl_lease_expires_at r \<longrightarrow> row db' k = Some r))"

lemma safe_op_trans:
  "safe_op row now lm db lm1 db1 \<Longrightarrow> safe_op row now lm1 db1 lm2 db2 \<Longrightarrow> safe_op row now lm db lm2 db2"
  unfolding safe_op_def by metis

lemma safe_op_same_rows: "row db' = row db \<Longrightarrow> safe_op row now lm db lm db'"
  by (simp add: safe_op_def bounded_rows_def backed_def)

lemma backed_mono:
  assumes "backed row now db lm" and "\<And>k l. cached lm' k = Some l \<Longrightarrow> cached lm k = Some l" and "lm_agent_id lm' = lm_agent_id lm"
  shows "backed row now db lm'"
  unfolding backed_def
proof (intro allI impI)
  fix k l assume "cached lm' k = Some l" "now < cl_expires_at l"
  then show "\<exists>r. row db k = Some r \<and> pl_leader_agent_id r = lm_agent_id lm' \<and> cl_expires_at l \<le> pl_lease_expires_at r"
    using backedD [OF assms(1) assms(2)] assms(3) by metis
qed

lemma safe_op_drop: "safe_op row now lm db (drop_lease t p lm) db"
proof -
  have "cached lm k = Some l" if "cached (drop_lease t p lm) k = Some l" for k l
    using that by (simp split: if_splits)
  then show ?thesis using backed_mono [of row now db lm "drop_lease t p lm"] unfolding safe_op_def by simp
qed

lemma at_agent_ok:
  assumes ok: "cluster_ok row c" and s: "\<And>lm' db' r. f (cl_managers c a) (cl_db c) = (lm', db', r) \<Longrightarrow>
      safe_op row (cl_now c) (cl_managers c a) (cl_db c) lm' db'"
  shows "cluster_ok row (at_agent a f c)"
proof -
  obtain lm' db' r where f: "f (cl_managers c a) (cl_db c) = (lm', db', r)" by (metis prod_cases3)
  have op: "lm_agent_id lm' = a" "bounded_rows row (cl_now c) db'" "backed row (cl_now c) db' lm'"
    and keep: "\<And>k r. row (cl_db c) k = Some r \<Longrightarrow> pl_leader_agent_id r \<noteq> a \<Longrightarrow> cl_now c < pl_lease_expires_at r \<Longrightarrow> row db' k = Some r"
    using s [OF f] ok unfolding safe_op_def cluster_ok_def by auto
  have "backed row (cl_now c) db' (cl_managers c b)" if "b \<noteq> a" for b
    unfolding backed_def
  proof (intro allI impI)
    fix k l assume l: "cached (cl_managers c b) k = Some l" "cl_now c < cl_expires_at l"
    have "backed row (cl_now c) (cl_db c) (cl_managers c b)" and b: "lm_agent_id (cl_managers c b) = b"
      using ok by (simp_all add: cluster_ok_def)
    then obtain r where "row (cl_db c) k = Some r" "pl_leader_agent_id r = b" "cl_expires_at l \<le> pl_lease_expires_at r"
      using backedD l by metis
    then show "\<exists>r. row db' k = Some r \<and> pl_leader_agent_id r = lm_agent_id (cl_managers c b) \<and> cl_expires_at l \<le> pl_lease_expires_at r"
      using keep that l(2) b by fastforce
  qed
  then show ?thesis using op ok f by (simp add: cluster_ok_def at_agent_def)
qed

lemma tick_ok:
  assumes "cluster_ok row c"
  shows "cluster_ok row (c\<lparr>cl_now := cl_now c + int d\<rparr>)"
proof -
  have "bounded_rows row (cl_now c) (cl_db c)" "\<And>a. lm_agent_id (cl_managers c a) = a"
    "\<And>a. backed row (cl_now c) (cl_db c) (cl_managers c a)" using assms by (simp_all add: cluster_ok_def)
  then show ?thesis
    unfolding cluster_ok_def bounded_rows_def backed_def by (fastforce intro: order.trans)
qed

section \<open>Exclusive ownership\<close>

context lease_service
begin

lemma acquire_keeps_foreign:
  assumes "row db k = Some r" and "pl_leader_agent_id r \<noteq> a" and "now < pl_lease_expires_at r"
  shows "row (fst (ms_acquire_partition_lease (store x) now org t p a dur db)) k = Some r"
proof (cases "k = (t, p)")
  case True
  then have "\<not> may_take now a (row db (t, p))" using assms by (simp add: may_take_def)
  then show ?thesis using acquire_row [of x now org t p a dur db] assms(1) True by simp
qed (use acquire_other assms(1) in simp)

lemma acquire_bounded:
  assumes "bounded_rows row now db"
  shows "bounded_rows row now (fst (ms_acquire_partition_lease (store x) now org t p a DEFAULT_LEASE_DURATION_MS db))"
  unfolding bounded_rows_def
proof (intro allI impI)
  fix k r assume r: "row (fst (ms_acquire_partition_lease (store x) now org t p a DEFAULT_LEASE_DURATION_MS db)) k = Some r"
  show "pl_lease_expires_at r \<le> now + DEFAULT_LEASE_DURATION_MS"
  proof (cases "row db k = Some r")
    case False
    then have "k = (t, p)" using r acquire_other by metis
    then show ?thesis using acquire_row [of x now org t p a DEFAULT_LEASE_DURATION_MS db] r False by auto
  qed (use assms in \<open>unfold bounded_rows_def, blast\<close>)
qed

lemma acquire_keeps_backed:
  assumes "bounded_rows row now db" and "backed row now db lm"
  shows "backed row now (fst (ms_acquire_partition_lease (store x) now org t p (lm_agent_id lm) DEFAULT_LEASE_DURATION_MS db)) lm"
  unfolding backed_def
proof (intro allI impI)
  let ?db = "fst (ms_acquire_partition_lease (store x) now org t p (lm_agent_id lm) DEFAULT_LEASE_DURATION_MS db)"
  fix k l assume "cached lm k = Some l" "now < cl_expires_at l"
  then obtain r where r: "row db k = Some r" "pl_leader_agent_id r = lm_agent_id lm" "cl_expires_at l \<le> pl_lease_expires_at r"
    using backedD [OF assms(2)] by metis
  have le: "pl_lease_expires_at r \<le> now + DEFAULT_LEASE_DURATION_MS" using assms(1) r(1) unfolding bounded_rows_def by blast
  show "\<exists>r. row ?db k = Some r \<and> pl_leader_agent_id r = lm_agent_id lm \<and> cl_expires_at l \<le> pl_lease_expires_at r"
  proof (cases "row ?db k = row db k")
    case False
    then have k: "k = (t, p)" using acquire_other by metis
    then obtain m where "row ?db k = Some m" "pl_leader_agent_id m = lm_agent_id lm"
      "pl_lease_expires_at m = now + DEFAULT_LEASE_DURATION_MS"
      using acquire_row [of x now org t p "lm_agent_id lm" DEFAULT_LEASE_DURATION_MS db] False by blast
    then show ?thesis using r(3) le by auto
  qed (use r in auto)
qed

lemma acquire_with_safe:
  assumes "acquire_with what (store x) now t p lm db = (lm', db', r)"
  shows "safe_op row now lm db lm' db'"
proof (cases "ms_get_topic_organization_id (store x) t db")
  case (Ok o')
  show ?thesis
  proof (cases o')
    case None
    then show ?thesis using assms Ok by (simp add: acquire_with_def safe_op_same_rows)
  next
    case (Some org)
    define q where "q = ms_acquire_partition_lease (store x) now org t p (lm_agent_id lm) DEFAULT_LEASE_DURATION_MS db"
    have db': "db' = fst q" using assms Ok Some by (auto simp: acquire_with_def q_def split: prod.splits result.splits)
    have keep: "row (fst q) k = Some r'" if "row db k = Some r'" "pl_leader_agent_id r' \<noteq> lm_agent_id lm" "now < pl_lease_expires_at r'" for k r'
      unfolding q_def using that by (rule acquire_keeps_foreign)
    have bd: "bounded_rows row now (fst q)" "backed row now (fst q) lm" if "bounded_rows row now db" "backed row now db lm"
      unfolding q_def using that by (simp_all add: acquire_bounded acquire_keeps_backed)
    show ?thesis
    proof (cases "snd q")
      case (Ok lease)
      have lm': "lm' = cache_lease t p lease lm"
        using assms \<open>ms_get_topic_organization_id (store x) t db = Ok o'\<close> Some Ok
        by (auto simp: acquire_with_def q_def split: prod.splits)
      have row: "row (fst q) (t, p) = Some lease" "pl_leader_agent_id lease = lm_agent_id lm"
        using acquire_Ok Ok unfolding q_def by blast+
      have "backed row now (fst q) lm'" if "backed row now (fst q) lm"
        unfolding backed_def
      proof (intro allI impI)
        fix k l assume l: "cached lm' k = Some l" "now < cl_expires_at l"
        show "\<exists>r. row (fst q) k = Some r \<and> pl_leader_agent_id r = lm_agent_id lm' \<and> cl_expires_at l \<le> pl_lease_expires_at r"
        proof (cases "k = (t, p)")
          case True
          then show ?thesis using l row by (auto simp: lm')
        next
          case False
          then show ?thesis using backedD [OF that, of k l] l by (simp add: lm')
        qed
      qed
      then show ?thesis using keep bd by (simp add: safe_op_def db' lm')
    next
      case (Err e)
      then have "lm' = lm" using assms \<open>ms_get_topic_organization_id (store x) t db = Ok o'\<close> Some
        by (auto simp: acquire_with_def q_def split: prod.splits)
      then show ?thesis using keep bd by (simp add: safe_op_def db')
    next
      case Panic
      then have "lm' = lm" using assms \<open>ms_get_topic_organization_id (store x) t db = Ok o'\<close> Some
        by (auto simp: acquire_with_def q_def split: prod.splits)
      then show ?thesis using keep bd by (simp add: safe_op_def db')
    qed
  qed
qed (use assms in \<open>simp_all add: acquire_with_def safe_op_same_rows\<close>)

lemma ensure_lease_safe:
  assumes "ensure_lease (store x) now t p lm db = (lm', db', r)"
  shows "safe_op row now lm db lm' db'"
  using assms acquire_with_safe [of "''acquire''" x now t p lm db lm' db']
  by (auto simp: ensure_lease_def acquire_lease_def safe_op_same_rows split: option.splits prod.splits)

lemma renew_one_safe:
  assumes "renew_one (store x) now t p lm db = (lm', db')"
  shows "safe_op row now lm db lm' db'"
proof -
  obtain lm1 db1 q where a: "acquire_with ''renew'' (store x) now t p lm db = (lm1, db1, q)" by (metis prod_cases3)
  have s: "safe_op row now lm db lm1 db1" by (rule acquire_with_safe [OF a])
  have "db' = db1 \<and> (lm' = lm1 \<or> lm' = drop_lease t p lm1)"
    using assms a by (cases q) (auto simp: renew_one_def renew_lease_def split: if_splits)
  then show ?thesis using s safe_op_trans [OF s safe_op_drop] by auto
qed

lemma release_safe:
  assumes "release_lease (store x) t p lm db = (lm', db', r)"
  shows "safe_op row now lm db lm' db'"
proof -
  let ?db = "fst (ms_release_partition_lease (store x) t p (lm_agent_id lm) db)"
  have q: "lm' = drop_lease t p lm" "db' = ?db" using assms by (auto simp: release_lease_def split: prod.splits)
  have rows: "row ?db k = row db k \<or> (k = (t, p) \<and> row ?db k = None \<and> (\<exists>l. row db k = Some l \<and> pl_leader_agent_id l = lm_agent_id lm))" for k
    by (rule release_row)
  have "bounded_rows row now ?db" if "bounded_rows row now db"
    using that rows unfolding bounded_rows_def by (metis option.distinct(1))
  moreover have "backed row now ?db lm'" if "backed row now db lm"
    unfolding backed_def
  proof (intro allI impI)
    fix k l assume l: "cached lm' k = Some l" "now < cl_expires_at l"
    then have "k \<noteq> (t, p)" "cached lm k = Some l" by (auto simp: q split: if_splits)
    then show "\<exists>r. row ?db k = Some r \<and> pl_leader_agent_id r = lm_agent_id lm' \<and> cl_expires_at l \<le> pl_lease_expires_at r"
      using backedD [OF that _ l(2)] rows [of k] by (simp add: q)
  qed
  moreover have "row ?db k = Some r" if "row db k = Some r" "pl_leader_agent_id r \<noteq> lm_agent_id lm" for k r
    using rows [of k] that by auto
  ultimately show ?thesis unfolding safe_op_def q(2) by (simp add: q(1))
qed

lemma initiate_safe:
  assumes "initiate_transfer (store x) (store x') now t p b reason tmo lm db = (lm', db', r)"
  shows "safe_op row now lm db lm' db'"
proof -
  obtain lm1 db1 q where e: "ensure_lease (store x) now t p lm db = (lm1, db1, q)" by (metis prod_cases3)
  have s: "safe_op row now lm db lm1 db1" by (rule ensure_lease_safe [OF e])
  have "lm' = lm1 \<and> (db' = db1 \<or> db' = fst (ms_initiate_lease_transfer (store x') now t p (lm_agent_id lm1) b reason tmo db1))"
    using assms e by (cases q) (auto simp: initiate_transfer_def split: prod.splits)
  then have "lm' = lm1 \<and> row db' = row db1" using initiate_row by auto
  then show ?thesis using safe_op_trans [OF s safe_op_same_rows, of db'] by simp
qed

lemma step_ok:
  assumes "cluster_ok row c" and "\<not> completes s"
  shows "cluster_ok row (cluster_step store s c)"
proof (cases s)
  case (Tick d)
  then show ?thesis using tick_ok [OF assms(1)] by (simp add: cluster_step_def)
next
  case (Ensure x a t p)
  have "cluster_ok row (at_agent a (ensure_lease (store x) (cl_now c) t p) c)" by (rule at_agent_ok [OF assms(1)]) (rule ensure_lease_safe)
  then show ?thesis using Ensure by (simp add: cluster_step_def)
next
  case (Renew x a t p)
  have "cluster_ok row (at_agent a (\<lambda>lm db. let (lm', db') = renew_one (store x) (cl_now c) t p lm db in (lm', db', ())) c)"
    by (rule at_agent_ok [OF assms(1)]) (auto split: prod.splits intro: renew_one_safe)
  then show ?thesis using Renew by (simp add: cluster_step_def)
next
  case (Release x a t p)
  have "cluster_ok row (at_agent a (release_lease (store x) t p) c)" by (rule at_agent_ok [OF assms(1)]) (rule release_safe)
  then show ?thesis using Release by (simp add: cluster_step_def)
next
  case (Initiate x x' a t p b reason tmo)
  have "cluster_ok row (at_agent a (initiate_transfer (store x) (store x') (cl_now c) t p b reason tmo) c)" by (rule at_agent_ok [OF assms(1)]) (rule initiate_safe)
  then show ?thesis using Initiate by (simp add: cluster_step_def)
next
  case (Accept x a i)
  have "cluster_ok row (at_agent a (\<lambda>lm db. (lm, accept_transfer (store x) (cl_now c) i lm db)) c)"
    by (rule at_agent_ok [OF assms(1)]) (auto simp: accept_transfer_def split_beta intro: safe_op_same_rows accept_row)
  then show ?thesis using Accept by (simp add: cluster_step_def)
next
  case (Reject x a i why)
  have "cluster_ok row (at_agent a (\<lambda>lm db. (lm, reject_transfer (store x) (cl_now c) i why lm db)) c)"
    by (rule at_agent_ok [OF assms(1)]) (auto simp: reject_transfer_def split_beta intro: safe_op_same_rows reject_row)
  then show ?thesis using Reject by (simp add: cluster_step_def)
qed (use assms(2) in simp)

lemma run_ok: "cluster_ok row c \<Longrightarrow> list_all (\<lambda>s. \<not> completes s) steps \<Longrightarrow> cluster_ok row (fold (cluster_step store) steps c)"
  by (induction steps arbitrary: c) (simp_all add: step_ok)

lemma run_exclusive:
  assumes "\<And>k. row db k = None" and "list_all (\<lambda>s. \<not> completes s) steps"
    and "holds (fold (cluster_step store) steps (cluster_start now db)) a k"
    and "holds (fold (cluster_step store) steps (cluster_start now db)) b k"
  shows "a = b"
proof -
  have "cluster_ok row (cluster_start now db)"
    using assms(1) by (simp add: cluster_ok_def cluster_start_def bounded_rows_def backed_def)
  then show ?thesis using cluster_ok_exclusive [OF run_ok [OF _ assms(2)] assms(3,4)] by blast
qed

end

section \<open>Both stores provide the interface\<close>

lemma upsert_other: "k \<noteq> (t, p) \<Longrightarrow> partition_leases (upsert_lease now org t p a e db) k = partition_leases db k"
  by (auto simp: upsert_lease_def split: option.splits)

lemma upsert_row:
  "partition_leases (upsert_lease now org t p a e db) (t, p) = partition_leases db (t, p)
   \<or> (may_take now a (partition_leases db (t, p)) \<and>
      (\<exists>l. partition_leases (upsert_lease now org t p a e db) (t, p) = Some l \<and> pl_leader_agent_id l = a \<and> pl_lease_expires_at l = e))"
  by (auto simp: upsert_lease_def may_take_def split: option.splits)

lemma get_lease_row: "get_partition_lease now t p db = Some l \<Longrightarrow> partition_leases db (t, p) = Some l"
  by (simp add: get_partition_lease_def split: option.splits if_splits)

lemma update_transfers_rows [simp]: "partition_leases (update_transfers P f db) = partition_leases db"
  by (simp add: update_transfers_def)

lemma acquire_db:
  "fst (acquire_partition_lease ef qf now org t p a dur db) \<in> {db, upsert_lease now org t p a (now + dur) db}"
  by (simp add: acquire_partition_lease_def Let_def)

lemma acquire_rows:
  assumes "db' \<in> {db, upsert_lease now org t p a (now + dur) db}"
  shows "k \<noteq> (t, p) \<Longrightarrow> partition_leases db' k = partition_leases db k"
    and "partition_leases db' (t, p) = partition_leases db (t, p) \<or> (may_take now a (partition_leases db (t, p)) \<and>
      (\<exists>l. partition_leases db' (t, p) = Some l \<and> pl_leader_agent_id l = a \<and> pl_lease_expires_at l = now + dur))"
  using assms upsert_other [of k t p now org a "now + dur" db] upsert_row [of now org t p a "now + dur" db] by (elim insertE; simp)+

lemma acquire_result:
  assumes "snd (acquire_partition_lease ef qf now org t p a dur db) = Ok l"
  shows "partition_leases (fst (acquire_partition_lease ef qf now org t p a dur db)) (t, p) = Some l \<and> pl_leader_agent_id l = a"
  using assms get_lease_row
  by (auto simp: acquire_partition_lease_def Let_def split: if_splits option.splits)

lemma pg_acquire_cases:
  obtains "uf org" "pg_acquire_partition_lease uf ef qf now org t p a dur db = (db, Err (InternalError (''invalid organization_id '' @ org)))"
  | "\<not> uf org" "pg_acquire_partition_lease uf ef qf now org t p a dur db = acquire_partition_lease ef qf now org t p a dur db"
  by (cases "uf org") (auto simp: pg_acquire_partition_lease_def acquire_partition_lease_def)

lemma pg_acquire_db:
  "fst (pg_acquire_partition_lease uf ef qf now org t p a dur db) \<in> {db, upsert_lease now org t p a (now + dur) db}"
  using acquire_db by (cases rule: pg_acquire_cases [of uf org ef qf now t p a dur db]) auto

lemma release_rows:
  "partition_leases (fst (release_partition_lease ef t p a db)) k = partition_leases db k
   \<or> (k = (t, p) \<and> partition_leases (fst (release_partition_lease ef t p a db)) k = None
       \<and> (\<exists>l. partition_leases db k = Some l \<and> pl_leader_agent_id l = a))"
  by (auto simp: release_partition_lease_def split: option.splits)

interpretation sqlite: lease_service sqlite_store partition_leases
proof (unfold_locales, goal_cases)
  case (1 k t p x now org a dur db)
  then show ?case using acquire_rows(1) [OF acquire_db] by (simp add: sqlite_store_def)
next
  case (2 x now org t p a dur db)
  show ?case using acquire_rows(2) [OF acquire_db] by (simp add: sqlite_store_def)
next
  case (3 x now org t p a dur db l)
  then show ?case using acquire_result by (simp add: sqlite_store_def)
next
  case (4 x t p a db k)
  show ?case using release_rows by (simp add: sqlite_store_def)
qed (simp_all add: sqlite_store_def initiate_lease_transfer_def accept_lease_transfer_def
      reject_lease_transfer_def Let_def split: option.splits)

lemma pg_acquire_result:
  assumes "snd (pg_acquire_partition_lease uf ef qf now org t p a dur db) = Ok l"
  shows "partition_leases (fst (pg_acquire_partition_lease uf ef qf now org t p a dur db)) (t, p) = Some l \<and> pl_leader_agent_id l = a"
  using assms acquire_result by (cases rule: pg_acquire_cases [of uf org ef qf now t p a dur db]) auto

interpretation postgres: lease_service postgres_store partition_leases
proof (unfold_locales, goal_cases)
  case (1 k t p x now org a dur db)
  then show ?case using acquire_rows(1) [OF pg_acquire_db] by (simp add: postgres_store_def)
next
  case (2 x now org t p a dur db)
  show ?case using acquire_rows(2) [OF pg_acquire_db] by (simp add: postgres_store_def)
next
  case (3 x now org t p a dur db l)
  then show ?case using pg_acquire_result by (simp add: postgres_store_def)
next
  case (4 x t p a db k)
  show ?case using release_rows by (simp add: postgres_store_def)
qed (simp_all add: postgres_store_def pg_initiate_lease_transfer_def pg_accept_lease_transfer_def
      pg_reject_lease_transfer_def Let_def split: option.splits)

end
