(* ===== verification/Lease_Properties.thy ===== *)
theory Lease_Properties
  imports Lease_Safety
begin

text \<open>
  Theorems about leases: exclusive ownership for both stores, takeover of an expired lease, and what the code does with epochs and
  transfers.
\<close>

section \<open>Exclusive ownership\<close>


definition quiet_db :: "string \<Rightarrow> db_env" where
  "quiet_db transfer_id =
     \<lparr>de_exec_fails = False, de_acquire_fails = False, de_query_fails = False, de_uuid_fails = (\<lambda>_. False),
      de_topic_org = (\<lambda>_. Ok (Some ''org'')), de_transfer_id = transfer_id\<rparr>"

lemmas lease_eval = cluster_step_def at_agent_def cluster_start_def ensure_lease_def acquire_lease_def acquire_with_def get_epoch_def
  is_expired_def LeaseManager_new_def sqlite_store_def quiet_db_def acquire_partition_lease_def upsert_lease_def
  get_partition_lease_def cache_lease_def DEFAULT_LEASE_DURATION_MS_def lease_db_empty_def initiate_transfer_def
  initiate_lease_transfer_def accept_transfer_def accept_lease_transfer_def get_lease_transfer_def update_transfers_def
  complete_transfer_def complete_lease_transfer_def drop_lease_def holds_def Let_def


section \<open>Takeover\<close>

text \<open>
  An expired lease can be taken over. When the row of a partition has expired, whoever held it, and the database works, an agent
  that asks for the partition gets it: the call returns the old epoch plus one, the agent then owns the partition for the lease
  duration and the row names it.
\<close>

theorem expired_lease_taken_over:
  assumes row: "partition_leases db (t, p) = Some l" "pl_lease_expires_at l < now"
    and lm: "get_epoch now t p lm = None"
    and db: "de_topic_org env t = Ok (Some org)" "\<not> de_exec_fails env" "\<not> de_query_fails env" "now < later" "later < now + DEFAULT_LEASE_DURATION_MS"
  shows "\<exists>lm' db'. ensure_lease (sqlite_store env) now t p lm db = (lm', db', Ok (pl_epoch l + 1))
    \<and> get_epoch later t p lm' = Some (pl_epoch l + 1)
    \<and> map_option pl_leader_agent_id (get_partition_lease later t p db') = Some (lm_agent_id lm)"
proof -
  let ?l = "l\<lparr>pl_leader_agent_id := lm_agent_id lm, pl_lease_expires_at := now + DEFAULT_LEASE_DURATION_MS, pl_acquired_at := now,
      pl_epoch := pl_epoch l + 1\<rparr>"
  let ?db = "db\<lparr>partition_leases := (partition_leases db)((t, p) \<mapsto> ?l)\<rparr>"
  have "upsert_lease now org t p (lm_agent_id lm) (now + DEFAULT_LEASE_DURATION_MS) db = ?db"
    using row by (simp add: upsert_lease_def)
  moreover have "get_partition_lease now t p ?db = Some ?l" by (simp add: get_partition_lease_def DEFAULT_LEASE_DURATION_MS_def)
  ultimately have "ensure_lease (sqlite_store env) now t p lm db = (cache_lease t p ?l lm, ?db, Ok (pl_epoch l + 1))"
    using lm db by (simp add: ensure_lease_def acquire_lease_def acquire_with_def sqlite_store_def acquire_partition_lease_def)
  moreover have "get_epoch later t p (cache_lease t p ?l lm) = Some (pl_epoch l + 1)"
    using db by (simp add: get_epoch_cached)
  moreover have "map_option pl_leader_agent_id (get_partition_lease later t p ?db) = Some (lm_agent_id lm)"
    using db by (simp add: get_partition_lease_def)
  ultimately show ?thesis by blast
qed

definition demo_lease :: PartitionLease where
  "demo_lease = \<lparr>pl_organization_id = ''org'', pl_topic = ''orders'', pl_partition_id = 0, pl_leader_agent_id = ''A'',
     pl_lease_expires_at = 100, pl_acquired_at = 0, pl_epoch = 4\<rparr>"

theorem expired_lease_taken_over_witness:
  "\<exists>lm' db'. ensure_lease (sqlite_store (quiet_db [])) 200 ''orders'' 0 (LeaseManager_new ''B'')
     (lease_db_empty\<lparr>partition_leases := [(''orders'', 0) \<mapsto> demo_lease]\<rparr>) = (lm', db', Ok 5)"
  using expired_lease_taken_over [of "lease_db_empty\<lparr>partition_leases := [(''orders'', 0) \<mapsto> demo_lease]\<rparr>" "''orders''" 0 demo_lease 200
      "LeaseManager_new ''B''" "quiet_db []" "''org''" 201]
  by (auto simp: demo_lease_def quiet_db_def get_epoch_def LeaseManager_new_def DEFAULT_LEASE_DURATION_MS_def)

section \<open>Epochs\<close>

text \<open>
  A renewal makes the epoch stale. The epoch is documented to increment on a change of leadership, and a writer is told to check
  before writing that the epoch it got from \<^verbatim>\<open>ensure_lease\<close> is still valid; but a renewal by the holder increments it too. If an agent holds a
  partition with epoch \<open>e\<close> and the background task renews the lease, then \<^verbatim>\<open>validate_epoch\<close> of \<open>e\<close> reports a stale epoch although the
  agent never lost the lease.
\<close>

theorem renewal_stales_epoch:
  assumes row: "partition_leases db (t, p) = Some l" "pl_leader_agent_id l = lm_agent_id lm"
    and lm: "get_epoch now t p lm = Some (pl_epoch l)"
    and db: "de_topic_org env t = Ok (Some org)" "\<not> de_exec_fails env" "\<not> de_query_fails env"
  shows "validate_epoch now t p (pl_epoch l) lm = Ok ()
    \<and> validate_epoch now t p (pl_epoch l) (fst (renew_one (sqlite_store env) now t p lm db)) = Err (StaleEpoch (pl_epoch l) (pl_epoch l + 1))"
proof -
  let ?l = "l\<lparr>pl_leader_agent_id := lm_agent_id lm, pl_lease_expires_at := now + DEFAULT_LEASE_DURATION_MS, pl_acquired_at := now,
      pl_epoch := pl_epoch l + 1\<rparr>"
  let ?db = "db\<lparr>partition_leases := (partition_leases db)((t, p) \<mapsto> ?l)\<rparr>"
  have "upsert_lease now org t p (lm_agent_id lm) (now + DEFAULT_LEASE_DURATION_MS) db = ?db"
    using row by (simp add: upsert_lease_def)
  moreover have "get_partition_lease now t p ?db = Some ?l" by (simp add: get_partition_lease_def DEFAULT_LEASE_DURATION_MS_def)
  ultimately have "renew_one (sqlite_store env) now t p lm db = (cache_lease t p ?l lm, ?db)"
    using lm db by (simp add: renew_one_def renew_lease_def acquire_with_def sqlite_store_def acquire_partition_lease_def)
  moreover have "get_epoch now t p (cache_lease t p ?l lm) = Some (pl_epoch l + 1)"
    by (simp add: get_epoch_cached DEFAULT_LEASE_DURATION_MS_def)
  ultimately show ?thesis using lm by (simp add: validate_epoch_def)
qed

theorem renewal_stales_epoch_witness:
  "validate_epoch 50 ''orders'' 0 4 (fst (renew_one (sqlite_store (quiet_db [])) 50 ''orders'' 0
     (cache_lease ''orders'' 0 demo_lease (LeaseManager_new ''A''))
     (lease_db_empty\<lparr>partition_leases := [(''orders'', 0) \<mapsto> demo_lease]\<rparr>))) = Err (StaleEpoch 4 5)"
  using renewal_stales_epoch [of "lease_db_empty\<lparr>partition_leases := [(''orders'', 0) \<mapsto> demo_lease]\<rparr>" "''orders''" 0 demo_lease
      "cache_lease ''orders'' 0 demo_lease (LeaseManager_new ''A'')" 50 "quiet_db []" "''org''"]
  by (simp add: demo_lease_def quiet_db_def get_epoch_cached)

text \<open>
  A release resets the epoch. Releasing deletes the row, so the next holder starts again at epoch one, whatever epoch the previous
  holder had: epochs do not grow from one leader to the next.
\<close>

theorem release_resets_epoch:
  assumes row: "partition_leases db (t, p) = Some l" "pl_leader_agent_id l = lm_agent_id lm"
    and b: "get_epoch now t p lm_b = None"
    and db: "de_topic_org env t = Ok (Some org)" "\<not> de_exec_fails env" "\<not> de_query_fails env"
  shows "snd (snd (ensure_lease (sqlite_store env) now t p lm_b (fst (snd (release_lease (sqlite_store env) t p lm db))))) = Ok 1"
proof -
  let ?db = "db\<lparr>partition_leases := (partition_leases db)((t, p) := None)\<rparr>"
  have "release_lease (sqlite_store env) t p lm db = (drop_lease t p lm, ?db, Ok ())"
    using row db by (simp add: release_lease_def sqlite_store_def release_partition_lease_def)
  moreover have "snd (snd (ensure_lease (sqlite_store env) now t p lm_b ?db)) = Ok 1"
    using b db by (simp add: ensure_lease_def acquire_lease_def acquire_with_def sqlite_store_def acquire_partition_lease_def
        upsert_lease_def get_partition_lease_def DEFAULT_LEASE_DURATION_MS_def)
  ultimately show ?thesis by simp
qed

theorem release_resets_epoch_witness:
  "snd (snd (ensure_lease (sqlite_store (quiet_db [])) 50 ''orders'' 0 (LeaseManager_new ''B'') (fst (snd (release_lease (sqlite_store (quiet_db [])) ''orders'' 0
     (LeaseManager_new ''A'') (lease_db_empty\<lparr>partition_leases := [(''orders'', 0) \<mapsto> demo_lease]\<rparr>)))))) = Ok 1"
  using release_resets_epoch [of "lease_db_empty\<lparr>partition_leases := [(''orders'', 0) \<mapsto> demo_lease]\<rparr>" "''orders''" 0 demo_lease
      "LeaseManager_new ''A''" 50 "LeaseManager_new ''B''" "quiet_db []" "''org''"]
  by (simp add: demo_lease_def quiet_db_def get_epoch_def LeaseManager_new_def)

section \<open>Transfers\<close>

text \<open>
  Completing a transfer can take a lease away from its holder. The SQLite store completes an accepted transfer without looking at
  who holds the lease by then. In the run below A asks to hand a partition to B and B accepts; A's lease expires and C acquires the
  partition; A completes the transfer; B picks it up. Afterwards B and C both own the partition.
\<close>

theorem completed_transfer_breaks_exclusion:
  "let c = fold (cluster_step sqlite_store)
       [Ensure (quiet_db ''T'') ''A'' ''orders'' 0, Initiate (quiet_db ''T'') (quiet_db ''T'') ''A'' ''orders'' 0 ''B'' GracefulHandoff 3600000,
        Accept (quiet_db ''T'') ''B'' ''T'', Tick 300001, Ensure (quiet_db ''T'') ''C'' ''orders'' 0,
        Complete (quiet_db ''T'') ''A'' ''T'' 0 0, Ensure (quiet_db ''T'') ''B'' ''orders'' 0] (cluster_start 0 lease_db_empty)
   in holds c ''B'' (''orders'', 0) \<and> holds c ''C'' (''orders'', 0)"
  by (simp add: lease_eval in_progress_def)

lemma get_transfer_update:
  assumes "get_lease_transfer i db = Some t" and "\<And>u. lt_transfer_id (f u) = lt_transfer_id u"
  shows "get_lease_transfer i (update_transfers (\<lambda>u. lt_transfer_id u = i) f db) = Some (f t)"
proof -
  have "List.find (\<lambda>t. lt_transfer_id t = i) ts = Some t \<Longrightarrow>
      List.find (\<lambda>t. lt_transfer_id t = i) (map (\<lambda>u. if lt_transfer_id u = i then f u else u) ts) = Some (f t)" for ts
    using assms(2) by (induction ts) (auto split: if_splits)
  then show ?thesis using assms(1) by (simp add: get_lease_transfer_def update_transfers_def)
qed

text \<open>
  With Postgres a lease that is still held is never handed over. Completing an accepted transfer while the lease of the leaving agent is
  unexpired marks the transfer completed and then fails with a conflict: the acquisition for the target agent is refused like any
  other, and the lease stays where it was.
\<close>

theorem pg_transfer_never_completes:
  assumes t: "get_lease_transfer i db = Some t" "lt_state t = Accepted"
    and l: "partition_leases db (lt_topic t, lt_partition_id t) = Some l" "now < pl_lease_expires_at l" "pl_leader_agent_id l \<noteq> lt_to_agent_id t"
    and ok: "\<not> uuid_fails (pl_organization_id l)"
  shows "\<exists>db'. pg_complete_lease_transfer uuid_fails False False False now i off hw db =
      (db', Err (ConflictError (''Partition '' @ show_partition (lt_topic t) (lt_partition_id t) @ '' is already leased to another agent'')))
    \<and> partition_leases db' = partition_leases db \<and> map_option lt_state (get_lease_transfer i db') = Some Completed"
proof -
  let ?f = "\<lambda>u. u\<lparr>lt_state := Completed, lt_completed_at := Some now, lt_last_flushed_offset := Some off, lt_high_watermark := Some hw\<rparr>"
  let ?db = "update_transfers (\<lambda>u. lt_transfer_id u = i) ?f db"
  have "get_partition_lease now (lt_topic t) (lt_partition_id t) ?db = Some l" using l by (simp add: get_partition_lease_def)
  moreover have "upsert_lease now org (lt_topic t) (lt_partition_id t) (lt_to_agent_id t) e ?db = ?db" for org e
    using l by (auto simp: upsert_lease_def)
  ultimately show ?thesis
    using t l(3) ok get_transfer_update [OF t(1), of ?f]
    by (simp add: pg_complete_lease_transfer_def pg_acquire_partition_lease_def)
qed

theorem pg_transfer_never_completes_witness:
  "\<exists>db'. pg_complete_lease_transfer (\<lambda>_. False) False False False 50 ''T'' 0 0
     \<lparr>partition_leases = [(''orders'', 0) \<mapsto> demo_lease],
      lease_transfers = [\<lparr>lt_transfer_id = ''T'', lt_topic = ''orders'', lt_partition_id = 0, lt_from_agent_id = ''A'', lt_to_agent_id = ''B'',
        lt_from_epoch = 4, lt_state = Accepted, lt_reason = GracefulHandoff, lt_initiated_at = 0, lt_completed_at = None,
        lt_timeout_at = 1000, lt_last_flushed_offset = None, lt_high_watermark = None, lt_error = None\<rparr>]\<rparr>
     = (db', Err (ConflictError (''Partition '' @ show_partition ''orders'' 0 @ '' is already leased to another agent'')))"
proof -
  let ?t = "\<lparr>lt_transfer_id = ''T'', lt_topic = ''orders'', lt_partition_id = 0, lt_from_agent_id = ''A'', lt_to_agent_id = ''B'',
        lt_from_epoch = 4, lt_state = Accepted, lt_reason = GracefulHandoff, lt_initiated_at = 0, lt_completed_at = None,
        lt_timeout_at = 1000, lt_last_flushed_offset = None, lt_high_watermark = None, lt_error = None\<rparr>"
  show ?thesis
    using pg_transfer_never_completes [of "''T''" "\<lparr>partition_leases = [(''orders'', 0) \<mapsto> demo_lease], lease_transfers = [?t]\<rparr>" ?t demo_lease 50 "\<lambda>_. False" 0 0]
    by (auto simp: get_lease_transfer_def demo_lease_def)
qed

end
