(* ===== verification/Partition_Assigner.thy ===== *)
theory Partition_Assigner
  imports Lease_Manager "HOL-Library.Multiset" "HOL-Library.Char_ord" "HOL-Library.List_Lexorder" "HOL-Library.Product_Lexorder"
begin

text \<open>
  The partition assigner of an agent, \<^verbatim>\<open>streamhouse-agent/src/assigner.rs\<close>: every agent computes the same round-robin assignment from
  the live agents and the partitions of the topics, then releases and acquires leases accordingly. Strings are compared by bytes and
  pairs lexicographically, as \<^verbatim>\<open>Ord\<close> does. A hash set is a list without repetitions; the order in which a set is
  walked is an argument.
  The answers of the metadata store, the store behind each lease call and the clock are arguments.
\<close>

section \<open>State\<close>

record AssignmentStats =
  as_rebalance_count :: u64
  as_assignments_gained :: u64
  as_assignments_lost :: u64
  as_last_rebalance_ms :: int

record AssignerState =
  ast_assigned_partitions :: "partition_key list"
  ast_agent_topology :: "(string \<times> u64) list"
  ast_stats :: AssignmentStats

definition AssignerState_new :: AssignerState where
  "AssignerState_new =
     \<lparr>ast_assigned_partitions = [], ast_agent_topology = [],
      ast_stats = \<lparr>as_rebalance_count = 0, as_assignments_gained = 0, as_assignments_lost = 0, as_last_rebalance_ms = 0\<rparr>\<rparr>"

text \<open>The topology of a list of agents: agent ids are unique, so the map is given by its entries in order of the key.\<close>

definition topology_of :: "string list \<Rightarrow> (string \<times> u64) list" where
  "topology_of agent_ids = map (\<lambda>(i, a). (a, of_nat i)) (enumerate 0 (sort agent_ids))"

section \<open>The assignment\<close>

definition topic_partitions :: "string \<Rightarrow> u32 \<Rightarrow> partition_key list" where
  "topic_partitions topic partition_count = map (\<lambda>p. (topic, of_nat p)) [0..<unat partition_count]"

text \<open>The first collection of partitions stops at an error, the check for missing partitions passes over it.\<close>

fun collect_partitions :: "(string \<Rightarrow> (metadata_error, u32 option) result) \<Rightarrow> string list \<Rightarrow> (metadata_error, partition_key list) result" where
  "collect_partitions get_topic [] = Ok []"
| "collect_partitions get_topic (t # ts) =
     rbind (get_topic t) (\<lambda>topic.
     rbind (collect_partitions get_topic ts) (\<lambda>rest.
     Ok ((case topic of None \<Rightarrow> [] | Some n \<Rightarrow> topic_partitions t n) @ rest)))"

definition check_partitions :: "(string \<Rightarrow> (metadata_error, u32 option) result) \<Rightarrow> string list \<Rightarrow> partition_key list" where
  "check_partitions get_topic topics =
     concat (map (\<lambda>t. case get_topic t of Ok (Some n) \<Rightarrow> topic_partitions t n | _ \<Rightarrow> []) topics)"

definition round_robin :: "string \<Rightarrow> string list \<Rightarrow> partition_key list \<Rightarrow> partition_key list" where
  "round_robin agent_id agent_ids partitions =
     (let sorted_agents = sort agent_ids; num_agents = length sorted_agents
      in remdups (map snd (filter (\<lambda>(i, _). sorted_agents ! (i mod num_agents) = agent_id) (enumerate 0 (sort partitions)))))"

section \<open>Rebalancing\<close>

record 'db rebalance_env =
  rb_agents :: "(metadata_error, string list) result"
  rb_check_topic :: "string \<Rightarrow> (metadata_error, u32 option) result"
  rb_get_topic :: "string \<Rightarrow> (metadata_error, u32 option) result"
  rb_release_store :: "nat \<Rightarrow> 'db MetadataStore"
  rb_acquire_store :: "nat \<Rightarrow> 'db MetadataStore"
  rb_release_order :: "partition_key list \<Rightarrow> partition_key list"
  rb_acquire_order :: "partition_key list \<Rightarrow> partition_key list"
  rb_clock :: "nat \<Rightarrow> int"
  rb_now :: int

definition release_each ::
  "(nat \<Rightarrow> 'db MetadataStore) \<Rightarrow> partition_key list \<Rightarrow> LeaseManager \<times> 'db \<Rightarrow> LeaseManager \<times> 'db" where
  "release_each ms ks s =
     fold (\<lambda>(i, (t, p)) (lm, db). let (lm', db', _) = release_lease (ms i) t p lm db in (lm', db')) (enumerate 0 ks) s"

definition acquire_each ::
  "(nat \<Rightarrow> 'db MetadataStore) \<Rightarrow> (nat \<Rightarrow> int) \<Rightarrow> partition_key list \<Rightarrow> LeaseManager \<times> 'db \<Rightarrow> LeaseManager \<times> 'db" where
  "acquire_each ms clock ks s =
     fold (\<lambda>(i, (t, p)) (lm, db). let (lm', db', _) = ensure_lease (ms i) (clock i) t p lm db in (lm', db')) (enumerate 0 ks) s"

definition up_to_date :: "string \<Rightarrow> string list \<Rightarrow> string list \<Rightarrow> 'db rebalance_env \<Rightarrow> AssignerState \<Rightarrow> bool" where
  "up_to_date agent_id agent_ids topics env st =
     (topology_of agent_ids = ast_agent_topology st
      \<and> set (round_robin agent_id agent_ids (check_partitions (rb_check_topic env) topics)) = set (ast_assigned_partitions st))"

definition perform_rebalance ::
  "string \<Rightarrow> string list \<Rightarrow> 'db rebalance_env \<Rightarrow> AssignerState \<Rightarrow> LeaseManager \<Rightarrow> 'db
     \<Rightarrow> AssignerState \<times> LeaseManager \<times> 'db \<times> (AgentError, unit) result" where
  "perform_rebalance agent_id topics env st lm db =
     (case rb_agents env of
        Err e \<Rightarrow> (st, lm, db, Err (Metadata e))
      | Panic \<Rightarrow> (st, lm, db, Panic)
      | Ok agent_ids \<Rightarrow>
          if agent_ids = [] then (st, lm, db, Ok ())
          else if up_to_date agent_id agent_ids topics env st then (st, lm, db, Ok ())
          else case collect_partitions (rb_get_topic env) topics of
            Err e \<Rightarrow> (st, lm, db, Err (Metadata e))
          | Panic \<Rightarrow> (st, lm, db, Panic)
          | Ok all_partitions \<Rightarrow>
              (let new_assignment = round_robin agent_id agent_ids all_partitions;
                   current = ast_assigned_partitions st;
                   to_acquire = filter (\<lambda>k. k \<notin> set current) new_assignment;
                   to_release = filter (\<lambda>k. k \<notin> set new_assignment) current;
                   (lm1, db1) = release_each (rb_release_store env) (rb_release_order env to_release) (lm, db);
                   (lm2, db2) = acquire_each (rb_acquire_store env) (rb_clock env) (rb_acquire_order env to_acquire) (lm1, db1);
                   stats = ast_stats st
               in (\<lparr>ast_assigned_partitions = new_assignment, ast_agent_topology = topology_of agent_ids,
                    ast_stats = \<lparr>as_rebalance_count = as_rebalance_count stats + 1,
                      as_assignments_gained = as_assignments_gained stats + of_nat (length to_acquire),
                      as_assignments_lost = as_assignments_lost stats + of_nat (length to_release),
                      as_last_rebalance_ms = rb_now env\<rparr>\<rparr>, lm2, db2, Ok ())))"

definition assigner_stop ::
  "(nat \<Rightarrow> 'db MetadataStore) \<Rightarrow> (partition_key list \<Rightarrow> partition_key list) \<Rightarrow> AssignerState \<Rightarrow> LeaseManager \<Rightarrow> 'db \<Rightarrow> LeaseManager \<times> 'db" where
  "assigner_stop ms order st lm db = release_each ms (order (ast_assigned_partitions st)) (lm, db)"

section \<open>Round robin\<close>

lemma residue_step:
  fixes j m n :: nat
  assumes "j < m"
  shows "Suc n div m + (if j < Suc n mod m then 1 else 0)
    = n div m + (if j < n mod m then 1 else 0) + (if n mod m = j then 1 else 0)"
proof (cases "Suc (n mod m) = m")
  case True
  with assms show ?thesis by (simp add: mod_Suc div_Suc)
next
  case False
  then show ?thesis by (simp add: mod_Suc div_Suc)
qed

lemma count_residues:
  assumes "j < m"
  shows "length (filter (\<lambda>i. i mod m = j) [0..<n]) = n div m + (if j < n mod m then 1 else 0)"
proof (induction n)
  case (Suc n)
  have "length (filter (\<lambda>i. i mod m = j) [0..<Suc n])
    = length (filter (\<lambda>i. i mod m = j) [0..<n]) + (if n mod m = j then 1 else 0)" by simp
  then show ?case by (simp only: Suc.IH residue_step [OF assms])
qed simp

lemma enumerate_nths: "enumerate 0 xs = map (\<lambda>i. (i, xs ! i)) [0..<length xs]"
  by (rule nth_equalityI) (simp_all add: nth_enumerate_eq)

lemma enumerate_filter: "filter (\<lambda>(i, _). P i) (enumerate 0 xs) = map (\<lambda>i. (i, xs ! i)) (filter P [0..<length xs])"
  by (simp add: enumerate_nths filter_map comp_def)

lemma round_robin_indices:
  assumes "distinct partitions"
  shows "round_robin a agents partitions =
    map (\<lambda>i. sort partitions ! i) (filter (\<lambda>i. sort agents ! (i mod length agents) = a) [0..<length partitions])"
proof -
  have "distinct (map (\<lambda>i. sort partitions ! i) (filter P [0..<length partitions]))" for P
    using assms by (auto simp: distinct_map inj_on_def nth_eq_iff_index_eq)
  then show ?thesis
    unfolding round_robin_def Let_def enumerate_filter by (simp add: comp_def distinct_remdups_id)
qed

lemma agent_index:
  assumes "distinct agents" and "j < length agents" and "sort agents ! j = a"
  shows "sort agents ! (i mod length agents) = a \<longleftrightarrow> i mod length agents = j"
proof -
  have "i mod length agents < length agents" using assms(2) by (intro mod_less_divisor) linarith
  then show ?thesis using assms nth_eq_iff_index_eq [of "sort agents" "i mod length agents" j] by (metis distinct_sort length_sort)
qed

lemma in_round_robin:
  assumes "distinct partitions"
  shows "k \<in> set (round_robin a agents partitions) \<longleftrightarrow>
    (\<exists>i < length partitions. sort partitions ! i = k \<and> sort agents ! (i mod length agents) = a)"
  by (auto simp: round_robin_indices [OF assms] image_iff)

lemma round_robin_length:
  assumes "distinct agents" and "distinct partitions" and "a \<in> set agents"
  obtains j where "j < length agents"
    and "length (round_robin a agents partitions)
      = length partitions div length agents + (if j < length partitions mod length agents then 1 else 0)"
proof -
  from assms(3) obtain j where j: "j < length agents" "sort agents ! j = a" by (metis in_set_conv_nth length_sort set_sort)
  have "length (round_robin a agents partitions) = length (filter (\<lambda>i. i mod length agents = j) [0..<length partitions])"
    by (simp add: round_robin_indices [OF assms(2)] agent_index [OF assms(1) j])
  with j(1) show thesis by (intro that [of j]) (simp_all only: count_residues [OF j(1)])
qed

lemma round_robin_owner:
  assumes "distinct partitions" and "k \<in> set partitions" and "agents \<noteq> []"
  shows "\<exists>!a. a \<in> set agents \<and> k \<in> set (round_robin a agents partitions)"
proof -
  from assms(2) obtain i where i: "i < length partitions" "sort partitions ! i = k" by (metis in_set_conv_nth length_sort set_sort)
  have unique: "i' = i" if "i' < length partitions" "sort partitions ! i' = k" for i'
    using that i assms(1) by (metis distinct_sort length_sort nth_eq_iff_index_eq)
  have "i mod length agents < length agents" using assms(3) by simp
  then have mem: "sort agents ! (i mod length agents) \<in> set agents" by (metis length_sort nth_mem set_sort)
  show ?thesis
  proof (rule ex1I [of _ "sort agents ! (i mod length agents)"])
    show "sort agents ! (i mod length agents) \<in> set agents
      \<and> k \<in> set (round_robin (sort agents ! (i mod length agents)) agents partitions)"
      using mem i by (simp add: in_round_robin [OF assms(1)]) blast
  next
    fix a assume "a \<in> set agents \<and> k \<in> set (round_robin a agents partitions)"
    then obtain i' where "i' < length partitions" "sort partitions ! i' = k" "sort agents ! (i' mod length agents) = a"
      by (simp add: in_round_robin [OF assms(1)]) blast
    with unique show "a = sort agents ! (i mod length agents)" by blast
  qed
qed

lemma sort_mset_cong: "mset xs = mset ys \<Longrightarrow> sort xs = sort ys"
  by (metis mset_sort properties_for_sort sorted_sort)

lemma round_robin_cong:
  assumes "mset agents = mset agents'" and "mset partitions = mset partitions'"
  shows "round_robin a agents partitions = round_robin a agents' partitions'"
  by (simp add: round_robin_def sort_mset_cong [OF assms(1)] sort_mset_cong [OF assms(2)])

lemma topology_cong:
  assumes "mset agents = mset agents'"
  shows "topology_of agents = topology_of agents'"
  by (simp add: topology_of_def sort_mset_cong [OF assms])

lemma check_collect:
  assumes "collect_partitions f topics = Ok ps"
  shows "check_partitions f topics = ps"
  using assms
proof (induction topics arbitrary: ps)
  case (Cons t ts)
  then obtain topic rest where "f t = Ok topic" "collect_partitions f ts = Ok rest"
    and "ps = (case topic of None \<Rightarrow> [] | Some n \<Rightarrow> topic_partitions t n) @ rest"
    by (cases "f t"; cases "collect_partitions f ts") auto
  with Cons.IH [of rest] show ?case by (cases topic) (simp_all add: check_partitions_def)
qed (simp add: check_partitions_def)

lemma rebalance_settles:
  assumes "perform_rebalance a topics env st lm db = (st', lm', db', Ok ())"
    and "rb_agents env = Ok agents" and "agents \<noteq> []"
    and "collect_partitions (rb_get_topic env) topics = Ok ps" and "check_partitions (rb_check_topic env) topics = ps"
  shows "set (ast_assigned_partitions st') = set (round_robin a agents ps) \<and> ast_agent_topology st' = topology_of agents"
  using assms by (auto simp: perform_rebalance_def up_to_date_def Let_def split: if_splits prod.splits)

section \<open>Properties\<close>

text \<open>
  The round-robin assignment that every agent computes on its own is a partition of the work: over distinct live agents each
  partition has exactly one owner, agents own only partitions of the topics, the loads differ by at most one, and the order in which the
  metadata store lists agents, topics and partitions does not matter, so agents that see the same sets agree.
\<close>

theorem round_robin_partitions_work:
  assumes "distinct agents" and "agents \<noteq> []" and "distinct partitions"
  shows "(\<forall>k \<in> set partitions. \<exists>!a. a \<in> set agents \<and> k \<in> set (round_robin a agents partitions))
    \<and> (\<forall>a. set (round_robin a agents partitions) \<subseteq> set partitions)
    \<and> (\<forall>a \<in> set agents. length (round_robin a agents partitions) \<in>
         {length partitions div length agents, length partitions div length agents + 1})
    \<and> (\<forall>a agents' partitions'. mset agents' = mset agents \<longrightarrow> mset partitions' = mset partitions
         \<longrightarrow> round_robin a agents' partitions' = round_robin a agents partitions)"
proof (intro conjI ballI allI impI)
  fix a show "set (round_robin a agents partitions) \<subseteq> set partitions"
    using in_round_robin [OF assms(3)] by (metis length_sort nth_mem set_sort subsetI)
next
  fix a assume "a \<in> set agents"
  then obtain j where "length (round_robin a agents partitions)
      = length partitions div length agents + (if j < length partitions mod length agents then 1 else 0)"
    by (rule round_robin_length [OF assms(1,3)])
  then show "length (round_robin a agents partitions) \<in> {length partitions div length agents, length partitions div length agents + 1}" by simp
qed (use assms round_robin_owner round_robin_cong in blast)+

theorem round_robin_partitions_work_witness:
  "\<exists>!a. a \<in> set [''b'', ''a''] \<and> (''t'', 1) \<in> set (round_robin a [''b'', ''a''] [(''t'', 0), (''t'', 1), (''t'', 2)])"
proof (rule round_robin_partitions_work [THEN conjunct1, THEN bspec])
  show "distinct [''b'', ''a'']" and "[''b'', ''a''] \<noteq> []" by simp_all
  show "distinct [(''t'', 0::u32), (''t'', 1), (''t'', 2)]" by simp
  show "(''t'', 1::u32) \<in> set [(''t'', 0), (''t'', 1), (''t'', 2)]" by simp
qed

text \<open>
  A rebalance that reports success is final until agents or topics change: whatever its lease calls answered, the next rebalance over
  the same agents and partitions changes neither the assigner, nor the leases, nor the database. A partition whose acquisition failed
  is recorded as assigned like the others and is not asked for again, although the comments promise that a failed acquisition is not
  added to the assignment and that missing leases are detected.
\<close>

theorem rebalance_never_retries:
  assumes "perform_rebalance a topics env st lm db = (st', lm', db', Ok ())"
    and "rb_agents env = Ok agents" and "agents \<noteq> []"
    and "collect_partitions (rb_get_topic env) topics = Ok ps" and "rb_check_topic env = rb_get_topic env"
    and "rb_agents env' = Ok agents'" and "mset agents' = mset agents" and "rb_check_topic env' = rb_get_topic env"
  shows "perform_rebalance a topics env' st' lm'' db'' = (st', lm'', db'', Ok ())"
proof -
  have ps: "check_partitions (rb_get_topic env) topics = ps" by (rule check_collect) fact
  have "agents' \<noteq> []" using assms(3,7) by auto
  moreover have "up_to_date a agents' topics env' st'"
    using rebalance_settles [OF assms(1-4)] ps assms(5,8)
    by (simp add: up_to_date_def round_robin_cong [OF assms(7)] topology_cong [OF assms(7)])
  ultimately show ?thesis by (simp add: perform_rebalance_def assms(6))
qed

definition demo_rebalance :: "bool \<Rightarrow> lease_db rebalance_env" where
  "demo_rebalance down =
     (let store = sqlite_store \<lparr>de_exec_fails = down, de_acquire_fails = False, de_query_fails = False, de_uuid_fails = (\<lambda>_. False),
            de_topic_org = (\<lambda>_. Ok (Some ''org'')), de_transfer_id = []\<rparr>
      in \<lparr>rb_agents = Ok [''A''], rb_check_topic = (\<lambda>_. Ok (Some 1)), rb_get_topic = (\<lambda>_. Ok (Some 1)),
          rb_release_store = (\<lambda>_. store), rb_acquire_store = (\<lambda>_. store), rb_release_order = (\<lambda>ks. ks),
          rb_acquire_order = (\<lambda>ks. ks), rb_clock = (\<lambda>_. 0), rb_now = 0\<rparr>)"

theorem rebalance_never_retries_witness:
  "\<exists>st' db'. perform_rebalance ''A'' [''orders''] (demo_rebalance True) AssignerState_new (LeaseManager_new ''A'') lease_db_empty
       = (st', LeaseManager_new ''A'', db', Ok ())
     \<and> perform_rebalance ''A'' [''orders''] (demo_rebalance False) st' (LeaseManager_new ''A'') db'
       = (st', LeaseManager_new ''A'', db', Ok ())"
proof -
  obtain st' db' where first: "perform_rebalance ''A'' [''orders''] (demo_rebalance True) AssignerState_new (LeaseManager_new ''A'') lease_db_empty
       = (st', LeaseManager_new ''A'', db', Ok ())"
    by (simp add: perform_rebalance_def demo_rebalance_def up_to_date_def topology_of_def AssignerState_new_def round_robin_def
        topic_partitions_def release_each_def acquire_each_def ensure_lease_def acquire_lease_def acquire_with_def sqlite_store_def
        acquire_partition_lease_def get_epoch_def LeaseManager_new_def Let_def)
  have "perform_rebalance ''A'' [''orders''] (demo_rebalance False) st' (LeaseManager_new ''A'') db' = (st', LeaseManager_new ''A'', db', Ok ())"
    by (rule rebalance_never_retries [OF first, of "[''A'']" "[(''orders'', 0)]" _ "[''A'']"])
      (simp_all add: demo_rebalance_def topic_partitions_def Let_def)
  with first show ?thesis by blast
qed

end
