(* ===== verification/Producer_Store.thy ===== *)
theory Producer_Store
  imports Metadata_Types "HOL-Library.Char_ord" "HOL-Library.List_Lexorder" "HOL-Library.Product_Lexorder"
begin

text \<open>
  Producers, sequence numbers and transactions of the SQLite metadata store, \<^verbatim>\<open>streamhouse-metadata/src/store.rs\<close> with the types of
  \<^verbatim>\<open>types.rs\<close>. Each table is a field of the database; foreign keys are on, so an insert below a missing parent fails and deleting a
  parent deletes its children. A statement that fails is an argument: \<open>fails\<close> where one flag is enough, \<open>tx_faults\<close> where the source treats
  its statements differently. Sequence numbers and times are \<open>int\<close>, offsets \<open>nat\<close>: they stay far below \<open>2 ^ 63\<close>. The epoch of a producer is a
  32-bit word. Statements are built with quoted literals; the model is about identifiers without a quote.
\<close>

section \<open>Types\<close>

datatype ProducerState = Active | Fenced | Expired

record Producer =
  p_id :: string
  p_organization_id :: "string option"
  p_transactional_id :: "string option"
  p_epoch :: u32
  p_state :: ProducerState
  p_created_at :: int
  p_last_heartbeat :: int
  p_metadata :: "(string \<times> string) list option"
  p_numeric_id :: "int option"

record ProducerSequence =
  ps_last_sequence :: int
  ps_updated_at :: int

record InitProducerConfig =
  ic_transactional_id :: "string option"
  ic_organization_id :: "string option"
  ic_timeout_ms :: u32
  ic_metadata :: "(string \<times> string) list option"

datatype TransactionState = Ongoing | Preparing | Committed | Aborted

record Transaction =
  t_transaction_id :: string
  t_producer_id :: string
  t_state :: TransactionState
  t_timeout_ms :: u32
  t_started_at :: int
  t_updated_at :: int
  t_completed_at :: "int option"

record TransactionPartition =
  tp_transaction_id :: string
  tp_topic :: string
  tp_partition_id :: u32
  tp_first_offset :: nat
  tp_last_offset :: nat

datatype TransactionMarkerType = Commit | Abort

record TransactionMarker =
  tm_transaction_id :: string
  tm_topic :: string
  tm_partition_id :: u32
  tm_offset :: nat
  tm_marker_type :: TransactionMarkerType
  tm_timestamp :: int

type_synonym sequence_key = "string \<times> string \<times> u32"

text \<open>The tables. A transaction row carries the organization column beside the fields of \<^verbatim>\<open>Transaction\<close>.\<close>

record producer_db =
  producers :: "Producer list"
  producer_sequences :: "sequence_key \<rightharpoonup> ProducerSequence"
  transactions :: "(Transaction \<times> string option) list"
  transaction_partitions :: "TransactionPartition list"
  transaction_markers :: "TransactionMarker list"
  partition_lso :: "partition_key \<rightharpoonup> nat"
  producer_id_sequence :: int

definition producer_db_empty :: producer_db where
  "producer_db_empty = \<lparr>producers = [], producer_sequences = (\<lambda>_. None), transactions = [], transaction_partitions = [],
     transaction_markers = [], partition_lso = (\<lambda>_. None), producer_id_sequence = 1\<rparr>"

definition db_query :: "bool \<Rightarrow> 'a \<Rightarrow> (metadata_error, 'a) result" where
  "db_query fails a = (if fails then Err DatabaseError else Ok a)"

section \<open>Producers\<close>

definition get_producer :: "string \<Rightarrow> producer_db \<Rightarrow> Producer option" where
  "get_producer producer_id db = find (\<lambda>p. p_id p = producer_id) (producers db)"

definition get_producer_by_transactional_id :: "string \<Rightarrow> string option \<Rightarrow> producer_db \<Rightarrow> Producer option" where
  "get_producer_by_transactional_id transactional_id organization_id db =
     find (\<lambda>p. p_transactional_id p = Some transactional_id \<and> p_organization_id p = organization_id) (producers db)"

definition get_producer_by_numeric_id :: "int \<Rightarrow> producer_db \<Rightarrow> Producer option" where
  "get_producer_by_numeric_id numeric_id db = find (\<lambda>p. p_numeric_id p = Some numeric_id) (producers db)"

definition update_producers :: "(Producer \<Rightarrow> bool) \<Rightarrow> (Producer \<Rightarrow> Producer) \<Rightarrow> producer_db \<Rightarrow> producer_db" where
  "update_producers P f db = db\<lparr>producers := map (\<lambda>p. if P p then f p else p) (producers db)\<rparr>"

text \<open>\<^verbatim>\<open>NULLIF(x, '')\<close> on an optional string: the empty string is stored as null.\<close>

definition nullif_empty :: "string option \<Rightarrow> string option" where
  "nullif_empty s = (if s = Some [] then None else s)"

text \<open>The primary key and \<^verbatim>\<open>UNIQUE(organization_id, transactional_id)\<close>, in which nulls are distinct.\<close>

definition producer_conflict :: "Producer \<Rightarrow> producer_db \<Rightarrow> bool" where
  "producer_conflict q db = (\<exists>p \<in> set (producers db). p_id p = p_id q
     \<or> (p_organization_id p = p_organization_id q \<and> p_transactional_id p = p_transactional_id q
        \<and> p_organization_id p \<noteq> None \<and> p_transactional_id p \<noteq> None))"

definition existing_producer :: "InitProducerConfig \<Rightarrow> producer_db \<Rightarrow> Producer option" where
  "existing_producer config db =
     (case ic_transactional_id config of
        None \<Rightarrow> None
      | Some tid \<Rightarrow> get_producer_by_transactional_id tid (ic_organization_id config) db)"

definition init_producer ::
  "bool \<Rightarrow> int \<Rightarrow> string \<Rightarrow> InitProducerConfig \<Rightarrow> producer_db \<Rightarrow> producer_db \<times> (metadata_error, Producer) result" where
  "init_producer fails now new_id config db =
     (if fails then (db, Err DatabaseError)
      else case existing_producer config db of
        Some p \<Rightarrow>
          (let f = (\<lambda>q. q\<lparr>p_epoch := p_epoch p + 1, p_last_heartbeat := now, p_state := Active\<rparr>)
           in (update_producers (\<lambda>q. p_id q = p_id p) f db, Ok (f p)))
      | None \<Rightarrow>
          (let q = \<lparr>p_id = new_id, p_organization_id = ic_organization_id config, p_transactional_id = ic_transactional_id config,
                 p_epoch = 0, p_state = Active, p_created_at = now, p_last_heartbeat = now, p_metadata = ic_metadata config,
                 p_numeric_id = None\<rparr>;
               row = q\<lparr>p_organization_id := nullif_empty (ic_organization_id config),
                 p_transactional_id := nullif_empty (ic_transactional_id config)\<rparr>
           in if producer_conflict row db then (db, Err DatabaseError)
              else (db\<lparr>producers := producers db @ [row]\<rparr>, Ok q)))"

definition update_producer_heartbeat :: "bool \<Rightarrow> int \<Rightarrow> string \<Rightarrow> producer_db \<Rightarrow> producer_db \<times> (metadata_error, unit) result" where
  "update_producer_heartbeat fails now producer_id db =
     (if fails then (db, Err DatabaseError)
      else (update_producers (\<lambda>p. p_id p = producer_id) (\<lambda>p. p\<lparr>p_last_heartbeat := now\<rparr>) db, Ok ()))"

definition fence_producer :: "bool \<Rightarrow> string \<Rightarrow> producer_db \<Rightarrow> producer_db \<times> (metadata_error, unit) result" where
  "fence_producer fails producer_id db =
     (if fails then (db, Err DatabaseError)
      else if get_producer producer_id db = None then (db, Err (NotFoundError (''Producer '' @ producer_id @ '' not found'')))
      else (update_producers (\<lambda>p. p_id p = producer_id) (\<lambda>p. p\<lparr>p_state := Fenced\<rparr>) db, Ok ()))"

text \<open>\<^verbatim>\<open>ON DELETE CASCADE\<close>: deleting transactions and producers deletes what refers to them.\<close>

definition delete_transactions :: "(Transaction \<Rightarrow> bool) \<Rightarrow> producer_db \<Rightarrow> producer_db" where
  "delete_transactions P db =
     (let gone = t_transaction_id ` {t \<in> fst ` set (transactions db). P t}
      in db\<lparr>transactions := filter (\<lambda>r. \<not> P (fst r)) (transactions db),
           transaction_partitions := filter (\<lambda>tp. tp_transaction_id tp \<notin> gone) (transaction_partitions db),
           transaction_markers := filter (\<lambda>m. tm_transaction_id m \<notin> gone) (transaction_markers db)\<rparr>)"

definition delete_producers :: "(Producer \<Rightarrow> bool) \<Rightarrow> producer_db \<Rightarrow> producer_db" where
  "delete_producers P db =
     (let gone = p_id ` {p \<in> set (producers db). P p};
          db1 = db\<lparr>producers := filter (\<lambda>p. \<not> P p) (producers db),
            producer_sequences := (\<lambda>(p, t, n). if p \<in> gone then None else producer_sequences db (p, t, n))\<rparr>
      in delete_transactions (\<lambda>t. t_producer_id t \<in> gone) db1)"

definition cleanup_expired_producers :: "bool \<Rightarrow> int \<Rightarrow> int \<Rightarrow> producer_db \<Rightarrow> producer_db \<times> (metadata_error, nat) result" where
  "cleanup_expired_producers fails now timeout_ms db =
     (if fails then (db, Err DatabaseError)
      else let P = (\<lambda>p. p_last_heartbeat p < now - timeout_ms \<and> p_state p \<noteq> Active)
           in (delete_producers P db, Ok (length (filter P (producers db)))))"

text \<open>Three statements, each committed on its own: \<open>failing\<close> is the number of the one that fails.\<close>

definition allocate_numeric_producer_id :: "nat option \<Rightarrow> string \<Rightarrow> producer_db \<Rightarrow> producer_db \<times> (metadata_error, int) result" where
  "allocate_numeric_producer_id failing producer_id db =
     (let db1 = db\<lparr>producer_id_sequence := producer_id_sequence db + 1\<rparr>;
          numeric_id = producer_id_sequence db1 - 1
      in if failing = Some 0 then (db, Err DatabaseError)
         else if failing = Some 1 \<or> failing = Some 2 then (db1, Err DatabaseError)
         else (update_producers (\<lambda>p. p_id p = producer_id) (\<lambda>p. p\<lparr>p_numeric_id := Some numeric_id\<rparr>) db1, Ok numeric_id))"

section \<open>Sequence numbers\<close>

definition get_producer_sequence :: "string \<Rightarrow> string \<Rightarrow> u32 \<Rightarrow> producer_db \<Rightarrow> int option" where
  "get_producer_sequence producer_id topic partition_id db =
     map_option ps_last_sequence (producer_sequences db (producer_id, topic, partition_id))"

definition upsert_sequence :: "int \<Rightarrow> sequence_key \<Rightarrow> int \<Rightarrow> producer_db \<Rightarrow> (metadata_error, producer_db) result" where
  "upsert_sequence now key sequence db =
     (if get_producer (fst key) db = None then Err DatabaseError
      else Ok (db\<lparr>producer_sequences := (producer_sequences db)(key \<mapsto> \<lparr>ps_last_sequence = sequence, ps_updated_at = now\<rparr>)\<rparr>))"

definition update_producer_sequence ::
  "bool \<Rightarrow> int \<Rightarrow> string \<Rightarrow> string \<Rightarrow> u32 \<Rightarrow> int \<Rightarrow> producer_db \<Rightarrow> producer_db \<times> (metadata_error, unit) result" where
  "update_producer_sequence fails now producer_id topic partition_id sequence db =
     (if fails then (db, Err DatabaseError)
      else case upsert_sequence now (producer_id, topic, partition_id) sequence db of
        Ok db' \<Rightarrow> (db', Ok ())
      | Err e \<Rightarrow> (db, Err e)
      | Panic \<Rightarrow> (db, Panic))"

record tx_faults =
  tx_begin_fails :: bool
  tx_select_fails :: bool
  tx_exec_fails :: bool
  tx_commit_fails :: bool

text \<open>A failing \<^verbatim>\<open>SELECT\<close> is turned into an absent row by \<^verbatim>\<open>.ok()\<close>.\<close>

definition last_sequence :: "tx_faults \<Rightarrow> sequence_key \<Rightarrow> producer_db \<Rightarrow> int" where
  "last_sequence faults key db =
     (if tx_select_fails faults then -1
      else case producer_sequences db key of None \<Rightarrow> -1 | Some s \<Rightarrow> ps_last_sequence s)"

definition check_and_update_sequence ::
  "tx_faults \<Rightarrow> int \<Rightarrow> string \<Rightarrow> string \<Rightarrow> u32 \<Rightarrow> int \<Rightarrow> u32 \<Rightarrow> producer_db \<Rightarrow> producer_db \<times> (metadata_error, bool) result" where
  "check_and_update_sequence faults now producer_id topic partition_id base_sequence record_count db =
     (let key = (producer_id, topic, partition_id); last = last_sequence faults key db in
      if tx_begin_fails faults then (db, Err DatabaseError)
      else if base_sequence \<le> last then (db, Ok False)
      else if base_sequence > last + 1
      then (db, Err (SequenceError (''Sequence gap: expected '' @ show_int (last + 1) @ '', got '' @ show_int base_sequence)))
      else if tx_exec_fails faults \<or> tx_commit_fails faults then (db, Err DatabaseError)
      else case upsert_sequence now key (base_sequence + int (unat record_count) - 1) db of
        Ok db' \<Rightarrow> (db', Ok True)
      | Err e \<Rightarrow> (db, Err e)
      | Panic \<Rightarrow> (db, Panic))"

section \<open>Transactions\<close>

definition get_transaction :: "string \<Rightarrow> producer_db \<Rightarrow> Transaction option" where
  "get_transaction transaction_id db = find (\<lambda>t. t_transaction_id t = transaction_id) (map fst (transactions db))"

definition get_transaction_for_org :: "string \<Rightarrow> string \<Rightarrow> producer_db \<Rightarrow> Transaction option" where
  "get_transaction_for_org org_id transaction_id db =
     map_option fst (find (\<lambda>(t, org). t_transaction_id t = transaction_id \<and> org = Some org_id) (transactions db))"

text \<open>\<^verbatim>\<open>begin_transaction\<close> and \<^verbatim>\<open>begin_transaction_for_org\<close> differ in the organization column.\<close>

definition insert_transaction ::
  "bool \<Rightarrow> int \<Rightarrow> string \<Rightarrow> string option \<Rightarrow> string \<Rightarrow> u32 \<Rightarrow> producer_db \<Rightarrow> producer_db \<times> (metadata_error, Transaction) result" where
  "insert_transaction fails now new_id org producer_id timeout_ms db =
     (let t = \<lparr>t_transaction_id = new_id, t_producer_id = producer_id, t_state = Ongoing, t_timeout_ms = timeout_ms,
            t_started_at = now, t_updated_at = now, t_completed_at = None\<rparr>
      in if fails \<or> get_producer producer_id db = None \<or> get_transaction new_id db \<noteq> None then (db, Err DatabaseError)
         else (db\<lparr>transactions := transactions db @ [(t, org)]\<rparr>, Ok t))"

definition begin_transaction ::
  "bool \<Rightarrow> int \<Rightarrow> string \<Rightarrow> string \<Rightarrow> u32 \<Rightarrow> producer_db \<Rightarrow> producer_db \<times> (metadata_error, Transaction) result" where
  "begin_transaction fails now new_id = insert_transaction fails now new_id None"

definition begin_transaction_for_org ::
  "bool \<Rightarrow> int \<Rightarrow> string \<Rightarrow> string \<Rightarrow> string \<Rightarrow> u32 \<Rightarrow> producer_db \<Rightarrow> producer_db \<times> (metadata_error, Transaction) result" where
  "begin_transaction_for_org fails now new_id org_id = insert_transaction fails now new_id (Some org_id)"

definition partition_row :: "string \<Rightarrow> string \<Rightarrow> u32 \<Rightarrow> TransactionPartition \<Rightarrow> bool" where
  "partition_row transaction_id topic partition_id tp =
     (tp_transaction_id tp = transaction_id \<and> tp_topic tp = topic \<and> tp_partition_id tp = partition_id)"

definition add_transaction_partition ::
  "bool \<Rightarrow> string \<Rightarrow> string \<Rightarrow> u32 \<Rightarrow> nat \<Rightarrow> producer_db \<Rightarrow> producer_db \<times> (metadata_error, unit) result" where
  "add_transaction_partition fails transaction_id topic partition_id first_offset db =
     (if fails then (db, Err DatabaseError)
      else if \<exists>tp \<in> set (transaction_partitions db). partition_row transaction_id topic partition_id tp then (db, Ok ())
      else if get_transaction transaction_id db = None then (db, Err DatabaseError)
      else (db\<lparr>transaction_partitions := transaction_partitions db @
              [\<lparr>tp_transaction_id = transaction_id, tp_topic = topic, tp_partition_id = partition_id,
                tp_first_offset = first_offset, tp_last_offset = first_offset\<rparr>]\<rparr>, Ok ()))"

definition add_transaction_partition_for_org ::
  "bool \<Rightarrow> bool \<Rightarrow> string \<Rightarrow> string \<Rightarrow> string \<Rightarrow> u32 \<Rightarrow> nat \<Rightarrow> producer_db \<Rightarrow> producer_db \<times> (metadata_error, unit) result" where
  "add_transaction_partition_for_org query_fails fails org_id transaction_id topic partition_id first_offset db =
     (if query_fails then (db, Err DatabaseError)
      else if get_transaction_for_org org_id transaction_id db = None
      then (db, Err (TransactionError (''Transaction '' @ transaction_id @ '' not found for organization '' @ org_id)))
      else add_transaction_partition fails transaction_id topic partition_id first_offset db)"

definition update_transaction_partition_offset ::
  "bool \<Rightarrow> string \<Rightarrow> string \<Rightarrow> u32 \<Rightarrow> nat \<Rightarrow> producer_db \<Rightarrow> producer_db \<times> (metadata_error, unit) result" where
  "update_transaction_partition_offset fails transaction_id topic partition_id last_offset db =
     (if fails then (db, Err DatabaseError)
      else (db\<lparr>transaction_partitions := map (\<lambda>tp. if partition_row transaction_id topic partition_id tp
                                               then tp\<lparr>tp_last_offset := last_offset\<rparr> else tp) (transaction_partitions db)\<rparr>, Ok ()))"

definition get_transaction_partitions :: "string \<Rightarrow> producer_db \<Rightarrow> TransactionPartition list" where
  "get_transaction_partitions transaction_id db =
     sort_key (\<lambda>tp. (tp_topic tp, tp_partition_id tp)) (filter (\<lambda>tp. tp_transaction_id tp = transaction_id) (transaction_partitions db))"

definition get_transaction_partitions_for_org :: "string \<Rightarrow> string \<Rightarrow> producer_db \<Rightarrow> TransactionPartition list" where
  "get_transaction_partitions_for_org org_id transaction_id db =
     (if get_transaction_for_org org_id transaction_id db = None then [] else get_transaction_partitions transaction_id db)"

text \<open>
  The statements that change the state of a transaction select it by its id, its state and, in the \<^verbatim>\<open>_for_org\<close> variants, the organization
  (\<open>scope\<close>). \<open>None\<close> says that no row was affected.
\<close>

definition in_scope :: "string option \<Rightarrow> string option \<Rightarrow> bool" where
  "in_scope scope org = (scope = None \<or> org = scope)"

definition set_transaction_state ::
  "string option \<Rightarrow> TransactionState set \<Rightarrow> (Transaction \<Rightarrow> Transaction) \<Rightarrow> string \<Rightarrow> producer_db \<Rightarrow> producer_db option" where
  "set_transaction_state scope from f transaction_id db =
     (let P = (\<lambda>(t, org). t_transaction_id t = transaction_id \<and> in_scope scope org \<and> t_state t \<in> from)
      in if \<exists>r \<in> set (transactions db). P r
         then Some (db\<lparr>transactions := map (\<lambda>r. if P r then (f (fst r), snd r) else r) (transactions db)\<rparr>)
         else None)"

definition prepare_with ::
  "string option \<Rightarrow> bool \<Rightarrow> int \<Rightarrow> string \<Rightarrow> producer_db \<Rightarrow> producer_db \<times> (metadata_error, unit) result" where
  "prepare_with scope fails now transaction_id db =
     (if fails then (db, Err DatabaseError)
      else case set_transaction_state scope {Ongoing} (\<lambda>t. t\<lparr>t_state := Preparing, t_updated_at := now\<rparr>) transaction_id db of
        None \<Rightarrow> (db, Err (TransactionError (''Transaction '' @ transaction_id @ '' is not in ongoing state'')))
      | Some db' \<Rightarrow> (db', Ok ()))"

definition prepare_transaction :: "bool \<Rightarrow> int \<Rightarrow> string \<Rightarrow> producer_db \<Rightarrow> producer_db \<times> (metadata_error, unit) result" where
  "prepare_transaction = prepare_with None"

definition prepare_transaction_for_org :: "bool \<Rightarrow> int \<Rightarrow> string \<Rightarrow> string \<Rightarrow> producer_db \<Rightarrow> producer_db \<times> (metadata_error, unit) result" where
  "prepare_transaction_for_org fails now org_id = prepare_with (Some org_id) fails now"

text \<open>The marker and the last stable offset of one partition, the body of the loop in commit and abort.\<close>

definition write_marker :: "int \<Rightarrow> TransactionMarkerType \<Rightarrow> string \<Rightarrow> TransactionPartition \<Rightarrow> producer_db \<Rightarrow> producer_db" where
  "write_marker now marker_type transaction_id tp db =
     (let key = (tp_topic tp, tp_partition_id tp); stable = tp_last_offset tp + 1 in
      db\<lparr>transaction_markers := transaction_markers db @
           [\<lparr>tm_transaction_id = transaction_id, tm_topic = tp_topic tp, tm_partition_id = tp_partition_id tp,
             tm_offset = tp_last_offset tp, tm_marker_type = marker_type, tm_timestamp = now\<rparr>],
         partition_lso := (partition_lso db)(key \<mapsto>
           (case partition_lso db key of None \<Rightarrow> stable | Some old \<Rightarrow> max old stable))\<rparr>)"

text \<open>Commit and abort run in a database transaction: an error leaves the database as it was.\<close>

definition end_with ::
  "string option \<Rightarrow> TransactionState \<Rightarrow> TransactionMarkerType \<Rightarrow> string \<Rightarrow> bool \<Rightarrow> int \<Rightarrow> string \<Rightarrow> producer_db
     \<Rightarrow> producer_db \<times> (metadata_error, unit) result" where
  "end_with scope new_state marker_type verb fails now transaction_id db =
     (if fails then (db, Err DatabaseError)
      else case set_transaction_state scope {Ongoing, Preparing}
             (\<lambda>t. t\<lparr>t_state := new_state, t_updated_at := now, t_completed_at := Some now\<rparr>) transaction_id db of
        None \<Rightarrow> (db, Err (TransactionError (''Transaction '' @ transaction_id @ '' cannot be '' @ verb)))
      | Some db1 \<Rightarrow> (fold (write_marker now marker_type transaction_id) (get_transaction_partitions transaction_id db) db1, Ok ()))"

definition commit_with :: "string option \<Rightarrow> bool \<Rightarrow> int \<Rightarrow> string \<Rightarrow> producer_db \<Rightarrow> producer_db \<times> (metadata_error, int) result" where
  "commit_with scope fails now transaction_id db =
     (let (db', r) = end_with scope Committed Commit ''committed'' fails now transaction_id db in (db', rbind r (\<lambda>_. Ok now)))"

definition commit_transaction :: "bool \<Rightarrow> int \<Rightarrow> string \<Rightarrow> producer_db \<Rightarrow> producer_db \<times> (metadata_error, int) result" where
  "commit_transaction = commit_with None"

definition commit_transaction_for_org :: "bool \<Rightarrow> int \<Rightarrow> string \<Rightarrow> string \<Rightarrow> producer_db \<Rightarrow> producer_db \<times> (metadata_error, int) result" where
  "commit_transaction_for_org fails now org_id = commit_with (Some org_id) fails now"

definition abort_transaction :: "bool \<Rightarrow> int \<Rightarrow> string \<Rightarrow> producer_db \<Rightarrow> producer_db \<times> (metadata_error, unit) result" where
  "abort_transaction = end_with None Aborted Abort ''aborted''"

definition abort_transaction_for_org :: "bool \<Rightarrow> int \<Rightarrow> string \<Rightarrow> string \<Rightarrow> producer_db \<Rightarrow> producer_db \<times> (metadata_error, unit) result" where
  "abort_transaction_for_org fails now org_id = end_with (Some org_id) Aborted Abort ''aborted'' fails now"

definition cleanup_completed_transactions :: "bool \<Rightarrow> int \<Rightarrow> int \<Rightarrow> producer_db \<Rightarrow> producer_db \<times> (metadata_error, nat) result" where
  "cleanup_completed_transactions fails now max_age_ms db =
     (if fails then (db, Err DatabaseError)
      else let P = (\<lambda>t. case t_completed_at t of None \<Rightarrow> False | Some c \<Rightarrow> c < now - max_age_ms)
           in (delete_transactions P db, Ok (length (filter (\<lambda>(t, _). P t) (transactions db)))))"

section \<open>Markers and the last stable offset\<close>

definition add_transaction_marker :: "bool \<Rightarrow> TransactionMarker \<Rightarrow> producer_db \<Rightarrow> producer_db \<times> (metadata_error, unit) result" where
  "add_transaction_marker fails marker db =
     (if fails \<or> get_transaction (tm_transaction_id marker) db = None then (db, Err DatabaseError)
      else (db\<lparr>transaction_markers := transaction_markers db @ [marker]\<rparr>, Ok ()))"

definition get_transaction_markers :: "string \<Rightarrow> u32 \<Rightarrow> nat \<Rightarrow> producer_db \<Rightarrow> TransactionMarker list" where
  "get_transaction_markers topic partition_id min_offset db =
     sort_key tm_offset (filter (\<lambda>m. tm_topic m = topic \<and> tm_partition_id m = partition_id \<and> tm_offset m \<ge> min_offset)
       (transaction_markers db))"

definition get_last_stable_offset :: "string \<Rightarrow> u32 \<Rightarrow> producer_db \<Rightarrow> nat" where
  "get_last_stable_offset topic partition_id db =
     (case partition_lso db (topic, partition_id) of None \<Rightarrow> 0 | Some lso \<Rightarrow> lso)"

definition update_last_stable_offset :: "bool \<Rightarrow> string \<Rightarrow> u32 \<Rightarrow> nat \<Rightarrow> producer_db \<Rightarrow> producer_db \<times> (metadata_error, unit) result" where
  "update_last_stable_offset fails topic partition_id lso db =
     (if fails then (db, Err DatabaseError)
      else (db\<lparr>partition_lso := (partition_lso db)((topic, partition_id) \<mapsto> lso)\<rparr>, Ok ()))"

end
