(* ===== verification/Producer_Properties.thy ===== *)
theory Producer_Properties
  imports Producer_Store
begin

text \<open>
  Theorems on producers, sequence numbers and transactions. \<open>producer_op\<close> lists the operations of the store that change its tables and
  \<open>run_op\<close> applies one; a history is a fold. The invariant \<open>producer_db_ok\<close> is the referential integrity of the tables, \<open>lifecycle\<close> the
  specification of a transaction.
\<close>

section \<open>Histories\<close>

datatype producer_op =
    InitProducer bool int string InitProducerConfig
  | Heartbeat bool int string
  | Fence bool string
  | CleanupProducers bool int int
  | AllocateNumericId "nat option" string
  | UpdateSequence bool int string string u32 int
  | CheckSequence tx_faults int string string u32 int u32
  | BeginTxn "string option" bool int string string u32
  | AddPartition bool string string u32 nat
  | AddPartitionForOrg bool bool string string string u32 nat
  | UpdateOffset bool string string u32 nat
  | PrepareTxn "string option" bool int string
  | CommitTxn "string option" bool int string
  | AbortTxn "string option" bool int string
  | CleanupTxns bool int int
  | AddMarker bool TransactionMarker
  | UpdateLso bool string u32 nat

fun run_op :: "producer_op \<Rightarrow> producer_db \<Rightarrow> producer_db" where
  "run_op (InitProducer fails now new_id config) db = fst (init_producer fails now new_id config db)"
| "run_op (Heartbeat fails now p) db = fst (update_producer_heartbeat fails now p db)"
| "run_op (Fence fails p) db = fst (fence_producer fails p db)"
| "run_op (CleanupProducers fails now timeout) db = fst (cleanup_expired_producers fails now timeout db)"
| "run_op (AllocateNumericId failing p) db = fst (allocate_numeric_producer_id failing p db)"
| "run_op (UpdateSequence fails now p t n s) db = fst (update_producer_sequence fails now p t n s db)"
| "run_op (CheckSequence faults now p t n s c) db = fst (check_and_update_sequence faults now p t n s c db)"
| "run_op (BeginTxn org fails now new_id p timeout) db = fst (insert_transaction fails now new_id org p timeout db)"
| "run_op (AddPartition fails i t n off) db = fst (add_transaction_partition fails i t n off db)"
| "run_op (AddPartitionForOrg query_fails fails org i t n off) db = fst (add_transaction_partition_for_org query_fails fails org i t n off db)"
| "run_op (UpdateOffset fails i t n off) db = fst (update_transaction_partition_offset fails i t n off db)"
| "run_op (PrepareTxn scope fails now i) db = fst (prepare_with scope fails now i db)"
| "run_op (CommitTxn scope fails now i) db = fst (commit_with scope fails now i db)"
| "run_op (AbortTxn scope fails now i) db = fst (end_with scope Aborted Abort ''aborted'' fails now i db)"
| "run_op (CleanupTxns fails now age) db = fst (cleanup_completed_transactions fails now age db)"
| "run_op (AddMarker fails m) db = fst (add_transaction_marker fails m db)"
| "run_op (UpdateLso fails t n lso) db = fst (update_last_stable_offset fails t n lso db)"

section \<open>Referential integrity\<close>

definition producer_ids :: "producer_db \<Rightarrow> string list" where "producer_ids db = map p_id (producers db)"

definition txn_ids :: "producer_db \<Rightarrow> string list" where "txn_ids db = map (t_transaction_id \<circ> fst) (transactions db)"

definition completion_recorded :: "Transaction \<Rightarrow> bool" where
  "completion_recorded t \<longleftrightarrow> (t_completed_at t \<noteq> None \<longleftrightarrow> t_state t \<in> {Committed, Aborted})"

definition partition_key_of :: "TransactionPartition \<Rightarrow> string \<times> string \<times> u32" where
  "partition_key_of tp = (tp_transaction_id tp, tp_topic tp, tp_partition_id tp)"

definition producer_db_ok :: "producer_db \<Rightarrow> bool" where
  "producer_db_ok db \<longleftrightarrow>
     distinct (producer_ids db) \<and> distinct (txn_ids db) \<and> distinct (map partition_key_of (transaction_partitions db))
     \<and> (\<forall>k s. producer_sequences db k = Some s \<longrightarrow> fst k \<in> set (producer_ids db))
     \<and> (\<forall>r \<in> set (transactions db). t_producer_id (fst r) \<in> set (producer_ids db) \<and> completion_recorded (fst r))
     \<and> (\<forall>tp \<in> set (transaction_partitions db). tp_transaction_id tp \<in> set (txn_ids db))
     \<and> (\<forall>m \<in> set (transaction_markers db). tm_transaction_id m \<in> set (txn_ids db))"

lemma producer_known: "get_producer i db \<noteq> None \<longleftrightarrow> i \<in> set (producer_ids db)"
  by (auto simp: get_producer_def producer_ids_def find_None_iff)

lemma txn_known: "get_transaction i db \<noteq> None \<longleftrightarrow> i \<in> set (txn_ids db)"
  by (auto simp: get_transaction_def txn_ids_def find_None_iff)

lemma producer_ids_update [simp]:
  "producer_ids (db\<lparr>producer_sequences := a\<rparr>) = producer_ids db"
  "producer_ids (db\<lparr>transactions := b\<rparr>) = producer_ids db"
  "producer_ids (db\<lparr>transaction_partitions := c\<rparr>) = producer_ids db"
  "producer_ids (db\<lparr>transaction_markers := d\<rparr>) = producer_ids db"
  "producer_ids (db\<lparr>partition_lso := e\<rparr>) = producer_ids db"
  "producer_ids (db\<lparr>producer_id_sequence := n\<rparr>) = producer_ids db"
  "producer_ids (db\<lparr>producers := ps\<rparr>) = map p_id ps"
  by (simp_all add: producer_ids_def)

lemma txn_ids_update [simp]:
  "txn_ids (db\<lparr>producer_sequences := a\<rparr>) = txn_ids db"
  "txn_ids (db\<lparr>transactions := b\<rparr>) = map (t_transaction_id \<circ> fst) b"
  "txn_ids (db\<lparr>transaction_partitions := c\<rparr>) = txn_ids db"
  "txn_ids (db\<lparr>transaction_markers := d\<rparr>) = txn_ids db"
  "txn_ids (db\<lparr>partition_lso := e\<rparr>) = txn_ids db"
  "txn_ids (db\<lparr>producer_id_sequence := n\<rparr>) = txn_ids db"
  "txn_ids (db\<lparr>producers := ps\<rparr>) = txn_ids db"
  by (simp_all add: txn_ids_def)

lemma update_producers_ids:
  assumes "\<And>p. p_id (f p) = p_id p"
  shows "producer_ids (update_producers P f db) = producer_ids db"
  by (simp add: update_producers_def producer_ids_def assms)

lemma producer_db_ok_producers:
  assumes "producer_db_ok db" and "distinct (map p_id ps)" and "set (producer_ids db) \<subseteq> set (map p_id ps)"
  shows "producer_db_ok (db\<lparr>producers := ps\<rparr>)"
  using assms unfolding producer_db_ok_def by (simp del: split_paired_All set_map) blast

lemma producer_db_ok_update:
  assumes "producer_db_ok db" and "\<And>p. p_id (f p) = p_id p"
  shows "producer_db_ok (update_producers P f db)"
proof -
  have "map p_id (map (\<lambda>p. if P p then f p else p) (producers db)) = producer_ids db"
    using update_producers_ids [OF assms(2), of P db] by (simp add: update_producers_def)
  then show ?thesis
    unfolding update_producers_def using assms(1)
    by (intro producer_db_ok_producers [OF assms(1)]) (simp_all add: producer_db_ok_def)
qed

lemma producer_db_ok_sequences:
  assumes "producer_db_ok db" and "upsert_sequence now k s db = Ok db'"
  shows "producer_db_ok db'"
proof -
  have "fst k \<in> set (producer_ids db)" and db': "db' = db\<lparr>producer_sequences := (producer_sequences db)(k \<mapsto> \<lparr>ps_last_sequence = s, ps_updated_at = now\<rparr>)\<rparr>"
    using assms(2) producer_known [of "fst k" db] by (auto simp: upsert_sequence_def split: if_splits)
  then have "\<forall>k' s'. producer_sequences db' k' = Some s' \<longrightarrow> fst k' \<in> set (producer_ids db)"
    using assms(1) by (simp add: producer_db_ok_def del: split_paired_All)
  then show ?thesis using assms(1) by (simp add: producer_db_ok_def db')
qed

lemma delete_transactions_simps [simp]:
  "producers (delete_transactions P db) = producers db"
  "producer_ids (delete_transactions P db) = producer_ids db"
  "producer_sequences (delete_transactions P db) = producer_sequences db"
  "transactions (delete_transactions P db) = filter (\<lambda>r. \<not> P (fst r)) (transactions db)"
  by (simp_all add: delete_transactions_def Let_def producer_ids_def)

lemma delete_keeps_txn:
  assumes "i \<in> set (txn_ids db)" and "i \<notin> t_transaction_id ` {t \<in> fst ` set (transactions db). P t}"
  shows "i \<in> set (txn_ids (delete_transactions P db))"
  using assms by (force simp: txn_ids_def image_iff)

lemma producer_db_ok_delete_transactions:
  assumes "producer_db_ok db"
  shows "producer_db_ok (delete_transactions P db)"
  unfolding producer_db_ok_def
proof (intro conjI)
  show "distinct (txn_ids (delete_transactions P db))" using assms by (simp add: txn_ids_def distinct_map_filter producer_db_ok_def)
  show "distinct (map partition_key_of (transaction_partitions (delete_transactions P db)))"
    using assms by (simp add: producer_db_ok_def delete_transactions_def Let_def distinct_map_filter)
  show "\<forall>tp \<in> set (transaction_partitions (delete_transactions P db)). tp_transaction_id tp \<in> set (txn_ids (delete_transactions P db))"
    using assms by (intro ballI delete_keeps_txn) (auto simp: producer_db_ok_def delete_transactions_def Let_def)
  show "\<forall>m \<in> set (transaction_markers (delete_transactions P db)). tm_transaction_id m \<in> set (txn_ids (delete_transactions P db))"
    using assms by (intro ballI delete_keeps_txn) (auto simp: producer_db_ok_def delete_transactions_def Let_def)
qed (use assms in \<open>simp_all add: producer_db_ok_def\<close>)

lemma producer_db_ok_delete_producers:
  assumes "producer_db_ok db"
  shows "producer_db_ok (delete_producers P db)"
proof -
  let ?gone = "p_id ` {p \<in> set (producers db). P p}"
  let ?seqs = "\<lambda>(p, t, n). if p \<in> ?gone then None else producer_sequences db (p, t, n)"
  let ?db = "delete_transactions (\<lambda>t. t_producer_id t \<in> ?gone) (db\<lparr>producer_sequences := ?seqs\<rparr>)"
  have kept: "i \<in> p_id ` set (filter (\<lambda>p. \<not> P p) (producers db))" if "i \<in> set (producer_ids db)" "i \<notin> ?gone" for i
    using that by (auto simp: producer_ids_def image_iff)
  have "producer_db_ok (db\<lparr>producer_sequences := ?seqs\<rparr>)"
    using assms by (auto simp: producer_db_ok_def split: if_splits)
  then have ok: "producer_db_ok ?db" by (rule producer_db_ok_delete_transactions)
  have "delete_producers P db = ?db\<lparr>producers := filter (\<lambda>p. \<not> P p) (producers db)\<rparr>"
    by (simp add: delete_producers_def delete_transactions_def Let_def)
  moreover have "producer_db_ok (?db\<lparr>producers := filter (\<lambda>p. \<not> P p) (producers db)\<rparr>)"
    unfolding producer_db_ok_def
  proof (intro conjI)
    show "distinct (producer_ids (?db\<lparr>producers := filter (\<lambda>p. \<not> P p) (producers db)\<rparr>))"
      using assms by (simp add: producer_db_ok_def producer_ids_def distinct_map_filter)
    show "\<forall>k s. producer_sequences (?db\<lparr>producers := filter (\<lambda>p. \<not> P p) (producers db)\<rparr>) k = Some s
        \<longrightarrow> fst k \<in> set (producer_ids (?db\<lparr>producers := filter (\<lambda>p. \<not> P p) (producers db)\<rparr>))"
      using assms by (auto simp del: set_filter split: if_splits simp: producer_db_ok_def intro!: kept)
    show "\<forall>r \<in> set (transactions (?db\<lparr>producers := filter (\<lambda>p. \<not> P p) (producers db)\<rparr>)).
        t_producer_id (fst r) \<in> set (producer_ids (?db\<lparr>producers := filter (\<lambda>p. \<not> P p) (producers db)\<rparr>)) \<and> completion_recorded (fst r)"
      using assms kept by (simp del: set_filter) (simp add: producer_db_ok_def)
  qed (use ok in \<open>simp_all add: producer_db_ok_def\<close>)
  ultimately show ?thesis by simp
qed

lemma producer_db_ok_set_state:
  assumes "producer_db_ok db" and "set_transaction_state scope from f i db = Some db'"
    and "\<And>t. t_transaction_id (f t) = t_transaction_id t" and "\<And>t. t_producer_id (f t) = t_producer_id t"
    and "\<And>t. completion_recorded t \<Longrightarrow> t_state t \<in> from \<Longrightarrow> completion_recorded (f t)"
  shows "producer_db_ok db' \<and> txn_ids db' = txn_ids db \<and> transaction_markers db' = transaction_markers db \<and> partition_lso db' = partition_lso db"
proof -
  define g where "g = (\<lambda>r :: Transaction \<times> string option. if (case r of (t, org) \<Rightarrow> t_transaction_id t = i \<and> in_scope scope org \<and> t_state t \<in> from)
      then (f (fst r), snd r) else r)"
  have db': "db' = db\<lparr>transactions := map g (transactions db)\<rparr>"
    using assms(2) by (auto simp: set_transaction_state_def Let_def g_def split: if_splits)
  have g: "t_transaction_id (fst (g r)) = t_transaction_id (fst r)" "t_producer_id (fst (g r)) = t_producer_id (fst r)" for r
    by (simp_all add: g_def assms(3,4))
  have "completion_recorded (fst (g r))" if "completion_recorded (fst r)" for r
    using that assms(5) by (auto simp: g_def)
  moreover have "t_transaction_id \<circ> fst \<circ> g = t_transaction_id \<circ> fst" by (simp add: fun_eq_iff g)
  ultimately show ?thesis using assms(1) by (simp add: producer_db_ok_def db' g txn_ids_def)
qed

lemma write_markers_simps [simp]:
  "producers (fold (write_marker now mt i) tps db) = producers db"
  "producer_sequences (fold (write_marker now mt i) tps db) = producer_sequences db"
  "transactions (fold (write_marker now mt i) tps db) = transactions db"
  "transaction_partitions (fold (write_marker now mt i) tps db) = transaction_partitions db"
  "producer_ids (fold (write_marker now mt i) tps db) = producer_ids db"
  "txn_ids (fold (write_marker now mt i) tps db) = txn_ids db"
  by (induction tps arbitrary: db) (simp_all add: write_marker_def Let_def producer_ids_def txn_ids_def)

lemma write_markers_markers:
  "transaction_markers (fold (write_marker now mt i) tps db) = transaction_markers db @
     map (\<lambda>tp. \<lparr>tm_transaction_id = i, tm_topic = tp_topic tp, tm_partition_id = tp_partition_id tp, tm_offset = tp_last_offset tp,
       tm_marker_type = mt, tm_timestamp = now\<rparr>) tps"
  by (induction tps arbitrary: db) (simp_all add: write_marker_def Let_def)

lemma producer_db_ok_init:
  assumes "producer_db_ok db"
  shows "producer_db_ok (fst (init_producer fails now new_id config db))"
proof -
  have new: "producer_db_ok (db\<lparr>producers := producers db @ [q]\<rparr>)" if "\<not> producer_conflict q db" for q
    by (rule producer_db_ok_producers [OF assms])
      (use that assms in \<open>auto simp: producer_conflict_def producer_db_ok_def producer_ids_def\<close>)
  show ?thesis
    by (simp add: init_producer_def Let_def assms new split: option.split)
      (simp add: producer_db_ok_update [OF assms])
qed

lemma producer_db_ok_add_partition:
  assumes "producer_db_ok db"
  shows "producer_db_ok (fst (add_transaction_partition fails i t n off db))"
  using assms txn_known [of i db]
  by (auto simp: add_transaction_partition_def producer_db_ok_def partition_row_def partition_key_of_def)

lemma producer_db_ok_update_offset:
  assumes "producer_db_ok db"
  shows "producer_db_ok (fst (update_transaction_partition_offset fails i t n off db))"
proof -
  let ?f = "\<lambda>tp. if partition_row i t n tp then tp\<lparr>tp_last_offset := off\<rparr> else tp"
  have f: "tp_transaction_id (?f tp) = tp_transaction_id tp" "partition_key_of (?f tp) = partition_key_of tp" for tp
    by (simp_all add: partition_key_of_def)
  have "partition_key_of \<circ> ?f = partition_key_of" by (rule ext) (simp only: comp_apply f)
  then have "producer_db_ok (db\<lparr>transaction_partitions := map ?f (transaction_partitions db)\<rparr>)"
    using assms by (auto simp: producer_db_ok_def)
  then show ?thesis using assms by (simp add: update_transaction_partition_offset_def)
qed

lemma producer_db_ok_insert:
  assumes "producer_db_ok db"
  shows "producer_db_ok (fst (insert_transaction fails now new_id org p timeout db))"
  using assms txn_known [of new_id db] producer_known [of p db]
  by (auto simp: insert_transaction_def Let_def producer_db_ok_def completion_recorded_def txn_ids_def)

lemma producer_db_ok_prepare:
  assumes "producer_db_ok db"
  shows "producer_db_ok (fst (prepare_with scope fails now i db))"
  using assms producer_db_ok_set_state [OF assms, of scope "{Ongoing}" "\<lambda>t. t\<lparr>t_state := Preparing, t_updated_at := now\<rparr>" i]
  by (auto simp: prepare_with_def completion_recorded_def split: option.split)

lemma enrolled: "tp \<in> set (get_transaction_partitions i db) \<longleftrightarrow> tp \<in> set (transaction_partitions db) \<and> tp_transaction_id tp = i"
  by (auto simp: get_transaction_partitions_def)

lemma end_with_cases:
  assumes "producer_db_ok db" and "new_state \<in> {Committed, Aborted}"
  obtains (unchanged) e where "end_with scope new_state mt verb fails now i db = (db, Err e)"
  | (ended) db1 where "end_with scope new_state mt verb fails now i db = (fold (write_marker now mt i) (get_transaction_partitions i db) db1, Ok ())"
      and "set_transaction_state scope {Ongoing, Preparing}
        (\<lambda>t. t\<lparr>t_state := new_state, t_updated_at := now, t_completed_at := Some now\<rparr>) i db = Some db1"
      and "producer_db_ok db1" and "txn_ids db1 = txn_ids db" and "transaction_markers db1 = transaction_markers db"
      and "partition_lso db1 = partition_lso db" and "transaction_partitions db1 = transaction_partitions db"
proof (cases "fails \<or> set_transaction_state scope {Ongoing, Preparing}
        (\<lambda>t. t\<lparr>t_state := new_state, t_updated_at := now, t_completed_at := Some now\<rparr>) i db = None")
  case True
  then have "\<exists>e. end_with scope new_state mt verb fails now i db = (db, Err e)" by (auto simp: end_with_def)
  then show thesis using unchanged by blast
next
  case False
  then obtain db1 where db1: "set_transaction_state scope {Ongoing, Preparing}
        (\<lambda>t. t\<lparr>t_state := new_state, t_updated_at := now, t_completed_at := Some now\<rparr>) i db = Some db1" by auto
  then have "transaction_partitions db1 = transaction_partitions db"
    by (auto simp: set_transaction_state_def Let_def split: if_splits)
  then show thesis
    using db1 False producer_db_ok_set_state [OF assms(1) db1] assms(2)
    by (intro ended [of db1]) (auto simp: end_with_def completion_recorded_def)
qed

lemma producer_db_ok_end:
  assumes "producer_db_ok db" and "new_state \<in> {Committed, Aborted}"
  shows "producer_db_ok (fst (end_with scope new_state mt verb fails now i db))"
proof (rule end_with_cases [OF assms, of scope mt verb fails now i])
  fix db1 assume e: "end_with scope new_state mt verb fails now i db = (fold (write_marker now mt i) (get_transaction_partitions i db) db1, Ok ())"
    and ok: "producer_db_ok db1" "transaction_partitions db1 = transaction_partitions db" "txn_ids db1 = txn_ids db"
  have "i \<in> set (txn_ids db)" if "tp \<in> set (get_transaction_partitions i db)" for tp
    using that assms(1) by (auto simp: enrolled producer_db_ok_def)
  then show ?thesis using e ok by (auto simp: producer_db_ok_def write_markers_markers)
qed (use assms in simp)

lemma producer_db_ok_check:
  assumes "producer_db_ok db"
  shows "producer_db_ok (fst (check_and_update_sequence faults now p t n s c db))"
  using assms producer_db_ok_sequences [OF assms]
  by (auto simp: check_and_update_sequence_def Let_def split: result.split)

lemmas producer_op_defs = update_producer_heartbeat_def fence_producer_def cleanup_expired_producers_def allocate_numeric_producer_id_def
  update_producer_sequence_def add_transaction_partition_for_org_def cleanup_completed_transactions_def add_transaction_marker_def
  update_last_stable_offset_def commit_with_def

lemmas producer_db_ok_ops = producer_db_ok_init producer_db_ok_add_partition producer_db_ok_update_offset producer_db_ok_insert
  producer_db_ok_prepare producer_db_ok_end producer_db_ok_check producer_db_ok_update producer_db_ok_delete_producers
  producer_db_ok_delete_transactions

lemma producer_db_ok_step:
  assumes ok: "producer_db_ok db"
  shows "producer_db_ok (run_op e db)"
proof (cases e)
  case (AllocateNumericId failing p)
  have "producer_db_ok (db\<lparr>producer_id_sequence := m\<rparr>)" for m using ok by (simp add: producer_db_ok_def)
  then show ?thesis using ok by (simp add: AllocateNumericId producer_op_defs Let_def producer_db_ok_update)
next
  case (UpdateSequence fails now p t n s)
  then show ?thesis using ok producer_db_ok_sequences [OF ok] by (auto simp: producer_op_defs split: result.split)
next
  case (AddMarker fails m)
  then show ?thesis using ok txn_known [of "tm_transaction_id m" db] by (auto simp: producer_op_defs producer_db_ok_def)
next
  case (UpdateLso fails t n lso)
  then show ?thesis using ok by (simp add: producer_op_defs producer_db_ok_def)
next
  case (CommitTxn scope fails now i)
  then show ?thesis using producer_db_ok_end [OF ok] by (simp add: producer_op_defs case_prod_beta)
qed (use ok in \<open>simp_all add: producer_op_defs producer_db_ok_ops Let_def\<close>)

interpretation producer_machine: invariant_machine run_op producer_db_ok
  by unfold_locales (rule producer_db_ok_step)

lemma producer_db_ok_empty: "producer_db_ok producer_db_empty"
  by (simp add: producer_db_ok_def producer_db_empty_def producer_ids_def txn_ids_def)

text \<open>
  C18. The tables stay consistent under every history of operations and faults: identifiers are unique, every sequence and every transaction
  belongs to a registered producer, every enrolled partition and every marker belongs to a transaction, a partition is enrolled at most
  once, and a transaction has a completion time exactly when it is committed or aborted.
\<close>

theorem producer_tables_consistent: "producer_db_ok (fold run_op ops producer_db_empty)"
  by (rule producer_machine.run_inv) (rule producer_db_ok_empty)

section \<open>The lifecycle of a transaction\<close>

definition txn_state :: "string \<Rightarrow> producer_db \<Rightarrow> TransactionState option" where
  "txn_state i db = map_option t_state (get_transaction i db)"

inductive lifecycle :: "TransactionState option \<Rightarrow> TransactionState option \<Rightarrow> bool" where
  stays: "lifecycle s s"
| begins: "lifecycle None (Some Ongoing)"
| prepares: "lifecycle (Some Ongoing) (Some Preparing)"
| commits: "s \<in> {Ongoing, Preparing} \<Longrightarrow> lifecycle (Some s) (Some Committed)"
| aborts: "s \<in> {Ongoing, Preparing} \<Longrightarrow> lifecycle (Some s) (Some Aborted)"
| deleted: "lifecycle (Some s) None"

inductive_cases lifecycle_committedE: "lifecycle (Some Committed) s"
inductive_cases lifecycle_abortedE: "lifecycle (Some Aborted) s"

lemma txn_state_cong: "transactions db' = transactions db \<Longrightarrow> txn_state i db' = txn_state i db"
  by (simp add: txn_state_def get_transaction_def)

definition txn_row :: "string \<Rightarrow> producer_db \<Rightarrow> (Transaction \<times> string option) option" where
  "txn_row i db = find (\<lambda>r. t_transaction_id (fst r) = i) (transactions db)"

lemma find_rows: "find (\<lambda>t. t_transaction_id t = i) (map fst rs) = map_option fst (find (\<lambda>r. t_transaction_id (fst r) = i) rs)"
  by (induction rs) simp_all

lemma get_transaction_row: "get_transaction i db = map_option fst (txn_row i db)"
  unfolding get_transaction_def txn_row_def by (rule find_rows)

lemma txn_row_Some: "txn_row i db = Some r \<Longrightarrow> r \<in> set (transactions db) \<and> t_transaction_id (fst r) = i"
  unfolding txn_row_def find_Some_iff by auto

lemma txn_row_unique:
  assumes "producer_db_ok db" and "r \<in> set (transactions db)"
  shows "txn_row (t_transaction_id (fst r)) db = Some r"
proof (cases "txn_row (t_transaction_id (fst r)) db")
  case None
  then have "\<not> (\<exists>q. q \<in> set (transactions db) \<and> t_transaction_id (fst q) = t_transaction_id (fst r))"
    unfolding txn_row_def by (simp only: find_None_iff not_False_eq_True)
  with assms(2) show ?thesis by blast
next
  case (Some q)
  have "inj_on (t_transaction_id \<circ> fst) (set (transactions db))" using assms(1) by (simp add: producer_db_ok_def txn_ids_def distinct_map)
  with txn_row_Some [OF Some] assms(2) have "q = r" by (simp add: inj_on_def)
  with Some show ?thesis by simp
qed

definition touched :: "string option \<Rightarrow> TransactionState set \<Rightarrow> string \<Rightarrow> Transaction \<times> string option \<Rightarrow> bool" where
  "touched scope from i r \<longleftrightarrow> t_transaction_id (fst r) = i \<and> in_scope scope (snd r) \<and> t_state (fst r) \<in> from"

lemma set_state_row:
  assumes "set_transaction_state scope from f i db = Some db'" and "\<And>t. t_transaction_id (f t) = t_transaction_id t"
  shows "get_transaction j db' = map_option (\<lambda>r. if touched scope from i r then f (fst r) else fst r) (txn_row j db)"
    and "\<exists>r \<in> set (transactions db). touched scope from i r"
proof -
  define g where "g = (\<lambda>r. if touched scope from i r then (f (fst r), snd r) else r)"
  have g: "t_transaction_id (fst (g r)) = t_transaction_id (fst r)" for r by (simp add: g_def assms(2))
  have db': "transactions db' = map g (transactions db)" and "\<exists>r \<in> set (transactions db). touched scope from i r"
    using assms(1) by (auto simp: set_transaction_state_def Let_def g_def touched_def case_prod_beta simp del: split_paired_Ex split_paired_All
      split: if_splits)
  then show "\<exists>r \<in> set (transactions db). touched scope from i r" by simp
  have "find (\<lambda>t. t_transaction_id t = j) (map fst (map g rs)) = map_option (\<lambda>r. fst (g r)) (find (\<lambda>r. t_transaction_id (fst r) = j) rs)" for rs
    by (induction rs) (simp_all add: g)
  then show "get_transaction j db' = map_option (\<lambda>r. if touched scope from i r then f (fst r) else fst r) (txn_row j db)"
    by (simp add: get_transaction_def txn_row_def db' g_def if_distrib cong: if_cong)
qed

lemma set_state_lifecycle:
  assumes "set_transaction_state scope from f i db = Some db'" and "\<And>t. t_transaction_id (f t) = t_transaction_id t"
    and "\<And>t. t_state t \<in> from \<Longrightarrow> lifecycle (Some (t_state t)) (Some (t_state (f t)))"
  shows "lifecycle (txn_state j db) (txn_state j db')"
  using set_state_row(1) [OF assms(1,2), of j] get_transaction_row [of j db] assms(3)
  by (cases "txn_row j db") (auto simp: txn_state_def touched_def intro: stays)

lemma find_filtered:
  assumes "distinct (map (t_transaction_id \<circ> fst) rs)"
  shows "find (\<lambda>t. t_transaction_id t = i) (map fst (filter Q rs)) \<in> {find (\<lambda>t. t_transaction_id t = i) (map fst rs), None}"
  using assms
proof (induction rs)
  case (Cons r rs)
  show ?case
  proof (cases "t_transaction_id (fst r) = i")
    case True
    then have "find (\<lambda>t. t_transaction_id t = i) (map fst (filter Q rs)) = None" 
      unfolding find_None_iff using Cons.prems by (auto simp: image_iff)
    with True show ?thesis by simp
  qed (use Cons in simp)
qed simp

lemma delete_lifecycle:
  assumes "producer_db_ok db"
  shows "lifecycle (txn_state i db) (txn_state i (delete_transactions P db))"
  using find_filtered [of "transactions db" i "\<lambda>r. \<not> P (fst r)"] assms
  by (cases "get_transaction i db") (auto simp: producer_db_ok_def txn_ids_def txn_state_def get_transaction_def intro: stays deleted)

lemma end_lifecycle:
  assumes "producer_db_ok db" and "new_state \<in> {Committed, Aborted}"
  shows "lifecycle (txn_state j db) (txn_state j (fst (end_with scope new_state mt verb fails now i db)))"
proof (rule end_with_cases [OF assms, of scope mt verb fails now i])
  fix db1 assume e: "end_with scope new_state mt verb fails now i db = (fold (write_marker now mt i) (get_transaction_partitions i db) db1, Ok ())"
    and s: "set_transaction_state scope {Ongoing, Preparing}
        (\<lambda>t. t\<lparr>t_state := new_state, t_updated_at := now, t_completed_at := Some now\<rparr>) i db = Some db1"
  have "lifecycle (txn_state j db) (txn_state j db1)"
    by (rule set_state_lifecycle [OF s]) (use assms(2) in \<open>auto intro: commits aborts\<close>)
  then show ?thesis using e by (simp add: txn_state_cong [OF write_markers_simps(3)])
qed (simp add: stays)

lemma insert_lifecycle: "lifecycle (txn_state i db) (txn_state i (fst (insert_transaction fails now new_id org p timeout db)))"
proof (cases "fails \<or> get_producer p db = None \<or> get_transaction new_id db \<noteq> None")
  case True
  then show ?thesis by (auto simp: insert_transaction_def Let_def intro: stays)
next
  case False
  let ?t = "\<lparr>t_transaction_id = new_id, t_producer_id = p, t_state = Ongoing, t_timeout_ms = timeout, t_started_at = now,
      t_updated_at = now, t_completed_at = None\<rparr>"
  have append: "find Q (xs @ ys) = (case find Q xs of None \<Rightarrow> find Q ys | Some x \<Rightarrow> Some x)" for Q xs and ys :: "Transaction list"
    by (induction xs) auto
  have "fst (insert_transaction fails now new_id org p timeout db) = db\<lparr>transactions := transactions db @ [(?t, org)]\<rparr>"
    using False by (simp add: insert_transaction_def Let_def)
  then show ?thesis
    by (auto simp: txn_state_def get_transaction_def append intro: stays begins split: option.split)
qed

lemma upsert_sequence_keeps: "upsert_sequence now k s db = Ok db' \<Longrightarrow> transactions db' = transactions db"
  by (auto simp: upsert_sequence_def split: if_splits)

lemma step_lifecycle:
  assumes ok: "producer_db_ok db"
  shows "lifecycle (txn_state i db) (txn_state i (run_op e db))"
proof -
  have same: "lifecycle (txn_state i db) (txn_state i db')" if "transactions db' = transactions db" for db'
    using txn_state_cong [OF that, of i] by (simp add: stays)
  have update: "transactions (update_producers P f db') = transactions db'" for P f db' by (simp add: update_producers_def)
  show ?thesis
  proof (cases e)
    case (CleanupProducers fails now timeout)
    have "lifecycle (txn_state i db) (txn_state i (delete_producers P db))" for P
    proof -
      let ?gone = "p_id ` {p \<in> set (producers db). P p}"
      have "txn_state i (delete_producers P db) = txn_state i (delete_transactions (\<lambda>t. t_producer_id t \<in> ?gone) db)"
        by (rule txn_state_cong) (simp add: delete_producers_def Let_def)
      then show ?thesis using delete_lifecycle [OF ok] by simp
    qed
    then show ?thesis by (simp add: CleanupProducers producer_op_defs Let_def stays)
  next
    case (InitProducer fails now new_id config)
    show ?thesis by (rule same) (simp add: InitProducer init_producer_def Let_def update split: option.split)
  next
    case (PrepareTxn scope fails now j)
    then show ?thesis
      using set_state_lifecycle [of scope "{Ongoing}" "\<lambda>t. t\<lparr>t_state := Preparing, t_updated_at := now\<rparr>" j db _ i]
      by (auto simp: prepare_with_def intro: stays prepares split: option.split)
  next
    case (CommitTxn scope fails now j)
    then show ?thesis using end_lifecycle [OF ok] by (simp add: producer_op_defs case_prod_beta)
  next
    case (CheckSequence faults now p t n s c)
    show ?thesis
      by (rule same) (auto simp: CheckSequence check_and_update_sequence_def Let_def upsert_sequence_keeps split: result.split)
  next
    case (UpdateSequence fails now p t n s)
    show ?thesis by (rule same) (auto simp: UpdateSequence producer_op_defs upsert_sequence_keeps split: result.split)
  next
    case (AllocateNumericId failing p)
    show ?thesis by (rule same) (simp add: AllocateNumericId producer_op_defs Let_def update)
  next
    case (CleanupTxns fails now age)
    then show ?thesis using delete_lifecycle [OF ok] by (simp add: producer_op_defs Let_def stays)
  qed (auto simp: producer_op_defs insert_lifecycle end_lifecycle [OF ok] update add_transaction_partition_def
      update_transaction_partition_offset_def intro: same)
qed

text \<open>
  C16. The store implements the documented lifecycle of a transaction: in every history and whatever fails, one operation moves each
  transaction along the specification \<open>lifecycle\<close> (begin, prepare, commit or abort, delete) or leaves it where it is; a transaction that
  is committed or aborted keeps that state until its row is deleted.
\<close>

theorem transactions_follow_lifecycle:
  "let db = fold run_op ops producer_db_empty; s = txn_state i db; s' = txn_state i (run_op e db)
   in lifecycle s s' \<and> (s = Some Committed \<longrightarrow> s' \<in> {s, None}) \<and> (s = Some Aborted \<longrightarrow> s' \<in> {s, None})"
proof -
  let ?db = "fold run_op ops producer_db_empty"
  have "producer_db_ok ?db" by (rule producer_machine.run_inv) (rule producer_db_ok_empty)
  then have l: "lifecycle (txn_state i ?db) (txn_state i (run_op e ?db))" by (rule step_lifecycle)
  then show ?thesis by (auto simp: Let_def elim: lifecycle_committedE lifecycle_abortedE)
qed

section \<open>Commit and the last stable offset\<close>

definition lso :: "producer_db \<Rightarrow> partition_key \<Rightarrow> nat" where
  "lso db k = get_last_stable_offset (fst k) (snd k) db"

lemma lso_write: "lso (write_marker now mt i tp db) k =
    (if k = (tp_topic tp, tp_partition_id tp) then max (lso db k) (tp_last_offset tp + 1) else lso db k)"
  by (cases k) (auto simp: lso_def get_last_stable_offset_def write_marker_def Let_def split: option.split)

lemma lso_write_mono: "lso db k \<le> lso (write_marker now mt i tp db) k"
  by (simp add: lso_write)

lemma lso_writes_mono: "lso db k \<le> lso (fold (write_marker now mt i) tps db) k"
  by (induction tps arbitrary: db) (auto intro: order_trans [OF lso_write_mono])

lemma lso_writes:
  "tp \<in> set tps \<Longrightarrow> tp_last_offset tp + 1 \<le> lso (fold (write_marker now mt i) tps db) (tp_topic tp, tp_partition_id tp)"
proof (induction tps arbitrary: db)
  case (Cons tq tps)
  have "tp_last_offset tp + 1 \<le> lso (fold (write_marker now mt i) tps (write_marker now mt i tq db)) (tp_topic tp, tp_partition_id tp)"
  proof (cases "tp \<in> set tps")
    case False
    with Cons.prems have "tp_last_offset tp + 1 \<le> lso (write_marker now mt i tq db) (tp_topic tp, tp_partition_id tp)"
      by (auto simp: lso_write)
    then show ?thesis using lso_writes_mono order_trans by blast
  qed (use Cons.IH in blast)
  then show ?case by simp
qed simp

lemma set_state_state:
  assumes "producer_db_ok db" and "set_transaction_state scope from f i db = Some db'"
    and "\<And>t. t_transaction_id (f t) = t_transaction_id t" and "\<And>t. t_state (f t) = s"
  shows "txn_state i db' = Some s"
proof -
  obtain r where r: "r \<in> set (transactions db)" "touched scope from i r" using set_state_row(2) [OF assms(2,3)] by blast
  then have "txn_row i db = Some r" using txn_row_unique [OF assms(1) r(1)] by (simp add: touched_def)
  with r(2) show ?thesis by (simp add: txn_state_def set_state_row(1) [OF assms(2,3)] assms(4))
qed

lemma set_state_other:
  assumes "set_transaction_state scope from f i db = Some db'" and "\<And>t. t_transaction_id (f t) = t_transaction_id t" and "j \<noteq> i"
  shows "txn_state j db' = txn_state j db"
  using set_state_row(1) [OF assms(1,2), of j] get_transaction_row [of j db] assms(3) txn_row_Some [of j db]
  by (cases "txn_row j db") (auto simp: txn_state_def touched_def)


definition demo_producer :: InitProducerConfig where
  "demo_producer = \<lparr>ic_transactional_id = Some ''tx'', ic_organization_id = Some ''org'', ic_timeout_ms = 60000, ic_metadata = None\<rparr>"

definition demo_txns :: "producer_op list" where
  "demo_txns = [InitProducer False 0 ''P'' demo_producer, BeginTxn None False 1 ''T'' ''P'' 60000, BeginTxn None False 2 ''U'' ''P'' 60000,
     AddPartition False ''T'' ''orders'' 0 5, AddPartition False ''U'' ''orders'' 0 7, UpdateOffset False ''U'' ''orders'' 0 9]"

lemmas producer_eval = demo_txns_def demo_producer_def producer_db_empty_def init_producer_def existing_producer_def
  get_producer_by_transactional_id_def nullif_empty_def producer_conflict_def insert_transaction_def get_producer_def
  get_transaction_def add_transaction_partition_def partition_row_def update_transaction_partition_offset_def end_with_def
  commit_with_def set_transaction_state_def in_scope_def get_transaction_partitions_def write_marker_def get_last_stable_offset_def
  txn_state_def Let_def

theorem transactions_follow_lifecycle_witness:
  "let db = fold run_op (demo_txns @ [CommitTxn None False 3 ''U'']) producer_db_empty
   in txn_state ''U'' db = Some Committed \<and> txn_state ''U'' (run_op (AbortTxn None False 4 ''U'') db) \<in> {Some Committed, None}"
proof -
  let ?ops = "demo_txns @ [CommitTxn None False 3 ''U'']"
  have "txn_state ''U'' (fold run_op ?ops producer_db_empty) = Some Committed" by (simp add: producer_eval)
  with transactions_follow_lifecycle [of ?ops "''U''" "AbortTxn None False 4 ''U''"] show ?thesis unfolding Let_def by simp
qed


text \<open>
  Committing one transaction exposes another. The last stable offset is documented as the highest offset below which every transaction
  is committed or aborted, and read-committed consumers see records up to it. But a commit moves it past the last offset of the
  committed transaction whatever else is open: if transaction \<open>j\<close> is still ongoing in a partition and has written from an offset at or below
  the last offset that \<open>i\<close> wrote there, then after the commit of \<open>i\<close> the last stable offset is above the first offset of \<open>j\<close>, and \<open>j\<close> is
  still ongoing.
\<close>

theorem commit_exposes_ongoing_transaction:
  assumes "db = fold run_op ops producer_db_empty"
    and "commit_transaction False now i db = (db', Ok ts)"
    and "tp \<in> set (get_transaction_partitions i db)" and "tq \<in> set (get_transaction_partitions j db)" and "j \<noteq> i"
    and "tp_topic tq = tp_topic tp" and "tp_partition_id tq = tp_partition_id tp" and "tp_first_offset tq \<le> tp_last_offset tp"
    and "txn_state j db = Some Ongoing"
  shows "txn_state j db' = Some Ongoing \<and> tq \<in> set (get_transaction_partitions j db')
    \<and> tp_first_offset tq < get_last_stable_offset (tp_topic tq) (tp_partition_id tq) db'"
proof -
  have ok: "producer_db_ok db" unfolding assms(1) by (rule producer_machine.run_inv) (rule producer_db_ok_empty)
  show ?thesis
  proof (rule end_with_cases [OF ok, of Committed None Commit "''committed''" False now i])
    fix e assume "end_with None Committed Commit ''committed'' False now i db = (db, Err e)"
    with assms(2) show ?thesis by (simp add: commit_transaction_def commit_with_def)
  next
    fix db1 assume e: "end_with None Committed Commit ''committed'' False now i db
        = (fold (write_marker now Commit i) (get_transaction_partitions i db) db1, Ok ())"
      and s: "set_transaction_state None {Ongoing, Preparing}
        (\<lambda>t. t\<lparr>t_state := Committed, t_updated_at := now, t_completed_at := Some now\<rparr>) i db = Some db1"
      and tps: "transaction_partitions db1 = transaction_partitions db"
    have db': "db' = fold (write_marker now Commit i) (get_transaction_partitions i db) db1"
      using assms(2) e by (auto simp: commit_transaction_def commit_with_def)
    have "txn_state j db1 = txn_state j db" by (rule set_state_other [OF s _ assms(5)]) simp
    moreover have "tp_last_offset tp < lso db' (tp_topic tp, tp_partition_id tp)"
      using lso_writes [OF assms(3), of now Commit i db1] by (simp add: db')
    ultimately show ?thesis
      using assms(4,6-9) tps by (simp add: db' lso_def txn_state_cong [OF write_markers_simps(3)] enrolled)
  qed simp
qed

theorem commit_exposes_ongoing_transaction_witness:
  "\<exists>db'. commit_transaction False 3 ''U'' (fold run_op demo_txns producer_db_empty) = (db', Ok 3)
     \<and> txn_state ''T'' db' = Some Ongoing \<and> 5 < get_last_stable_offset ''orders'' 0 db'"
proof -
  let ?db = "fold run_op demo_txns producer_db_empty"
  let ?U = "\<lparr>tp_transaction_id = ''U'', tp_topic = ''orders'', tp_partition_id = 0, tp_first_offset = 7, tp_last_offset = 9\<rparr>"
  let ?T = "\<lparr>tp_transaction_id = ''T'', tp_topic = ''orders'', tp_partition_id = 0, tp_first_offset = 5, tp_last_offset = 5\<rparr>"
  obtain db' where c: "commit_transaction False 3 ''U'' ?db = (db', Ok 3)"
    by (simp add: producer_eval commit_transaction_def)
  have U: "?U \<in> set (get_transaction_partitions ''U'' ?db)" by (simp add: producer_eval)
  have T: "?T \<in> set (get_transaction_partitions ''T'' ?db)" by (simp add: producer_eval)
  have s: "txn_state ''T'' ?db = Some Ongoing" by (simp add: producer_eval)
  have "txn_state ''T'' db' = Some Ongoing \<and> 5 < get_last_stable_offset ''orders'' 0 db'"
    using commit_exposes_ongoing_transaction [OF refl c U T _ _ _ _ s] by simp
  with c show ?thesis by blast
qed

section \<open>Sequence numbers\<close>

text \<open>The sequence numbers an operation accepts for a key, and those of a history.\<close>

fun accepts :: "sequence_key \<Rightarrow> producer_op \<Rightarrow> producer_db \<Rightarrow> int list" where
  "accepts k (CheckSequence faults now p t n s c) db =
     (if k = (p, t, n) \<and> snd (check_and_update_sequence faults now p t n s c db) = Ok True then [s..s + int (unat c) - 1] else [])"
| "accepts k _ db = []"

fun accepted :: "sequence_key \<Rightarrow> producer_op list \<Rightarrow> producer_db \<Rightarrow> int list" where
  "accepted k [] db = []"
| "accepted k (e # es) db = accepts k e db @ accepted k es (run_op e db)"

text \<open>Operations that neither overwrite nor delete sequence rows, and whose lookup of the row works.\<close>

fun keeps_sequences :: "producer_op \<Rightarrow> bool" where
  "keeps_sequences (UpdateSequence fails now p t n s) = False"
| "keeps_sequences (CleanupProducers fails now timeout) = False"
| "keeps_sequences (CheckSequence faults now p t n s c) = (\<not> tx_select_fails faults)"
| "keeps_sequences _ = True"

definition last_seq :: "sequence_key \<Rightarrow> producer_db \<Rightarrow> int" where
  "last_seq k db = (case producer_sequences db k of None \<Rightarrow> -1 | Some s \<Rightarrow> ps_last_sequence s)"

lemma upto_join: "a \<le> b \<Longrightarrow> b \<le> c \<Longrightarrow> [a + 1..b] @ [b + 1..c] = [a + 1..(c :: int)]"
  by (cases "a = b") (simp_all add: upto_split2 [of "a + 1" b c])

lemma check_sequence_step:
  assumes "\<not> tx_select_fails faults" and "check_and_update_sequence faults now p t n s c db = (db', r)"
  shows "if r = Ok True then last_seq (p, t, n) db = s - 1 \<and> last_seq (p, t, n) db' = s + int (unat c) - 1
             \<and> (k \<noteq> (p, t, n) \<longrightarrow> last_seq k db' = last_seq k db)
         else db' = db"
  using assms
  by (auto simp: check_and_update_sequence_def Let_def last_sequence_def last_seq_def upsert_sequence_def split: if_splits option.splits)

lemma other_sequence_step:
  assumes "keeps_sequences e" and "\<And>faults now p t n s c. e \<noteq> CheckSequence faults now p t n s c"
  shows "last_seq k (run_op e db) = last_seq k db"
proof -
  have same: "last_seq k db' = last_seq k db" if "producer_sequences db' = producer_sequences db" for db'
    using that by (simp add: last_seq_def)
  have set_state: "producer_sequences db' = producer_sequences db" if "set_transaction_state scope from f i db = Some db'" for scope "from" f i db'
    using that by (auto simp: set_transaction_state_def Let_def split: if_splits)
  show ?thesis
    by (rule same, cases e)
      (use assms in \<open>auto simp: producer_op_defs init_producer_def update_producers_def insert_transaction_def add_transaction_partition_def
        update_transaction_partition_offset_def prepare_with_def end_with_def Let_def case_prod_beta dest: set_state split: option.split\<close>)
qed

lemma accepts_step:
  assumes "keeps_sequences e"
  shows "accepts k e db = [last_seq k db + 1..last_seq k (run_op e db)] \<and> last_seq k db \<le> last_seq k (run_op e db)"
proof (cases "\<exists>faults now p t n s c. e = CheckSequence faults now p t n s c")
  case True
  then obtain faults now p t n s c where e: "e = CheckSequence faults now p t n s c" by blast
  obtain db' r where r: "check_and_update_sequence faults now p t n s c db = (db', r)" by fastforce
  have "- 1 < uint c" by (rule less_le_trans [OF _ uint_ge_0]) simp
  then show ?thesis
    using check_sequence_step [OF _ r, of k] assms by (cases "k = (p, t, n)") (auto simp: e r split: if_splits)
next
  case False
  then have "accepts k e db = []" by (cases e) auto
  with False other_sequence_step [OF assms] show ?thesis by simp
qed

lemma accepted_run:
  assumes "list_all keeps_sequences es"
  shows "accepted k es db = [last_seq k db + 1..last_seq k (fold run_op es db)] \<and> last_seq k db \<le> last_seq k (fold run_op es db)"
  using assms
proof (induction es arbitrary: db)
  case (Cons e es)
  from Cons.prems have "keeps_sequences e" "list_all keeps_sequences es" by simp_all
  with accepts_step [of e k db] Cons.IH [of "run_op e db"]
  show ?case by (simp add: upto_join)
qed simp

text \<open>
  C14. Idempotent producers. In every history of the store, for each producer, topic and partition, the accepted batches cover the
  sequence numbers from zero on, each exactly once, in order and without a gap, up to the number the store remembers: a batch sent
  again is never accepted twice and a batch out of order is not accepted. This holds while no row is overwritten or expired, and while
  the lookup of the remembered number works.
\<close>

theorem sequences_accepted_once:
  assumes "list_all keeps_sequences ops"
  shows "accepted (p, t, n) ops producer_db_empty
    = (case get_producer_sequence p t n (fold run_op ops producer_db_empty) of None \<Rightarrow> [] | Some m \<Rightarrow> [0..m])"
proof -
  have "last_seq (p, t, n) producer_db_empty = -1" by (simp add: last_seq_def producer_db_empty_def)
  then show ?thesis
    using accepted_run [OF assms, of "(p, t, n)" producer_db_empty]
    by (auto simp: get_producer_sequence_def last_seq_def split: option.split)
qed

definition no_tx_faults :: tx_faults where
  "no_tx_faults = \<lparr>tx_begin_fails = False, tx_select_fails = False, tx_exec_fails = False, tx_commit_fails = False\<rparr>"

definition demo_batches :: "producer_op list" where
  "demo_batches = [InitProducer False 0 ''P'' demo_producer, CheckSequence no_tx_faults 1 ''P'' ''orders'' 0 0 2,
     CheckSequence no_tx_faults 2 ''P'' ''orders'' 0 0 2, CheckSequence no_tx_faults 3 ''P'' ''orders'' 0 2 1]"

theorem sequences_accepted_once_witness: "accepted (''P'', ''orders'', 0) demo_batches producer_db_empty = [0..2]"
proof -
  have "list_all keeps_sequences demo_batches" by (simp add: demo_batches_def no_tx_faults_def)
  moreover have "get_producer_sequence ''P'' ''orders'' 0 (fold run_op demo_batches producer_db_empty) = Some 2"
    by (simp add: demo_batches_def no_tx_faults_def producer_eval check_and_update_sequence_def last_sequence_def upsert_sequence_def
        get_producer_sequence_def)
  ultimately show ?thesis using sequences_accepted_once [of demo_batches "''P''" "''orders''" 0] by simp
qed

text \<open>
  A lookup that fails admits a duplicate. The lookup of the remembered number discards its error, so a failing query counts as no row: a
  batch that starts at zero is then accepted whatever was accepted before, and the remembered number goes back to the end of that batch.
\<close>

theorem failed_lookup_admits_duplicate:
  assumes "get_producer p db \<noteq> None" and "tx_select_fails faults" and "\<not> tx_begin_fails faults" and "\<not> tx_exec_fails faults" and "\<not> tx_commit_fails faults"
  shows "\<exists>db'. check_and_update_sequence faults now p t n 0 c db = (db', Ok True) \<and> get_producer_sequence p t n db' = Some (int (unat c) - 1)"
  using assms by (auto simp: check_and_update_sequence_def Let_def last_sequence_def upsert_sequence_def get_producer_sequence_def)

theorem failed_lookup_admits_duplicate_witness:
  "\<exists>db'. check_and_update_sequence (no_tx_faults\<lparr>tx_select_fails := True\<rparr>) 9 ''P'' ''orders'' 0 0 1 (fold run_op demo_batches producer_db_empty) = (db', Ok True)
     \<and> get_producer_sequence ''P'' ''orders'' 0 db' = Some 0"
proof -
  have "get_producer ''P'' (fold run_op demo_batches producer_db_empty) \<noteq> None"
    by (simp add: demo_batches_def no_tx_faults_def producer_eval check_and_update_sequence_def last_sequence_def upsert_sequence_def)
  from failed_lookup_admits_duplicate [OF this, of "no_tx_faults\<lparr>tx_select_fails := True\<rparr>" 9 "''orders''" 0 1] show ?thesis by (simp add: no_tx_faults_def)
qed

text \<open>
  A restart keeps the sequence numbers. Initializing a transactional producer again fences the old instance by its epoch, but the
  remembered numbers stay; a new instance numbers its batches from zero, and each of them is reported a duplicate, and so not
  written, until it passes what the old instance had sent.
\<close>

theorem restart_keeps_sequences:
  assumes "existing_producer config db = Some p" and "get_producer_sequence (p_id p) t n db = Some m" and "s \<le> m"
    and "\<not> tx_begin_fails faults" and "\<not> tx_select_fails faults"
  shows "\<exists>db' p'. init_producer False now new_id config db = (db', Ok p') \<and> p_id p' = p_id p \<and> p_epoch p' = p_epoch p + 1
    \<and> check_and_update_sequence faults now' (p_id p') t n s c db' = (db', Ok False)"
  using assms
  by (auto simp: init_producer_def Let_def check_and_update_sequence_def last_sequence_def get_producer_sequence_def update_producers_def)

theorem restart_keeps_sequences_witness:
  "\<exists>db' p'. init_producer False 9 ''Q'' demo_producer (fold run_op demo_batches producer_db_empty) = (db', Ok p')
     \<and> check_and_update_sequence no_tx_faults 10 (p_id p') ''orders'' 0 0 1 db' = (db', Ok False)"
proof -
  let ?db = "fold run_op demo_batches producer_db_empty"
  obtain p where p: "existing_producer demo_producer ?db = Some p" "p_id p = ''P''"
    by (simp add: demo_batches_def no_tx_faults_def producer_eval check_and_update_sequence_def last_sequence_def upsert_sequence_def)
  have "get_producer_sequence (p_id p) ''orders'' 0 ?db = Some 2"
    by (simp add: p demo_batches_def no_tx_faults_def producer_eval check_and_update_sequence_def last_sequence_def upsert_sequence_def
        get_producer_sequence_def)
  from restart_keeps_sequences [OF p(1) this, of 0 no_tx_faults 9 "''Q''" 10 1] show ?thesis by (auto simp: no_tx_faults_def)
qed

end
