(* ===== verification/Produce_Service.thy ===== *)
theory Produce_Service
  imports Partition_Writer Lease_Store Producer_Store
begin

text \<open>
  The producer service of an agent, \<^verbatim>\<open>ProducerServiceImpl\<close> of \<^verbatim>\<open>streamhouse-agent/src/grpc_service.rs\<close>, with the writer pool of
  \<^verbatim>\<open>streamhouse-storage/src/writer_pool.rs\<close> and the batched durable flush of \<^verbatim>\<open>writer.rs\<close>. A produce request goes through the lease check, the
  idempotence check, the partition writer, the flush a durable acknowledgement asks for, and the bookkeeping of a transaction. The state
  of the service is the pool together with the database tables the service uses; a request is one step. What the outside answers is in
  \<open>produce_env\<close>: the request header, the clock, the faults of each statement, the outcome of opening a writer. A status carries its code
  and its message, cut where the message quotes another error.
\<close>

section \<open>Requests, answers and state\<close>

datatype StatusCode = GrpcUnavailable | GrpcInvalidArgument | GrpcNotFound | GrpcFailedPrecondition | GrpcInternal | GrpcResourceExhausted

type_synonym Status = "StatusCode \<times> string"

record ProduceRequest =
  rq_topic :: string
  rq_partition :: u32
  rq_records :: "(bytes option \<times> bytes \<times> u64) list"
  rq_producer_id :: "string option"
  rq_producer_epoch :: "u32 option"
  rq_base_sequence :: "int option"
  rq_transaction_id :: "string option"
  rq_ack_mode :: int

record ProduceResponse =
  rs_base_offset :: u64
  rs_record_count :: u32
  rs_duplicates_filtered :: bool

type_synonym writer_key = "string \<times> string \<times> u32"

record service_state =
  sv_shutting_down :: bool
  sv_writers :: "writer_key \<rightharpoonup> PartitionWriter"
  sv_worlds :: "writer_key \<Rightarrow> world"
  sv_leases :: lease_db
  sv_producers :: producer_db

record produce_env =
  pe_organization :: "string option"
  pe_now :: int
  pe_lease_fails :: bool
  pe_producer_fails :: bool
  pe_sequence :: tx_faults
  pe_new_writer :: "(storage_error, PartitionWriter) result"
  pe_wal_now :: u64
  pe_wal :: wal_env
  pe_flush :: roll_env
  pe_add_fails :: bool
  pe_update_fails :: bool

section \<open>The writer pool and the durable flush\<close>

definition get_writer :: "(storage_error, PartitionWriter) result \<Rightarrow> writer_key \<Rightarrow> service_state \<Rightarrow> service_state \<times> (storage_error, PartitionWriter) result" where
  "get_writer new_writer key st =
     (case sv_writers st key of
        Some pw \<Rightarrow> (st, Ok pw)
      | None \<Rightarrow>
          (case new_writer of
             Ok pw \<Rightarrow> (st\<lparr>sv_writers := (sv_writers st)(key \<mapsto> pw)\<rparr>, Ok pw)
           | Err e \<Rightarrow> (st, Err e)
           | Panic \<Rightarrow> (st, Panic)))"

definition pool_read_buffered :: "writer_key \<Rightarrow> u64 \<Rightarrow> nat \<Rightarrow> service_state \<Rightarrow> Record list" where
  "pool_read_buffered key start_offset max_records st =
     (case sv_writers st key of Some pw \<Rightarrow> read_buffered start_offset max_records pw | None \<Rightarrow> [])"

text \<open>\<^verbatim>\<open>DurableFlushTask::do_flush\<close>: one flush answers every waiter of the window.\<close>

definition durable_do_flush ::
  "(bytes \<Rightarrow> bytes) \<Rightarrow> (bytes \<Rightarrow> u32) \<Rightarrow> roll_env \<Rightarrow> nat \<Rightarrow> PartitionWriter \<Rightarrow> world \<Rightarrow> PartitionWriter \<times> world \<times> (storage_error, unit) result list" where
  "durable_do_flush lz4 crc32 env waiters pw wd =
     (if waiters = 0 then (pw, wd, [])
      else let (pw', wd', result) = flush_durable lz4 crc32 env pw wd
           in (pw', wd', replicate waiters (case result of
                Ok _ \<Rightarrow> Ok () | Err _ \<Rightarrow> Err (SegmentErrorMsg ''Durable flush failed: '') | Panic \<Rightarrow> Panic)))"

definition request_durable_flush ::
  "(bytes \<Rightarrow> bytes) \<Rightarrow> (bytes \<Rightarrow> u32) \<Rightarrow> roll_env \<Rightarrow> writer_key \<Rightarrow> PartitionWriter \<Rightarrow> service_state
     \<Rightarrow> service_state \<times> (storage_error, unit) result" where
  "request_durable_flush lz4 crc32 env key pw st =
     (let (pw', wd', replies) = durable_do_flush lz4 crc32 env 1 pw (sv_worlds st key)
      in (st\<lparr>sv_writers := (sv_writers st)(key \<mapsto> pw'), sv_worlds := (sv_worlds st)(key := wd')\<rparr>, hd replies))"

section \<open>Validation\<close>

definition show_u32 :: "u32 \<Rightarrow> string" where "show_u32 n = show_nat (unat n)"

definition validate_idempotent ::
  "produce_env \<Rightarrow> string \<Rightarrow> u32 \<Rightarrow> int \<Rightarrow> string \<Rightarrow> u32 \<Rightarrow> u32 \<Rightarrow> producer_db \<Rightarrow> producer_db \<times> (Status, bool) result" where
  "validate_idempotent env producer_id producer_epoch base_sequence topic partition_id record_count db =
     (if pe_producer_fails env then (db, Err (GrpcInternal, ''Failed to get producer: ''))
      else case get_producer producer_id db of
        None \<Rightarrow> (db, Err (GrpcFailedPrecondition, ''Unknown producer ID: '' @ producer_id))
      | Some p \<Rightarrow>
          if p_state p = Fenced then (db, Err (GrpcFailedPrecondition, ''Producer '' @ producer_id @ '' has been fenced''))
          else if p_state p = Expired then (db, Err (GrpcFailedPrecondition, ''Producer '' @ producer_id @ '' has expired''))
          else if p_epoch p \<noteq> producer_epoch
          then (db, Err (GrpcFailedPrecondition, ''Producer epoch mismatch: expected '' @ show_u32 (p_epoch p) @ '', got '' @ show_u32 producer_epoch))
          else case check_and_update_sequence (pe_sequence env) (pe_now env) producer_id topic partition_id base_sequence record_count db of
            (db', Ok b) \<Rightarrow> (db', Ok b)
          | (db', Err _) \<Rightarrow> (db', Err (GrpcFailedPrecondition, ''Sequence validation failed: ''))
          | (db', Panic) \<Rightarrow> (db', Panic))"

definition validate_lease :: "bool \<Rightarrow> int \<Rightarrow> string \<Rightarrow> string \<Rightarrow> u32 \<Rightarrow> lease_db \<Rightarrow> (Status, unit) result" where
  "validate_lease fails now agent_id topic partition_id db =
     (if fails then Err (GrpcInternal, ''Failed to check lease: '')
      else case get_partition_lease now topic partition_id db of
        None \<Rightarrow> Err (GrpcNotFound, ''No lease exists for partition '' @ show_partition topic partition_id)
      | Some l \<Rightarrow>
          if pl_leader_agent_id l \<noteq> agent_id
          then Err (GrpcNotFound, ''Agent doesn'' @ [CHR 0x27] @ ''t hold lease for partition '' @ show_partition topic partition_id
                 @ '' (held by '' @ pl_leader_agent_id l @ '')'')
          else if pl_lease_expires_at l \<le> now
          then Err (GrpcFailedPrecondition, ''Lease expired for partition '' @ show_partition topic partition_id)
          else Ok ())"

section \<open>Produce\<close>

definition check_idempotent :: "produce_env \<Rightarrow> ProduceRequest \<Rightarrow> producer_db \<Rightarrow> producer_db \<times> (Status, bool) result" where
  "check_idempotent env req db =
     (case rq_producer_id req of
        None \<Rightarrow> (db, Ok True)
      | Some producer_id \<Rightarrow>
          validate_idempotent env producer_id (case rq_producer_epoch req of None \<Rightarrow> 0 | Some e \<Rightarrow> e)
            (case rq_base_sequence req of None \<Rightarrow> 0 | Some s \<Rightarrow> s) (rq_topic req) (rq_partition req) (of_nat (length (rq_records req))) db)"

definition append_status :: "storage_error \<Rightarrow> Status" where
  "append_status e =
     (case e of
        S3RateLimited \<Rightarrow> (GrpcResourceExhausted, ''S3 rate limit exceeded - please slow down'')
      | S3CircuitOpen \<Rightarrow> (GrpcUnavailable, ''S3 service is temporarily unavailable - circuit breaker open'')
      | _ \<Rightarrow> (GrpcInternal, ''Failed to append batch: ''))"

text \<open>The bookkeeping of a transactional write; both statements may fail without failing the request.\<close>

definition track_transaction :: "produce_env \<Rightarrow> ProduceRequest \<Rightarrow> u64 \<Rightarrow> u64 \<Rightarrow> producer_db \<Rightarrow> producer_db" where
  "track_transaction env req base_offset record_count db =
     (case rq_transaction_id req of
        None \<Rightarrow> db
      | Some tid \<Rightarrow>
          (let db1 = fst (add_transaction_partition (pe_add_fails env) tid (rq_topic req) (rq_partition req) (unat base_offset) db)
           in fst (update_transaction_partition_offset (pe_update_fails env) tid (rq_topic req) (rq_partition req)
                (unat (base_offset + record_count - 1)) db1)))"

text \<open>From the writer on: append, flush when the acknowledgement is durable, track the transaction.\<close>

definition write_batch ::
  "(bytes \<Rightarrow> bytes) \<Rightarrow> (bytes \<Rightarrow> u32) \<Rightarrow> produce_env \<Rightarrow> string \<Rightarrow> ProduceRequest \<Rightarrow> service_state
     \<Rightarrow> service_state \<times> (Status, ProduceResponse) result" where
  "write_batch lz4 crc32 env org_id req st =
     (let key = (org_id, rq_topic req, rq_partition req) in
      case get_writer (pe_new_writer env) key st of
        (st1, Err _) \<Rightarrow> (st1, Err (GrpcInternal, ''Failed to get writer: ''))
      | (st1, Panic) \<Rightarrow> (st1, Panic)
      | (st1, Ok pw) \<Rightarrow>
          (let (pw', appended) = pw_append_batch lz4 crc32 (pe_wal env) (pe_wal_now env) (rq_records req) pw;
               st2 = st1\<lparr>sv_writers := (sv_writers st1)(key \<mapsto> pw')\<rparr>
           in case appended of
                Err e \<Rightarrow> (st2, Err (append_status e))
              | Panic \<Rightarrow> (st2, Panic)
              | Ok [] \<Rightarrow> (st2, Err (GrpcInternal, ''No offsets returned from batch append''))
              | Ok (base_offset # rest) \<Rightarrow>
                  (let record_count = of_nat (length (base_offset # rest));
                       (st3, flushed) = (if rq_ack_mode req = 1 then request_durable_flush lz4 crc32 (pe_flush env) key pw' st2 else (st2, Ok ()))
                   in case flushed of
                        Err _ \<Rightarrow> (st3, Err (GrpcInternal, ''Failed durable flush: ''))
                      | Panic \<Rightarrow> (st3, Panic)
                      | Ok _ \<Rightarrow>
                          (st3\<lparr>sv_producers := track_transaction env req base_offset record_count (sv_producers st3)\<rparr>,
                           Ok \<lparr>rs_base_offset = base_offset, rs_record_count = ucast record_count, rs_duplicates_filtered = False\<rparr>))))"

definition produce ::
  "(bytes \<Rightarrow> bytes) \<Rightarrow> (bytes \<Rightarrow> u32) \<Rightarrow> string \<Rightarrow> produce_env \<Rightarrow> ProduceRequest \<Rightarrow> service_state
     \<Rightarrow> service_state \<times> (Status, ProduceResponse) result" where
  "produce lz4 crc32 agent_id env req st =
     (if sv_shutting_down st then (st, Err (GrpcUnavailable, ''Agent is shutting down''))
      else case pe_organization env of
        None \<Rightarrow> (st, Err (GrpcInvalidArgument, ''Missing x-organization-id metadata. Organization ID is required.''))
      | Some org_id \<Rightarrow>
          if org_id = [] then (st, Err (GrpcInvalidArgument, ''Missing x-organization-id metadata. Organization ID is required.''))
          else if rq_topic req = [] then (st, Err (GrpcInvalidArgument, ''Topic name is required''))
          else if rq_records req = [] then (st, Err (GrpcInvalidArgument, ''At least one record is required''))
          else case validate_lease (pe_lease_fails env) (pe_now env) agent_id (rq_topic req) (rq_partition req) (sv_leases st) of
            Err e \<Rightarrow> (st, Err e)
          | Panic \<Rightarrow> (st, Panic)
          | Ok _ \<Rightarrow>
              (let (db', check) = check_idempotent env req (sv_producers st); st1 = st\<lparr>sv_producers := db'\<rparr>
               in case check of
                    Err e \<Rightarrow> (st1, Err e)
                  | Panic \<Rightarrow> (st1, Panic)
                  | Ok False \<Rightarrow>
                      (st1, Ok \<lparr>rs_base_offset = 0, rs_record_count = of_nat (length (rq_records req)), rs_duplicates_filtered = True\<rparr>)
                  | Ok True \<Rightarrow> write_batch lz4 crc32 env org_id req st1))"

section \<open>Producers and transactions\<close>

text \<open>The check that begin, commit and abort share.\<close>

definition check_producer :: "bool \<Rightarrow> string \<Rightarrow> u32 \<Rightarrow> producer_db \<Rightarrow> (Status, Producer) result" where
  "check_producer fails producer_id producer_epoch db =
     (if fails then Err (GrpcInternal, ''Failed to get producer: '')
      else case get_producer producer_id db of
        None \<Rightarrow> Err (GrpcNotFound, ''Unknown producer: '' @ producer_id)
      | Some p \<Rightarrow>
          if p_epoch p \<noteq> producer_epoch
          then Err (GrpcFailedPrecondition, ''Producer epoch mismatch: expected '' @ show_u32 (p_epoch p) @ '', got '' @ show_u32 producer_epoch)
          else Ok p)"

definition svc_init_producer :: "bool \<Rightarrow> int \<Rightarrow> string \<Rightarrow> InitProducerConfig \<Rightarrow> producer_db \<Rightarrow> producer_db \<times> (Status, string \<times> u32) result" where
  "svc_init_producer fails now new_id config db =
     (case init_producer fails now new_id (config\<lparr>ic_metadata := (if ic_metadata config = Some [] then None else ic_metadata config)\<rparr>) db of
        (db', Ok p) \<Rightarrow> (db', Ok (p_id p, p_epoch p))
      | (db', Err _) \<Rightarrow> (db', Err (GrpcInternal, ''Failed to initialize producer: ''))
      | (db', Panic) \<Rightarrow> (db', Panic))"

definition svc_begin_transaction ::
  "bool \<Rightarrow> bool \<Rightarrow> int \<Rightarrow> string \<Rightarrow> string \<Rightarrow> u32 \<Rightarrow> u32 \<Rightarrow> producer_db \<Rightarrow> producer_db \<times> (Status, string) result" where
  "svc_begin_transaction query_fails fails now new_id producer_id producer_epoch timeout_ms db =
     (case check_producer query_fails producer_id producer_epoch db of
        Err e \<Rightarrow> (db, Err e)
      | Panic \<Rightarrow> (db, Panic)
      | Ok p \<Rightarrow>
          if p_state p \<noteq> Active then (db, Err (GrpcFailedPrecondition, ''Producer '' @ producer_id @ '' is not active''))
          else case begin_transaction fails now new_id producer_id timeout_ms db of
            (db', Ok t) \<Rightarrow> (db', Ok (t_transaction_id t))
          | (db', Err _) \<Rightarrow> (db', Err (GrpcInternal, ''Failed to begin transaction: ''))
          | (db', Panic) \<Rightarrow> (db', Panic))"

definition svc_commit_transaction ::
  "bool \<Rightarrow> bool \<Rightarrow> int \<Rightarrow> string \<Rightarrow> u32 \<Rightarrow> string \<Rightarrow> producer_db \<Rightarrow> producer_db \<times> (Status, int) result" where
  "svc_commit_transaction query_fails fails now producer_id producer_epoch transaction_id db =
     (case check_producer query_fails producer_id producer_epoch db of
        Err e \<Rightarrow> (db, Err e)
      | Panic \<Rightarrow> (db, Panic)
      | Ok _ \<Rightarrow>
          (case commit_transaction fails now transaction_id db of
             (db', Ok ts) \<Rightarrow> (db', Ok ts)
           | (db', Err _) \<Rightarrow> (db', Err (GrpcInternal, ''Failed to commit transaction: ''))
           | (db', Panic) \<Rightarrow> (db', Panic)))"

definition svc_abort_transaction ::
  "bool \<Rightarrow> bool \<Rightarrow> int \<Rightarrow> string \<Rightarrow> u32 \<Rightarrow> string \<Rightarrow> producer_db \<Rightarrow> producer_db \<times> (Status, unit) result" where
  "svc_abort_transaction query_fails fails now producer_id producer_epoch transaction_id db =
     (case check_producer query_fails producer_id producer_epoch db of
        Err e \<Rightarrow> (db, Err e)
      | Panic \<Rightarrow> (db, Panic)
      | Ok _ \<Rightarrow>
          (case abort_transaction fails now transaction_id db of
             (db', Ok u) \<Rightarrow> (db', Ok u)
           | (db', Err _) \<Rightarrow> (db', Err (GrpcInternal, ''Failed to abort transaction: ''))
           | (db', Panic) \<Rightarrow> (db', Panic)))"

text \<open>The answer of a heartbeat: whether the producer is valid, and why not.\<close>

definition ProducerState_debug :: "ProducerState \<Rightarrow> string" where
  "ProducerState_debug s = (case s of Active \<Rightarrow> ''Active'' | Fenced \<Rightarrow> ''Fenced'' | Expired \<Rightarrow> ''Expired'')"

definition svc_heartbeat ::
  "bool \<Rightarrow> bool \<Rightarrow> int \<Rightarrow> string \<Rightarrow> u32 \<Rightarrow> producer_db \<Rightarrow> producer_db \<times> (Status, bool \<times> string option) result" where
  "svc_heartbeat query_fails fails now producer_id producer_epoch db =
     (if query_fails then (db, Err (GrpcInternal, ''Failed to get producer: ''))
      else case get_producer producer_id db of
        None \<Rightarrow> (db, Ok (False, Some (''Unknown producer: '' @ producer_id)))
      | Some p \<Rightarrow>
          if p_epoch p \<noteq> producer_epoch
          then (db, Ok (False, Some (''Producer epoch mismatch: expected '' @ show_u32 (p_epoch p) @ '', got '' @ show_u32 producer_epoch)))
          else if p_state p \<noteq> Active then (db, Ok (False, Some (''Producer '' @ producer_id @ '' is '' @ ProducerState_debug (p_state p))))
          else (fst (update_producer_heartbeat fails now producer_id db), Ok (True, None)))"

end
