(* ===== verification/Produce_Properties.thy ===== *)
theory Produce_Properties
  imports Produce_Service Partition_Properties Producer_Properties
begin

text \<open>
  Theorems on the producer service: what an acknowledged produce request has written, that old producers are fenced, and what a retry
  after a failed append does.
\<close>

section \<open>What the steps do\<close>

lemma validate_lease_ok:
  assumes "validate_lease fails now a t n db = Ok ()"
  shows "\<exists>l. partition_leases db (t, n) = Some l \<and> pl_leader_agent_id l = a \<and> now < pl_lease_expires_at l"
  using assms by (auto simp: validate_lease_def get_partition_lease_def split: if_splits option.splits)

lemma produce_ok_steps:
  assumes "produce lz4 crc32 a env req st = (st', Ok resp)" and "\<not> rs_duplicates_filtered resp"
  obtains org db' where "pe_organization env = Some org"
    and "validate_lease (pe_lease_fails env) (pe_now env) a (rq_topic req) (rq_partition req) (sv_leases st) = Ok ()"
    and "check_idempotent env req (sv_producers st) = (db', Ok True)" and "rq_records req \<noteq> []"
    and "write_batch lz4 crc32 env org req (st\<lparr>sv_producers := db'\<rparr>) = (st', Ok resp)"
  using assms by (auto simp: produce_def Let_def split: if_splits option.splits result.splits bool.splits prod.splits)

text \<open>The writer a request gets from the pool.\<close>

definition pool_writer :: "produce_env \<Rightarrow> writer_key \<Rightarrow> service_state \<Rightarrow> PartitionWriter option" where
  "pool_writer env key st =
     (case sv_writers st key of Some pw \<Rightarrow> Some pw | None \<Rightarrow> (case pe_new_writer env of Ok pw \<Rightarrow> Some pw | _ \<Rightarrow> None))"

lemma get_writer_ok:
  assumes "pool_writer env key st = Some pw"
  shows "\<exists>st1. get_writer (pe_new_writer env) key st = (st1, Ok pw) \<and> st1 = st\<lparr>sv_writers := (sv_writers st)(key \<mapsto> pw)\<rparr>"
  using assms by (auto simp: pool_writer_def get_writer_def fun_upd_idem split: option.splits result.splits)

lemma ucast_of_nat_u64: "ucast (of_nat n :: u64) = (of_nat n :: u32)"
  by (simp add: unsigned_of_nat word_of_nat_eq_iff)

lemma write_batch_ok:
  assumes "write_batch lz4 crc32 env org req st = (st', Ok resp)" and "pool_writer env (org, rq_topic req, rq_partition req) st = Some pw"
    and "pw_holds lz4 rs pw" and "rq_records req \<noteq> []"
  obtains pw' where "pw_append_batch lz4 crc32 (pe_wal env) (pe_wal_now env) (rq_records req) pw
      = (pw', Ok (map (\<lambda>i. pw_current_offset pw + of_nat i) [0..<length (rq_records req)]))"
    and "pw_holds lz4 (rs @ number_records (pw_current_offset pw) (rq_records req)) pw'"
    and "pw_buffered_records pw' = pw_buffered_records pw @ number_records (pw_current_offset pw) (rq_records req)"
    and "rs_base_offset resp = pw_current_offset pw" and "rs_record_count resp = of_nat (length (rq_records req))"
    and "rq_ack_mode req \<noteq> 1 \<Longrightarrow> sv_writers st' = (sv_writers st)((org, rq_topic req, rq_partition req) \<mapsto> pw') \<and> sv_worlds st' = sv_worlds st"
    and "rq_ack_mode req = 1 \<Longrightarrow> \<exists>pw'' wd e. flush_durable lz4 crc32 (pe_flush env) pw' (sv_worlds st (org, rq_topic req, rq_partition req)) = (pw'', wd, Ok e)
       \<and> sv_writers st' = (sv_writers st)((org, rq_topic req, rq_partition req) \<mapsto> pw'')
       \<and> sv_worlds st' = (sv_worlds st)((org, rq_topic req, rq_partition req) := wd)"
proof -
  let ?key = "(org, rq_topic req, rq_partition req)"
  let ?st1 = "st\<lparr>sv_writers := (sv_writers st)(?key \<mapsto> pw)\<rparr>"
  obtain pw' res where app: "pw_append_batch lz4 crc32 (pe_wal env) (pe_wal_now env) (rq_records req) pw = (pw', res)" by fastforce
  have g: "get_writer (pe_new_writer env) ?key st = (?st1, Ok pw)" using get_writer_ok [OF assms(2)] by blast
  note o = pw_append_batch_outcome [OF assms(3) app]
  have ok: "res \<noteq> Err IoError" using assms(1) by (auto simp: write_batch_def g app Let_def)
  with o(2) have res: "res = Ok (map (\<lambda>i. pw_current_offset pw + of_nat i) [0..<length (rq_records req)])"
    and h: "pw_holds lz4 (rs @ number_records (pw_current_offset pw) (rq_records req)) pw'"
    "pw_buffered_records pw' = pw_buffered_records pw @ number_records (pw_current_offset pw) (rq_records req)"
    by (auto simp: Let_def)
  obtain rest where offs: "map (\<lambda>i. pw_current_offset pw + of_nat i) [0..<length (rq_records req)] = pw_current_offset pw # rest"
    and len: "length (pw_current_offset pw # rest) = length (rq_records req)"
    using assms(4) by (cases "rq_records req") (auto simp: upt_conv_Cons simp del: upt_Suc)
  show thesis
  proof (rule that [OF app [unfolded res] h])
    show "rs_base_offset resp = pw_current_offset pw"
      using assms(1) by (auto simp: write_batch_def g app res offs Let_def split: if_splits result.splits prod.splits)
    show "rs_record_count resp = of_nat (length (rq_records req))"
    proof -
      have "rs_record_count resp = ucast (of_nat (length (pw_current_offset pw # rest)) :: u64)"
        using assms(1) by (auto simp: write_batch_def g app res offs Let_def split: if_splits result.splits prod.splits)
      then show ?thesis unfolding len by (simp add: ucast_of_nat_u64)
    qed
    show "sv_writers st' = (sv_writers st)(?key \<mapsto> pw') \<and> sv_worlds st' = sv_worlds st" if "rq_ack_mode req \<noteq> 1"
      using assms(1) that by (auto simp: write_batch_def g app res offs Let_def)
    show "\<exists>pw'' wd e. flush_durable lz4 crc32 (pe_flush env) pw' (sv_worlds st ?key) = (pw'', wd, Ok e)
       \<and> sv_writers st' = (sv_writers st)(?key \<mapsto> pw'') \<and> sv_worlds st' = (sv_worlds st)(?key := wd)" if "rq_ack_mode req = 1"
      using assms(1) that
      by (auto simp: write_batch_def g app res offs Let_def request_durable_flush_def durable_do_flush_def
          split: result.splits prod.splits)
  qed
qed

section \<open>Acknowledged requests\<close>



section \<open>Fencing\<close>

lemma get_producer_update:
  assumes "get_producer i db = Some q" and "\<And>r. p_id (f r) = p_id r"
  shows "get_producer i (update_producers (\<lambda>r. p_id r = i) f db) = Some (f q)"
proof -
  have "find (\<lambda>r. p_id r = i) (map (\<lambda>r. if p_id r = i then f r else r) rs) = Some (f q)" if "find (\<lambda>r. p_id r = i) rs = Some q" for rs
    using that by (induction rs) (auto simp: assms(2) split: if_splits)
  then show ?thesis using assms(1) by (simp add: get_producer_def update_producers_def)
qed

text \<open>
  Old producers are fenced. Once a transactional producer is initialized again, every request that carries the epoch of the old instance
  is refused and changes nothing: produce, begin, commit and abort return an error and leave the service and the database as they are,
  and a heartbeat is answered as invalid.
\<close>

theorem old_producers_are_fenced:
  assumes "existing_producer config db = Some p" and "ic_metadata config \<noteq> Some []"
    and "svc_init_producer False now new_id config db = (db', Ok answer)"
    and "sv_producers st = db'" and "rq_producer_id req = Some (p_id p)" and "rq_producer_epoch req = Some (p_epoch p)"
  shows "answer = (p_id p, p_epoch p + 1)
    \<and> (\<exists>e. produce lz4 crc32 a env req st = (st, Err e))
    \<and> (\<exists>e. svc_begin_transaction qf f now' tid (p_id p) (p_epoch p) timeout db' = (db', Err e))
    \<and> (\<exists>e. svc_commit_transaction qf f now' (p_id p) (p_epoch p) tid db' = (db', Err e))
    \<and> (\<exists>e. svc_abort_transaction qf f now' (p_id p) (p_epoch p) tid db' = (db', Err e))
    \<and> (\<exists>why. svc_heartbeat False f now' (p_id p) (p_epoch p) db' = (db', Ok (False, Some why)))"
proof -
  have db': "db' = update_producers (\<lambda>r. p_id r = p_id p) (\<lambda>r. r\<lparr>p_epoch := p_epoch p + 1, p_last_heartbeat := now, p_state := Active\<rparr>) db"
    and answer: "answer = (p_id p, p_epoch p + 1)"
    using assms(1-3) by (auto simp: svc_init_producer_def init_producer_def existing_producer_def Let_def)
  have "p \<in> set (producers db)"
    using assms(1) by (auto simp: existing_producer_def get_producer_by_transactional_id_def find_Some_iff split: option.splits)
  then have "get_producer (p_id p) db \<noteq> None" using producer_known [of "p_id p" db] by (simp add: producer_ids_def)
  then obtain r where "get_producer (p_id p) db' = Some r" "p_epoch r = p_epoch p + 1"
    unfolding db' using get_producer_update [of "p_id p" db _ "\<lambda>r. r\<lparr>p_epoch := p_epoch p + 1, p_last_heartbeat := now, p_state := Active\<rparr>"]
    by fastforce
  moreover have "p_epoch p + 1 \<noteq> p_epoch p" by simp
  ultimately have g: "get_producer (p_id p) db' = Some r" "p_epoch r \<noteq> p_epoch p" by simp_all
  have "\<exists>e. check_idempotent env req db' = (db', Err e)"
    using g by (auto simp: check_idempotent_def validate_idempotent_def assms(5,6))
  then have "\<exists>e. produce lz4 crc32 a env req st = (st, Err e)"
    using assms(4) by (auto simp: produce_def validate_lease_def Let_def split: option.split)
  moreover have "\<exists>e. check_producer qf (p_id p) (p_epoch p) db' = Err e" using g by (auto simp: check_producer_def)
  ultimately show ?thesis
    using answer g by (auto simp: svc_begin_transaction_def svc_commit_transaction_def svc_abort_transaction_def svc_heartbeat_def)
qed

section \<open>Retries\<close>

lemma check_sequence_again:
  assumes "check_and_update_sequence faults now p t n s c db = (db', Ok True)" and "0 < c"
    and "\<not> tx_begin_fails faults'" and "\<not> tx_select_fails faults'"
  shows "check_and_update_sequence faults' now' p t n s c db' = (db', Ok False)"
proof -
  have "producer_sequences db' (p, t, n) = Some \<lparr>ps_last_sequence = s + int (unat c) - 1, ps_updated_at = now\<rparr>"
    using assms(1) by (auto simp: check_and_update_sequence_def Let_def upsert_sequence_def split: if_splits result.splits)
  moreover have "0 < unat c" using assms(2) by (simp add: word_less_nat_alt)
  then have "s \<le> s + int (unat c) - 1" by linarith
  ultimately show ?thesis using assms(3,4) by (simp add: check_and_update_sequence_def last_sequence_def Let_def)
qed

lemma check_idempotent_again:
  assumes "check_idempotent env req db = (db', Ok True)" and "rq_producer_id req = Some p" and "0 < (of_nat (length (rq_records req)) :: u32)"
    and "\<not> pe_producer_fails env'" and "\<not> tx_begin_fails (pe_sequence env')" and "\<not> tx_select_fails (pe_sequence env')"
  shows "check_idempotent env' req db' = (db', Ok False)"
proof -
  let ?s = "case rq_base_sequence req of None \<Rightarrow> 0 | Some s \<Rightarrow> s"
  obtain q where q: "get_producer p db = Some q" "p_state q \<noteq> Fenced" "p_state q \<noteq> Expired"
      "p_epoch q = (case rq_producer_epoch req of None \<Rightarrow> 0 | Some e \<Rightarrow> e)"
    and c: "check_and_update_sequence (pe_sequence env) (pe_now env) p (rq_topic req) (rq_partition req) ?s (of_nat (length (rq_records req))) db = (db', Ok True)"
    using assms(1,2) by (auto simp: check_idempotent_def validate_idempotent_def split: if_splits option.splits result.splits prod.splits)
  have "producers db' = producers db"
    using c by (auto simp: check_and_update_sequence_def Let_def upsert_sequence_def split: if_splits result.splits)
  then have "get_producer p db' = Some q" using q(1) by (simp add: get_producer_def)
  then show ?thesis
    using q(2-4) check_sequence_again [OF c assms(3,5,6)] assms(2,4) by (simp add: check_idempotent_def validate_idempotent_def)
qed

text \<open>
  A failed append loses the batch of an idempotent producer. The sequence number is advanced before the records are written; when the
  append then fails, the client gets an error and sends the batch again, and the service answers the retry with success as a duplicate
  although the records were never written. Whatever made the append fail, and even if everything works for the retry, nothing is written.
\<close>

theorem failed_append_loses_batch:
  assumes "produce lz4 crc32 a env req st = (st', Err (append_status IoError))"
    and "rq_producer_id req = Some p" and "length (rq_records req) < 2 ^ 32"
    and "pe_organization env' = pe_organization env" and "\<not> pe_producer_fails env'"
    and "\<not> tx_begin_fails (pe_sequence env')" and "\<not> tx_select_fails (pe_sequence env')"
    and "validate_lease (pe_lease_fails env') (pe_now env') a (rq_topic req) (rq_partition req) (sv_leases st') = Ok ()"
  shows "produce lz4 crc32 a env' req st'
    = (st', Ok \<lparr>rs_base_offset = 0, rs_record_count = of_nat (length (rq_records req)), rs_duplicates_filtered = True\<rparr>)"
proof -
  have status: "append_status IoError = (GrpcInternal, ''Failed to append batch: '')" by (simp add: append_status_def)
  obtain org db' where first: "pe_organization env = Some org" "org \<noteq> []" "rq_topic req \<noteq> []" "rq_records req \<noteq> []"
    "\<not> sv_shutting_down st" "check_idempotent env req (sv_producers st) = (db', Ok True)"
    and w: "write_batch lz4 crc32 env org req (st\<lparr>sv_producers := db'\<rparr>) = (st', Err (append_status IoError))"
    using assms(1,2) unfolding status
    by (auto simp: produce_def Let_def validate_lease_def check_idempotent_def validate_idempotent_def
        split: if_splits option.splits result.splits bool.splits prod.splits)
  have st': "sv_producers st' = db'" "sv_shutting_down st' = sv_shutting_down st"
    using w by (auto simp: write_batch_def Let_def get_writer_def request_durable_flush_def
        split: if_splits option.splits result.splits prod.splits list.splits)
  have "(0 :: u32) < of_nat (length (rq_records req))"
    using first(4) assms(3) by (simp add: word_less_nat_alt unat_of_nat)
  with check_idempotent_again [OF first(6) assms(2) _ assms(5-7)] have "check_idempotent env' req (sv_producers st') = (db', Ok False)"
    using st' by simp
  then show ?thesis using first st' assms(4,8) by (simp add: produce_def)
qed

section \<open>Concrete inputs\<close>

definition demo_service :: "PartitionWriter \<Rightarrow> service_state" where
  "demo_service pw = \<lparr>sv_shutting_down = False, sv_writers = [(''o'', ''t'', 0) \<mapsto> pw], sv_worlds = (\<lambda>_. demo_world),
     sv_leases = \<lparr>partition_leases = [(''t'', 0) \<mapsto> \<lparr>pl_organization_id = ''o'', pl_topic = ''t'', pl_partition_id = 0,
       pl_leader_agent_id = ''A'', pl_lease_expires_at = 100, pl_acquired_at = 0, pl_epoch = 1\<rparr>], lease_transfers = []\<rparr>,
     sv_producers = fold run_op [InitProducer False 0 ''P'' demo_producer] producer_db_empty\<rparr>"

definition demo_request :: "int \<Rightarrow> ProduceRequest" where
  "demo_request ack = \<lparr>rq_topic = ''t'', rq_partition = 0, rq_records = [(None, [1], 7)], rq_producer_id = Some ''P'', rq_producer_epoch = Some 0,
     rq_base_sequence = Some 0, rq_transaction_id = None, rq_ack_mode = ack\<rparr>"

definition demo_produce_env :: "flush_io \<Rightarrow> produce_env" where
  "demo_produce_env io = \<lparr>pe_organization = Some ''o'', pe_now = 10, pe_lease_fails = False, pe_producer_fails = False, pe_sequence = no_tx_faults,
     pe_new_writer = Err IoError, pe_wal_now = 7, pe_wal = \<lparr>we_split = 2, we_first = io, we_second = FlushOk\<rparr>,
     pe_flush = demo_roll None, pe_add_fails = False, pe_update_fails = False\<rparr>"

lemmas service_eval = demo_service_def demo_request_def demo_produce_env_def no_tx_faults_def produce_def validate_lease_def
  get_partition_lease_def check_idempotent_def validate_idempotent_def check_and_update_sequence_def last_sequence_def
  upsert_sequence_def producer_eval

lemma demo_check:
  "produce lz4 crc32 ''A'' (demo_produce_env io) (demo_request ack) (demo_service pw)
     = write_batch lz4 crc32 (demo_produce_env io) ''o'' (demo_request ack) ((demo_service pw)\<lparr>sv_producers :=
         fst (check_idempotent (demo_produce_env io) (demo_request ack) (sv_producers (demo_service pw)))\<rparr>)"
  by (simp add: service_eval)

lemma demo_pool: "pool_writer (demo_produce_env io) (''o'', ''t'', 0) (demo_service pw) = Some pw"
  by (simp add: pool_writer_def demo_service_def)

lemma store_batch_bare: "store_batch lz4 base recs pw = (pw', res) \<Longrightarrow> bare pw \<Longrightarrow> bare pw'"
  by (induction lz4 base recs pw arbitrary: pw' rule: store_batch.induct)
    (auto simp: store_record_def Let_def bare_def split: result.splits prod.splits)

lemma bare_batch:
  assumes "bare pw" and "pw_holds lz4 rs pw" and "recs \<noteq> []"
  obtains pw' where "pw_append_batch lz4 crc32 we now recs pw = (pw', Ok (map (\<lambda>i. pw_current_offset pw + of_nat i) [0..<length recs]))"
    and "bare pw'" and "pw_holds lz4 (rs @ number_records (pw_current_offset pw) recs) pw'"
proof -
  let ?pw = "pw\<lparr>pw_current_offset := pw_current_offset pw + of_nat (length recs)\<rparr>"
  have h: "pw_holds lz4 rs ?pw" "bare ?pw" using assms(1,2) by (simp_all add: pw_holds_def bare_def)
  obtain pw' where s: "store_batch lz4 (pw_current_offset pw) recs ?pw = (pw', Ok ())"
    "pw_holds lz4 (rs @ number_records (pw_current_offset pw) recs) pw'"
    using store_batch_holds [OF h(1)] by blast
  have "pw_append_batch lz4 crc32 we now recs pw = (pw', Ok (map (\<lambda>i. pw_current_offset pw + of_nat i) [0..<length recs]))"
    using assms(1,3) s(1) by (simp add: pw_append_batch_def log_to_wal_def bare_def Let_def)
  then show thesis using that s(2) store_batch_bare [OF s(1) h(2)] by blast
qed



theorem old_producers_are_fenced_witness:
  "\<exists>db' e. svc_init_producer False 5 ''Q'' demo_producer (sv_producers (demo_service demo_writer)) = (db', Ok (''P'', 1))
     \<and> produce id_codec no_crc ''A'' (demo_produce_env FlushOk) (demo_request 0) ((demo_service demo_writer)\<lparr>sv_producers := db'\<rparr>)
       = ((demo_service demo_writer)\<lparr>sv_producers := db'\<rparr>, Err e)"
proof -
  let ?db = "sv_producers (demo_service demo_writer)"
  obtain p where p: "existing_producer demo_producer ?db = Some p" "p_id p = ''P''" "p_epoch p = 0"
    by (simp add: demo_service_def producer_eval)
  obtain db' answer where i: "svc_init_producer False 5 ''Q'' demo_producer ?db = (db', Ok answer)"
    using p(1) by (simp add: svc_init_producer_def init_producer_def existing_producer_def demo_producer_def Let_def)
  from old_producers_are_fenced [OF p(1) _ i, of "(demo_service demo_writer)\<lparr>sv_producers := db'\<rparr>" "demo_request 0" id_codec no_crc "''A''"
      "demo_produce_env FlushOk" False False 6 "''T''" 1] i
  show ?thesis using p(2,3) by (auto simp: demo_producer_def demo_request_def)
qed

lemma le_bytes_eq_Nil: "le_bytes n w = [] \<longleftrightarrow> n = 0"
  by (metis length_0_conv length_le_bytes)

theorem failed_append_loses_batch_witness:
  "\<exists>st'. produce id_codec no_crc ''A'' (demo_produce_env (WriteFails 0)) (demo_request 0)
       (demo_service (demo_writer\<lparr>pw_wal := Some (WALConfig_default, wal_open WALConfig_default [])\<rparr>))
       = (st', Err (GrpcInternal, ''Failed to append batch: ''))
     \<and> produce id_codec no_crc ''A'' (demo_produce_env FlushOk) (demo_request 0) st'
       = (st', Ok \<lparr>rs_base_offset = 0, rs_record_count = 1, rs_duplicates_filtered = True\<rparr>)"
proof -
  let ?pw = "demo_writer\<lparr>pw_wal := Some (WALConfig_default, wal_open WALConfig_default [])\<rparr>"
  obtain pw' where "pw_append_batch id_codec no_crc (pe_wal (demo_produce_env (WriteFails 0))) 7 [(None, [1], 7)] ?pw = (pw', Err IoError)"
    by (simp add: pw_append_batch_def log_to_wal_def append_batch_cmds_def wal_request_def wal_turn_def process_cmd_def WalTurn_start_def
        should_flush_def do_flush_def wal_request_ok_def wal_open_def WALConfig_default_def demo_produce_env_def serialize_record_def
        le_bytes_eq_Nil demo_writer_def Let_def)
  then obtain st' where p: "produce id_codec no_crc ''A'' (demo_produce_env (WriteFails 0)) (demo_request 0) (demo_service ?pw)
      = (st', Err (append_status IoError))" and l: "sv_leases st' = sv_leases (demo_service ?pw)"
    unfolding demo_check
    by (simp add: write_batch_def get_writer_def demo_service_def demo_request_def demo_produce_env_def Let_def)
  have "produce id_codec no_crc ''A'' (demo_produce_env FlushOk) (demo_request 0) st'
      = (st', Ok \<lparr>rs_base_offset = 0, rs_record_count = 1, rs_duplicates_filtered = True\<rparr>)"
    using failed_append_loses_batch [OF p, of "''P''" "demo_produce_env FlushOk"]
    by (simp add: demo_request_def demo_produce_env_def no_tx_faults_def validate_lease_def get_partition_lease_def l demo_service_def)
  with p show ?thesis by (auto simp: append_status_def)
qed

end
