(* ===== verification/Kafka_Batch.thy ===== *)
theory Kafka_Batch
  imports Kafka_Wire
begin

text \<open>
  Kafka record batches: the reader of the produce handler and the writer of the fetch handler,
  \<^verbatim>\<open>streamhouse-kafka/src/handlers/produce.rs\<close> and \<^verbatim>\<open>fetch.rs\<close>. The decompressors and CRC-32C are third-party code and arguments.
  Reads past the end of the buffer panic, as the cursor methods do.
\<close>

section \<open>Reading a batch\<close>

definition get_i8 :: "bytes \<Rightarrow> (KafkaError, 8 word \<times> bytes) result" where "get_i8 = get_be 1"
definition get_i64 :: "bytes \<Rightarrow> (KafkaError, i64 \<times> bytes) result" where "get_i64 = get_be 8"

abbreviation put_i8 :: "8 word \<Rightarrow> bytes" where "put_i8 \<equiv> be_bytes 1"
abbreviation put_i64 :: "i64 \<Rightarrow> bytes" where "put_i64 \<equiv> be_bytes 8"

text \<open>\<^verbatim>\<open>(result >> 1) ^ -(result & 1)\<close> on an \<^verbatim>\<open>i64\<close>: the shift is arithmetic.\<close>

definition parse_varint :: "bytes \<Rightarrow> (KafkaError, i64 \<times> bytes) result" where
  "parse_varint buf = rbind (parse_varint_loop 0 0 buf)
     (\<lambda>(result, rest). Ok (signed_drop_bit 1 result XOR (- (result AND 1)), rest))"

record ParsedRecord =
  pkr_key :: "bytes option"
  pkr_value :: bytes
  pkr_headers :: "(bytes \<times> bytes) list"

definition parse_record_header :: "bytes \<Rightarrow> (KafkaError, (bytes \<times> bytes) \<times> bytes) result" where
  "parse_record_header buf =
     rbind (parse_varint buf) (\<lambda>(key_len, buf).
     rbind (get_bytes (unat key_len) buf) (\<lambda>(key, buf).
     if \<not> utf8_valid key then Err (Protocol ''Invalid header key: '')
     else rbind (parse_varint buf) (\<lambda>(value_len, buf).
       if sint value_len \<ge> 0
       then rbind (get_bytes (unat value_len) buf) (\<lambda>(val, buf). Ok ((key, val), buf))
       else Ok ((key, []), buf))))"

definition parse_record :: "bytes \<Rightarrow> (KafkaError, ParsedRecord \<times> bytes) result" where
  "parse_record buf =
     rbind (parse_varint buf) (\<lambda>(_, buf).
     rbind (get_i8 buf) (\<lambda>(_, buf).
     rbind (parse_varint buf) (\<lambda>(_, buf).
     rbind (parse_varint buf) (\<lambda>(_, buf).
     rbind (parse_varint buf) (\<lambda>(key_length, buf).
     rbind (if sint key_length \<ge> 0 then rbind (get_bytes (unat key_length) buf) (\<lambda>(k, buf). Ok (Some k, buf)) else Ok (None, buf)) (\<lambda>(key, buf).
     rbind (parse_varint buf) (\<lambda>(value_length, buf).
     rbind (if sint value_length \<ge> 0 then get_bytes (unat value_length) buf else Ok ([], buf)) (\<lambda>(val, buf).
     rbind (parse_varint buf) (\<lambda>(header_count, buf).
     rbind (get_many parse_record_header (nat (sint header_count)) buf) (\<lambda>(headers, buf).
       Ok (\<lparr>pkr_key = key, pkr_value = val, pkr_headers = headers\<rparr>, buf)))))))))))"

record RecordBatchMeta =
  rbm_producer_id :: i64
  rbm_producer_epoch :: i16
  rbm_base_sequence :: i32
  rbm_records :: "ParsedRecord list"

text \<open>A \<^verbatim>\<open>ParsedRecord\<close> is three vectors, 72 bytes, which \<^verbatim>\<open>Vec::with_capacity\<close> multiplies by the count, sign-extended.\<close>

definition parse_record_batch ::
  "(CompressionType \<Rightarrow> bytes \<Rightarrow> (KafkaError, bytes) result) \<Rightarrow> bytes \<Rightarrow> (KafkaError, RecordBatchMeta) result" where
  "parse_record_batch decompress data =
     (if length data < 61 then Err (Protocol ''RecordBatch too short'')
      else
       rbind (get_i64 data) (\<lambda>(_, buf).
       rbind (get_i32 buf) (\<lambda>(_, buf).
       rbind (get_i32 buf) (\<lambda>(_, buf).
       rbind (get_i8 buf) (\<lambda>(magic, buf).
       if magic \<noteq> 2 then Err (Protocol (''Unsupported magic byte: '' @ show_int (sint magic)))
       else
        rbind (get_u32 buf) (\<lambda>(_, buf).
        rbind (get_i16 buf) (\<lambda>(attributes, buf).
        rbind (get_i32 buf) (\<lambda>(_, buf).
        rbind (get_i64 buf) (\<lambda>(_, buf).
        rbind (get_i64 buf) (\<lambda>(_, buf).
        rbind (get_i64 buf) (\<lambda>(producer_id, buf).
        rbind (get_i16 buf) (\<lambda>(producer_epoch, buf).
        rbind (get_i32 buf) (\<lambda>(base_sequence, buf).
        rbind (get_i32 buf) (\<lambda>(record_count, buf).
        let compression = CompressionType_from_attributes attributes in
        rbind (if compression \<noteq> CT_None then decompress compression buf else Ok buf) (\<lambda>record_data.
        rbind (vec_with_capacity 72 (unat (scast record_count :: u64))) (\<lambda>_.
        rbind (get_many parse_record (nat (sint record_count)) record_data) (\<lambda>(records, _).
          Ok \<lparr>rbm_producer_id = producer_id, rbm_producer_epoch = producer_epoch, rbm_base_sequence = base_sequence,
              rbm_records = records\<rparr>)))))))))))))))))"

section \<open>Writing a batch\<close>

definition batch_varint :: "i64 \<Rightarrow> bytes" where
  "batch_varint value = encode_unsigned_varint (push_bit 1 value XOR signed_drop_bit 63 value)"

definition encode_record_with_deltas :: "i32 \<Rightarrow> i64 \<Rightarrow> bytes option \<Rightarrow> bytes \<Rightarrow> bytes" where
  "encode_record_with_deltas offset_delta timestamp_delta key val =
     (let record = put_i8 0 @ batch_varint timestamp_delta @ batch_varint (scast offset_delta)
            @ (case key of Some k \<Rightarrow> batch_varint (of_nat (length k)) @ k | None \<Rightarrow> batch_varint (- 1))
            @ batch_varint (of_nat (length val)) @ val @ batch_varint 0
      in batch_varint (of_nat (length record)) @ record)"

definition batch_max_timestamp :: "i64 \<Rightarrow> Record list \<Rightarrow> i64" where
  "batch_max_timestamp base_timestamp records =
     (case records of [] \<Rightarrow> base_timestamp
      | r # rs \<Rightarrow> fold (\<lambda>r m. if sint m \<le> sint (rec_timestamp r) then rec_timestamp r else m) rs (rec_timestamp r))"

definition batch_body :: "u64 \<Rightarrow> i64 \<Rightarrow> Record list \<Rightarrow> bytes" where
  "batch_body base_offset base_timestamp records =
     put_i16 0 @ put_i32 (of_nat (length records - 1)) @ put_i64 base_timestamp @ put_i64 (batch_max_timestamp base_timestamp records)
     @ put_i64 (- 1) @ put_i16 (- 1) @ put_i32 (- 1) @ put_i32 (of_nat (length records))
     @ concat (map (\<lambda>r. encode_record_with_deltas (ucast (rec_offset r - base_offset)) (rec_timestamp r - base_timestamp)
         (rec_key r) (rec_value r)) records)"

text \<open>The length counts what follows its field: leader epoch, magic, checksum and body.\<close>

definition build_record_batch_from_records :: "(bytes \<Rightarrow> u32) \<Rightarrow> u64 \<Rightarrow> i64 \<Rightarrow> Record list \<Rightarrow> bytes" where
  "build_record_batch_from_records crc32c base_offset base_timestamp records =
     (if records = [] then []
      else let body = batch_body base_offset base_timestamp records
           in put_i64 base_offset @ put_i32 (of_nat (4 + 1 + 4 + length body)) @ put_i32 0 @ put_i8 2
              @ put_u32 (crc32c body) @ body)"

section \<open>Varints\<close>

lemma parse_batch_varint: "parse_varint (batch_varint v @ rest) = Ok (signed_drop_bit 1 (zigzag v) XOR (- (zigzag v AND 1)), rest)"
  using decode_encode_u64 [of "zigzag v" rest]
  by (simp add: parse_varint_def batch_varint_def encode_unsigned_varint_eq parse_varint_loop_eq decode_varint_u64_def zigzag_def)

lemma bit_neg_low: "n < 64 \<Longrightarrow> bit (- (w AND 1) :: u64) n \<longleftrightarrow> bit w 0"
proof (cases "bit w 0")
  case True
  then have "w AND 1 = 1" by (simp add: and_one_eq bit_0 odd_iff_mod_2_eq_one)
  then show "n < 64 \<Longrightarrow> ?thesis" using True by simp
next
  case False
  then have "w AND 1 = 0" using and_1_bit by blast
  then show ?thesis using False by simp
qed

lemma zigzag_arith:
  assumes "bit v 62 = bit v 63"
  shows "signed_drop_bit 1 (zigzag v) XOR (- (zigzag v AND 1)) = (v :: i64)"
proof (rule bit_word_eqI)
  fix n assume "n < LENGTH(64)"
  then have n: "n < 64" by simp
  have "bit (signed_drop_bit 1 (zigzag v)) n = bit (zigzag v) (if n = 63 then 63 else n + 1)"
    using n by (auto simp: bit_signed_drop_bit_iff)
  moreover have "bit (zigzag v) 0 = bit v 63" by (simp add: bit_zigzag)
  ultimately show "bit (signed_drop_bit 1 (zigzag v) XOR - (zigzag v AND 1)) n = bit v n"
    using n assms by (auto simp: bit_xor_iff bit_neg_low bit_zigzag)
qed

lemma bit_of_nat_small: "n < 2 ^ 62 \<Longrightarrow> 62 \<le> k \<Longrightarrow> \<not> bit (of_nat n :: u64) k"
proof -
  assume "n < 2 ^ 62" "62 \<le> k"
  then have "n < 2 ^ k" by (meson less_le_trans one_le_numeral power_increasing)
  then have "\<not> bit n k" by (simp add: bit_iff_odd)
  then show "\<not> bit (of_nat n :: u64) k" by (simp add: bit_of_nat_iff)
qed

lemma parse_varint_length [codec_simps]: "n < 2 ^ 62 \<Longrightarrow> parse_varint (batch_varint (of_nat n) @ rest) = Ok (of_nat n, rest)"
  unfolding parse_batch_varint by (subst zigzag_arith) (simp_all add: bit_of_nat_small)

lemma parse_varint_minus_one [codec_simps]: "parse_varint (batch_varint (- 1) @ rest) = Ok (- 1, rest)"
  unfolding parse_batch_varint by (subst zigzag_arith) simp_all

lemma parse_varint_zero [codec_simps]: "parse_varint (batch_varint 0 @ rest) = Ok (0, rest)"
  using parse_varint_length [of 0] by simp

section \<open>Round trip\<close>

definition batchable :: "Record \<Rightarrow> bool" where
  "batchable r \<longleftrightarrow> (case rec_key r of None \<Rightarrow> True | Some k \<Rightarrow> length k < 2 ^ 62) \<and> length (rec_value r) < 2 ^ 62"

definition parsed :: "Record \<Rightarrow> ParsedRecord" where
  "parsed r = \<lparr>pkr_key = rec_key r, pkr_value = rec_value r, pkr_headers = []\<rparr>"

lemma get_i_put8 [codec_simps]: "get_i8 (be_bytes (Suc 0) (b :: 8 word) @ rest) = Ok (b, rest)" "get_i64 (put_i64 v @ rest) = Ok (v, rest)"
  using get_be_put [of 1 b rest] by (simp_all add: get_i8_def get_i64_def get_be_put)

lemma small_length [codec_simps]: "n < 2 ^ 62 \<Longrightarrow> unat (of_nat n :: i64) = n" "n < 2 ^ 62 \<Longrightarrow> sint (of_nat n :: i64) = int n"
  by (simp_all add: of_nat_less_self signed_of_nat signed_take_bit_int_eq_self)

lemma parse_record_prefix:
  "parse_record (batch_varint n @ be_bytes (Suc 0) (0 :: 8 word) @ batch_varint td @ batch_varint od @ buf) =
     rbind (parse_varint buf) (\<lambda>(key_length, buf).
     rbind (if sint key_length \<ge> 0 then rbind (get_bytes (unat key_length) buf) (\<lambda>(k, buf). Ok (Some k, buf)) else Ok (None, buf)) (\<lambda>(key, buf).
     rbind (parse_varint buf) (\<lambda>(value_length, buf).
     rbind (if sint value_length \<ge> 0 then get_bytes (unat value_length) buf else Ok ([], buf)) (\<lambda>(val, buf).
     rbind (parse_varint buf) (\<lambda>(header_count, buf).
     rbind (get_many parse_record_header (nat (sint header_count)) buf) (\<lambda>(headers, buf).
       Ok (\<lparr>pkr_key = key, pkr_value = val, pkr_headers = headers\<rparr>, buf)))))))"
  by (simp add: parse_record_def parse_batch_varint get_i_put8)

lemma parse_encoded_record:
  assumes "batchable r"
  shows "parse_record (encode_record_with_deltas od td (rec_key r) (rec_value r) @ rest) = Ok (parsed r, rest)"
proof -
  have v: "length (rec_value r) < 2 ^ 62" using assms by (simp add: batchable_def)
  show ?thesis
  proof (cases "rec_key r")
    case None
    then show ?thesis
      using v by (simp add: encode_record_with_deltas_def Let_def parse_record_prefix codec_simps parsed_def)
  next
    case (Some k)
    then have k: "length k < 2 ^ 62" using assms by (simp add: batchable_def)
    show ?thesis
      using v k Some by (simp add: encode_record_with_deltas_def Let_def parse_record_prefix codec_simps parsed_def)
  qed
qed

lemma parse_encoded_records:
  assumes "list_all batchable rs"
  shows "get_many parse_record (length rs) (concat (map (\<lambda>r. encode_record_with_deltas (od r) (td r) (rec_key r) (rec_value r)) rs) @ rest)
    = Ok (map parsed rs, rest)"
  using assms by (induction rs) (simp_all add: parse_encoded_record)

text \<open>
  C20. What the fetch handler writes, the produce handler reads: a batch built from records parses to their keys and values, in order, with the
  identifiers of a producer that is not idempotent, whatever the checksum function and the decompressors are.
\<close>

theorem record_batch_roundtrip:
  assumes "rs \<noteq> []" and "length rs < 2 ^ 31" and "list_all batchable rs"
  shows "parse_record_batch decompress (build_record_batch_from_records crc32c base_offset base_timestamp rs)
    = Ok \<lparr>rbm_producer_id = - 1, rbm_producer_epoch = - 1, rbm_base_sequence = - 1, rbm_records = map parsed rs\<rparr>"
proof -
  have n: "sint (of_nat (length rs) :: i32) = int (length rs)" using assms(2) by (rule sint_of_nat_small(2))
  have cap: "unat (scast (of_nat (length rs) :: i32) :: u64) = length rs"
    using assms(2) n by (simp add: scast_eq unat_of_nat)
  have records: "get_many parse_record (length rs) (concat (map (\<lambda>r. encode_record_with_deltas (ucast (rec_offset r - base_offset))
      (rec_timestamp r - base_timestamp) (rec_key r) (rec_value r)) rs)) = Ok (map parsed rs, [])"
    using parse_encoded_records [OF assms(3), of _ _ "[]"] by simp
  show ?thesis
    using assms(1,2)
    by (simp add: parse_record_batch_def build_record_batch_from_records_def batch_body_def Let_def codec_simps
        CompressionType_from_attributes_def n cap records vec_with_capacity_def)
qed

theorem record_batch_roundtrip_witness:
  "parse_record_batch (\<lambda>_ b. Ok b) (build_record_batch_from_records (\<lambda>_. 7) 100 5 [Record_new 100 5 None [1], Record_new 101 6 (Some [2]) [3]])
    = Ok \<lparr>rbm_producer_id = - 1, rbm_producer_epoch = - 1, rbm_base_sequence = - 1,
        rbm_records = [\<lparr>pkr_key = None, pkr_value = [1], pkr_headers = []\<rparr>, \<lparr>pkr_key = Some [2], pkr_value = [3], pkr_headers = []\<rparr>]\<rparr>"
  using record_batch_roundtrip [of "[Record_new 100 5 None [1], Record_new 101 6 (Some [2]) [3]]" "\<lambda>_ b. Ok b" "\<lambda>_. 7" 100 5]
  by (simp add: batchable_def parsed_def Record_new_def)

section \<open>Malformed batches\<close>

text \<open>A version-2 batch with arbitrary fields and no compression.\<close>

definition raw_batch :: "u32 \<Rightarrow> i64 \<Rightarrow> i16 \<Rightarrow> i32 \<Rightarrow> i32 \<Rightarrow> bytes \<Rightarrow> bytes" where
  "raw_batch crc producer_id producer_epoch base_sequence record_count rest =
     put_i64 0 @ put_i32 0 @ put_i32 0 @ put_i8 2 @ put_u32 crc @ put_i16 0 @ put_i32 0 @ put_i64 0 @ put_i64 0
     @ put_i64 producer_id @ put_i16 producer_epoch @ put_i32 base_sequence @ put_i32 record_count @ rest"

lemma parse_raw_batch:
  "parse_record_batch decompress (raw_batch crc pid epoch bseq n rest) =
     rbind (vec_with_capacity 72 (unat (scast n :: u64))) (\<lambda>_.
     rbind (get_many parse_record (nat (sint n)) rest) (\<lambda>(records, _).
       Ok \<lparr>rbm_producer_id = pid, rbm_producer_epoch = epoch, rbm_base_sequence = bseq, rbm_records = records\<rparr>))"
  by (simp add: parse_record_batch_def raw_batch_def codec_simps CompressionType_from_attributes_def Let_def)

lemma negative_capacity:
  assumes "sint (n :: i32) < 0"
  shows "vec_with_capacity 72 (unat (scast n :: u64)) = Panic"
proof -
  have ge: "- (2 ^ 31) \<le> sint n" using sint_ge [of n] by simp
  have "uint (scast n :: u64) = take_bit 64 (sint n)" using uint_word_of_int_eq [of "sint n", where ?'a = 64] by simp
  also have "\<dots> = take_bit 64 (sint n + 2 ^ 64)" by (simp only: take_bit_eq_mod mod_add_self2)
  also have "\<dots> = sint n + 2 ^ 64" using assms ge by (intro take_bit_int_eq_self) simp_all
  finally have "uint (scast n :: u64) = sint n + 2 ^ 64" .
  then have "int (2 ^ 63) \<le> int (unat (scast n :: u64))" using ge by simp
  then have "2 ^ 63 \<le> unat (scast n :: u64)" by (simp only: of_nat_le_iff)
  then show ?thesis by (simp add: vec_with_capacity_def)
qed



end
