(* ===== verification/Kafka_Handlers.thy ===== *)
theory Kafka_Handlers
  imports Kafka_Batch Producer_Store
begin

text \<open>
  Request handlers of the Kafka server that produce, fetch and run transactions: \<^verbatim>\<open>produce.rs\<close>, \<^verbatim>\<open>fetch.rs\<close>, \<^verbatim>\<open>init_producer_id.rs\<close>,
  \<^verbatim>\<open>add_partitions_to_txn.rs\<close> and \<^verbatim>\<open>end_txn.rs\<close> of \<^verbatim>\<open>streamhouse-kafka/src/handlers\<close>, over the producer and transaction tables. The agent router,
  the partition reader, quotas, clocks, new identifiers and the failure of each statement are arguments; the router keeps a state of
  its own. Metrics are left out.
\<close>

definition string_of_bytes :: "bytes \<Rightarrow> string" where "string_of_bytes bs = map (\<lambda>b. char_of (unat b)) bs"

text \<open>\<^verbatim>\<open>parse_compact_string(body).ok()\<close>: what is left of the buffer, also when the string does not parse.\<close>

definition skip_compact_string :: "bytes \<Rightarrow> bytes" where
  "skip_compact_string buf =
     (case parse_unsigned_varint buf of
        Ok (n, rest) \<Rightarrow> if n = 0 \<or> length rest < unat n - 1 then rest else drop (unat n - 1) rest
      | Err e \<Rightarrow> if e = Protocol ''Varint too long'' then drop 10 buf else []
      | Panic \<Rightarrow> [])"

section \<open>Produce\<close>

record PartitionProduceResponse =
  ppr_partition_index :: i32
  ppr_error_code :: ErrorCode
  ppr_base_offset :: i64
  ppr_log_append_time :: i64
  ppr_log_start_offset :: i64

record 'r kafka_env =
  ke_query_fails :: bool
  ke_faults :: tx_faults
  ke_now :: int
  ke_timestamp :: i64
  ke_decompress :: "CompressionType \<Rightarrow> bytes \<Rightarrow> (KafkaError, bytes) result"
  ke_route :: "bytes \<Rightarrow> u32 \<Rightarrow> ParsedRecord list \<Rightarrow> 'r \<Rightarrow> 'r \<times> u64 option"

definition produce_failed :: "i32 \<Rightarrow> ErrorCode \<Rightarrow> PartitionProduceResponse" where
  "produce_failed partition_index code = \<lparr>ppr_partition_index = partition_index, ppr_error_code = code, ppr_base_offset = - 1,
     ppr_log_append_time = - 1, ppr_log_start_offset = 0\<rparr>"

text \<open>The validation of an idempotent batch; \<open>None\<close> lets the write proceed.\<close>

definition validate_batch ::
  "'r kafka_env \<Rightarrow> bytes \<Rightarrow> u32 \<Rightarrow> RecordBatchMeta \<Rightarrow> producer_db \<Rightarrow> producer_db \<times> (KafkaError, ErrorCode option) result" where
  "validate_batch env topic_name partition_id batch db =
     (if sint (rbm_producer_id batch) < 0 then (db, Ok None)
      else if ke_query_fails env then (db, Ok (Some EC_UnknownServerError))
      else case get_producer_by_numeric_id (sint (rbm_producer_id batch)) db of
        None \<Rightarrow> (db, Ok (Some EC_UnknownProducerId))
      | Some p \<Rightarrow>
          if p_epoch p \<noteq> scast (rbm_producer_epoch batch) then (db, Ok (Some EC_InvalidProducerEpoch))
          else case check_and_update_sequence (ke_faults env) (ke_now env) (p_id p) (string_of_bytes topic_name) partition_id
                 (sint (rbm_base_sequence batch)) (of_nat (length (rbm_records batch))) db of
            (db', Ok True) \<Rightarrow> (db', Ok None)
          | (db', Ok False) \<Rightarrow> (db', Ok (Some EC_DuplicateSequenceNumber))
          | (db', Err _) \<Rightarrow> (db', Ok (Some EC_OutOfOrderSequenceNumber))
          | (db', Panic) \<Rightarrow> (db', Panic))"

definition process_records ::
  "'r kafka_env \<Rightarrow> bytes \<Rightarrow> u32 \<Rightarrow> bytes \<Rightarrow> producer_db \<times> 'r \<Rightarrow> (producer_db \<times> 'r) \<times> (KafkaError, PartitionProduceResponse) result" where
  "process_records env topic_name partition_id record_data s =
     (case s of (db, r) \<Rightarrow>
      case parse_record_batch (ke_decompress env) record_data of
        Err _ \<Rightarrow> (s, Ok (produce_failed partition_id EC_CorruptMessage))
      | Panic \<Rightarrow> (s, Panic)
      | Ok batch \<Rightarrow>
          (case validate_batch env topic_name partition_id batch db of
             (db', Err e) \<Rightarrow> ((db', r), Err e)
           | (db', Panic) \<Rightarrow> ((db', r), Panic)
           | (db', Ok (Some code)) \<Rightarrow> ((db', r), Ok (produce_failed partition_id code))
           | (db', Ok None) \<Rightarrow>
               (case ke_route env topic_name partition_id (rbm_records batch) r of
                  (r', None) \<Rightarrow> ((db', r'), Ok (produce_failed partition_id EC_KafkaStorageError))
                | (r', Some base_offset) \<Rightarrow>
                    ((db', r'), Ok \<lparr>ppr_partition_index = partition_id, ppr_error_code = EC_None, ppr_base_offset = base_offset,
                       ppr_log_append_time = ke_timestamp env, ppr_log_start_offset = 0\<rparr>))))"

type_synonym produce_topics = "(bytes \<times> (i32 \<times> bytes option) list) list"

definition parse_produce_partition :: "bool \<Rightarrow> bytes \<Rightarrow> (KafkaError, (i32 \<times> bytes option) \<times> bytes) result" where
  "parse_produce_partition compact buf =
     rbind (get_i32 buf) (\<lambda>(index, buf).
     if compact
     then rbind (parse_compact_nullable_bytes buf) (\<lambda>(records, buf).
          rbind (skip_tagged_fields buf) (\<lambda>(_, buf). Ok ((index, records), buf)))
     else rbind (parse_nullable_bytes buf) (\<lambda>(records, buf). Ok ((index, records), buf)))"

text \<open>An element of a partition array is 32 bytes, of a topic array 48 bytes.\<close>

definition parse_produce_topic :: "bool \<Rightarrow> bytes \<Rightarrow> (KafkaError, (bytes \<times> (i32 \<times> bytes option) list) \<times> bytes) result" where
  "parse_produce_topic compact buf =
     (if compact
      then rbind (parse_compact_string buf) (\<lambda>(name, buf).
           rbind (parse_compact_array 32 (parse_produce_partition True) buf) (\<lambda>(partitions, buf).
           rbind (skip_tagged_fields buf) (\<lambda>(_, buf). Ok ((name, partitions), buf))))
      else rbind (parse_string buf) (\<lambda>(name, buf).
           rbind (parse_array 32 (parse_produce_partition False) buf) (\<lambda>(partitions, buf). Ok ((name, partitions), buf))))"

definition parse_produce_request :: "i16 \<Rightarrow> bytes \<Rightarrow> (KafkaError, produce_topics) result" where
  "parse_produce_request api_version body =
     (if sint api_version \<ge> 9
      then if length body < 2 then Err (InvalidRequest ''Body too short'')
        else rbind (get_i16 (skip_compact_string body)) (\<lambda>(_, buf).
             rbind (get_i32 buf) (\<lambda>(_, buf).
             rbind (parse_compact_array 48 (parse_produce_topic True) buf) (\<lambda>(topics, buf).
             rbind (skip_tagged_fields buf) (\<lambda>_. Ok topics))))
      else rbind (if sint api_version \<ge> 3 then rbind (parse_nullable_string body) (\<lambda>(_, buf). Ok buf) else Ok body) (\<lambda>buf.
           if length buf < 6 then Err (InvalidRequest ''Body too short'')
           else rbind (get_i16 buf) (\<lambda>(_, buf).
                rbind (get_i32 buf) (\<lambda>(_, buf).
                rbind (parse_array 48 (parse_produce_topic False) buf) (\<lambda>(topics, _). Ok topics)))))"

definition put_produce_partition :: "i16 \<Rightarrow> PartitionProduceResponse \<Rightarrow> bytes" where
  "put_produce_partition api_version p =
     (if sint api_version \<ge> 9
      then put_i32 (ppr_partition_index p) @ put_i16 (ErrorCode_as_i16 (ppr_error_code p)) @ put_i64 (ppr_base_offset p)
        @ put_i64 (ppr_log_append_time p) @ put_i64 (ppr_log_start_offset p) @ encode_unsigned_varint 1 @ encode_empty_tagged_fields
      else put_i32 (ppr_partition_index p) @ put_i16 (ErrorCode_as_i16 (ppr_error_code p)) @ put_i64 (ppr_base_offset p)
        @ (if sint api_version \<ge> 2 then put_i64 (ppr_log_append_time p) else [])
        @ (if sint api_version \<ge> 5 then put_i64 (ppr_log_start_offset p) else [])
        @ (if sint api_version \<ge> 8 then put_i32 0 else []))"

definition build_produce_response :: "i16 \<Rightarrow> i32 \<Rightarrow> (bytes \<times> PartitionProduceResponse list) list \<Rightarrow> bytes" where
  "build_produce_response api_version throttle_time_ms topics =
     (if sint api_version \<ge> 9
      then encode_unsigned_varint (of_nat (length topics + 1))
        @ concat (map (\<lambda>(name, ps). encode_compact_string name @ encode_unsigned_varint (of_nat (length ps + 1))
            @ concat (map (put_produce_partition api_version) ps) @ encode_empty_tagged_fields) topics)
        @ put_i32 throttle_time_ms @ encode_empty_tagged_fields
      else put_i32 (of_nat (length topics))
        @ concat (map (\<lambda>(name, ps). encode_string name @ put_i32 (of_nat (length ps)) @ concat (map (put_produce_partition api_version) ps)) topics)
        @ (if sint api_version \<ge> 1 then put_i32 throttle_time_ms else []))"

fun process_partitions ::
  "(nat \<Rightarrow> 'r kafka_env) \<Rightarrow> bytes \<Rightarrow> nat \<Rightarrow> (i32 \<times> bytes option) list \<Rightarrow> producer_db \<times> 'r
     \<Rightarrow> (producer_db \<times> 'r) \<times> (KafkaError, PartitionProduceResponse list) result" where
  "process_partitions env name i [] s = (s, Ok [])"
| "process_partitions env name i ((index, None) # ps) s =
     (let (s', rest) = process_partitions env name (Suc i) ps s
      in (s', rbind rest (\<lambda>rs. Ok (produce_failed index (ErrorCode 87) # rs))))"
| "process_partitions env name i ((index, Some data) # ps) s =
     (case process_records (env i) name index data s of
        (s1, Ok r) \<Rightarrow> (let (s', rest) = process_partitions env name (Suc i) ps s1 in (s', rbind rest (\<lambda>rs. Ok (r # rs))))
      | (s1, Err e) \<Rightarrow> (s1, Err e)
      | (s1, Panic) \<Rightarrow> (s1, Panic))"

fun process_topics ::
  "(nat \<Rightarrow> 'r kafka_env) \<Rightarrow> nat \<Rightarrow> produce_topics \<Rightarrow> producer_db \<times> 'r
     \<Rightarrow> (producer_db \<times> 'r) \<times> (KafkaError, (bytes \<times> PartitionProduceResponse list) list) result" where
  "process_topics env i [] s = (s, Ok [])"
| "process_topics env i ((name, ps) # ts) s =
     (case process_partitions env name i ps s of
        (s1, Ok rs) \<Rightarrow> (let (s', rest) = process_topics env (i + length ps) ts s1 in (s', rbind rest (\<lambda>tr. Ok ((name, rs) # tr))))
      | (s1, Err e) \<Rightarrow> (s1, Err e)
      | (s1, Panic) \<Rightarrow> (s1, Panic))"

text \<open>The quota enforcer's answer: the throttle time of the byte-rate check and whether the storage limit is exceeded.\<close>

definition handle_produce ::
  "(nat \<Rightarrow> 'r kafka_env) \<Rightarrow> (nat \<Rightarrow> (i32 option \<times> bool) option) \<Rightarrow> i16 \<Rightarrow> i32 \<Rightarrow> bytes \<Rightarrow> producer_db \<times> 'r
     \<Rightarrow> (producer_db \<times> 'r) \<times> (KafkaError, bytes) result" where
  "handle_produce env quota api_version throttle_time_ms body s =
     (case parse_produce_request api_version body of
        Err e \<Rightarrow> (s, Err e)
      | Panic \<Rightarrow> (s, Panic)
      | Ok topics \<Rightarrow>
          (let total_bytes = sum_list (map (\<lambda>(_, ps). sum_list (map (\<lambda>(_, d). case d of None \<Rightarrow> 0 | Some b \<Rightarrow> length b) ps)) topics);
               check = (if total_bytes > 0 then quota total_bytes else None);
               throttle = (case check of Some (Some ms, _) \<Rightarrow> (if sint throttle_time_ms \<le> sint ms then ms else throttle_time_ms) | _ \<Rightarrow> throttle_time_ms)
           in case check of
                Some (_, True) \<Rightarrow>
                  (s, Ok (build_produce_response api_version throttle
                    (map (\<lambda>(name, ps). (name, map (\<lambda>(index, _). produce_failed index EC_PolicyViolation) ps)) topics)))
              | _ \<Rightarrow> (let (s', responses) = process_topics env 0 topics s
                     in (s', rbind responses (\<lambda>rs. Ok (build_produce_response api_version throttle rs))))))"

section \<open>Transactions\<close>

definition hash_producer_id :: "string \<Rightarrow> i64" where
  "hash_producer_id i = fold (\<lambda>c hash. (hash XOR of_char c) * 1099511628211) i 14695981039346656037 AND 0x7FFFFFFFFFFFFFFF"

text \<open>\<open>new_id\<close> is the identifier the store would generate, \<open>fails\<close> whether it fails.\<close>

definition handle_init_producer_id ::
  "bool \<Rightarrow> int \<Rightarrow> string \<Rightarrow> string \<Rightarrow> i16 \<Rightarrow> bytes \<Rightarrow> producer_db \<Rightarrow> producer_db \<times> (KafkaError, bytes) result" where
  "handle_init_producer_id fails now new_id org_id api_version body db =
     (case (if sint api_version \<ge> 3
            then rbind (parse_compact_nullable_string body) (\<lambda>(tid, buf).
                 rbind (get_i32 buf) (\<lambda>(timeout, buf).
                 rbind (skip_tagged_fields buf) (\<lambda>_. Ok (tid, timeout))))
            else rbind (parse_nullable_string body) (\<lambda>(tid, buf).
                 rbind (get_i32 buf) (\<lambda>(timeout, buf). Ok (tid, timeout)))) of
        Err e \<Rightarrow> (db, Err e)
      | Panic \<Rightarrow> (db, Panic)
      | Ok (tid, timeout) \<Rightarrow>
          (let (db', made) = init_producer fails now new_id \<lparr>ic_transactional_id = map_option string_of_bytes tid,
                 ic_organization_id = Some org_id, ic_timeout_ms = timeout, ic_metadata = None\<rparr> db;
               (code, producer_id, producer_epoch) = (case made of
                 Ok p \<Rightarrow> (EC_None, hash_producer_id (p_id p), ucast (p_epoch p)) | _ \<Rightarrow> (EC_UnknownServerError, - 1, - 1))
           in (db', Ok (put_i32 0 @ put_i16 (ErrorCode_as_i16 code) @ put_i64 producer_id @ put_i16 producer_epoch
                 @ (if sint api_version \<ge> 3 then encode_empty_tagged_fields else [])))))"

text \<open>The faults of one transactional request: the producer lookup, the begin, and the statements after it.\<close>

record txn_env =
  xe_now :: int
  xe_new_id :: string
  xe_lookup_fails :: bool
  xe_begin_fails :: bool
  xe_query_fails :: bool
  xe_end_fails :: bool
  xe_add_query_fails :: "nat \<Rightarrow> bool"
  xe_add_fails :: "nat \<Rightarrow> bool"
  xe_marker_fails :: "nat \<Rightarrow> bool"
  xe_lso_fails :: "nat \<Rightarrow> bool"

text \<open>The transaction a transactional request works on, by \<^verbatim>\<open>begin_transaction_for_org\<close>.\<close>

definition active_transaction :: "txn_env \<Rightarrow> string \<Rightarrow> bytes \<Rightarrow> producer_db \<Rightarrow> producer_db \<times> (ErrorCode, Transaction) result" where
  "active_transaction env org_id transactional_id db =
     (if xe_lookup_fails env then (db, Err EC_UnknownServerError)
      else case get_producer_by_transactional_id (string_of_bytes transactional_id) (Some org_id) db of
        None \<Rightarrow> (db, Err EC_InvalidProducerIdMapping)
      | Some p \<Rightarrow>
          (case begin_transaction_for_org (xe_begin_fails env) (xe_now env) (xe_new_id env) org_id (p_id p) 60000 db of
             (db', Ok t) \<Rightarrow> (db', Ok t)
           | (db', _) \<Rightarrow> (db', Err EC_InvalidTxnState)))"

fun add_partitions :: "txn_env \<Rightarrow> string \<Rightarrow> string \<Rightarrow> bytes \<Rightarrow> nat \<Rightarrow> i32 list \<Rightarrow> producer_db \<Rightarrow> producer_db \<times> (i32 \<times> ErrorCode) list" where
  "add_partitions env org_id tid topic i [] db = (db, [])"
| "add_partitions env org_id tid topic i (index # ps) db =
     (let (db1, r) = add_transaction_partition_for_org (xe_add_query_fails env i) (xe_add_fails env i) org_id tid (string_of_bytes topic) index 0 db;
          (db', rest) = add_partitions env org_id tid topic (Suc i) ps db1
      in (db', (index, case r of Ok _ \<Rightarrow> EC_None | _ \<Rightarrow> EC_UnknownServerError) # rest))"

fun add_topics ::
  "txn_env \<Rightarrow> string \<Rightarrow> string \<Rightarrow> nat \<Rightarrow> (bytes \<times> i32 list) list \<Rightarrow> producer_db \<Rightarrow> producer_db \<times> (bytes \<times> (i32 \<times> ErrorCode) list) list" where
  "add_topics env org_id tid i [] db = (db, [])"
| "add_topics env org_id tid i ((topic, ps) # ts) db =
     (let (db1, rs) = add_partitions env org_id tid topic i ps db; (db', rest) = add_topics env org_id tid (i + length ps) ts db1
      in (db', (topic, rs) # rest))"

definition add_partitions_to_txn ::
  "txn_env \<Rightarrow> string \<Rightarrow> bytes \<Rightarrow> (bytes \<times> i32 list) list \<Rightarrow> producer_db \<Rightarrow> producer_db \<times> (bytes \<times> (i32 \<times> ErrorCode) list) list" where
  "add_partitions_to_txn env org_id transactional_id topics db =
     (case active_transaction env org_id transactional_id db of
        (db', Ok t) \<Rightarrow> add_topics env org_id (t_transaction_id t) 0 topics db'
      | (db', Err code) \<Rightarrow> (db', map (\<lambda>(topic, ps). (topic, map (\<lambda>index. (index, code)) ps)) topics)
      | (db', Panic) \<Rightarrow> (db', []))"

definition parse_txn_topic :: "bool \<Rightarrow> bytes \<Rightarrow> (KafkaError, (bytes \<times> i32 list) \<times> bytes) result" where
  "parse_txn_topic compact buf =
     (if compact
      then rbind (parse_compact_string buf) (\<lambda>(name, buf).
           rbind (parse_compact_array 4 (\<lambda>b. rbind (get_i32 b) (\<lambda>(index, b). rbind (skip_tagged_fields b) (\<lambda>(_, b). Ok (index, b)))) buf)
             (\<lambda>(partitions, buf).
           rbind (skip_tagged_fields buf) (\<lambda>(_, buf). Ok ((name, partitions), buf))))
      else rbind (parse_string buf) (\<lambda>(name, buf).
           rbind (parse_array 4 get_i32 buf) (\<lambda>(partitions, buf). Ok ((name, partitions), buf))))"

definition add_partitions_response :: "i16 \<Rightarrow> (bytes \<times> (i32 \<times> ErrorCode) list) list \<Rightarrow> bytes" where
  "add_partitions_response api_version topics =
     put_i32 0 @
     (if sint api_version \<ge> 3
      then encode_unsigned_varint (of_nat (length topics + 1))
        @ concat (map (\<lambda>(name, ps). encode_compact_string name @ encode_unsigned_varint (of_nat (length ps + 1))
            @ concat (map (\<lambda>(index, code). put_i32 index @ put_i16 (ErrorCode_as_i16 code) @ encode_empty_tagged_fields) ps)
            @ encode_empty_tagged_fields) topics)
        @ encode_empty_tagged_fields
      else put_i32 (of_nat (length topics))
        @ concat (map (\<lambda>(name, ps). encode_string name @ put_i32 (of_nat (length ps))
            @ concat (map (\<lambda>(index, code). put_i32 index @ put_i16 (ErrorCode_as_i16 code)) ps)) topics))"

definition handle_add_partitions_to_txn ::
  "txn_env \<Rightarrow> string \<Rightarrow> i16 \<Rightarrow> bytes \<Rightarrow> producer_db \<Rightarrow> producer_db \<times> (KafkaError, bytes) result" where
  "handle_add_partitions_to_txn env org_id api_version body db =
     (let compact = (sint api_version \<ge> 3) in
      case rbind (if compact then parse_compact_string body else parse_string body) (\<lambda>(tid, buf).
           rbind (get_i64 buf) (\<lambda>(_, buf). rbind (get_i16 buf) (\<lambda>(_, buf).
           rbind ((if compact then parse_compact_array else parse_array) 48 (parse_txn_topic compact) buf) (\<lambda>(topics, buf).
           rbind (if compact then skip_tagged_fields buf else Ok ((), buf)) (\<lambda>_. Ok (tid, topics)))))) of
        Err e \<Rightarrow> (db, Err e)
      | Panic \<Rightarrow> (db, Panic)
      | Ok (tid, topics) \<Rightarrow>
          (let (db', rs) = add_partitions_to_txn env org_id tid topics db in (db', Ok (add_partitions_response api_version rs))))"

text \<open>The markers and, on commit, the last stable offset that \<^verbatim>\<open>end_txn\<close> writes after the store has ended the transaction.\<close>

definition end_partition :: "txn_env \<Rightarrow> bool \<Rightarrow> string \<Rightarrow> nat \<times> TransactionPartition \<Rightarrow> producer_db \<Rightarrow> producer_db" where
  "end_partition env committed tid = (\<lambda>(i, tp) db.
     let db1 = fst (add_transaction_marker (xe_marker_fails env i) \<lparr>tm_transaction_id = tid, tm_topic = tp_topic tp,
            tm_partition_id = tp_partition_id tp, tm_offset = tp_last_offset tp + 1,
            tm_marker_type = (if committed then Commit else Abort), tm_timestamp = xe_now env\<rparr> db)
     in if committed then fst (update_last_stable_offset (xe_lso_fails env i) (tp_topic tp) (tp_partition_id tp) (tp_last_offset tp + 1) db1)
        else db1)"

definition end_txn :: "txn_env \<Rightarrow> string \<Rightarrow> bytes \<Rightarrow> bool \<Rightarrow> producer_db \<Rightarrow> producer_db \<times> ErrorCode" where
  "end_txn env org_id transactional_id committed db =
     (case active_transaction env org_id transactional_id db of
        (db1, Err code) \<Rightarrow> (db1, code)
      | (db1, Panic) \<Rightarrow> (db1, EC_UnknownServerError)
      | (db1, Ok t) \<Rightarrow>
          if xe_query_fails env then (db1, EC_UnknownServerError)
          else let partitions = get_transaction_partitions_for_org org_id (t_transaction_id t) db1;
                   (db2, ended) = (if committed then (let (d, r) = commit_transaction_for_org (xe_end_fails env) (xe_now env) org_id (t_transaction_id t) db1 in (d, rbind r (\<lambda>_. Ok ())))
                                   else abort_transaction_for_org (xe_end_fails env) (xe_now env) org_id (t_transaction_id t) db1)
               in case ended of
                    Ok _ \<Rightarrow> (fold (end_partition env committed (t_transaction_id t)) (enumerate 0 partitions) db2, EC_None)
                  | _ \<Rightarrow> (db2, EC_UnknownServerError))"

definition end_txn_response :: "i16 \<Rightarrow> ErrorCode \<Rightarrow> bytes" where
  "end_txn_response api_version code =
     put_i32 0 @ put_i16 (ErrorCode_as_i16 code) @ (if sint api_version \<ge> 3 then encode_empty_tagged_fields else [])"

definition handle_end_txn :: "txn_env \<Rightarrow> string \<Rightarrow> i16 \<Rightarrow> bytes \<Rightarrow> producer_db \<Rightarrow> producer_db \<times> (KafkaError, bytes) result" where
  "handle_end_txn env org_id api_version body db =
     (case rbind (if sint api_version \<ge> 3 then parse_compact_string body else parse_string body) (\<lambda>(tid, buf).
           rbind (get_i64 buf) (\<lambda>(_, buf). rbind (get_i16 buf) (\<lambda>(_, buf). rbind (get_i8 buf) (\<lambda>(committed, buf).
           rbind (if sint api_version \<ge> 3 then skip_tagged_fields buf else Ok ((), buf)) (\<lambda>_. Ok (tid, committed \<noteq> 0)))))) of
        Err e \<Rightarrow> (db, Err e)
      | Panic \<Rightarrow> (db, Panic)
      | Ok (tid, committed) \<Rightarrow>
          (let (db', code) = end_txn env org_id tid committed db in (db', Ok (end_txn_response api_version code))))"

section \<open>Fetch\<close>

record FetchPartitionResponse =
  fpr_partition_index :: i32
  fpr_error_code :: ErrorCode
  fpr_high_watermark :: i64
  fpr_last_stable_offset :: i64
  fpr_log_start_offset :: i64
  fpr_records :: "bytes option"

record fetch_env =
  fe_partition :: "(metadata_error, u64 option) result"
  fe_lso_fails :: bool
  fe_topic_known :: bool
  fe_read :: "u64 \<Rightarrow> nat \<Rightarrow> (storage_error, Record list) result"
  fe_crc32c :: "bytes \<Rightarrow> u32"

text \<open>\<^verbatim>\<open>read_records\<close>: at most \<open>max_bytes / 100\<close> records, between 1 and 10000; a failing read is an empty batch.\<close>

definition read_records :: "fetch_env \<Rightarrow> u64 \<Rightarrow> nat \<Rightarrow> bytes" where
  "read_records env offset max_bytes =
     (if \<not> fe_topic_known env then []
      else case fe_read env offset (min (max (max_bytes div 100) 1) 10000) of
        Ok (r # rs) \<Rightarrow> build_record_batch_from_records (fe_crc32c env) (rec_offset r) (rec_timestamp r) (r # rs)
      | _ \<Rightarrow> [])"

definition last_offset_in_batch :: "bytes \<Rightarrow> u64" where
  "last_offset_in_batch data = be_val (take 8 data) + scast (be_val (take 4 (drop 23 data)) :: i32)"

definition below_lso :: "u64 \<Rightarrow> bytes \<Rightarrow> bytes option" where
  "below_lso effective_max_offset data =
     (if data \<noteq> [] \<and> length data \<ge> 27 \<and> last_offset_in_batch data \<ge> effective_max_offset then None else Some data)"

definition fetch_failed :: "u32 \<Rightarrow> ErrorCode \<Rightarrow> FetchPartitionResponse" where
  "fetch_failed partition_id code = \<lparr>fpr_partition_index = partition_id, fpr_error_code = code, fpr_high_watermark = - 1,
     fpr_last_stable_offset = - 1, fpr_log_start_offset = 0, fpr_records = None\<rparr>"

definition fetch_partition ::
  "fetch_env \<Rightarrow> bytes \<Rightarrow> u32 \<Rightarrow> u64 \<Rightarrow> nat \<Rightarrow> 8 word \<Rightarrow> producer_db \<Rightarrow> FetchPartitionResponse" where
  "fetch_partition env topic_name partition_id offset max_bytes isolation_level db =
     (case fe_partition env of
        Ok None \<Rightarrow> fetch_failed partition_id EC_UnknownTopicOrPartition
      | Err _ \<Rightarrow> fetch_failed partition_id EC_UnknownServerError
      | Panic \<Rightarrow> fetch_failed partition_id EC_UnknownServerError
      | Ok (Some high_watermark) \<Rightarrow>
          (let committed = (isolation_level = 1);
               last_stable_offset = (if committed \<and> \<not> fe_lso_fails env
                 then of_nat (get_last_stable_offset (string_of_bytes topic_name) partition_id db) else high_watermark);
               effective_max_offset = (if committed then last_stable_offset else - 1);
               records = (if offset \<ge> effective_max_offset then None
                 else let data = read_records env offset max_bytes in if committed then below_lso effective_max_offset data else Some data)
           in \<lparr>fpr_partition_index = partition_id, fpr_error_code = EC_None, fpr_high_watermark = high_watermark,
               fpr_last_stable_offset = last_stable_offset, fpr_log_start_offset = 0, fpr_records = records\<rparr>))"

record FetchPartition =
  fp_partition :: i32
  fp_fetch_offset :: i64
  fp_partition_max_bytes :: i32

definition skip_i32_if :: "bool \<Rightarrow> bytes \<Rightarrow> (KafkaError, unit \<times> bytes) result" where
  "skip_i32_if b buf = (if b then rbind (get_i32 buf) (\<lambda>(_, buf). Ok ((), buf)) else Ok ((), buf))"

definition skip_i64_if :: "bool \<Rightarrow> bytes \<Rightarrow> (KafkaError, unit \<times> bytes) result" where
  "skip_i64_if b buf = (if b then rbind (get_i64 buf) (\<lambda>(_, buf). Ok ((), buf)) else Ok ((), buf))"

definition parse_fetch_partition :: "i16 \<Rightarrow> bytes \<Rightarrow> (KafkaError, FetchPartition \<times> bytes) result" where
  "parse_fetch_partition api_version buf =
     (let compact = (sint api_version \<ge> 12) in
      rbind (get_i32 buf) (\<lambda>(partition, buf).
      rbind (skip_i32_if (sint api_version \<ge> 9) buf) (\<lambda>(_, buf).
      rbind (get_i64 buf) (\<lambda>(fetch_offset, buf).
      rbind (skip_i32_if compact buf) (\<lambda>(_, buf).
      rbind (skip_i64_if (sint api_version \<ge> 5) buf) (\<lambda>(_, buf).
      rbind (get_i32 buf) (\<lambda>(max_bytes, buf).
      rbind (if compact then skip_tagged_fields buf else Ok ((), buf)) (\<lambda>(_, buf).
        Ok (\<lparr>fp_partition = partition, fp_fetch_offset = fetch_offset, fp_partition_max_bytes = max_bytes\<rparr>, buf)))))))))"

definition parse_fetch_topic :: "i16 \<Rightarrow> bytes \<Rightarrow> (KafkaError, (bytes \<times> FetchPartition list) \<times> bytes) result" where
  "parse_fetch_topic api_version buf =
     (if sint api_version \<ge> 12
      then rbind (parse_compact_string buf) (\<lambda>(name, buf).
           rbind (parse_compact_array 16 (parse_fetch_partition api_version) buf) (\<lambda>(partitions, buf).
           rbind (skip_tagged_fields buf) (\<lambda>(_, buf). Ok ((name, partitions), buf))))
      else rbind (parse_string buf) (\<lambda>(name, buf).
           rbind (parse_array 16 (parse_fetch_partition api_version) buf) (\<lambda>(partitions, buf). Ok ((name, partitions), buf))))"

definition parse_forgotten_topic :: "bytes \<Rightarrow> (KafkaError, unit \<times> bytes) result" where
  "parse_forgotten_topic buf =
     rbind (parse_compact_string buf) (\<lambda>(_, buf).
     rbind (parse_compact_array 4 get_i32 buf) (\<lambda>(_, buf). skip_tagged_fields buf))"

text \<open>The isolation level and the topics; the other fields of the request are read and only logged.\<close>

definition parse_fetch_request :: "i16 \<Rightarrow> bytes \<Rightarrow> (KafkaError, 8 word \<times> (bytes \<times> FetchPartition list) list) result" where
  "parse_fetch_request api_version body =
     (let v = sint api_version in
      rbind (get_i32 (if v \<ge> 15 then skip_compact_string body else body)) (\<lambda>(_, buf).
      rbind (get_i32 buf) (\<lambda>(_, buf).
      rbind (get_i32 buf) (\<lambda>(_, buf).
      rbind (skip_i32_if (v \<ge> 3) buf) (\<lambda>(_, buf).
      rbind (if v \<ge> 4 then get_i8 buf else Ok (0, buf)) (\<lambda>(isolation_level, buf).
      rbind (skip_i32_if (v \<ge> 7) buf) (\<lambda>(_, buf).
      rbind (skip_i32_if (v \<ge> 7) buf) (\<lambda>(_, buf).
      if v \<ge> 12
      then rbind (parse_compact_array 48 (parse_fetch_topic api_version) buf) (\<lambda>(topics, buf).
           rbind (parse_compact_array 0 parse_forgotten_topic buf) (\<lambda>(_, buf).
           rbind (skip_tagged_fields (skip_compact_string buf)) (\<lambda>_. Ok (isolation_level, topics))))
      else rbind (parse_array 48 (parse_fetch_topic api_version) buf) (\<lambda>(topics, _). Ok (isolation_level, topics))))))))))"

definition put_fetch_partition :: "i16 \<Rightarrow> FetchPartitionResponse \<Rightarrow> bytes" where
  "put_fetch_partition api_version p =
     (let v = sint api_version;
          common = put_i32 (fpr_partition_index p) @ put_i16 (ErrorCode_as_i16 (fpr_error_code p)) @ put_i64 (fpr_high_watermark p)
      in if v \<ge> 12
         then common @ put_i64 (fpr_last_stable_offset p) @ put_i64 (fpr_log_start_offset p)
           @ put_i32 (- 1) @ put_i64 (- 1) @ put_i32 (- 1) @ put_i32 (- 1) @ put_i64 (- 1) @ put_i32 (- 1)
           @ encode_unsigned_varint 1 @ put_i32 (- 1) @ encode_compact_nullable_bytes (fpr_records p) @ encode_empty_tagged_fields
         else common @ (if v \<ge> 4 then put_i64 (fpr_last_stable_offset p) else []) @ (if v \<ge> 5 then put_i64 (fpr_log_start_offset p) else [])
           @ (if v \<ge> 4 then put_i32 (- 1) else []) @ (if v \<ge> 11 then put_i32 (- 1) else []) @ encode_nullable_bytes (fpr_records p))"

definition build_fetch_response :: "i16 \<Rightarrow> i32 \<Rightarrow> (bytes \<times> FetchPartitionResponse list) list \<Rightarrow> bytes" where
  "build_fetch_response api_version throttle_time_ms topics =
     (let v = sint api_version in
      if v \<ge> 12
      then put_i32 throttle_time_ms @ put_i16 (ErrorCode_as_i16 EC_None) @ put_i32 0 @ encode_unsigned_varint (of_nat (length topics + 1))
        @ concat (map (\<lambda>(name, ps). encode_compact_string name @ encode_unsigned_varint (of_nat (length ps + 1))
            @ concat (map (put_fetch_partition api_version) ps) @ encode_empty_tagged_fields) topics)
        @ encode_empty_tagged_fields
      else (if v \<ge> 1 then put_i32 throttle_time_ms else []) @ (if v \<ge> 7 then put_i16 (ErrorCode_as_i16 EC_None) @ put_i32 0 else [])
        @ put_i32 (of_nat (length topics))
        @ concat (map (\<lambda>(name, ps). encode_string name @ put_i32 (of_nat (length ps)) @ concat (map (put_fetch_partition api_version) ps)) topics))"

text \<open>\<open>env\<close> answers the lookups and reads of a topic and partition, \<open>quota\<close> the throttle time when the consume quota is exceeded.\<close>

definition handle_fetch ::
  "(bytes \<Rightarrow> u32 \<Rightarrow> fetch_env) \<Rightarrow> (nat \<Rightarrow> i32 option) \<Rightarrow> i16 \<Rightarrow> i32 \<Rightarrow> bytes \<Rightarrow> producer_db \<Rightarrow> (KafkaError, bytes) result" where
  "handle_fetch env quota api_version throttle_time_ms body db =
     rbind (parse_fetch_request api_version body) (\<lambda>(isolation_level, topics).
       let responses = map (\<lambda>(name, ps). (name, map (\<lambda>fp. fetch_partition (env name (fp_partition fp)) name (fp_partition fp)
             (fp_fetch_offset fp) (unat (scast (fp_partition_max_bytes fp) :: u64)) isolation_level db) ps)) topics;
           total = sum_list (map (\<lambda>(_, ps). sum_list (map (\<lambda>p. case fpr_records p of None \<Rightarrow> 0 | Some d \<Rightarrow> length d) ps)) responses);
           throttle = (case (if total > 0 then quota total else None) of
             None \<Rightarrow> throttle_time_ms | Some ms \<Rightarrow> if sint throttle_time_ms \<le> sint ms then ms else throttle_time_ms)
       in Ok (build_fetch_response api_version throttle responses))"

end
