(* ===== verification/Kafka_Handler_Properties.thy ===== *)
theory Kafka_Handler_Properties
  imports Kafka_Handlers Producer_Properties
begin

text \<open>
  Theorems on the produce, transaction and fetch handlers of the Kafka server. Histories of the producer tables are those of
  \<open>Producer_Properties\<close>.
\<close>

section \<open>Idempotent produce\<close>

fun allocates :: "producer_op \<Rightarrow> bool" where
  "allocates (AllocateNumericId failing p) = True"
| "allocates _ = False"

definition unnumbered :: "producer_db \<Rightarrow> bool" where
  "unnumbered db \<longleftrightarrow> (\<forall>p \<in> set (producers db). p_numeric_id p = None)"

lemma unnumbered_update: "unnumbered db \<Longrightarrow> (\<And>p. p_numeric_id (f p) = p_numeric_id p) \<Longrightarrow> unnumbered (update_producers P f db)"
  by (auto simp: unnumbered_def update_producers_def)

lemma set_state_producers: "set_transaction_state scope from f i db = Some db' \<Longrightarrow> producers db' = producers db"
  by (auto simp: set_transaction_state_def Let_def split: if_splits)

lemma upsert_producers: "upsert_sequence now k s db = Ok db' \<Longrightarrow> producers db' = producers db"
  by (auto simp: upsert_sequence_def split: if_splits)

lemma unnumbered_step:
  assumes "unnumbered db" and "\<not> allocates e"
  shows "unnumbered (run_op e db)"
proof -
  have same: "unnumbered db'" if "producers db' = producers db" for db' using that assms(1) by (simp add: unnumbered_def)
  show ?thesis
  proof (cases e)
    case (InitProducer fails now new_id config)
    have "unnumbered (db\<lparr>producers := producers db @ [q]\<rparr>)" if "p_numeric_id q = None" for q
      using that assms(1) by (auto simp: unnumbered_def)
    then show ?thesis
      using assms(1) by (simp add: InitProducer init_producer_def Let_def unnumbered_update split: option.split)
  next
    case (CleanupProducers fails now timeout)
    then show ?thesis
      using assms(1) by (auto simp: producer_op_defs Let_def unnumbered_def delete_producers_def)
  next
    case (Heartbeat fails now p)
    then show ?thesis using assms(1) by (simp add: producer_op_defs unnumbered_update)
  next
    case (Fence fails p)
    then show ?thesis using assms(1) by (simp add: producer_op_defs unnumbered_update)
  qed (use assms in \<open>auto simp: producer_op_defs check_and_update_sequence_def insert_transaction_def add_transaction_partition_def
        update_transaction_partition_offset_def prepare_with_def end_with_def Let_def case_prod_beta
        intro!: same dest: set_state_producers upsert_producers split: option.split result.split\<close>)
qed

lemma unnumbered_run: "list_all (\<lambda>e. \<not> allocates e) ops \<Longrightarrow> unnumbered db \<Longrightarrow> unnumbered (fold run_op ops db)"
  by (induction ops arbitrary: db) (simp_all add: unnumbered_step)

lemma hash_nonnegative: "0 \<le> sint (hash_producer_id i)"
proof -
  have "\<not> bit (hash_producer_id i) 63" by (simp add: hash_producer_id_def bit_and_iff)
  then show ?thesis by (simp add: not_le [symmetric] bit_last_iff [of "hash_producer_id i", simplified])
qed

text \<open>
  No Kafka client can produce idempotently. \<^verbatim>\<open>InitProducerId\<close> hands out a hash of the producer's identifier, which is never negative, but the
  produce handler looks the producer up by a number that only \<^verbatim>\<open>allocate_numeric_producer_id\<close> assigns. In every history in which that operation
  does not occur (nothing in the repository calls it), a batch with a non-negative producer id is refused as from an unknown producer, and
  neither the tables nor the router are touched.
\<close>

theorem idempotent_produce_refused:
  assumes "list_all (\<lambda>e. \<not> allocates e) ops" and "parse_record_batch (ke_decompress env) data = Ok batch"
    and "rbm_producer_id batch = hash_producer_id i" and "\<not> ke_query_fails env"
  shows "process_records env topic n data (fold run_op ops producer_db_empty, r)
    = ((fold run_op ops producer_db_empty, r), Ok (produce_failed n EC_UnknownProducerId))"
proof -
  let ?db = "fold run_op ops producer_db_empty"
  have "unnumbered ?db" by (rule unnumbered_run [OF assms(1)]) (simp add: unnumbered_def producer_db_empty_def)
  then have "get_producer_by_numeric_id m ?db = None" for m
    by (auto simp: get_producer_by_numeric_id_def find_None_iff unnumbered_def)
  then show ?thesis
    using assms(2-4) hash_nonnegative [of i] by (simp add: process_records_def validate_batch_def)
qed

definition no_txn_faults :: txn_env where
  "no_txn_faults = \<lparr>xe_now = 9, xe_new_id = ''N'', xe_lookup_fails = False, xe_begin_fails = False, xe_query_fails = False,
     xe_end_fails = False, xe_add_query_fails = (\<lambda>_. False), xe_add_fails = (\<lambda>_. False), xe_marker_fails = (\<lambda>_. False),
     xe_lso_fails = (\<lambda>_. False)\<rparr>"

definition demo_kafka_env :: "nat kafka_env" where
  "demo_kafka_env = \<lparr>ke_query_fails = False, ke_faults = no_tx_faults, ke_now = 9, ke_timestamp = 9, ke_decompress = (\<lambda>_ b. Ok b),
     ke_route = (\<lambda>_ _ rs r. (r + length rs, Some 0))\<rparr>"

theorem idempotent_produce_refused_witness:
  "process_records demo_kafka_env [] 0 (raw_batch 0 (hash_producer_id ''P'') 0 0 0 []) (fold run_op demo_batches producer_db_empty, 5)
    = ((fold run_op demo_batches producer_db_empty, 5), Ok (produce_failed 0 EC_UnknownProducerId))"
proof -
  have "list_all (\<lambda>e. \<not> allocates e) demo_batches" by (simp add: demo_batches_def)
  moreover have "parse_record_batch (ke_decompress demo_kafka_env) (raw_batch 0 (hash_producer_id ''P'') 0 0 0 [])
      = Ok \<lparr>rbm_producer_id = hash_producer_id ''P'', rbm_producer_epoch = 0, rbm_base_sequence = 0, rbm_records = []\<rparr>"
    by (simp add: parse_raw_batch vec_with_capacity_def)
  ultimately show ?thesis by (rule idempotent_produce_refused [where i = "''P''"]) (simp_all add: demo_kafka_env_def)
qed

section \<open>EndTxn\<close>

lemma active_transaction_new:
  assumes "active_transaction env org_id tid db = (db', Ok t)"
  shows "t_transaction_id t = xe_new_id env \<and> get_transaction (xe_new_id env) db = None
    \<and> db' = db\<lparr>transactions := transactions db @ [(t, Some org_id)]\<rparr>"
  using assms
  by (auto simp: active_transaction_def begin_transaction_for_org_def insert_transaction_def Let_def split: if_splits option.splits)

lemma new_transaction_no_partitions:
  assumes "producer_db_ok db" and "get_transaction i db = None" and "transaction_partitions db' = transaction_partitions db"
  shows "get_transaction_partitions i db' = []"
proof -
  have "i \<notin> set (txn_ids db)" using assms(2) txn_known [of i db] by simp
  then have "filter (\<lambda>tp. tp_transaction_id tp = i) (transaction_partitions db') = []"
    using assms(1,3) by (auto simp: producer_db_ok_def filter_empty_conv)
  then show ?thesis by (simp add: get_transaction_partitions_def)
qed

lemma end_without_partitions:
  assumes "get_transaction_partitions i db = []"
  shows "fst (end_with scope new_state mt verb fails now i db) \<in> insert db (set_option (set_transaction_state scope {Ongoing, Preparing}
    (\<lambda>t. t\<lparr>t_state := new_state, t_updated_at := now, t_completed_at := Some now\<rparr>) i db))"
  using assms by (auto simp: end_with_def split: option.split)

lemma txn_state_append: "get_transaction i db \<noteq> None \<Longrightarrow> txn_state i (db\<lparr>transactions := transactions db @ rs\<rparr>) = txn_state i db"
proof -
  have "find P (xs @ ys) = find P xs" if "find P xs \<noteq> None" for P :: "Transaction \<Rightarrow> bool" and xs ys using that by (induction xs) auto
  then show "get_transaction i db \<noteq> None \<Longrightarrow> ?thesis" by (simp add: txn_state_def get_transaction_def)
qed

text \<open>The outcome of ending the transaction that was just begun: only its own row differs.\<close>

lemma end_new_transaction:
  assumes "get_transaction_partitions i db1 = []"
    and "db2 \<in> {fst (commit_transaction_for_org fails now org i db1), fst (abort_transaction_for_org fails now org i db1)}"
  shows "partition_lso db2 = partition_lso db1 \<and> transaction_markers db2 = transaction_markers db1 \<and> (\<forall>j. j \<noteq> i \<longrightarrow> txn_state j db2 = txn_state j db1)"
proof -
  have step: "partition_lso db2 = partition_lso db1 \<and> transaction_markers db2 = transaction_markers db1 \<and> (\<forall>j. j \<noteq> i \<longrightarrow> txn_state j db2 = txn_state j db1)"
    if "db2 \<in> insert db1 (set_option (set_transaction_state scope from f i db1))" "\<And>t. t_transaction_id (f t) = t_transaction_id t" for scope "from" f
  proof (cases "db2 = db1")
    case False
    then have s: "set_transaction_state scope from f i db1 = Some db2" using that(1) by simp
    then show ?thesis using set_state_other [OF s that(2)] by (auto simp: set_transaction_state_def Let_def split: if_splits)
  qed simp
  from assms(2) consider "db2 = fst (end_with (Some org) Committed Commit ''committed'' fails now i db1)"
    | "db2 = fst (end_with (Some org) Aborted Abort ''aborted'' fails now i db1)"
    by (auto simp: commit_transaction_for_org_def commit_with_def abort_transaction_for_org_def case_prod_beta)
  then show ?thesis
    by cases (rule step, use end_without_partitions [OF assms(1)] in blast, simp)+
qed

text \<open>
  \<^verbatim>\<open>EndTxn\<close> ends nothing. The handler looks for the open transaction of a producer by beginning one, in the belief that an ongoing one is
  returned; the store always begins a new one. So after any history, a request that is answered without error leaves every
  transaction that existed before in the state it had, and writes no marker and no last stable offset: the client's transaction
  stays open, although the client was told that it is committed or aborted.
\<close>

theorem end_txn_ends_nothing:
  assumes "db = fold run_op ops producer_db_empty" and "end_txn env org_id tid committed db = (db', EC_None)"
  shows "(\<forall>i. txn_state i db \<noteq> None \<longrightarrow> txn_state i db' = txn_state i db)
    \<and> partition_lso db' = partition_lso db \<and> transaction_markers db' = transaction_markers db"
proof -
  have ok: "producer_db_ok db" unfolding assms(1) by (rule producer_machine.run_inv) (rule producer_db_ok_empty)
  obtain db1 r where a: "active_transaction env org_id tid db = (db1, r)" by fastforce
  have "EC_UnknownServerError \<noteq> EC_None" and no: "r \<noteq> Err EC_None"
    using a by (auto simp: active_transaction_def split: if_splits option.splits prod.splits result.splits)
  then obtain t where t: "r = Ok t" and q: "\<not> xe_query_fails env"
    using assms(2) a by (cases r) (auto simp: end_txn_def split: if_splits)
  let ?i = "t_transaction_id t"
  from active_transaction_new [OF a [unfolded t]] have new: "get_transaction ?i db = None"
    and db1: "db1 = db\<lparr>transactions := transactions db @ [(t, Some org_id)]\<rparr>" by simp_all
  have none: "get_transaction_partitions ?i db1 = []" by (rule new_transaction_no_partitions [OF ok new]) (simp add: db1)
  have none': "get_transaction_partitions_for_org org_id ?i db1 = []" by (simp add: get_transaction_partitions_for_org_def none)
  have "db' \<in> {fst (commit_transaction_for_org (xe_end_fails env) (xe_now env) org_id ?i db1),
      fst (abort_transaction_for_org (xe_end_fails env) (xe_now env) org_id ?i db1)}"
    using assms(2) a t q none' by (auto simp: end_txn_def Let_def case_prod_beta split: if_splits result.splits)
  from end_new_transaction [OF none this] have e: "partition_lso db' = partition_lso db1" "transaction_markers db' = transaction_markers db1"
    "\<forall>j. j \<noteq> ?i \<longrightarrow> txn_state j db' = txn_state j db1" by simp_all
  have "txn_state i db' = txn_state i db" if "txn_state i db \<noteq> None" for i
  proof -
    have "get_transaction i db \<noteq> None" using that by (simp add: txn_state_def)
    moreover from this new have "i \<noteq> ?i" by auto
    ultimately show ?thesis using e(3) txn_state_append [of i db] by (simp add: db1)
  qed
  then show ?thesis using e(1,2) by (simp add: db1)
qed

theorem end_txn_ends_nothing_witness:
  "\<exists>db'. end_txn no_txn_faults ''org'' [0x74, 0x78] True (fold run_op demo_txns producer_db_empty) = (db', EC_None)
     \<and> txn_state ''T'' db' = Some Ongoing \<and> partition_lso db' = partition_lso (fold run_op demo_txns producer_db_empty)"
proof -
  let ?db = "fold run_op demo_txns producer_db_empty"
  have "string_of_bytes [0x74, 0x78] = ''tx''" by (simp add: string_of_bytes_def char_of_def bit_0)
  then obtain db' where e: "end_txn no_txn_faults ''org'' [0x74, 0x78] True ?db = (db', EC_None)"
    by (simp add: end_txn_def active_transaction_def no_txn_faults_def producer_eval begin_transaction_for_org_def
        get_transaction_partitions_for_org_def get_transaction_for_org_def commit_transaction_for_org_def)
  moreover have "txn_state ''T'' ?db = Some Ongoing" by (simp add: producer_eval)
  ultimately show ?thesis using end_txn_ends_nothing [OF refl e] by auto
qed

section \<open>Fetch\<close>

text \<open>The records a read returns have consecutive offsets from \<open>base\<close> on, within 64 bits.\<close>

definition consecutive :: "u64 \<Rightarrow> Record list \<Rightarrow> bool" where
  "consecutive base rs \<longleftrightarrow> map rec_offset rs = map (\<lambda>i. base + of_nat i) [0..<length rs] \<and> unat base + length rs \<le> 2 ^ 64"

lemma last_offset_in_built:
  assumes "rs \<noteq> []" and "length rs < 2 ^ 31"
  shows "last_offset_in_batch (build_record_batch_from_records crc32c base ts rs) = base + of_nat (length rs - 1)"
proof -
  have n: "sint (of_nat (length rs - 1) :: i32) = int (length rs - 1)" using assms(2) by (intro sint_of_nat_small(2)) simp
  have "scast (of_nat (length rs - 1) :: i32) = (of_nat (length rs - 1) :: u64)" by (simp only: scast_eq n of_int_of_nat_eq)
  then show ?thesis
    using assms(1)
    by (simp add: last_offset_in_batch_def build_record_batch_from_records_def batch_body_def Let_def be_val_full)
qed

lemma built_length: "rs \<noteq> [] \<Longrightarrow> 27 \<le> length (build_record_batch_from_records crc32c base ts rs)"
  by (simp add: build_record_batch_from_records_def batch_body_def Let_def)

lemma consecutive_below:
  assumes "consecutive base rs" and "r \<in> set rs" and "base + of_nat (length rs - 1) < m"
  shows "rec_offset r < m"
proof -
  obtain i where i: "i < length rs" "r = rs ! i" using assms(2) by (auto simp: in_set_conv_nth)
  have "rec_offset r = map rec_offset rs ! i" using i by simp
  also have "\<dots> = base + of_nat i" using assms(1) i(1) by (simp add: consecutive_def)
  finally have off: "rec_offset r = base + of_nat i" .
  have b: "unat base + length rs \<le> 2 ^ 64" using assms(1) by (simp add: consecutive_def)
  have u: "unat (base + of_nat k) = unat base + k" if "k < length rs" for k
    using b that by (simp add: unat_word_ariths(1) unat_of_nat)
  have "unat base + i \<le> unat base + (length rs - 1)" using i(1) by simp
  also have "\<dots> < unat m" using assms(3) i(1) u [of "length rs - 1"] by (simp add: word_less_nat_alt)
  finally show ?thesis using u [OF i(1)] by (simp add: off word_less_nat_alt)
qed


definition demo_fetch_env :: fetch_env where
  "demo_fetch_env = \<lparr>fe_partition = Ok (Some 10), fe_lso_fails = False, fe_topic_known = True,
     fe_read = (\<lambda>_ _. Ok [Record_new 5 1 None [1], Record_new 6 2 None [2]]), fe_crc32c = (\<lambda>_. 0)\<rparr>"

lemma demo_fetch_consecutive: "consecutive 5 [Record_new 5 1 None [1], Record_new 6 2 None [2]]"
  by (simp add: consecutive_def Record_new_def)


text \<open>
  Aborted records are delivered. Aborting a transaction moves the last stable offset past its records, and a response never carries the
  list of aborted transactions that a client would need to filter them. So after an abort, a read-committed fetch of records that the
  aborted transaction wrote returns them: if the read yields records up to at most the last offset of the transaction in the partition, the
  response carries the whole batch.
\<close>

theorem aborted_records_are_delivered:
  assumes "db = fold run_op ops producer_db_empty" and "abort_transaction False now i db = (db', Ok ())"
    and "tp \<in> set (get_transaction_partitions i db)" and "string_of_bytes topic = tp_topic tp"
    and "get_last_stable_offset (tp_topic tp) (tp_partition_id tp) db' < 2 ^ 64"
    and "fe_partition env = Ok (Some w)" and "\<not> fe_lso_fails env" and "fe_topic_known env"
    and "fe_read env off (min (max (max_bytes div 100) 1) 10000) = Ok rs" and "rs \<noteq> []" and "length rs < 2 ^ 31"
    and "unat off \<le> tp_last_offset tp" and "unat (rec_offset (hd rs)) + (length rs - 1) \<le> tp_last_offset tp"
  shows "fpr_records (fetch_partition env topic (tp_partition_id tp) off max_bytes 1 db')
    = Some (build_record_batch_from_records (fe_crc32c env) (rec_offset (hd rs)) (rec_timestamp (hd rs)) rs)"
proof -
  have ok: "producer_db_ok db" unfolding assms(1) by (rule producer_machine.run_inv) (rule producer_db_ok_empty)
  let ?lso = "get_last_stable_offset (tp_topic tp) (tp_partition_id tp) db'"
  have "tp_last_offset tp < ?lso"
  proof (rule end_with_cases [OF ok, of Aborted None Abort "''aborted''" False now i])
    fix db1 assume "end_with None Aborted Abort ''aborted'' False now i db = (fold (write_marker now Abort i) (get_transaction_partitions i db) db1, Ok ())"
    then have "db' = fold (write_marker now Abort i) (get_transaction_partitions i db) db1" using assms(2) by (simp add: abort_transaction_def)
    then show ?thesis using lso_writes [OF assms(3), of now Abort i db1] by (simp add: lso_def)
  qed (use assms(2) in \<open>simp_all add: abort_transaction_def\<close>)
  moreover have u: "unat (of_nat ?lso :: u64) = ?lso" using assms(5) by (simp add: unat_of_nat)
  moreover have "unat (rec_offset (hd rs) + of_nat (length rs - 1)) = unat (rec_offset (hd rs)) + (length rs - 1)"
    using assms(5,13) \<open>tp_last_offset tp < ?lso\<close> by (simp add: unat_word_ariths(1) unat_of_nat)
  ultimately have below: "\<not> of_nat ?lso \<le> off" "\<not> of_nat ?lso \<le> rec_offset (hd rs) + of_nat (length rs - 1)"
    using assms(12,13) by (simp_all add: word_le_nat_alt)
  have "read_records env off max_bytes = build_record_batch_from_records (fe_crc32c env) (rec_offset (hd rs)) (rec_timestamp (hd rs)) rs"
    using assms(8-10) by (cases rs) (simp_all add: read_records_def)
  then show ?thesis
    using assms(4,6,7) below by (simp add: fetch_partition_def Let_def below_lso_def last_offset_in_built [OF assms(10,11)])
qed

definition orders_bytes :: bytes where "orders_bytes = [0x6F, 0x72, 0x64, 0x65, 0x72, 0x73]"

theorem aborted_records_are_delivered_witness:
  "\<exists>db'. abort_transaction False 3 ''U'' (fold run_op demo_txns producer_db_empty) = (db', Ok ())
     \<and> fpr_records (fetch_partition demo_fetch_env orders_bytes 0 5 1000 1 db')
       = Some (build_record_batch_from_records (\<lambda>_. 0) 5 1 [Record_new 5 1 None [1], Record_new 6 2 None [2]])"
proof -
  let ?db = "fold run_op demo_txns producer_db_empty"
  let ?U = "\<lparr>tp_transaction_id = ''U'', tp_topic = ''orders'', tp_partition_id = 0, tp_first_offset = 7, tp_last_offset = 9\<rparr>"
  let ?rs = "[Record_new 5 1 None [1], Record_new 6 2 None [2]]"
  obtain db' where a: "abort_transaction False 3 ''U'' ?db = (db', Ok ())" and l: "get_last_stable_offset ''orders'' 0 db' = 10"
    by (simp add: producer_eval abort_transaction_def)
  have U: "?U \<in> set (get_transaction_partitions ''U'' ?db)" by (simp add: producer_eval)
  have "string_of_bytes orders_bytes = ''orders''" by (simp add: orders_bytes_def string_of_bytes_def char_of_def bit_0)
  with aborted_records_are_delivered [OF refl a U, of orders_bytes demo_fetch_env 10 5 1000 ?rs] l a show ?thesis
    by (simp add: demo_fetch_env_def Record_new_def)
qed

fun moves_lso :: "producer_op \<Rightarrow> bool" where
  "moves_lso (CommitTxn scope fails now i) = True"
| "moves_lso (AbortTxn scope fails now i) = True"
| "moves_lso (UpdateLso fails t n l) = True"
| "moves_lso _ = False"

lemma set_state_lso: "set_transaction_state scope from f i db = Some db' \<Longrightarrow> partition_lso db' = partition_lso db"
  by (auto simp: set_transaction_state_def Let_def split: if_splits)

lemma upsert_lso: "upsert_sequence now k s db = Ok db' \<Longrightarrow> partition_lso db' = partition_lso db"
  by (auto simp: upsert_sequence_def split: if_splits)

lemma lso_step: "\<not> moves_lso e \<Longrightarrow> partition_lso (run_op e db) = partition_lso db"
  by (cases e) (auto simp: producer_op_defs init_producer_def update_producers_def delete_producers_def delete_transactions_def
      check_and_update_sequence_def insert_transaction_def add_transaction_partition_def update_transaction_partition_offset_def
      prepare_with_def Let_def dest: set_state_lso upsert_lso split: option.split result.split)

lemma lso_run: "list_all (\<lambda>e. \<not> moves_lso e) ops \<Longrightarrow> partition_lso (fold run_op ops db) = partition_lso db"
  by (induction ops arbitrary: db) (simp_all add: lso_step)

text \<open>
  Without transactions a read-committed consumer starves. The last stable offset of a partition has a row only after a transaction in that
  partition has ended, and a missing row counts as zero. In every history in which no transaction is committed or aborted and the offset is
  not set directly, every fetch at isolation level 1 returns no records, whatever offset it asks for and however far the partition has grown.
\<close>

theorem read_committed_starves:
  assumes "list_all (\<lambda>e. \<not> moves_lso e) ops" and "fe_partition env = Ok (Some w)" and "\<not> fe_lso_fails env"
  shows "fetch_partition env topic n off max_bytes 1 (fold run_op ops producer_db_empty)
    = \<lparr>fpr_partition_index = n, fpr_error_code = EC_None, fpr_high_watermark = w, fpr_last_stable_offset = 0, fpr_log_start_offset = 0,
       fpr_records = None\<rparr>"
  using assms lso_run [OF assms(1), of producer_db_empty]
  by (simp add: fetch_partition_def Let_def get_last_stable_offset_def producer_db_empty_def)

theorem read_committed_starves_witness:
  "fpr_records (fetch_partition demo_fetch_env [] 0 0 1000 1 (fold run_op demo_batches producer_db_empty)) = None"
  using read_committed_starves [of demo_batches demo_fetch_env 10 "[]" 0 0 1000] by (simp add: demo_batches_def demo_fetch_env_def)

end
