(* ===== verification/Topic_Store.thy ===== *)
theory Topic_Store
  imports Metadata_Types "HOL-Library.Char_ord" "HOL-Library.List_Lexorder" "HOL-Library.Product_Lexorder"
begin

text \<open>
  Organizations, topics, partitions, segments and consumer offsets of the SQLite metadata store, \<^verbatim>\<open>streamhouse-metadata/src/store.rs\<close> with
  the types of \<^verbatim>\<open>types.rs\<close>. Each table is a list of rows in insertion order; the constraints are those of the migrated schema: topics,
  partitions and consumer groups are keyed by organization, a segment by its \<^verbatim>\<open>id\<close> alone, and an offset row is unique by group, topic and
  partition. Partitions refer to their topic and offsets to their group, with \<^verbatim>\<open>ON DELETE CASCADE\<close>; segments and offsets do not refer to
  partitions. An offset is stored as an \<^verbatim>\<open>i64\<close>, so the statements compare it signed. A failing statement is an argument; a database
  transaction that fails leaves the tables as they were. Columns that are never read (update times) are left out, and a topic's
  configuration, stored as JSON, is the map itself.
\<close>

section \<open>Types\<close>

datatype CleanupPolicy = DeletePolicy | Compact | CompactAndDelete

definition to_lowercase :: "string \<Rightarrow> string" where
  "to_lowercase = map (\<lambda>ch. if of_char ch \<in> {65..90::nat} then char_of (of_char ch + 32 :: nat) else ch)"

definition CleanupPolicy_from_str :: "string \<Rightarrow> CleanupPolicy" where
  "CleanupPolicy_from_str s =
     (let l = to_lowercase s in
      if l = ''compact'' then Compact else if l = ''compact,delete'' \<or> l = ''delete,compact'' then CompactAndDelete else DeletePolicy)"

definition CleanupPolicy_as_str :: "CleanupPolicy \<Rightarrow> string" where
  "CleanupPolicy_as_str p = (case p of DeletePolicy \<Rightarrow> ''delete'' | Compact \<Rightarrow> ''compact'' | CompactAndDelete \<Rightarrow> ''compact,delete'')"

record TopicConfig =
  tc_name :: string
  tc_partition_count :: u32
  tc_retention_ms :: "int option"
  tc_cleanup_policy :: CleanupPolicy
  tc_config :: "string \<rightharpoonup> string"

record Topic =
  to_name :: string
  to_partition_count :: u32
  to_retention_ms :: "int option"
  to_cleanup_policy :: CleanupPolicy
  to_created_at :: int
  to_config :: "string \<rightharpoonup> string"

record Partition =
  pt_topic :: string
  pt_partition_id :: u32
  pt_high_watermark :: u64

record ConsumerOffset =
  co_group_id :: string
  co_topic :: string
  co_partition_id :: u32
  co_committed_offset :: u64
  co_metadata :: "string option"

text \<open>The rows of the tables that carry an organization are pairs with it; a topic row is a topic whose configuration holds its policy.\<close>

record organization_row =
  or_id :: string
  or_name :: string
  or_slug :: string

record topic_row =
  tr_name :: string
  tr_partition_count :: u32
  tr_retention_ms :: "int option"
  tr_created_at :: int
  tr_config :: "string \<rightharpoonup> string"

record topic_db =
  td_organizations :: "organization_row list"
  td_topics :: "(string \<times> topic_row) list"
  td_partitions :: "(string \<times> Partition) list"
  td_segments :: "(string \<times> SegmentMeta) list"
  td_groups :: "(string \<times> string) list"
  td_offsets :: "(string \<times> ConsumerOffset) list"

definition topic_db_empty :: topic_db where
  "topic_db_empty = \<lparr>td_organizations = [], td_topics = [], td_partitions = [], td_segments = [], td_groups = [], td_offsets = []\<rparr>"

text \<open>The organization column's default, whose row the last migration removes.\<close>

definition default_org :: string where "default_org = ''00000000-0000-0000-0000-000000000000''"

section \<open>Organizations and topics\<close>

definition organization_ids :: "topic_db \<Rightarrow> string list" where
  "organization_ids db = map or_id (td_organizations db)"

definition ensure_organization :: "bool \<Rightarrow> string \<Rightarrow> string \<Rightarrow> topic_db \<Rightarrow> topic_db \<times> (metadata_error, unit) result" where
  "ensure_organization fails org_id name db =
     (let slug = map (\<lambda>ch. if ch = CHR '' '' then CHR ''-'' else ch) (to_lowercase name) in
      if fails then (db, Err DatabaseError)
      else if \<exists>r \<in> set (td_organizations db). or_id r = org_id \<or> or_slug r = slug then (db, Ok ())
      else (db\<lparr>td_organizations := td_organizations db @ [\<lparr>or_id = org_id, or_name = name, or_slug = slug\<rparr>]\<rparr>, Ok ()))"

definition list_organizations :: "topic_db \<Rightarrow> organization_row list" where
  "list_organizations db = sort_key or_name (td_organizations db)"

definition row_to_topic :: "topic_row \<Rightarrow> Topic" where
  "row_to_topic r = \<lparr>to_name = tr_name r, to_partition_count = tr_partition_count r, to_retention_ms = tr_retention_ms r,
     to_cleanup_policy = (case tr_config r ''cleanup.policy'' of None \<Rightarrow> DeletePolicy | Some s \<Rightarrow> CleanupPolicy_from_str s),
     to_created_at = tr_created_at r, to_config = tr_config r\<rparr>"

text \<open>The insertion that \<^verbatim>\<open>create_topic\<close> and \<^verbatim>\<open>create_topic_for_org\<close> share; the schema checks the count, then the key, then the organization.\<close>

definition insert_topic :: "bool \<Rightarrow> int \<Rightarrow> string \<Rightarrow> TopicConfig \<Rightarrow> topic_db \<Rightarrow> topic_db \<times> (metadata_error, unit) result" where
  "insert_topic fails now org_id config db =
     (if fails \<or> tc_partition_count config = 0 then (db, Err DatabaseError)
      else if \<exists>(org, t) \<in> set (td_topics db). org = org_id \<and> tr_name t = tc_name config then (db, Err (TopicAlreadyExists (tc_name config)))
      else if org_id \<notin> set (organization_ids db) then (db, Err DatabaseError)
      else (db\<lparr>td_topics := td_topics db @ [(org_id, \<lparr>tr_name = tc_name config, tr_partition_count = tc_partition_count config,
                 tr_retention_ms = tc_retention_ms config, tr_created_at = now,
                 tr_config = (tc_config config)(''cleanup.policy'' \<mapsto> CleanupPolicy_as_str (tc_cleanup_policy config))\<rparr>)],
               td_partitions := td_partitions db @ map (\<lambda>i. (org_id, \<lparr>pt_topic = tc_name config, pt_partition_id = of_nat i, pt_high_watermark = 0\<rparr>))
                 [0..<unat (tc_partition_count config)]\<rparr>, Ok ()))"

definition create_topic :: "bool \<Rightarrow> int \<Rightarrow> TopicConfig \<Rightarrow> topic_db \<Rightarrow> topic_db \<times> (metadata_error, unit) result" where
  "create_topic fails now = insert_topic fails now default_org"

definition create_topic_for_org :: "bool \<Rightarrow> int \<Rightarrow> string \<Rightarrow> TopicConfig \<Rightarrow> topic_db \<Rightarrow> topic_db \<times> (metadata_error, unit) result" where
  "create_topic_for_org = insert_topic"

text \<open>Deleting topics deletes their partitions, and nothing else.\<close>

definition delete_topics :: "bool \<Rightarrow> (string \<Rightarrow> bool) \<Rightarrow> string \<Rightarrow> topic_db \<Rightarrow> topic_db \<times> (metadata_error, unit) result" where
  "delete_topics fails scope name db =
     (if fails then (db, Err DatabaseError)
      else if \<not> (\<exists>(org, t) \<in> set (td_topics db). scope org \<and> tr_name t = name) then (db, Err (TopicNotFound name))
      else (db\<lparr>td_topics := filter (\<lambda>(org, t). \<not> (scope org \<and> tr_name t = name)) (td_topics db),
               td_partitions := filter (\<lambda>(org, p). \<not> (scope org \<and> pt_topic p = name)) (td_partitions db)\<rparr>, Ok ()))"

definition delete_topic :: "bool \<Rightarrow> string \<Rightarrow> topic_db \<Rightarrow> topic_db \<times> (metadata_error, unit) result" where
  "delete_topic fails = delete_topics fails (\<lambda>_. True)"

definition delete_topic_for_org :: "bool \<Rightarrow> string \<Rightarrow> string \<Rightarrow> topic_db \<Rightarrow> topic_db \<times> (metadata_error, unit) result" where
  "delete_topic_for_org fails org_id = delete_topics fails (\<lambda>org. org = org_id)"

definition get_topic :: "string \<Rightarrow> topic_db \<Rightarrow> Topic option" where
  "get_topic name db = map_option (row_to_topic \<circ> snd) (find (\<lambda>(_, t). tr_name t = name) (td_topics db))"

definition get_topic_organization_id :: "string \<Rightarrow> topic_db \<Rightarrow> string option" where
  "get_topic_organization_id name db = map_option fst (find (\<lambda>(_, t). tr_name t = name) (td_topics db))"

definition get_topic_for_org :: "string \<Rightarrow> string \<Rightarrow> topic_db \<Rightarrow> Topic option" where
  "get_topic_for_org org_id name db = map_option (row_to_topic \<circ> snd) (find (\<lambda>(org, t). org = org_id \<and> tr_name t = name) (td_topics db))"

definition list_topics :: "topic_db \<Rightarrow> Topic list" where
  "list_topics db = sort_key to_name (map (row_to_topic \<circ> snd) (td_topics db))"

definition list_topics_for_org :: "string \<Rightarrow> topic_db \<Rightarrow> Topic list" where
  "list_topics_for_org org_id db = sort_key to_name (map (row_to_topic \<circ> snd) (filter (\<lambda>(org, _). org = org_id) (td_topics db)))"

section \<open>Partitions\<close>

definition at_partition :: "string \<Rightarrow> string \<Rightarrow> u32 \<Rightarrow> string \<times> Partition \<Rightarrow> bool" where
  "at_partition org_id topic partition_id = (\<lambda>(org, p). org = org_id \<and> pt_topic p = topic \<and> pt_partition_id p = partition_id)"

definition get_partition :: "string \<Rightarrow> string \<Rightarrow> u32 \<Rightarrow> topic_db \<Rightarrow> Partition option" where
  "get_partition org_id topic partition_id db = map_option snd (find (at_partition org_id topic partition_id) (td_partitions db))"

definition list_partitions :: "string \<Rightarrow> string \<Rightarrow> topic_db \<Rightarrow> Partition list" where
  "list_partitions org_id topic db =
     sort_key pt_partition_id (map snd (filter (\<lambda>(org, p). org = org_id \<and> pt_topic p = topic) (td_partitions db)))"

definition set_watermark :: "string \<Rightarrow> string \<Rightarrow> u32 \<Rightarrow> u64 \<Rightarrow> topic_db \<Rightarrow> topic_db" where
  "set_watermark org_id topic partition_id offset db =
     db\<lparr>td_partitions := map (\<lambda>r. if at_partition org_id topic partition_id r then (fst r, (snd r)\<lparr>pt_high_watermark := offset\<rparr>) else r)
       (td_partitions db)\<rparr>"

definition update_high_watermark ::
  "bool \<Rightarrow> string \<Rightarrow> string \<Rightarrow> u32 \<Rightarrow> u64 \<Rightarrow> topic_db \<Rightarrow> topic_db \<times> (metadata_error, unit) result" where
  "update_high_watermark fails org_id topic partition_id offset db =
     (if fails then (db, Err DatabaseError)
      else if \<not> (\<exists>r \<in> set (td_partitions db). at_partition org_id topic partition_id r) then (db, Err (PartitionNotFound topic partition_id))
      else (set_watermark org_id topic partition_id offset db, Ok ()))"

section \<open>Segments\<close>

definition insert_segment :: "string \<Rightarrow> SegmentMeta \<Rightarrow> topic_db \<Rightarrow> topic_db option" where
  "insert_segment org_id segment db =
     (if sint (sm_end_offset segment) < sint (sm_base_offset segment) \<or> sm_id segment \<in> (sm_id \<circ> snd) ` set (td_segments db)
         \<or> org_id \<notin> set (organization_ids db)
      then None else Some (db\<lparr>td_segments := td_segments db @ [(org_id, segment)]\<rparr>))"

definition add_segment :: "bool \<Rightarrow> string \<Rightarrow> SegmentMeta \<Rightarrow> topic_db \<Rightarrow> topic_db \<times> (metadata_error, unit) result" where
  "add_segment fails org_id segment db =
     (case (if fails then None else insert_segment org_id segment db) of None \<Rightarrow> (db, Err DatabaseError) | Some db' \<Rightarrow> (db', Ok ()))"

definition add_segment_and_update_watermark ::
  "bool \<Rightarrow> string \<Rightarrow> SegmentMeta \<Rightarrow> u64 \<Rightarrow> topic_db \<Rightarrow> topic_db \<times> (metadata_error, unit) result" where
  "add_segment_and_update_watermark fails org_id segment high_watermark db =
     (case (if fails then None else insert_segment org_id segment db) of
        None \<Rightarrow> (db, Err DatabaseError)
      | Some db' \<Rightarrow> (set_watermark org_id (sm_topic segment) (sm_partition_id segment) high_watermark db', Ok ()))"

definition in_partition :: "string \<Rightarrow> u32 \<Rightarrow> SegmentMeta \<Rightarrow> bool" where
  "in_partition topic partition_id s \<longleftrightarrow> sm_topic s = topic \<and> sm_partition_id s = partition_id"

definition get_segments :: "string \<Rightarrow> string \<Rightarrow> u32 \<Rightarrow> topic_db \<Rightarrow> SegmentMeta list" where
  "get_segments org_id topic partition_id db =
     sort_key (sint \<circ> sm_base_offset) (map snd (filter (\<lambda>(org, s). org = org_id \<and> in_partition topic partition_id s) (td_segments db)))"

text \<open>Not scoped by organization; of several covering segments the one with the highest base offset.\<close>

definition store_find_segment_for_offset :: "string \<Rightarrow> u32 \<Rightarrow> u64 \<Rightarrow> topic_db \<Rightarrow> SegmentMeta option" where
  "store_find_segment_for_offset topic partition_id offset db =
     (case sort_key (\<lambda>s. - sint (sm_base_offset s)) (filter (\<lambda>s. in_partition topic partition_id s
             \<and> sint (sm_base_offset s) \<le> sint offset \<and> sint offset \<le> sint (sm_end_offset s)) (map snd (td_segments db))) of
        [] \<Rightarrow> None | s # _ \<Rightarrow> Some s)"

definition delete_segments_before :: "bool \<Rightarrow> string \<Rightarrow> string \<Rightarrow> u32 \<Rightarrow> u64 \<Rightarrow> topic_db \<Rightarrow> topic_db \<times> (metadata_error, nat) result" where
  "delete_segments_before fails org_id topic partition_id before_offset db =
     (let P = (\<lambda>(org, s). org = org_id \<and> in_partition topic partition_id s \<and> sint (sm_end_offset s) < sint before_offset) in
      if fails then (db, Err DatabaseError)
      else (db\<lparr>td_segments := filter (Not \<circ> P) (td_segments db)\<rparr>, Ok (length (filter P (td_segments db)))))"

section \<open>Consumer offsets\<close>

definition insert_group :: "string \<Rightarrow> string \<Rightarrow> topic_db \<Rightarrow> topic_db option" where
  "insert_group org_id group_id db =
     (if (org_id, group_id) \<in> set (td_groups db) then Some db
      else if org_id \<notin> set (organization_ids db) then None
      else Some (db\<lparr>td_groups := td_groups db @ [(org_id, group_id)]\<rparr>))"

definition ensure_consumer_group_for_org :: "bool \<Rightarrow> string \<Rightarrow> string \<Rightarrow> topic_db \<Rightarrow> topic_db \<times> (metadata_error, unit) result" where
  "ensure_consumer_group_for_org fails org_id group_id db =
     (case (if fails then None else insert_group org_id group_id db) of None \<Rightarrow> (db, Err DatabaseError) | Some db' \<Rightarrow> (db', Ok ()))"

definition ensure_consumer_group :: "bool \<Rightarrow> string \<Rightarrow> topic_db \<Rightarrow> topic_db \<times> (metadata_error, unit) result" where
  "ensure_consumer_group fails = ensure_consumer_group_for_org fails default_org"

definition same_offset :: "string \<Rightarrow> string \<Rightarrow> u32 \<Rightarrow> string \<times> ConsumerOffset \<Rightarrow> bool" where
  "same_offset group_id topic partition_id = (\<lambda>(_, c). co_group_id c = group_id \<and> co_topic c = topic \<and> co_partition_id c = partition_id)"

text \<open>\<^verbatim>\<open>ON CONFLICT(group_id, topic, partition_id) DO UPDATE\<close>: an existing row keeps its organization.\<close>

definition upsert_offset :: "string \<Rightarrow> ConsumerOffset \<Rightarrow> topic_db \<Rightarrow> topic_db" where
  "upsert_offset org_id c db =
     (let P = same_offset (co_group_id c) (co_topic c) (co_partition_id c) in
      db\<lparr>td_offsets := (if \<exists>r \<in> set (td_offsets db). P r
         then map (\<lambda>r. if P r then (fst r, (snd r)\<lparr>co_committed_offset := co_committed_offset c, co_metadata := co_metadata c\<rparr>) else r) (td_offsets db)
         else td_offsets db @ [(org_id, c)])\<rparr>)"

definition commit_offset_for_org ::
  "bool \<Rightarrow> bool \<Rightarrow> string \<Rightarrow> string \<Rightarrow> string \<Rightarrow> u32 \<Rightarrow> u64 \<Rightarrow> string option \<Rightarrow> topic_db \<Rightarrow> topic_db \<times> (metadata_error, unit) result" where
  "commit_offset_for_org group_fails fails org_id group_id topic partition_id offset metadata db =
     (case ensure_consumer_group_for_org group_fails org_id group_id db of
        (db', Err e) \<Rightarrow> (db', Err e)
      | (db', Panic) \<Rightarrow> (db', Panic)
      | (db', Ok _) \<Rightarrow>
          if fails then (db', Err DatabaseError)
          else (upsert_offset org_id \<lparr>co_group_id = group_id, co_topic = topic, co_partition_id = partition_id,
                  co_committed_offset = offset, co_metadata = metadata\<rparr> db', Ok ()))"

definition commit_offset ::
  "bool \<Rightarrow> bool \<Rightarrow> string \<Rightarrow> string \<Rightarrow> u32 \<Rightarrow> u64 \<Rightarrow> string option \<Rightarrow> topic_db \<Rightarrow> topic_db \<times> (metadata_error, unit) result" where
  "commit_offset group_fails fails = commit_offset_for_org group_fails fails default_org"

definition get_committed_offset :: "string \<Rightarrow> string \<Rightarrow> u32 \<Rightarrow> topic_db \<Rightarrow> u64 option" where
  "get_committed_offset group_id topic partition_id db =
     map_option (co_committed_offset \<circ> snd) (find (same_offset group_id topic partition_id) (td_offsets db))"

definition get_committed_offset_for_org :: "string \<Rightarrow> string \<Rightarrow> string \<Rightarrow> u32 \<Rightarrow> topic_db \<Rightarrow> u64 option" where
  "get_committed_offset_for_org org_id group_id topic partition_id db =
     map_option (co_committed_offset \<circ> snd) (find (\<lambda>r. fst r = org_id \<and> same_offset group_id topic partition_id r) (td_offsets db))"

definition offsets_where :: "(string \<times> ConsumerOffset \<Rightarrow> bool) \<Rightarrow> topic_db \<Rightarrow> ConsumerOffset list" where
  "offsets_where P db = sort_key (\<lambda>c. (co_topic c, co_partition_id c)) (map snd (filter P (td_offsets db)))"

definition get_consumer_offsets :: "string \<Rightarrow> topic_db \<Rightarrow> ConsumerOffset list" where
  "get_consumer_offsets group_id = offsets_where (\<lambda>(_, c). co_group_id c = group_id)"

definition get_consumer_offsets_for_org :: "string \<Rightarrow> string \<Rightarrow> topic_db \<Rightarrow> ConsumerOffset list" where
  "get_consumer_offsets_for_org org_id group_id = offsets_where (\<lambda>(org, c). org = org_id \<and> co_group_id c = group_id)"

definition list_consumer_groups :: "topic_db \<Rightarrow> string list" where
  "list_consumer_groups db = sort (remdups (map (co_group_id \<circ> snd) (td_offsets db)))"

definition list_consumer_groups_for_org :: "string \<Rightarrow> topic_db \<Rightarrow> string list" where
  "list_consumer_groups_for_org org_id db = sort (remdups (map (co_group_id \<circ> snd) (filter (\<lambda>(org, _). org = org_id) (td_offsets db))))"

text \<open>Deleting groups deletes the offsets that refer to them.\<close>

definition delete_groups :: "bool \<Rightarrow> (string \<Rightarrow> bool) \<Rightarrow> string \<Rightarrow> topic_db \<Rightarrow> topic_db \<times> (metadata_error, unit) result" where
  "delete_groups fails scope group_id db =
     (if fails then (db, Err DatabaseError)
      else (db\<lparr>td_groups := filter (\<lambda>(org, g). \<not> (scope org \<and> g = group_id)) (td_groups db),
               td_offsets := filter (\<lambda>(org, c). \<not> (scope org \<and> co_group_id c = group_id)) (td_offsets db)\<rparr>, Ok ()))"

definition delete_consumer_group :: "bool \<Rightarrow> string \<Rightarrow> topic_db \<Rightarrow> topic_db \<times> (metadata_error, unit) result" where
  "delete_consumer_group fails = delete_groups fails (\<lambda>_. True)"

definition delete_consumer_group_for_org :: "bool \<Rightarrow> string \<Rightarrow> string \<Rightarrow> topic_db \<Rightarrow> topic_db \<times> (metadata_error, unit) result" where
  "delete_consumer_group_for_org fails org_id = delete_groups fails (\<lambda>org. org = org_id)"

end
