(* ===== verification/Topic_Properties.thy ===== *)
theory Topic_Properties
  imports Topic_Store Partition_Writer
begin

text \<open>
  Theorems on the topic, segment and offset tables. \<open>topic_op\<close> lists the operations that change them, \<open>run_topic_op\<close> applies one, and a
  history is a fold. The invariant \<open>topic_db_ok\<close> is split by table: \<open>topics_ok\<close>, \<open>segments_ok\<close> and \<open>offsets_ok\<close>.
\<close>

section \<open>Histories\<close>

datatype topic_op =
    EnsureOrganization bool string string
  | CreateTopic bool int string TopicConfig
  | DeleteTopics bool "string option" string
  | UpdateWatermark bool string string u32 u64
  | AddSegment bool string SegmentMeta
  | AddSegmentWatermark bool string SegmentMeta u64
  | DeleteSegments bool string string u32 u64
  | EnsureGroup bool string string
  | CommitOffset bool bool string string string u32 u64 "string option"
  | DeleteGroups bool "string option" string

definition scope_of :: "string option \<Rightarrow> string \<Rightarrow> bool" where
  "scope_of s org \<longleftrightarrow> s = None \<or> s = Some org"

fun run_topic_op :: "topic_op \<Rightarrow> topic_db \<Rightarrow> topic_db" where
  "run_topic_op (EnsureOrganization fails o_id name) db = fst (ensure_organization fails o_id name db)"
| "run_topic_op (CreateTopic fails now org config) db = fst (create_topic_for_org fails now org config db)"
| "run_topic_op (DeleteTopics fails s name) db = fst (delete_topics fails (scope_of s) name db)"
| "run_topic_op (UpdateWatermark fails org t n w) db = fst (update_high_watermark fails org t n w db)"
| "run_topic_op (AddSegment fails org s) db = fst (add_segment fails org s db)"
| "run_topic_op (AddSegmentWatermark fails org s w) db = fst (add_segment_and_update_watermark fails org s w db)"
| "run_topic_op (DeleteSegments fails org t n w) db = fst (delete_segments_before fails org t n w db)"
| "run_topic_op (EnsureGroup fails org g) db = fst (ensure_consumer_group_for_org fails org g db)"
| "run_topic_op (CommitOffset gf fails org g t n off m) db = fst (commit_offset_for_org gf fails org g t n off m db)"
| "run_topic_op (DeleteGroups fails s g) db = fst (delete_groups fails (scope_of s) g db)"

section \<open>Referential integrity\<close>

definition parts_of :: "string \<Rightarrow> string \<Rightarrow> (string \<times> Partition) list \<Rightarrow> Partition list" where
  "parts_of org topic ps = map snd (filter (\<lambda>(o', p). o' = org \<and> pt_topic p = topic) ps)"

definition topics_ok :: "string list \<Rightarrow> (string \<times> topic_row) list \<Rightarrow> (string \<times> Partition) list \<Rightarrow> bool" where
  "topics_ok orgs ts ps \<longleftrightarrow>
     distinct (map (\<lambda>(o', t). (o', tr_name t)) ts)
     \<and> (\<forall>(o', t) \<in> set ts. o' \<in> set orgs \<and> tr_partition_count t \<noteq> 0
          \<and> map pt_partition_id (parts_of o' (tr_name t) ps) = map of_nat [0..<unat (tr_partition_count t)])
     \<and> (\<forall>r \<in> set ps. (fst r, pt_topic (snd r)) \<in> (\<lambda>(o', t). (o', tr_name t)) ` set ts)"

definition segments_ok :: "string list \<Rightarrow> (string \<times> SegmentMeta) list \<Rightarrow> bool" where
  "segments_ok orgs ss \<longleftrightarrow> distinct (map (sm_id \<circ> snd) ss)
     \<and> (\<forall>(o', s) \<in> set ss. o' \<in> set orgs \<and> sint (sm_base_offset s) \<le> sint (sm_end_offset s))"

definition offset_key :: "string \<times> ConsumerOffset \<Rightarrow> string \<times> string \<times> u32" where
  "offset_key = (\<lambda>(_, c). (co_group_id c, co_topic c, co_partition_id c))"

definition offsets_ok :: "string list \<Rightarrow> (string \<times> string) list \<Rightarrow> (string \<times> ConsumerOffset) list \<Rightarrow> bool" where
  "offsets_ok orgs gs cs \<longleftrightarrow> distinct gs \<and> (\<forall>(o', g) \<in> set gs. o' \<in> set orgs)
     \<and> distinct (map offset_key cs) \<and> (\<forall>r \<in> set cs. (fst r, co_group_id (snd r)) \<in> set gs)"

definition topic_db_ok :: "topic_db \<Rightarrow> bool" where
  "topic_db_ok db \<longleftrightarrow> distinct (organization_ids db) \<and> topics_ok (organization_ids db) (td_topics db) (td_partitions db)
     \<and> segments_ok (organization_ids db) (td_segments db) \<and> offsets_ok (organization_ids db) (td_groups db) (td_offsets db)"

lemma organization_ids_update [simp]:
  "organization_ids (db\<lparr>td_topics := a\<rparr>) = organization_ids db"
  "organization_ids (db\<lparr>td_partitions := b\<rparr>) = organization_ids db"
  "organization_ids (db\<lparr>td_segments := c\<rparr>) = organization_ids db"
  "organization_ids (db\<lparr>td_groups := d\<rparr>) = organization_ids db"
  "organization_ids (db\<lparr>td_offsets := e\<rparr>) = organization_ids db"
  "organization_ids (db\<lparr>td_organizations := f\<rparr>) = map or_id f"
  by (simp_all add: organization_ids_def)

lemma topic_db_ok_organizations:
  assumes "topic_db_ok db" and "distinct (map or_id rs)" and "set (organization_ids db) \<subseteq> or_id ` set rs"
  shows "topic_db_ok (db\<lparr>td_organizations := rs\<rparr>)"
  using assms by (auto simp: topic_db_ok_def topics_ok_def segments_ok_def offsets_ok_def subset_iff image_iff)

lemma parts_of_append: "parts_of org t (ps @ qs) = parts_of org t ps @ parts_of org t qs"
  by (simp add: parts_of_def)

lemma parts_of_new: "parts_of org t (map (\<lambda>i. (org', \<lparr>pt_topic = t', pt_partition_id = of_nat i, pt_high_watermark = 0\<rparr>)) ns)
    = (if org = org' \<and> t = t' then map (\<lambda>i. \<lparr>pt_topic = t', pt_partition_id = of_nat i, pt_high_watermark = 0\<rparr>) ns else [])"
  by (auto simp: parts_of_def filter_map comp_def)

lemma parts_of_absent:
  assumes "topics_ok orgs ts ps" and "(org, name) \<notin> (\<lambda>(o', t). (o', tr_name t)) ` set ts"
  shows "parts_of org name ps = []"
  using assms by (fastforce simp: topics_ok_def parts_of_def filter_empty_conv)

lemma topics_ok_insert:
  assumes ok: "topics_ok orgs ts ps" and new: "(org, tr_name t) \<notin> (\<lambda>(o', t). (o', tr_name t)) ` set ts" and "org \<in> set orgs"
    and "tr_partition_count t \<noteq> 0"
  shows "topics_ok orgs (ts @ [(org, t)]) (ps @ map (\<lambda>i. (org, \<lparr>pt_topic = tr_name t, pt_partition_id = of_nat i, pt_high_watermark = 0\<rparr>))
    [0..<unat (tr_partition_count t)])"
proof -
  let ?ps = "map (\<lambda>i. (org, \<lparr>pt_topic = tr_name t, pt_partition_id = of_nat i, pt_high_watermark = 0\<rparr>)) [0..<unat (tr_partition_count t)]"
  have old: "parts_of o' (tr_name t') (ps @ ?ps) = parts_of o' (tr_name t') ps" if "(o', t') \<in> set ts" for o' t'
  proof -
    have "(org, tr_name t) \<noteq> (o', tr_name t')" using new that by force
    then show ?thesis by (auto simp: parts_of_append parts_of_new)
  qed
  have "map pt_partition_id (parts_of org (tr_name t) (ps @ ?ps)) = map of_nat [0..<unat (tr_partition_count t)]"
    using parts_of_absent [OF ok new] by (simp add: parts_of_append parts_of_new comp_def)
  then show ?thesis
    using assms by (auto simp: topics_ok_def old)
qed

lemma topics_ok_watermark:
  assumes "topics_ok orgs ts ps"
  shows "topics_ok orgs ts (map (\<lambda>r. if P r then (fst r, (snd r)\<lparr>pt_high_watermark := w\<rparr>) else r) ps)"
proof -
  define f where "f = (\<lambda>r. if P r then (fst r, (snd r)\<lparr>pt_high_watermark := w\<rparr>) else r :: string \<times> Partition)"
  have f: "fst (f r) = fst r" "pt_topic (snd (f r)) = pt_topic (snd r)" "pt_partition_id (snd (f r)) = pt_partition_id (snd r)" for r
    by (simp_all add: f_def)
  have "map pt_partition_id (parts_of org t (map f ps)) = map pt_partition_id (parts_of org t ps)" for org t
    by (simp add: parts_of_def filter_map comp_def case_prod_unfold f)
  then show ?thesis using assms by (simp add: topics_ok_def f_def [symmetric] f)
qed

lemma topics_ok_delete:
  assumes "topics_ok orgs ts ps"
  shows "topics_ok orgs (filter (\<lambda>(o', t). \<not> (scope o' \<and> tr_name t = name)) ts) (filter (\<lambda>(o', p). \<not> (scope o' \<and> pt_topic p = name)) ps)"
proof -
  have kept: "parts_of org t (filter (\<lambda>(o', p). \<not> (scope o' \<and> pt_topic p = name)) ps) = parts_of org t ps" if "\<not> (scope org \<and> t = name)" for org t
    using that by (auto simp: parts_of_def intro!: arg_cong [where f = "map snd"] filter_cong)
  show ?thesis
    unfolding topics_ok_def
  proof (intro conjI)
    let ?ts = "filter (\<lambda>(o', t). \<not> (scope o' \<and> tr_name t = name)) ts"
    show "\<forall>r \<in> set (filter (\<lambda>(o', p). \<not> (scope o' \<and> pt_topic p = name)) ps). (fst r, pt_topic (snd r)) \<in> (\<lambda>(o', t). (o', tr_name t)) ` set ?ts"
    proof (rule ballI, simp only: split_paired_all fst_conv snd_conv)
      fix o' p assume p: "(o', p) \<in> set (filter (\<lambda>(o', p). \<not> (scope o' \<and> pt_topic p = name)) ps)"
      then obtain t where "(o', t) \<in> set ts" "tr_name t = pt_topic p" using assms by (fastforce simp: topics_ok_def)
      then have "(o', t) \<in> set ?ts" "(o', pt_topic p) = (\<lambda>(o', t). (o', tr_name t)) (o', t)" using p by auto
      then show "(o', pt_topic p) \<in> (\<lambda>(o', t). (o', tr_name t)) ` set ?ts" by (rule rev_image_eqI)
    qed
  qed (use assms in \<open>auto simp: topics_ok_def distinct_map_filter kept [simplified]\<close>)
qed

lemma offsets_ok_group:
  assumes "topic_db_ok db" and "insert_group org g db = Some db'"
  shows "topic_db_ok db' \<and> (org, g) \<in> set (td_groups db') \<and> td_offsets db' = td_offsets db"
  using assms by (fastforce simp: insert_group_def topic_db_ok_def offsets_ok_def split: if_splits)

lemma offsets_ok_upsert:
  assumes "topic_db_ok db" and "(org, co_group_id c) \<in> set (td_groups db)"
  shows "topic_db_ok (upsert_offset org c db)"
proof -
  let ?P = "same_offset (co_group_id c) (co_topic c) (co_partition_id c)"
  define f where "f = (\<lambda>r. if ?P r then (fst r, (snd r)\<lparr>co_committed_offset := co_committed_offset c, co_metadata := co_metadata c\<rparr>) else r)"
  have P: "?P r \<longleftrightarrow> offset_key r = offset_key (org, c)" for r by (cases r) (auto simp: same_offset_def offset_key_def)
  have f: "offset_key (f r) = offset_key r" "fst (f r) = fst r" "co_group_id (snd (f r)) = co_group_id (snd r)" for r
    by (simp_all add: f_def offset_key_def case_prod_unfold)
  have "offset_key \<circ> f = offset_key" by (simp add: fun_eq_iff f)
  then have "topic_db_ok (db\<lparr>td_offsets := map f (td_offsets db)\<rparr>)"
    using assms(1) by (simp add: topic_db_ok_def offsets_ok_def f)
  moreover have "topic_db_ok (db\<lparr>td_offsets := td_offsets db @ [(org, c)]\<rparr>)" if "\<not> (\<exists>r \<in> set (td_offsets db). ?P r)"
    using that assms unfolding P by (auto simp: topic_db_ok_def offsets_ok_def)
  ultimately show ?thesis by (simp add: upsert_offset_def Let_def f_def)
qed

lemma topic_db_ok_step:
  assumes ok: "topic_db_ok db"
  shows "topic_db_ok (run_topic_op e db)"
proof (cases e)
  case (EnsureOrganization fails o_id name)
  have "topic_db_ok (db\<lparr>td_organizations := td_organizations db @ [r]\<rparr>)" if "\<forall>q \<in> set (td_organizations db). or_id q \<noteq> or_id r" for r
    by (rule topic_db_ok_organizations [OF ok]) (use that ok in \<open>auto simp: topic_db_ok_def organization_ids_def\<close>)
  then show ?thesis using ok by (auto simp: EnsureOrganization ensure_organization_def Let_def)
next
  case (CreateTopic fails now org config)
  let ?row = "\<lparr>tr_name = tc_name config, tr_partition_count = tc_partition_count config,
                 tr_retention_ms = tc_retention_ms config, tr_created_at = now,
                 tr_config = (tc_config config)(''cleanup.policy'' \<mapsto> CleanupPolicy_as_str (tc_cleanup_policy config))\<rparr>"
  have "(org, tc_name config) \<notin> (\<lambda>(o', t). (o', tr_name t)) ` set (td_topics db)"
    if "\<not> (\<exists>(o', t) \<in> set (td_topics db). o' = org \<and> tr_name t = tc_name config)" using that by auto
  then show ?thesis
    using ok topics_ok_insert [of "organization_ids db" "td_topics db" "td_partitions db" org ?row]
    by (auto simp: CreateTopic create_topic_for_org_def insert_topic_def topic_db_ok_def)
next
  case (DeleteTopics fails s name)
  then show ?thesis using ok topics_ok_delete by (auto simp: delete_topics_def topic_db_ok_def)
next
  case (UpdateWatermark fails org t n w)
  then show ?thesis using ok topics_ok_watermark by (auto simp: update_high_watermark_def set_watermark_def topic_db_ok_def)
next
  case (AddSegment fails org s)
  then show ?thesis using ok by (auto simp: add_segment_def insert_segment_def topic_db_ok_def segments_ok_def)
next
  case (AddSegmentWatermark fails org s w)
  then show ?thesis
    using ok topics_ok_watermark
    by (auto simp: add_segment_and_update_watermark_def insert_segment_def set_watermark_def topic_db_ok_def segments_ok_def)
next
  case (DeleteSegments fails org t n w)
  then show ?thesis using ok by (auto simp: delete_segments_before_def Let_def topic_db_ok_def segments_ok_def distinct_map_filter)
next
  case (EnsureGroup fails org g)
  then show ?thesis using ok offsets_ok_group [OF ok] by (auto simp: ensure_consumer_group_for_org_def split: option.split)
next
  case (DeleteGroups fails s g)
  then show ?thesis using ok by (fastforce simp: delete_groups_def topic_db_ok_def offsets_ok_def distinct_map_filter)
next
  case (CommitOffset gf fails org g t n off m)
  then show ?thesis
    using ok offsets_ok_group [OF ok] offsets_ok_upsert
    by (auto simp: commit_offset_for_org_def ensure_consumer_group_for_org_def split: option.split)
qed

interpretation topic_machine: invariant_machine run_topic_op topic_db_ok
  by unfold_locales (rule topic_db_ok_step)

lemma topic_db_ok_empty: "topic_db_ok topic_db_empty"
  by (simp add: topic_db_ok_def topics_ok_def segments_ok_def offsets_ok_def topic_db_empty_def organization_ids_def)

text \<open>
  C13. The tables of topics, partitions, segments and offsets stay consistent under every history of operations and faults: identifiers are
  unique, every row belongs to a registered organization, every topic has exactly the partitions zero up to its count, in order, and no
  partition is without its topic, every segment spans its offsets, every offset belongs to a group of its organization, and there is at
  most one offset per group, topic and partition.
\<close>

theorem topic_tables_consistent: "topic_db_ok (fold run_topic_op ops topic_db_empty)"
  by (rule topic_machine.run_inv) (rule topic_db_ok_empty)

section \<open>Topics\<close>

lemma find_append: "find P (xs @ ys) = (case find P xs of None \<Rightarrow> find P ys | Some x \<Rightarrow> Some x)"
  by (induction xs) simp_all

lemma find_map_same: "(\<And>x. P (f x) = P x) \<Longrightarrow> find P (map f xs) = map_option f (find P xs)"
  by (induction xs) simp_all

lemma find_filter_other: "(\<And>x. P x \<Longrightarrow> Q x) \<Longrightarrow> find P (filter Q xs) = find P xs"
  by (induction xs) auto

lemma cleanup_policy_roundtrip: "CleanupPolicy_from_str (CleanupPolicy_as_str p) = p"
  by (cases p) (simp_all add: CleanupPolicy_from_str_def CleanupPolicy_as_str_def to_lowercase_def Let_def)

lemma list_partitions_parts: "list_partitions org topic db = sort_key pt_partition_id (parts_of org topic (td_partitions db))"
  by (simp add: list_partitions_def parts_of_def)

lemma sorted_new_parts:
  "sort_key pt_partition_id (map (\<lambda>i. \<lparr>pt_topic = t, pt_partition_id = of_nat i, pt_high_watermark = w\<rparr>) [0..<unat (c :: u32)])
    = map (\<lambda>i. \<lparr>pt_topic = t, pt_partition_id = of_nat i, pt_high_watermark = w\<rparr>) [0..<unat c]"
proof (rule sort_key_id_if_sorted)
  have "(of_nat i :: u32) \<le> of_nat j" if "i < j" "j < unat c" for i j
  proof -
    have "unat c < 4294967296" using unsigned_less [of c, where ?'a = nat] by simp
    with that show ?thesis by (simp add: word_le_nat_alt unat_of_nat take_bit_nat_eq_self)
  qed
  then show "sorted (map pt_partition_id (map (\<lambda>i. \<lparr>pt_topic = t, pt_partition_id = of_nat i, pt_high_watermark = w\<rparr>) [0..<unat c]))"
    by (auto simp: sorted_iff_nth_mono_less)
qed

text \<open>
  A created topic reads back: after a successful creation, the topic of that organization has the name, partition count, retention and
  cleanup policy that were asked for, its partitions are exactly those from zero up to the count, each with high watermark zero, and the
  topics and partitions of every other organization or name are as before.
\<close>

theorem created_topic_reads_back:
  assumes "db = fold run_topic_op ops topic_db_empty" and "create_topic_for_org False now org c db = (db', Ok ())"
  shows "(\<exists>t. get_topic_for_org org (tc_name c) db' = Some t \<and> to_name t = tc_name c \<and> to_partition_count t = tc_partition_count c
       \<and> to_retention_ms t = tc_retention_ms c \<and> to_cleanup_policy t = tc_cleanup_policy c)
     \<and> list_partitions org (tc_name c) db'
         = map (\<lambda>i. \<lparr>pt_topic = tc_name c, pt_partition_id = of_nat i, pt_high_watermark = 0\<rparr>) [0..<unat (tc_partition_count c)]
     \<and> (\<forall>org' name. (org', name) \<noteq> (org, tc_name c) \<longrightarrow>
          get_topic_for_org org' name db' = get_topic_for_org org' name db \<and> list_partitions org' name db' = list_partitions org' name db)"
proof -
  have ok: "topics_ok (organization_ids db) (td_topics db) (td_partitions db)"
    using topic_machine.run_inv [OF topic_db_ok_empty, of ops] by (simp add: assms(1) topic_db_ok_def)
  let ?row = "\<lparr>tr_name = tc_name c, tr_partition_count = tc_partition_count c, tr_retention_ms = tc_retention_ms c, tr_created_at = now,
      tr_config = (tc_config c)(''cleanup.policy'' \<mapsto> CleanupPolicy_as_str (tc_cleanup_policy c))\<rparr>"
  have new: "\<not> (\<exists>(o', t) \<in> set (td_topics db). o' = org \<and> tr_name t = tc_name c)"
    and topics: "td_topics db' = td_topics db @ [(org, ?row)]"
    and parts: "td_partitions db' = td_partitions db @ map (\<lambda>i. (org, \<lparr>pt_topic = tc_name c, pt_partition_id = of_nat i, pt_high_watermark = 0\<rparr>))
        [0..<unat (tc_partition_count c)]"
    using assms(2) by (auto simp: create_topic_for_org_def insert_topic_def split: if_splits)
  have none: "find (\<lambda>(o', t). o' = org \<and> tr_name t = tc_name c) (td_topics db) = None" using new by (auto simp: find_None_iff)
  have "(org, tc_name c) \<notin> (\<lambda>(o', t). (o', tr_name t)) ` set (td_topics db)" using new by auto
  then have absent: "parts_of org (tc_name c) (td_partitions db) = []" by (rule parts_of_absent [OF ok])
  have "get_topic_for_org org (tc_name c) db' = Some (row_to_topic ?row)"
    by (simp add: get_topic_for_org_def topics find_append none)
  moreover have "to_cleanup_policy (row_to_topic ?row) = tc_cleanup_policy c" by (simp add: row_to_topic_def cleanup_policy_roundtrip)
  moreover have "list_partitions org (tc_name c) db'
         = map (\<lambda>i. \<lparr>pt_topic = tc_name c, pt_partition_id = of_nat i, pt_high_watermark = 0\<rparr>) [0..<unat (tc_partition_count c)]"
    by (simp add: list_partitions_parts parts parts_of_append parts_of_new absent sorted_new_parts)
  moreover have "get_topic_for_org org' name db' = get_topic_for_org org' name db \<and> list_partitions org' name db' = list_partitions org' name db"
    if "(org', name) \<noteq> (org, tc_name c)" for org' name
    using that by (auto simp: get_topic_for_org_def topics find_append list_partitions_parts parts parts_of_append parts_of_new split: option.split)
  ultimately show ?thesis by (simp add: row_to_topic_def)
qed

definition demo_topic :: TopicConfig where
  "demo_topic = \<lparr>tc_name = ''orders'', tc_partition_count = 1, tc_retention_ms = None, tc_cleanup_policy = Compact, tc_config = (\<lambda>_. None)\<rparr>"

definition demo_tables :: "topic_op list" where
  "demo_tables = [EnsureOrganization False ''a'' ''acme'', EnsureOrganization False ''b'' ''bolt'']"

lemma demo_tables_eval: "fold run_topic_op demo_tables topic_db_empty = topic_db_empty
    \<lparr>td_organizations := [\<lparr>or_id = ''a'', or_name = ''acme'', or_slug = ''acme''\<rparr>, \<lparr>or_id = ''b'', or_name = ''bolt'', or_slug = ''bolt''\<rparr>]\<rparr>"
  by (simp add: demo_tables_def topic_db_empty_def ensure_organization_def Let_def to_lowercase_def)

theorem created_topic_reads_back_witness:
  "map pt_partition_id (list_partitions ''a'' ''orders'' (fst (create_topic_for_org False 5 ''a'' demo_topic (fold run_topic_op demo_tables topic_db_empty)))) = [0]"
proof -
  obtain db' where c: "create_topic_for_org False 5 ''a'' demo_topic (fold run_topic_op demo_tables topic_db_empty) = (db', Ok ())"
    unfolding demo_tables_eval by (simp add: create_topic_for_org_def insert_topic_def demo_topic_def topic_db_empty_def organization_ids_def)
  have "list_partitions ''a'' ''orders'' db' = [\<lparr>pt_topic = ''orders'', pt_partition_id = 0, pt_high_watermark = 0\<rparr>]"
    using created_topic_reads_back [OF refl c] by (simp add: demo_topic_def)
  then show ?thesis by (simp add: c)
qed

section \<open>Deleting and sharing segments\<close>

lemma watermark_segments [simp]: "td_segments (set_watermark org t n w db) = td_segments db"
  by (simp add: set_watermark_def)

lemma known_segment_refused:
  assumes "sm_id s \<in> (sm_id \<circ> snd) ` set (td_segments db)"
  shows "add_segment_and_update_watermark fails org s w db = (db, Err DatabaseError)"
  using assms by (simp add: add_segment_and_update_watermark_def insert_segment_def)

text \<open>
  Organizations collide on segments. The identifier a partition writer gives a segment is made of topic, partition and base offset, and it
  is the primary key of the segment table across organizations. So when a writer of one organization has registered a segment, a writer of
  any organization for a topic of the same name cannot register the segment with the same partition and base offset: the statement
  fails and the high watermark does not move. The first segment of every partition starts at offset zero.
\<close>

theorem segment_ids_collide:
  assumes "add_segment_and_update_watermark False org (segment_row env pw seg base e key bytes) w db = (db', Ok ())"
    and "pw_topic pw' = pw_topic pw" and "pw_partition_id pw' = pw_partition_id pw"
  shows "add_segment_and_update_watermark False org' (segment_row env' pw' seg' base e' key' bytes') w' db' = (db', Err DatabaseError)"
proof (rule known_segment_refused)
  have "sm_id (segment_row env pw seg base e key bytes) \<in> (sm_id \<circ> snd) ` set (td_segments db')"
    using assms(1) by (auto simp: add_segment_and_update_watermark_def insert_segment_def split: if_splits)
  then show "sm_id (segment_row env' pw' seg' base e' key' bytes') \<in> (sm_id \<circ> snd) ` set (td_segments db')"
    by (simp add: segment_row_def assms(2,3))
qed

definition shop_writer :: "string \<Rightarrow> PartitionWriter" where
  "shop_writer org = \<lparr>pw_org_id = org, pw_topic = ''orders'', pw_partition_id = 0, pw_current_segment = SegmentWriter_new CompLz4,
     pw_current_offset = 0, pw_segment_created_at = 0, pw_segment_size_estimate = 0, pw_s3_data_prefix = ''org-'' @ org @ ''/data'', pw_wal = None,
     pw_throttle = None, pw_stale_wal_files = [], pw_buffered_records = [], pw_config = WriteConfig_default\<rparr>"

definition shop_roll :: roll_env where
  "shop_roll = \<lparr>ro_now = 5, ro_upload = \<lparr>ue_clock = (\<lambda>_. 0), ue_token = (\<lambda>_. True), ue_put = (\<lambda>_. PutOk),
     ue_multipart_start = None, ue_multipart_part = (\<lambda>_. None), ue_multipart_complete = None\<rparr>,
     ro_metadata_ok = True, ro_flush = FlushOk, ro_truncate = TruncOk\<rparr>"

theorem segment_ids_collide_witness:
  "\<exists>db'. add_segment_and_update_watermark False ''a'' (segment_row shop_roll (shop_writer ''a'') (SegmentWriter_new CompLz4) 0 0 ''k'' [1]) 1
       (fold run_topic_op demo_tables topic_db_empty) = (db', Ok ())
     \<and> add_segment_and_update_watermark False ''b'' (segment_row shop_roll (shop_writer ''b'') (SegmentWriter_new CompLz4) 0 0 ''l'' [2]) 1 db'
       = (db', Err DatabaseError)"
proof -
  obtain db' where a: "add_segment_and_update_watermark False ''a'' (segment_row shop_roll (shop_writer ''a'') (SegmentWriter_new CompLz4) 0 0 ''k'' [1]) 1
       (fold run_topic_op demo_tables topic_db_empty) = (db', Ok ())"
    unfolding demo_tables_eval
    by (simp add: add_segment_and_update_watermark_def insert_segment_def segment_row_def topic_db_empty_def organization_ids_def)
  show ?thesis using a segment_ids_collide [OF a, of "shop_writer ''b''"] by (simp add: shop_writer_def)
qed

text \<open>
  A topic that is deleted and created again keeps its old segments. Deleting a topic removes its partitions but not its segments, so after
  the topic is created again the old segments are listed for it, although its partitions start at high watermark zero; and a new segment
  with the base offset of an old one is refused, so the new topic cannot register the segments it writes from offset zero on.
\<close>

theorem recreated_topic_keeps_segments:
  assumes "delete_topic_for_org False org name db = (db1, Ok ())" and "create_topic_for_org False now org c db1 = (db2, Ok ())" and "tc_name c = name"
    and "s \<in> set (get_segments org name n db)"
  shows "get_segments org name n db2 = get_segments org name n db
    \<and> (sm_id s' = sm_id s \<longrightarrow> add_segment_and_update_watermark False org s' w db2 = (db2, Err DatabaseError))"
proof -
  have same: "td_segments db2 = td_segments db"
    using assms(1,2) by (auto simp: delete_topic_for_org_def delete_topics_def create_topic_for_org_def insert_topic_def split: if_splits)
  moreover have "sm_id s \<in> (sm_id \<circ> snd) ` set (td_segments db2)" using assms(4) same by (force simp: get_segments_def)
  ultimately show ?thesis using known_segment_refused by (simp add: get_segments_def)
qed

definition demo_segment_row :: SegmentMeta where
  "demo_segment_row = \<lparr>sm_id = ''orders-0-0'', sm_topic = ''orders'', sm_partition_id = 0, sm_base_offset = 0, sm_end_offset = 4, sm_record_count = 5,
     sm_size_bytes = 100, sm_s3_bucket = ''s'', sm_s3_key = ''k'', sm_created_at = 1, sm_min_timestamp = 1, sm_max_timestamp = 1\<rparr>"

definition demo_topic_db :: topic_db where
  "demo_topic_db = fold run_topic_op (demo_tables @ [CreateTopic False 5 ''a'' demo_topic, AddSegmentWatermark False ''a'' demo_segment_row 5]) topic_db_empty"

lemma demo_topic_db_eval: "demo_topic_db = \<lparr>td_organizations = [\<lparr>or_id = ''a'', or_name = ''acme'', or_slug = ''acme''\<rparr>, \<lparr>or_id = ''b'', or_name = ''bolt'', or_slug = ''bolt''\<rparr>],
    td_topics = [(''a'', \<lparr>tr_name = ''orders'', tr_partition_count = 1, tr_retention_ms = None, tr_created_at = 5, tr_config = [''cleanup.policy'' \<mapsto> ''compact'']\<rparr>)],
    td_partitions = [(''a'', \<lparr>pt_topic = ''orders'', pt_partition_id = 0, pt_high_watermark = 5\<rparr>)],
    td_segments = [(''a'', demo_segment_row)], td_groups = [], td_offsets = []\<rparr>"
  unfolding demo_topic_db_def fold_append comp_apply demo_tables_eval
  by (simp add: create_topic_for_org_def insert_topic_def demo_topic_def topic_db_empty_def organization_ids_def
      add_segment_and_update_watermark_def insert_segment_def set_watermark_def at_partition_def demo_segment_row_def CleanupPolicy_as_str_def)

theorem recreated_topic_keeps_segments_witness:
  "\<exists>db1 db2. delete_topic_for_org False ''a'' ''orders'' demo_topic_db = (db1, Ok ()) \<and> create_topic_for_org False 9 ''a'' demo_topic db1 = (db2, Ok ())
     \<and> get_segments ''a'' ''orders'' 0 db2 = [demo_segment_row]"
proof -
  obtain db1 db2 where d: "delete_topic_for_org False ''a'' ''orders'' demo_topic_db = (db1, Ok ())"
    and c: "create_topic_for_org False 9 ''a'' demo_topic db1 = (db2, Ok ())"
    by (simp add: demo_topic_db_eval delete_topic_for_org_def delete_topics_def create_topic_for_org_def insert_topic_def demo_topic_def organization_ids_def)
  have g: "get_segments ''a'' ''orders'' 0 demo_topic_db = [demo_segment_row]"
    by (simp add: demo_topic_db_eval get_segments_def in_partition_def demo_segment_row_def)
  show ?thesis using recreated_topic_keeps_segments [OF d c, of demo_segment_row 0 demo_segment_row 0] g d c by (simp add: demo_topic_def)
qed

section \<open>Committed offsets\<close>

lemma get_upsert:
  "get_committed_offset_for_org org' g t n (upsert_offset org c db) =
     (if offset_key (org, c) \<noteq> (g, t, n) then get_committed_offset_for_org org' g t n db
      else if \<exists>r \<in> set (td_offsets db). same_offset g t n r
      then map_option (\<lambda>_. co_committed_offset c) (get_committed_offset_for_org org' g t n db)
      else if org' = org then Some (co_committed_offset c) else None)"
proof -
  define P where "P = same_offset (co_group_id c) (co_topic c) (co_partition_id c)"
  define Q where "Q = (\<lambda>r. fst r = org' \<and> same_offset g t n r)"
  define f where "f = (\<lambda>r. if P r then (fst r, (snd r)\<lparr>co_committed_offset := co_committed_offset c, co_metadata := co_metadata c\<rparr>) else r)"
  have Qf: "Q (f r) = Q r" for r by (auto simp: Q_def f_def same_offset_def case_prod_unfold)
  have found: "find Q (map f rs) = map_option f (find Q rs)" for rs using Qf by (rule find_map_same)
  have key: "P = same_offset g t n" if "offset_key (org, c) = (g, t, n)" using that by (auto simp: P_def offset_key_def)
  have other: "\<not> P r" if "Q r" "offset_key (org, c) \<noteq> (g, t, n)" for r
    using that by (auto simp: P_def Q_def same_offset_def offset_key_def case_prod_unfold)
  show ?thesis
  proof (cases "\<exists>r \<in> set (td_offsets db). P r")
    case True
    then have "get_committed_offset_for_org org' g t n (upsert_offset org c db) = map_option (co_committed_offset \<circ> snd \<circ> f) (find Q (td_offsets db))"
      by (simp add: get_committed_offset_for_org_def upsert_offset_def Let_def P_def [symmetric] f_def [symmetric] Q_def [symmetric] found
          option.map_comp comp_def)
    moreover have "co_committed_offset (snd (f r)) = (if offset_key (org, c) = (g, t, n) then co_committed_offset c else co_committed_offset (snd r))"
      if "Q r" for r using that other [OF that] key by (auto simp: f_def Q_def)
    moreover have "Q r" if "find Q (td_offsets db) = Some r" for r using that by (auto simp: find_Some_iff)
    ultimately show ?thesis
      using True key by (cases "find Q (td_offsets db)") (auto simp: get_committed_offset_for_org_def Q_def [symmetric])
  next
    case False
    then have "get_committed_offset_for_org org' g t n (upsert_offset org c db) = map_option (co_committed_offset \<circ> snd) (find Q (td_offsets db @ [(org, c)]))"
      by (simp add: get_committed_offset_for_org_def upsert_offset_def Let_def P_def [symmetric] Q_def [symmetric])
    moreover have "find Q (td_offsets db) = None" if "offset_key (org, c) = (g, t, n)"
      using False key [OF that] by (auto simp: find_None_iff Q_def)
    moreover have "Q (org, c) \<longleftrightarrow> org' = org \<and> offset_key (org, c) = (g, t, n)" by (auto simp: Q_def same_offset_def offset_key_def)
    ultimately show ?thesis
      using False key by (auto simp: find_append get_committed_offset_for_org_def Q_def [symmetric] split: option.split)
  qed
qed

lemma commit_ok:
  assumes "commit_offset_for_org gf fails org g t n off m db = (db', Ok ())"
  shows "\<exists>db1. insert_group org g db = Some db1 \<and> td_offsets db1 = td_offsets db
    \<and> db' = upsert_offset org \<lparr>co_group_id = g, co_topic = t, co_partition_id = n, co_committed_offset = off, co_metadata = m\<rparr> db1"
  using assms
  by (auto simp: commit_offset_for_org_def ensure_consumer_group_for_org_def insert_group_def split: if_splits option.splits)

lemma get_offset_cong: "td_offsets db1 = td_offsets db \<Longrightarrow> get_committed_offset_for_org org g t n db1 = get_committed_offset_for_org org g t n db"
  by (simp add: get_committed_offset_for_org_def)

text \<open>
  A committed offset reads back, while the group is used by one organization: after a successful commit the organization reads the
  offset it committed, and every other committed offset (of another organization, group, topic or partition) is as before.
\<close>

theorem committed_offset_reads_back:
  assumes "commit_offset_for_org gf fails org g t n off m db = (db', Ok ())"
    and "\<forall>r \<in> set (td_offsets db). same_offset g t n r \<longrightarrow> fst r = org"
  shows "get_committed_offset_for_org org' g' t' n' db'
    = (if (org', g', t', n') = (org, g, t, n) then Some off else get_committed_offset_for_org org' g' t' n' db)"
proof -
  obtain db1 where o: "td_offsets db1 = td_offsets db"
    and db': "db' = upsert_offset org \<lparr>co_group_id = g, co_topic = t, co_partition_id = n, co_committed_offset = off, co_metadata = m\<rparr> db1"
    using commit_ok [OF assms(1)] by blast
  have "get_committed_offset_for_org org g t n db \<noteq> None" if "\<exists>r \<in> set (td_offsets db). same_offset g t n r"
  proof -
    from that obtain r where "r \<in> set (td_offsets db)" "fst r = org \<and> same_offset g t n r" using assms(2) by blast
    then show ?thesis unfolding get_committed_offset_for_org_def option.map_disc_iff find_None_iff by blast
  qed
  moreover have "get_committed_offset_for_org o' g t n db = None" if "o' \<noteq> org" for o'
    using that assms(2) by (auto simp: get_committed_offset_for_org_def find_None_iff)
  ultimately show ?thesis
    by (auto simp: db' get_upsert offset_key_def get_offset_cong [OF o] o)
qed

theorem committed_offset_reads_back_witness:
  "\<exists>db'. commit_offset_for_org False False ''a'' ''g'' ''orders'' 0 3 None demo_topic_db = (db', Ok ())
     \<and> get_committed_offset_for_org ''a'' ''g'' ''orders'' 0 db' = Some 3"
proof -
  obtain db' where c: "commit_offset_for_org False False ''a'' ''g'' ''orders'' 0 3 None demo_topic_db = (db', Ok ())"
    by (simp add: demo_topic_db_eval commit_offset_for_org_def ensure_consumer_group_for_org_def insert_group_def organization_ids_def)
  show ?thesis using committed_offset_reads_back [OF c, of "''a''" "''g''" "''orders''" 0] c by (simp add: demo_topic_db_eval)
qed

text \<open>
  Offsets cross organizations. An offset row is unique by group, topic and partition, without the organization, and a commit updates the
  row it finds. So when one organization has committed an offset, a commit by another organization for a group, topic and partition of the
  same names succeeds, overwrites the first organization's offset, and leaves the second with no offset at all.
\<close>

theorem commit_crosses_organizations:
  assumes "db = fold run_topic_op ops topic_db_empty" and "get_committed_offset_for_org a g t n db = Some x" and "a \<noteq> b"
    and "commit_offset_for_org gf fails b g t n off m db = (db', Ok ())"
  shows "get_committed_offset_for_org a g t n db' = Some off \<and> get_committed_offset_for_org b g t n db' = None"
proof -
  have "offsets_ok (organization_ids db) (td_groups db) (td_offsets db)"
    using topic_machine.run_inv [OF topic_db_ok_empty, of ops] by (simp add: assms(1) topic_db_ok_def)
  then have inj: "inj_on offset_key (set (td_offsets db))" by (simp add: offsets_ok_def distinct_map)
  obtain r where r: "r \<in> set (td_offsets db)" "fst r = a" "same_offset g t n r"
  proof -
    have "find (\<lambda>r. fst r = a \<and> same_offset g t n r) (td_offsets db) \<noteq> None" using assms(2) by (auto simp: get_committed_offset_for_org_def)
    then show thesis using that unfolding find_None_iff by blast
  qed
  have "r' = r" if "r' \<in> set (td_offsets db)" "same_offset g t n r'" for r'
  proof (rule inj_onD [OF inj _ that(1) r(1)])
    show "offset_key r' = offset_key r" using that(2) r(3) by (simp add: same_offset_def offset_key_def case_prod_unfold)
  qed
  then have "\<not> (\<exists>r'. r' \<in> set (td_offsets db) \<and> fst r' = b \<and> same_offset g t n r')" using r(2) assms(3) by blast
  then have "get_committed_offset_for_org b g t n db = None"
    unfolding get_committed_offset_for_org_def option.map_disc_iff find_None_iff .
  moreover obtain db1 where o: "td_offsets db1 = td_offsets db"
    and db': "db' = upsert_offset b \<lparr>co_group_id = g, co_topic = t, co_partition_id = n, co_committed_offset = off, co_metadata = m\<rparr> db1"
    using commit_ok [OF assms(4)] by blast
  moreover have "\<exists>r \<in> set (td_offsets db). same_offset g t n r" using r by blast
  ultimately show ?thesis using assms(2) by (simp add: get_upsert offset_key_def get_offset_cong [OF o] o)
qed

theorem commit_crosses_organizations_witness:
  "\<exists>db'. commit_offset_for_org False False ''b'' ''g'' ''orders'' 0 7 None
       (fold run_topic_op (demo_tables @ [CommitOffset False False ''a'' ''g'' ''orders'' 0 3 None]) topic_db_empty) = (db', Ok ())
     \<and> get_committed_offset_for_org ''a'' ''g'' ''orders'' 0 db' = Some 7 \<and> get_committed_offset_for_org ''b'' ''g'' ''orders'' 0 db' = None"
proof -
  let ?ops = "demo_tables @ [CommitOffset False False ''a'' ''g'' ''orders'' 0 3 None]"
  have e: "fold run_topic_op ?ops topic_db_empty = run_topic_op (CommitOffset False False ''a'' ''g'' ''orders'' 0 3 None) (fold run_topic_op demo_tables topic_db_empty)"
    by simp
  obtain db' where c: "commit_offset_for_org False False ''b'' ''g'' ''orders'' 0 7 None (fold run_topic_op ?ops topic_db_empty) = (db', Ok ())"
    unfolding e demo_tables_eval
    by (simp add: topic_db_empty_def commit_offset_for_org_def ensure_consumer_group_for_org_def insert_group_def organization_ids_def upsert_offset_def)
  have "get_committed_offset_for_org ''a'' ''g'' ''orders'' 0 (fold run_topic_op ?ops topic_db_empty) = Some 3"
    unfolding e demo_tables_eval
    by (simp add: topic_db_empty_def commit_offset_for_org_def ensure_consumer_group_for_org_def insert_group_def organization_ids_def upsert_offset_def
        get_committed_offset_for_org_def same_offset_def)
  from commit_crosses_organizations [OF refl this _ c] c show ?thesis by simp
qed

end
