(* ===== verification/Reconciler.thy ===== *)
theory Reconciler
  imports Topic_Properties Segment_Properties
begin

text \<open>
  The reconciler of the object store with the metadata, \<^verbatim>\<open>streamhouse-storage/src/reconciler.rs\<close>, over the topic and segment tables. The object
  store is third-party code: what it lists for a prefix, whether a deletion fails and what a ranged read returns are arguments. A listing is a
  stream that may end in an error after some objects.
\<close>

section \<open>Deleting orphans\<close>

record object_meta =
  om_location :: string
  om_last_modified :: int
  om_size :: u64

datatype reconcile_error = ClockError | ListError | QueryError

text \<open>\<open>rc_orgs_fail\<close> is about the two calls of \<^verbatim>\<open>list_organizations\<close>; the other flags are about the queries of an organization, a topic and a partition.\<close>

record reconcile_env =
  rc_now :: int
  rc_grace_ms :: int
  rc_orgs_fail :: "nat \<Rightarrow> bool"
  rc_list :: "string \<Rightarrow> object_meta list \<times> bool"
  rc_topics_fail :: "string \<Rightarrow> bool"
  rc_partitions_fail :: "string \<Rightarrow> string \<Rightarrow> bool"
  rc_segments_fail :: "string \<Rightarrow> string \<Rightarrow> u32 \<Rightarrow> bool"
  rc_delete_fails :: "string \<Rightarrow> bool"

definition ends_with_seg :: "string \<Rightarrow> bool" where
  "ends_with_seg s \<longleftrightarrow> drop (length s - 4) s = ''.seg''"

definition org_prefix :: "string \<Rightarrow> string" where
  "org_prefix org_id = ''org-'' @ org_id @ ''/data/''"

definition scan_prefixes :: "bool \<Rightarrow> topic_db \<Rightarrow> string list" where
  "scan_prefixes fails db =
     fold (\<lambda>org ps. if org_prefix (or_id org) \<in> set ps then ps else ps @ [org_prefix (or_id org)])
       (if fails then [] else list_organizations db) [''data/'']"

fun list_segment_objects :: "reconcile_env \<Rightarrow> string list \<Rightarrow> (reconcile_error, object_meta list) result" where
  "list_segment_objects env [] = Ok []"
| "list_segment_objects env (p # ps) =
     (case rc_list env p of (ms, failed) \<Rightarrow>
        if failed then Err ListError
        else rbind (list_segment_objects env ps) (\<lambda>rest. Ok (filter (ends_with_seg \<circ> om_location) ms @ rest)))"

text \<open>Run a query for each element and join the answers, stopping at the first error.\<close>

fun collect :: "('a \<Rightarrow> ('e, 'b list) result) \<Rightarrow> 'a list \<Rightarrow> ('e, 'b list) result" where
  "collect f [] = Ok []"
| "collect f (x # xs) = rbind (f x) (\<lambda>ys. rbind (collect f xs) (\<lambda>zs. Ok (ys @ zs)))"

definition partition_keys :: "string \<Rightarrow> Topic \<Rightarrow> Partition \<Rightarrow> topic_db \<Rightarrow> string list" where
  "partition_keys org t p db = map sm_s3_key (get_segments org (to_name t) (pt_partition_id p) db)"

definition known_keys :: "reconcile_env \<Rightarrow> topic_db \<Rightarrow> (reconcile_error, string list) result" where
  "known_keys env db =
     collect (\<lambda>org. if rc_topics_fail env org then Err QueryError
       else collect (\<lambda>t. if rc_partitions_fail env org (to_name t) then Err QueryError
         else collect (\<lambda>p. if rc_segments_fail env org (to_name t) (pt_partition_id p) then Err QueryError else Ok (partition_keys org t p db))
           (list_partitions org (to_name t) db))
         (list_topics_for_org org db))
       (if rc_orgs_fail env 1 then [] else map or_id (list_organizations db))"

definition is_orphan :: "reconcile_env \<Rightarrow> string list \<Rightarrow> object_meta \<Rightarrow> bool" where
  "is_orphan env known m \<longleftrightarrow> om_location m \<notin> set known \<and> \<not> rc_now env - om_last_modified m < rc_grace_ms env"

definition delete_object :: "reconcile_env \<Rightarrow> string \<Rightarrow> object_meta list \<times> nat \<Rightarrow> object_meta list \<times> nat" where
  "delete_object env key = (\<lambda>(bucket, deleted).
     if rc_delete_fails env key then (bucket, deleted) else (filter (\<lambda>m. om_location m \<noteq> key) bucket, deleted + 1))"

definition reconcile :: "reconcile_env \<Rightarrow> topic_db \<Rightarrow> object_meta list \<Rightarrow> object_meta list \<times> (reconcile_error, nat) result" where
  "reconcile env db bucket =
     (if rc_now env < 0 then (bucket, Err ClockError)
      else case list_segment_objects env (scan_prefixes (rc_orgs_fail env 0) db) of
        Err e \<Rightarrow> (bucket, Err e)
      | Panic \<Rightarrow> (bucket, Panic)
      | Ok [] \<Rightarrow> (bucket, Ok 0)
      | Ok (m # ms) \<Rightarrow>
          (case known_keys env db of
             Err e \<Rightarrow> (bucket, Err e)
           | Panic \<Rightarrow> (bucket, Panic)
           | Ok known \<Rightarrow>
               (let (bucket', deleted) = fold (delete_object env) (map om_location (filter (is_orphan env known) (m # ms))) (bucket, 0)
                in (bucket', Ok deleted))))"

section \<open>Registering what the object store holds\<close>

record ReconcileFromS3Stats =
  segments_found :: nat
  segments_registered :: nat
  segments_failed :: nat

record adopt_env =
  ad_orgs_fail :: "nat \<Rightarrow> bool"
  ad_list :: "string \<Rightarrow> object_meta list \<times> bool"
  ad_topics_fail :: "string \<Rightarrow> bool"
  ad_partitions_fail :: "string \<Rightarrow> string \<Rightarrow> bool"
  ad_segments_fail :: "string \<Rightarrow> string \<Rightarrow> u32 \<Rightarrow> bool"
  ad_header :: "string \<Rightarrow> bytes option"
  ad_add_fails :: "string \<Rightarrow> bool"
  ad_get_fails :: "string \<Rightarrow> bool"
  ad_update_fails :: "string \<Rightarrow> bool"

definition adopt_prefixes :: "adopt_env \<Rightarrow> topic_db \<Rightarrow> (string \<times> string) list" where
  "adopt_prefixes env db =
     (if ad_orgs_fail env 0 then [(''data/'', [])]
      else let orgs = map or_id (list_organizations db)
           in (case orgs of [] \<Rightarrow> [] | org # _ \<Rightarrow> [(''data/'', org)]) @ map (\<lambda>org. (org_prefix org, org)) orgs)"

text \<open>Here a failing query is skipped.\<close>

definition adopt_known_keys :: "adopt_env \<Rightarrow> topic_db \<Rightarrow> string list" where
  "adopt_known_keys env db =
     concat (map (\<lambda>org. if ad_topics_fail env org then []
       else concat (map (\<lambda>t. if ad_partitions_fail env org (to_name t) then []
         else concat (map (\<lambda>p. if ad_segments_fail env org (to_name t) (pt_partition_id p) then [] else partition_keys org t p db)
           (list_partitions org (to_name t) db)))
         (list_topics_for_org org db)))
       (if ad_orgs_fail env 1 then [] else map or_id (list_organizations db)))"

fun split_on :: "char \<Rightarrow> string \<Rightarrow> string list" where
  "split_on c [] = [[]]"
| "split_on c (x # xs) = (if x = c then [] # split_on c xs else (case split_on c xs of [] \<Rightarrow> [[x]] | w # ws \<Rightarrow> (x # w) # ws))"

text \<open>\<^verbatim>\<open>str::parse\<close> for an unsigned integer of \<open>w\<close> bits: an optional plus sign and digits.\<close>

definition parse_uint :: "nat \<Rightarrow> string \<Rightarrow> nat option" where
  "parse_uint w s =
     (let d = (if take 1 s = ''+'' then drop 1 s else s)
      in if d = [] \<or> \<not> list_all is_digit d \<or> read_nat d \<ge> 2 ^ w then None else Some (read_nat d))"

function trim_end_seg :: "string \<Rightarrow> string" where
  "trim_end_seg s = (if ends_with_seg s then trim_end_seg (take (length s - 4) s) else s)"
  by auto
termination
proof (relation "measure length")
  fix s assume "ends_with_seg s"
  then have "s \<noteq> []" by (auto simp: ends_with_seg_def)
  then show "(take (length s - 4) s, s) \<in> measure length" by (cases s) simp_all
qed simp

declare trim_end_seg.simps [simp del]

definition parse_segment_key :: "string \<Rightarrow> string \<Rightarrow> (string \<times> u32 \<times> u64) option" where
  "parse_segment_key prefix_str key =
     (let relative = (if take (length prefix_str) key = prefix_str then drop (length prefix_str) key else key); parts = split_on (CHR ''/'') relative
      in if length parts < 3 then None
         else case parse_uint 32 (parts ! 1) of
           None \<Rightarrow> None
         | Some p \<Rightarrow> (case parse_uint 64 (trim_end_seg (parts ! 2)) of
             None \<Rightarrow> None | Some b \<Rightarrow> Some (parts ! 0, of_nat p, of_nat b)))"

definition adopted_row :: "string \<times> u32 \<times> u64 \<Rightarrow> SegmentHeader \<Rightarrow> object_meta \<Rightarrow> SegmentMeta" where
  "adopted_row = (\<lambda>(topic, partition_id, base_offset) header meta.
     \<lparr>sm_id = topic @ ''-'' @ show_nat (unat partition_id) @ ''-'' @ show_nat (unat base_offset), sm_topic = topic,
      sm_partition_id = partition_id, sm_base_offset = sh_base_offset header, sm_end_offset = sh_end_offset header,
      sm_record_count = sh_record_count header, sm_size_bytes = om_size meta, sm_s3_bucket = [], sm_s3_key = om_location meta,
      sm_created_at = of_int (om_last_modified meta), sm_min_timestamp = 0, sm_max_timestamp = 0\<rparr>)"

text \<open>The watermark moves only forward, and only when the partition is known.\<close>

definition raise_watermark :: "adopt_env \<Rightarrow> string \<Rightarrow> string \<Rightarrow> string \<Rightarrow> u32 \<Rightarrow> u64 \<Rightarrow> topic_db \<Rightarrow> topic_db" where
  "raise_watermark env key org_id topic partition_id new_hwm db =
     (case (if ad_get_fails env key then None else get_partition org_id topic partition_id db) of
        None \<Rightarrow> db
      | Some p \<Rightarrow> if new_hwm > pt_high_watermark p
                 then fst (update_high_watermark (ad_update_fails env key) org_id topic partition_id new_hwm db) else db)"

definition adopt_object ::
  "adopt_env \<Rightarrow> string list \<Rightarrow> string \<Rightarrow> string \<Rightarrow> object_meta \<Rightarrow> topic_db \<times> ReconcileFromS3Stats
     \<Rightarrow> topic_db \<times> (error, ReconcileFromS3Stats) result" where
  "adopt_object env known prefix_str org_id meta = (\<lambda>(db, stats).
     let key = om_location meta; stats1 = stats\<lparr>segments_found := segments_found stats + 1\<rparr>;
         failed = (db, Ok (stats1\<lparr>segments_failed := segments_failed stats1 + 1\<rparr>)) in
     if \<not> ends_with_seg key then (db, Ok stats)
     else if key \<in> set known then (db, Ok stats1)
     else case parse_segment_key prefix_str key of
       None \<Rightarrow> failed
     | Some (topic, partition_id, base_offset) \<Rightarrow>
         (case ad_header env key of
            None \<Rightarrow> failed
          | Some data \<Rightarrow>
              (case read_header data of
                 Err _ \<Rightarrow> failed
               | Panic \<Rightarrow> (db, Panic)
               | Ok header \<Rightarrow>
                   (case add_segment (ad_add_fails env key) org_id (adopted_row (topic, partition_id, base_offset) header meta) db of
                      (db', Ok _) \<Rightarrow> (raise_watermark env key org_id topic partition_id (sh_end_offset header + 1) db',
                        Ok (stats1\<lparr>segments_registered := segments_registered stats1 + 1\<rparr>))
                    | (db', _) \<Rightarrow> (db', Ok (stats1\<lparr>segments_failed := segments_failed stats1 + 1\<rparr>))))))"

fun adopt_objects ::
  "adopt_env \<Rightarrow> string list \<Rightarrow> string \<Rightarrow> string \<Rightarrow> object_meta list \<Rightarrow> topic_db \<times> ReconcileFromS3Stats
     \<Rightarrow> topic_db \<times> (error, ReconcileFromS3Stats) result" where
  "adopt_objects env known prefix_str org_id [] (db, stats) = (db, Ok stats)"
| "adopt_objects env known prefix_str org_id (m # ms) (db, stats) =
     (case adopt_object env known prefix_str org_id m (db, stats) of
        (db', Ok stats') \<Rightarrow> adopt_objects env known prefix_str org_id ms (db', stats')
      | (db', Err e) \<Rightarrow> (db', Err e)
      | (db', Panic) \<Rightarrow> (db', Panic))"

fun adopt_all ::
  "adopt_env \<Rightarrow> string list \<Rightarrow> (string \<times> string) list \<Rightarrow> topic_db \<times> ReconcileFromS3Stats
     \<Rightarrow> topic_db \<times> (reconcile_error, ReconcileFromS3Stats) result" where
  "adopt_all env known [] (db, stats) = (db, Ok stats)"
| "adopt_all env known ((prefix_str, org_id) # ps) (db, stats) =
     (case ad_list env prefix_str of (ms, failed) \<Rightarrow>
      case adopt_objects env known prefix_str org_id ms (db, stats) of
        (db', Ok stats') \<Rightarrow> if failed then (db', Err ListError) else adopt_all env known ps (db', stats')
      | (db', _) \<Rightarrow> (db', Panic))"

definition reconcile_from_s3 :: "adopt_env \<Rightarrow> topic_db \<Rightarrow> topic_db \<times> (reconcile_error, ReconcileFromS3Stats) result" where
  "reconcile_from_s3 env db =
     adopt_all env (adopt_known_keys env db) (adopt_prefixes env db) (db, \<lparr>segments_found = 0, segments_registered = 0, segments_failed = 0\<rparr>)"

end
