(* ===== verification/Reconciler_Properties.thy ===== *)
theory Reconciler_Properties
  imports Reconciler Partition_Properties
begin

text \<open>
  Theorems on the reconciler: which objects a pass deletes, what happens when the organizations cannot be listed, and what is registered for
  an object that a partition writer uploaded.
\<close>

section \<open>Deleting orphans\<close>

text \<open>A key is registered when a segment of an existing partition names it.\<close>

definition registered :: "topic_db \<Rightarrow> string \<Rightarrow> bool" where
  "registered db k \<longleftrightarrow> (\<exists>(org, s) \<in> set (td_segments db). sm_s3_key s = k \<and> get_partition org (sm_topic s) (sm_partition_id s) db \<noteq> None)"

lemma collect_Ok:
  assumes "collect f xs = Ok zs"
  shows "z \<in> set zs \<longleftrightarrow> (\<exists>x \<in> set xs. \<exists>ys. f x = Ok ys \<and> z \<in> set ys)"
  using assms by (induction xs arbitrary: zs) (auto simp: rbind_eq_Ok)

lemma collect_all: "collect f xs = Ok zs \<Longrightarrow> x \<in> set xs \<Longrightarrow> \<exists>ys. f x = Ok ys"
  by (induction xs arbitrary: zs) (auto simp: rbind_eq_Ok)

lemma partition_known: "get_partition org t n db \<noteq> None \<longleftrightarrow> (\<exists>p \<in> set (list_partitions org t db). pt_partition_id p = n)"
  by (auto simp: get_partition_def list_partitions_def find_None_iff at_partition_def)

lemma topic_listed:
  assumes "topic_db_ok db" and "get_partition org t n db \<noteq> None"
  shows "\<exists>u \<in> set (list_topics_for_org org db). to_name u = t"
proof -
  obtain p where "(org, p) \<in> set (td_partitions db)" "pt_topic p = t"
    using assms(2) by (auto simp: get_partition_def find_None_iff at_partition_def)
  then obtain r where "(org, r) \<in> set (td_topics db)" "tr_name r = t"
    using assms(1) by (fastforce simp: topic_db_ok_def topics_ok_def)
  then show ?thesis by (force simp: list_topics_for_org_def row_to_topic_def)
qed

lemma known_keys_registered:
  assumes "topic_db_ok db" and "known_keys env db = Ok known" and "\<not> rc_orgs_fail env 1"
  shows "k \<in> set known \<longleftrightarrow> registered db k"
proof
  assume "k \<in> set known"
  then obtain org t p where "t \<in> set (list_topics_for_org org db)" "p \<in> set (list_partitions org (to_name t) db)" "k \<in> set (partition_keys org t p db)"
    using assms(2) by (auto simp: known_keys_def collect_Ok split: if_splits dest!: collect_Ok [THEN iffD1])
  then obtain s where "(org, s) \<in> set (td_segments db)" "sm_topic s = to_name t" "sm_partition_id s = pt_partition_id p" "sm_s3_key s = k"
    by (auto simp: partition_keys_def get_segments_def in_partition_def)
  moreover from this \<open>p \<in> _\<close> have "get_partition org (sm_topic s) (sm_partition_id s) db \<noteq> None" unfolding partition_known by auto
  ultimately show "registered db k" unfolding registered_def by blast
next
  assume "registered db k"
  then obtain org s where s: "(org, s) \<in> set (td_segments db)" "sm_s3_key s = k" and g: "get_partition org (sm_topic s) (sm_partition_id s) db \<noteq> None"
    by (auto simp: registered_def)
  obtain t where t: "t \<in> set (list_topics_for_org org db)" "to_name t = sm_topic s" using topic_listed [OF assms(1) g] by blast
  obtain p where p: "p \<in> set (list_partitions org (to_name t) db)" "pt_partition_id p = sm_partition_id s"
    using g t(2) unfolding partition_known by auto
  have k: "k \<in> set (partition_keys org t p db)" using s t(2) p(2) by (force simp: partition_keys_def get_segments_def in_partition_def)
  let ?h = "\<lambda>t p. if rc_segments_fail env org (to_name t) (pt_partition_id p) then Err QueryError else Ok (partition_keys org t p db)"
  let ?g = "\<lambda>t. if rc_partitions_fail env org (to_name t) then Err QueryError else collect (?h t) (list_partitions org (to_name t) db)"
  let ?f = "\<lambda>org. if rc_topics_fail env org then Err QueryError
       else collect (\<lambda>t. if rc_partitions_fail env org (to_name t) then Err QueryError
         else collect (\<lambda>p. if rc_segments_fail env org (to_name t) (pt_partition_id p) then Err QueryError else Ok (partition_keys org t p db))
           (list_partitions org (to_name t) db))
         (list_topics_for_org org db)"
  have f: "collect ?f (map or_id (list_organizations db)) = Ok known" using assms(2,3) by (simp add: known_keys_def)
  have org: "org \<in> set (map or_id (list_organizations db))"
    using s(1) assms(1) by (force simp: topic_db_ok_def segments_ok_def organization_ids_def list_organizations_def)
  obtain a where a: "?f org = Ok a" using collect_all [OF f org] by blast
  then have ga: "collect ?g (list_topics_for_org org db) = Ok a" by (simp split: if_splits)
  obtain b where b: "?g t = Ok b" using collect_all [OF ga t(1)] by blast
  then have hb: "collect (?h t) (list_partitions org (to_name t) db) = Ok b" by (simp split: if_splits)
  obtain c where c: "?h t p = Ok c" using collect_all [OF hb p(1)] by blast
  then have "k \<in> set c" using k by (simp split: if_splits)
  then have "k \<in> set b" using collect_Ok [OF hb] p(1) c by blast
  then have "k \<in> set a" using collect_Ok [OF ga] t(1) b by blast
  then show "k \<in> set known" using collect_Ok [OF f] org a by blast
qed

lemma listed_objects:
  assumes "list_segment_objects env ps = Ok ms"
  shows "m \<in> set ms \<longleftrightarrow> ends_with_seg (om_location m) \<and> (\<exists>p \<in> set ps. m \<in> set (fst (rc_list env p)))"
  using assms by (induction ps arbitrary: ms) (auto simp: rbind_eq_Ok split: if_splits prod.splits)

lemma fold_delete:
  "fst (fold (delete_object env) ks (b, n)) = filter (\<lambda>m. \<not> (om_location m \<in> set ks \<and> \<not> rc_delete_fails env (om_location m))) b"
proof (induction ks arbitrary: b n)
  case (Cons k ks)
  show ?case
  proof (cases "rc_delete_fails env k")
    case True
    then have "delete_object env k (b, n) = (b, n)" by (simp add: delete_object_def)
    then show ?thesis using True by (auto simp: Cons.IH intro!: filter_cong)
  next
    case False
    then have "delete_object env k (b, n) = (filter (\<lambda>m. om_location m \<noteq> k) b, n + 1)" by (simp add: delete_object_def)
    then show ?thesis using False by (auto simp: Cons.IH intro!: filter_cong)
  qed
qed simp

definition listed :: "reconcile_env \<Rightarrow> topic_db \<Rightarrow> object_meta \<Rightarrow> bool" where
  "listed env db m \<longleftrightarrow> (\<exists>p \<in> set (scan_prefixes (rc_orgs_fail env 0) db). m \<in> set (fst (rc_list env p)))"

text \<open>A pass reports an error only when the clock, a listing or a query failed.\<close>

lemma reconcile_completes:
  assumes "0 \<le> rc_now env" and "list_segment_objects env (scan_prefixes (rc_orgs_fail env 0) db) = Ok ms" and "known_keys env db = Ok known"
  shows "\<exists>bucket' d. reconcile env db bucket = (bucket', Ok d)"
  using assms by (cases ms) (simp_all add: reconcile_def split_def Let_def)

lemma listing_works: "(\<And>p. \<not> snd (rc_list env p)) \<Longrightarrow> \<exists>ms. list_segment_objects env ps = Ok ms"
  by (induction ps) (auto simp: case_prod_beta)

lemma reconcile_outcome:
  assumes "distinct (map om_location bucket)" and "\<And>p. set (fst (rc_list env p)) \<subseteq> set bucket" and "reconcile env db bucket = (bucket', Ok d)"
    and "\<And>known. known_keys env db = Ok known \<Longrightarrow> set known = K"
  shows "bucket' = filter (\<lambda>m. \<not> (listed env db m \<and> ends_with_seg (om_location m) \<and> rc_grace_ms env \<le> rc_now env - om_last_modified m
    \<and> om_location m \<notin> K \<and> \<not> rc_delete_fails env (om_location m))) bucket"
proof -
  obtain ms where ms: "list_segment_objects env (scan_prefixes (rc_orgs_fail env 0) db) = Ok ms"
    using assms(3) by (auto simp: reconcile_def split: if_splits result.splits)
  have in_ms: "m \<in> set ms \<longleftrightarrow> ends_with_seg (om_location m) \<and> listed env db m" for m
    using listed_objects [OF ms] by (simp add: listed_def)
  show ?thesis
  proof (cases ms)
    case Nil
    then have "\<not> (listed env db m \<and> ends_with_seg (om_location m))" for m using in_ms [of m] by auto
    then show ?thesis using assms(3) ms Nil by (auto simp: reconcile_def split: if_splits intro!: filter_True [symmetric])
  next
    case (Cons m0 rest)
    then obtain known where k: "known_keys env db = Ok known"
      using assms(3) ms by (auto simp: reconcile_def split: if_splits result.splits)
    have key: "om_location m \<in> om_location ` set (filter (is_orphan env known) ms) \<longleftrightarrow> m \<in> set ms \<and> is_orphan env known m" if "m \<in> set bucket" for m
    proof -
      have "m' = m" if "m' \<in> set ms" "om_location m' = om_location m" for m'
        using that \<open>m \<in> set bucket\<close> assms(1,2) in_ms by (auto simp: listed_def distinct_map dest: inj_onD)
      then show ?thesis by auto
    qed
    have "bucket' = fst (fold (delete_object env) (map om_location (filter (is_orphan env known) ms)) (bucket, 0))"
      using assms(3) ms k Cons by (auto simp: reconcile_def split: if_splits prod.splits)
    then show ?thesis
      using key by (auto simp: fold_delete in_ms is_orphan_def assms(4) [OF k] not_less intro!: filter_cong)
  qed
qed

text \<open>
  C12. A pass deletes exactly the orphans. When it completes and the organizations could be listed, an object disappears if and only if it was
  listed under a scanned prefix, is a segment file, is at least as old as the grace period, is not named by a segment of an existing
  partition, and its deletion did not fail. In particular no registered segment and no object within the grace period is ever deleted.
\<close>

theorem reconcile_deletes_orphans:
  assumes "db = fold run_topic_op ops topic_db_empty" and "distinct (map om_location bucket)" and "\<And>p. set (fst (rc_list env p)) \<subseteq> set bucket"
    and "\<not> rc_orgs_fail env 1" and "reconcile env db bucket = (bucket', Ok d)"
  shows "bucket' = filter (\<lambda>m. \<not> (listed env db m \<and> ends_with_seg (om_location m) \<and> rc_grace_ms env \<le> rc_now env - om_last_modified m
    \<and> \<not> registered db (om_location m) \<and> \<not> rc_delete_fails env (om_location m))) bucket"
proof -
  have ok: "topic_db_ok db" unfolding assms(1) by (rule topic_machine.run_inv) (rule topic_db_ok_empty)
  have "set known = {k. registered db k}" if "known_keys env db = Ok known" for known
    using known_keys_registered [OF ok that assms(4)] by blast
  from reconcile_outcome [OF assms(2,3,5) this] show ?thesis by simp
qed

text \<open>
  A failing query deletes registered segments. The error of listing the organizations is ignored, and then no key is known. So when that
  query fails (and the listing of objects works), a pass deletes every listed segment file that is older than the grace period, registered
  or not, and reports success.
\<close>

theorem failed_listing_deletes_segments:
  assumes "distinct (map om_location bucket)" and "\<And>p. set (fst (rc_list env p)) \<subseteq> set bucket" and "\<And>p. \<not> snd (rc_list env p)"
    and "rc_orgs_fail env 1" and "0 \<le> rc_now env" and "\<And>k. \<not> rc_delete_fails env k"
    and "m \<in> set bucket" and "listed env db m" and "ends_with_seg (om_location m)" and "rc_grace_ms env \<le> rc_now env - om_last_modified m"
  shows "\<exists>bucket' d. reconcile env db bucket = (bucket', Ok d) \<and> m \<notin> set bucket'"
proof -
  obtain ms where ms: "list_segment_objects env (scan_prefixes (rc_orgs_fail env 0) db) = Ok ms" using listing_works assms(3) by blast
  have k: "known_keys env db = Ok []" using assms(4) by (simp add: known_keys_def)
  obtain bucket' d where r: "reconcile env db bucket = (bucket', Ok d)" using reconcile_completes [OF assms(5) ms k] by blast
  have "bucket' = filter (\<lambda>m. \<not> (listed env db m \<and> ends_with_seg (om_location m) \<and> rc_grace_ms env \<le> rc_now env - om_last_modified m
    \<and> om_location m \<notin> {} \<and> \<not> rc_delete_fails env (om_location m))) bucket"
    by (rule reconcile_outcome [OF assms(1,2) r]) (simp add: k)
  then show ?thesis using r assms(6-10) by auto
qed

definition demo_object :: object_meta where
  "demo_object = \<lparr>om_location = ''data/orders/0/0.seg'', om_last_modified = 0, om_size = 9\<rparr>"

definition demo_reconcile :: "bool \<Rightarrow> reconcile_env" where
  "demo_reconcile fails = \<lparr>rc_now = 100, rc_grace_ms = 50, rc_orgs_fail = (\<lambda>i. fails \<and> i = 1), rc_list = (\<lambda>p. (if p = ''data/'' then [demo_object] else [], False)),
     rc_topics_fail = (\<lambda>_. False), rc_partitions_fail = (\<lambda>_ _. False), rc_segments_fail = (\<lambda>_ _ _. False), rc_delete_fails = (\<lambda>_. False)\<rparr>"

lemma scan_data: "''data/'' \<in> set (scan_prefixes fails db)"
proof -
  have keep: "''data/'' \<in> set ps \<Longrightarrow> ''data/'' \<in> set (fold (\<lambda>org ps. if org_prefix (or_id org) \<in> set ps then ps else ps @ [org_prefix (or_id org)]) os ps)" for os ps
    by (induction os arbitrary: ps) auto
  show ?thesis unfolding scan_prefixes_def by (rule keep) simp
qed

lemma demo_listed: "listed (demo_reconcile fails) db demo_object"
  unfolding listed_def by (rule bexI [OF _ scan_data]) (simp add: demo_reconcile_def)

theorem failed_listing_deletes_segments_witness:
  "\<exists>bucket' d. reconcile (demo_reconcile True) demo_topic_db [demo_object] = (bucket', Ok d) \<and> demo_object \<notin> set bucket'"
  by (rule failed_listing_deletes_segments [OF _ _ _ _ _ _ _ demo_listed])
    (auto simp: demo_reconcile_def demo_object_def ends_with_seg_def)

theorem reconcile_deletes_orphans_witness:
  "\<exists>d. reconcile (demo_reconcile False) (fold run_topic_op demo_tables topic_db_empty) [demo_object] = ([], Ok d)"
proof -
  let ?db = "fold run_topic_op demo_tables topic_db_empty"
  have orgs: "list_organizations ?db = [\<lparr>or_id = ''a'', or_name = ''acme'', or_slug = ''acme''\<rparr>, \<lparr>or_id = ''b'', or_name = ''bolt'', or_slug = ''bolt''\<rparr>]"
    unfolding demo_tables_eval by (simp add: list_organizations_def)
  have none: "list_topics_for_org org ?db = []" for org unfolding demo_tables_eval by (simp add: list_topics_for_org_def topic_db_empty_def)
  have k: "known_keys (demo_reconcile False) ?db = Ok []" by (simp add: known_keys_def orgs none demo_reconcile_def)
  have l: "\<exists>ms. list_segment_objects (demo_reconcile False) ps = Ok ms" for ps by (rule listing_works) (simp add: demo_reconcile_def)
  obtain bucket' d where r: "reconcile (demo_reconcile False) ?db [demo_object] = (bucket', Ok d)"
    using l reconcile_completes [OF _ _ k] by (fastforce simp: demo_reconcile_def)
  have "\<not> registered ?db k" for k unfolding demo_tables_eval by (simp add: registered_def topic_db_empty_def)
  moreover have "set (fst (rc_list (demo_reconcile False) p)) \<subseteq> set [demo_object]" for p by (auto simp: demo_reconcile_def)
  moreover have "rc_grace_ms (demo_reconcile False) \<le> rc_now (demo_reconcile False) - om_last_modified demo_object"
    "\<not> rc_orgs_fail (demo_reconcile False) 1" "\<not> rc_delete_fails (demo_reconcile False) k" "ends_with_seg (om_location demo_object)" for k
    by (simp_all add: demo_reconcile_def demo_object_def ends_with_seg_def)
  ultimately have "bucket' = []" using reconcile_deletes_orphans [OF refl _ _ _ r] demo_listed [of False ?db] by simp
  with r show ?thesis by simp
qed

section \<open>Registering uploaded segments\<close>

lemma split_on_none: "c \<notin> set s \<Longrightarrow> split_on c s = [s]"
  by (induction s) auto

lemma split_on_step: "c \<notin> set s \<Longrightarrow> split_on c (s @ c # rest) = s # split_on c rest"
  by (induction s) auto

lemma digits_no_slash: "list_all is_digit s \<Longrightarrow> CHR ''/'' \<notin> set s"
  by (auto simp: list_all_iff is_digit_def)

lemma read_zeros: "read_nat (replicate k (CHR ''0'') @ s) = read_nat s"
  by (induction k) (simp_all add: read_nat_def)

lemma show_nat_nonempty: "show_nat n \<noteq> []"
  by (subst show_nat.simps) simp

lemma pad20_facts: "list_all is_digit (pad20 n)" "pad20 n \<noteq> []" "read_nat (pad20 n) = n"
  using show_nat_digits [of n] show_nat_nonempty [of n]
  by (auto simp: pad20_def read_zeros read_show_nat list_all_iff is_digit_def)

lemma parse_digits:
  assumes "list_all is_digit s" and "s \<noteq> []" and "read_nat s < 2 ^ w"
  shows "parse_uint w s = Some (read_nat s)"
proof -
  have "take 1 s \<noteq> ''+''" using assms(1,2) by (cases s) (auto simp: is_digit_def)
  then show ?thesis using assms by (simp add: parse_uint_def)
qed

lemma trim_digits:
  assumes "list_all is_digit s"
  shows "trim_end_seg (s @ ''.seg'') = s"
proof -
  have "\<not> ends_with_seg s"
  proof
    assume "ends_with_seg s"
    then have "CHR ''g'' \<in> set s" unfolding ends_with_seg_def by (metis in_set_dropD list.set_intros(1) list.set_intros(2))
    with assms show False by (auto simp: list_all_iff is_digit_def)
  qed
  then show ?thesis by (subst trim_end_seg.simps) (simp add: ends_with_seg_def trim_end_seg.simps [of s])
qed

lemma parse_written_key:
  assumes "CHR ''/'' \<notin> set (pw_topic pw)"
  shows "parse_segment_key (pw_s3_data_prefix pw @ ''/'') (segment_key pw base) = Some (pw_topic pw, pw_partition_id pw, base)"
proof -
  let ?p = "show_nat (unat (pw_partition_id pw))" and ?b = "pad20 (unat base)"
  have "split_on (CHR ''/'') (pw_topic pw @ ''/'' @ ?p @ ''/'' @ ?b @ ''.seg'') = [pw_topic pw, ?p, ?b @ ''.seg'']"
    using assms digits_no_slash [OF show_nat_digits] digits_no_slash [OF pad20_facts(1)]
    by (simp add: split_on_step split_on_none)
  moreover have "parse_uint 32 ?p = Some (unat (pw_partition_id pw))"
    using parse_digits [OF show_nat_digits show_nat_nonempty, of "unat (pw_partition_id pw)" 32] unsigned_less [of "pw_partition_id pw", where ?'a = nat]
    by (simp add: read_show_nat)
  moreover have "parse_uint 64 ?b = Some (unat base)"
    using parse_digits [OF pad20_facts(1,2), of "unat base" 64] unsigned_less [of base, where ?'a = nat] by (simp add: pad20_facts(3))
  ultimately show ?thesis
    by (simp add: parse_segment_key_def segment_key_def Let_def trim_digits [OF pad20_facts(1)])
qed

lemma written_header:
  assumes "rs \<noteq> []" and "c \<noteq> CompZstd" and "write_segment lz4 crc32 c rs = Ok data"
  shows "\<exists>h. read_header (take HEADER_SIZE data) = Ok h \<and> sh_base_offset h = rec_offset (hd rs) \<and> sh_end_offset h = rec_offset (last rs)
    \<and> sh_record_count h = of_nat (length rs)"
proof -
  obtain blks where b: "concat blks = rs" "data = segment_image lz4 crc32 c blks"
    using write_segment_layout [OF assms(1,2), of lz4 crc32] assms(3) by auto
  have "take HEADER_SIZE data = header_image c blks"
    by (simp add: b(2) segment_image_def covered_image_def blocks_image_def)
  then show ?thesis using read_header_image [of c blks "[]"] by (simp add: image_header_def b(1))
qed

lemma find_set_watermark:
  "find (at_partition org topic pid) (map (\<lambda>r. if at_partition org topic pid r then (fst r, (snd r)\<lparr>pt_high_watermark := w\<rparr>) else r) ps)
     = map_option (\<lambda>r. (fst r, (snd r)\<lparr>pt_high_watermark := w\<rparr>)) (find (at_partition org topic pid) ps)"
  by (induction ps) (auto simp: at_partition_def)

lemma ends_with_seg_append: "ends_with_seg (s @ ''.seg'')"
  by (simp add: ends_with_seg_def)

lemma raise_watermark_max:
  assumes "get_partition org topic pid db = Some p" and "\<not> ad_get_fails env key" and "\<not> ad_update_fails env key"
  shows "map_option pt_high_watermark (get_partition org topic pid (raise_watermark env key org topic pid w db)) = Some (max (pt_high_watermark p) w)"
    and "td_segments (raise_watermark env key org topic pid w db) = td_segments db"
proof -
  have "\<exists>r \<in> set (td_partitions db). at_partition org topic pid r"
    using assms(1) by (auto simp: get_partition_def find_Some_iff)
  moreover have "map_option pt_high_watermark (get_partition org topic pid (set_watermark org topic pid w db)) = Some w"
    using find_set_watermark [of org topic pid w] assms(1) by (auto simp: get_partition_def set_watermark_def)
  ultimately show "map_option pt_high_watermark (get_partition org topic pid (raise_watermark env key org topic pid w db)) = Some (max (pt_high_watermark p) w)"
    and "td_segments (raise_watermark env key org topic pid w db) = td_segments db"
    using assms by (auto simp: raise_watermark_def update_high_watermark_def max_def not_less set_watermark_def)
qed

text \<open>
  C32. A segment that was uploaded and not registered is recovered. Take the object a partition writer uploads for the records \<open>rs\<close>, in a topic whose
  name has no slash, under the prefix of the writer and with the organization's partition known. When the store accepts the row, the scan of the
  object registers a segment with exactly the identifier, topic, partition, first and last offset, number of records and key of the row that
  the writer would have registered, and the high watermark of the partition becomes the maximum of its value and the offset after the last
  record; it never moves back.
\<close>

theorem uploaded_segment_is_recovered:
  assumes "rs \<noteq> []" and "c \<noteq> CompZstd" and "write_segment lz4 crc32 c rs = Ok data"
    and "om_location meta = segment_key pw (rec_offset (hd rs))" and "ad_header env (om_location meta) = Some (take HEADER_SIZE data)"
    and "CHR ''/'' \<notin> set (pw_topic pw)" and "om_location meta \<notin> set known"
    and "sint (rec_offset (hd rs)) \<le> sint (rec_offset (last rs))" and "org \<in> set (organization_ids db)"
    and "sm_id (segment_row renv pw seg (rec_offset (hd rs)) (rec_offset (last rs)) (om_location meta) data) \<notin> (sm_id \<circ> snd) ` set (td_segments db)"
    and "get_partition org (pw_topic pw) (pw_partition_id pw) db = Some p"
    and "\<not> ad_add_fails env (om_location meta)" and "\<not> ad_get_fails env (om_location meta)" and "\<not> ad_update_fails env (om_location meta)"
  shows "\<exists>db' row. adopt_object env known (pw_s3_data_prefix pw @ ''/'') org meta (db, stats)
       = (db', Ok (stats\<lparr>segments_found := segments_found stats + 1, segments_registered := segments_registered stats + 1\<rparr>))
     \<and> td_segments db' = td_segments db @ [(org, row)]
     \<and> row = (segment_row renv pw seg (rec_offset (hd rs)) (rec_offset (last rs)) (om_location meta) data)
          \<lparr>sm_record_count := of_nat (length rs), sm_size_bytes := om_size meta, sm_s3_bucket := [], sm_created_at := of_int (om_last_modified meta),
            sm_min_timestamp := 0, sm_max_timestamp := 0\<rparr>
     \<and> map_option pt_high_watermark (get_partition org (pw_topic pw) (pw_partition_id pw) db')
       = Some (max (pt_high_watermark p) (rec_offset (last rs) + 1))"
proof -
  obtain h where h: "read_header (take HEADER_SIZE data) = Ok h" "sh_base_offset h = rec_offset (hd rs)" "sh_end_offset h = rec_offset (last rs)"
    "sh_record_count h = of_nat (length rs)" using written_header [OF assms(1-3)] by blast
  let ?row = "adopted_row (pw_topic pw, pw_partition_id pw, rec_offset (hd rs)) h meta" and ?key = "om_location meta"
  have row: "?row = (segment_row renv pw seg (rec_offset (hd rs)) (rec_offset (last rs)) ?key data)
      \<lparr>sm_record_count := of_nat (length rs), sm_size_bytes := om_size meta, sm_s3_bucket := [], sm_created_at := of_int (om_last_modified meta),
        sm_min_timestamp := 0, sm_max_timestamp := 0\<rparr>"
    by (simp add: adopted_row_def segment_row_def h)
  let ?db = "db\<lparr>td_segments := td_segments db @ [(org, ?row)]\<rparr>"
  have add: "add_segment False org ?row db = (?db, Ok ())"
    using assms(8-10) by (simp add: row add_segment_def insert_segment_def segment_row_def)
  have seg: "ends_with_seg ?key" 
    using ends_with_seg_append [of "pw_s3_data_prefix pw @ ''/'' @ pw_topic pw @ ''/'' @ show_nat (unat (pw_partition_id pw)) @ ''/'' @ pad20 (unat (rec_offset (hd rs)))"]
    by (simp add: assms(4) segment_key_def)
  have part: "get_partition org (pw_topic pw) (pw_partition_id pw) ?db = Some p" using assms(11) by (simp add: get_partition_def)
  have "adopt_object env known (pw_s3_data_prefix pw @ ''/'') org meta (db, stats)
      = (raise_watermark env ?key org (pw_topic pw) (pw_partition_id pw) (rec_offset (last rs) + 1) ?db,
         Ok (stats\<lparr>segments_found := segments_found stats + 1, segments_registered := segments_registered stats + 1\<rparr>))"
    using seg add assms(5,7,12) parse_written_key [OF assms(6), of "rec_offset (hd rs)"] assms(4) by (simp add: adopt_object_def h(1,3))
  then show ?thesis using raise_watermark_max [OF part assms(13,14)] row by auto
qed

definition demo_uploaded :: object_meta where
  "demo_uploaded = \<lparr>om_location = segment_key (shop_writer ''a'') 100, om_last_modified = 7, om_size = 160\<rparr>"

definition demo_adopt :: "bytes \<Rightarrow> adopt_env" where
  "demo_adopt data = \<lparr>ad_orgs_fail = (\<lambda>_. False), ad_list = (\<lambda>_. ([demo_uploaded], False)), ad_topics_fail = (\<lambda>_. False), ad_partitions_fail = (\<lambda>_ _. False),
     ad_segments_fail = (\<lambda>_ _ _. False), ad_header = (\<lambda>_. Some (take HEADER_SIZE data)), ad_add_fails = (\<lambda>_. False), ad_get_fails = (\<lambda>_. False),
     ad_update_fails = (\<lambda>_. False)\<rparr>"

theorem uploaded_segment_is_recovered_witness:
  "\<exists>data db' stats. write_segment (\<lambda>b. b) (\<lambda>_. 0) CompLz4 demo_records = Ok data
     \<and> adopt_object (demo_adopt data) [] ''org-a/data/'' ''a'' demo_uploaded
         (demo_topic_db, \<lparr>segments_found = 0, segments_registered = 0, segments_failed = 0\<rparr>) = (db', Ok stats)
     \<and> map_option pt_high_watermark (get_partition ''a'' ''orders'' 0 db') = Some 102"
proof -
  obtain data where w: "write_segment (\<lambda>b. b) (\<lambda>_. 0) CompLz4 demo_records = Ok data"
    using write_segment_layout [of demo_records CompLz4] by (auto simp: demo_records_def)
  have p: "get_partition ''a'' ''orders'' 0 demo_topic_db = Some \<lparr>pt_topic = ''orders'', pt_partition_id = 0, pt_high_watermark = 5\<rparr>"
    by (simp add: demo_topic_db_eval get_partition_def at_partition_def)
  have id: "show_nat 100 = ''100''" "show_nat 0 = ''0''" by code_simp+
  have r: "demo_records \<noteq> []" "rec_offset (hd demo_records) = 100" "rec_offset (last demo_records) = 101" by (simp_all add: demo_records_def Record_new_def)
  have pw: "pw_topic (shop_writer ''a'') = ''orders''" "pw_partition_id (shop_writer ''a'') = 0" "pw_s3_data_prefix (shop_writer ''a'') = ''org-a/data''"
    by (simp_all add: shop_writer_def)
  have env: "ad_header (demo_adopt data) k = Some (take HEADER_SIZE data)" "\<not> ad_add_fails (demo_adopt data) k" "\<not> ad_get_fails (demo_adopt data) k"
    "\<not> ad_update_fails (demo_adopt data) k" for k by (simp_all add: demo_adopt_def)
  have db: "''a'' \<in> set (organization_ids demo_topic_db)" "(sm_id \<circ> snd) ` set (td_segments demo_topic_db) = {''orders-0-0''}"
    by (simp_all add: demo_topic_db_eval organization_ids_def demo_segment_row_def)
  have row: "sm_id (segment_row shop_roll (shop_writer ''a'') seg 100 101 k data) = ''orders-0-100''" for seg k by (simp add: segment_row_def pw id)
  have loc: "om_location demo_uploaded = segment_key (shop_writer ''a'') (rec_offset (hd demo_records))" by (simp add: demo_uploaded_def r)
  let ?stats = "\<lparr>segments_found = 0, segments_registered = 0, segments_failed = 0\<rparr>"
  have "\<exists>db' st. adopt_object (demo_adopt data) [] ''org-a/data/'' ''a'' demo_uploaded (demo_topic_db, ?stats) = (db', Ok st)
     \<and> map_option pt_high_watermark (get_partition ''a'' ''orders'' 0 db') = Some 102"
    using uploaded_segment_is_recovered [OF r(1) _ w loc env(1) _ _ _ db(1) _ _ env(2-4), where known = "[]" and renv = shop_roll
        and seg = "SegmentWriter_new CompLz4" and stats = ?stats, unfolded r row pw db(2), OF _ _ _ _ _ p]
    by auto
  then show ?thesis using w by blast
qed

end
