(* ===== verification/Client_Retry.thy ===== *)
theory Client_Retry
  imports Prelude
begin

text \<open>
  Retries of the client, \<^verbatim>\<open>streamhouse-client/src/retry.rs\<close>. The operation that is retried is a function of the state of the outside world, so
  that a retry sees what the attempts before it have changed. The backoff is computed with floating-point numbers; the product of the initial
  backoff and the power of the multiplier, in milliseconds, is an argument, as is the jitter. The loop returns the list of the delays it slept.
\<close>

section \<open>The policy\<close>

datatype Code = CodeOk | CodeCancelled | CodeUnknown | CodeInvalidArgument | CodeDeadlineExceeded | CodeNotFound | CodeAlreadyExists
  | CodePermissionDenied | CodeResourceExhausted | CodeFailedPrecondition | CodeAborted | CodeOutOfRange | CodeUnimplemented | CodeInternal
  | CodeUnavailable | CodeDataLoss | CodeUnauthenticated

type_synonym grpc_error = "Code \<times> string"

record RetryPolicy =
  max_retries :: nat
  initial_backoff :: nat
  max_backoff :: nat

definition RetryPolicy_default :: RetryPolicy where
  "RetryPolicy_default = \<lparr>max_retries = 5, initial_backoff = 100, max_backoff = 30000\<rparr>"

text \<open>\<open>scaled init attempt\<close> is the float product \<open>init * multiplier ^ attempt\<close>, cut to milliseconds.\<close>

definition backoff :: "(nat \<Rightarrow> nat \<Rightarrow> nat) \<Rightarrow> RetryPolicy \<Rightarrow> nat \<Rightarrow> nat" where
  "backoff scaled policy attempt = min (scaled (initial_backoff policy) attempt) (max_backoff policy)"

fun is_retryable :: "grpc_error \<Rightarrow> bool" where
  "is_retryable (code, _) =
     (case code of
        CodeUnavailable \<Rightarrow> True | CodeDeadlineExceeded \<Rightarrow> True | CodeResourceExhausted \<Rightarrow> True | CodeInternal \<Rightarrow> True
      | CodeNotFound \<Rightarrow> False | CodeFailedPrecondition \<Rightarrow> False | CodeInvalidArgument \<Rightarrow> False | CodeUnauthenticated \<Rightarrow> False
      | CodePermissionDenied \<Rightarrow> False
      | _ \<Rightarrow> False)"

section \<open>The loop\<close>

text \<open>\<open>delay\<close> gives the time slept after an attempt: the backoff, or the backoff with jitter.\<close>

function retry_loop ::
  "RetryPolicy \<Rightarrow> (nat \<Rightarrow> nat) \<Rightarrow> ('w \<Rightarrow> 'w \<times> (grpc_error, 'a) result) \<Rightarrow> nat \<Rightarrow> 'w \<Rightarrow> nat list
     \<Rightarrow> 'w \<times> nat list \<times> (grpc_error, 'a) result" where
  "retry_loop policy delay operation attempt w slept =
     (case operation w of
        (w', Ok v) \<Rightarrow> (w', slept, Ok v)
      | (w', Panic) \<Rightarrow> (w', slept, Panic)
      | (w', Err status) \<Rightarrow>
          if \<not> is_retryable status then (w', slept, Err status)
          else if attempt \<ge> max_retries policy then (w', slept, Err status)
          else retry_loop policy delay operation (attempt + 1) w' (slept @ [delay attempt]))"
  by pat_completeness auto
termination by (relation "measure (\<lambda>(policy, _, _, attempt, _, _). max_retries policy - attempt)") auto

declare retry_loop.simps [simp del]

definition retry_with_backoff ::
  "(nat \<Rightarrow> nat \<Rightarrow> nat) \<Rightarrow> RetryPolicy \<Rightarrow> ('w \<Rightarrow> 'w \<times> (grpc_error, 'a) result) \<Rightarrow> 'w \<Rightarrow> 'w \<times> nat list \<times> (grpc_error, 'a) result" where
  "retry_with_backoff scaled policy operation w = retry_loop policy (backoff scaled policy) operation 0 w []"

text \<open>\<open>jitter attempt base\<close> is the base delay times the random factor, cut to milliseconds.\<close>

definition retry_with_jittered_backoff ::
  "(nat \<Rightarrow> nat \<Rightarrow> nat) \<Rightarrow> (nat \<Rightarrow> nat \<Rightarrow> nat) \<Rightarrow> RetryPolicy \<Rightarrow> ('w \<Rightarrow> 'w \<times> (grpc_error, 'a) result) \<Rightarrow> 'w
     \<Rightarrow> 'w \<times> nat list \<times> (grpc_error, 'a) result" where
  "retry_with_jittered_backoff scaled jitter policy operation w =
     retry_loop policy (\<lambda>attempt. jitter attempt (backoff scaled policy attempt)) operation 0 w []"

section \<open>What the loop does\<close>

text \<open>The world after \<open>n\<close> calls, and the outcome of call number \<open>n\<close> (from zero).\<close>

definition after :: "('w \<Rightarrow> 'w \<times> 'r) \<Rightarrow> nat \<Rightarrow> 'w \<Rightarrow> 'w" where
  "after operation n w = ((fst \<circ> operation) ^^ n) w"

definition outcome :: "('w \<Rightarrow> 'w \<times> 'r) \<Rightarrow> nat \<Rightarrow> 'w \<Rightarrow> 'r" where
  "outcome operation n w = snd (operation (after operation n w))"

fun retried :: "(grpc_error, 'a) result \<Rightarrow> bool" where
  "retried (Err status) = is_retryable status"
| "retried _ = False"

lemma after_0 [simp]: "after operation 0 w = w"
  by (simp add: after_def)

lemma after_Suc: "after operation (Suc n) w = after operation n (fst (operation w))"
  by (simp add: after_def funpow_swap1)

lemma outcome_Suc: "outcome operation (Suc n) w = outcome operation n (fst (operation w))"
  by (simp add: outcome_def after_Suc)

lemma retry_loop_calls:
  assumes "attempt \<le> max_retries policy"
  shows "\<exists>n. attempt + n \<le> max_retries policy
     \<and> retry_loop policy delay operation attempt w slept
         = (after operation (Suc n) w, slept @ map delay [attempt ..< attempt + n], outcome operation n w)
     \<and> (\<forall>i < n. retried (outcome operation i w))
     \<and> (retried (outcome operation n w) \<longrightarrow> attempt + n = max_retries policy)"
  using assms
proof (induction policy delay operation attempt w slept rule: retry_loop.induct)
  case (1 policy delay operation attempt w slept)
  obtain w' r where o: "operation w = (w', r)" by fastforce
  show ?case
  proof (cases "retried r \<and> attempt < max_retries policy")
    case False
    then have "retry_loop policy delay operation attempt w slept = (w', slept, r)"
      by (subst retry_loop.simps) (auto simp: o split: result.split)
    then show ?thesis using False 1(2) o by (intro exI [of _ 0]) (auto simp: after_Suc outcome_def)
  next
    case True
    then obtain status where r: "r = Err status" and s: "is_retryable status" by (cases r) auto
    have step: "retry_loop policy delay operation attempt w slept = retry_loop policy delay operation (attempt + 1) w' (slept @ [delay attempt])"
      using True by (subst retry_loop.simps) (simp add: o r s)
    obtain n where n: "attempt + 1 + n \<le> max_retries policy"
      "retry_loop policy delay operation (attempt + 1) w' (slept @ [delay attempt])
         = (after operation (Suc n) w', (slept @ [delay attempt]) @ map delay [attempt + 1 ..< attempt + 1 + n], outcome operation n w')"
      "\<forall>i < n. retried (outcome operation i w')" "retried (outcome operation n w') \<longrightarrow> attempt + 1 + n = max_retries policy"
      using 1(1) [OF o [symmetric] r] s True by fastforce
    have "retried (outcome operation i w)" if "i < Suc n" for i
      using n(3) that True o by (cases i) (auto simp: outcome_Suc, simp add: outcome_def)
    moreover have "delay attempt # map delay [Suc attempt ..< Suc (attempt + n)] = map delay [attempt ..< Suc (attempt + n)]"
      by (simp add: upt_rec del: upt_Suc)
    ultimately show ?thesis using n step o
      by (intro exI [of _ "Suc n"]) (auto simp: after_Suc outcome_Suc)
  qed
qed

lemma sum_bounded: "(\<And>x. x \<in> set xs \<Longrightarrow> f x \<le> (b :: nat)) \<Longrightarrow> sum_list (map f xs) \<le> length xs * b"
  by (induction xs) (auto intro: add_mono)

text \<open>
  C26. A retried call ends, after a bounded number of calls and a bounded delay. The operation is called \<open>n + 1\<close> times with \<open>n \<le> max_retries\<close>; all calls
  but the last failed with a retryable status; the answer is the outcome of the last one, which is a retryable failure only when the retries are
  used up; and when the jitter adds at most a quarter, the loop sleeps at most \<open>max_retries\<close> times the maximal backoff and a quarter of it.
\<close>

theorem retries_are_bounded:
  assumes "\<And>attempt d. jitter attempt d \<le> d + d div 4"
  shows "\<exists>n \<le> max_retries policy. \<exists>slept.
     retry_with_jittered_backoff scaled jitter policy operation w = (after operation (n + 1) w, slept, outcome operation n w)
     \<and> (\<forall>i < n. retried (outcome operation i w)) \<and> (retried (outcome operation n w) \<longrightarrow> n = max_retries policy)
     \<and> length slept = n \<and> sum_list slept \<le> max_retries policy * (max_backoff policy + max_backoff policy div 4)"
proof -
  let ?d = "\<lambda>attempt. jitter attempt (backoff scaled policy attempt)" and ?b = "max_backoff policy + max_backoff policy div 4"
  have "?d attempt \<le> ?b" for attempt
  proof -
    have "backoff scaled policy attempt \<le> max_backoff policy" by (simp add: backoff_def)
    then have "backoff scaled policy attempt + backoff scaled policy attempt div 4 \<le> ?b" using div_le_mono by (intro add_mono)
    then show ?thesis using assms [of attempt "backoff scaled policy attempt"] by simp
  qed
  then have "sum_list (map ?d [0 ..< n]) \<le> n * ?b" for n using sum_bounded [of "[0 ..< n]" ?d ?b] by simp
  moreover have "n * ?b \<le> max_retries policy * ?b" if "n \<le> max_retries policy" for n by (rule mult_le_mono1 [OF that])
  ultimately have sum: "sum_list (map ?d [0 ..< n]) \<le> max_retries policy * ?b" if "n \<le> max_retries policy" for n
    using that le_trans by blast
  obtain n where "n \<le> max_retries policy"
    "retry_loop policy ?d operation 0 w [] = (after operation (Suc n) w, map ?d [0 ..< n], outcome operation n w)"
    "\<forall>i < n. retried (outcome operation i w)" "retried (outcome operation n w) \<longrightarrow> n = max_retries policy"
    using retry_loop_calls [of 0 policy ?d operation w "[]"] by auto
  then show ?thesis using sum by (auto simp: retry_with_jittered_backoff_def)
qed

text \<open>An operation that is unavailable twice and then answers, its world the number of calls so far.\<close>

definition flaky :: "nat \<Rightarrow> nat \<times> (grpc_error, nat) result" where
  "flaky k = (k + 1, if k < 2 then Err (CodeUnavailable, ''agent down'') else Ok k)"

theorem retries_are_bounded_witness:
  "retry_with_jittered_backoff (\<lambda>i k. i * 2 ^ k) (\<lambda>_ d. d) RetryPolicy_default flaky 0 = (3, [100, 200], Ok 2)"
proof -
  obtain n slept where r: "retry_with_jittered_backoff (\<lambda>i k. i * 2 ^ k) (\<lambda>_ d. d) RetryPolicy_default flaky 0 = (after flaky (n + 1) 0, slept, outcome flaky n 0)"
    and n: "n \<le> max_retries RetryPolicy_default" "retried (outcome flaky n 0) \<longrightarrow> n = max_retries RetryPolicy_default"
    "\<forall>i < n. retried (outcome flaky i 0)"
    using retries_are_bounded [of "\<lambda>_ d. d" RetryPolicy_default "\<lambda>i k. i * 2 ^ k" flaky 0] by auto
  have a: "after flaky k w = w + k" for k w by (induction k arbitrary: w) (simp_all add: after_Suc flaky_def)
  have o: "outcome flaky k 0 = (if k < 2 then Err (CodeUnavailable, ''agent down'') else Ok k)" for k by (simp add: outcome_def a flaky_def)
  have "n = 2" using n by (cases "n < 2") (auto simp: o RetryPolicy_default_def dest: spec [of _ 2])
  moreover have "retry_with_jittered_backoff (\<lambda>i k. i * 2 ^ k) (\<lambda>_ d. d) RetryPolicy_default flaky 0 = (3, [100, 200], Ok 2)"
    by (simp add: retry_with_jittered_backoff_def retry_loop.simps flaky_def backoff_def RetryPolicy_default_def)
  ultimately show ?thesis using r by simp
qed

end
