(* ===== verification/Client_Batch.thy ===== *)
theory Client_Batch
  imports Prelude
begin

text \<open>
  Batching in the client, \<^verbatim>\<open>streamhouse-client/src/batch.rs\<close>: a buffer for each partition, which is drained when it is full, old or flushed. The
  buffers are in a hash map, whose iteration order is not specified: the operations that iterate take the order of the keys as an argument. An
  instant is a number of milliseconds; \<open>clock k\<close> is the instant at which the loop looks at the buffer of \<open>k\<close>.
\<close>

section \<open>Records and buffers\<close>

record BatchRecord =
  br_key :: "bytes option"
  br_value :: bytes
  br_timestamp :: u64

definition record_size_bytes :: "BatchRecord \<Rightarrow> nat" where
  "record_size_bytes r =
     (let key_size = (case br_key r of None \<Rightarrow> 0 | Some k \<Rightarrow> length k); value_size = length (br_value r) in key_size + value_size + 16)"

record BatchBuffer =
  bb_records :: "BatchRecord list"
  bb_size_bytes :: nat
  bb_created_at :: nat
  bb_max_batch_size :: nat
  bb_max_batch_bytes :: nat
  bb_linger_ms :: nat

definition BatchBuffer_new :: "nat \<Rightarrow> nat \<Rightarrow> nat \<Rightarrow> nat \<Rightarrow> BatchBuffer" where
  "BatchBuffer_new now max_batch_size max_batch_bytes linger_ms =
     \<lparr>bb_records = [], bb_size_bytes = 0, bb_created_at = now, bb_max_batch_size = max_batch_size, bb_max_batch_bytes = max_batch_bytes,
      bb_linger_ms = linger_ms\<rparr>"

definition buffer_append :: "BatchRecord \<Rightarrow> BatchBuffer \<Rightarrow> BatchBuffer" where
  "buffer_append r b = b\<lparr>bb_size_bytes := bb_size_bytes b + record_size_bytes r, bb_records := bb_records b @ [r]\<rparr>"

definition batch_should_flush :: "nat \<Rightarrow> BatchBuffer \<Rightarrow> bool" where
  "batch_should_flush now b \<longleftrightarrow>
     (if bb_records b = [] then False
      else if length (bb_records b) \<ge> bb_max_batch_size b then True
      else if bb_size_bytes b \<ge> bb_max_batch_bytes b then True
      else now - bb_created_at b \<ge> bb_linger_ms b)"

definition buffer_drain :: "nat \<Rightarrow> BatchBuffer \<Rightarrow> BatchBuffer \<times> BatchRecord list" where
  "buffer_drain now b = (b\<lparr>bb_records := [], bb_size_bytes := 0, bb_created_at := now\<rparr>, bb_records b)"

section \<open>The manager\<close>

type_synonym PartitionKey = "string \<times> u32"
type_synonym batch = "PartitionKey \<times> BatchRecord list"

record BatchManager =
  bm_buffers :: "PartitionKey \<rightharpoonup> BatchBuffer"
  bm_max_batch_size :: nat
  bm_max_batch_bytes :: nat
  bm_linger_ms :: nat

definition BatchManager_new :: "nat \<Rightarrow> nat \<Rightarrow> nat \<Rightarrow> BatchManager" where
  "BatchManager_new max_batch_size max_batch_bytes linger_ms =
     \<lparr>bm_buffers = Map.empty, bm_max_batch_size = max_batch_size, bm_max_batch_bytes = max_batch_bytes, bm_linger_ms = linger_ms\<rparr>"

definition manager_append :: "nat \<Rightarrow> string \<Rightarrow> u32 \<Rightarrow> BatchRecord \<Rightarrow> BatchManager \<Rightarrow> BatchManager" where
  "manager_append now topic partition_id r m =
     (let key = (topic, partition_id);
          buffer = (case bm_buffers m key of
                      Some b \<Rightarrow> b
                    | None \<Rightarrow> BatchBuffer_new now (bm_max_batch_size m) (bm_max_batch_bytes m) (bm_linger_ms m))
      in m\<lparr>bm_buffers := (bm_buffers m)(key \<mapsto> buffer_append r buffer)\<rparr>)"

text \<open>The loop of \<^verbatim>\<open>ready_batches\<close> and of \<^verbatim>\<open>flush_all\<close>, which differ in the test.\<close>

fun drain_where :: "(PartitionKey \<Rightarrow> BatchBuffer \<Rightarrow> bool) \<Rightarrow> (PartitionKey \<Rightarrow> nat) \<Rightarrow> PartitionKey list \<Rightarrow> BatchManager \<Rightarrow> BatchManager \<times> batch list" where
  "drain_where test clock [] m = (m, [])"
| "drain_where test clock (k # ks) m =
     (case bm_buffers m k of
        None \<Rightarrow> drain_where test clock ks m
      | Some b \<Rightarrow>
          if test k b
          then (case buffer_drain (clock k) b of (b', records) \<Rightarrow>
                case drain_where test clock ks (m\<lparr>bm_buffers := (bm_buffers m)(k \<mapsto> b')\<rparr>) of (m', rest) \<Rightarrow> (m', (k, records) # rest))
          else drain_where test clock ks m)"

definition ready_batches :: "(PartitionKey \<Rightarrow> nat) \<Rightarrow> PartitionKey list \<Rightarrow> BatchManager \<Rightarrow> BatchManager \<times> batch list" where
  "ready_batches clock order m = drain_where (\<lambda>k b. batch_should_flush (clock k) b) clock order m"

definition flush_all :: "(PartitionKey \<Rightarrow> nat) \<Rightarrow> PartitionKey list \<Rightarrow> BatchManager \<Rightarrow> BatchManager \<times> batch list" where
  "flush_all clock order m = drain_where (\<lambda>_ b. bb_records b \<noteq> []) clock order m"

definition manager_stats :: "PartitionKey list \<Rightarrow> BatchManager \<Rightarrow> nat \<times> nat \<times> nat" where
  "manager_stats order m =
     (let bs = List.map_filter (bm_buffers m) order
      in (length bs, sum_list (map (length \<circ> bb_records) bs), sum_list (map bb_size_bytes bs)))"

definition get_batch_size :: "string \<Rightarrow> u32 \<Rightarrow> BatchManager \<Rightarrow> nat" where
  "get_batch_size topic partition_id m = (case bm_buffers m (topic, partition_id) of None \<Rightarrow> 0 | Some b \<Rightarrow> length (bb_records b))"

section \<open>Queues\<close>

text \<open>What a buffer stands for: the queue of the records of the partition that were not drained yet.\<close>

definition buffered :: "BatchManager \<Rightarrow> PartitionKey \<Rightarrow> BatchRecord list" where
  "buffered m k = (case bm_buffers m k of None \<Rightarrow> [] | Some b \<Rightarrow> bb_records b)"

text \<open>The records of a partition in a list of batches.\<close>

definition batched :: "PartitionKey \<Rightarrow> batch list \<Rightarrow> BatchRecord list" where
  "batched k bs = concat (map snd (filter (\<lambda>b. fst b = k) bs))"

lemma batched_simps [simp]:
  "batched k [] = []"
  "batched k (b # bs) = (if fst b = k then snd b else []) @ batched k bs"
  "batched k (bs @ cs) = batched k bs @ batched k cs"
  by (simp_all add: batched_def)

lemma buffered_new [simp]: "buffered (BatchManager_new n b l) k = []"
  by (simp add: buffered_def BatchManager_new_def)

lemma buffered_append: "buffered (manager_append now t p r m) k = buffered m k @ (if k = (t, p) then [r] else [])"
  by (auto simp: buffered_def manager_append_def buffer_append_def BatchBuffer_new_def Let_def split: option.split)

text \<open>Draining takes whole buffers: a buffer is emitted in full, as one batch that is not empty, or kept.\<close>

definition chosen :: "(PartitionKey \<Rightarrow> BatchBuffer \<Rightarrow> bool) \<Rightarrow> BatchManager \<Rightarrow> PartitionKey \<Rightarrow> bool" where
  "chosen test m k \<longleftrightarrow> (\<exists>b. bm_buffers m k = Some b \<and> test k b)"

lemma drain_where_eq:
  assumes "distinct ks"
  shows "drain_where test clock ks m =
     (m\<lparr>bm_buffers := (\<lambda>k. if k \<in> set ks \<and> chosen test m k then map_option (fst \<circ> buffer_drain (clock k)) (bm_buffers m k) else bm_buffers m k)\<rparr>,
      map (\<lambda>k. (k, buffered m k)) (filter (chosen test m) ks))"
  using assms
proof (induction ks arbitrary: m)
  case (Cons x xs)
  show ?case
  proof (cases "chosen test m x")
    case False
    then have "drain_where test clock (x # xs) m = drain_where test clock xs m" by (auto simp: chosen_def split: option.split)
    then show ?thesis using Cons False by (auto intro!: BatchManager.equality)
  next
    case True
    then obtain d where d: "bm_buffers m x = Some d" "test x d" by (auto simp: chosen_def)
    let ?m = "m\<lparr>bm_buffers := (bm_buffers m)(x \<mapsto> fst (buffer_drain (clock x) d))\<rparr>"
    have keep: "chosen test ?m k = chosen test m k" "buffered ?m k = buffered m k" "bm_buffers ?m k = bm_buffers m k" if "k \<noteq> x" for k
      using that by (simp_all add: chosen_def buffered_def)
    have ne: "k \<noteq> x" if "k \<in> set xs" for k using that Cons(2) by auto
    have "filter (chosen test ?m) xs = filter (chosen test m) xs" by (rule filter_cong [OF refl]) (rule keep(1), rule ne)
    then have bs: "map (\<lambda>k. (k, buffered ?m k)) (filter (chosen test ?m) xs) = map (\<lambda>k. (k, buffered m k)) (filter (chosen test m) xs)"
      using keep(2) ne by simp
    have fn: "(\<lambda>k. if k \<in> set xs \<and> chosen test ?m k then map_option (fst \<circ> buffer_drain (clock k)) (bm_buffers ?m k) else bm_buffers ?m k)
      = (\<lambda>k. if k \<in> set (x # xs) \<and> chosen test m k then map_option (fst \<circ> buffer_drain (clock k)) (bm_buffers m k) else bm_buffers m k)" (is "?l = ?r")
    proof
      fix k show "?l k = ?r k" using ne [of k] True d keep [of k] by (cases "k = x") auto
    qed
    have "drain_where test clock (x # xs) m = (fst (drain_where test clock xs ?m), (x, bb_records d) # snd (drain_where test clock xs ?m))"
      using d by (simp add: buffer_drain_def split: prod.split)
    moreover have "drain_where test clock xs ?m = (?m\<lparr>bm_buffers := ?l\<rparr>, map (\<lambda>k. (k, buffered ?m k)) (filter (chosen test ?m) xs))"
      using Cons by simp
    ultimately show ?thesis unfolding bs fn using True d by (simp add: buffered_def)
  qed
qed simp

lemma batched_chosen: "distinct ks \<Longrightarrow> batched k (map (\<lambda>k. (k, f k)) (filter P ks)) = (if k \<in> set ks \<and> P k then f k else [])"
  by (induction ks) auto

lemma drain_where_queue:
  assumes "drain_where test clock ks m = (m', bs)" and "distinct ks"
  shows "batched k bs @ buffered m' k = buffered m k"
    and "buffered m' k = (if k \<in> set ks \<and> chosen test m k then [] else buffered m k)"
    and "distinct (map fst bs)"
  using assms by (auto simp: drain_where_eq batched_chosen buffered_def chosen_def buffer_drain_def comp_def)

lemma drained_batch:
  assumes "drain_where test clock ks m = (m', bs)" and "distinct ks" and "b \<in> set bs"
  shows "buffered m' (fst b) = [] \<and> snd b = buffered m (fst b) \<and> (\<exists>d. bm_buffers m (fst b) = Some d \<and> test (fst b) d)"
proof -
  have "fst b \<in> set ks" "chosen test m (fst b)" "snd b = buffered m (fst b)"
    using assms by (auto simp: drain_where_eq)
  then show ?thesis using drain_where_queue(2) [OF assms(1,2)] by (simp add: chosen_def)
qed

text \<open>The configuration of the buffers and the running size are right.\<close>

definition manager_ok :: "BatchManager \<Rightarrow> bool" where
  "manager_ok m \<longleftrightarrow> (\<forall>k b. bm_buffers m k = Some b \<longrightarrow>
     bb_size_bytes b = sum_list (map record_size_bytes (bb_records b)) \<and> bb_max_batch_size b = bm_max_batch_size m
     \<and> bb_max_batch_bytes b = bm_max_batch_bytes m \<and> bb_linger_ms b = bm_linger_ms m)"

lemma manager_ok_new: "manager_ok (BatchManager_new n b l)"
  by (simp add: manager_ok_def BatchManager_new_def)

lemma manager_ok_append: "manager_ok m \<Longrightarrow> manager_ok (manager_append now t p r m)"
  by (auto simp: manager_ok_def manager_append_def buffer_append_def BatchBuffer_new_def Let_def split: option.split if_splits)

lemma manager_ok_drain: "manager_ok m \<Longrightarrow> distinct ks \<Longrightarrow> manager_ok (fst (drain_where test clock ks m))"
  by (auto simp: manager_ok_def drain_where_eq buffer_drain_def split: if_splits)

end
