(* ===== verification/Client_Producer.thy ===== *)
theory Client_Producer
  imports Client_Retry Client_Batch Topic_Store
begin

text \<open>
  The producer of the client library, \<^verbatim>\<open>streamhouse-client/src/producer.rs\<close>. The outside is a world \<open>'w\<close> that the remote call reads and changes;
  the metadata store, the hash, the clock and whether a connection can be opened are arguments. A hash map of agents is the list of its values
  in iteration order. A one-shot channel is a number, and \<open>cp_channels\<close> is what its receiver sees.

  \<^verbatim>\<open>send\<close> puts a record into its buffer and then its channel into the queue of pending records, under two different locks: these are two steps
  here, which another operation may come between. A flush is one step.
\<close>

section \<open>Data\<close>

datatype ClientError =
    NoAgentsAvailable string
  | ClientTopicNotFound string
  | InvalidPartition u32 string u32
  | AgentConnectionFailed string string
  | ClientAgentError string grpc_error
  | ClientMetadataError
  | ConfigError string
  | BatchFlushFailed
  | OffsetAlreadyConsumed

record AgentInfo =
  ai_agent_id :: string
  ai_address :: string

record ProduceBatchRequest =
  pb_topic :: string
  pb_partition :: u32
  pb_records :: "(bytes \<times> bytes \<times> u64) list"
  pb_producer_id :: "string option"
  pb_producer_epoch :: "u32 option"
  pb_base_sequence :: "int option"
  pb_transaction_id :: "string option"
  pb_ack_mode :: int

record ProduceBatchResponse =
  pr_first_offset :: u64
  pr_last_offset :: u64
  pr_count :: u32
  pr_duplicates_filtered :: bool

datatype channel = Waiting | Sent u64 | Closed

record ClientProducer =
  cp_agent_group :: string
  cp_agents :: "AgentInfo list"
  cp_topic_cache :: "string \<rightharpoonup> Topic"
  cp_batch :: BatchManager
  cp_retry_policy :: RetryPolicy
  cp_pending :: "PartitionKey \<rightharpoonup> nat list"
  cp_channels :: "nat \<Rightarrow> channel"
  cp_next :: nat
  cp_producer_id :: "string option"
  cp_epoch :: u32
  cp_sequences :: "PartitionKey \<rightharpoonup> int"
  cp_idempotent :: bool
  cp_transactional_id :: "string option"
  cp_transaction :: "string option"

record 'w client_env =
  ce_fetch_topic :: "string \<Rightarrow> (ClientError, Topic option) result"
  ce_hash :: "bytes \<Rightarrow> u64"
  ce_route_hash :: "string \<Rightarrow> u64"
  ce_nanos :: nat
  ce_now_ms :: u64
  ce_instant :: nat
  ce_clock :: "PartitionKey \<Rightarrow> nat"
  ce_order :: "PartitionKey list"
  ce_lease :: "string \<Rightarrow> u32 \<Rightarrow> string option"
  ce_connects :: "string \<Rightarrow> bool"
  ce_scaled :: "nat \<Rightarrow> nat \<Rightarrow> nat"
  ce_jitter :: "nat \<Rightarrow> nat \<Rightarrow> nat"
  ce_produce_batch :: "string \<Rightarrow> ProduceBatchRequest \<Rightarrow> 'w \<Rightarrow> 'w \<times> (grpc_error, ProduceBatchResponse) result"

section \<open>Sending a record\<close>

definition get_or_fetch_topic :: "'w client_env \<Rightarrow> string \<Rightarrow> ClientProducer \<Rightarrow> ClientProducer \<times> (ClientError, Topic) result" where
  "get_or_fetch_topic env topic cp =
     (case cp_topic_cache cp topic of
        Some t \<Rightarrow> (cp, Ok t)
      | None \<Rightarrow>
          (case rbind (ce_fetch_topic env topic) (ok_or (ClientTopicNotFound topic)) of
             Ok t \<Rightarrow> (cp\<lparr>cp_topic_cache := (cp_topic_cache cp)(topic \<mapsto> t)\<rparr>, Ok t)
           | r \<Rightarrow> (cp, r)))"

text \<open>The remainder by a partition count of zero panics.\<close>

definition compute_partition :: "'w client_env \<Rightarrow> bytes option \<Rightarrow> u32 \<Rightarrow> (ClientError, u32) result" where
  "compute_partition env key partition_count =
     (if partition_count = 0 then Panic
      else case key of
        Some k \<Rightarrow> Ok (of_nat (unat (ce_hash env k) mod unat partition_count))
      | None \<Rightarrow> Ok (of_nat (ce_nanos env mod unat partition_count)))"

definition choose_partition :: "'w client_env \<Rightarrow> string \<Rightarrow> bytes option \<Rightarrow> u32 option \<Rightarrow> Topic \<Rightarrow> (ClientError, u32) result" where
  "choose_partition env topic key partition_arg meta =
     (case partition_arg of
        Some p \<Rightarrow> if p \<ge> to_partition_count meta then Err (InvalidPartition p topic (to_partition_count meta - 1)) else Ok p
      | None \<Rightarrow> compute_partition env key (to_partition_count meta))"

definition send_append :: "'w client_env \<Rightarrow> PartitionKey \<Rightarrow> BatchRecord \<Rightarrow> ClientProducer \<Rightarrow> ClientProducer" where
  "send_append env k r cp = cp\<lparr>cp_batch := manager_append (ce_instant env) (fst k) (snd k) r (cp_batch cp)\<rparr>"

definition queue_of :: "ClientProducer \<Rightarrow> PartitionKey \<Rightarrow> nat list" where
  "queue_of cp k = (case cp_pending cp k of None \<Rightarrow> [] | Some q \<Rightarrow> q)"

definition send_track :: "PartitionKey \<Rightarrow> nat \<Rightarrow> ClientProducer \<Rightarrow> ClientProducer" where
  "send_track k ch cp = cp\<lparr>cp_pending := (cp_pending cp)(k \<mapsto> queue_of cp k @ [ch])\<rparr>"

record SendResult =
  sr_topic :: string
  sr_partition :: u32
  sr_offset :: "u64 option"
  sr_timestamp :: u64
  sr_receiver :: "nat option"

text \<open>The first step, up to the release of the lock on the buffers, with the channel that is created; then the whole.\<close>

definition send_buffer ::
  "'w client_env \<Rightarrow> string \<Rightarrow> bytes option \<Rightarrow> bytes \<Rightarrow> u32 option \<Rightarrow> ClientProducer \<Rightarrow> ClientProducer \<times> (ClientError, PartitionKey \<times> nat) result" where
  "send_buffer env topic key val partition_arg cp =
     (case get_or_fetch_topic env topic cp of
        (cp1, Ok meta) \<Rightarrow>
          (case choose_partition env topic key partition_arg meta of
             Ok p \<Rightarrow>
               (let k = (topic, p); ch = cp_next cp1
                in (send_append env k \<lparr>br_key = key, br_value = val, br_timestamp = ce_now_ms env\<rparr> (cp1\<lparr>cp_next := ch + 1\<rparr>), Ok (k, ch)))
           | Err e \<Rightarrow> (cp1, Err e)
           | Panic \<Rightarrow> (cp1, Panic))
      | (cp1, Err e) \<Rightarrow> (cp1, Err e)
      | (cp1, Panic) \<Rightarrow> (cp1, Panic))"

definition send ::
  "'w client_env \<Rightarrow> string \<Rightarrow> bytes option \<Rightarrow> bytes \<Rightarrow> u32 option \<Rightarrow> ClientProducer \<Rightarrow> ClientProducer \<times> (ClientError, SendResult) result" where
  "send env topic key val partition_arg cp =
     (case send_buffer env topic key val partition_arg cp of
        (cp1, Ok (k, ch)) \<Rightarrow>
          (send_track k ch cp1,
           Ok \<lparr>sr_topic = topic, sr_partition = snd k, sr_offset = None, sr_timestamp = ce_now_ms env, sr_receiver = Some ch\<rparr>)
      | (cp1, Err e) \<Rightarrow> (cp1, Err e)
      | (cp1, Panic) \<Rightarrow> (cp1, Panic))"

text \<open>\<^verbatim>\<open>wait_offset\<close> ends when the channel is no longer waiting; before that it has no outcome.\<close>

definition wait_offset :: "ClientProducer \<Rightarrow> SendResult \<Rightarrow> (SendResult \<times> (ClientError, u64) result) option" where
  "wait_offset cp sr =
     (case sr_offset sr of
        Some x \<Rightarrow> Some (sr, Ok x)
      | None \<Rightarrow>
          (case sr_receiver sr of
             None \<Rightarrow> Some (sr, Err OffsetAlreadyConsumed)
           | Some ch \<Rightarrow>
               (case cp_channels cp ch of
                  Waiting \<Rightarrow> None
                | Sent x \<Rightarrow> Some (sr\<lparr>sr_receiver := None, sr_offset := Some x\<rparr>, Ok x)
                | Closed \<Rightarrow> Some (sr\<lparr>sr_receiver := None\<rparr>, Err BatchFlushFailed))))"

section \<open>Sending a batch\<close>

definition starts_with :: "string \<Rightarrow> string \<Rightarrow> bool" where
  "starts_with p s \<longleftrightarrow> take (length p) s = p"

definition agent_url :: "string \<Rightarrow> string" where
  "agent_url address = (if starts_with ''http://'' address \<or> starts_with ''https://'' address then address else ''http://'' @ address)"

definition find_agent_for_partition :: "'w client_env \<Rightarrow> PartitionKey \<Rightarrow> ClientProducer \<Rightarrow> (ClientError, AgentInfo) result" where
  "find_agent_for_partition env k cp =
     (case Option.bind (ce_lease env (fst k) (snd k)) (\<lambda>leader. find (\<lambda>a. ai_agent_id a = leader) (cp_agents cp)) of
        Some a \<Rightarrow> Ok a
      | None \<Rightarrow>
          if cp_agents cp = [] then Err (NoAgentsAvailable ''default'')
          else Ok (cp_agents cp ! (unat (ce_route_hash env (fst k @ ''-'' @ show_nat (unat (snd k)))) mod length (cp_agents cp))))"

text \<open>The key of a record without a key is the empty string. The client's schema of the message has no timestamp, so the server reads zero.\<close>

definition batch_request :: "ClientProducer \<Rightarrow> batch \<Rightarrow> int option \<Rightarrow> ProduceBatchRequest" where
  "batch_request cp b base_sequence =
     \<lparr>pb_topic = fst (fst b), pb_partition = snd (fst b),
      pb_records = map (\<lambda>r. (case br_key r of None \<Rightarrow> [] | Some k \<Rightarrow> k, br_value r, 0)) (snd b),
      pb_producer_id = cp_producer_id cp, pb_producer_epoch = (if cp_idempotent cp then Some (cp_epoch cp) else None),
      pb_base_sequence = base_sequence, pb_transaction_id = cp_transaction cp, pb_ack_mode = 0\<rparr>"

definition send_batch_to_agent ::
  "'w client_env \<Rightarrow> ClientProducer \<Rightarrow> batch \<Rightarrow> int option \<Rightarrow> 'w \<Rightarrow> 'w \<times> (ClientError, ProduceBatchResponse) result" where
  "send_batch_to_agent env cp b base_sequence w =
     (case find_agent_for_partition env (fst b) cp of
        Ok a \<Rightarrow>
          if \<not> ce_connects env (agent_url (ai_address a)) then (w, Err (AgentConnectionFailed (ai_agent_id a) (ai_address a)))
          else (case retry_with_jittered_backoff (ce_scaled env) (ce_jitter env) (cp_retry_policy cp)
                       (ce_produce_batch env (agent_url (ai_address a)) (batch_request cp b base_sequence)) w of
                  (w', _, r) \<Rightarrow> (w', map_err (ClientAgentError (ai_agent_id a)) r))
      | Err e \<Rightarrow> (w, Err e)
      | Panic \<Rightarrow> (w, Panic))"

definition next_sequence :: "PartitionKey \<Rightarrow> nat \<Rightarrow> ClientProducer \<Rightarrow> ClientProducer \<times> int option" where
  "next_sequence k record_count cp =
     (if cp_idempotent cp \<and> cp_producer_id cp \<noteq> None
      then let seq = (case cp_sequences cp k of None \<Rightarrow> 0 | Some s \<Rightarrow> s)
           in (cp\<lparr>cp_sequences := (cp_sequences cp)(k \<mapsto> seq + int record_count)\<rparr>, Some seq)
      else (cp, None))"

text \<open>Answer the first \<open>n\<close> channels of a queue; a channel whose sender is dropped is closed.\<close>

fun answer :: "(nat \<Rightarrow> channel) \<Rightarrow> nat list \<Rightarrow> nat \<Rightarrow> (nat \<Rightarrow> channel) \<Rightarrow> nat list \<times> (nat \<Rightarrow> channel)" where
  "answer f [] n chans = ([], chans)"
| "answer f (ch # q) 0 chans = (ch # q, chans)"
| "answer f (ch # q) (Suc n) chans = answer (\<lambda>i. f (Suc i)) q n (chans(ch := f 0))"

definition settle :: "(nat \<Rightarrow> channel) \<Rightarrow> PartitionKey \<Rightarrow> nat \<Rightarrow> ClientProducer \<Rightarrow> ClientProducer" where
  "settle f k n cp =
     (case cp_pending cp k of
        None \<Rightarrow> cp
      | Some q \<Rightarrow> (case answer f q n (cp_channels cp) of (q', chans) \<Rightarrow> cp\<lparr>cp_pending := (cp_pending cp)(k \<mapsto> q'), cp_channels := chans\<rparr>))"

definition notify_pending_offsets :: "PartitionKey \<Rightarrow> u64 \<Rightarrow> nat \<Rightarrow> ClientProducer \<Rightarrow> ClientProducer" where
  "notify_pending_offsets k first_offset record_count cp = settle (\<lambda>i. Sent (first_offset + of_nat i)) k record_count cp"

definition fail_pending_offsets :: "PartitionKey \<Rightarrow> nat \<Rightarrow> ClientProducer \<Rightarrow> ClientProducer" where
  "fail_pending_offsets k record_count cp = settle (\<lambda>_. Closed) k record_count cp"

section \<open>Flushing\<close>

text \<open>What \<^verbatim>\<open>flush\<close> and the background task do with a batch.\<close>

definition send_and_settle :: "'w client_env \<Rightarrow> batch \<Rightarrow> ClientProducer \<Rightarrow> 'w \<Rightarrow> ClientProducer \<times> 'w \<times> (ClientError, unit) result" where
  "send_and_settle env b cp w =
     (case next_sequence (fst b) (length (snd b)) cp of (cp1, seq) \<Rightarrow>
      case send_batch_to_agent env cp1 b seq w of
        (w', Ok response) \<Rightarrow> (notify_pending_offsets (fst b) (pr_first_offset response) (length (snd b)) cp1, w', Ok ())
      | (w', Err e) \<Rightarrow> (fail_pending_offsets (fst b) (length (snd b)) cp1, w', Err e)
      | (w', Panic) \<Rightarrow> (cp1, w', Panic))"

fun flush_batches :: "'w client_env \<Rightarrow> batch list \<Rightarrow> ClientProducer \<Rightarrow> 'w \<Rightarrow> ClientProducer \<times> 'w \<times> (ClientError, unit) result" where
  "flush_batches env [] cp w = (cp, w, Ok ())"
| "flush_batches env (b # bs) cp w =
     (case send_and_settle env b cp w of
        (cp', w', Ok _) \<Rightarrow> flush_batches env bs cp' w'
      | (cp', w', Err e) \<Rightarrow> (cp', w', Err e)
      | (cp', w', Panic) \<Rightarrow> (cp', w', Panic))"

definition take_ready :: "'w client_env \<Rightarrow> ClientProducer \<Rightarrow> ClientProducer \<times> batch list" where
  "take_ready env cp = (case ready_batches (ce_clock env) (ce_order env) (cp_batch cp) of (m, ready) \<Rightarrow> (cp\<lparr>cp_batch := m\<rparr>, ready))"

definition flush :: "'w client_env \<Rightarrow> ClientProducer \<Rightarrow> 'w \<Rightarrow> ClientProducer \<times> 'w \<times> (ClientError, unit) result" where
  "flush env cp w = (case take_ready env cp of (cp1, ready) \<Rightarrow> flush_batches env ready cp1 w)"

text \<open>One round of the background task, which goes on after an error.\<close>

fun tick_batches :: "'w client_env \<Rightarrow> batch list \<Rightarrow> ClientProducer \<Rightarrow> 'w \<Rightarrow> ClientProducer \<times> 'w" where
  "tick_batches env [] cp w = (cp, w)"
| "tick_batches env (b # bs) cp w =
     (case send_and_settle env b cp w of
        (cp', w', Ok _) \<Rightarrow> tick_batches env bs cp' w'
      | (cp', w', Err _) \<Rightarrow> tick_batches env bs cp' w'
      | (cp', w', Panic) \<Rightarrow> (cp', w'))"

definition flush_tick :: "'w client_env \<Rightarrow> ClientProducer \<Rightarrow> 'w \<Rightarrow> ClientProducer \<times> 'w" where
  "flush_tick env cp w = (case take_ready env cp of (cp1, ready) \<Rightarrow> tick_batches env ready cp1 w)"

text \<open>Closing sends every buffer and answers no channel; then the producer is dropped, and every sender with it.\<close>

fun close_batches :: "'w client_env \<Rightarrow> batch list \<Rightarrow> ClientProducer \<Rightarrow> 'w \<Rightarrow> ClientProducer \<times> 'w" where
  "close_batches env [] cp w = (cp, w)"
| "close_batches env (b # bs) cp w =
     (case next_sequence (fst b) (length (snd b)) cp of (cp1, seq) \<Rightarrow>
      case send_batch_to_agent env cp1 b seq w of (w', _) \<Rightarrow> close_batches env bs cp1 w')"

definition close :: "'w client_env \<Rightarrow> ClientProducer \<Rightarrow> 'w \<Rightarrow> ClientProducer \<times> 'w" where
  "close env cp w =
     (case flush_all (ce_clock env) (ce_order env) (cp_batch cp) of (m, bs) \<Rightarrow>
      case close_batches env bs (cp\<lparr>cp_batch := m\<rparr>) w of (cp', w') \<Rightarrow>
        (cp'\<lparr>cp_pending := Map.empty,
             cp_channels := (\<lambda>ch. if ch < cp_next cp' \<and> cp_channels cp' ch = Waiting then Closed else cp_channels cp' ch)\<rparr>, w'))"

section \<open>Agents and transactions\<close>

definition refresh_agents :: "(metadata_error, AgentInfo list) result \<Rightarrow> ClientProducer \<Rightarrow> ClientProducer" where
  "refresh_agents answer_list cp = (case answer_list of Ok agents \<Rightarrow> cp\<lparr>cp_agents := agents\<rparr> | _ \<Rightarrow> cp)"

text \<open>The producer, its epoch and the agent of a transaction call; \<open>call\<close> is the remote procedure.\<close>

definition transaction_client :: "'w client_env \<Rightarrow> ClientProducer \<Rightarrow> (ClientError, AgentInfo) result" where
  "transaction_client env cp =
     (case cp_agents cp of
        [] \<Rightarrow> Err (NoAgentsAvailable (cp_agent_group cp))
      | a # _ \<Rightarrow> if ce_connects env (agent_url (ai_address a)) then Ok a else Err (AgentConnectionFailed (ai_agent_id a) (ai_address a)))"

definition client_begin_transaction ::
  "'w client_env \<Rightarrow> (string \<Rightarrow> u32 \<Rightarrow> 'w \<Rightarrow> 'w \<times> (grpc_error, string) result) \<Rightarrow> ClientProducer \<Rightarrow> 'w \<Rightarrow> ClientProducer \<times> 'w \<times> (ClientError, string) result" where
  "client_begin_transaction env call cp w =
     (case (cp_transactional_id cp, cp_producer_id cp) of
        (None, _) \<Rightarrow> (cp, w, Err (ConfigError ''Producer is not configured for transactions. Use .transactional_id() on builder''))
      | (Some _, None) \<Rightarrow> (cp, w, Err (ConfigError ''Producer not initialized. Idempotent mode must be enabled''))
      | (Some _, Some pid) \<Rightarrow>
          (case transaction_client env cp of
             Err e \<Rightarrow> (cp, w, Err e)
           | Panic \<Rightarrow> (cp, w, Panic)
           | Ok a \<Rightarrow>
               (case call pid (cp_epoch cp) w of
                  (w', Ok txn) \<Rightarrow> (cp\<lparr>cp_transaction := Some txn\<rparr>, w', Ok txn)
                | (w', Err e) \<Rightarrow> (cp, w', Err (ClientAgentError (ai_agent_id a) e))
                | (w', Panic) \<Rightarrow> (cp, w', Panic))))"

definition client_commit_transaction ::
  "'w client_env \<Rightarrow> (string \<Rightarrow> u32 \<Rightarrow> string \<Rightarrow> 'w \<Rightarrow> 'w \<times> (grpc_error, u64) result) \<Rightarrow> string \<Rightarrow> ClientProducer \<Rightarrow> 'w
     \<Rightarrow> ClientProducer \<times> 'w \<times> (ClientError, u64) result" where
  "client_commit_transaction env call txn cp w =
     (case cp_producer_id cp of
        None \<Rightarrow> (cp, w, Err (ConfigError ''Producer not initialized''))
      | Some pid \<Rightarrow>
          (case transaction_client env cp of
             Err e \<Rightarrow> (cp, w, Err e)
           | Panic \<Rightarrow> (cp, w, Panic)
           | Ok a \<Rightarrow>
               (case flush env cp w of
                  (cp1, w1, Err e) \<Rightarrow> (cp1, w1, Err e)
                | (cp1, w1, Panic) \<Rightarrow> (cp1, w1, Panic)
                | (cp1, w1, Ok _) \<Rightarrow>
                    (case call pid (cp_epoch cp) txn w1 of
                       (w', Ok ts) \<Rightarrow> (cp1\<lparr>cp_transaction := None\<rparr>, w', Ok ts)
                     | (w', Err e) \<Rightarrow> (cp1, w', Err (ClientAgentError (ai_agent_id a) e))
                     | (w', Panic) \<Rightarrow> (cp1, w', Panic)))))"

definition client_abort_transaction ::
  "'w client_env \<Rightarrow> (string \<Rightarrow> u32 \<Rightarrow> string \<Rightarrow> 'w \<Rightarrow> 'w \<times> (grpc_error, unit) result) \<Rightarrow> string \<Rightarrow> ClientProducer \<Rightarrow> 'w
     \<Rightarrow> ClientProducer \<times> 'w \<times> (ClientError, unit) result" where
  "client_abort_transaction env call txn cp w =
     (case cp_producer_id cp of
        None \<Rightarrow> (cp, w, Err (ConfigError ''Producer not initialized''))
      | Some pid \<Rightarrow>
          (case transaction_client env cp of
             Err e \<Rightarrow> (cp, w, Err e)
           | Panic \<Rightarrow> (cp, w, Panic)
           | Ok a \<Rightarrow>
               (case call pid (cp_epoch cp) txn w of
                  (w', Ok _) \<Rightarrow> (cp\<lparr>cp_transaction := None\<rparr>, w', Ok ())
                | (w', Err e) \<Rightarrow> (cp, w', Err (ClientAgentError (ai_agent_id a) e))
                | (w', Panic) \<Rightarrow> (cp, w', Panic))))"

section \<open>Building a producer\<close>

definition ClientProducer_init ::
  "string \<Rightarrow> AgentInfo list \<Rightarrow> nat \<Rightarrow> nat \<Rightarrow> nat \<Rightarrow> nat \<Rightarrow> bool \<Rightarrow> string option \<Rightarrow> ClientProducer" where
  "ClientProducer_init agent_group agents batch_size batch_timeout retries retry_backoff idempotent transactional_id =
     \<lparr>cp_agent_group = agent_group, cp_agents = agents, cp_topic_cache = Map.empty,
      cp_batch = BatchManager_new batch_size (1024 * 1024) batch_timeout,
      cp_retry_policy = \<lparr>max_retries = retries, initial_backoff = retry_backoff, max_backoff = 30000\<rparr>,
      cp_pending = Map.empty, cp_channels = (\<lambda>_. Waiting), cp_next = 0, cp_producer_id = None, cp_epoch = 0, cp_sequences = Map.empty,
      cp_idempotent = idempotent, cp_transactional_id = transactional_id, cp_transaction = None\<rparr>"

text \<open>An idempotent producer that finds no agent starts without an identity.\<close>

definition ClientProducer_build ::
  "'w client_env \<Rightarrow> ('w \<Rightarrow> 'w \<times> (grpc_error, string \<times> u32) result) \<Rightarrow> ClientProducer \<Rightarrow> 'w \<Rightarrow> 'w \<times> (ClientError, ClientProducer) result" where
  "ClientProducer_build env init cp w =
     (if \<not> cp_idempotent cp \<or> cp_agents cp = [] then (w, Ok cp)
      else case transaction_client env cp of
        Err e \<Rightarrow> (w, Err e)
      | Panic \<Rightarrow> (w, Panic)
      | Ok a \<Rightarrow>
          (case init w of
             (w', Ok (pid, epoch)) \<Rightarrow> (w', Ok (cp\<lparr>cp_producer_id := Some pid, cp_epoch := epoch\<rparr>))
           | (w', Err e) \<Rightarrow> (w', Err (ClientAgentError (ai_agent_id a) e))
           | (w', Panic) \<Rightarrow> (w', Panic)))"

end
