(* ===== verification/Client_Properties.thy ===== *)
theory Client_Properties
  imports Client_Producer
begin

text \<open>
  Theorems on the producer of the client: every record that is sent is in exactly one batch or still buffered, in order, and the offset its channel
  delivers is the one the service gave the batch; what goes wrong when a flush fails, when a flush comes between the two steps of a send, when
  a transaction ends with records still buffered, and when the producer is closed.
\<close>

declare split_paired_All [simp del] split_paired_Ex [simp del]

section \<open>Channels\<close>


lemma answer_queue: "fst (answer f q n chans) = drop n q"
proof (induction q arbitrary: f n chans)
  case (Cons ch q) then show ?case by (cases n) auto
qed simp

lemma answer_other: "ch \<notin> set (take n q) \<Longrightarrow> snd (answer f q n chans) ch = chans ch"
proof (induction q arbitrary: f n chans)
  case (Cons c q) then show ?case by (cases n) auto
qed simp

lemma answer_at: "distinct q \<Longrightarrow> i < n \<Longrightarrow> i < length q \<Longrightarrow> snd (answer f q n chans) (q ! i) = f i"
proof (induction q arbitrary: f n i chans)
  case (Cons c q)
  then obtain m where n: "n = Suc m" by (cases n) auto
  show ?case
  proof (cases i)
    case 0
    have "c \<notin> set (take m q)" using Cons(2) by (auto dest: in_set_takeD)
    then show ?thesis using 0 n by (simp add: answer_other)
  next
    case (Suc j)
    then show ?thesis using Cons n by simp
  qed
qed simp

lemma queue_settle: "queue_of (settle f k n cp) k' = (if k' = k then drop n (queue_of cp k) else queue_of cp k')"
  by (auto simp: settle_def queue_of_def answer_queue [of f _ n "cp_channels cp", symmetric] split: option.split prod.split)

lemma settle_same [simp]:
  "cp_batch (settle f k n cp) = cp_batch cp" "cp_next (settle f k n cp) = cp_next cp" "cp_sequences (settle f k n cp) = cp_sequences cp"
  "cp_transaction (settle f k n cp) = cp_transaction cp" "cp_agents (settle f k n cp) = cp_agents cp"
  "cp_idempotent (settle f k n cp) = cp_idempotent cp" "cp_producer_id (settle f k n cp) = cp_producer_id cp"
  by (simp_all add: settle_def split: option.split prod.split)

lemma channel_other: "ch \<notin> set (take n (queue_of cp k)) \<Longrightarrow> cp_channels (settle f k n cp) ch = cp_channels cp ch"
  using answer_other [of ch n _ f "cp_channels cp"] by (fastforce simp: settle_def queue_of_def split: option.split prod.split)

lemma channel_at:
  "distinct (queue_of cp k) \<Longrightarrow> i < n \<Longrightarrow> i < length (queue_of cp k) \<Longrightarrow> cp_channels (settle f k n cp) (queue_of cp k ! i) = f i"
  using answer_at [of _ i n f "cp_channels cp"] by (fastforce simp: settle_def queue_of_def split: option.splits prod.splits)

lemma next_sequence_same:
  assumes "next_sequence k n cp = (cp1, seq)"
  shows "cp_batch cp1 = cp_batch cp" "cp_next cp1 = cp_next cp" "cp_channels cp1 = cp_channels cp" "queue_of cp1 k' = queue_of cp k'"
    "cp_pending cp1 = cp_pending cp" "cp_transaction cp1 = cp_transaction cp" "cp_agents cp1 = cp_agents cp" "cp_retry_policy cp1 = cp_retry_policy cp"
  using assms by (auto simp: next_sequence_def queue_of_def Let_def split: if_splits)

section \<open>Runs of sends and background flushes\<close>

text \<open>A run records the answers to the batches and, for each channel, the record it was made for.\<close>

type_synonym event = "batch \<times> (ClientError, ProduceBatchResponse) result"

record 'w client_run =
  cr_producer :: ClientProducer
  cr_world :: 'w
  cr_events :: "event list"
  cr_sends :: "(PartitionKey \<times> BatchRecord) list"

datatype 'w client_op = Send "'w client_env" string "bytes option" bytes "u32 option" | Tick "'w client_env"

fun tick_events :: "'w client_env \<Rightarrow> batch list \<Rightarrow> ClientProducer \<Rightarrow> 'w \<Rightarrow> event list" where
  "tick_events env [] cp w = []"
| "tick_events env (b # bs) cp w =
     (case next_sequence (fst b) (length (snd b)) cp of (cp1, seq) \<Rightarrow>
      case send_and_settle env b cp w of (cp', w', _) \<Rightarrow> (b, snd (send_batch_to_agent env cp1 b seq w)) # tick_events env bs cp' w')"

fun run_client_op :: "'w client_op \<Rightarrow> 'w client_run \<Rightarrow> 'w client_run" where
  "run_client_op (Send env topic key val p) run =
     (case send env topic key val p (cr_producer run) of
        (cp', Ok sr) \<Rightarrow> run\<lparr>cr_producer := cp',
            cr_sends := cr_sends run @ [((topic, sr_partition sr), \<lparr>br_key = key, br_value = val, br_timestamp = ce_now_ms env\<rparr>)]\<rparr>
      | (cp', _) \<Rightarrow> run\<lparr>cr_producer := cp'\<rparr>)"
| "run_client_op (Tick env) run =
     (case take_ready env (cr_producer run) of (cp1, bs) \<Rightarrow>
      case tick_batches env bs cp1 (cr_world run) of (cp', w') \<Rightarrow>
        run\<lparr>cr_producer := cp', cr_world := w', cr_events := cr_events run @ tick_events env bs cp1 (cr_world run)\<rparr>)"

text \<open>The hash map is iterated without repetition, and the remote call does not panic.\<close>

definition env_ok :: "'w client_env \<Rightarrow> bool" where
  "env_ok env \<longleftrightarrow> distinct (ce_order env) \<and> (\<forall>address req w. snd (ce_produce_batch env address req w) \<noteq> Panic)"

fun op_env :: "'w client_op \<Rightarrow> 'w client_env" where
  "op_env (Send env _ _ _ _) = env"
| "op_env (Tick env) = env"

definition delivers :: "event list \<Rightarrow> u64 \<Rightarrow> PartitionKey \<times> BatchRecord \<Rightarrow> bool" where
  "delivers evs x kr \<longleftrightarrow> (\<exists>b resp i. (b, Ok resp) \<in> set evs \<and> fst b = fst kr \<and> i < length (snd b) \<and> snd b ! i = snd kr \<and> x = pr_first_offset resp + of_nat i)"

definition refuses :: "event list \<Rightarrow> PartitionKey \<times> BatchRecord \<Rightarrow> bool" where
  "refuses evs kr \<longleftrightarrow> (\<exists>b e. (b, Err e) \<in> set evs \<and> fst b = fst kr \<and> snd kr \<in> set (snd b))"

definition sent_to :: "PartitionKey \<Rightarrow> (PartitionKey \<times> BatchRecord) list \<Rightarrow> BatchRecord list" where
  "sent_to k sends = map snd (filter (\<lambda>kr. fst kr = k) sends)"

definition channel_ok :: "event list \<Rightarrow> (PartitionKey \<times> BatchRecord) list \<Rightarrow> ClientProducer \<Rightarrow> nat \<Rightarrow> bool" where
  "channel_ok evs sends cp ch \<longleftrightarrow>
     (case cp_channels cp ch of
        Waiting \<Rightarrow> \<exists>k. ch \<in> set (queue_of cp k)
      | Sent x \<Rightarrow> delivers evs x (sends ! ch)
      | Closed \<Rightarrow> refuses evs (sends ! ch))"

text \<open>The invariant, with the batches \<open>bs\<close> that are drained and not sent yet.\<close>

definition queues_ok :: "batch list \<Rightarrow> (PartitionKey \<times> BatchRecord) list \<Rightarrow> ClientProducer \<Rightarrow> bool" where
  "queues_ok bs sends cp \<longleftrightarrow> (\<forall>k. map ((!) sends) (queue_of cp k) = map (Pair k) (batched k bs @ buffered (cp_batch cp) k)
     \<and> distinct (queue_of cp k) \<and> (\<forall>ch \<in> set (queue_of cp k). ch < cp_next cp))"

definition run_ok :: "batch list \<Rightarrow> 'w client_run \<Rightarrow> bool" where
  "run_ok bs run \<longleftrightarrow> (let cp = cr_producer run; sends = cr_sends run; evs = cr_events run in
     length sends = cp_next cp \<and> queues_ok bs sends cp
     \<and> (\<forall>ch < cp_next cp. channel_ok evs sends cp ch) \<and> (\<forall>ch \<ge> cp_next cp. cp_channels cp ch = Waiting)
     \<and> (\<forall>k. sent_to k sends = batched k (map fst evs) @ batched k bs @ buffered (cp_batch cp) k))"

lemma delivers_mono: "delivers evs x kr \<Longrightarrow> delivers (evs @ es) x kr"
  by (auto simp: delivers_def)

lemma refuses_mono: "refuses evs kr \<Longrightarrow> refuses (evs @ es) kr"
  by (auto simp: refuses_def)

text \<open>Answering the batch at the head: its channels are the first of its queue.\<close>

lemma settle_ok:
  assumes "run_ok (b # bs) run" and f: "\<And>i. i < length (snd b) \<Longrightarrow>
      case f i of Waiting \<Rightarrow> False | Sent x \<Rightarrow> delivers [(b, r)] x (fst b, snd b ! i) | Closed \<Rightarrow> refuses [(b, r)] (fst b, snd b ! i)"
  shows "run_ok bs (run\<lparr>cr_producer := settle f (fst b) (length (snd b)) (cr_producer run), cr_world := w, cr_events := cr_events run @ [(b, r)]\<rparr>)"
proof -
  let ?cp = "cr_producer run" and ?k = "fst b" and ?n = "length (snd b)" and ?sends = "cr_sends run" and ?evs = "cr_events run"
  let ?q = "queue_of ?cp ?k" and ?cp' = "settle f ?k ?n ?cp"
  have q: "map ((!) ?sends) (queue_of ?cp k) = map (Pair k) (batched k (b # bs) @ buffered (cp_batch ?cp) k)"
    "distinct (queue_of ?cp k)" "\<forall>ch \<in> set (queue_of ?cp k). ch < cp_next ?cp" for k
    using assms(1) by (auto simp: run_ok_def queues_ok_def Let_def)
  have len: "?n \<le> length ?q" using arg_cong [OF q(1) [of ?k], of length] by simp
  have at: "?sends ! (?q ! i) = (?k, snd b ! i)" if "i < ?n" for i
    using arg_cong [OF q(1) [of ?k], of "\<lambda>xs. xs ! i"] that len by (simp add: nth_append)
  have qs: "queues_ok bs ?sends ?cp'"
    unfolding queues_ok_def
  proof (intro allI conjI)
    fix k
    show "map ((!) ?sends) (queue_of ?cp' k) = map (Pair k) (batched k bs @ buffered (cp_batch ?cp') k)"
      using arg_cong [OF q(1) [of k], of "drop ?n"] q(1) [of k] by (auto simp: queue_settle drop_map [symmetric])
    show "distinct (queue_of ?cp' k)" using q(2) by (simp add: queue_settle)
    show "\<forall>ch \<in> set (queue_of ?cp' k). ch < cp_next ?cp'" using q(3) [of k] by (auto simp: queue_settle dest: in_set_dropD)
  qed
  have chan: "channel_ok (?evs @ [(b, r)]) ?sends ?cp' ch" if ch: "ch < cp_next ?cp" for ch
  proof (cases "ch \<in> set (take ?n ?q)")
    case True
    then obtain i where i: "i < ?n" "ch = ?q ! i" using len by (auto simp: in_set_conv_nth)
    have "cp_channels ?cp' ch = f i" using channel_at [OF q(2)] i len by simp
    then show ?thesis using f [OF i(1)] at [OF i(1)] i(2)
      by (auto simp: channel_ok_def delivers_def refuses_def split: channel.splits)
  next
    case False
    have ok: "channel_ok ?evs ?sends ?cp ch" using assms(1) ch by (simp add: run_ok_def Let_def)
    have "\<exists>k. ch \<in> set (queue_of ?cp' k)" if "ch \<in> set (queue_of ?cp k)" for k
    proof (cases "k = ?k")
      case True
      then have "ch \<in> set (drop ?n ?q)" using that False by (metis Un_iff append_take_drop_id set_append)
      then show ?thesis using True by (auto simp: queue_settle intro!: exI [of _ k])
    qed (use that in \<open>auto simp: queue_settle intro!: exI [of _ k]\<close>)
    then show ?thesis using ok channel_other [OF False]
      by (auto simp: channel_ok_def delivers_mono refuses_mono split: channel.splits)
  qed
  have "cp_channels ?cp' ch = Waiting" if "ch \<ge> cp_next ?cp" for ch
  proof -
    have "ch \<notin> set ?q" using that q(3) [of ?k] by (metis leD)
    then have "ch \<notin> set (take ?n ?q)" by (auto dest: in_set_takeD)
    then show ?thesis using channel_other assms(1) that by (auto simp: run_ok_def Let_def)
  qed
  then show ?thesis using assms(1) qs chan by (auto simp: run_ok_def Let_def)
qed

lemma retry_no_panic:
  assumes "\<And>w. snd (operation w) \<noteq> Panic"
  shows "snd (snd (retry_with_jittered_backoff scaled jitter policy operation w)) \<noteq> Panic"
  using retry_loop_calls [of 0 policy "\<lambda>a. jitter a (backoff scaled policy a)" operation w "[]"] assms
  by (auto simp: retry_with_jittered_backoff_def outcome_def)

lemma call_no_panic:
  assumes "env_ok env"
  shows "snd (send_batch_to_agent env cp b seq w) \<noteq> Panic"
proof (cases "find_agent_for_partition env (fst b) cp")
  case (Ok a)
  then show ?thesis
    using retry_no_panic [of "ce_produce_batch env (agent_url (ai_address a)) (batch_request cp b seq)" "ce_scaled env" "ce_jitter env" "cp_retry_policy cp" w] assms
    by (auto simp: send_batch_to_agent_def env_ok_def split: prod.split)
next
  case Panic
  then show ?thesis by (auto simp: find_agent_for_partition_def split: option.splits if_splits)
qed (simp add: send_batch_to_agent_def)

lemma run_ok_cong:
  assumes "run_ok bs run" and "queue_of cp = queue_of (cr_producer run)" and "cp_batch cp = cp_batch (cr_producer run)"
    and "cp_channels cp = cp_channels (cr_producer run)" and "cp_next cp = cp_next (cr_producer run)"
  shows "run_ok bs (run\<lparr>cr_producer := cp\<rparr>)"
  using assms by (simp add: run_ok_def queues_ok_def channel_ok_def Let_def cong: channel.case_cong)

lemma send_and_settle_ok:
  assumes "run_ok (b # bs) run" and "env_ok env" and "send_and_settle env b (cr_producer run) w = (cp', w', r)"
    and "next_sequence (fst b) (length (snd b)) (cr_producer run) = (cp1, seq)"
  shows "r \<noteq> Panic \<and> run_ok bs (run\<lparr>cr_producer := cp', cr_world := w', cr_events := cr_events run @ [(b, snd (send_batch_to_agent env cp1 b seq w))]\<rparr>)"
proof -
  let ?run = "run\<lparr>cr_producer := cp1\<rparr>"
  have run: "run_ok (b # bs) ?run" by (rule run_ok_cong [OF assms(1)]) (simp_all add: next_sequence_same [OF assms(4)] fun_eq_iff)
  obtain w1 res where s: "send_batch_to_agent env cp1 b seq w = (w1, res)" by fastforce
  have np: "res \<noteq> Panic" using call_no_panic [OF assms(2), of cp1 b seq w] s by simp
  then consider (ok) resp where "res = Ok resp" | (err) e where "res = Err e" by (cases res) auto
  then show ?thesis
  proof cases
    case ok
    have "run_ok bs (?run\<lparr>cr_producer := settle (\<lambda>i. Sent (pr_first_offset resp + of_nat i)) (fst b) (length (snd b)) (cr_producer ?run),
        cr_world := w1, cr_events := cr_events ?run @ [(b, res)]\<rparr>)"
      by (rule settle_ok [OF run]) (auto simp: delivers_def ok)
    then show ?thesis using assms(3) s by (auto simp: send_and_settle_def assms(4) ok notify_pending_offsets_def)
  next
    case err
    have "run_ok bs (?run\<lparr>cr_producer := settle (\<lambda>_. Closed) (fst b) (length (snd b)) (cr_producer ?run),
        cr_world := w1, cr_events := cr_events ?run @ [(b, res)]\<rparr>)"
      by (rule settle_ok [OF run]) (auto simp: refuses_def err)
    then show ?thesis using assms(3) s by (auto simp: send_and_settle_def assms(4) err fail_pending_offsets_def)
  qed
qed

lemma client_tick_ok:
  assumes "run_ok bs run" and "env_ok env" and "tick_batches env bs (cr_producer run) (cr_world run) = (cp', w')"
  shows "run_ok [] (run\<lparr>cr_producer := cp', cr_world := w', cr_events := cr_events run @ tick_events env bs (cr_producer run) (cr_world run)\<rparr>)"
  using assms
proof (induction bs arbitrary: run)
  case (Cons b bs)
  obtain cp1 seq where n: "next_sequence (fst b) (length (snd b)) (cr_producer run) = (cp1, seq)" by fastforce
  obtain cp2 w2 r where s: "send_and_settle env b (cr_producer run) (cr_world run) = (cp2, w2, r)" by (metis prod_cases3)
  let ?run = "run\<lparr>cr_producer := cp2, cr_world := w2, cr_events := cr_events run @ [(b, snd (send_batch_to_agent env cp1 b seq (cr_world run)))]\<rparr>"
  have ok: "r \<noteq> Panic" "run_ok bs ?run" using send_and_settle_ok [OF Cons(2,3) s n] by auto
  have "tick_batches env bs (cr_producer ?run) (cr_world ?run) = (cp', w')" using Cons(4) ok(1) by (cases r) (simp_all add: s)
  from Cons.IH [OF ok(2) Cons(3) this] show ?case by (simp add: n s)
qed (auto simp: run_ok_def)

lemma take_ready_ok:
  assumes "run_ok [] run" and "env_ok env" and "take_ready env (cr_producer run) = (cp, bs)"
  shows "run_ok bs (run\<lparr>cr_producer := cp\<rparr>)"
proof -
  obtain m where r: "ready_batches (ce_clock env) (ce_order env) (cp_batch (cr_producer run)) = (m, bs)" "cp = (cr_producer run)\<lparr>cp_batch := m\<rparr>"
    using assms(3) by (auto simp: take_ready_def split: prod.splits)
  have "buffered (cp_batch (cr_producer run)) k = batched k bs @ buffered m k" for k
    using drain_where_queue(1) r(1) assms(2) by (metis ready_batches_def env_ok_def)
  moreover have "queue_of cp = queue_of (cr_producer run)" by (auto simp: queue_of_def r(2))
  ultimately show ?thesis using assms(1) by (simp add: run_ok_def queues_ok_def channel_ok_def Let_def r(2) cong: channel.case_cong)
qed

lemma queue_track: "queue_of (send_track k ch cp) k' = queue_of cp k' @ (if k' = k then [ch] else [])"
  by (simp add: send_track_def queue_of_def)

lemma send_ok:
  assumes "run_ok [] run"
  shows "run_ok [] (run_client_op (Send env topic key val p) run)"
proof -
  let ?cp = "cr_producer run" and ?r = "\<lparr>br_key = key, br_value = val, br_timestamp = ce_now_ms env\<rparr>"
  obtain cp1 res where t: "get_or_fetch_topic env topic ?cp = (cp1, res)" by fastforce
  have same: "queue_of cp1 = queue_of ?cp" "cp_batch cp1 = cp_batch ?cp" "cp_channels cp1 = cp_channels ?cp" "cp_next cp1 = cp_next ?cp"
    using t by (auto simp: get_or_fetch_topic_def queue_of_def split: option.splits result.splits)
  show ?thesis
  proof (cases "\<exists>meta q. res = Ok meta \<and> choose_partition env topic key p meta = Ok q")
    case False
    then have "run_client_op (Send env topic key val p) run = run\<lparr>cr_producer := cp1\<rparr>"
      using t by (auto simp: send_def send_buffer_def split: result.splits)
    then show ?thesis using run_ok_cong [OF assms same] by simp
  next
    case True
    then obtain q where q: "send env topic key val p ?cp = (send_track (topic, q) (cp_next ?cp) (send_append env (topic, q) ?r (cp1\<lparr>cp_next := Suc (cp_next ?cp)\<rparr>)),
        Ok \<lparr>sr_topic = topic, sr_partition = q, sr_offset = None, sr_timestamp = ce_now_ms env, sr_receiver = Some (cp_next ?cp)\<rparr>)"
      using t same by (auto simp: send_def send_buffer_def Let_def)
    let ?cp' = "send_track (topic, q) (cp_next ?cp) (send_append env (topic, q) ?r (cp1\<lparr>cp_next := Suc (cp_next ?cp)\<rparr>))" and ?sends = "cr_sends run @ [((topic, q), ?r)]"
    have queue: "queue_of ?cp' k = queue_of ?cp k @ (if k = (topic, q) then [cp_next ?cp] else [])" for k
      using fun_cong [OF same(1), of k] by (auto simp: queue_track) (auto simp: queue_of_def send_append_def)
    have buf: "buffered (cp_batch ?cp') k = buffered (cp_batch ?cp) k @ (if k = (topic, q) then [?r] else [])" for k
      by (simp add: send_track_def send_append_def buffered_append same)
    have len: "length (cr_sends run) = cp_next ?cp" using assms by (simp add: run_ok_def Let_def)
    have old: "\<forall>ch \<in> set (queue_of ?cp k). ch < cp_next ?cp" for k using assms by (simp add: run_ok_def queues_ok_def Let_def)
    have nth: "map ((!) ?sends) (queue_of ?cp k) = map ((!) (cr_sends run)) (queue_of ?cp k)" for k using old len by (auto simp: nth_append)
    have chan: "cp_channels ?cp' = cp_channels ?cp" "cp_next ?cp' = Suc (cp_next ?cp)" by (simp_all add: send_track_def send_append_def same)
    have new: "?sends ! cp_next ?cp = ((topic, q), ?r)" using nth_append_length [of "cr_sends run"] len by simp
    have q0: "map ((!) (cr_sends run)) (queue_of ?cp k) = map (Pair k) (buffered (cp_batch ?cp) k)" "distinct (queue_of ?cp k)" for k
      using assms by (simp_all add: run_ok_def queues_ok_def Let_def)
    have "queues_ok [] ?sends ?cp'"
      unfolding queues_ok_def
    proof (intro allI conjI)
      fix k
      show "map ((!) ?sends) (queue_of ?cp' k) = map (Pair k) (batched k [] @ buffered (cp_batch ?cp') k)" unfolding queue buf using new by (simp add: nth q0)
      have "cp_next ?cp \<notin> set (queue_of ?cp k)" using old [of k] by blast
      then show "distinct (queue_of ?cp' k)" unfolding queue using q0(2) by auto
      show "\<forall>ch \<in> set (queue_of ?cp' k). ch < cp_next ?cp'" unfolding queue chan using old [of k] by (auto simp: less_Suc_eq)
    qed
    moreover have "channel_ok (cr_events run) ?sends ?cp' ch" if "ch < cp_next ?cp'" for ch
    proof (cases "ch = cp_next ?cp")
      case True
      then have "cp_channels ?cp' ch = Waiting" using assms by (simp add: chan run_ok_def Let_def)
      moreover have "ch \<in> set (queue_of ?cp' (topic, q))" using True by (simp add: queue)
      ultimately show ?thesis by (auto simp: channel_ok_def)
    next
      case False
      then have "channel_ok (cr_events run) (cr_sends run) ?cp ch" using assms that by (simp add: run_ok_def Let_def chan)
      then show ?thesis using False that len by (auto simp: channel_ok_def chan nth_append queue split: channel.splits)
    qed
    ultimately show ?thesis
      using assms by (auto simp: q run_ok_def Let_def chan len buf sent_to_def)
  qed
qed

definition client_ok :: "'w client_run \<Rightarrow> bool" where
  "client_ok run \<longleftrightarrow> run_ok [] run"

text \<open>An operation whose environment is not as assumed is left out of the machine.\<close>

definition client_step :: "'w client_op \<Rightarrow> 'w client_run \<Rightarrow> 'w client_run" where
  "client_step op run = (if env_ok (op_env op) then run_client_op op run else run)"

interpretation client_machine: invariant_machine client_step client_ok
proof
  fix run :: "'w client_run" and op :: "'w client_op"
  assume ok: "client_ok run"
  show "client_ok (client_step op run)"
  proof (cases op)
    case (Send env topic key val p)
    then show ?thesis using send_ok ok by (auto simp: client_step_def client_ok_def)
  next
    case (Tick env)
    obtain cp bs where t: "take_ready env (cr_producer run) = (cp, bs)" by fastforce
    obtain cp' w' where b: "tick_batches env bs cp (cr_world run) = (cp', w')" by fastforce
    show ?thesis
    proof (cases "env_ok env")
      case True
      have "run_ok bs (run\<lparr>cr_producer := cp\<rparr>)" using take_ready_ok [OF _ True t] ok by (simp add: client_ok_def)
      from client_tick_ok [OF this True] b t Tick True show ?thesis by (simp add: client_step_def client_ok_def)
    qed (use ok Tick in \<open>simp add: client_step_def\<close>)
  qed
qed

definition client_start :: "ClientProducer \<Rightarrow> 'w \<Rightarrow> 'w client_run" where
  "client_start cp w = \<lparr>cr_producer = cp, cr_world = w, cr_events = [], cr_sends = []\<rparr>"

lemma client_start_ok:
  assumes "cp_next cp = 0" and "cp_pending cp = Map.empty" and "cp_channels cp = (\<lambda>_. Waiting)" and "\<And>k. buffered (cp_batch cp) k = []"
  shows "client_ok (client_start cp w)"
  using assms by (simp add: client_ok_def run_ok_def client_start_def queues_ok_def queue_of_def sent_to_def)

lemma steps_eq_run: "(\<And>op. op \<in> set ops \<Longrightarrow> env_ok (op_env op)) \<Longrightarrow> fold client_step ops run = fold run_client_op ops run"
  by (induction ops arbitrary: run) (auto simp: client_step_def)


section \<open>A failing flush\<close>

text \<open>
  A flush that fails drops the batches after the failing one. They have been taken out of their buffers and are not sent; the queues still hold
  their channels.
\<close>

lemma flush_failure:
  assumes "take_ready env cp = (cp1, b # bs)" and "send_and_settle env b cp1 w = (cp2, w2, Err e)" and "env_ok env" and "b' \<in> set bs"
  shows "flush env cp w = (cp2, w2, Err e)" and "buffered (cp_batch cp2) (fst b') = []" and "queue_of cp2 (fst b') = queue_of cp (fst b')"
proof -
  obtain m where r: "ready_batches (ce_clock env) (ce_order env) (cp_batch cp) = (m, b # bs)" "cp1 = cp\<lparr>cp_batch := m\<rparr>"
    using assms(1) by (auto simp: take_ready_def split: prod.splits)
  note d = drain_where_queue [OF r(1) [unfolded ready_batches_def]] and dist = assms(3) [unfolded env_ok_def, THEN conjunct1]
  have ne: "fst b' \<noteq> fst b" using d(3) [OF dist] assms(4) by (auto simp: image_iff)
  obtain cp0 seq where n: "next_sequence (fst b) (length (snd b)) cp1 = (cp0, seq)" by fastforce
  have cp2: "cp2 = fail_pending_offsets (fst b) (length (snd b)) cp0"
    using assms(2) by (auto simp: send_and_settle_def n split: result.splits prod.splits)
  show "flush env cp w = (cp2, w2, Err e)" using assms(1,2) by (simp add: flush_def)
  have "buffered m (fst b') = []" using drained_batch [OF r(1) [unfolded ready_batches_def] dist] assms(4) by simp
  then show "buffered (cp_batch cp2) (fst b') = []" by (simp add: cp2 fail_pending_offsets_def next_sequence_same [OF n] r(2))
  show "queue_of cp2 (fst b') = queue_of cp (fst b')"
    using ne by (simp add: cp2 fail_pending_offsets_def queue_settle next_sequence_same [OF n] r(2)) (simp add: queue_of_def r(2))
qed

lemma ready_batch_nonempty:
  assumes "take_ready env cp = (cp1, bs)" and "env_ok env" and "b \<in> set bs"
  shows "snd b \<noteq> []" and "snd b = buffered (cp_batch cp) (fst b)"
proof -
  obtain m where "drain_where (\<lambda>k b. batch_should_flush (ce_clock env k) b) (ce_clock env) (ce_order env) (cp_batch cp) = (m, bs)"
    using assms(1) by (auto simp: take_ready_def ready_batches_def split: prod.splits)
  from drained_batch [OF this _ assms(3)] show "snd b \<noteq> []" and "snd b = buffered (cp_batch cp) (fst b)"
    using assms(2) by (auto simp: env_ok_def batch_should_flush_def buffered_def)
qed

lemma settle_Ok:
  assumes "send_and_settle env b cp w = (cp', w', Ok ())"
  shows "\<exists>cp1 seq x. next_sequence (fst b) (length (snd b)) cp = (cp1, seq)
     \<and> cp' = settle (\<lambda>i. Sent (x + of_nat i)) (fst b) (length (snd b)) cp1"
  using assms by (auto simp: send_and_settle_def notify_pending_offsets_def split: prod.splits result.splits)

lemma send_queue:
  assumes "send env topic key val p cp = (cp', Ok sr)"
  shows "queue_of cp' k = queue_of cp k @ (if k = (topic, sr_partition sr) then [cp_next cp] else [])"
    and "sr_receiver sr = Some (cp_next cp)" and "cp_channels cp' = cp_channels cp"
    and "buffered (cp_batch cp') k = buffered (cp_batch cp) k
      @ (if k = (topic, sr_partition sr) then [\<lparr>br_key = key, br_value = val, br_timestamp = ce_now_ms env\<rparr>] else [])"
proof -
  obtain cp1 res where t: "get_or_fetch_topic env topic cp = (cp1, res)" by fastforce
  have same: "cp_pending cp1 = cp_pending cp" "cp_batch cp1 = cp_batch cp" "cp_channels cp1 = cp_channels cp" "cp_next cp1 = cp_next cp"
    using t by (auto simp: get_or_fetch_topic_def split: option.splits result.splits)
  obtain q where c: "cp' = send_track (topic, q) (cp_next cp1) (send_append env (topic, q) \<lparr>br_key = key, br_value = val, br_timestamp = ce_now_ms env\<rparr>
      (cp1\<lparr>cp_next := cp_next cp1 + 1\<rparr>))" "sr_partition sr = q" "sr_receiver sr = Some (cp_next cp1)"
    using assms t by (auto simp: send_def send_buffer_def Let_def split: result.splits)
  show "queue_of cp' k = queue_of cp k @ (if k = (topic, sr_partition sr) then [cp_next cp] else [])"
    "sr_receiver sr = Some (cp_next cp)" "cp_channels cp' = cp_channels cp"
    using same c by (simp_all add: queue_track) (simp_all add: queue_of_def send_append_def send_track_def)
  show "buffered (cp_batch cp') k = buffered (cp_batch cp) k
      @ (if k = (topic, sr_partition sr) then [\<lparr>br_key = key, br_value = val, br_timestamp = ce_now_ms env\<rparr>] else [])"
    using same c by (simp add: send_track_def send_append_def buffered_append)
qed

text \<open>When a queue holds a channel too many, the next record of the partition gives its offset to that channel.\<close>

lemma late_offset:
  assumes "queue_of cp k = ch # rest" and "distinct (ch # rest)" and "cp_next cp \<notin> set (ch # rest)" and "cp_channels cp (cp_next cp) = Waiting"
    and "send env (fst k) key val (Some (snd k)) cp = (cp', Ok sr)" and "send_and_settle env' (k, [r]) cp' w = (cp'', w', Ok ())"
  shows "\<exists>x ch'. cp_channels cp'' ch = Sent x \<and> sr_receiver sr = Some ch' \<and> ch' \<noteq> ch \<and> cp_channels cp'' ch' = Waiting"
proof -
  have "sr_partition sr = snd k" using assms(5)
    by (auto simp: send_def send_buffer_def choose_partition_def Let_def split: result.splits prod.splits if_splits)
  then have q: "queue_of cp' k = ch # rest @ [cp_next cp]" using send_queue(1) [OF assms(5), of k] assms(1) by simp
  obtain cp1 seq x where s: "next_sequence k 1 cp' = (cp1, seq)" "cp'' = settle (\<lambda>i. Sent (x + of_nat i)) k 1 cp1"
    using settle_Ok [OF assms(6)] by auto
  have q1: "queue_of cp1 k = ch # rest @ [cp_next cp]" using q next_sequence_same(4) [OF s(1)] by simp
  have "distinct (queue_of cp1 k)" using assms(2,3) q1 by auto
  then have "cp_channels cp'' ch = Sent x" using channel_at [of cp1 k 0 1] q1 s(2) by simp
  moreover have "cp_next cp \<notin> set (take 1 (queue_of cp1 k))" using q1 assms(3) by simp
  then have "cp_channels cp'' (cp_next cp) = Waiting"
    using channel_other s(2) next_sequence_same(3) [OF s(1)] send_queue(3) [OF assms(5)] assms(4) by metis
  ultimately show ?thesis using send_queue(2) [OF assms(5)] assms(3) by auto
qed

text \<open>What a refused or accepted batch leaves of a run.\<close>

lemma reachable_ok:
  assumes "\<And>op. op \<in> set ops \<Longrightarrow> env_ok (op_env op)"
    and "run = fold run_client_op ops (client_start (ClientProducer_init grp agents batch_size timeout retries delay idem txn) w0)"
  shows "run_ok [] run"
proof -
  have "client_ok (client_start (ClientProducer_init grp agents batch_size timeout retries delay idem txn) w0)"
    by (rule client_start_ok) (simp_all add: ClientProducer_init_def)
  then show ?thesis using client_machine.run_inv steps_eq_run [OF assms(1)] unfolding assms(2) client_ok_def [symmetric] by metis
qed

lemma fresh_channel: "run_ok bs run \<Longrightarrow> cp_next (cr_producer run) \<notin> set (queue_of (cr_producer run) k) \<and> cp_channels (cr_producer run) (cp_next (cr_producer run)) = Waiting"
  by (auto simp: run_ok_def queues_ok_def Let_def)

lemma settled_next: "send_and_settle env b cp w = (cp', w', r) \<Longrightarrow> cp_next cp' = cp_next cp"
  by (auto simp: send_and_settle_def fail_pending_offsets_def notify_pending_offsets_def split: prod.splits result.splits dest!: next_sequence_same(2))

text \<open>
  A failing flush loses records and then reports them as written. When \<^verbatim>\<open>flush\<close> has taken several batches and one fails, the batches after it are
  neither in a buffer nor ever given to the service, and their channels stay in the queue. If the next batch to one of these partitions, a single
  record sent later, is accepted, the offset of that record is delivered to the first of the lost records, and the later record keeps
  waiting.
\<close>

theorem failed_flush_misdirects_offsets:
  fixes run :: "'w client_run" and env :: "'w client_env"
  assumes "\<And>op. op \<in> set ops \<Longrightarrow> env_ok (op_env op)"
    and "run = fold run_client_op ops (client_start (ClientProducer_init grp agents batch_size timeout retries delay idem txn) w0)"
    and "env_ok env" and "take_ready env (cr_producer run) = (cp1, b # bs)" and "send_and_settle env b cp1 w = (cp2, w2, Err e)" and "b' \<in> set bs"
    and "send env' (fst (fst b')) key val (Some (snd (fst b'))) cp2 = (cp3, Ok sr)"
    and "send_and_settle env'' (fst b', [r]) cp3 w3 = (cp4, w4, Ok ())"
  shows "flush env (cr_producer run) w = (cp2, w2, Err e) \<and> buffered (cp_batch cp2) (fst b') = []
     \<and> (\<exists>ch x ch'. cr_sends run ! ch = (fst b', hd (snd b')) \<and> cp_channels cp4 ch = Sent x
          \<and> sr_receiver sr = Some ch' \<and> ch' \<noteq> ch \<and> cp_channels cp4 ch' = Waiting)"
proof -
  let ?cp = "cr_producer run" and ?k = "fst b'"
  note ok = reachable_ok [OF assms(1,2)] and f = flush_failure [OF assms(4,5,3,6)]
  have b': "snd b' \<noteq> []" "snd b' = buffered (cp_batch ?cp) ?k" using ready_batch_nonempty [OF assms(4,3)] assms(6) by auto
  have q: "map ((!) (cr_sends run)) (queue_of ?cp ?k) = map (Pair ?k) (snd b')" "distinct (queue_of ?cp ?k)"
    using ok by (simp_all add: run_ok_def queues_ok_def Let_def b'(2))
  then obtain ch rest where ch: "queue_of ?cp ?k = ch # rest" using b'(1) by (cases "queue_of ?cp ?k") auto
  have cp1: "run_ok (b # bs) (run\<lparr>cr_producer := cp1\<rparr>)" by (rule take_ready_ok [OF ok assms(3,4)])
  obtain cp0 seq where n: "next_sequence (fst b) (length (snd b)) cp1 = (cp0, seq)" by fastforce
  obtain res where ok2: "run_ok bs (run\<lparr>cr_producer := cp2, cr_world := w2, cr_events := cr_events run @ [(b, res)]\<rparr>)"
    using send_and_settle_ok [OF cp1 assms(3), of w cp2 w2 "Err e" cp0 seq] assms(5) n by auto
  have fresh: "cp_next cp2 \<notin> set (queue_of cp2 ?k)" "cp_channels cp2 (cp_next cp2) = Waiting"
    using fresh_channel [OF ok2, of ?k] by simp_all
  obtain x ch' where "cp_channels cp4 ch = Sent x" "sr_receiver sr = Some ch'" "ch' \<noteq> ch" "cp_channels cp4 ch' = Waiting"
    using late_offset [OF _ _ _ fresh(2) assms(7,8), of ch rest] q(2) f(3) ch fresh(1) by auto
  moreover have "cr_sends run ! ch = (?k, hd (snd b'))" using q(1) ch b'(1) by (cases "snd b'") auto
  ultimately show ?thesis using f(1,2) by auto
qed

section \<open>A flush between the steps of a send\<close>

text \<open>
  A send that races with a flush shifts the offsets of its partition. When the background task runs after the record is put into its buffer and before
  its channel is put into the queue, the record is sent and its offset is delivered to nobody; its channel then waits in the queue in front of
  the next record, whose offset it gets, while the receiver of the next record waits.
\<close>

theorem racing_send_misdirects_offsets:
  assumes "\<And>op. op \<in> set ops \<Longrightarrow> env_ok (op_env op)"
    and "run = fold run_client_op ops (client_start (ClientProducer_init grp agents batch_size timeout retries delay idem txn) w0)"
    and "send_buffer env topic key val p (cr_producer run) = (cp1, Ok (k, ch))"
    and "env_ok env1" and "take_ready env1 cp1 = (cp2, [b])" and "fst b = k" and "send_and_settle env1 b cp2 w = (cp3, w3, Ok ())"
    and "send env2 (fst k) key2 val2 (Some (snd k)) (send_track k ch cp3) = (cp4, Ok sr)"
    and "send_and_settle env3 (k, [r]) cp4 w4 = (cp5, w5, Ok ())"
  shows "flush_tick env1 cp1 w = (cp3, w3) \<and> \<lparr>br_key = key, br_value = val, br_timestamp = ce_now_ms env\<rparr> \<in> set (snd b)
     \<and> cp_channels cp3 ch = Waiting
     \<and> (\<exists>x ch'. cp_channels cp5 ch = Sent x \<and> sr_receiver sr = Some ch' \<and> ch' \<noteq> ch \<and> cp_channels cp5 ch' = Waiting)"
proof -
  let ?cp = "cr_producer run" and ?r = "\<lparr>br_key = key, br_value = val, br_timestamp = ce_now_ms env\<rparr>"
  note ok = reachable_ok [OF assms(1,2)]
  obtain cp0 res where t: "get_or_fetch_topic env topic ?cp = (cp0, res)" by fastforce
  have same: "cp_pending cp0 = cp_pending ?cp" "cp_batch cp0 = cp_batch ?cp" "cp_channels cp0 = cp_channels ?cp" "cp_next cp0 = cp_next ?cp"
    using t by (auto simp: get_or_fetch_topic_def split: option.splits result.splits)
  have c: "cp1 = send_append env k ?r (cp0\<lparr>cp_next := cp_next ?cp + 1\<rparr>)" "ch = cp_next ?cp"
    using assms(3) t same(4) by (auto simp: send_buffer_def Let_def split: result.splits)
  have q1: "queue_of cp1 k' = queue_of ?cp k'" "cp_channels cp1 = cp_channels ?cp" "cp_next cp1 = Suc ch" for k'
    by (simp_all add: c send_append_def queue_of_def same)
  have buf: "buffered (cp_batch cp1) k = buffered (cp_batch ?cp) k @ [?r]" by (simp add: c send_append_def buffered_append same)
  have b: "snd b = buffered (cp_batch cp1) k" using ready_batch_nonempty(2) [OF assms(5,4)] assms(6) by simp
  have old: "length (queue_of ?cp k) = length (buffered (cp_batch ?cp) k)" "distinct (queue_of ?cp k)" "\<forall>c \<in> set (queue_of ?cp k). c < ch"
    using ok by (auto simp: run_ok_def queues_ok_def Let_def c(2) dest: arg_cong [of _ _ length] simp del: map_eq_conv) (metis length_map)
  have q2: "queue_of cp2 k' = queue_of ?cp k'" "cp_channels cp2 = cp_channels ?cp" "cp_next cp2 = Suc ch" for k'
    using assms(5) q1(2,3) q1(1) [of k'] by (auto simp: take_ready_def queue_of_def split: prod.splits)
  obtain cp6 seq x where s: "next_sequence k (length (snd b)) cp2 = (cp6, seq)" "cp3 = settle (\<lambda>i. Sent (x + of_nat i)) k (length (snd b)) cp6"
    using settle_Ok [OF assms(7)] assms(6) by auto
  have q3: "queue_of cp3 k = []" using old(1) by (simp add: s(2) queue_settle next_sequence_same [OF s(1)] q2 b buf)
  have away: "c \<notin> set (queue_of ?cp k)" if "c \<ge> ch" for c using old(3) that by force
  have wait: "cp_channels cp3 c = Waiting" if "c \<ge> ch" for c
  proof -
    have "c \<notin> set (take (length (snd b)) (queue_of cp6 k))" using away [OF that] by (auto simp: next_sequence_same [OF s(1)] q2 dest: in_set_takeD)
    then have "cp_channels cp3 c = cp_channels ?cp c" using channel_other by (metis s(2) next_sequence_same(3) [OF s(1)] q2(2))
    then show ?thesis using ok that c(2) by (simp add: run_ok_def Let_def)
  qed
  have next3: "cp_next (send_track k ch cp3) = Suc ch" using settled_next [OF assms(7)] q2(3) by (simp add: send_track_def)
  have queue: "queue_of (send_track k ch cp3) k = [ch]" using q3 by (simp add: queue_track)
  have "cp_channels (send_track k ch cp3) (Suc ch) = Waiting" using wait [of "Suc ch"] by (simp add: send_track_def)
  then obtain y ch' where "cp_channels cp5 ch = Sent y" "sr_receiver sr = Some ch'" "ch' \<noteq> ch" "cp_channels cp5 ch' = Waiting"
    using late_offset [OF queue _ _ _ assms(8,9)] next3 by auto
  moreover have "flush_tick env1 cp1 w = (cp3, w3)" using assms(5,7) by (simp add: flush_tick_def)
  ultimately show ?thesis using wait b buf by auto
qed

section \<open>The end of a transaction\<close>

lemma settle_batch:
  assumes "send_and_settle env b cp w = (cp', w', r)"
  shows "cp_batch cp' = cp_batch cp" and "cp_transaction cp' = cp_transaction cp"
  using assms by (auto simp: send_and_settle_def fail_pending_offsets_def notify_pending_offsets_def split: prod.splits result.splits
      dest: next_sequence_same(1) next_sequence_same(6))

lemma flush_batches_batch: "flush_batches env bs cp w = (cp', w', r) \<Longrightarrow> cp_batch cp' = cp_batch cp \<and> cp_transaction cp' = cp_transaction cp"
  by (induction bs arbitrary: cp w) (auto split: prod.splits result.splits dest: settle_batch)

lemma flush_keeps:
  assumes "flush env cp w = (cp', w', r)" and "distinct (ce_order env)" and "bm_buffers (cp_batch cp) k = Some b" and "\<not> batch_should_flush (ce_clock env k) b"
  shows "buffered (cp_batch cp') k = bb_records b"
proof -
  obtain m bs where m: "drain_where (\<lambda>k b. batch_should_flush (ce_clock env k) b) (ce_clock env) (ce_order env) (cp_batch cp) = (m, bs)" by fastforce
  then have "cp_batch cp' = m" using assms(1) by (auto simp: flush_def take_ready_def ready_batches_def dest!: flush_batches_batch)
  moreover have "\<not> chosen (\<lambda>k b. batch_should_flush (ce_clock env k) b) (cp_batch cp) k" using assms(3,4) by (simp add: chosen_def)
  ultimately show ?thesis using drain_where_queue(2) [OF m assms(2), of k] assms(3) by (simp add: buffered_def)
qed

text \<open>
  A committed transaction leaves records behind. \<^verbatim>\<open>commit_transaction\<close> flushes before it commits, but a flush sends only the batches that are full
  or old. So after a successful commit the records of a younger, smaller batch are still buffered, and the request that sends them later
  carries no transaction: they are written outside the transaction they were sent in. The same holds of \<^verbatim>\<open>abort_transaction\<close>, which does not look at
  the buffers at all: every buffered record of an aborted transaction is written later as an ordinary record.
\<close>

theorem ended_transaction_leaves_records:
  assumes "distinct (ce_order env)" and "bm_buffers (cp_batch cp) k = Some b" and "\<not> batch_should_flush (ce_clock env k) b"
    and "client_commit_transaction env commit txn cp w = (cp', w', Ok ts) \<or> client_abort_transaction env abort txn cp w = (cp', w', Ok ())"
  shows "buffered (cp_batch cp') k = bb_records b \<and> pb_transaction_id (batch_request cp' (k, bb_records b) seq) = None"
proof -
  consider (commit) cp1 w1 where "flush env cp w = (cp1, w1, Ok ())" "cp' = cp1\<lparr>cp_transaction := None\<rparr>" | (abort) "cp' = cp\<lparr>cp_transaction := None\<rparr>"
    using assms(4) by (auto simp: client_commit_transaction_def client_abort_transaction_def split: option.splits result.splits prod.splits)
  then show ?thesis
  proof cases
    case commit
    then show ?thesis using flush_keeps [OF commit(1) assms(1-3)] by (simp add: batch_request_def)
  next
    case abort
    then show ?thesis using assms(2) by (simp add: buffered_def batch_request_def)
  qed
qed

section \<open>Closing\<close>

lemma close_batches_same: "close_batches env bs cp w = (cp', w') \<Longrightarrow> cp_channels cp' = cp_channels cp \<and> cp_next cp' = cp_next cp"
proof (induction bs arbitrary: cp w)
  case (Cons b bs)
  obtain cp1 seq where n: "next_sequence (fst b) (length (snd b)) cp = (cp1, seq)" by fastforce
  then have "close_batches env bs cp1 (fst (send_batch_to_agent env cp1 b seq w)) = (cp', w')" using Cons(2) by (simp split: prod.splits)
  from Cons.IH [OF this] show ?case using next_sequence_same [OF n] by simp
qed auto

text \<open>Closing answers every waiting receiver with a failure, also when the service accepts its batch.\<close>

lemma close_fails_sends:
  assumes "close env cp w = (cp', w')" and "ch < cp_next cp" and "cp_channels cp ch = Waiting"
  shows "cp_channels cp' ch = Closed"
proof -
  obtain m bs cp1 w1 where "close_batches env bs (cp\<lparr>cp_batch := m\<rparr>) w = (cp1, w1)"
    "cp' = cp1\<lparr>cp_pending := Map.empty, cp_channels := (\<lambda>ch. if ch < cp_next cp1 \<and> cp_channels cp1 ch = Waiting then Closed else cp_channels cp1 ch)\<rparr>"
    using assms(1) by (auto simp: close_def split: prod.splits)
  then show ?thesis using close_batches_same assms(2,3) by fastforce
qed

section \<open>Concrete inputs\<close>

text \<open>A service that numbers the records of each batch from the count it keeps, and refuses batches of topic \<open>x\<close>.\<close>

definition counting :: "string \<Rightarrow> ProduceBatchRequest \<Rightarrow> nat \<Rightarrow> nat \<times> (grpc_error, ProduceBatchResponse) result" where
  "counting address req n =
     (if pb_topic req = ''x'' then (n, Err (CodeInvalidArgument, ''no''))
      else (n + length (pb_records req), Ok \<lparr>pr_first_offset = of_nat n, pr_last_offset = of_nat (n + length (pb_records req)) - 1,
              pr_count = of_nat (length (pb_records req)), pr_duplicates_filtered = False\<rparr>))"

definition demo_client_env :: "nat client_env" where
  "demo_client_env = \<lparr>ce_fetch_topic = (\<lambda>t. Ok (Some \<lparr>to_name = t, to_partition_count = 1, to_retention_ms = None, to_cleanup_policy = DeletePolicy,
       to_created_at = 0, to_config = Map.empty\<rparr>)),
     ce_hash = (\<lambda>_. 0), ce_route_hash = (\<lambda>_. 0), ce_nanos = 0, ce_now_ms = 7, ce_instant = 0, ce_clock = (\<lambda>_. 500), ce_order = [(''x'', 0), (''t'', 0)],
     ce_lease = (\<lambda>_ _. None), ce_connects = (\<lambda>_. True), ce_scaled = (\<lambda>i k. i * 2 ^ k), ce_jitter = (\<lambda>_ d. d), ce_produce_batch = counting\<rparr>"

abbreviation demo_client :: ClientProducer where
  "demo_client \<equiv> ClientProducer_init ''g'' [\<lparr>ai_agent_id = ''A'', ai_address = ''h:1''\<rparr>] 100 100 3 50 False None"

lemma demo_call:
  assumes "cp_agents cp = [a]"
  shows "send_batch_to_agent demo_client_env cp b seq w =
     (if fst (fst b) = ''x'' then (w, Err (ClientAgentError (ai_agent_id a) (CodeInvalidArgument, ''no'')))
      else (w + length (snd b), Ok \<lparr>pr_first_offset = of_nat w, pr_last_offset = of_nat (w + length (snd b)) - 1, pr_count = of_nat (length (snd b)),
        pr_duplicates_filtered = False\<rparr>))"
proof -
  have "retry_loop policy d (counting u (batch_request cp b seq)) 0 w [] =
     (if fst (fst b) = ''x'' then (w, [], Err (CodeInvalidArgument, ''no''))
      else (w + length (snd b), [], Ok \<lparr>pr_first_offset = of_nat w, pr_last_offset = of_nat (w + length (snd b)) - 1, pr_count = of_nat (length (snd b)),
        pr_duplicates_filtered = False\<rparr>))" for policy d u
    by (subst retry_loop.simps) (simp add: counting_def batch_request_def)
  then show ?thesis using assms
    by (simp add: send_batch_to_agent_def find_agent_for_partition_def demo_client_env_def retry_with_jittered_backoff_def)
qed

lemma demo_settle:
  assumes "cp_agents cp = [a]" and "\<not> cp_idempotent cp"
  shows "send_and_settle demo_client_env b cp w =
     (if fst (fst b) = ''x'' then (settle (\<lambda>_. Closed) (fst b) (length (snd b)) cp, w, Err (ClientAgentError (ai_agent_id a) (CodeInvalidArgument, ''no'')))
      else (settle (\<lambda>i. Sent (of_nat w + of_nat i)) (fst b) (length (snd b)) cp, w + length (snd b), Ok ()))"
  using assms by (simp add: send_and_settle_def next_sequence_def demo_call notify_pending_offsets_def fail_pending_offsets_def)

lemmas client_eval = demo_client_env_def ClientProducer_init_def client_start_def send_def send_buffer_def get_or_fetch_topic_def choose_partition_def
  compute_partition_def send_append_def send_track_def queue_of_def manager_append_def buffer_append_def BatchBuffer_new_def BatchManager_new_def
  Let_def

lemmas tick_eval = take_ready_def ready_batches_def batch_should_flush_def buffer_drain_def settle_def next_sequence_def send_and_settle_def send_batch_to_agent_def
  find_agent_for_partition_def record_size_bytes_def retry_with_jittered_backoff_def retry_loop.simps counting_def batch_request_def
  notify_pending_offsets_def fail_pending_offsets_def

lemma demo_env_ok: "env_ok demo_client_env"
  by (auto simp: env_ok_def demo_client_env_def counting_def)

abbreviation rec_of :: "bytes \<Rightarrow> BatchRecord" where
  "rec_of v \<equiv> \<lparr>br_key = None, br_value = v, br_timestamp = 7\<rparr>"


theorem failed_flush_misdirects_offsets_witness:
  "\<exists>run cp1 b b' cp2 w2 e cp3 sr cp4 w4 ch x. run = fold run_client_op [Send demo_client_env ''x'' None [1] None, Send demo_client_env ''t'' None [2] None] (client_start demo_client 40)
     \<and> take_ready demo_client_env (cr_producer run) = (cp1, [b, b']) \<and> flush demo_client_env (cr_producer run) 40 = (cp2, w2, Err e)
     \<and> send demo_client_env ''t'' None [3] (Some 0) cp2 = (cp3, Ok sr) \<and> send_and_settle demo_client_env (fst b', [rec_of [3]]) cp3 40 = (cp4, w4, Ok ())
     \<and> cr_sends run ! ch = (fst b', rec_of [2]) \<and> cp_channels cp4 ch = Sent x"
proof -
  let ?ops = "[Send demo_client_env ''x'' None [1] None, Send demo_client_env ''t'' None [2] None]"
  let ?run = "fold run_client_op ?ops (client_start demo_client 40)"
  have env: "op \<in> set ?ops \<Longrightarrow> env_ok (op_env op)" for op using demo_env_ok by auto
  obtain cp1 where r: "take_ready demo_client_env (cr_producer ?run) = (cp1, [((''x'', 0), [rec_of [1]]), ((''t'', 0), [rec_of [2]])])"
    by (simp add: client_eval tick_eval)
  obtain cp2 w2 e where s: "send_and_settle demo_client_env ((''x'', 0), [rec_of [1]]) cp1 40 = (cp2, w2, Err e)"
    using r by (simp add: client_eval tick_eval) (auto simp: client_eval tick_eval)
  obtain cp3 sr where n: "send demo_client_env ''t'' None [3] (Some 0) cp2 = (cp3, Ok sr)"
    using r s by (auto simp: client_eval tick_eval)
  obtain cp4 w4 where m: "send_and_settle demo_client_env ((''t'', 0), [rec_of [3]]) cp3 40 = (cp4, w4, Ok ())"
    using r s n by (auto simp: client_eval tick_eval)
  obtain ch x where "flush demo_client_env (cr_producer ?run) 40 = (cp2, w2, Err e)" "cr_sends ?run ! ch = ((''t'', 0), rec_of [2])" "cp_channels cp4 ch = Sent x"
    using failed_flush_misdirects_offsets [OF env refl demo_env_ok r s, of "((''t'', 0), [rec_of [2]])" demo_client_env None "[3]" cp3 sr demo_client_env "rec_of [3]" 40 cp4 w4]
      n m by (metis fst_conv snd_conv list.sel(1) list.set_intros(1))
  then show ?thesis using r n m by (metis fst_conv)
qed

theorem racing_send_misdirects_offsets_witness:
  "\<exists>cp1 k ch cp2 b cp3 w3 cp4 sr cp5 w5 x. send_buffer demo_client_env ''t'' None [1] None (cr_producer (client_start demo_client (40 :: nat))) = (cp1, Ok (k, ch))
     \<and> take_ready demo_client_env cp1 = (cp2, [b]) \<and> flush_tick demo_client_env cp1 40 = (cp3, w3)
     \<and> send demo_client_env ''t'' None [2] (Some 0) (send_track k ch cp3) = (cp4, Ok sr) \<and> send_and_settle demo_client_env (k, [rec_of [2]]) cp4 w3 = (cp5, w5, Ok ())
     \<and> cp_channels cp5 ch = Sent x"
proof -
  have run: "client_start demo_client (40 :: nat) = fold run_client_op [] (client_start demo_client 40)" by simp
  obtain cp1 ch where b: "send_buffer demo_client_env ''t'' None [1] None (cr_producer (client_start demo_client (40 :: nat))) = (cp1, Ok ((''t'', 0), ch))"
    by (simp add: client_eval)
  obtain cp2 where r: "take_ready demo_client_env cp1 = (cp2, [((''t'', 0), [rec_of [1]])])" using b by (auto simp: client_eval tick_eval)
  obtain cp3 w3 where s: "send_and_settle demo_client_env ((''t'', 0), [rec_of [1]]) cp2 40 = (cp3, w3, Ok ())" using b r by (auto simp: client_eval tick_eval)
  obtain cp4 sr where n: "send demo_client_env ''t'' None [2] (Some 0) (send_track (''t'', 0) ch cp3) = (cp4, Ok sr)" using b r s by (auto simp: client_eval tick_eval)
  obtain cp5 w5 where m: "send_and_settle demo_client_env ((''t'', 0), [rec_of [2]]) cp4 w3 = (cp5, w5, Ok ())" using b r s n by (auto simp: client_eval tick_eval)
  obtain x where "flush_tick demo_client_env cp1 40 = (cp3, w3)" "cp_channels cp5 ch = Sent x"
    using racing_send_misdirects_offsets [OF _ run b demo_env_ok r _ s, of demo_client_env None "[2]" cp4 sr demo_client_env "rec_of [2]" w3 cp5 w5] n m by auto
  then show ?thesis using b r n m by blast
qed

theorem ended_transaction_leaves_records_witness:
  "\<exists>cp cp'. client_abort_transaction demo_client_env (\<lambda>_ _ _ w. (w, Ok ())) ''T'' cp 40 = (cp', 40, Ok ()) \<and> cp_transaction cp = Some ''T''
     \<and> buffered (cp_batch cp') (''t'', 0) = [rec_of [1]] \<and> pb_transaction_id (batch_request cp' ((''t'', 0), [rec_of [1]]) None) = None"
proof -
  let ?cp = "(fst (send demo_client_env ''t'' None [1] None demo_client))\<lparr>cp_producer_id := Some ''P'', cp_transaction := Some ''T''\<rparr>"
  let ?env = "demo_client_env\<lparr>ce_clock := (\<lambda>_. 5)\<rparr>"
  obtain d where d: "bm_buffers (cp_batch ?cp) (''t'', 0) = Some d" "\<not> batch_should_flush (ce_clock ?env (''t'', 0)) d" "bb_records d = [rec_of [1]]" "distinct (ce_order ?env)"
    by (simp add: client_eval tick_eval)
  obtain cp' where a: "client_abort_transaction ?env (\<lambda>_ _ _ w. (w, Ok ())) ''T'' ?cp 40 = (cp', 40, Ok ())"
    "client_abort_transaction demo_client_env (\<lambda>_ _ _ w. (w, Ok ())) ''T'' ?cp 40 = (cp', 40, Ok ())"
    by (simp add: client_abort_transaction_def transaction_client_def client_eval)
  show ?thesis
    using ended_transaction_leaves_records [OF d(4,1,2), of "\<lambda>_ _ _ w. (w, Ok 0)" "''T''" 40 cp' 40 0 "\<lambda>_ _ _ w. (w, Ok ())"] a d(3)
    by (intro exI [of _ ?cp] exI [of _ cp']) auto
qed

end
