(* ===== verification/Agent_Router.thy ===== *)
theory Agent_Router
  imports Client_Producer Produce_Service
begin

text \<open>
  The way of a batch from the server to the agent that leads its partition: \<^verbatim>\<open>streamhouse-client/src/agent_router.rs\<close> and \<^verbatim>\<open>produce_batch\<close> of
  \<^verbatim>\<open>streamhouse-server/src/services/mod.rs\<close>. What the outside answers to attempt \<open>i\<close> of a request is in \<open>env i\<close>: the clock, the lease and agent
  rows, whether a connection can be made, and the agent's service as a function of the world. The pool of connections holds no state of its own
  that the program reads.
\<close>

section \<open>The router\<close>

datatype AgentRouterError =
    NoLeaseHolder string u32
  | LeaseExpired string u32
  | LeaseMoved string u32
  | RouterMetadataError
  | AgentNotFound string
  | GrpcError grpc_error
  | TransportError

record RouterLease =
  rl_agent_id :: string
  rl_agent_address :: string
  rl_fetched_at :: nat

record AgentRouter =
  ar_lease_cache :: "PartitionKey \<rightharpoonup> RouterLease"

definition AgentRouter_new :: AgentRouter where
  "AgentRouter_new = \<lparr>ar_lease_cache = Map.empty\<rparr>"

definition LEASE_CACHE_TTL :: nat where "LEASE_CACHE_TTL = 5000"
definition MAX_RETRIES :: nat where "MAX_RETRIES = 3"

record 'w attempt_env =
  at_instant :: nat
  at_now :: int
  at_lease :: "(metadata_error, PartitionLease option) result"
  at_agent :: "string \<Rightarrow> (metadata_error, string option) result"
  at_connects :: "string \<Rightarrow> bool"
  at_produce :: "string \<Rightarrow> string \<Rightarrow> ProduceRequest \<Rightarrow> 'w \<Rightarrow> 'w \<times> (grpc_error, ProduceResponse) result"

definition is_lease_moved_error :: "AgentRouterError \<Rightarrow> bool" where
  "is_lease_moved_error err =
     (case err of
        GrpcError (code, _) \<Rightarrow> code = CodeNotFound \<or> code = CodeFailedPrecondition
      | LeaseExpired _ _ \<Rightarrow> True
      | NoLeaseHolder _ _ \<Rightarrow> True
      | _ \<Rightarrow> False)"

definition invalidate_lease_cache :: "PartitionKey \<Rightarrow> AgentRouter \<Rightarrow> AgentRouter" where
  "invalidate_lease_cache k r = r\<lparr>ar_lease_cache := (ar_lease_cache r)(k := None)\<rparr>"

definition lookup_agent :: "'w attempt_env \<Rightarrow> PartitionKey \<Rightarrow> (AgentRouterError, string \<times> string) result" where
  "lookup_agent e k =
     rbind (rbind (map_err (\<lambda>_. RouterMetadataError) (at_lease e)) (ok_or (NoLeaseHolder (fst k) (snd k)))) (\<lambda>lease.
       if pl_lease_expires_at lease \<le> at_now e then Err (LeaseExpired (fst k) (snd k))
       else rbind (rbind (map_err (\<lambda>_. RouterMetadataError) (at_agent e (pl_leader_agent_id lease))) (ok_or (AgentNotFound (pl_leader_agent_id lease))))
              (\<lambda>address. Ok (pl_leader_agent_id lease, agent_url address)))"

definition resolve_agent_for_partition :: "'w attempt_env \<Rightarrow> PartitionKey \<Rightarrow> AgentRouter \<Rightarrow> AgentRouter \<times> (AgentRouterError, string \<times> string) result" where
  "resolve_agent_for_partition e k r =
     (case ar_lease_cache r k of
        Some entry \<Rightarrow>
          if at_instant e - rl_fetched_at entry < LEASE_CACHE_TTL then (r, Ok (rl_agent_id entry, rl_agent_address entry))
          else (case lookup_agent e k of
                  Ok (agent, address) \<Rightarrow> (r\<lparr>ar_lease_cache := (ar_lease_cache r)(k \<mapsto> \<lparr>rl_agent_id = agent, rl_agent_address = address, rl_fetched_at = at_instant e\<rparr>)\<rparr>, Ok (agent, address))
                | res \<Rightarrow> (r, res))
      | None \<Rightarrow>
          (case lookup_agent e k of
             Ok (agent, address) \<Rightarrow> (r\<lparr>ar_lease_cache := (ar_lease_cache r)(k \<mapsto> \<lparr>rl_agent_id = agent, rl_agent_address = address, rl_fetched_at = at_instant e\<rparr>)\<rparr>, Ok (agent, address))
           | res \<Rightarrow> (r, res)))"

definition try_produce :: "'w attempt_env \<Rightarrow> string \<Rightarrow> ProduceRequest \<Rightarrow> AgentRouter \<Rightarrow> 'w \<Rightarrow> AgentRouter \<times> 'w \<times> (AgentRouterError, ProduceResponse) result" where
  "try_produce e org_id req r w =
     (case resolve_agent_for_partition e (rq_topic req, rq_partition req) r of
        (r', Ok (_, address)) \<Rightarrow>
          if \<not> at_connects e address then (r', w, Err TransportError)
          else (case at_produce e address org_id req w of (w', res) \<Rightarrow> (r', w', map_err GrpcError res))
      | (r', Err err) \<Rightarrow> (r', w, Err err)
      | (r', Panic) \<Rightarrow> (r', w, Panic))"

text \<open>The loop of \<^verbatim>\<open>produce\<close>, from attempt \<open>attempt\<close> on.\<close>

function router_attempts ::
  "(nat \<Rightarrow> 'w attempt_env) \<Rightarrow> string \<Rightarrow> ProduceRequest \<Rightarrow> nat \<Rightarrow> AgentRouter \<Rightarrow> 'w \<Rightarrow> AgentRouter \<times> 'w \<times> (AgentRouterError, ProduceResponse) result" where
  "router_attempts env org_id req attempt r w =
     (if attempt > MAX_RETRIES then (r, w, Err (LeaseMoved (rq_topic req) (rq_partition req)))
      else let r1 = (if attempt > 0 then invalidate_lease_cache (rq_topic req, rq_partition req) r else r) in
        case try_produce (env attempt) org_id req r1 w of
          (r2, w2, Ok resp) \<Rightarrow> (r2, w2, Ok resp)
        | (r2, w2, Panic) \<Rightarrow> (r2, w2, Panic)
        | (r2, w2, Err e) \<Rightarrow>
            if is_lease_moved_error e then router_attempts env org_id req (attempt + 1) r2 w2 else (r2, w2, Err e))"
  by pat_completeness auto
termination by (relation "measure (\<lambda>(_, _, _, attempt, _, _). MAX_RETRIES + 1 - attempt)") auto

declare router_attempts.simps [simp del]

definition router_produce ::
  "(nat \<Rightarrow> 'w attempt_env) \<Rightarrow> string \<Rightarrow> ProduceRequest \<Rightarrow> AgentRouter \<Rightarrow> 'w \<Rightarrow> AgentRouter \<times> 'w \<times> (AgentRouterError, ProduceResponse) result" where
  "router_produce env org_id req r w = router_attempts env org_id req 0 r w"

section \<open>The server\<close>

text \<open>The organization is the request's header, or empty.\<close>

definition extract_org_id_from_request :: "string option \<Rightarrow> string" where
  "extract_org_id_from_request header = (case header of None \<Rightarrow> [] | Some s \<Rightarrow> s)"

fun validate_all :: "(bytes \<Rightarrow> (grpc_error, unit) result) \<Rightarrow> bytes list \<Rightarrow> (grpc_error, unit) result" where
  "validate_all validate [] = Ok ()"
| "validate_all validate (v # vs) = rbind (validate v) (\<lambda>_. validate_all validate vs)"

definition forwarded_request :: "u64 \<Rightarrow> ProduceBatchRequest \<Rightarrow> ProduceRequest" where
  "forwarded_request timestamp req =
     \<lparr>rq_topic = pb_topic req, rq_partition = pb_partition req,
      rq_records = map (\<lambda>(key, val, ts). (if key = [] then None else Some key, val, if ts > 0 then ts else timestamp)) (pb_records req),
      rq_producer_id = pb_producer_id req, rq_producer_epoch = pb_producer_epoch req, rq_base_sequence = pb_base_sequence req,
      rq_transaction_id = pb_transaction_id req, rq_ack_mode = pb_ack_mode req\<rparr>"

definition produce_batch ::
  "bool \<Rightarrow> (bytes \<Rightarrow> (grpc_error, unit) result) \<Rightarrow> u64 \<Rightarrow> (nat \<Rightarrow> 'w attempt_env) \<Rightarrow> string option \<Rightarrow> ProduceBatchRequest
     \<Rightarrow> AgentRouter \<times> 'w \<Rightarrow> (AgentRouter \<times> 'w) \<times> (grpc_error, ProduceBatchResponse) result" where
  "produce_batch shutting_down validate timestamp env header req = (\<lambda>(r, w).
     if shutting_down then ((r, w), Err (CodeUnavailable, ''Server is shutting down''))
     else if pb_topic req = [] then ((r, w), Err (CodeInvalidArgument, ''Topic name is required''))
     else if pb_records req = [] then ((r, w), Err (CodeInvalidArgument, ''At least one record is required''))
     else case validate_all validate (map (\<lambda>(_, val, _). val) (pb_records req)) of
       Err e \<Rightarrow> ((r, w), Err e)
     | Panic \<Rightarrow> ((r, w), Panic)
     | Ok _ \<Rightarrow>
         (case router_produce env (extract_org_id_from_request header) (forwarded_request timestamp req) r w of
            (r', w', Ok resp) \<Rightarrow>
              ((r', w'), Ok \<lparr>pr_first_offset = rs_base_offset resp, pr_last_offset = rs_base_offset resp + of_nat (length (pb_records req)) - 1,
                 pr_count = of_nat (length (pb_records req)), pr_duplicates_filtered = rs_duplicates_filtered resp\<rparr>)
          | (r', w', Err _) \<Rightarrow> ((r', w'), Err (CodeInternal, ''AgentRouter produce failed: ''))
          | (r', w', Panic) \<Rightarrow> ((r', w'), Panic)))"

text \<open>The status of the agent's service as the caller sees it.\<close>

fun code_of :: "StatusCode \<Rightarrow> Code" where
  "code_of GrpcUnavailable = CodeUnavailable"
| "code_of GrpcInvalidArgument = CodeInvalidArgument"
| "code_of GrpcNotFound = CodeNotFound"
| "code_of GrpcFailedPrecondition = CodeFailedPrecondition"
| "code_of GrpcInternal = CodeInternal"
| "code_of GrpcResourceExhausted = CodeResourceExhausted"

definition agent_call ::
  "(bytes \<Rightarrow> bytes) \<Rightarrow> (bytes \<Rightarrow> u32) \<Rightarrow> string \<Rightarrow> produce_env \<Rightarrow> string \<Rightarrow> ProduceRequest \<Rightarrow> service_state \<Rightarrow> service_state \<times> (grpc_error, ProduceResponse) result" where
  "agent_call lz4 crc32 agent_id env org_id req st =
     (case produce lz4 crc32 agent_id (env\<lparr>pe_organization := Some org_id\<rparr>) req st of
        (st', r) \<Rightarrow> (st', map_err (\<lambda>(code, msg). (code_of code, msg)) r))"

end
