(* ===== verification/Client_Pipeline.thy ===== *)
theory Client_Pipeline
  imports Client_Properties Agent_Router Produce_Properties
begin

text \<open>
  Theorems on a batch's whole way: from the client through the server and its router to the service of the agent, and back. The world of the
  client is here the router of the server together with the state of the agent's service.
\<close>

section \<open>The router\<close>

lemma router_step:
  assumes "attempt \<le> MAX_RETRIES"
  shows "router_attempts env org req attempt r w =
     (case try_produce (env attempt) org req (if attempt > 0 then invalidate_lease_cache (rq_topic req, rq_partition req) r else r) w of
        (r2, w2, Ok resp) \<Rightarrow> (r2, w2, Ok resp)
      | (r2, w2, Panic) \<Rightarrow> (r2, w2, Panic)
      | (r2, w2, Err e) \<Rightarrow> if is_lease_moved_error e then router_attempts env org req (attempt + 1) r2 w2 else (r2, w2, Err e))"
  using assms by (subst router_attempts.simps) (simp add: Let_def)

text \<open>
  C27. A moved lease is followed. When the cached agent refuses a batch because it lost the lease, the router looks the lease up again; if the row names a
  live lease whose agent can be reached and accepts the batch, that agent's answer is the answer, and it is the agent that is cached.
\<close>

theorem router_follows_the_lease:
  assumes "ar_lease_cache r k = Some entry" and "at_instant (env 0) - rl_fetched_at entry < LEASE_CACHE_TTL" and "k = (rq_topic req, rq_partition req)"
    and "at_connects (env 0) (rl_agent_address entry)"
    and "at_produce (env 0) (rl_agent_address entry) org req w = (w1, Err (code, msg))" and "code = CodeNotFound \<or> code = CodeFailedPrecondition"
    and "at_lease (env 1) = Ok (Some lease)" and "at_now (env 1) < pl_lease_expires_at lease"
    and "at_agent (env 1) (pl_leader_agent_id lease) = Ok (Some address)" and "at_connects (env 1) (agent_url address)"
    and "at_produce (env 1) (agent_url address) org req w1 = (w2, Ok resp)"
  shows "\<exists>r'. router_produce env org req r w = (r', w2, Ok resp)
     \<and> ar_lease_cache r' k = Some \<lparr>rl_agent_id = pl_leader_agent_id lease, rl_agent_address = agent_url address, rl_fetched_at = at_instant (env 1)\<rparr>"
proof -
  have t0: "try_produce (env 0) org req r w = (r, w1, Err (GrpcError (code, msg)))"
    using assms(1-5) by (simp add: try_produce_def resolve_agent_for_partition_def)
  have l: "lookup_agent (env 1) k = Ok (pl_leader_agent_id lease, agent_url address)" using assms(7-9) by (simp add: lookup_agent_def)
  let ?r = "(invalidate_lease_cache k r)\<lparr>ar_lease_cache := (ar_lease_cache (invalidate_lease_cache k r))(k \<mapsto>
      \<lparr>rl_agent_id = pl_leader_agent_id lease, rl_agent_address = agent_url address, rl_fetched_at = at_instant (env 1)\<rparr>)\<rparr>"
  have t1: "try_produce (env 1) org req (invalidate_lease_cache k r) w1 = (?r, w2, Ok resp)"
    using assms(3,10,11) l by (simp add: try_produce_def resolve_agent_for_partition_def invalidate_lease_cache_def)
  have "router_produce env org req r w = router_attempts env org req 1 r w1"
    using t0 assms(6) by (auto simp: router_produce_def router_step MAX_RETRIES_def is_lease_moved_error_def)
  also have "\<dots> = (?r, w2, Ok resp)" using t1 assms(3) router_step [of 1 env org req r w1] by (simp add: MAX_RETRIES_def)
  finally show ?thesis by simp
qed

section \<open>A client without an organization\<close>

lemma call_without_organization: "\<exists>c m. agent_call lz4 crc32 a env [] req st = (st, Err (c, m))"
  by (simp add: agent_call_def produce_def)

lemma router_without_organization:
  assumes "\<And>i. at_produce (env i) = (\<lambda>address. agent_call lz4 crc32 a (penv i))"
  shows "\<exists>r' res. router_attempts env [] req attempt r st = (r', st, res) \<and> (\<forall>x. res \<noteq> Ok x)"
proof (induction "MAX_RETRIES + 1 - attempt" arbitrary: attempt r)
  case 0
  then show ?case by (subst router_attempts.simps) simp
next
  case (Suc n)
  let ?r = "if attempt > 0 then invalidate_lease_cache (rq_topic req, rq_partition req) r else r"
  have "\<exists>r2 res. try_produce (env attempt) [] req ?r st = (r2, st, res) \<and> (\<forall>x. res \<noteq> Ok x)"
  proof -
    obtain r2 who where w: "resolve_agent_for_partition (env attempt) (rq_topic req, rq_partition req) ?r = (r2, who)" by fastforce
    obtain c m where c: "agent_call lz4 crc32 a (penv attempt) [] req st = (st, Err (c, m))" using call_without_organization by blast
    show ?thesis unfolding try_produce_def w by (cases who) (auto simp: c assms)
  qed
  then obtain r2 res where t: "try_produce (env attempt) [] req ?r st = (r2, st, res)" "\<And>x. res \<noteq> Ok x" by blast
  have le: "attempt \<le> MAX_RETRIES" using Suc(2) by simp
  show ?case
  proof (cases "\<exists>e. res = Err e \<and> is_lease_moved_error e")
    case True
    then have "router_attempts env [] req attempt r st = router_attempts env [] req (attempt + 1) r2 st"
      using t router_step [OF le, of env "[]" req r st] by auto
    then show ?thesis using Suc(1) [of "attempt + 1" r2] Suc(2) by simp
  next
    case False
    then show ?thesis using t router_step [OF le, of env "[]" req r st] by (cases res) auto
  qed
qed

text \<open>
  The client's batches are refused. The client attaches no organization to its requests, so the server forwards an empty one, which the agent rejects.
  Hence, whatever is in the batch and whatever the router and the leases are, a batch that the client sends to a server with a router is not
  accepted, after any number of retries, and the state of the agent's service does not change.
\<close>

theorem batches_without_organization_are_refused:
  assumes "\<And>i. at_produce (renv i) = (\<lambda>address. agent_call lz4 crc32 a (penv i))"
    and "\<And>address req. ce_produce_batch env address req = produce_batch shutting_down validate timestamp renv None req"
  shows "\<exists>r' res. send_batch_to_agent env cp b seq (r, st) = ((r', st), res) \<and> (\<forall>resp. res \<noteq> Ok resp)"
proof -
  have call: "\<exists>r' res. ce_produce_batch env u req (r, st) = ((r', st), res) \<and> (\<forall>x. res \<noteq> Ok x)" for u req r
  proof -
    obtain r' res where "router_attempts renv [] (forwarded_request timestamp req) 0 r st = (r', st, res)" "\<And>x. res \<noteq> Ok x"
      using router_without_organization [where env = renv, OF assms(1)] by blast
    then show ?thesis
      by (cases res) (auto simp: assms(2) produce_batch_def router_produce_def extract_org_id_from_request_def split: result.split)
  qed
  have after: "\<exists>r'. after (ce_produce_batch env u req) n (r, st) = (r', st)" for u req n r
  proof (induction n arbitrary: r)
    case (Suc n)
    obtain r1 where "fst (ce_produce_batch env u req (r, st)) = (r1, st)" using call [of u req r] by auto
    then show ?case using Suc.IH [of r1] by (simp add: after_Suc)
  qed simp
  have retry: "\<exists>r' slept res. retry_with_jittered_backoff sc j policy (ce_produce_batch env u req) (r, st) = ((r', st), slept, res) \<and> (\<forall>x. res \<noteq> Ok x)" for sc j policy u req
  proof -
    obtain n where n: "retry_with_jittered_backoff sc j policy (ce_produce_batch env u req) (r, st)
        = (after (ce_produce_batch env u req) (Suc n) (r, st), map (\<lambda>a. j a (backoff sc policy a)) [0 ..< n], outcome (ce_produce_batch env u req) n (r, st))"
      using retry_loop_calls [of 0 policy "\<lambda>a. j a (backoff sc policy a)" "ce_produce_batch env u req" "(r, st)" "[]"]
      by (auto simp: retry_with_jittered_backoff_def)
    obtain r1 where "after (ce_produce_batch env u req) n (r, st) = (r1, st)" using after by blast
    then have "outcome (ce_produce_batch env u req) n (r, st) \<noteq> Ok x" for x using call [of u req r1] by (auto simp: outcome_def)
    then show ?thesis using n after [of u req "Suc n" r] by auto
  qed
  show ?thesis
  proof (cases "find_agent_for_partition env (fst b) cp")
    case (Ok x)
    obtain r' slept res where "retry_with_jittered_backoff (ce_scaled env) (ce_jitter env) (cp_retry_policy cp)
        (ce_produce_batch env (agent_url (ai_address x)) (batch_request cp b seq)) (r, st) = ((r', st), slept, res)" "\<And>y. res \<noteq> Ok y"
      using retry by blast
    then show ?thesis using Ok by (cases res) (auto simp: send_batch_to_agent_def)
  qed (simp_all add: send_batch_to_agent_def)
qed

section \<open>A lost answer\<close>

text \<open>A network that loses the answers of some calls: the call is carried out, and the caller sees that the service is unavailable.\<close>

definition lossy :: "(nat \<Rightarrow> bool) \<Rightarrow> ('w \<Rightarrow> 'w \<times> (grpc_error, 'a) result) \<Rightarrow> nat \<times> 'w \<Rightarrow> (nat \<times> 'w) \<times> (grpc_error, 'a) result" where
  "lossy lost call = (\<lambda>(n, w). case call w of (w', res) \<Rightarrow> ((n + 1, w'), if lost n then Err (CodeUnavailable, ''transport error'') else res))"

lemma produce_again:
  assumes "produce lz4 crc32 a env req st = (st', Ok resp)" and "\<not> rs_duplicates_filtered resp" and "rq_transaction_id req = None" and "rq_ack_mode req \<noteq> 1"
    and "rq_producer_id req = Some p" and "length (rq_records req) < 2 ^ 32"
    and "\<not> pe_producer_fails env" and "\<not> tx_begin_fails (pe_sequence env)" and "\<not> tx_select_fails (pe_sequence env)"
  shows "produce lz4 crc32 a env req st'
     = (st', Ok \<lparr>rs_base_offset = 0, rs_record_count = of_nat (length (rq_records req)), rs_duplicates_filtered = True\<rparr>)"
proof (rule produce_ok_steps [OF assms(1,2)])
  fix org db'
  assume o: "pe_organization env = Some org" and v: "validate_lease (pe_lease_fails env) (pe_now env) a (rq_topic req) (rq_partition req) (sv_leases st) = Ok ()"
    and c: "check_idempotent env req (sv_producers st) = (db', Ok True)" and ne: "rq_records req \<noteq> []"
    and w: "write_batch lz4 crc32 env org req (st\<lparr>sv_producers := db'\<rparr>) = (st', Ok resp)"
  have st': "sv_producers st' = db'" "sv_shutting_down st' = sv_shutting_down st" "sv_leases st' = sv_leases st"
    using w assms(3,4) by (auto simp: write_batch_def Let_def get_writer_def track_transaction_def
        split: if_splits option.splits result.splits prod.splits list.splits)
  have "(0 :: u32) < of_nat (length (rq_records req))" using ne assms(6) by (simp add: word_less_nat_alt unat_of_nat)
  with check_idempotent_again [OF c assms(5) _ assms(7-9)] have "check_idempotent env req (sv_producers st') = (db', Ok False)" using st' by simp
  then show ?thesis using assms(1) o v st' ne by (auto simp: produce_def split: if_splits)
qed

text \<open>The first call resolves the agent and caches it; a second one at the same instant finds it in the cache.\<close>

lemma router_twice:
  assumes "at_lease (renv 0) = Ok (Some lease)" and "at_now (renv 0) < pl_lease_expires_at lease"
    and "at_agent (renv 0) (pl_leader_agent_id lease) = Ok (Some address)" and "at_connects (renv 0) (agent_url address)"
    and "at_produce (renv 0) = (\<lambda>address. call)" and "call org req st = (st', Ok resp)" and "call org req st' = (st'', Ok resp')"
  shows "\<exists>r'. router_produce renv org req AgentRouter_new st = (r', st', Ok resp) \<and> router_produce renv org req r' st' = (r', st'', Ok resp')"
proof -
  let ?k = "(rq_topic req, rq_partition req)"
  have l: "lookup_agent (renv 0) ?k = Ok (pl_leader_agent_id lease, agent_url address)" using assms(1-3) by (simp add: lookup_agent_def)
  let ?r = "AgentRouter_new\<lparr>ar_lease_cache := (ar_lease_cache AgentRouter_new)(?k \<mapsto>
      \<lparr>rl_agent_id = pl_leader_agent_id lease, rl_agent_address = agent_url address, rl_fetched_at = at_instant (renv 0)\<rparr>)\<rparr>"
  have "try_produce (renv 0) org req AgentRouter_new st = (?r, st', Ok resp)"
    using l assms(4-6) by (simp add: try_produce_def resolve_agent_for_partition_def AgentRouter_new_def)
  moreover have "try_produce (renv 0) org req ?r st' = (?r, st'', Ok resp')"
    using assms(4,5,7) by (simp add: try_produce_def resolve_agent_for_partition_def LEASE_CACHE_TTL_def)
  ultimately show ?thesis by (intro exI [of _ ?r]) (simp add: router_produce_def router_step)
qed

text \<open>
  A lost answer makes the client report offset zero. An idempotent client sends a batch, the agent appends it, and the answer is lost on the way back.
  The client retries; the agent recognises the sequence numbers and answers that the batch is a duplicate, with base offset zero. So the
  records are stored once, at the offset of the first, lost answer, and the client tells their senders that they are at offsets zero, one, and so on.
\<close>

theorem lost_answer_reports_offset_zero:
  assumes "next_sequence (fst b) (length (snd b)) cp0 = (cp, Some s)"
    and "req = forwarded_request ts (batch_request cp b (Some s))"
    and "at_lease (renv 0) = Ok (Some lease)" and "at_now (renv 0) < pl_lease_expires_at lease"
    and "at_agent (renv 0) (pl_leader_agent_id lease) = Ok (Some address)" and "at_connects (renv 0) (agent_url address)"
    and "at_produce (renv 0) = (\<lambda>address. agent_call lz4 crc32 a penv)"
    and "\<And>u q. ce_produce_batch env u q = lossy (\<lambda>n. n = 0) (produce_batch False (\<lambda>_. Ok ()) ts renv (Some org) q)"
    and "find_agent_for_partition env (fst b) cp = Ok agent" and "ce_connects env (agent_url (ai_address agent))" and "0 < max_retries (cp_retry_policy cp)"
    and "produce lz4 crc32 a (penv\<lparr>pe_organization := Some org\<rparr>) req st = (st', Ok resp)" and "\<not> rs_duplicates_filtered resp"
    and "cp_transaction cp = None" and "cp_producer_id cp = Some p" and "fst (fst b) \<noteq> []" and "snd b \<noteq> []" and "length (snd b) < 2 ^ 32"
    and "\<not> pe_producer_fails penv" and "\<not> tx_begin_fails (pe_sequence penv)" and "\<not> tx_select_fails (pe_sequence penv)"
  shows "\<exists>r'. send_and_settle env b cp0 (0, AgentRouter_new, st) = (notify_pending_offsets (fst b) 0 (length (snd b)) cp, (2, r', st'), Ok ())"
proof -
  let ?q = "batch_request cp b (Some s)" and ?dup = "\<lparr>rs_base_offset = 0, rs_record_count = of_nat (length (rq_records req)), rs_duplicates_filtered = True\<rparr>"
  have again: "produce lz4 crc32 a (penv\<lparr>pe_organization := Some org\<rparr>) req st' = (st', Ok ?dup)"
    by (rule produce_again [OF assms(12,13)]) (use assms(14-21) in \<open>simp_all add: assms(2) forwarded_request_def batch_request_def\<close>)
  obtain r' where r: "router_produce renv org req AgentRouter_new st = (r', st', Ok resp)" "router_produce renv org req r' st' = (r', st', Ok ?dup)"
    using router_twice [where renv = renv and call = "agent_call lz4 crc32 a penv" and org = org, OF assms(3-7), of req st st' resp st' ?dup] assms(12) again by (auto simp: agent_call_def)
  have val: "validate_all (\<lambda>_. Ok ()) vs = Ok ()" for vs by (induction vs) simp_all
  let ?call = "produce_batch False (\<lambda>_. Ok ()) ts renv (Some org) ?q"
  have pre: "pb_topic ?q \<noteq> []" "pb_records ?q \<noteq> []" using assms(16,17) by (simp_all add: batch_request_def)
  have c1: "\<exists>x. ?call (AgentRouter_new, st) = ((r', st'), Ok x)"
    using pre r(1) by (simp add: produce_batch_def val extract_org_id_from_request_def assms(2))
  have c2: "\<exists>x. ?call (r', st') = ((r', st'), Ok x) \<and> pr_first_offset x = 0"
    using pre r(2) by (simp add: produce_batch_def val extract_org_id_from_request_def assms(2))
  obtain x where x: "?call (r', st') = ((r', st'), Ok x)" "pr_first_offset x = 0" using c2 by blast
  have l1: "lossy (\<lambda>n. n = 0) ?call (0, AgentRouter_new, st) = ((1, r', st'), Err (CodeUnavailable, ''transport error''))"
    using c1 by (auto simp: lossy_def)
  have l2: "lossy (\<lambda>n. n = 0) ?call (1, r', st') = ((2, r', st'), Ok x)" using x by (simp add: lossy_def)
  have "\<exists>slept. retry_loop (cp_retry_policy cp) d (lossy (\<lambda>n. n = 0) ?call) 0 (0, AgentRouter_new, st) [] = ((2, r', st'), slept, Ok x)" for d
    using assms(11) l2 by (subst retry_loop.simps, subst retry_loop.simps) (simp add: l1)
  then obtain slept where "retry_with_jittered_backoff (ce_scaled env) (ce_jitter env) (cp_retry_policy cp)
      (ce_produce_batch env (agent_url (ai_address agent)) ?q) (0, AgentRouter_new, st) = ((2, r', st'), slept, Ok x)"
    by (auto simp: retry_with_jittered_backoff_def assms(8))
  then have "send_batch_to_agent env cp b (Some s) (0, AgentRouter_new, st) = ((2, r', st'), Ok x)"
    using assms(9,10) by (simp add: send_batch_to_agent_def)
  then show ?thesis using x(2) by (simp add: send_and_settle_def assms(1))
qed

section \<open>A lost batch\<close>

definition client_sequence :: "ClientProducer \<Rightarrow> PartitionKey \<Rightarrow> int" where
  "client_sequence cp k = (case cp_sequences cp k of None \<Rightarrow> 0 | Some s \<Rightarrow> s)"

definition stored_sequence :: "producer_db \<Rightarrow> string \<times> string \<times> u32 \<Rightarrow> int" where
  "stored_sequence db key = (case producer_sequences db key of None \<Rightarrow> -1 | Some s \<Rightarrow> ps_last_sequence s)"

lemma next_sequence_value:
  assumes "next_sequence k n cp = (cp', seq)"
  shows "cp_idempotent cp' = cp_idempotent cp" and "cp_producer_id cp' = cp_producer_id cp"
    and "cp_idempotent cp \<Longrightarrow> cp_producer_id cp \<noteq> None \<Longrightarrow> seq = Some (client_sequence cp k) \<and> client_sequence cp' k = client_sequence cp k + int n"
    and "client_sequence cp j \<le> client_sequence cp' j"
  using assms by (auto simp: next_sequence_def client_sequence_def Let_def split: if_splits)

lemma client_sequence_settle: "client_sequence (settle f k n cp) j = client_sequence cp j"
  by (simp add: client_sequence_def)

lemma settle_value:
  assumes "send_and_settle env b cp w = (cp', w', r)"
  shows "cp_idempotent cp' = cp_idempotent cp" and "cp_producer_id cp' = cp_producer_id cp" and "client_sequence cp j \<le> client_sequence cp' j"
    and "cp_idempotent cp \<Longrightarrow> cp_producer_id cp \<noteq> None \<Longrightarrow> client_sequence cp' (fst b) = client_sequence cp (fst b) + int (length (snd b))"
proof -
  obtain cp1 seq where n: "next_sequence (fst b) (length (snd b)) cp = (cp1, seq)" by fastforce
  have same: "cp_idempotent cp' = cp_idempotent cp1" "cp_producer_id cp' = cp_producer_id cp1" "client_sequence cp' i = client_sequence cp1 i" for i
    using assms by (auto simp: send_and_settle_def n notify_pending_offsets_def fail_pending_offsets_def client_sequence_settle split: prod.splits result.splits)
  show "cp_idempotent cp' = cp_idempotent cp" and "cp_producer_id cp' = cp_producer_id cp" and "client_sequence cp j \<le> client_sequence cp' j"
    and "cp_idempotent cp \<Longrightarrow> cp_producer_id cp \<noteq> None \<Longrightarrow> client_sequence cp' (fst b) = client_sequence cp (fst b) + int (length (snd b))"
    using next_sequence_value(1,2) [OF n] next_sequence_value(3) [OF n] next_sequence_value(4) [OF n, of j] by (simp_all add: same)
qed

lemma tick_value:
  assumes "tick_batches env bs cp w = (cp', w')"
  shows "cp_idempotent cp' = cp_idempotent cp \<and> cp_producer_id cp' = cp_producer_id cp \<and> client_sequence cp j \<le> client_sequence cp' j"
  using assms
proof (induction bs arbitrary: cp w)
  case (Cons b bs)
  obtain cp1 w1 r where s: "send_and_settle env b cp w = (cp1, w1, r)" by (metis prod_cases3)
  consider "tick_batches env bs cp1 w1 = (cp', w')" | "cp' = cp1" using Cons(2) by (cases r) (auto simp: s)
  then show ?case
  proof cases
    case 1
    from Cons.IH [OF this] show ?thesis using settle_value(1,2) [OF s] settle_value(3) [OF s, of j] by auto
  next
    case 2
    then show ?thesis using settle_value(1,2) [OF s] settle_value(3) [OF s, of j] by simp
  qed
qed simp

lemma gap_refused:
  assumes "stored_sequence db (p, t, n) + 1 < base" and "0 < base"
  shows "\<exists>e. check_and_update_sequence faults now p t n base c db = (db, Err e)"
  using assms by (auto simp: check_and_update_sequence_def last_sequence_def stored_sequence_def Let_def split: option.splits)

text \<open>
  A batch that is lost blocks its partition. The client takes the sequence numbers of a batch before it sends it and does not give them back when the
  batch fails. So when a batch of an idempotent producer is lost, the agent not having recorded its sequence numbers, then after any further
  rounds every later batch for the partition is refused by the agent, which sees a gap, and nothing changes there: the producer cannot write to
  the partition any more.
\<close>

theorem lost_batch_blocks_partition:
  assumes "send_and_settle env b cp w = (cp1, w1, Err e)" and "snd b \<noteq> []" and "cp_idempotent cp" and "cp_producer_id cp = Some p"
    and "stored_sequence (sv_producers st) (p, fst (fst b), snd (fst b)) < client_sequence cp (fst b)" and "0 \<le> client_sequence cp (fst b)"
    and "tick_batches env2 bs cp1 w2 = (cp2, w3)" and "next_sequence (fst b) (length rs) cp2 = (cp3, seq)"
  shows "\<exists>res. produce lz4 crc32 a penv (forwarded_request ts (batch_request cp3 (fst b, rs) seq)) st = (st, res) \<and> (\<forall>resp. res \<noteq> Ok resp)"
proof -
  let ?k = "fst b" and ?req = "forwarded_request ts (batch_request cp3 (fst b, rs) seq)"
  note v = settle_value(1,2) [OF assms(1)] settle_value(4) [OF assms(1)] and t = tick_value [OF assms(7), of ?k] and n = next_sequence_value(2) [OF assms(8)] next_sequence_value(3) [OF assms(8)]
  have seq: "seq = Some (client_sequence cp2 ?k)" "cp_producer_id cp3 = Some p" using v t n assms(3,4) by auto
  have "client_sequence cp ?k + int (length (snd b)) \<le> client_sequence cp2 ?k" using v(3) t assms(3,4) by simp
  moreover have "0 < length (snd b)" using assms(2) by simp
  ultimately have gap: "stored_sequence (sv_producers st) (p, fst ?k, snd ?k) + 1 < client_sequence cp2 ?k" "0 < client_sequence cp2 ?k"
    using assms(5,6) by linarith+
  have req: "rq_producer_id ?req = Some p" "rq_base_sequence ?req = Some (client_sequence cp2 ?k)" "rq_topic ?req = fst ?k" "rq_partition ?req = snd ?k"
    using seq by (simp_all add: forwarded_request_def batch_request_def)
  obtain e' where "check_and_update_sequence (pe_sequence penv) (pe_now penv) p (fst ?k) (snd ?k) (client_sequence cp2 ?k) (of_nat (length (rq_records ?req))) (sv_producers st)
      = (sv_producers st, Err e')" using gap_refused [OF gap] by blast
  then have "\<exists>e. check_idempotent penv ?req (sv_producers st) = (sv_producers st, Err e)"
    using req by (auto simp: check_idempotent_def validate_idempotent_def split: option.splits)
  then show ?thesis by (auto simp: produce_def Let_def split: option.split result.split)
qed

section \<open>Concrete inputs\<close>

definition pipeline_lease :: PartitionLease where
  "pipeline_lease = \<lparr>pl_organization_id = ''o'', pl_topic = ''t'', pl_partition_id = 0, pl_leader_agent_id = ''A'', pl_lease_expires_at = 100, pl_acquired_at = 0, pl_epoch = 1\<rparr>"

definition demo_attempt :: "(string \<Rightarrow> string \<Rightarrow> ProduceRequest \<Rightarrow> 'w \<Rightarrow> 'w \<times> (grpc_error, ProduceResponse) result) \<Rightarrow> nat \<Rightarrow> 'w attempt_env" where
  "demo_attempt call i = \<lparr>at_instant = 0, at_now = 10, at_lease = Ok (Some pipeline_lease), at_agent = (\<lambda>_. Ok (Some ''h:1'')), at_connects = (\<lambda>_. True), at_produce = call\<rparr>"

definition demo_env_for :: "(ProduceBatchRequest \<Rightarrow> 'w \<Rightarrow> 'w \<times> (grpc_error, ProduceBatchResponse) result) \<Rightarrow> 'w client_env" where
  "demo_env_for call = \<lparr>ce_fetch_topic = (\<lambda>_. Ok None), ce_hash = (\<lambda>_. 0), ce_route_hash = (\<lambda>_. 0), ce_nanos = 0, ce_now_ms = 7, ce_instant = 0, ce_clock = (\<lambda>_. 500),
     ce_order = [(''t'', 0)], ce_lease = (\<lambda>_ _. None), ce_connects = (\<lambda>_. True), ce_scaled = (\<lambda>i k. i * 2 ^ k), ce_jitter = (\<lambda>_ d. d), ce_produce_batch = (\<lambda>_. call)\<rparr>"

abbreviation demo_idempotent :: ClientProducer where
  "demo_idempotent \<equiv> (ClientProducer_init ''g'' [\<lparr>ai_agent_id = ''A'', ai_address = ''h:1''\<rparr>] 100 100 3 50 True None)\<lparr>cp_producer_id := Some ''P''\<rparr>"

abbreviation demo_batch :: batch where
  "demo_batch \<equiv> ((''t'', 0), [rec_of [1]])"

text \<open>The agent at \<open>h:1\<close> answers, the others have lost the lease.\<close>

definition demo_leader :: "string \<Rightarrow> string \<Rightarrow> ProduceRequest \<Rightarrow> nat \<Rightarrow> nat \<times> (grpc_error, ProduceResponse) result" where
  "demo_leader address org req n =
     (if address = ''http://h:1'' then (n + 1, Ok \<lparr>rs_base_offset = 0, rs_record_count = 1, rs_duplicates_filtered = False\<rparr>)
      else (n, Err (CodeNotFound, ''no lease'')))"

theorem router_follows_the_lease_witness:
  "\<exists>r'. router_produce (demo_attempt demo_leader) ''o'' (demo_request 0)
       (AgentRouter_new\<lparr>ar_lease_cache := [(''t'', 0) \<mapsto> \<lparr>rl_agent_id = ''B'', rl_agent_address = ''http://h:2'', rl_fetched_at = 0\<rparr>]\<rparr>) 0
     = (r', 1, Ok \<lparr>rs_base_offset = 0, rs_record_count = 1, rs_duplicates_filtered = False\<rparr>)"
proof -
  let ?e = "\<lparr>rl_agent_id = ''B'', rl_agent_address = ''http://h:2'', rl_fetched_at = 0\<rparr>"
  have url: "agent_url ''h:1'' = ''http://h:1''" by (simp add: agent_url_def starts_with_def)
  have "\<exists>r'. router_produce (demo_attempt demo_leader) ''o'' (demo_request 0) (AgentRouter_new\<lparr>ar_lease_cache := [(''t'', 0) \<mapsto> ?e]\<rparr>) 0
        = (r', 1, Ok \<lparr>rs_base_offset = 0, rs_record_count = 1, rs_duplicates_filtered = False\<rparr>)
     \<and> ar_lease_cache r' (''t'', 0) = Some \<lparr>rl_agent_id = pl_leader_agent_id pipeline_lease, rl_agent_address = agent_url ''h:1'', rl_fetched_at = at_instant (demo_attempt demo_leader 1)\<rparr>"
    by (rule router_follows_the_lease [of _ _ ?e _ _ _ _ 0 CodeNotFound "''no lease''"])
      (simp_all add: demo_attempt_def demo_leader_def demo_request_def pipeline_lease_def LEASE_CACHE_TTL_def url)
  then show ?thesis by blast
qed

theorem batches_without_organization_are_refused_witness:
  "\<exists>r' res. send_batch_to_agent
       (demo_env_for (produce_batch False (\<lambda>_. Ok ()) 7 (demo_attempt (\<lambda>_. agent_call id_codec no_crc ''A'' (demo_produce_env FlushOk))) None))
       demo_idempotent demo_batch (Some 0) (AgentRouter_new, demo_service demo_writer) = ((r', demo_service demo_writer), res) \<and> (\<forall>resp. res \<noteq> Ok resp)"
  by (rule batches_without_organization_are_refused [of "demo_attempt (\<lambda>_. agent_call id_codec no_crc ''A'' (demo_produce_env FlushOk))" id_codec no_crc "''A''"
        "\<lambda>_. demo_produce_env FlushOk" _ False "\<lambda>_. Ok ()" 7]) (simp_all add: demo_attempt_def demo_env_for_def)

theorem lost_answer_reports_offset_zero_witness:
  "\<exists>cp r' st'. send_and_settle
       (demo_env_for (lossy (\<lambda>n. n = 0) \<circ> produce_batch False (\<lambda>_. Ok ()) 7 (demo_attempt (\<lambda>_. agent_call id_codec no_crc ''A'' (demo_produce_env FlushOk))) (Some ''o'')))
       demo_batch demo_idempotent (0, AgentRouter_new, demo_service demo_writer) = (notify_pending_offsets (''t'', 0) 0 1 cp, (2, r', st'), Ok ())"
proof -
  let ?env = "demo_env_for (lossy (\<lambda>n. n = 0) \<circ> produce_batch False (\<lambda>_. Ok ()) 7 (demo_attempt (\<lambda>_. agent_call id_codec no_crc ''A'' (demo_produce_env FlushOk))) (Some ''o''))"
  let ?cp = "demo_idempotent\<lparr>cp_sequences := [(''t'', 0) \<mapsto> 1]\<rparr>" and ?penv = "demo_produce_env FlushOk"
  obtain pw' where "pw_append_batch id_codec no_crc (pe_wal ?penv) 7 [(None, [1], 7)] demo_writer = (pw', Ok [100])"
    by (rule bare_batch [of demo_writer id_codec "[]" "[(None, [1], 7)]" no_crc "pe_wal ?penv" 7, OF demo_writer_holds(2,1)])
      (simp_all add: demo_writer_holds(3))
  then obtain st' resp where p: "produce id_codec no_crc ''A'' ?penv (demo_request 0) (demo_service demo_writer) = (st', Ok resp)" "\<not> rs_duplicates_filtered resp"
    unfolding demo_check by (simp add: write_batch_def get_writer_def demo_service_def demo_request_def demo_produce_env_def Let_def)
  have n: "next_sequence (''t'', 0) 1 demo_idempotent = (?cp, Some 0)" by (simp add: next_sequence_def ClientProducer_init_def)
  have q: "demo_request 0 = forwarded_request 7 (batch_request ?cp demo_batch (Some 0))"
    by (simp add: demo_request_def forwarded_request_def batch_request_def ClientProducer_init_def)
  have o: "?penv\<lparr>pe_organization := Some ''o''\<rparr> = ?penv" by (simp add: demo_produce_env_def)
  have "\<exists>r'. send_and_settle ?env demo_batch demo_idempotent (0, AgentRouter_new, demo_service demo_writer)
      = (notify_pending_offsets (fst demo_batch) 0 (length (snd demo_batch)) ?cp, (2, r', st'), Ok ())"
    by (rule lost_answer_reports_offset_zero [where req = "demo_request 0" and ts = 7 and renv = "demo_attempt (\<lambda>_. agent_call id_codec no_crc ''A'' ?penv)"
          and lease = pipeline_lease and address = "''h:1''" and org = "''o''" and penv = ?penv and p = "''P''" and s = 0
          and agent = "\<lparr>ai_agent_id = ''A'', ai_address = ''h:1''\<rparr>", unfolded o, OF _ q _ _ _ _ _ _ _ _ _ p])
      (use n in \<open>simp_all add: demo_attempt_def demo_env_for_def pipeline_lease_def find_agent_for_partition_def ClientProducer_init_def demo_produce_env_def no_tx_faults_def\<close>)
  then show ?thesis by auto
qed

theorem lost_batch_blocks_partition_witness:
  "\<exists>cp1 w1 e cp3 seq res. send_and_settle ((demo_env_for (\<lambda>_ w. (w, Err (CodeUnavailable, ''down'')))) \<lparr>ce_connects := (\<lambda>_. False)\<rparr>) demo_batch demo_idempotent () = (cp1, w1, Err e)
     \<and> next_sequence (''t'', 0) 1 cp1 = (cp3, seq)
     \<and> produce id_codec no_crc ''A'' (demo_produce_env FlushOk) (forwarded_request 7 (batch_request cp3 ((''t'', 0), [rec_of [2]]) seq)) (demo_service demo_writer)
       = (demo_service demo_writer, res) \<and> (\<forall>resp. res \<noteq> Ok resp)"
proof -
  let ?env = "(demo_env_for (\<lambda>_ w. (w, Err (CodeUnavailable, ''down'')))) \<lparr>ce_connects := (\<lambda>_. False)\<rparr>"
  obtain cp1 w1 e where s: "send_and_settle ?env demo_batch demo_idempotent () = (cp1, w1, Err e)"
    by (simp add: send_and_settle_def next_sequence_def ClientProducer_init_def send_batch_to_agent_def find_agent_for_partition_def demo_env_for_def)
  obtain cp3 seq where n: "next_sequence (''t'', 0) 1 cp1 = (cp3, seq)" by fastforce
  have st: "stored_sequence (sv_producers (demo_service demo_writer)) (''P'', ''t'', 0) = -1"
    by (simp add: stored_sequence_def demo_service_def producer_eval)
  show ?thesis
    using lost_batch_blocks_partition [OF s, of "''P''" "demo_service demo_writer" ?env "[]" "()" cp1 "()" "[rec_of [2]]" cp3 seq] n s st
    by (auto simp: ClientProducer_init_def client_sequence_def)
qed

end
