(* ===== verification/Log_Compaction.thy ===== *)
theory Log_Compaction
  imports Topic_Store Segment_Writer Segment_Reader
begin

text \<open>
  Log compaction, \<^verbatim>\<open>streamhouse-server/src/compaction.rs\<close>, over the topic and segment tables and the segment format. The object store is a map from
  keys to contents; which of its calls and which queries fail is in the environment, as are the clock and the iteration orders of the two hash
  maps. The timer of the task is left out.
\<close>

section \<open>Configuration and results\<close>

record CompactionConfig =
  cc_max_records_per_run :: nat
  cc_min_segment_age :: int
  cc_tombstone_retention :: int

definition CompactionConfig_default :: CompactionConfig where
  "CompactionConfig_default = \<lparr>cc_max_records_per_run = 1000000, cc_min_segment_age = 3600000, cc_tombstone_retention = 86400000\<rparr>"

record CompactionResult =
  cr_records_processed :: nat
  cr_keys_removed :: nat
  cr_segments_compacted :: nat
  cr_bytes_saved :: u64

definition CompactionResult_default :: CompactionResult where
  "CompactionResult_default = \<lparr>cr_records_processed = 0, cr_keys_removed = 0, cr_segments_compacted = 0, cr_bytes_saved = 0\<rparr>"

datatype CompactionError = CompactMetadata | CompactStorage | CompactSegmentRead

record compact_env =
  cm_now :: i64
  cm_lz4 :: "bytes \<Rightarrow> bytes"
  cm_unlz4 :: "bytes \<Rightarrow> (string, bytes) result"
  cm_crc32 :: "bytes \<Rightarrow> u32"
  cm_key_order :: "bytes list"
  cm_tombstone_order :: "bytes list"
  cm_segments_fail :: bool
  cm_get_fails :: "string \<Rightarrow> bool"
  cm_put_fails :: bool
  cm_add_fails :: bool
  cm_delete_fails :: "string \<Rightarrow> bool"
  cm_rows_fail :: bool

section \<open>The key map\<close>

record scan_state =
  sc_keys :: "bytes \<rightharpoonup> u64 \<times> u64 \<times> bytes"
  sc_tombstones :: "bytes \<rightharpoonup> u64 \<times> u64"
  sc_unkeyed :: "Record list"
  sc_processed :: nat
  sc_bytes :: u64

definition scan_start :: scan_state where
  "scan_start = \<lparr>sc_keys = Map.empty, sc_tombstones = Map.empty, sc_unkeyed = [], sc_processed = 0, sc_bytes = 0\<rparr>"

definition scan_record :: "Record \<Rightarrow> scan_state \<Rightarrow> scan_state" where
  "scan_record r s =
     (let s1 = s\<lparr>sc_processed := sc_processed s + 1\<rparr> in
      case rec_key r of
        Some key \<Rightarrow>
          if key = [] then s1\<lparr>sc_unkeyed := sc_unkeyed s @ [r]\<rparr>
          else if rec_value r = []
          then s1\<lparr>sc_tombstones := (sc_tombstones s)(key \<mapsto> (rec_offset r, rec_timestamp r)), sc_keys := (sc_keys s)(key := None)\<rparr>
          else if (case sc_keys s key of Some (existing, _) \<Rightarrow> rec_offset r > existing | None \<Rightarrow> True)
          then s1\<lparr>sc_keys := (sc_keys s)(key \<mapsto> (rec_offset r, rec_timestamp r, rec_value r)), sc_tombstones := (sc_tombstones s)(key := None)\<rparr>
          else s1
      | None \<Rightarrow> s1\<lparr>sc_unkeyed := sc_unkeyed s @ [r]\<rparr>)"

definition read_object :: "compact_env \<Rightarrow> (string \<rightharpoonup> bytes) \<Rightarrow> string \<Rightarrow> (CompactionError, Record list) result" where
  "read_object env bucket key =
     (case (if cm_get_fails env key then None else bucket key) of
        None \<Rightarrow> Err CompactStorage
      | Some data \<Rightarrow> map_err (\<lambda>_. CompactSegmentRead) (rbind (SegmentReader_new (cm_crc32 env) data) (read_all (cm_unlz4 env))))"

text \<open>The scan stops before a segment once the limit of the run is reached.\<close>

fun scan_segments :: "compact_env \<Rightarrow> nat \<Rightarrow> (string \<rightharpoonup> bytes) \<Rightarrow> SegmentMeta list \<Rightarrow> scan_state \<Rightarrow> (CompactionError, scan_state) result" where
  "scan_segments env limit bucket [] s = Ok s"
| "scan_segments env limit bucket (g # gs) s =
     (if sc_processed s \<ge> limit then Ok s
      else rbind (read_object env bucket (sm_s3_key g)) (\<lambda>rs.
        scan_segments env limit bucket gs (fold scan_record rs (s\<lparr>sc_bytes := sc_bytes s + sm_size_bytes g\<rparr>))))"

text \<open>Tombstones older than the retention are dropped; what is left is put in the order of the offsets.\<close>

definition live_tombstones :: "CompactionConfig \<Rightarrow> i64 \<Rightarrow> (bytes \<rightharpoonup> u64 \<times> u64) \<Rightarrow> bytes \<rightharpoonup> u64 \<times> u64" where
  "live_tombstones cfg now ts key =
     (case ts key of Some (off, t) \<Rightarrow> if sint (now - t) < cc_tombstone_retention cfg then Some (off, t) else None | None \<Rightarrow> None)"

definition compacted_records :: "compact_env \<Rightarrow> CompactionConfig \<Rightarrow> scan_state \<Rightarrow> Record list" where
  "compacted_records env cfg s =
     sort_key rec_offset
       (List.map_filter (\<lambda>key. map_option (\<lambda>(off, t, v). Record_new off t (Some key) v) (sc_keys s key)) (cm_key_order env)
        @ List.map_filter (\<lambda>key. map_option (\<lambda>(off, t). Record_new off t (Some key) []) (live_tombstones cfg (cm_now env) (sc_tombstones s) key))
            (cm_tombstone_order env)
        @ sc_unkeyed s)"

section \<open>Compacting a partition\<close>

definition eligible_segments :: "CompactionConfig \<Rightarrow> i64 \<Rightarrow> SegmentMeta list \<Rightarrow> SegmentMeta list" where
  "eligible_segments cfg now gs = filter (\<lambda>g. \<not> sint (now - sm_created_at g) < cc_min_segment_age cfg) gs"

definition compacted_key :: "string \<Rightarrow> string \<Rightarrow> u32 \<Rightarrow> u64 \<Rightarrow> string" where
  "compacted_key org_id topic partition_id base_offset =
     ''org-'' @ org_id @ ''/data/'' @ topic @ ''/'' @ show_nat (unat partition_id) @ ''/seg_'' @ show_nat (unat base_offset) @ ''_compacted.bin''"

definition compacted_row :: "compact_env \<Rightarrow> string \<Rightarrow> string \<Rightarrow> u32 \<Rightarrow> SegmentMeta list \<Rightarrow> Record list \<Rightarrow> bytes \<Rightarrow> SegmentMeta" where
  "compacted_row env org_id topic partition_id gs rs data =
     (let base_offset = rec_offset (hd rs) in
      \<lparr>sm_id = topic @ ''-'' @ show_nat (unat partition_id) @ ''-'' @ show_nat (unat base_offset) @ ''-compacted'', sm_topic = topic,
       sm_partition_id = partition_id, sm_base_offset = base_offset, sm_end_offset = rec_offset (last rs), sm_record_count = of_nat (length rs),
       sm_size_bytes = of_nat (length data), sm_s3_bucket = (case gs of [] \<Rightarrow> [] | g # _ \<Rightarrow> sm_s3_bucket g),
       sm_s3_key = compacted_key org_id topic partition_id base_offset, sm_created_at = cm_now env, sm_min_timestamp = 0, sm_max_timestamp = 0\<rparr>)"

definition delete_objects :: "compact_env \<Rightarrow> SegmentMeta list \<Rightarrow> (string \<rightharpoonup> bytes) \<Rightarrow> string \<rightharpoonup> bytes" where
  "delete_objects env gs bucket = fold (\<lambda>g b. if cm_delete_fails env (sm_s3_key g) then b else b(sm_s3_key g := None)) gs bucket"

definition compact_partition ::
  "compact_env \<Rightarrow> CompactionConfig \<Rightarrow> string \<Rightarrow> string \<Rightarrow> u32 \<Rightarrow> (string \<rightharpoonup> bytes) \<times> topic_db
     \<Rightarrow> ((string \<rightharpoonup> bytes) \<times> topic_db) \<times> (CompactionError, CompactionResult) result" where
  "compact_partition env cfg org_id topic partition_id = (\<lambda>(bucket, db).
     if cm_segments_fail env then ((bucket, db), Err CompactMetadata)
     else let gs = eligible_segments cfg (cm_now env) (get_segments org_id topic partition_id db) in
     if length gs < 2 then ((bucket, db), Ok CompactionResult_default)
     else case scan_segments env (cc_max_records_per_run cfg) bucket gs scan_start of
       Err e \<Rightarrow> ((bucket, db), Err e)
     | Panic \<Rightarrow> ((bucket, db), Panic)
     | Ok s \<Rightarrow>
         (let rs = compacted_records env cfg s; removed = sc_processed s - length rs;
              result = (\<lambda>saved. \<lparr>cr_records_processed = sc_processed s, cr_keys_removed = removed, cr_segments_compacted = length gs, cr_bytes_saved = saved\<rparr>)
          in if rs = [] then ((delete_objects env gs bucket, db), Ok (result (sc_bytes s)))
          else case write_segment (cm_lz4 env) (cm_crc32 env) CompLz4 rs of
            Err _ \<Rightarrow> ((bucket, db), Err CompactStorage)
          | Panic \<Rightarrow> ((bucket, db), Panic)
          | Ok data \<Rightarrow>
              (let row = compacted_row env org_id topic partition_id gs rs data;
                   saved = (if of_nat (length data) \<le> sc_bytes s then sc_bytes s - of_nat (length data) else 0)
               in if cm_put_fails env then ((bucket, db), Err CompactStorage)
               else let bucket1 = bucket(sm_s3_key row \<mapsto> data) in
                 case add_segment (cm_add_fails env) org_id row db of
                   (db1, Ok _) \<Rightarrow>
                     (let bucket2 = delete_objects env gs bucket1 in
                      case delete_segments_before (cm_rows_fail env) org_id topic partition_id (sm_base_offset (hd gs)) db1 of
                        (db2, Ok _) \<Rightarrow> ((bucket2, db2), Ok (result saved))
                      | (db2, _) \<Rightarrow> ((bucket2, db2), Err CompactMetadata))
                 | (db1, _) \<Rightarrow> ((bucket1, db1), Err CompactMetadata))))"

section \<open>A cycle\<close>

text \<open>The environment of each partition is its own; errors of a partition are logged only.\<close>

definition compact_topic ::
  "(u32 \<Rightarrow> compact_env) \<Rightarrow> CompactionConfig \<Rightarrow> string \<Rightarrow> string \<Rightarrow> u32 \<Rightarrow> (string \<rightharpoonup> bytes) \<times> topic_db \<Rightarrow> (string \<rightharpoonup> bytes) \<times> topic_db" where
  "compact_topic env cfg org_id topic partition_count st =
     fold (\<lambda>p st. fst (compact_partition (env (of_nat p)) cfg org_id topic (of_nat p) st)) [0 ..< unat partition_count] st"

definition is_compacted :: "CleanupPolicy \<Rightarrow> bool" where
  "is_compacted p \<longleftrightarrow> p = Compact \<or> p = CompactAndDelete"

fun compact_organizations ::
  "(string \<Rightarrow> bool) \<Rightarrow> (string \<Rightarrow> string \<Rightarrow> u32 \<Rightarrow> compact_env) \<Rightarrow> CompactionConfig \<Rightarrow> string list \<Rightarrow> (string \<rightharpoonup> bytes) \<times> topic_db
     \<Rightarrow> ((string \<rightharpoonup> bytes) \<times> topic_db) \<times> (CompactionError, unit) result" where
  "compact_organizations topics_fail env cfg [] st = (st, Ok ())"
| "compact_organizations topics_fail env cfg (org # orgs) st =
     (if topics_fail org then (st, Err CompactMetadata)
      else compact_organizations topics_fail env cfg orgs
        (fold (\<lambda>t st. compact_topic (env org (to_name t)) cfg org (to_name t) (to_partition_count t) st)
           (filter (is_compacted \<circ> to_cleanup_policy) (list_topics_for_org org (snd st))) st))"

definition run_compaction_cycle ::
  "bool \<Rightarrow> (string \<Rightarrow> bool) \<Rightarrow> (string \<Rightarrow> string \<Rightarrow> u32 \<Rightarrow> compact_env) \<Rightarrow> CompactionConfig \<Rightarrow> (string \<rightharpoonup> bytes) \<times> topic_db
     \<Rightarrow> ((string \<rightharpoonup> bytes) \<times> topic_db) \<times> (CompactionError, unit) result" where
  "run_compaction_cycle orgs_fail topics_fail env cfg st =
     (if orgs_fail then (st, Err CompactMetadata) else compact_organizations topics_fail env cfg (map or_id (list_organizations (snd st))) st)"

end
