(* ===== verification/Compaction_Properties.thy ===== *)
theory Compaction_Properties
  imports Log_Compaction Topic_Properties Segment_Properties
begin

text \<open>
  Theorems on log compaction: the records it keeps are the latest of each key, which is stated by a filter over the log, and what it does to the
  segments it has compacted and to those it has not read.
\<close>

section \<open>The latest record of each key\<close>

definition keyed :: "Record \<Rightarrow> bool" where
  "keyed r \<longleftrightarrow> rec_key r \<noteq> None \<and> rec_key r \<noteq> Some []"

definition latest_of :: "bytes \<Rightarrow> Record list \<Rightarrow> Record option" where
  "latest_of key rs = (let xs = filter (\<lambda>r. rec_key r = Some key) rs in if xs = [] then None else Some (last xs))"

text \<open>What compaction should keep: records without a key, and the last record of each key unless it is a tombstone past its retention.\<close>

definition kept :: "CompactionConfig \<Rightarrow> i64 \<Rightarrow> Record list \<Rightarrow> Record \<Rightarrow> bool" where
  "kept cfg now rs r \<longleftrightarrow>
     (if keyed r then latest_of (the (rec_key r)) rs = Some r \<and> (rec_value r \<noteq> [] \<or> sint (now - rec_timestamp r) < cc_tombstone_retention cfg) else True)"

definition compact_spec :: "CompactionConfig \<Rightarrow> i64 \<Rightarrow> Record list \<Rightarrow> Record list" where
  "compact_spec cfg now rs = filter (kept cfg now rs) rs"

lemma latest_snoc: "latest_of key (rs @ [r]) = (if rec_key r = Some key then Some r else latest_of key rs)"
  by (simp add: latest_of_def)

lemma latest_in: "latest_of key rs = Some r \<Longrightarrow> r \<in> set rs \<and> rec_key r = Some key"
  by (induction rs rule: rev_induct) (auto simp: latest_snoc latest_of_def [of _ "[]"] split: if_splits)

text \<open>The maps after a scan in the order of the offsets.\<close>

definition scan_ok :: "Record list \<Rightarrow> scan_state \<Rightarrow> bool" where
  "scan_ok rs s \<longleftrightarrow> sc_processed s = length rs \<and> sc_unkeyed s = filter (Not \<circ> keyed) rs
     \<and> (\<forall>key. sc_keys s key = (case latest_of key rs of Some r \<Rightarrow> if key \<noteq> [] \<and> rec_value r \<noteq> [] then Some (rec_offset r, rec_timestamp r, rec_value r) else None | None \<Rightarrow> None))
     \<and> (\<forall>key. sc_tombstones s key = (case latest_of key rs of Some r \<Rightarrow> if key \<noteq> [] \<and> rec_value r = [] then Some (rec_offset r, rec_timestamp r) else None | None \<Rightarrow> None))"

lemma scan_record_ok:
  assumes "scan_ok rs s" and "sorted_wrt (<) (map rec_offset (rs @ [r]))"
  shows "scan_ok (rs @ [r]) (scan_record r s)"
proof (cases "keyed r")
  case False
  then have "scan_record r s = s\<lparr>sc_processed := sc_processed s + 1, sc_unkeyed := sc_unkeyed s @ [r]\<rparr>"
    by (auto simp: scan_record_def keyed_def Let_def)
  moreover have "latest_of key (rs @ [r]) = latest_of key rs \<or> key = []" for key using False by (auto simp: latest_snoc keyed_def)
  ultimately show ?thesis using assms(1) False unfolding scan_ok_def
    by (auto simp: latest_snoc keyed_def split: option.splits)
next
  case True
  then obtain key where k: "rec_key r = Some key" "key \<noteq> []" by (auto simp: keyed_def)
  have newer: "case sc_keys s key of Some (existing, _) \<Rightarrow> rec_offset r > existing | None \<Rightarrow> True"
  proof (cases "latest_of key rs")
    case (Some q)
    then have "q \<in> set rs" using latest_in by blast
    then have "rec_offset q < rec_offset r" using assms(2) by (auto simp: sorted_wrt_append)
    then show ?thesis using assms(1) Some by (auto simp: scan_ok_def)
  qed (use assms(1) in \<open>auto simp: scan_ok_def\<close>)
  show ?thesis
  proof (cases "rec_value r = []")
    case True
    then have "scan_record r s = s\<lparr>sc_processed := sc_processed s + 1, sc_tombstones := (sc_tombstones s)(key \<mapsto> (rec_offset r, rec_timestamp r)), sc_keys := (sc_keys s)(key := None)\<rparr>"
      by (simp add: scan_record_def k)
    then show ?thesis using assms(1) k True \<open>keyed r\<close> by (auto simp: scan_ok_def latest_snoc)
  next
    case False
    then have "scan_record r s = s\<lparr>sc_processed := sc_processed s + 1, sc_keys := (sc_keys s)(key \<mapsto> (rec_offset r, rec_timestamp r, rec_value r)), sc_tombstones := (sc_tombstones s)(key := None)\<rparr>"
      using newer by (simp add: scan_record_def k)
    then show ?thesis using assms(1) k False \<open>keyed r\<close> by (auto simp: scan_ok_def latest_snoc)
  qed
qed

lemma scan_records_ok:
  assumes "scan_ok rs s" and "sorted_wrt (<) (map rec_offset (rs @ qs))"
  shows "scan_ok (rs @ qs) (fold scan_record qs s)"
  using assms
proof (induction qs arbitrary: rs s)
  case (Cons q qs)
  have "scan_ok (rs @ [q]) (scan_record q s)" using Cons(2,3) by (intro scan_record_ok) (auto simp: sorted_wrt_append)
  from Cons.IH [OF this] Cons(3) show ?case by simp
qed simp

lemma sort_key_unique:
  assumes "set xs = set ys" and "distinct (map f xs)" and "sorted_wrt (<) (map f ys)"
  shows "sort_key f xs = (ys :: 'a list)"
proof -
  have d: "distinct (map f ys)" and s: "sorted (map f ys)" using assms(3) by (auto simp: strict_sorted_iff)
  have "card (set (map f (sort_key f xs))) = length (map f (sort_key f xs))" using distinct_card [OF assms(2)] by simp
  then have "distinct (map f (sort_key f xs))" by (rule card_distinct)
  then have "map f (sort_key f xs) = map f ys" using d s assms(1) by (intro sorted_distinct_set_unique) auto
  moreover have "inj_on f (set (sort_key f xs) \<union> set ys)" using d assms(1) by (simp add: distinct_map)
  ultimately show ?thesis by (rule inj_on_map_eq_map [THEN iffD1, rotated])
qed

lemma keyed_latest:
  assumes "\<And>r key. r \<in> set rs \<Longrightarrow> rec_key r = Some key \<Longrightarrow> key \<in> set ks"
  shows "(\<exists>key \<in> set ks. latest_of key rs = Some r \<and> key \<noteq> [] \<and> P) \<longleftrightarrow> r \<in> set rs \<and> keyed r \<and> latest_of (the (rec_key r)) rs = Some r \<and> P"
    (is "?l \<longleftrightarrow> ?r")
proof
  assume ?l
  then obtain key where k: "latest_of key rs = Some r" "key \<noteq> []" P by blast
  then show ?r using latest_in [OF k(1)] by (simp add: keyed_def)
next
  assume r: ?r
  then obtain key where k: "rec_key r = Some key" "key \<noteq> []" by (auto simp: keyed_def)
  then have "key \<in> set ks" "latest_of key rs = Some r" using r assms by auto
  then show ?l using k(2) r by blast
qed

text \<open>The compacted records are those that should be kept.\<close>

lemma compacted_eq:
  assumes "scan_ok rs s" and "sorted_wrt (<) (map rec_offset rs)" and "distinct (cm_key_order env)" and "distinct (cm_tombstone_order env)"
    and "\<And>r key. r \<in> set rs \<Longrightarrow> rec_key r = Some key \<Longrightarrow> key \<in> set (cm_key_order env) \<and> key \<in> set (cm_tombstone_order env)"
  shows "compacted_records env cfg s = compact_spec cfg (cm_now env) rs"
proof -
  let ?f = "\<lambda>key. map_option (\<lambda>(off, t, v). Record_new off t (Some key) v) (sc_keys s key)"
  let ?g = "\<lambda>key. map_option (\<lambda>(off, t). Record_new off t (Some key) []) (live_tombstones cfg (cm_now env) (sc_tombstones s) key)"
  let ?a = "List.map_filter ?f (cm_key_order env)" and ?b = "List.map_filter ?g (cm_tombstone_order env)" and ?c = "sc_unkeyed s"
  have f: "?f key = Some r \<longleftrightarrow> latest_of key rs = Some r \<and> key \<noteq> [] \<and> rec_value r \<noteq> []" for key r
    using assms(1) latest_in [of key rs] by (auto simp: scan_ok_def Record_new_def split: option.splits)
  have g: "?g key = Some r \<longleftrightarrow> latest_of key rs = Some r \<and> key \<noteq> [] \<and> rec_value r = [] \<and> sint (cm_now env - rec_timestamp r) < cc_tombstone_retention cfg" for key r
    using assms(1) latest_in [of key rs] by (auto simp: scan_ok_def live_tombstones_def Record_new_def split: option.splits)
  have mf: "set (List.map_filter h ks) = {r. \<exists>key \<in> set ks. h key = Some r}" for h :: "bytes \<Rightarrow> Record option" and ks
    by (force simp: List.map_filter_def)
  have sa: "r \<in> set ?a \<longleftrightarrow> r \<in> set rs \<and> keyed r \<and> latest_of (the (rec_key r)) rs = Some r \<and> rec_value r \<noteq> []" for r
    unfolding mf mem_Collect_eq f by (rule keyed_latest) (use assms(5) in blast)
  have sb: "r \<in> set ?b \<longleftrightarrow> r \<in> set rs \<and> keyed r \<and> latest_of (the (rec_key r)) rs = Some r \<and> rec_value r = []
      \<and> sint (cm_now env - rec_timestamp r) < cc_tombstone_retention cfg" for r
    unfolding mf mem_Collect_eq g by (rule keyed_latest) (use assms(5) in blast)
  have sc: "?c = filter (Not \<circ> keyed) rs" using assms(1) by (simp add: scan_ok_def)
  have set: "set (?a @ ?b @ ?c) = set (compact_spec cfg (cm_now env) rs)"
    unfolding set_append set_eq_iff Un_iff sa sb sc compact_spec_def by (auto simp: kept_def)
  have dm: "distinct (List.map_filter h ks)" if "distinct ks" "\<And>key r. h key = Some r \<Longrightarrow> rec_key r = Some key" for h :: "bytes \<Rightarrow> Record option" and ks
    using that by (induction ks) (auto simp: map_filter_simps mf split: option.split dest!: that(2))
  have "distinct ?a" by (rule dm [OF assms(3)]) (use f latest_in in blast)
  moreover have "distinct ?b" by (rule dm [OF assms(4)]) (use g latest_in in blast)
  moreover have "distinct rs" using assms(2) by (simp add: strict_sorted_iff distinct_map)
  ultimately have "distinct (?a @ ?b @ ?c)" using sa sb unfolding sc by auto
  moreover have "inj_on rec_offset (set (?a @ ?b @ ?c))"
    using assms(2) unfolding set by (auto simp: strict_sorted_iff distinct_map compact_spec_def intro: inj_on_subset)
  ultimately have "distinct (map rec_offset (?a @ ?b @ ?c))" by (simp only: distinct_map)
  moreover have "sorted_wrt (<) (map rec_offset (compact_spec cfg (cm_now env) rs))"
    using assms(2) by (simp add: compact_spec_def sorted_wrt_map sorted_wrt_filter)
  ultimately show ?thesis unfolding compacted_records_def by (intro sort_key_unique [OF set])
qed

section \<open>What a run leaves\<close>

lemma scan_ok_bytes: "scan_ok rs (s\<lparr>sc_bytes := b\<rparr>) = scan_ok rs s"
  by (simp add: scan_ok_def)

lemma scan_ok_start: "scan_ok [] scan_start"
  by (simp add: scan_ok_def scan_start_def latest_of_def)

lemma scan_segments_all:
  assumes "list_all2 (\<lambda>g rs. read_object env bucket (sm_s3_key g) = Ok rs) gs rss" and "scan_ok rs s"
    and "sorted_wrt (<) (map rec_offset (rs @ concat rss))" and "length (rs @ concat rss) < limit"
  shows "\<exists>s'. scan_segments env limit bucket gs s = Ok s' \<and> scan_ok (rs @ concat rss) s'"
  using assms
proof (induction gs rss arbitrary: rs s rule: list_all2_induct)
  case (Cons g gs qs rss)
  let ?s = "fold scan_record qs (s\<lparr>sc_bytes := sc_bytes s + sm_size_bytes g\<rparr>)"
  have "scan_ok (rs @ qs) ?s" using Cons.prems by (intro scan_records_ok) (auto simp: scan_ok_bytes sorted_wrt_append)
  moreover have "sc_processed s < limit" using Cons.prems by (simp add: scan_ok_def)
  ultimately show ?case using Cons.IH [of "rs @ qs" ?s] Cons.prems Cons.hyps by simp
qed simp

lemma scan_segments_first:
  assumes "read_object env bucket (sm_s3_key g) = Ok rs" and "sorted_wrt (<) (map rec_offset rs)" and "0 < limit" and "limit \<le> length rs"
  shows "\<exists>s'. scan_segments env limit bucket (g # gs) scan_start = Ok s' \<and> scan_ok rs s'"
proof -
  let ?s = "fold scan_record rs (scan_start\<lparr>sc_bytes := sc_bytes scan_start + sm_size_bytes g\<rparr>)"
  have s: "scan_ok ([] @ rs) ?s" using assms(2) by (intro scan_records_ok) (simp_all add: scan_ok_bytes scan_ok_start)
  then have "scan_segments env limit bucket gs ?s = Ok ?s" using assms(4) by (cases gs) (auto simp: scan_ok_def)
  then show ?thesis using s assms(1,3) by (simp add: scan_start_def)
qed

lemma delete_objects_eq: "delete_objects env gs bucket key = (if \<exists>g \<in> set gs. sm_s3_key g = key \<and> \<not> cm_delete_fails env key then None else bucket key)"
  unfolding delete_objects_def by (induction gs arbitrary: bucket) auto

text \<open>The effects of a successful run whose scan ended in \<^term>\<open>s\<close> with something to keep.\<close>

lemma compact_partition_ok:
  assumes "compact_partition env cfg org topic n (bucket, db) = ((bucket', db'), Ok res)"
    and gs: "gs = eligible_segments cfg (cm_now env) (get_segments org topic n db)" and "2 \<le> length gs"
    and "scan_segments env (cc_max_records_per_run cfg) bucket gs scan_start = Ok s" and rs: "rs = compacted_records env cfg s" "rs \<noteq> []"
  shows "\<exists>data row. write_segment (cm_lz4 env) (cm_crc32 env) CompLz4 rs = Ok data \<and> sm_s3_key row = compacted_key org topic n (rec_offset (hd rs))
     \<and> bucket' = delete_objects env gs (bucket(compacted_key org topic n (rec_offset (hd rs)) \<mapsto> data))
     \<and> td_segments db' = filter (\<lambda>(o', g). \<not> (o' = org \<and> in_partition topic n g \<and> sint (sm_end_offset g) < sint (sm_base_offset (hd gs)))) (td_segments db @ [(org, row)])
     \<and> cr_records_processed res = sc_processed s \<and> cr_keys_removed res = sc_processed s - length rs \<and> cr_segments_compacted res = length gs"
proof -
  from assms obtain data where w: "write_segment (cm_lz4 env) (cm_crc32 env) CompLz4 rs = Ok data"
    unfolding compact_partition_def by (cases "write_segment (cm_lz4 env) (cm_crc32 env) CompLz4 rs") (auto simp: Let_def split: if_splits)
  define row where "row = compacted_row env org topic n gs rs data"
  have key: "sm_s3_key row = compacted_key org topic n (rec_offset (hd rs))" by (simp add: row_def compacted_row_def Let_def)
  obtain db1 a where add: "add_segment (cm_add_fails env) org row db = (db1, a)" by (cases "add_segment (cm_add_fails env) org row db")
  obtain db2 d where del: "delete_segments_before (cm_rows_fail env) org topic n (sm_base_offset (hd gs)) db1 = (db2, d)"
    by (cases "delete_segments_before (cm_rows_fail env) org topic n (sm_base_offset (hd gs)) db1")
  have "a = Ok () \<and> (\<exists>m. d = Ok m) \<and> bucket' = delete_objects env gs (bucket(sm_s3_key row \<mapsto> data)) \<and> db' = db2
      \<and> cr_records_processed res = sc_processed s \<and> cr_keys_removed res = sc_processed s - length rs \<and> cr_segments_compacted res = length gs"
    using assms(1,3,4) rs(2) unfolding compact_partition_def gs [symmetric] prod.case Let_def
    by (cases a; cases d) (auto simp: rs(1) [symmetric] gs [symmetric] w row_def [symmetric] add del split: if_splits)
  then have a: "a = Ok ()" and d: "\<exists>m. d = Ok m" and out: "bucket' = delete_objects env gs (bucket(sm_s3_key row \<mapsto> data))" "db' = db2"
    "cr_records_processed res = sc_processed s" "cr_keys_removed res = sc_processed s - length rs" "cr_segments_compacted res = length gs" by simp_all
  have "td_segments db1 = td_segments db @ [(org, row)]" using add a by (auto simp: add_segment_def insert_segment_def split: if_splits)
  then have "td_segments db2 = filter (\<lambda>(o', g). \<not> (o' = org \<and> in_partition topic n g \<and> sint (sm_end_offset g) < sint (sm_base_offset (hd gs)))) (td_segments db @ [(org, row)])"
    using del d by (auto simp: delete_segments_before_def Let_def comp_def case_prod_unfold split: if_splits)
  then show ?thesis using w key out by auto
qed

text \<open>Conversely a run succeeds when its calls do and the row of the compacted segment is new.\<close>

lemma compact_partition_succeeds:
  assumes "\<not> cm_segments_fail env" "\<not> cm_put_fails env" "\<not> cm_add_fails env" "\<not> cm_rows_fail env"
    and gs: "eligible_segments cfg (cm_now env) (get_segments org topic n db) = gs" "2 \<le> length gs"
    and "scan_segments env (cc_max_records_per_run cfg) bucket gs scan_start = Ok s" and "compacted_records env cfg s = rs" "rs \<noteq> []"
    and "write_segment (cm_lz4 env) (cm_crc32 env) CompLz4 rs = Ok data"
    and "sint (rec_offset (hd rs)) \<le> sint (rec_offset (last rs))" and "sm_id (compacted_row env org topic n gs rs data) \<notin> (sm_id \<circ> snd) ` set (td_segments db)"
    and "org \<in> set (organization_ids db)"
  shows "\<exists>db' res. compact_partition env cfg org topic n (bucket, db)
     = ((delete_objects env gs (bucket(compacted_key org topic n (rec_offset (hd rs)) \<mapsto> data)), db'), Ok res)"
  using assms by (simp add: compact_partition_def Let_def add_segment_def insert_segment_def delete_segments_before_def) (simp add: compacted_row_def Let_def)

section \<open>A run on two segments\<close>

definition compact_row :: "string \<Rightarrow> u64 \<Rightarrow> u64 \<Rightarrow> SegmentMeta" where
  "compact_row key base end_offset = \<lparr>sm_id = ''orders-0-'' @ key, sm_topic = ''orders'', sm_partition_id = 0, sm_base_offset = base, sm_end_offset = end_offset,
     sm_record_count = 2, sm_size_bytes = 200, sm_s3_bucket = ''s'', sm_s3_key = key, sm_created_at = 1, sm_min_timestamp = 1, sm_max_timestamp = 1\<rparr>"

definition compact_db :: topic_db where
  "compact_db = topic_db_empty\<lparr>td_organizations := [\<lparr>or_id = ''a'', or_name = ''acme'', or_slug = ''acme''\<rparr>],
     td_segments := [(''a'', compact_row ''k0'' 0 1), (''a'', compact_row ''k2'' 2 3)]\<rparr>"

definition compact_first :: "Record list" where
  "compact_first = [Record_new 0 5 (Some [1]) [7], Record_new 1 5 (Some [2]) [8]]"

definition compact_second :: "Record list" where
  "compact_second = [Record_new 2 6 (Some [1]) [9], Record_new 3 6 None [4]]"

definition object_of :: "Record list \<Rightarrow> bytes" where
  "object_of rs = (case write_segment (\<lambda>b. b) (\<lambda>_. 0) CompLz4 rs of Ok data \<Rightarrow> data | _ \<Rightarrow> [])"

definition compact_bucket :: "string \<rightharpoonup> bytes" where
  "compact_bucket = [''k0'' \<mapsto> object_of compact_first, ''k2'' \<mapsto> object_of compact_second]"

definition compact_world :: compact_env where
  "compact_world = \<lparr>cm_now = 4000000, cm_lz4 = (\<lambda>b. b), cm_unlz4 = Ok, cm_crc32 = (\<lambda>_. 0), cm_key_order = [[2], [1]], cm_tombstone_order = [[1], [2]],
     cm_segments_fail = False, cm_get_fails = (\<lambda>_. False), cm_put_fails = False, cm_add_fails = False, cm_delete_fails = (\<lambda>_. False), cm_rows_fail = False\<rparr>"

definition compact_result :: "Record list" where
  "compact_result = [Record_new 1 5 (Some [2]) [8], Record_new 2 6 (Some [1]) [9], Record_new 3 6 None [4]]"

lemmas compact_records = compact_first_def compact_second_def compact_result_def Record_new_def

lemma compact_written:
  assumes "rs \<in> {compact_first, compact_second, compact_result}"
  shows "write_segment (\<lambda>b. b) (\<lambda>_. 0) CompLz4 rs = Ok (object_of rs)" "length (object_of rs) < 2 ^ 64"
proof -
  have "rs \<noteq> []" using assms by (auto simp: compact_records)
  then obtain data where w: "write_segment (\<lambda>b. b) (\<lambda>_. 0) CompLz4 rs = Ok data" using write_segment_layout [of rs CompLz4] by auto
  then show "write_segment (\<lambda>b. b) (\<lambda>_. 0) CompLz4 rs = Ok (object_of rs)" by (simp add: object_of_def)
  have "length data < 2 ^ 64" using w assms
    by (elim insertE emptyE; simp add: compact_first_def compact_second_def compact_result_def segment_eval) (auto simp: segment_eval)
  then show "length (object_of rs) < 2 ^ 64" using w by (simp add: object_of_def)
qed

lemma compact_reads:
  assumes "rs \<in> {compact_first, compact_second}" and "bucket key = Some (object_of rs)"
  shows "read_object compact_world bucket key = Ok rs"
proof -
  have rs: "rs \<noteq> []" "length rs < 2 ^ 32" "map stored_record rs = rs" "\<And>r. r \<in> set rs \<Longrightarrow> record_small r"
    using assms(1) by (auto simp: compact_records stored_record_def stored_key_def record_small_def)
  have "lz4_contract (\<lambda>b. b) Ok" by (simp add: lz4_contract_def)
  from written_decodes [OF this rs(1) _ rs(2,4) compact_written(1)] compact_written(2) [of rs] assms(1) rs(3)
  show ?thesis using assms(2) by (auto simp: read_object_def compact_world_def)
qed

lemma compact_demo_segments:
  "eligible_segments cfg 4000000 (get_segments ''a'' ''orders'' 0 compact_db) = (if cc_min_segment_age cfg \<le> 3999999 then [compact_row ''k0'' 0 1, compact_row ''k2'' 2 3] else [])"
  by (simp add: eligible_segments_def get_segments_def compact_db_def topic_db_empty_def compact_row_def in_partition_def)

lemma compact_demo_spec:
  "compact_spec cfg now (concat [compact_first, compact_second]) = compact_result" "compact_spec cfg now compact_first = compact_first"
  by (simp_all add: compact_spec_def kept_def keyed_def latest_of_def compact_records)

lemma compact_demo_key: "compacted_key ''a'' ''orders'' 0 0 = ''org-a/data/orders/0/seg_0_compacted.bin''"
    "compacted_key ''a'' ''orders'' 0 1 = ''org-a/data/orders/0/seg_1_compacted.bin''"
  by (code_simp)+

lemma compact_demo_env: "lz4_contract (cm_lz4 compact_world) (cm_unlz4 compact_world)" "cm_now compact_world = 4000000"
    "cm_lz4 compact_world = (\<lambda>b. b)" "cm_unlz4 compact_world = Ok" "cm_crc32 compact_world = (\<lambda>_. 0)"
    "\<not> cm_segments_fail compact_world" "\<not> cm_put_fails compact_world" "\<not> cm_add_fails compact_world" "\<not> cm_rows_fail compact_world"
    "\<not> cm_delete_fails compact_world k"
    "distinct (cm_key_order compact_world)" "distinct (cm_tombstone_order compact_world)"
  by (simp_all add: compact_world_def lz4_contract_def)

lemma compact_demo_runs:
  assumes "cc_min_segment_age cfg \<le> 3999999"
    and "scan_segments compact_world (cc_max_records_per_run cfg) compact_bucket [compact_row ''k0'' 0 1, compact_row ''k2'' 2 3] scan_start = Ok s"
    and "compacted_records compact_world cfg s = rs" and "rs \<in> {compact_first, compact_result}"
  shows "\<exists>db' res. compact_partition compact_world cfg ''a'' ''orders'' 0 (compact_bucket, compact_db)
     = ((delete_objects compact_world [compact_row ''k0'' 0 1, compact_row ''k2'' 2 3]
          (compact_bucket(compacted_key ''a'' ''orders'' 0 (rec_offset (hd rs)) \<mapsto> object_of rs)), db'), Ok res)"
proof (rule compact_partition_succeeds)
  show "write_segment (cm_lz4 compact_world) (cm_crc32 compact_world) CompLz4 rs = Ok (object_of rs)"
    using compact_written(1) assms(4) by (auto simp: compact_demo_env)
  have "show_nat 0 = ''0''" "show_nat 1 = ''1''" by code_simp+
  then show "sm_id (compacted_row compact_world ''a'' ''orders'' 0 [compact_row ''k0'' 0 1, compact_row ''k2'' 2 3] rs (object_of rs)) \<notin> (sm_id \<circ> snd) ` set (td_segments compact_db)"
    using assms(4) by (auto simp: compacted_row_def Let_def compact_db_def compact_row_def compact_records)
  show "sint (rec_offset (hd rs)) \<le> sint (rec_offset (last rs))" "rs \<noteq> []" using assms(4) by (auto simp: compact_records)
  show "''a'' \<in> set (organization_ids compact_db)" by (simp add: organization_ids_def compact_db_def)
qed (use assms in \<open>simp_all add: compact_demo_env compact_demo_segments\<close>)

lemma compact_demo_keys:
  "r \<in> set (concat [compact_first, compact_second]) \<Longrightarrow> rec_key r = Some key \<Longrightarrow> key \<in> set (cm_key_order compact_world) \<and> key \<in> set (cm_tombstone_order compact_world)"
  by (auto simp: compact_records compact_world_def)

lemma compact_demo_small: "r \<in> set (concat [compact_first, compact_second]) \<Longrightarrow> record_small r"
  by (auto simp: compact_records record_small_def)

lemma compact_demo_reads:
  "read_object compact_world compact_bucket (sm_s3_key (compact_row ''k0'' 0 1)) = Ok compact_first"
  "read_object compact_world compact_bucket (sm_s3_key (compact_row ''k2'' 2 3)) = Ok compact_second"
  by (rule compact_reads; simp add: compact_bucket_def compact_row_def)+

lemma compact_demo_scan:
  obtains s where "scan_segments compact_world (cc_max_records_per_run CompactionConfig_default) compact_bucket
     [compact_row ''k0'' 0 1, compact_row ''k2'' 2 3] scan_start = Ok s" and "compacted_records compact_world CompactionConfig_default s = compact_result"
proof -
  have srt: "sorted_wrt (<) (map rec_offset (concat [compact_first, compact_second]))" by (simp add: compact_records)
  obtain s where s: "scan_segments compact_world (cc_max_records_per_run CompactionConfig_default) compact_bucket
     [compact_row ''k0'' 0 1, compact_row ''k2'' 2 3] scan_start = Ok s" "scan_ok (concat [compact_first, compact_second]) s"
    using scan_segments_all [OF _ scan_ok_start, of compact_world compact_bucket "[compact_row ''k0'' 0 1, compact_row ''k2'' 2 3]" "[compact_first, compact_second]"
        "cc_max_records_per_run CompactionConfig_default"] srt compact_demo_reads by (auto simp: CompactionConfig_default_def compact_records)
  then show thesis using that compacted_eq [OF s(2) srt compact_demo_env(11,12) compact_demo_keys] compact_demo_spec(1) by auto
qed

section \<open>Theorems\<close>

text \<open>
  C11. Compaction keeps the latest record of each key: when every eligible segment was read, in the order of the offsets and within the limit of the
  run, the object that a successful run writes reads back as the records of the log without a key together with the last record of each key, without
  the tombstones past their retention, in the order of the offsets, whatever the iteration orders of the hash maps.
\<close>

theorem compaction_keeps_latest:
  assumes "lz4_contract (cm_lz4 env) (cm_unlz4 env)"
    and "compact_partition env cfg org topic n (bucket, db) = ((bucket', db'), Ok res)"
    and "list_all2 (\<lambda>g rs. read_object env bucket (sm_s3_key g) = Ok rs) (eligible_segments cfg (cm_now env) (get_segments org topic n db)) rss"
    and "2 \<le> length rss" and "sorted_wrt (<) (map rec_offset (concat rss))" and "length (concat rss) < cc_max_records_per_run cfg"
    and "length (concat rss) < 2 ^ 32" and "\<And>r. r \<in> set (concat rss) \<Longrightarrow> record_small r"
    and "distinct (cm_key_order env)" and "distinct (cm_tombstone_order env)"
    and "\<And>r key. r \<in> set (concat rss) \<Longrightarrow> rec_key r = Some key \<Longrightarrow> key \<in> set (cm_key_order env) \<and> key \<in> set (cm_tombstone_order env)"
    and rs: "rs = compact_spec cfg (cm_now env) (concat rss)" "rs \<noteq> []"
    and key: "key = compacted_key org topic n (rec_offset (hd rs))" "key \<notin> sm_s3_key ` set (eligible_segments cfg (cm_now env) (get_segments org topic n db))"
    and len: "length (the (bucket' key)) < 2 ^ 64"
  shows "(\<exists>data rd. bucket' key = Some data \<and> SegmentReader_new (cm_crc32 env) data = Ok rd \<and> read_all (cm_unlz4 env) rd = Ok (map stored_record rs))
     \<and> cr_records_processed res = length (concat rss) \<and> cr_keys_removed res = length (concat rss) - length rs"
proof -
  let ?gs = "eligible_segments cfg (cm_now env) (get_segments org topic n db)"
  obtain s where s: "scan_segments env (cc_max_records_per_run cfg) bucket ?gs scan_start = Ok s" "scan_ok (concat rss) s"
    using scan_segments_all [OF assms(3) scan_ok_start] assms(5,6) by auto
  have c: "rs = compacted_records env cfg s" using compacted_eq [OF s(2) assms(5,9,10,11)] rs(1) by simp
  have "2 \<le> length ?gs" using assms(3,4) by (auto dest: list_all2_lengthD)
  from compact_partition_ok [OF assms(2) refl this s(1) c rs(2)] key(1)
  obtain data where w: "write_segment (cm_lz4 env) (cm_crc32 env) CompLz4 rs = Ok data" and b: "bucket' = delete_objects env ?gs (bucket(key \<mapsto> data))"
    and p: "cr_records_processed res = sc_processed s" "cr_keys_removed res = sc_processed s - length rs" by blast
  have k: "bucket' key = Some data" using key(2) by (auto simp: b delete_objects_eq)
  have sub: "set rs \<subseteq> set (concat rss)" "length rs \<le> length (concat rss)" unfolding rs(1) compact_spec_def by auto
  have "\<exists>rd. SegmentReader_new (cm_crc32 env) data = Ok rd \<and> read_all (cm_unlz4 env) rd = Ok (map stored_record rs)"
    using written_decodes [OF assms(1) rs(2) _ _ _ w] sub assms(7,8) len k by auto
  then show ?thesis using k p s(2) by (auto simp: scan_ok_def)
qed

theorem compaction_keeps_latest_witness:
  "\<exists>bucket' db' res. compact_partition compact_world CompactionConfig_default ''a'' ''orders'' 0 (compact_bucket, compact_db) = ((bucket', db'), Ok res)
     \<and> (\<exists>data rd. bucket' ''org-a/data/orders/0/seg_1_compacted.bin'' = Some data \<and> SegmentReader_new (\<lambda>_. 0) data = Ok rd
           \<and> read_all Ok rd = Ok [Record_new 1 5 (Some [2]) [8], Record_new 2 6 (Some [1]) [9], Record_new 3 6 None [4]])
     \<and> cr_keys_removed res = 1"
proof -
  let ?gs = "[compact_row ''k0'' 0 1, compact_row ''k2'' 2 3]" and ?key = "''org-a/data/orders/0/seg_1_compacted.bin''"
  have k: "compacted_key ''a'' ''orders'' 0 (rec_offset (hd compact_result)) = ?key" using compact_demo_key(2) by (simp add: compact_records)
  obtain s where s: "scan_segments compact_world (cc_max_records_per_run CompactionConfig_default) compact_bucket ?gs scan_start = Ok s"
    "compacted_records compact_world CompactionConfig_default s = compact_result" by (rule compact_demo_scan)
  obtain db' res where run: "compact_partition compact_world CompactionConfig_default ''a'' ''orders'' 0 (compact_bucket, compact_db)
      = ((delete_objects compact_world ?gs (compact_bucket(?key \<mapsto> object_of compact_result)), db'), Ok res)"
    using compact_demo_runs [OF _ s, unfolded k] by (auto simp: CompactionConfig_default_def)
  have gs: "eligible_segments CompactionConfig_default (cm_now compact_world) (get_segments ''a'' ''orders'' 0 compact_db) = ?gs"
    by (simp add: compact_demo_env compact_demo_segments CompactionConfig_default_def)
  have st: "map stored_record compact_result = compact_result" by (simp add: compact_records stored_record_def stored_key_def)
  let ?out = "delete_objects compact_world ?gs (compact_bucket(?key \<mapsto> object_of compact_result))"
  have len: "length (the (?out ?key)) < 2 ^ 64" using compact_written(2) [of compact_result] by (simp add: delete_objects_eq compact_row_def)
  have "(\<exists>data rd. ?out ?key = Some data \<and> SegmentReader_new (cm_crc32 compact_world) data = Ok rd \<and> read_all (cm_unlz4 compact_world) rd = Ok (map stored_record compact_result))
     \<and> cr_records_processed res = length (concat [compact_first, compact_second])
     \<and> cr_keys_removed res = length (concat [compact_first, compact_second]) - length compact_result"
    using compact_demo_reads
    by (intro compaction_keeps_latest [OF compact_demo_env(1) run _ _ _ _ _ compact_demo_small compact_demo_env(11,12) compact_demo_keys _ _ _ _ len, unfolded gs])
       (simp_all only: compact_demo_spec k, simp_all add: CompactionConfig_default_def compact_records compact_row_def)
  then show ?thesis using run unfolding st compact_demo_env by (simp add: compact_records)
qed

text \<open>
  A successful run leaves the rows of the segments it compacted: it removes the rows that end before the first of them begins, so every one of
  them is still listed, while its object is gone and reading it fails.
\<close>

theorem compaction_leaves_dangling_rows:
  assumes "compact_partition env cfg org topic n (bucket, db) = ((bucket', db'), Ok res)"
    and gs: "gs = eligible_segments cfg (cm_now env) (get_segments org topic n db)" and "2 \<le> length gs"
    and "scan_segments env (cc_max_records_per_run cfg) bucket gs scan_start = Ok s" and "compacted_records env cfg s \<noteq> []"
    and "\<forall>g \<in> set gs. sint (sm_base_offset g) \<le> sint (sm_end_offset g)" and "g \<in> set gs" and "\<not> cm_delete_fails env (sm_s3_key g)"
  shows "g \<in> set (get_segments org topic n db') \<and> bucket' (sm_s3_key g) = None \<and> read_object env' bucket' (sm_s3_key g) = Err CompactStorage"
proof -
  have "sorted (map (sint \<circ> sm_base_offset) gs)"
    by (simp add: gs eligible_segments_def get_segments_def sorted_filter)
  then have "sint (sm_base_offset (hd gs)) \<le> sint (sm_base_offset g)" using assms(7) by (cases gs) auto
  then have "sint (sm_base_offset (hd gs)) \<le> sint (sm_end_offset g)" using assms(6,7) by force
  moreover have "(org, g) \<in> set (td_segments db)" "in_partition topic n g" using assms(7) by (auto simp: gs eligible_segments_def get_segments_def)
  moreover from compact_partition_ok [OF assms(1) gs assms(3,4) refl assms(5)] obtain b row where
    "bucket' = delete_objects env gs b"
    "td_segments db' = filter (\<lambda>(o', g). \<not> (o' = org \<and> in_partition topic n g \<and> sint (sm_end_offset g) < sint (sm_base_offset (hd gs)))) (td_segments db @ [(org, row)])"
    by blast
  ultimately show ?thesis using assms(7,8) by (auto simp: delete_objects_eq read_object_def get_segments_def image_iff split: if_splits)
qed

theorem compaction_leaves_dangling_rows_witness:
  "\<exists>bucket' db' res. compact_partition compact_world CompactionConfig_default ''a'' ''orders'' 0 (compact_bucket, compact_db) = ((bucket', db'), Ok res)
     \<and> compact_row ''k2'' 2 3 \<in> set (get_segments ''a'' ''orders'' 0 db') \<and> read_object compact_world bucket' ''k2'' = Err CompactStorage"
proof -
  let ?gs = "[compact_row ''k0'' 0 1, compact_row ''k2'' 2 3]"
  obtain s where s: "scan_segments compact_world (cc_max_records_per_run CompactionConfig_default) compact_bucket ?gs scan_start = Ok s"
    "compacted_records compact_world CompactionConfig_default s = compact_result" by (rule compact_demo_scan)
  obtain bucket' db' res where run: "compact_partition compact_world CompactionConfig_default ''a'' ''orders'' 0 (compact_bucket, compact_db) = ((bucket', db'), Ok res)"
    using compact_demo_runs [OF _ s] by (auto simp: CompactionConfig_default_def)
  have gs: "?gs = eligible_segments CompactionConfig_default (cm_now compact_world) (get_segments ''a'' ''orders'' 0 compact_db)"
    by (simp add: compact_demo_env compact_demo_segments CompactionConfig_default_def)
  have "compact_row ''k2'' 2 3 \<in> set (get_segments ''a'' ''orders'' 0 db') \<and> bucket' (sm_s3_key (compact_row ''k2'' 2 3)) = None
      \<and> read_object compact_world bucket' (sm_s3_key (compact_row ''k2'' 2 3)) = Err CompactStorage"
    by (rule compaction_leaves_dangling_rows [OF run gs _ s(1)]) (simp_all add: s(2) compact_demo_env compact_result_def compact_row_def)
  then show ?thesis using run by (auto simp: compact_row_def)
qed

text \<open>
  The limit of a run loses records: when the first eligible segment alone reaches it, the scan stops there, and the object written has records of
  that segment only, but the objects of all the eligible segments are deleted.
\<close>

theorem run_limit_loses_records:
  assumes "lz4_contract (cm_lz4 env) (cm_unlz4 env)"
    and "compact_partition env cfg org topic n (bucket, db) = ((bucket', db'), Ok res)"
    and gs: "eligible_segments cfg (cm_now env) (get_segments org topic n db) = g # gs" "gs \<noteq> []" and "read_object env bucket (sm_s3_key g) = Ok qs"
    and "sorted_wrt (<) (map rec_offset qs)" and "0 < cc_max_records_per_run cfg" and "cc_max_records_per_run cfg \<le> length qs"
    and "length qs < 2 ^ 32" and "\<And>r. r \<in> set qs \<Longrightarrow> record_small r"
    and "distinct (cm_key_order env)" and "distinct (cm_tombstone_order env)"
    and "\<And>r key. r \<in> set qs \<Longrightarrow> rec_key r = Some key \<Longrightarrow> key \<in> set (cm_key_order env) \<and> key \<in> set (cm_tombstone_order env)"
    and rs: "rs = compact_spec cfg (cm_now env) qs" "rs \<noteq> []"
    and key: "key = compacted_key org topic n (rec_offset (hd rs))" "key \<notin> sm_s3_key ` set (g # gs)"
    and len: "length (the (bucket' key)) < 2 ^ 64" and "\<And>h. h \<in> set gs \<Longrightarrow> \<not> cm_delete_fails env (sm_s3_key h)"
  shows "(\<exists>data rd. bucket' key = Some data \<and> SegmentReader_new (cm_crc32 env) data = Ok rd \<and> read_all (cm_unlz4 env) rd = Ok (map stored_record rs))
     \<and> (\<forall>h \<in> set gs. bucket' (sm_s3_key h) = None) \<and> cr_segments_compacted res = length (g # gs)"
proof -
  obtain s where s: "scan_segments env (cc_max_records_per_run cfg) bucket (g # gs) scan_start = Ok s" "scan_ok qs s"
    using scan_segments_first [OF assms(5-8)] by blast
  have c: "rs = compacted_records env cfg s" using compacted_eq [OF s(2) assms(6,11,12,13)] rs(1) by simp
  have "2 \<le> length (g # gs)" using gs(2) by (cases gs) auto
  from compact_partition_ok [OF assms(2) gs(1) [symmetric] this s(1) c rs(2)] key(1)
  obtain data where w: "write_segment (cm_lz4 env) (cm_crc32 env) CompLz4 rs = Ok data" and b: "bucket' = delete_objects env (g # gs) (bucket(key \<mapsto> data))"
    and p: "cr_segments_compacted res = length (g # gs)" by blast
  have k: "bucket' key = Some data" using key(2) by (auto simp: b delete_objects_eq)
  have sub: "set rs \<subseteq> set qs" "length rs \<le> length qs" unfolding rs(1) compact_spec_def by auto
  have "\<exists>rd. SegmentReader_new (cm_crc32 env) data = Ok rd \<and> read_all (cm_unlz4 env) rd = Ok (map stored_record rs)"
    using written_decodes [OF assms(1) rs(2) _ _ _ w] sub assms(9,10) len k by auto
  moreover have "bucket' (sm_s3_key h) = None" if "h \<in> set gs" for h using that assms(19) by (auto simp: b delete_objects_eq)
  ultimately show ?thesis using k p by blast
qed

theorem run_limit_loses_records_witness:
  "\<exists>bucket' db' res. compact_partition compact_world (CompactionConfig_default\<lparr>cc_max_records_per_run := 2\<rparr>) ''a'' ''orders'' 0 (compact_bucket, compact_db)
       = ((bucket', db'), Ok res)
     \<and> (\<exists>data rd. bucket' ''org-a/data/orders/0/seg_0_compacted.bin'' = Some data \<and> SegmentReader_new (\<lambda>_. 0) data = Ok rd
           \<and> read_all Ok rd = Ok [Record_new 0 5 (Some [1]) [7], Record_new 1 5 (Some [2]) [8]]) \<and> bucket' ''k2'' = None"
proof -
  let ?cfg = "CompactionConfig_default\<lparr>cc_max_records_per_run := 2\<rparr>"
  let ?gs = "[compact_row ''k0'' 0 1, compact_row ''k2'' 2 3]" and ?key = "''org-a/data/orders/0/seg_0_compacted.bin''"
  have srt: "sorted_wrt (<) (map rec_offset compact_first)" by (simp add: compact_records)
  obtain s where s: "scan_segments compact_world (cc_max_records_per_run ?cfg) compact_bucket ?gs scan_start = Ok s" "scan_ok compact_first s"
    using scan_segments_first [OF compact_demo_reads(1) srt, of "cc_max_records_per_run ?cfg" "[compact_row ''k2'' 2 3]"] by (auto simp: compact_records)
  have keys: "r \<in> set compact_first \<Longrightarrow> rec_key r = Some key \<Longrightarrow> key \<in> set (cm_key_order compact_world) \<and> key \<in> set (cm_tombstone_order compact_world)" for r key
    by (rule compact_demo_keys) simp_all
  have c: "compacted_records compact_world ?cfg s = compact_first"
    using compacted_eq [OF s(2) srt compact_demo_env(11,12) keys] compact_demo_spec(2) by simp
  have k: "compacted_key ''a'' ''orders'' 0 (rec_offset (hd compact_first)) = ?key" using compact_demo_key(1) by (simp add: compact_records)
  obtain db' res where run: "compact_partition compact_world ?cfg ''a'' ''orders'' 0 (compact_bucket, compact_db)
      = ((delete_objects compact_world ?gs (compact_bucket(?key \<mapsto> object_of compact_first)), db'), Ok res)"
    using compact_demo_runs [OF _ s(1) c, unfolded k] by (auto simp: CompactionConfig_default_def)
  have gs: "eligible_segments ?cfg (cm_now compact_world) (get_segments ''a'' ''orders'' 0 compact_db) = ?gs"
    by (simp add: compact_demo_env compact_demo_segments CompactionConfig_default_def)
  have st: "map stored_record compact_first = compact_first" by (simp add: compact_records stored_record_def stored_key_def)
  let ?out = "delete_objects compact_world ?gs (compact_bucket(?key \<mapsto> object_of compact_first))"
  have len: "length (the (?out ?key)) < 2 ^ 64" using compact_written(2) [of compact_first] by (simp add: delete_objects_eq compact_row_def)
  have small: "r \<in> set compact_first \<Longrightarrow> record_small r" for r by (rule compact_demo_small) simp
  have "(\<exists>data rd. ?out ?key = Some data \<and> SegmentReader_new (cm_crc32 compact_world) data = Ok rd \<and> read_all (cm_unlz4 compact_world) rd = Ok (map stored_record compact_first))
     \<and> (\<forall>h \<in> set [compact_row ''k2'' 2 3]. ?out (sm_s3_key h) = None) \<and> cr_segments_compacted res = length ?gs"
    by (rule run_limit_loses_records [OF compact_demo_env(1) run gs _ compact_demo_reads(1) srt _ _ _ small compact_demo_env(11,12) keys _ _ _ _ len])
       (simp_all only: compact_demo_spec k, simp_all add: compact_demo_env compact_records compact_row_def)
  then show ?thesis using run unfolding st compact_demo_env by (simp add: compact_records compact_row_def)
qed

end
