(* ===== verification/Kafka_Offset_Handlers.thy ===== *)
theory Kafka_Offset_Handlers
  imports Kafka_Handlers Topic_Store Segment_Cache Segment_Reader
begin

text \<open>
  Request handlers of the Kafka server that work on offsets: \<^verbatim>\<open>ListOffsets\<close>, \<^verbatim>\<open>OffsetCommit\<close> and \<^verbatim>\<open>OffsetFetch\<close> of
  \<^verbatim>\<open>streamhouse-kafka/src/handlers/offsets.rs\<close>, with \<^verbatim>\<open>txn_offset_commit.rs\<close> and \<^verbatim>\<open>add_offsets_to_txn.rs\<close>, from the bytes of a request to the bytes of the
  response. They run over the topic tables, the producer tables and the segment cache; the object store, the clock and the failure of each
  statement are arguments, numbered in the order of the partitions of the request.
\<close>

section \<open>Fields of both protocols\<close>

text \<open>From some version of a request on, strings, arrays and their counts are compact and structures end with tagged fields.\<close>

definition parse_str :: "bool \<Rightarrow> bytes \<Rightarrow> (KafkaError, bytes \<times> bytes) result" where
  "parse_str compact = (if compact then parse_compact_string else parse_string)"

definition parse_nullable_str :: "bool \<Rightarrow> bytes \<Rightarrow> (KafkaError, bytes option \<times> bytes) result" where
  "parse_nullable_str compact = (if compact then parse_compact_nullable_string else parse_nullable_string)"

definition parse_items :: "bool \<Rightarrow> nat \<Rightarrow> (bytes \<Rightarrow> (KafkaError, 'a \<times> bytes) result) \<Rightarrow> bytes \<Rightarrow> (KafkaError, 'a list \<times> bytes) result" where
  "parse_items compact = (if compact then parse_compact_array else parse_array)"

definition parse_tags :: "bool \<Rightarrow> bytes \<Rightarrow> (KafkaError, unit \<times> bytes) result" where
  "parse_tags compact buf = (if compact then skip_tagged_fields buf else Ok ((), buf))"

definition parse_if :: "bool \<Rightarrow> (bytes \<Rightarrow> (KafkaError, 'a \<times> bytes) result) \<Rightarrow> 'a \<Rightarrow> bytes \<Rightarrow> (KafkaError, 'a \<times> bytes) result" where
  "parse_if b parse absent buf = (if b then parse buf else Ok (absent, buf))"

definition put_str :: "bool \<Rightarrow> bytes \<Rightarrow> bytes" where
  "put_str compact = (if compact then encode_compact_string else encode_string)"

definition put_nullable_str :: "bool \<Rightarrow> bytes option \<Rightarrow> bytes" where
  "put_nullable_str compact = (if compact then encode_compact_nullable_string else encode_nullable_string)"

definition put_items :: "bool \<Rightarrow> ('a \<Rightarrow> bytes) \<Rightarrow> 'a list \<Rightarrow> bytes" where
  "put_items compact put xs = (if compact then encode_unsigned_varint (of_nat (length xs + 1)) else put_i32 (of_nat (length xs))) @ concat (map put xs)"

definition put_tags :: "bool \<Rightarrow> bytes" where
  "put_tags compact = (if compact then encode_empty_tagged_fields else [])"

definition put_if :: "bool \<Rightarrow> bytes \<Rightarrow> bytes" where
  "put_if b bs = (if b then bs else [])"

text \<open>A topic of a request is its name and its partitions, and so is a topic of a response; a pair of 48 bytes in memory.\<close>

definition parse_topic :: "bool \<Rightarrow> nat \<Rightarrow> (bytes \<Rightarrow> (KafkaError, 'a \<times> bytes) result) \<Rightarrow> bytes \<Rightarrow> (KafkaError, (bytes \<times> 'a list) \<times> bytes) result" where
  "parse_topic compact sz parse_partition buf =
     rbind (parse_str compact buf) (\<lambda>(name, buf).
     rbind (parse_items compact sz parse_partition buf) (\<lambda>(partitions, buf).
     rbind (parse_tags compact buf) (\<lambda>(_, buf). Ok ((name, partitions), buf))))"

definition put_topics :: "bool \<Rightarrow> ('a \<Rightarrow> bytes) \<Rightarrow> (bytes \<times> 'a list) list \<Rightarrow> bytes" where
  "put_topics compact put_partition =
     put_items compact (\<lambda>(name, partitions). put_str compact name @ put_items compact put_partition partitions @ put_tags compact)"

section \<open>The loop over topics and partitions\<close>

fun for_partitions ::
  "(nat \<Rightarrow> 'a \<Rightarrow> 's \<Rightarrow> 's \<times> (KafkaError, 'b) result) \<Rightarrow> nat \<Rightarrow> 'a list \<Rightarrow> 's \<Rightarrow> 's \<times> (KafkaError, 'b list) result" where
  "for_partitions f i [] s = (s, Ok [])"
| "for_partitions f i (p # ps) s =
     (case f i p s of
        (s1, Ok r) \<Rightarrow> (let (s2, rest) = for_partitions f (Suc i) ps s1 in (s2, rbind rest (\<lambda>rs. Ok (r # rs))))
      | (s1, Err e) \<Rightarrow> (s1, Err e)
      | (s1, Panic) \<Rightarrow> (s1, Panic))"

fun for_topics ::
  "(bytes \<Rightarrow> nat \<Rightarrow> 'a \<Rightarrow> 's \<Rightarrow> 's \<times> (KafkaError, 'b) result) \<Rightarrow> nat \<Rightarrow> (bytes \<times> 'a list) list \<Rightarrow> 's
     \<Rightarrow> 's \<times> (KafkaError, (bytes \<times> 'b list) list) result" where
  "for_topics f i [] s = (s, Ok [])"
| "for_topics f i ((name, ps) # ts) s =
     (case for_partitions (f name) i ps s of
        (s1, Ok rs) \<Rightarrow> (let (s2, rest) = for_topics f (i + length ps) ts s1 in (s2, rbind rest (\<lambda>trs. Ok ((name, rs) # trs))))
      | (s1, Err e) \<Rightarrow> (s1, Err e)
      | (s1, Panic) \<Rightarrow> (s1, Panic))"

section \<open>ListOffsets\<close>

record ListOffsetsPartitionResponse =
  lo_partition_index :: i32
  lo_error_code :: ErrorCode
  lo_timestamp :: i64
  lo_offset :: i64
  lo_leader_epoch :: i32

record list_offsets_env =
  le_topic_fails :: bool
  le_partition_fails :: bool
  le_lso_fails :: bool
  le_segments_fail :: bool
  le_faults :: "string \<Rightarrow> cache_faults"
  le_object :: "string \<Rightarrow> bytes option"
  le_unlz4 :: "bytes \<Rightarrow> (string, bytes) result"
  le_crc32 :: "bytes \<Rightarrow> u32"
  le_now :: i64

definition timestamp_cache_key :: "string \<Rightarrow> u32 \<Rightarrow> SegmentMeta \<Rightarrow> string" where
  "timestamp_cache_key topic partition_id g = topic @ ''/'' @ show_nat (unat partition_id) @ ''/'' @ sm_id g"

text \<open>The content of a segment, from the cache or the object store; an error of the cache counts as a miss.\<close>

definition load_segment ::
  "'l LruOps \<Rightarrow> list_offsets_env \<Rightarrow> string \<Rightarrow> string \<Rightarrow> 'l SegmentCache \<Rightarrow> 'l SegmentCache \<times> (unit, bytes) result" where
  "load_segment lru env cache_key s3_key c =
     (case cache_get lru (cf_read_fails (le_faults env cache_key)) cache_key c of
        (c1, Ok (Some cached)) \<Rightarrow> (c1, Ok cached)
      | (c1, _) \<Rightarrow>
          (case le_object env s3_key of
             None \<Rightarrow> (c1, Err ())
           | Some data \<Rightarrow> (fst (cache_put lru (le_faults env cache_key) cache_key data c1), Ok data)))"

fun scan_timestamps ::
  "'l LruOps \<Rightarrow> list_offsets_env \<Rightarrow> string \<Rightarrow> u32 \<Rightarrow> u64 \<Rightarrow> SegmentMeta list \<Rightarrow> 'l SegmentCache \<Rightarrow> 'l SegmentCache \<times> (unit, u64 option) result" where
  "scan_timestamps lru env topic partition_id target [] c = (c, Ok None)"
| "scan_timestamps lru env topic partition_id target (g # gs) c =
     (if sm_max_timestamp g < target then scan_timestamps lru env topic partition_id target gs c
      else case load_segment lru env (timestamp_cache_key topic partition_id g) (sm_s3_key g) c of
        (c1, Err e) \<Rightarrow> (c1, Err e)
      | (c1, Panic) \<Rightarrow> (c1, Panic)
      | (c1, Ok data) \<Rightarrow>
          (case rbind (SegmentReader_new (le_crc32 env) data) (read_all (le_unlz4 env)) of
             Err _ \<Rightarrow> (c1, Err ())
           | Panic \<Rightarrow> (c1, Panic)
           | Ok records \<Rightarrow>
               (case find (\<lambda>r. rec_timestamp r \<ge> target) records of
                  Some r \<Rightarrow> (c1, Ok (Some (rec_offset r)))
                | None \<Rightarrow> scan_timestamps lru env topic partition_id target gs c1)))"

definition find_offset_by_timestamp ::
  "'l LruOps \<Rightarrow> list_offsets_env \<Rightarrow> string \<Rightarrow> string \<Rightarrow> u32 \<Rightarrow> u64 \<Rightarrow> topic_db \<Rightarrow> 'l SegmentCache \<Rightarrow> 'l SegmentCache \<times> (unit, u64 option) result" where
  "find_offset_by_timestamp lru env org_id topic partition_id target_timestamp db c =
     (if le_segments_fail env then (c, Err ())
      else scan_timestamps lru env topic partition_id target_timestamp (get_segments org_id topic partition_id db) c)"

definition list_offsets_failed :: "u32 \<Rightarrow> ErrorCode \<Rightarrow> ListOffsetsPartitionResponse" where
  "list_offsets_failed partition_id code =
     \<lparr>lo_partition_index = partition_id, lo_error_code = code, lo_timestamp = - 1, lo_offset = - 1, lo_leader_epoch = - 1\<rparr>"

definition get_partition_offset ::
  "'l LruOps \<Rightarrow> list_offsets_env \<Rightarrow> string \<Rightarrow> bytes \<Rightarrow> u32 \<Rightarrow> i64 \<Rightarrow> 8 word \<Rightarrow> topic_db \<Rightarrow> producer_db \<Rightarrow> 'l SegmentCache
     \<Rightarrow> 'l SegmentCache \<times> (KafkaError, ListOffsetsPartitionResponse) result" where
  "get_partition_offset lru env org_id topic_name partition_id timestamp isolation_level db pdb c =
     (let topic = string_of_bytes topic_name;
          found = (\<lambda>offset. \<lparr>lo_partition_index = partition_id, lo_error_code = EC_None, lo_timestamp = le_now env, lo_offset = offset, lo_leader_epoch = 0\<rparr>)
      in if le_topic_fails env \<or> get_topic_for_org org_id topic db = None then (c, Ok (list_offsets_failed partition_id EC_UnknownTopicOrPartition))
      else if le_partition_fails env then (c, Ok (list_offsets_failed partition_id EC_UnknownServerError))
      else case get_partition org_id topic partition_id db of
        None \<Rightarrow> (c, Ok (list_offsets_failed partition_id EC_UnknownTopicOrPartition))
      | Some p \<Rightarrow>
          if timestamp = - 1
          then (c, Ok (found (if isolation_level = 1 \<and> \<not> le_lso_fails env then of_nat (get_last_stable_offset topic partition_id pdb) else pt_high_watermark p)))
          else if timestamp = - 2 then (c, Ok (found 0))
          else case find_offset_by_timestamp lru env org_id topic partition_id timestamp db c of
            (c1, Ok (Some offset)) \<Rightarrow> (c1, Ok (found offset))
          | (c1, Panic) \<Rightarrow> (c1, Panic)
          | (c1, _) \<Rightarrow> (c1, Ok (found (pt_high_watermark p))))"

definition parse_list_offsets_partition :: "i16 \<Rightarrow> bytes \<Rightarrow> (KafkaError, (i32 \<times> i64) \<times> bytes) result" where
  "parse_list_offsets_partition api_version buf =
     rbind (get_i32 buf) (\<lambda>(partition_index, buf).
     rbind (skip_i32_if (sint api_version \<ge> 4) buf) (\<lambda>(_, buf).
     rbind (get_i64 buf) (\<lambda>(timestamp, buf).
     rbind (parse_tags (sint api_version \<ge> 6) buf) (\<lambda>(_, buf). Ok ((partition_index, timestamp), buf)))))"

definition parse_list_offsets_request :: "i16 \<Rightarrow> bytes \<Rightarrow> (KafkaError, (8 word \<times> (bytes \<times> (i32 \<times> i64) list) list) \<times> bytes) result" where
  "parse_list_offsets_request api_version body =
     (let compact = (sint api_version \<ge> 6) in
      rbind (get_i32 body) (\<lambda>(_, buf).
      rbind (parse_if (sint api_version \<ge> 2) get_i8 0 buf) (\<lambda>(isolation_level, buf).
      rbind (parse_items compact 48 (parse_topic compact 16 (parse_list_offsets_partition api_version)) buf) (\<lambda>(topics, buf).
        Ok ((isolation_level, topics), buf)))))"

definition put_list_offsets_partition :: "i16 \<Rightarrow> ListOffsetsPartitionResponse \<Rightarrow> bytes" where
  "put_list_offsets_partition api_version p =
     put_i32 (lo_partition_index p) @ put_i16 (ErrorCode_as_i16 (lo_error_code p))
     @ (if sint api_version = 0 then put_i32 1 @ put_i64 (lo_offset p)
        else put_i64 (lo_timestamp p) @ put_i64 (lo_offset p) @ put_if (sint api_version \<ge> 4) (put_i32 (lo_leader_epoch p)))
     @ put_tags (sint api_version \<ge> 6)"

definition build_list_offsets_response :: "i16 \<Rightarrow> (bytes \<times> ListOffsetsPartitionResponse list) list \<Rightarrow> bytes" where
  "build_list_offsets_response api_version topics =
     (let compact = (sint api_version \<ge> 6) in
      put_if (sint api_version \<ge> 2) (put_i32 0) @ put_topics compact (put_list_offsets_partition api_version) topics @ put_tags compact)"

definition handle_list_offsets ::
  "'l LruOps \<Rightarrow> (nat \<Rightarrow> list_offsets_env) \<Rightarrow> string \<Rightarrow> i16 \<Rightarrow> bytes \<Rightarrow> topic_db \<Rightarrow> producer_db \<Rightarrow> 'l SegmentCache
     \<Rightarrow> 'l SegmentCache \<times> (KafkaError, bytes) result" where
  "handle_list_offsets lru env org_id api_version body db pdb c =
     (case parse_list_offsets_request api_version body of
        Err e \<Rightarrow> (c, Err e)
      | Panic \<Rightarrow> (c, Panic)
      | Ok ((isolation_level, topics), _) \<Rightarrow>
          (let (c', responses) = for_topics (\<lambda>name i (index, timestamp). get_partition_offset lru (env i) org_id name index timestamp isolation_level db pdb) 0 topics c
           in (c', rbind responses (\<lambda>rs. Ok (build_list_offsets_response api_version rs)))))"

section \<open>OffsetCommit\<close>

type_synonym commit_topics = "(bytes \<times> (i32 \<times> i64 \<times> bytes option) list) list"

definition parse_commit_partition :: "i16 \<Rightarrow> bytes \<Rightarrow> (KafkaError, (i32 \<times> i64 \<times> bytes option) \<times> bytes) result" where
  "parse_commit_partition api_version buf =
     (let compact = (sint api_version \<ge> 8) in
      rbind (get_i32 buf) (\<lambda>(partition_index, buf).
      rbind (get_i64 buf) (\<lambda>(committed_offset, buf).
      rbind (skip_i32_if (sint api_version \<ge> 6) buf) (\<lambda>(_, buf).
      rbind (skip_i64_if (sint api_version = 1) buf) (\<lambda>(_, buf).
      rbind (parse_nullable_str compact buf) (\<lambda>(metadata, buf).
      rbind (parse_tags compact buf) (\<lambda>(_, buf). Ok ((partition_index, committed_offset, metadata), buf))))))))"

text \<open>The group, the generation, the member and the topics; an element of the partition array is 40 bytes.\<close>

definition parse_commit_request :: "i16 \<Rightarrow> bytes \<Rightarrow> (KafkaError, (bytes \<times> i32 \<times> bytes \<times> commit_topics) \<times> bytes) result" where
  "parse_commit_request api_version body =
     (let v = sint api_version; compact = (v \<ge> 8) in
      rbind (parse_str compact body) (\<lambda>(group_id, buf).
      rbind (parse_if (v \<ge> 1) get_i32 (- 1) buf) (\<lambda>(generation_id, buf).
      rbind (parse_if (v \<ge> 1) (parse_str compact) [] buf) (\<lambda>(member_id, buf).
      rbind (skip_i64_if (v \<ge> 2 \<and> v \<le> 4) buf) (\<lambda>(_, buf).
      rbind (parse_if (v \<ge> 7) (parse_nullable_str compact) None buf) (\<lambda>(_, buf).
      rbind (parse_items compact 48 (parse_topic compact 40 (parse_commit_partition api_version)) buf) (\<lambda>(topics, buf).
      rbind (parse_tags compact buf) (\<lambda>(_, buf). Ok ((group_id, generation_id, member_id, topics), buf)))))))))"

text \<open>\<open>fails i\<close> says whether the statement for the group and the one for the offset fail, for partition number \<open>i\<close> of the request.\<close>

definition commit_partition ::
  "(nat \<Rightarrow> bool \<times> bool) \<Rightarrow> string \<Rightarrow> bytes \<Rightarrow> bytes \<Rightarrow> nat \<Rightarrow> i32 \<times> i64 \<times> bytes option \<Rightarrow> topic_db \<Rightarrow> topic_db \<times> (KafkaError, i32 \<times> ErrorCode) result" where
  "commit_partition fails org_id group_id topic i = (\<lambda>(index, offset, metadata) db.
     let (db', r) = commit_offset_for_org (fst (fails i)) (snd (fails i)) org_id (string_of_bytes group_id) (string_of_bytes topic) index offset
           (map_option string_of_bytes metadata) db
     in (db', Ok (index, case r of Ok _ \<Rightarrow> EC_None | _ \<Rightarrow> EC_UnknownServerError)))"

definition put_partition_error :: "bool \<Rightarrow> i32 \<times> ErrorCode \<Rightarrow> bytes" where
  "put_partition_error compact = (\<lambda>(index, code). put_i32 index @ put_i16 (ErrorCode_as_i16 code) @ put_tags compact)"

definition build_commit_response :: "i16 \<Rightarrow> (bytes \<times> (i32 \<times> ErrorCode) list) list \<Rightarrow> bytes" where
  "build_commit_response api_version topics =
     (let compact = (sint api_version \<ge> 8) in
      put_if (sint api_version \<ge> 3) (put_i32 0) @ put_topics compact (put_partition_error compact) topics @ put_tags compact)"

definition handle_offset_commit ::
  "(nat \<Rightarrow> bool \<times> bool) \<Rightarrow> string \<Rightarrow> i16 \<Rightarrow> bytes \<Rightarrow> topic_db \<Rightarrow> topic_db \<times> (KafkaError, bytes) result" where
  "handle_offset_commit fails org_id api_version body db =
     (case parse_commit_request api_version body of
        Err e \<Rightarrow> (db, Err e)
      | Panic \<Rightarrow> (db, Panic)
      | Ok ((group_id, _, _, topics), _) \<Rightarrow>
          (let (db', responses) = for_topics (commit_partition fails org_id group_id) 0 topics db
           in (db', rbind responses (\<lambda>rs. Ok (build_commit_response api_version rs)))))"

section \<open>OffsetFetch\<close>

definition parse_fetch_offset_partition :: "bool \<Rightarrow> bytes \<Rightarrow> (KafkaError, i32 \<times> bytes) result" where
  "parse_fetch_offset_partition compact buf = rbind (get_i32 buf) (\<lambda>(index, buf). rbind (parse_tags compact buf) (\<lambda>(_, buf). Ok (index, buf)))"

definition parse_fetch_offset_topics :: "bool \<Rightarrow> bytes \<Rightarrow> (KafkaError, (bytes \<times> i32 list) list \<times> bytes) result" where
  "parse_fetch_offset_topics compact = parse_items compact 48 (parse_topic compact 4 (parse_fetch_offset_partition compact))"

definition parse_fetch_offset_group :: "bytes \<Rightarrow> (KafkaError, (bytes \<times> (bytes \<times> i32 list) list) \<times> bytes) result" where
  "parse_fetch_offset_group buf =
     rbind (parse_compact_string buf) (\<lambda>(group_id, buf).
     rbind (parse_fetch_offset_topics True buf) (\<lambda>(topics, buf).
     rbind (skip_tagged_fields buf) (\<lambda>(_, buf). Ok ((group_id, topics), buf))))"

text \<open>Of the groups of a version 8 request the first is taken; a null array of topics, from version 2 on, is read as an empty one.\<close>

definition parse_fetch_offset_request :: "i16 \<Rightarrow> bytes \<Rightarrow> (KafkaError, (bytes \<times> (bytes \<times> i32 list) list) \<times> bytes) result" where
  "parse_fetch_offset_request api_version body =
     (let v = sint api_version in
      if v \<ge> 8 then
        rbind (parse_compact_array 48 parse_fetch_offset_group body) (\<lambda>(groups, buf).
        rbind (get_i8 buf) (\<lambda>(_, buf).
        rbind (skip_tagged_fields buf) (\<lambda>(_, buf). Ok (case groups of [] \<Rightarrow> ([], []) | g # _ \<Rightarrow> g, buf))))
      else if v \<ge> 6 then
        rbind (parse_compact_string body) (\<lambda>(group_id, buf).
        rbind (parse_fetch_offset_topics True buf) (\<lambda>(topics, buf).
        rbind (parse_if (v \<ge> 7) get_i8 0 buf) (\<lambda>(_, buf).
        rbind (skip_tagged_fields buf) (\<lambda>(_, buf). Ok ((group_id, topics), buf)))))
      else
        rbind (parse_string body) (\<lambda>(group_id, buf).
        if v \<ge> 2 \<and> \<not> (length buf \<ge> 4 \<and> sint (be_val (take 4 buf) :: i32) \<ge> 0)
        then rbind (get_i32 buf) (\<lambda>(_, buf). Ok ((group_id, []), buf))
        else rbind (parse_fetch_offset_topics False buf) (\<lambda>(topics, buf). Ok ((group_id, topics), buf))))"

definition fetch_offset :: "bool \<Rightarrow> string \<Rightarrow> bytes \<Rightarrow> bytes \<Rightarrow> u32 \<Rightarrow> topic_db \<Rightarrow> i64 \<times> bytes option \<times> ErrorCode" where
  "fetch_offset fails org_id group_id topic partition_id db =
     (if fails then (- 1, None, EC_UnknownServerError)
      else case get_committed_offset_for_org org_id (string_of_bytes group_id) (string_of_bytes topic) partition_id db of
        Some offset \<Rightarrow> (offset, None, EC_None)
      | None \<Rightarrow> (- 1, None, EC_None))"

definition fetch_offset_partition ::
  "(nat \<Rightarrow> bool) \<Rightarrow> string \<Rightarrow> bytes \<Rightarrow> topic_db \<Rightarrow> bytes \<Rightarrow> nat \<Rightarrow> i32 \<Rightarrow> unit \<Rightarrow> unit \<times> (KafkaError, i32 \<times> i64 \<times> bytes option \<times> ErrorCode) result" where
  "fetch_offset_partition fails org_id group_id db topic i index s = (s, Ok (index, fetch_offset (fails i) org_id group_id topic index db))"

definition put_fetch_offset_partition :: "i16 \<Rightarrow> i32 \<times> i64 \<times> bytes option \<times> ErrorCode \<Rightarrow> bytes" where
  "put_fetch_offset_partition api_version = (\<lambda>(index, offset, metadata, code).
     let compact = (sint api_version \<ge> 6) in
     put_i32 index @ put_i64 offset @ put_if (sint api_version \<ge> 5) (put_i32 (- 1)) @ put_nullable_str compact metadata
     @ put_i16 (ErrorCode_as_i16 code) @ put_tags compact)"

definition build_fetch_offset_response :: "i16 \<Rightarrow> bytes \<Rightarrow> (bytes \<times> (i32 \<times> i64 \<times> bytes option \<times> ErrorCode) list) list \<Rightarrow> bytes" where
  "build_fetch_offset_response api_version group_id topics =
     (let v = sint api_version; compact = (v \<ge> 6); ts = put_topics compact (put_fetch_offset_partition api_version) topics in
      if v \<ge> 8 then
        put_i32 0 @ encode_unsigned_varint 2 @ encode_compact_string group_id @ ts @ put_i16 (ErrorCode_as_i16 EC_None)
        @ encode_empty_tagged_fields @ encode_empty_tagged_fields
      else if v \<ge> 6 then put_i32 0 @ ts @ put_i16 (ErrorCode_as_i16 EC_None) @ encode_empty_tagged_fields
      else put_if (v \<ge> 3) (put_i32 0) @ ts @ put_if (v \<ge> 2) (put_i16 (ErrorCode_as_i16 EC_None)))"

definition handle_offset_fetch :: "(nat \<Rightarrow> bool) \<Rightarrow> string \<Rightarrow> i16 \<Rightarrow> bytes \<Rightarrow> topic_db \<Rightarrow> (KafkaError, bytes) result" where
  "handle_offset_fetch fails org_id api_version body db =
     rbind (parse_fetch_offset_request api_version body) (\<lambda>((group_id, topics), _).
     rbind (snd (for_topics (fetch_offset_partition fails org_id group_id db) 0 topics ())) (\<lambda>rs.
       Ok (build_fetch_offset_response api_version group_id rs)))"

section \<open>Offsets in transactions\<close>

definition parse_txn_commit_partition :: "i16 \<Rightarrow> bytes \<Rightarrow> (KafkaError, (i32 \<times> i64 \<times> bytes option) \<times> bytes) result" where
  "parse_txn_commit_partition api_version buf =
     (let compact = (sint api_version \<ge> 3) in
      rbind (get_i32 buf) (\<lambda>(partition_index, buf).
      rbind (get_i64 buf) (\<lambda>(committed_offset, buf).
      rbind (skip_i32_if (sint api_version \<ge> 2) buf) (\<lambda>(_, buf).
      rbind (parse_nullable_str compact buf) (\<lambda>(metadata, buf).
      rbind (parse_tags compact buf) (\<lambda>(_, buf). Ok ((partition_index, committed_offset, metadata), buf)))))))"

definition parse_txn_commit_request :: "i16 \<Rightarrow> bytes \<Rightarrow> (KafkaError, (bytes \<times> bytes \<times> commit_topics) \<times> bytes) result" where
  "parse_txn_commit_request api_version body =
     (let compact = (sint api_version \<ge> 3) in
      rbind (parse_str compact body) (\<lambda>(txn_id, buf).
      rbind (parse_str compact buf) (\<lambda>(group_id, buf).
      rbind (get_i64 buf) (\<lambda>(_, buf).
      rbind (get_i16 buf) (\<lambda>(_, buf).
      rbind (parse_items compact 48 (parse_topic compact 40 (parse_txn_commit_partition api_version)) buf) (\<lambda>(topics, buf).
      rbind (parse_tags compact buf) (\<lambda>(_, buf). Ok ((txn_id, group_id, topics), buf))))))))"

definition build_txn_commit_response :: "i16 \<Rightarrow> (bytes \<times> (i32 \<times> ErrorCode) list) list \<Rightarrow> bytes" where
  "build_txn_commit_response api_version topics =
     (let compact = (sint api_version \<ge> 3) in put_i32 0 @ put_topics compact (put_partition_error compact) topics @ put_tags compact)"

text \<open>The transaction is read and not used.\<close>

definition handle_txn_offset_commit ::
  "(nat \<Rightarrow> bool \<times> bool) \<Rightarrow> string \<Rightarrow> i16 \<Rightarrow> bytes \<Rightarrow> topic_db \<Rightarrow> topic_db \<times> (KafkaError, bytes) result" where
  "handle_txn_offset_commit fails org_id api_version body db =
     (case parse_txn_commit_request api_version body of
        Err e \<Rightarrow> (db, Err e)
      | Panic \<Rightarrow> (db, Panic)
      | Ok ((_, group_id, topics), _) \<Rightarrow>
          (let (db', responses) = for_topics (commit_partition fails org_id group_id) 0 topics db
           in (db', rbind responses (\<lambda>rs. Ok (build_txn_commit_response api_version rs)))))"

definition simple_group_partition :: "bytes \<Rightarrow> u32" where
  "simple_group_partition group_id = fold (\<lambda>b hash. hash * 31 + ucast b) group_id 0 mod 50"

definition add_offsets_to_txn :: "txn_env \<Rightarrow> string \<Rightarrow> bytes \<Rightarrow> bytes \<Rightarrow> producer_db \<Rightarrow> producer_db \<times> ErrorCode" where
  "add_offsets_to_txn env org_id transactional_id group_id db =
     (case active_transaction env org_id transactional_id db of
        (db1, Err code) \<Rightarrow> (db1, code)
      | (db1, Panic) \<Rightarrow> (db1, EC_UnknownServerError)
      | (db1, Ok t) \<Rightarrow>
          (let (db2, r) = add_transaction_partition_for_org (xe_add_query_fails env 0) (xe_add_fails env 0) org_id (t_transaction_id t)
                 ''__consumer_offsets'' (simple_group_partition group_id) 0 db1
           in (db2, case r of Ok _ \<Rightarrow> EC_None | _ \<Rightarrow> EC_UnknownServerError)))"

definition handle_add_offsets_to_txn :: "txn_env \<Rightarrow> string \<Rightarrow> i16 \<Rightarrow> bytes \<Rightarrow> producer_db \<Rightarrow> producer_db \<times> (KafkaError, bytes) result" where
  "handle_add_offsets_to_txn env org_id api_version body db =
     (let compact = (sint api_version \<ge> 3) in
      case rbind (parse_str compact body) (\<lambda>(txn_id, buf). rbind (get_i64 buf) (\<lambda>(_, buf). rbind (get_i16 buf) (\<lambda>(_, buf).
           rbind (parse_str compact buf) (\<lambda>(group_id, buf). rbind (parse_tags compact buf) (\<lambda>_. Ok (txn_id, group_id)))))) of
        Err e \<Rightarrow> (db, Err e)
      | Panic \<Rightarrow> (db, Panic)
      | Ok (txn_id, group_id) \<Rightarrow>
          (let (db', code) = add_offsets_to_txn env org_id txn_id group_id db
           in (db', Ok (put_i32 0 @ put_i16 (ErrorCode_as_i16 code) @ put_tags compact))))"

end
