(* ===== verification/Kafka_Offset_Properties.thy ===== *)
theory Kafka_Offset_Properties
  imports Kafka_Offset_Handlers Kafka_Wire Topic_Properties Group_Coordinator Segment_Properties
begin

text \<open>
  Theorems on the offset handlers of the Kafka server. The wire format of the requests is written out as encoders; \<open>offset_store\<close> is what a client of the
  offset table relies on, and the committed offsets of a group are a map from topic and partition.
\<close>

section \<open>The wire format of requests\<close>

lemma parse_if_enc: "(\<And>rest. dec (bs @ rest) = Ok (v, rest)) \<Longrightarrow> parse_if b dec x (put_if b bs @ rest) = Ok (if b then v else x, rest)"
  by (simp add: parse_if_def put_if_def)

lemma skip_if_enc:
  "skip_i32_if b (put_if b (put_i32 w) @ rest) = Ok ((), rest)" "skip_i64_if b (put_if b (put_i64 d) @ rest) = Ok ((), rest)"
  by (simp_all add: skip_i32_if_def skip_i64_if_def put_if_def codec_simps)

lemma short_is_long: "short_string s \<Longrightarrow> long_string s" "pred_option short_string t \<Longrightarrow> pred_option long_string t"
proof -
  show long: "short_string s \<Longrightarrow> long_string s" for s by (simp add: short_string_def long_string_def)
  show "pred_option short_string t \<Longrightarrow> pred_option long_string t" by (cases t) (simp_all add: long)
qed

lemma parse_str_enc: "short_string s \<Longrightarrow> parse_str compact (put_str compact s @ rest) = Ok (s, rest)"
  by (simp add: parse_str_def put_str_def plain_string.dec_enc compact_string.dec_enc short_is_long)

lemma parse_nullable_str_enc: "pred_option short_string s \<Longrightarrow> parse_nullable_str compact (put_nullable_str compact s @ rest) = Ok (s, rest)"
  by (simp add: parse_nullable_str_def put_nullable_str_def codec_simps short_is_long)

lemma parse_tags_enc: "parse_tags compact (put_tags compact @ rest) = Ok ((), rest)"
  using skip_tagged_fields_enc [of "[]" rest]
  by (simp add: parse_tags_def put_tags_def encode_empty_tagged_fields_def tagged_bytes_def tags_fit_def)

lemma parse_items_enc:
  assumes "\<And>x rest. x \<in> set xs \<Longrightarrow> dec (enc x @ rest) = Ok (x, rest)" and "length xs < 2 ^ 31" and "sz \<le> 48"
  shows "parse_items compact sz dec (put_items compact enc xs @ rest) = Ok (xs, rest)"
proof -
  have w: "wire_element enc dec (\<lambda>x. x \<in> set xs)" using assms(1) by (simp add: wire_element_def prefix_codec_def)
  have "length xs * sz \<le> 2 ^ 31 * 48" using assms(2,3) by (intro mult_le_mono) auto
  then have fits: "length xs * sz < 2 ^ 63" "length xs + 1 < 2 ^ 64" using assms(2) by auto
  show ?thesis
    using wire_element.parse_array_enc [OF w _ assms(2) fits(1), of rest] wire_element.parse_compact_array_enc [OF w _ fits(2,1), of rest]
    by (simp add: parse_items_def put_items_def array_bytes_def compact_array_bytes_def)
qed

lemmas wire_field_simps = parse_str_enc parse_nullable_str_enc parse_tags_enc skip_if_enc codec_simps

text \<open>A request is within the limits of the wire format.\<close>

definition topics_fit :: "('a \<Rightarrow> bool) \<Rightarrow> (bytes \<times> 'a list) list \<Rightarrow> bool" where
  "topics_fit ok topics \<longleftrightarrow> length topics < 2 ^ 31 \<and> (\<forall>(name, ps) \<in> set topics. short_string name \<and> length ps < 2 ^ 31 \<and> (\<forall>p \<in> set ps. ok p))"

lemma parse_topics_enc:
  assumes "topics_fit ok topics" and "\<And>p rest. ok p \<Longrightarrow> dec (enc p @ rest) = Ok (p, rest)" and "sz \<le> 48"
  shows "parse_items compact 48 (parse_topic compact sz dec) (put_topics compact enc topics @ rest) = Ok (topics, rest)"
  unfolding put_topics_def
proof (rule parse_items_enc)
  fix t rest assume "t \<in> set topics"
  moreover obtain name ps where t: "t = (name, ps)" by (cases t)
  ultimately have ok: "short_string name" "length ps < 2 ^ 31" "\<forall>p \<in> set ps. ok p" using assms(1) by (auto simp: topics_fit_def)
  have "parse_items compact sz dec (put_items compact enc ps @ put_tags compact @ rest) = Ok (ps, put_tags compact @ rest)"
    using ok assms(2,3) by (intro parse_items_enc) auto
  then show "parse_topic compact sz dec ((case t of (name, partitions) \<Rightarrow> put_str compact name @ put_items compact enc partitions @ put_tags compact) @ rest) = Ok (t, rest)"
    using ok by (simp add: parse_topic_def t wire_field_simps)
qed (use assms(1) in \<open>simp_all add: topics_fit_def\<close>)

text \<open>\<^verbatim>\<open>OffsetCommit\<close>: leader epochs, retention and timestamps have their default values.\<close>

definition commit_partition_bytes :: "i16 \<Rightarrow> i32 \<times> i64 \<times> bytes option \<Rightarrow> bytes" where
  "commit_partition_bytes v = (\<lambda>(index, offset, metadata).
     put_i32 index @ put_i64 offset @ put_if (sint v \<ge> 6) (put_i32 (- 1)) @ put_if (sint v = 1) (put_i64 (- 1))
     @ put_nullable_str (sint v \<ge> 8) metadata @ put_tags (sint v \<ge> 8))"

definition commit_request :: "i16 \<Rightarrow> bytes \<Rightarrow> i32 \<Rightarrow> bytes \<Rightarrow> commit_topics \<Rightarrow> bytes" where
  "commit_request v group_id generation_id member_id topics =
     (let compact = (sint v \<ge> 8) in
      put_str compact group_id @ put_if (sint v \<ge> 1) (put_i32 generation_id) @ put_if (sint v \<ge> 1) (put_str compact member_id)
      @ put_if (sint v \<ge> 2 \<and> sint v \<le> 4) (put_i64 (- 1)) @ put_if (sint v \<ge> 7) (put_nullable_str compact None)
      @ put_topics compact (commit_partition_bytes v) topics @ put_tags compact)"

abbreviation commit_ok_partition :: "i32 \<times> i64 \<times> bytes option \<Rightarrow> bool" where
  "commit_ok_partition \<equiv> \<lambda>(_, _, metadata). pred_option short_string metadata"

lemma parse_commit_partition_enc:
  "commit_ok_partition p \<Longrightarrow> parse_commit_partition v (commit_partition_bytes v p @ rest) = Ok (p, rest)"
  by (cases p) (simp add: parse_commit_partition_def commit_partition_bytes_def wire_field_simps Let_def)

lemma parse_commit_request_enc:
  assumes "topics_fit commit_ok_partition topics" and "short_string g" and "short_string m"
  shows "parse_commit_request v (commit_request v g gen m topics) = Ok ((g, if sint v \<ge> 1 then gen else - 1, if sint v \<ge> 1 then m else [], topics), [])"
proof -
  let ?c = "sint v \<ge> 8"
  have "parse_items ?c 48 (parse_topic ?c 40 (parse_commit_partition v)) (put_topics ?c (commit_partition_bytes v) topics @ rest) = Ok (topics, rest)" for rest
    by (rule parse_topics_enc [OF assms(1) parse_commit_partition_enc]) simp_all
  moreover have "parse_if b (parse_nullable_str c) None (put_if b (put_nullable_str c None) @ rest) = Ok (None, rest)" for b c rest
    by (simp add: parse_if_def put_if_def wire_field_simps)
  moreover have "parse_if b (parse_str c) [] (put_if b (put_str c m) @ rest) = Ok (if b then m else [], rest)" for b c rest
    using parse_if_enc [OF parse_str_enc [OF assms(3)]] .
  moreover have "parse_if b get_i32 x (put_if b (put_i32 y) @ rest) = Ok (if b then y else x, rest)" for b x y rest
    by (rule parse_if_enc) (simp add: codec_simps)
  moreover have "parse_tags ?c (put_tags ?c) = Ok ((), [])" using parse_tags_enc [of ?c "[]"] by simp
  ultimately show ?thesis using assms(2) by (simp add: parse_commit_request_def commit_request_def wire_field_simps Let_def)
qed

text \<open>\<^verbatim>\<open>OffsetFetch\<close> for one group.\<close>

definition fetch_partition_bytes :: "i16 \<Rightarrow> i32 \<Rightarrow> bytes" where
  "fetch_partition_bytes v index = put_i32 index @ put_tags (sint v \<ge> 6)"

definition fetch_request :: "i16 \<Rightarrow> bytes \<Rightarrow> (bytes \<times> i32 list) list \<Rightarrow> bytes" where
  "fetch_request v group_id topics =
     (let ts = put_topics (sint v \<ge> 6) (fetch_partition_bytes v) topics in
      if sint v \<ge> 8 then put_items True (\<lambda>_. encode_compact_string group_id @ ts @ put_tags True) [()] @ be_bytes 1 (0 :: 8 word) @ put_tags True
      else if sint v \<ge> 6 then encode_compact_string group_id @ ts @ put_if (sint v \<ge> 7) (be_bytes 1 (0 :: 8 word)) @ put_tags True
      else encode_string group_id @ ts)"

lemma parse_fetch_request_enc:
  assumes "topics_fit (\<lambda>_. True) topics" and "short_string g"
  shows "parse_fetch_offset_request v (fetch_request v g topics) = Ok ((g, topics), [])"
proof -
  let ?c = "sint v \<ge> 6" and ?ts = "put_topics (sint v \<ge> 6) (fetch_partition_bytes v) topics"
  have ts: "parse_fetch_offset_topics ?c (?ts @ rest) = Ok (topics, rest)" for rest
    unfolding parse_fetch_offset_topics_def using assms(1)
    by (intro parse_topics_enc) (simp_all add: parse_fetch_offset_partition_def fetch_partition_bytes_def wire_field_simps)
  have tag: "skip_tagged_fields (put_tags True @ rest) = Ok ((), rest)" for rest using parse_tags_enc [of True rest] by (simp add: parse_tags_def)
  have str: "parse_compact_string (encode_compact_string g @ rest) = Ok (g, rest)" "parse_string (encode_string g @ rest) = Ok (g, rest)" for rest
    using assms(2) by (simp_all add: plain_string.dec_enc compact_string.dec_enc short_is_long)
  consider (new) "sint v \<ge> 8" | (mid) "sint v \<ge> 6" "\<not> sint v \<ge> 8" | (old) "\<not> sint v \<ge> 6" by linarith
  then show ?thesis
  proof cases
    case new
    have "put_items True (\<lambda>_. encode_compact_string g @ ?ts @ put_tags True) [()] = compact_array_bytes (\<lambda>_. encode_compact_string g @ ?ts @ put_tags True) [(g, topics)]"
      by (simp add: put_items_def compact_array_bytes_def)
    moreover have "parse_compact_array 48 parse_fetch_offset_group (compact_array_bytes (\<lambda>_. encode_compact_string g @ ?ts @ put_tags True) [(g, topics)] @ rest) = Ok ([(g, topics)], rest)" for rest
      by (rule wire_element.parse_compact_array_enc [where valid = "\<lambda>x. x = (g, topics)"])
        (use new ts in \<open>auto simp: wire_element_def prefix_codec_def parse_fetch_offset_group_def str tag\<close>)
    ultimately show ?thesis using new tag [of "[]"] by (simp add: parse_fetch_offset_request_def fetch_request_def Let_def wire_field_simps)
  next
    case mid
    have "parse_if b get_i8 0 (put_if b (be_bytes 1 (0 :: 8 word)) @ rest) = Ok (0, rest)" for b rest
      by (simp add: parse_if_def put_if_def codec_simps)
    then show ?thesis using mid ts tag [of "[]"] by (simp add: parse_fetch_offset_request_def fetch_request_def Let_def str)
  next
    case old
    have n: "length topics < 2 ^ 31" using assms(1) by (simp add: topics_fit_def)
    have b: "?ts = put_i32 (of_nat (length topics)) @ concat (map (\<lambda>(name, ps). put_str ?c name @ put_items ?c (fetch_partition_bytes v) ps @ put_tags ?c) topics)"
      using old by (simp add: put_topics_def put_items_def)
    then have "4 \<le> length ?ts" "take 4 ?ts = put_i32 (of_nat (length topics))" by (simp_all add: length_be_bytes)
    then have "4 \<le> length ?ts \<and> 0 \<le> sint (be_val (take 4 ?ts) :: i32)" using sint_of_nat_small(2) [OF n] by (simp add: be_val_full)
    then show ?thesis using old ts [of "[]"] by (simp add: parse_fetch_offset_request_def fetch_request_def Let_def str)
  qed
qed

section \<open>The interface of the offset table\<close>

text \<open>Committed offsets are a map: a commit updates it at one key and keeps the invariant of the table.\<close>

locale offset_store =
  fixes commit :: "'k \<Rightarrow> u64 \<Rightarrow> string option \<Rightarrow> 'db \<Rightarrow> 'db \<times> ('e, unit) result"
    and lookup :: "'db \<Rightarrow> 'k \<rightharpoonup> u64"
    and invar :: "'db \<Rightarrow> bool"
  assumes commit_law: "invar db \<Longrightarrow> \<exists>db'. commit k off m db = (db', Ok ()) \<and> lookup db' = (lookup db)(k \<mapsto> off) \<and> invar db'"
begin

lemma commit_step:
  assumes "invar db" and "\<And>i p db. f i p db = (let (db', r) = commit (key p) (off p) (meta p) db in (db', Ok (reply p r)))"
  shows "\<exists>db'. for_partitions f i ps db = (db', Ok (map (\<lambda>p. reply p (Ok ())) ps)) \<and> lookup db' = fold (\<lambda>p m. m(key p \<mapsto> off p)) ps (lookup db) \<and> invar db'"
  using assms(1)
proof (induction ps arbitrary: i db)
  case (Cons p ps)
  obtain db1 where d: "commit (key p) (off p) (meta p) db = (db1, Ok ())" "lookup db1 = (lookup db)(key p \<mapsto> off p)" "invar db1"
    using commit_law [OF Cons.prems] by metis
  obtain db2 where e: "for_partitions f (Suc i) ps db1 = (db2, Ok (map (\<lambda>p. reply p (Ok ())) ps))"
      "lookup db2 = fold (\<lambda>p m. m(key p \<mapsto> off p)) ps (lookup db1)" "invar db2"
    using Cons.IH [OF d(3)] by blast
  have "f i p db = (db1, Ok (reply p (Ok ())))" by (simp add: assms(2) d(1))
  then show ?case using d(2) e by (simp add: fun_upd_def)
qed simp

end

definition offset_of :: "string \<Rightarrow> string \<Rightarrow> topic_db \<Rightarrow> string \<times> u32 \<rightharpoonup> u64" where
  "offset_of org g db = (\<lambda>(t, n). get_committed_offset_for_org org g t n db)"

text \<open>The organization exists, and no other one uses the group.\<close>

definition owns_group :: "string \<Rightarrow> string \<Rightarrow> topic_db \<Rightarrow> bool" where
  "owns_group org g db \<longleftrightarrow> org \<in> set (organization_ids db) \<and> (\<forall>r \<in> set (td_offsets db). co_group_id (snd r) = g \<longrightarrow> fst r = org)"

lemma owned_commit:
  assumes "owns_group org g db"
  shows "\<exists>db'. commit_offset_for_org False False org g t n off m db = (db', Ok ()) \<and> offset_of org g db' = (offset_of org g db)((t, n) \<mapsto> off) \<and> owns_group org g db'"
proof -
  obtain db' where c: "commit_offset_for_org False False org g t n off m db = (db', Ok ())"
    using assms by (cases "(org, g) \<in> set (td_groups db)")
      (auto simp: owns_group_def commit_offset_for_org_def ensure_consumer_group_for_org_def insert_group_def)
  have "offset_of org g db' k = ((offset_of org g db)((t, n) \<mapsto> off)) k" for k
    using committed_offset_reads_back [OF c, of org g "fst k" "snd k"] assms
    by (auto simp: offset_of_def owns_group_def same_offset_def case_prod_unfold)
  moreover obtain db1 where "insert_group org g db = Some db1" "td_offsets db1 = td_offsets db"
    and db': "db' = upsert_offset org \<lparr>co_group_id = g, co_topic = t, co_partition_id = n, co_committed_offset = off, co_metadata = m\<rparr> db1"
    using commit_ok [OF c] by blast
  moreover from this(1) have "organization_ids db1 = organization_ids db" by (auto simp: insert_group_def split: if_splits)
  ultimately have "owns_group org g db'" using assms
    by (auto simp: owns_group_def upsert_offset_def Let_def same_offset_def organization_ids_def split: if_splits)
  then show ?thesis using c \<open>\<And>k. offset_of org g db' k = ((offset_of org g db)((t, n) \<mapsto> off)) k\<close> by blast
qed

interpretation group_offsets: offset_store "\<lambda>(t, n). commit_offset_for_org False False org g t n" "offset_of org g" "owns_group org g" for org g
  by unfold_locales (use owned_commit in \<open>auto split: prod.split\<close>)

section \<open>Commits\<close>

text \<open>The commits of a request, in order, applied to the committed offsets of the group.\<close>

definition apply_commits :: "commit_topics \<Rightarrow> (string \<times> u32 \<rightharpoonup> u64) \<Rightarrow> string \<times> u32 \<rightharpoonup> u64" where
  "apply_commits topics = fold (\<lambda>(t, ps). fold (\<lambda>(index, off, _) m. m((string_of_bytes t, index) \<mapsto> off)) ps) topics"

abbreviation all_accepted :: "commit_topics \<Rightarrow> (bytes \<times> (i32 \<times> ErrorCode) list) list" where
  "all_accepted topics \<equiv> map (\<lambda>(t, ps). (t, map (\<lambda>(index, _). (index, EC_None)) ps)) topics"

lemma commit_partitions:
  assumes "owns_group org (string_of_bytes g) db"
  shows "\<exists>db'. for_partitions (commit_partition (\<lambda>_. (False, False)) org g t) i ps db = (db', Ok (map (\<lambda>(index, _). (index, EC_None)) ps))
    \<and> offset_of org (string_of_bytes g) db' = fold (\<lambda>(index, off, _) m. m((string_of_bytes t, index) \<mapsto> off)) ps (offset_of org (string_of_bytes g) db)
    \<and> owns_group org (string_of_bytes g) db'"
  using group_offsets.commit_step [OF assms, of "commit_partition (\<lambda>_. (False, False)) org g t" "\<lambda>(index, _, _). (string_of_bytes t, index)"
      "\<lambda>(_, off, _). off" "\<lambda>(_, _, m). map_option string_of_bytes m" "\<lambda>(index, _, _) r. (index, case r of Ok _ \<Rightarrow> EC_None | _ \<Rightarrow> EC_UnknownServerError)" i ps]
  by (simp add: commit_partition_def case_prod_unfold)

lemma commit_topics_loop:
  assumes "owns_group org (string_of_bytes g) db"
  shows "\<exists>db'. for_topics (commit_partition (\<lambda>_. (False, False)) org g) i topics db = (db', Ok (all_accepted topics))
    \<and> offset_of org (string_of_bytes g) db' = apply_commits topics (offset_of org (string_of_bytes g) db) \<and> owns_group org (string_of_bytes g) db'"
  using assms
proof (induction topics arbitrary: i db)
  case (Cons t topics)
  obtain name ps where t: "t = (name, ps)" by (cases t)
  obtain db1 where d: "for_partitions (commit_partition (\<lambda>_. (False, False)) org g name) i ps db = (db1, Ok (map (\<lambda>(index, _). (index, EC_None)) ps))"
      "offset_of org (string_of_bytes g) db1 = fold (\<lambda>(index, off, _) m. m((string_of_bytes name, index) \<mapsto> off)) ps (offset_of org (string_of_bytes g) db)"
      "owns_group org (string_of_bytes g) db1"
    using commit_partitions [OF Cons.prems] by blast
  then show ?case using Cons.IH [OF d(3), of "i + length ps"] by (auto simp: t apply_commits_def)
qed (simp add: apply_commits_def)

lemma fetch_partitions:
  "for_partitions (fetch_offset_partition (\<lambda>_. False) org g db t) i ps () = ((), Ok (map (\<lambda>index. (index, fetch_offset False org g t index db)) ps))"
  by (induction ps arbitrary: i) (simp_all add: fetch_offset_partition_def)

lemma fetch_topics_loop:
  "for_topics (fetch_offset_partition (\<lambda>_. False) org g db) i topics () = ((), Ok (map (\<lambda>(t, ps). (t, map (\<lambda>index. (index, fetch_offset False org g t index db)) ps)) topics))"
  by (induction topics arbitrary: i) (auto simp: fetch_partitions)

text \<open>The response of a fetch, given the committed offsets.\<close>

definition fetched :: "i16 \<Rightarrow> bytes \<Rightarrow> (string \<times> u32 \<rightharpoonup> u64) \<Rightarrow> (bytes \<times> i32 list) list \<Rightarrow> bytes" where
  "fetched v g offsets queried = build_fetch_offset_response v g (map (\<lambda>(t, ps). (t, map (\<lambda>index.
     (index, case offsets (string_of_bytes t, index) of Some off \<Rightarrow> off | None \<Rightarrow> - 1, None, EC_None)) ps)) queried)"

lemma fetch_request_effect:
  assumes "topics_fit (\<lambda>_. True) queried" and "short_string g"
  shows "handle_offset_fetch (\<lambda>_. False) org v (fetch_request v g queried) db = Ok (fetched v g (offset_of org (string_of_bytes g) db) queried)"
proof -
  have "fetch_offset False org g t index db = (case offset_of org (string_of_bytes g) db (string_of_bytes t, index) of Some off \<Rightarrow> off | None \<Rightarrow> - 1, None, EC_None)" for t index
    by (simp add: fetch_offset_def offset_of_def split: option.split)
  then show ?thesis by (simp add: handle_offset_fetch_def parse_fetch_request_enc [OF assms] fetch_topics_loop fetched_def)
qed

lemma commit_request_effect:
  assumes "owns_group org (string_of_bytes g) db" and "short_string g" and "short_string m" and "topics_fit commit_ok_partition topics"
  shows "\<exists>db'. handle_offset_commit (\<lambda>_. (False, False)) org v (commit_request v g gen m topics) db = (db', Ok (build_commit_response v (all_accepted topics)))
    \<and> offset_of org (string_of_bytes g) db' = apply_commits topics (offset_of org (string_of_bytes g) db) \<and> owns_group org (string_of_bytes g) db'"
  using commit_topics_loop [OF assms(1), of 0 topics] by (auto simp: handle_offset_commit_def parse_commit_request_enc [OF assms(4,2,3)])

text \<open>
  C10. Committed offsets are what a fetch returns. When an organization that owns its group sends an \<^verbatim>\<open>OffsetCommit\<close> request, in any version of the
  protocol, every partition is accepted, and an \<^verbatim>\<open>OffsetFetch\<close> request for the group, in any version, answers each partition with the offset last
  committed for it (by this request or earlier), or with minus one if there is none; the metadata of the commit is not returned.
\<close>

theorem committed_offsets_are_fetched:
  assumes "owns_group org (string_of_bytes g) db" and "short_string g" and "short_string m" and "topics_fit commit_ok_partition topics" and "topics_fit (\<lambda>_. True) queried"
  shows "\<exists>db'. handle_offset_commit (\<lambda>_. (False, False)) org v (commit_request v g gen m topics) db = (db', Ok (build_commit_response v (all_accepted topics)))
    \<and> handle_offset_fetch (\<lambda>_. False) org v' (fetch_request v' g queried) db' = Ok (fetched v' g (apply_commits topics (offset_of org (string_of_bytes g) db)) queried)"
  using commit_request_effect [OF assms(1-4), of v gen] fetch_request_effect [OF assms(5,2)] by metis


section \<open>Offsets in transactions\<close>

definition txn_commit_partition_bytes :: "i16 \<Rightarrow> i32 \<times> i64 \<times> bytes option \<Rightarrow> bytes" where
  "txn_commit_partition_bytes v = (\<lambda>(index, offset, metadata).
     put_i32 index @ put_i64 offset @ put_if (sint v \<ge> 2) (put_i32 (- 1)) @ put_nullable_str (sint v \<ge> 3) metadata @ put_tags (sint v \<ge> 3))"

definition txn_commit_request :: "i16 \<Rightarrow> bytes \<Rightarrow> bytes \<Rightarrow> i64 \<Rightarrow> i16 \<Rightarrow> commit_topics \<Rightarrow> bytes" where
  "txn_commit_request v txn_id group_id producer_id producer_epoch topics =
     (let compact = (sint v \<ge> 3) in
      put_str compact txn_id @ put_str compact group_id @ put_i64 producer_id @ put_i16 producer_epoch
      @ put_topics compact (txn_commit_partition_bytes v) topics @ put_tags compact)"

lemma parse_txn_commit_request_enc:
  assumes "topics_fit commit_ok_partition topics" and "short_string t" and "short_string g"
  shows "parse_txn_commit_request v (txn_commit_request v t g pid epoch topics) = Ok ((t, g, topics), [])"
proof -
  let ?c = "sint v \<ge> 3"
  have p: "parse_txn_commit_partition v (txn_commit_partition_bytes v p @ rest) = Ok (p, rest)" if "commit_ok_partition p" for p rest
    using that by (cases p) (simp add: parse_txn_commit_partition_def txn_commit_partition_bytes_def wire_field_simps Let_def)
  have "parse_items ?c 48 (parse_topic ?c 40 (parse_txn_commit_partition v)) (put_topics ?c (txn_commit_partition_bytes v) topics @ rest) = Ok (topics, rest)" for rest
    by (rule parse_topics_enc [OF assms(1) p]) simp_all
  moreover have "parse_tags ?c (put_tags ?c) = Ok ((), [])" using parse_tags_enc [of ?c "[]"] by simp
  ultimately show ?thesis using assms(2,3) by (simp add: parse_txn_commit_request_def txn_commit_request_def wire_field_simps Let_def)
qed

text \<open>
  Transactional offsets take effect at once. A \<^verbatim>\<open>TxnOffsetCommit\<close> request, whatever its transaction, producer and epoch are and whether they exist,
  changes the committed offsets like an ordinary commit: an \<^verbatim>\<open>OffsetFetch\<close> request that follows it answers with them, although the
  transaction has not ended and may still be aborted.
\<close>

theorem transactional_offsets_take_effect_at_once:
  assumes "owns_group org (string_of_bytes g) db" and "short_string t" and "short_string g" and "topics_fit commit_ok_partition topics" and "topics_fit (\<lambda>_. True) queried"
  shows "\<exists>db'. handle_txn_offset_commit (\<lambda>_. (False, False)) org v (txn_commit_request v t g pid epoch topics) db = (db', Ok (build_txn_commit_response v (all_accepted topics)))
    \<and> handle_offset_fetch (\<lambda>_. False) org v' (fetch_request v' g queried) db' = Ok (fetched v' g (apply_commits topics (offset_of org (string_of_bytes g) db)) queried)"
proof -
  obtain db' where "for_topics (commit_partition (\<lambda>_. (False, False)) org g) 0 topics db = (db', Ok (all_accepted topics))"
    and "offset_of org (string_of_bytes g) db' = apply_commits topics (offset_of org (string_of_bytes g) db)"
    using commit_topics_loop [OF assms(1)] by blast
  then show ?thesis
    by (simp add: handle_txn_offset_commit_def parse_txn_commit_request_enc [OF assms(4,2,3)] fetch_request_effect [OF assms(5,3)])
qed

section \<open>Offsets by time\<close>

text \<open>The cached copy of a segment, if there is one, is the object.\<close>

definition cache_faithful :: "list_offsets_env \<Rightarrow> string \<Rightarrow> u32 \<Rightarrow> SegmentMeta list \<Rightarrow> 'l SegmentCache \<Rightarrow> bool" where
  "cache_faithful env topic n gs c \<longleftrightarrow> (\<forall>g \<in> set gs. sc_disk c (cache_path c (timestamp_cache_key topic n g)) \<in> {None, le_object env (sm_s3_key g)})"

lemma timestamp_key_relative: "relative_key topic \<Longrightarrow> topic \<noteq> [] \<Longrightarrow> relative_key (timestamp_cache_key topic n g)"
  by (cases topic) (simp_all add: relative_key_def timestamp_cache_key_def)

lemma load_segment_ok:
  assumes "cache_faithful env topic n (g # gs) c" and "le_object env (sm_s3_key g) = Some data" and "\<And>k. cf_write (le_faults env k) = Written"
    and "relative_key topic" "topic \<noteq> []" and "sm_id g \<notin> sm_id ` set gs"
  shows "\<exists>c'. load_segment lru env (timestamp_cache_key topic n g) (sm_s3_key g) c = (c', Ok data) \<and> cache_faithful env topic n gs c'"
proof -
  let ?k = "timestamp_cache_key topic n g"
  obtain c1 r where get: "cache_get lru (cf_read_fails (le_faults env ?k)) ?k c = (c1, r)" by (cases "cache_get lru (cf_read_fails (le_faults env ?k)) ?k c")
  have frame: "sc_disk c1 = sc_disk c" "sc_cache_dir c1 = sc_cache_dir c" using cache_get_frame [of lru "cf_read_fails (le_faults env ?k)" ?k c] by (simp_all add: get)
  then have p1: "cache_path c1 = cache_path c" by (intro cache_path_cong) simp
  have faithful1: "cache_faithful env topic n gs c1" using assms(1) by (simp add: cache_faithful_def p1 frame)
  have hit: "r = Ok (Some data)" if "r = Ok (Some d)" for d
    using that get assms(1,2) by (auto simp: cache_get_def cache_faithful_def split: option.splits if_splits)
  let ?c2 = "fst (cache_put lru (le_faults env ?k) ?k data c1)"
  have p2: "cache_path ?c2 = cache_path c" unfolding p1 [symmetric] by (rule cache_path_cong) simp
  have "cache_path c1 (timestamp_cache_key topic n h) \<noteq> cache_path c1 ?k" if "h \<in> set gs" for h
    using that assms(6) timestamp_key_relative [OF assms(4,5)] by (auto simp: cache_path_inj timestamp_cache_key_def image_iff)
  then have faithful2: "cache_faithful env topic n gs ?c2"
    using cache_put_disk(2) [of _ c1 ?k lru "le_faults env ?k" data] faithful1 unfolding cache_faithful_def p2 p1 by fastforce
  show ?thesis
  proof (cases "\<exists>d. r = Ok (Some d)")
    case True
    then have "r = Ok (Some data)" using hit by blast
    then show ?thesis using faithful1 by (simp add: load_segment_def get)
  next
    case False
    then have "load_segment lru env ?k (sm_s3_key g) c = (?c2, Ok data)"
      by (cases r rule: result.exhaust; auto simp: load_segment_def get assms(2) split: option.splits)
    then show ?thesis using faithful2 by blast
  qed
qed

text \<open>A segment whose object reads as the records, and whose row has an upper bound of their times.\<close>

definition timed_segment :: "list_offsets_env \<Rightarrow> SegmentMeta \<Rightarrow> Record list \<Rightarrow> bool" where
  "timed_segment env g rs \<longleftrightarrow> (\<exists>data. le_object env (sm_s3_key g) = Some data \<and> rbind (SegmentReader_new (le_crc32 env) data) (read_all (le_unlz4 env)) = Ok rs)
     \<and> (\<forall>r \<in> set rs. rec_timestamp r \<le> sm_max_timestamp g)"

lemma scan_timestamps_first:
  assumes "list_all2 (timed_segment env) gs rss" and "cache_faithful env topic n gs c" and "distinct (map sm_id gs)"
    and "\<And>k. cf_write (le_faults env k) = Written" and "relative_key topic" "topic \<noteq> []"
  shows "snd (scan_timestamps lru env topic n target gs c) = Ok (map_option rec_offset (find (\<lambda>r. target \<le> rec_timestamp r) (concat rss)))"
  using assms(1-3)
proof (induction gs rss arbitrary: c rule: list_all2_induct)
  case (Cons g gs rs rss)
  show ?case
  proof (cases "sm_max_timestamp g < target")
    case True
    then have "find (\<lambda>r. target \<le> rec_timestamp r) rs = None" using Cons.hyps(1) by (auto simp: timed_segment_def find_None_iff)
    moreover have "cache_faithful env topic n gs c" using Cons.prems by (simp add: cache_faithful_def)
    ultimately show ?thesis using True Cons.IH Cons.prems by (simp add: find_append)
  next
    case False
    obtain data where d: "le_object env (sm_s3_key g) = Some data" "rbind (SegmentReader_new (le_crc32 env) data) (read_all (le_unlz4 env)) = Ok rs"
      using Cons.hyps(1) by (auto simp: timed_segment_def)
    obtain c' where "load_segment lru env (timestamp_cache_key topic n g) (sm_s3_key g) c = (c', Ok data)" "cache_faithful env topic n gs c'"
      using load_segment_ok [OF Cons.prems(1) d(1) assms(4-6)] Cons.prems(2) by auto
    then show ?thesis using False d(2) Cons.IH Cons.prems by (simp add: find_append split: option.split)
  qed
qed simp

text \<open>
  C15. The lookup of an offset by time finds the first record at or after the time: when the segments of the partition can be read, their rows bound the
  times of their records and cached copies are faithful, the answer is the offset of the first record of the log, in the order of the
  segments, whose timestamp is at least the target, or none if there is no such record. Skipping segments by their largest timestamp and taking
  segments from the cache makes no difference.
\<close>

theorem timestamp_lookup_is_first:
  assumes "list_all2 (timed_segment env) (get_segments org topic n db) rss" and "cache_faithful env topic n (get_segments org topic n db) c"
    and "distinct (map (sm_id \<circ> snd) (td_segments db))" and "\<And>k. cf_write (le_faults env k) = Written" and "relative_key topic" "topic \<noteq> []"
    and "\<not> le_segments_fail env"
  shows "snd (find_offset_by_timestamp lru env org topic n target db c) = Ok (map_option rec_offset (find (\<lambda>r. target \<le> rec_timestamp r) (concat rss)))"
proof -
  have "distinct (map sm_id (map snd (filter P (td_segments db))))" for P using distinct_map_filter [OF assms(3)] by simp
  then have "distinct (map sm_id (get_segments org topic n db))"
    unfolding get_segments_def by (metis (no_types, lifting) card_distinct distinct_card length_map length_sort set_map set_sort)
  then show ?thesis using scan_timestamps_first [OF assms(1,2) _ assms(4-6)] assms(7) by (simp add: find_offset_by_timestamp_def)
qed

text \<open>
  Rows without timestamps are never searched. The rows that the reconciler recovers and those of compacted segments have a largest timestamp of zero, so
  every lookup by a positive time passes over their records and ends at the high watermark.
\<close>

theorem rows_without_timestamps_are_skipped:
  assumes "\<forall>g \<in> set (get_segments org (string_of_bytes t) n db). sm_max_timestamp g = 0" and "get_topic_for_org org (string_of_bytes t) db \<noteq> None"
    and "get_partition org (string_of_bytes t) n db = Some p" and "\<not> le_topic_fails env" and "\<not> le_partition_fails env" and "0 < sint time"
  shows "\<exists>r. get_partition_offset lru env org t n time level db pdb c = (c, Ok r) \<and> lo_error_code r = EC_None \<and> lo_offset r = pt_high_watermark p"
proof -
  have neg: "time \<noteq> - 1" "time \<noteq> - 2" "time \<noteq> 0" using assms(6) by auto
  have "scan_timestamps lru env topic n' time gs c = (c, Ok None)" if "\<forall>g \<in> set gs. sm_max_timestamp g = 0" for topic n' gs
    using that neg(3) by (induction gs) (simp_all add: word_neq_0_conv)
  then have "find_offset_by_timestamp lru env org (string_of_bytes t) n time db c \<in> {(c, Ok None), (c, Err ())}"
    using assms(1) by (simp add: find_offset_by_timestamp_def)
  then show ?thesis using assms(2-5) neg by (auto simp: get_partition_offset_def Let_def)
qed

section \<open>Examples\<close>

lemma demo_owner: "owns_group ''a'' g demo_topic_db" "offset_of ''a'' g demo_topic_db = Map.empty"
  by (simp_all add: owns_group_def offset_of_def demo_topic_db_eval organization_ids_def get_committed_offset_for_org_def fun_eq_iff)

lemma demo_letters: "short_string [b]" if "b \<le> 0x7F" for b using that by (simp add: short_string_def)

lemma demo_letter: "string_of_bytes [103] = ''g''" "string_of_bytes [116] = ''t''" "string_of_bytes [109] = ''m''" "string_of_bytes [110] = ''n''"
  by code_simp+

lemma demo_fits: "topics_fit commit_ok_partition [([116], [(0, off, None)])]" "topics_fit (\<lambda>_. True) [([116], [0 :: i32])]"
  by (simp_all add: topics_fit_def demo_letters)

theorem committed_offsets_are_fetched_witness:
  "\<exists>db' resp. handle_offset_commit (\<lambda>_. (False, False)) ''a'' 8 (commit_request 8 [103] 1 [109] [([116], [(0, 5, None)])]) demo_topic_db = (db', Ok resp)
     \<and> handle_offset_fetch (\<lambda>_. False) ''a'' 2 (fetch_request 2 [103] [([116], [0])]) db' = Ok (fetched 2 [103] [(''t'', 0) \<mapsto> 5] [([116], [0])])"
  using committed_offsets_are_fetched [of "''a''" "[103]" demo_topic_db "[109]" "[([116], [(0, 5, None)])]" "[([116], [0])]" 8 1 2] demo_owner demo_fits demo_letters
  by (auto simp: apply_commits_def demo_letter)

definition fenced_group :: ConsumerGroup where
  "fenced_group = (ConsumerGroup_new 0 ''g'')\<lparr>cg_state := GS_Stable, cg_generation_id := 2,
     cg_members := [(''m'', \<lparr>gm_member_id = ''m'', gm_client_id = ''c'', gm_client_host = ''h'', gm_session_timeout_ms = 10000, gm_rebalance_timeout_ms = 10000,
       gm_protocol_type = ''consumer'', gm_protocols = [], gm_assignment = [], gm_last_heartbeat = 0\<rparr>)]\<rparr>"


theorem transactional_offsets_take_effect_at_once_witness:
  "\<exists>db' resp. handle_txn_offset_commit (\<lambda>_. (False, False)) ''a'' 3 (txn_commit_request 3 [120] [103] 7 0 [([116], [(0, 5, None)])]) demo_topic_db = (db', Ok resp)
     \<and> handle_offset_fetch (\<lambda>_. False) ''a'' 6 (fetch_request 6 [103] [([116], [0])]) db' = Ok (fetched 6 [103] [(''t'', 0) \<mapsto> 5] [([116], [0])])"
  using transactional_offsets_take_effect_at_once [of "''a''" "[103]" demo_topic_db "[120]" "[([116], [(0, 5, None)])]" "[([116], [0])]" 3 7 0 6] demo_owner demo_fits demo_letters
  by (auto simp: apply_commits_def demo_letter)

definition timed_db :: "i64 \<Rightarrow> topic_db" where
  "timed_db t = demo_topic_db\<lparr>td_segments := [(''a'', demo_segment_row\<lparr>sm_max_timestamp := t\<rparr>)]\<rparr>"

definition timed_env :: "bytes \<Rightarrow> list_offsets_env" where
  "timed_env data = \<lparr>le_topic_fails = False, le_partition_fails = False, le_lso_fails = False, le_segments_fail = False, le_faults = (\<lambda>_. no_faults),
     le_object = [''k'' \<mapsto> data], le_unlz4 = Ok, le_crc32 = (\<lambda>_. 0), le_now = 9\<rparr>"

lemma timed_segments: "get_segments ''a'' ''orders'' 0 (timed_db t) = [demo_segment_row\<lparr>sm_max_timestamp := t\<rparr>]"
  by (simp add: get_segments_def timed_db_def in_partition_def demo_segment_row_def)

theorem timestamp_lookup_is_first_witness:
  "\<exists>data. write_segment (\<lambda>b. b) (\<lambda>_. 0) CompLz4 demo_records = Ok data
     \<and> snd (find_offset_by_timestamp list_lru (timed_env data) ''a'' ''orders'' 0 6 (timed_db 7) (SegmentCache_new list_lru ''cache'' 1000 Map.empty)) = Ok (Some 101)"
proof -
  obtain data where w: "write_segment (\<lambda>b. b) (\<lambda>_. 0) CompLz4 demo_records = Ok data"
    using write_segment_layout [of demo_records CompLz4] by (auto simp: demo_records_def)
  have "lz4_contract (\<lambda>b. b) Ok" "demo_records \<noteq> []" "length demo_records < 2 ^ 32" "\<And>r. r \<in> set demo_records \<Longrightarrow> record_small r" "map stored_record demo_records = demo_records"
    by (auto simp: lz4_contract_def demo_records_def record_small_def stored_record_def stored_key_def Record_new_def)
  then have "rbind (SegmentReader_new (\<lambda>_. 0) data) (read_all Ok) = Ok demo_records"
    using written_decodes [of "\<lambda>b. b" Ok demo_records CompLz4 "\<lambda>_. 0" data] w demo_segment_length [OF w] by auto
  then have "list_all2 (timed_segment (timed_env data)) (get_segments ''a'' ''orders'' 0 (timed_db 7)) [demo_records]"
    by (simp add: timed_segments timed_segment_def timed_env_def demo_segment_row_def demo_records_def Record_new_def)
  moreover have "cache_faithful (timed_env data) ''orders'' 0 (get_segments ''a'' ''orders'' 0 (timed_db 7)) (SegmentCache_new list_lru ''cache'' 1000 Map.empty)"
    by (simp add: timed_segments cache_faithful_def SegmentCache_new_def)
  ultimately show ?thesis
    using timestamp_lookup_is_first [of "timed_env data" "''a''" "''orders''" 0 "timed_db 7" "[demo_records]" _ list_lru 6] w
    by (simp add: timed_env_def timed_db_def no_faults_def relative_key_def demo_records_def Record_new_def)
qed

theorem rows_without_timestamps_are_skipped_witness:
  "\<exists>r. get_partition_offset list_lru (timed_env []) ''a'' (map of_char ''orders'') 0 6 0 (timed_db 0) pdb c = (c, Ok r) \<and> lo_offset r = 5"
proof -
  have t: "string_of_bytes (map of_char ''orders'') = ''orders''" by code_simp
  have "get_partition ''a'' ''orders'' 0 (timed_db 0) = Some \<lparr>pt_topic = ''orders'', pt_partition_id = 0, pt_high_watermark = 5\<rparr>"
    by (simp add: timed_db_def demo_topic_db_eval get_partition_def at_partition_def)
  moreover have "get_topic_for_org ''a'' ''orders'' (timed_db 0) \<noteq> None" by (simp add: timed_db_def demo_topic_db_eval get_topic_for_org_def)
  ultimately show ?thesis
    using rows_without_timestamps_are_skipped [of "''a''" "map of_char ''orders''" 0 "timed_db 0" _ "timed_env []" 6 list_lru 0 pdb c, unfolded t]
    by (fastforce simp: timed_segments timed_env_def)
qed

end
