(* ===== verification/Kafka_Group_Handlers.thy ===== *)
theory Kafka_Group_Handlers
  imports Kafka_Offset_Handlers Group_Coordinator
begin

text \<open>
  Request handlers of the Kafka server for consumer groups, \<^verbatim>\<open>streamhouse-kafka/src/handlers/consumer_groups.rs\<close>, from the bytes of a request to the bytes of the
  response, over the coordinator. The iteration order of the hash maps, the new member identifier, the clock and the answer of the quota enforcer
  are arguments.
\<close>

definition bytes_of_string :: "string \<Rightarrow> bytes" where "bytes_of_string s = map of_char s"

record KafkaServerConfig =
  ks_node_id :: i32
  ks_advertised_host :: bytes
  ks_advertised_port :: i32

definition parse_bytes_or_default :: "bool \<Rightarrow> bytes \<Rightarrow> (KafkaError, bytes \<times> bytes) result" where
  "parse_bytes_or_default compact buf =
     rbind ((if compact then parse_compact_nullable_bytes else parse_nullable_bytes) buf) (\<lambda>(b, buf). Ok (or_default b, buf))"

definition put_bytes :: "bool \<Rightarrow> bytes \<Rightarrow> bytes" where
  "put_bytes compact b = (if compact then encode_compact_nullable_bytes else encode_nullable_bytes) (Some b)"

section \<open>FindCoordinator\<close>

definition find_coordinator_response :: "KafkaServerConfig \<Rightarrow> i16 \<Rightarrow> bytes \<Rightarrow> bytes" where
  "find_coordinator_response cfg api_version key =
     (let v = sint api_version; compact = (v \<ge> 3);
          node = put_i32 (ks_node_id cfg) @ put_str compact (ks_advertised_host cfg) @ put_i32 (ks_advertised_port cfg)
      in if v \<ge> 4 then
           put_i32 0 @ encode_unsigned_varint 2 @ encode_compact_string key @ node @ put_i16 (ErrorCode_as_i16 EC_None)
           @ encode_compact_nullable_string None @ encode_empty_tagged_fields @ encode_empty_tagged_fields
         else put_if (v \<ge> 1) (put_i32 0) @ put_i16 (ErrorCode_as_i16 EC_None) @ put_if (v \<ge> 1) (put_nullable_str compact None) @ node @ put_tags compact)"

definition handle_find_coordinator :: "KafkaServerConfig \<Rightarrow> i16 \<Rightarrow> bytes \<Rightarrow> (KafkaError, bytes) result" where
  "handle_find_coordinator cfg api_version body =
     (let compact = (sint api_version \<ge> 3) in
      rbind (parse_str compact body) (\<lambda>(key, buf).
      rbind (parse_if (sint api_version \<ge> 1) get_i8 0 buf) (\<lambda>(_, buf).
      rbind (parse_tags compact buf) (\<lambda>_. Ok (find_coordinator_response cfg api_version key)))))"

section \<open>JoinGroup\<close>

record join_request =
  jr_group_id :: bytes
  jr_session_timeout_ms :: i32
  jr_rebalance_timeout_ms :: i32
  jr_member_id :: bytes
  jr_protocol_type :: bytes
  jr_protocols :: "MemberProtocol list"

definition parse_member_protocol :: "bool \<Rightarrow> bytes \<Rightarrow> (KafkaError, MemberProtocol \<times> bytes) result" where
  "parse_member_protocol compact buf =
     rbind (parse_str compact buf) (\<lambda>(name, buf).
     rbind (parse_bytes_or_default compact buf) (\<lambda>(metadata, buf).
     rbind (parse_tags compact buf) (\<lambda>(_, buf). Ok (\<lparr>mp_name = string_of_bytes name, mp_metadata = metadata\<rparr>, buf))))"

definition parse_join_request :: "i16 \<Rightarrow> bytes \<Rightarrow> (KafkaError, join_request \<times> bytes) result" where
  "parse_join_request api_version body =
     (let v = sint api_version; compact = (v \<ge> 6) in
      rbind (parse_str compact body) (\<lambda>(group_id, buf).
      rbind (get_i32 buf) (\<lambda>(session_timeout_ms, buf).
      rbind (parse_if (v \<ge> 1) get_i32 session_timeout_ms buf) (\<lambda>(rebalance_timeout_ms, buf).
      rbind (parse_str compact buf) (\<lambda>(member_id, buf).
      rbind (parse_if (v \<ge> 5) (parse_nullable_str compact) None buf) (\<lambda>(_, buf).
      rbind (parse_str compact buf) (\<lambda>(protocol_type, buf).
      rbind (parse_items compact 48 (parse_member_protocol compact) buf) (\<lambda>(protocols, buf).
      rbind (parse_if (v \<ge> 8) parse_compact_nullable_string None buf) (\<lambda>(_, buf).
      rbind (parse_tags compact buf) (\<lambda>(_, buf).
        Ok (\<lparr>jr_group_id = group_id, jr_session_timeout_ms = session_timeout_ms, jr_rebalance_timeout_ms = rebalance_timeout_ms,
             jr_member_id = member_id, jr_protocol_type = protocol_type, jr_protocols = protocols\<rparr>, buf)))))))))))"

definition put_join_member :: "i16 \<Rightarrow> JoinGroupMember \<Rightarrow> bytes" where
  "put_join_member api_version m =
     (let compact = (sint api_version \<ge> 6) in
      put_str compact (bytes_of_string (jgm_member_id m)) @ put_if (sint api_version \<ge> 5) (put_nullable_str compact None)
      @ put_bytes compact (jgm_metadata m) @ put_tags compact)"

definition build_join_response :: "i16 \<Rightarrow> JoinGroupResult \<Rightarrow> bytes" where
  "build_join_response api_version r =
     (let v = sint api_version; compact = (v \<ge> 6) in
      put_if (v \<ge> 2) (put_i32 0) @ put_i16 (ErrorCode_as_i16 (jgr_error_code r)) @ put_i32 (jgr_generation_id r)
      @ (if compact then encode_compact_nullable_string (map_option bytes_of_string (jgr_protocol_type r))
             @ encode_compact_nullable_string (map_option bytes_of_string (jgr_protocol_name r))
         else encode_string (bytes_of_string (or_default (jgr_protocol_name r))))
      @ put_str compact (bytes_of_string (jgr_leader r)) @ put_if (v \<ge> 7) [0] @ put_str compact (bytes_of_string (jgr_member_id r))
      @ put_items compact (put_join_member api_version) (jgr_members r) @ put_tags compact)"

text \<open>The quota enforcer is asked for members without an identifier only.\<close>

definition handle_join_group ::
  "iteration \<Rightarrow> string \<Rightarrow> nat \<Rightarrow> bool \<Rightarrow> string \<Rightarrow> i16 \<Rightarrow> bytes option \<Rightarrow> bytes \<Rightarrow> GroupCoordinator \<Rightarrow> GroupCoordinator \<times> (KafkaError, bytes) result" where
  "handle_join_group it uuid now quota_denied org_id api_version client_id body groups =
     (case parse_join_request api_version body of
        Err e \<Rightarrow> (groups, Err e)
      | Panic \<Rightarrow> (groups, Panic)
      | Ok (r, _) \<Rightarrow>
          if jr_member_id r = [] \<and> quota_denied
          then (groups, Ok (build_join_response api_version (join_refused EC_GroupAuthorizationFailed [])))
          else (case join_group it uuid now groups org_id (string_of_bytes (jr_group_id r))
                  (if jr_member_id r = [] then None else Some (string_of_bytes (jr_member_id r)))
                  (case client_id of Some c \<Rightarrow> string_of_bytes c | None \<Rightarrow> ''unknown'') ''unknown''
                  (jr_session_timeout_ms r) (jr_rebalance_timeout_ms r) (string_of_bytes (jr_protocol_type r)) (jr_protocols r) of
                  (groups', result) \<Rightarrow> (groups', Ok (build_join_response api_version result))))"

section \<open>SyncGroup and Heartbeat\<close>

definition parse_assignment :: "bool \<Rightarrow> bytes \<Rightarrow> (KafkaError, SyncGroupAssignment \<times> bytes) result" where
  "parse_assignment compact buf =
     rbind (parse_str compact buf) (\<lambda>(member_id, buf).
     rbind (parse_bytes_or_default compact buf) (\<lambda>(assignment, buf).
     rbind (parse_tags compact buf) (\<lambda>(_, buf). Ok (\<lparr>sga_member_id = string_of_bytes member_id, sga_assignment = assignment\<rparr>, buf))))"

text \<open>The group, generation and member, which both requests begin with.\<close>

definition parse_member :: "i16 \<Rightarrow> bytes \<Rightarrow> (KafkaError, (bytes \<times> i32 \<times> bytes) \<times> bytes) result" where
  "parse_member api_version body =
     (let compact = (sint api_version \<ge> 4) in
      rbind (parse_str compact body) (\<lambda>(group_id, buf).
      rbind (get_i32 buf) (\<lambda>(generation_id, buf).
      rbind (parse_str compact buf) (\<lambda>(member_id, buf).
      rbind (parse_if (sint api_version \<ge> 3) (parse_nullable_str compact) None buf) (\<lambda>(_, buf). Ok ((group_id, generation_id, member_id), buf))))))"

definition parse_sync_request :: "i16 \<Rightarrow> bytes \<Rightarrow> (KafkaError, ((bytes \<times> i32 \<times> bytes) \<times> SyncGroupAssignment list) \<times> bytes) result" where
  "parse_sync_request api_version body =
     (let v = sint api_version; compact = (v \<ge> 4) in
      rbind (parse_member api_version body) (\<lambda>(member, buf).
      rbind (parse_if (v \<ge> 5) parse_compact_nullable_string None buf) (\<lambda>(_, buf).
      rbind (parse_if (v \<ge> 5) parse_compact_nullable_string None buf) (\<lambda>(_, buf).
      rbind (parse_items compact 48 (parse_assignment compact) buf) (\<lambda>(assignments, buf).
      rbind (parse_tags compact buf) (\<lambda>(_, buf). Ok ((member, assignments), buf)))))))"

definition build_sync_response :: "i16 \<Rightarrow> SyncGroupResult \<Rightarrow> bytes" where
  "build_sync_response api_version r =
     (let v = sint api_version; compact = (v \<ge> 4) in
      put_if (v \<ge> 1) (put_i32 0) @ put_i16 (ErrorCode_as_i16 (sgr_error_code r))
      @ put_if (v \<ge> 5) (encode_compact_nullable_string None @ encode_compact_nullable_string None)
      @ put_bytes compact (sgr_assignment r) @ put_tags compact)"

definition handle_sync_group :: "nat \<Rightarrow> string \<Rightarrow> i16 \<Rightarrow> bytes \<Rightarrow> GroupCoordinator \<Rightarrow> GroupCoordinator \<times> (KafkaError, bytes) result" where
  "handle_sync_group now org_id api_version body groups =
     (case parse_sync_request api_version body of
        Err e \<Rightarrow> (groups, Err e)
      | Panic \<Rightarrow> (groups, Panic)
      | Ok (((group_id, generation_id, member_id), assignments), _) \<Rightarrow>
          (case sync_group now groups org_id (string_of_bytes group_id) generation_id (string_of_bytes member_id) assignments of
             (groups', result) \<Rightarrow> (groups', Ok (build_sync_response api_version result))))"

definition handle_heartbeat :: "nat \<Rightarrow> string \<Rightarrow> i16 \<Rightarrow> bytes \<Rightarrow> GroupCoordinator \<Rightarrow> GroupCoordinator \<times> (KafkaError, bytes) result" where
  "handle_heartbeat now org_id api_version body groups =
     (let compact = (sint api_version \<ge> 4) in
      case rbind (parse_member api_version body) (\<lambda>(member, buf). rbind (parse_tags compact buf) (\<lambda>_. Ok member)) of
        Err e \<Rightarrow> (groups, Err e)
      | Panic \<Rightarrow> (groups, Panic)
      | Ok (group_id, generation_id, member_id) \<Rightarrow>
          (case heartbeat now groups org_id (string_of_bytes group_id) generation_id (string_of_bytes member_id) of
             (groups', code) \<Rightarrow> (groups', Ok (put_if (sint api_version \<ge> 1) (put_i32 0) @ put_i16 (ErrorCode_as_i16 code) @ put_tags compact))))"

section \<open>LeaveGroup\<close>

definition parse_leaving_member :: "i16 \<Rightarrow> bytes \<Rightarrow> (KafkaError, bytes \<times> bytes) result" where
  "parse_leaving_member api_version buf =
     (let compact = (sint api_version \<ge> 4) in
      rbind (parse_str compact buf) (\<lambda>(member_id, buf).
      rbind (parse_nullable_str compact buf) (\<lambda>(_, buf).
      rbind (parse_if (sint api_version \<ge> 5) parse_compact_nullable_string None buf) (\<lambda>(_, buf).
      rbind (parse_tags compact buf) (\<lambda>(_, buf). Ok (member_id, buf))))))"

definition parse_leave_request :: "i16 \<Rightarrow> bytes \<Rightarrow> (KafkaError, (bytes \<times> bytes list) \<times> bytes) result" where
  "parse_leave_request api_version body =
     (let compact = (sint api_version \<ge> 4) in
      rbind (parse_str compact body) (\<lambda>(group_id, buf).
      if sint api_version \<ge> 3
      then rbind (parse_items compact 24 (parse_leaving_member api_version) buf) (\<lambda>(members, buf).
           rbind (parse_tags compact buf) (\<lambda>(_, buf). Ok ((group_id, members), buf)))
      else rbind (parse_string buf) (\<lambda>(member_id, buf). Ok ((group_id, [member_id]), buf))))"

fun leave_members ::
  "iteration \<Rightarrow> (nat \<Rightarrow> nat) \<Rightarrow> string \<Rightarrow> bytes \<Rightarrow> nat \<Rightarrow> bytes list \<Rightarrow> GroupCoordinator \<Rightarrow> GroupCoordinator \<times> (bytes \<times> ErrorCode) list" where
  "leave_members it now org_id group_id i [] groups = (groups, [])"
| "leave_members it now org_id group_id i (m # ms) groups =
     (let (groups1, code) = leave_group it (now i) groups org_id (string_of_bytes group_id) (string_of_bytes m);
          (groups2, rest) = leave_members it now org_id group_id (Suc i) ms groups1
      in (groups2, (m, code) # rest))"

definition build_leave_response :: "i16 \<Rightarrow> (bytes \<times> ErrorCode) list \<Rightarrow> bytes" where
  "build_leave_response api_version members =
     (let v = sint api_version; compact = (v \<ge> 4) in
      if v \<ge> 3
      then put_i32 0 @ put_i16 (ErrorCode_as_i16 EC_None)
        @ put_items compact (\<lambda>(m, code). put_str compact m @ put_nullable_str compact None @ put_i16 (ErrorCode_as_i16 code) @ put_tags compact) members
        @ put_tags compact
      else put_if (v \<ge> 1) (put_i32 0) @ put_i16 (ErrorCode_as_i16 (case members of [] \<Rightarrow> EC_None | (_, code) # _ \<Rightarrow> code)))"

definition handle_leave_group ::
  "iteration \<Rightarrow> (nat \<Rightarrow> nat) \<Rightarrow> string \<Rightarrow> i16 \<Rightarrow> bytes \<Rightarrow> GroupCoordinator \<Rightarrow> GroupCoordinator \<times> (KafkaError, bytes) result" where
  "handle_leave_group it now org_id api_version body groups =
     (case parse_leave_request api_version body of
        Err e \<Rightarrow> (groups, Err e)
      | Panic \<Rightarrow> (groups, Panic)
      | Ok ((group_id, members), _) \<Rightarrow>
          (let (groups', rs) = leave_members it now org_id group_id 0 members groups in (groups', Ok (build_leave_response api_version rs))))"

section \<open>DescribeGroups and ListGroups\<close>

definition put_described_member :: "i16 \<Rightarrow> DescribeGroupMember \<Rightarrow> bytes" where
  "put_described_member api_version m =
     (let compact = (sint api_version \<ge> 5) in
      put_str compact (bytes_of_string (dgm_member_id m)) @ put_if (sint api_version \<ge> 4) (put_nullable_str compact None)
      @ put_str compact (bytes_of_string (dgm_client_id m)) @ put_str compact (bytes_of_string (dgm_client_host m))
      @ put_bytes compact (dgm_member_metadata m) @ put_bytes compact (dgm_member_assignment m) @ put_tags compact)"

definition put_described_group :: "i16 \<Rightarrow> bytes \<times> DescribeGroupResult option \<Rightarrow> bytes" where
  "put_described_group api_version = (\<lambda>(group_id, result).
     let compact = (sint api_version \<ge> 5) in
     (case result of
        Some r \<Rightarrow> put_i16 (ErrorCode_as_i16 (dgr_error_code r)) @ put_str compact (bytes_of_string (dgr_group_id r)) @ put_str compact (bytes_of_string (dgr_state r))
          @ put_str compact (bytes_of_string (dgr_protocol_type r)) @ put_str compact (bytes_of_string (dgr_protocol r))
          @ put_items compact (put_described_member api_version) (dgr_members r)
      | None \<Rightarrow> put_i16 (ErrorCode_as_i16 EC_GroupIdNotFound) @ put_str compact group_id @ put_str compact (bytes_of_string ''Dead'')
          @ put_str compact [] @ put_str compact [] @ put_items compact (put_described_member api_version) [])
     @ put_if (sint api_version \<ge> 3) (put_i32 (- 2147483648)) @ put_tags compact)"

definition handle_describe_groups :: "iteration \<Rightarrow> string \<Rightarrow> i16 \<Rightarrow> bytes \<Rightarrow> GroupCoordinator \<Rightarrow> (KafkaError, bytes) result" where
  "handle_describe_groups it org_id api_version body groups =
     (let v = sint api_version; compact = (v \<ge> 5) in
      rbind (parse_items compact 24 (\<lambda>b. rbind (parse_str compact b) (\<lambda>(g, b). rbind (parse_tags compact b) (\<lambda>(_, b). Ok (g, b)))) body) (\<lambda>(ids, buf).
      rbind (parse_if compact get_i8 0 buf) (\<lambda>(_, buf).
      rbind (parse_tags compact buf) (\<lambda>_.
        Ok (put_if (v \<ge> 1) (put_i32 0)
          @ put_items compact (put_described_group api_version) (map (\<lambda>g. (g, describe_group it groups org_id (string_of_bytes g))) ids) @ put_tags compact)))))"

definition put_listed_group :: "bool \<Rightarrow> ListGroupResult \<Rightarrow> bytes" where
  "put_listed_group compact g =
     put_str compact (bytes_of_string (lgr_group_id g)) @ put_str compact (bytes_of_string (lgr_protocol_type g))
     @ put_if compact (put_str compact (bytes_of_string (lgr_group_state g))) @ put_tags compact"

definition handle_list_groups :: "iteration \<Rightarrow> string \<Rightarrow> i16 \<Rightarrow> bytes \<Rightarrow> GroupCoordinator \<Rightarrow> (KafkaError, bytes) result" where
  "handle_list_groups it org_id api_version body groups =
     (let v = sint api_version; compact = (v \<ge> 4) in
      rbind (if compact
             then rbind (parse_compact_array 24 (\<lambda>b. rbind (parse_compact_string b) (\<lambda>(s, b). rbind (skip_tagged_fields b) (\<lambda>(_, b). Ok (s, b)))) body) (\<lambda>(_, buf).
                  rbind (skip_tagged_fields buf) (\<lambda>_. Ok ()))
             else Ok ()) (\<lambda>_.
        Ok (put_if (v \<ge> 1) (put_i32 0) @ put_i16 (ErrorCode_as_i16 EC_None)
          @ put_items compact (put_listed_group compact) (list_groups it groups org_id) @ put_tags compact)))"

end
