(* ===== verification/Kafka_Topic_Handlers.thy ===== *)
theory Kafka_Topic_Handlers
  imports Kafka_Group_Handlers
begin

text \<open>
  Request handlers of the Kafka server for topics, \<^verbatim>\<open>topics.rs\<close>, \<^verbatim>\<open>metadata.rs\<close> and \<^verbatim>\<open>api_versions.rs\<close> of \<^verbatim>\<open>streamhouse-kafka/src/handlers\<close>, over the topic tables.
  The answers of the quota enforcer, the clock, failing statements and the text of a database error are arguments.
\<close>

section \<open>Error texts\<close>

text \<open>The handlers tell errors of the store apart by their texts; \<open>db_text\<close> is that of the database library.\<close>

fun metadata_error_text :: "string \<Rightarrow> metadata_error \<Rightarrow> string" where
  "metadata_error_text db_text (TopicNotFound n) = ''Topic not found: '' @ n"
| "metadata_error_text db_text (TopicAlreadyExists n) = ''Topic already exists: '' @ n"
| "metadata_error_text db_text (PartitionNotFound t p) = ''Partition not found: '' @ t @ ''/'' @ show_nat (unat p)"
| "metadata_error_text db_text (NotFoundError m) = ''Not found: '' @ m"
| "metadata_error_text db_text (ConflictError m) = ''Conflict: '' @ m"
| "metadata_error_text db_text DatabaseError = ''Database error: '' @ db_text"
| "metadata_error_text db_text (InvalidOffset m) = ''Invalid offset: '' @ m"
| "metadata_error_text db_text SerializationError = ''Serialization error: '' @ db_text"
| "metadata_error_text db_text (MigrationError m) = ''Migration error: '' @ m"
| "metadata_error_text db_text (AuthenticationError m) = ''Authentication error: '' @ m"
| "metadata_error_text db_text (AuthorizationError m) = ''Authorization error: '' @ m"
| "metadata_error_text db_text (QuotaExceeded m) = ''Quota exceeded: '' @ m"
| "metadata_error_text db_text (SequenceError m) = ''Sequence error: '' @ m"
| "metadata_error_text db_text (InternalError m) = ''Internal error: '' @ m"
| "metadata_error_text db_text (TransactionError m) = ''Transaction error: '' @ m"
| "metadata_error_text db_text (ProducerFenced m) = ''Producer fenced: '' @ m"
| "metadata_error_text db_text (NotImplemented m) = ''Not implemented: '' @ m"

definition contains_text :: "string \<Rightarrow> string \<Rightarrow> bool" where
  "contains_text p s \<longleftrightarrow> (\<exists>n \<in> {0..length s}. take (length p) (drop n s) = p)"

section \<open>CreateTopics\<close>

record CreateTopicRequest =
  ctq_name :: bytes
  ctq_num_partitions :: i32
  ctq_replication_factor :: i16

record CreateTopicResponse =
  ctr_name :: bytes
  ctr_error_code :: ErrorCode
  ctr_error_message :: "bytes option"
  ctr_num_partitions :: i32
  ctr_replication_factor :: i16

record create_env =
  ct_quota :: "u32 \<Rightarrow> topic_db \<Rightarrow> string option"
  ct_fails :: bool
  ct_now :: int
  ct_db_text :: string

definition kafka_create_topic :: "create_env \<Rightarrow> string \<Rightarrow> CreateTopicRequest \<Rightarrow> topic_db \<Rightarrow> topic_db \<times> CreateTopicResponse" where
  "kafka_create_topic env org_id request db =
     (let num_partitions = (if sint (ctq_num_partitions request) \<le> 0 then 1 else ctq_num_partitions request);
          refused = (\<lambda>code text. \<lparr>ctr_name = ctq_name request, ctr_error_code = code, ctr_error_message = Some (bytes_of_string text),
            ctr_num_partitions = - 1, ctr_replication_factor = - 1\<rparr>)
      in case ct_quota env num_partitions db of
           Some reason \<Rightarrow> (db, refused EC_PolicyViolation reason)
         | None \<Rightarrow>
             (case create_topic_for_org (ct_fails env) (ct_now env) org_id \<lparr>tc_name = string_of_bytes (ctq_name request), tc_partition_count = num_partitions,
                     tc_retention_ms = None, tc_cleanup_policy = DeletePolicy, tc_config = Map.empty\<rparr> db of
                (db', Ok _) \<Rightarrow> (db', \<lparr>ctr_name = ctq_name request, ctr_error_code = EC_None, ctr_error_message = None,
                   ctr_num_partitions = num_partitions, ctr_replication_factor = 1\<rparr>)
              | (db', Err e) \<Rightarrow>
                  (let text = metadata_error_text (ct_db_text env) e
                   in (db', refused (if contains_text ''already exists'' text then EC_TopicAlreadyExists else EC_UnknownServerError) text))
              | (db', Panic) \<Rightarrow> (db', refused EC_UnknownServerError [])))"

fun create_topics :: "(nat \<Rightarrow> create_env) \<Rightarrow> bool \<Rightarrow> string \<Rightarrow> nat \<Rightarrow> CreateTopicRequest list \<Rightarrow> topic_db \<Rightarrow> topic_db \<times> CreateTopicResponse list" where
  "create_topics env validate_only org_id i [] db = (db, [])"
| "create_topics env validate_only org_id i (r # rs) db =
     (let (db1, response) = (if validate_only
            then (db, \<lparr>ctr_name = ctq_name r, ctr_error_code = EC_None, ctr_error_message = None, ctr_num_partitions = ctq_num_partitions r,
                    ctr_replication_factor = ctq_replication_factor r\<rparr>)
            else kafka_create_topic (env i) org_id r db);
          (db2, rest) = create_topics env validate_only org_id (Suc i) rs db1
      in (db2, response # rest))"

definition parse_replica_assignment :: "bool \<Rightarrow> bytes \<Rightarrow> (KafkaError, (i32 \<times> i32 list) \<times> bytes) result" where
  "parse_replica_assignment compact buf =
     rbind (get_i32 buf) (\<lambda>(partition_index, buf).
     rbind (parse_items compact 4 get_i32 buf) (\<lambda>(broker_ids, buf).
     rbind (parse_tags compact buf) (\<lambda>(_, buf). Ok ((partition_index, broker_ids), buf))))"

definition parse_topic_config :: "bool \<Rightarrow> bytes \<Rightarrow> (KafkaError, (bytes \<times> bytes option) \<times> bytes) result" where
  "parse_topic_config compact buf =
     rbind (parse_str compact buf) (\<lambda>(key, buf).
     rbind (parse_nullable_str compact buf) (\<lambda>(val, buf).
     rbind (parse_tags compact buf) (\<lambda>(_, buf). Ok ((key, val), buf))))"

definition parse_new_topic :: "bool \<Rightarrow> bytes \<Rightarrow> (KafkaError, CreateTopicRequest \<times> bytes) result" where
  "parse_new_topic compact buf =
     rbind (parse_str compact buf) (\<lambda>(name, buf).
     rbind (get_i32 buf) (\<lambda>(num_partitions, buf).
     rbind (get_i16 buf) (\<lambda>(replication_factor, buf).
     rbind (parse_items compact 32 (parse_replica_assignment compact) buf) (\<lambda>(_, buf).
     rbind (parse_items compact 48 (parse_topic_config compact) buf) (\<lambda>(_, buf).
     rbind (parse_tags compact buf) (\<lambda>(_, buf).
       Ok (\<lparr>ctq_name = name, ctq_num_partitions = num_partitions, ctq_replication_factor = replication_factor\<rparr>, buf)))))))"

definition parse_create_request :: "i16 \<Rightarrow> bytes \<Rightarrow> (KafkaError, (CreateTopicRequest list \<times> bool) \<times> bytes) result" where
  "parse_create_request api_version body =
     (let compact = (sint api_version \<ge> 5) in
      rbind (parse_items compact 32 (parse_new_topic compact) body) (\<lambda>(topics, buf).
      rbind (get_i32 buf) (\<lambda>(_, buf).
      rbind (parse_if (sint api_version \<ge> 1) get_i8 0 buf) (\<lambda>(validate_only, buf).
      rbind (parse_tags compact buf) (\<lambda>(_, buf). Ok ((topics, validate_only \<noteq> 0), buf))))))"

abbreviation zero_uuid :: bytes where "zero_uuid \<equiv> replicate 16 0"

definition put_created_topic :: "i16 \<Rightarrow> CreateTopicResponse \<Rightarrow> bytes" where
  "put_created_topic api_version t =
     (let v = sint api_version; compact = (v \<ge> 5) in
      put_str compact (ctr_name t) @ put_if (v \<ge> 7) zero_uuid @ put_i16 (ErrorCode_as_i16 (ctr_error_code t))
      @ put_if (v \<ge> 1) (put_nullable_str compact (ctr_error_message t))
      @ put_if compact (put_i32 (ctr_num_partitions t) @ put_i16 (ctr_replication_factor t) @ encode_unsigned_varint 1) @ put_tags compact)"

definition handle_create_topics :: "(nat \<Rightarrow> create_env) \<Rightarrow> string \<Rightarrow> i16 \<Rightarrow> bytes \<Rightarrow> topic_db \<Rightarrow> topic_db \<times> (KafkaError, bytes) result" where
  "handle_create_topics env org_id api_version body db =
     (let v = sint api_version; compact = (v \<ge> 5) in
      case parse_create_request api_version body of
        Err e \<Rightarrow> (db, Err e)
      | Panic \<Rightarrow> (db, Panic)
      | Ok ((topics, validate_only), _) \<Rightarrow>
          (let (db', rs) = create_topics env validate_only org_id 0 topics db
           in (db', Ok (put_if (v \<ge> 2) (put_i32 0) @ put_items compact (put_created_topic api_version) rs @ put_tags compact))))"

section \<open>DeleteTopics\<close>

definition parse_deleted_topic :: "i16 \<Rightarrow> bytes \<Rightarrow> (KafkaError, bytes option \<times> bytes) result" where
  "parse_deleted_topic api_version buf =
     (let v = sint api_version; compact = (v \<ge> 4) in
      rbind (if v \<ge> 6 then parse_compact_nullable_string buf else rbind (parse_str compact buf) (\<lambda>(s, buf). Ok (Some s, buf))) (\<lambda>(name, buf).
      rbind (parse_if (v \<ge> 6) (get_bytes 16) [] buf) (\<lambda>(_, buf).
      rbind (parse_tags compact buf) (\<lambda>(_, buf). Ok (name, buf)))))"

fun kafka_delete_topics :: "(nat \<Rightarrow> bool) \<Rightarrow> string \<Rightarrow> string \<Rightarrow> nat \<Rightarrow> bytes list \<Rightarrow> topic_db \<Rightarrow> topic_db \<times> (bytes \<times> ErrorCode) list" where
  "kafka_delete_topics fails db_text org_id i [] db = (db, [])"
| "kafka_delete_topics fails db_text org_id i (name # names) db =
     (let (db1, r) = delete_topic_for_org (fails i) org_id (string_of_bytes name) db;
          code = (case r of Ok _ \<Rightarrow> EC_None
            | Err e \<Rightarrow> if contains_text ''not found'' (metadata_error_text db_text e) then EC_UnknownTopicOrPartition else EC_UnknownServerError
            | Panic \<Rightarrow> EC_UnknownServerError);
          (db2, rest) = kafka_delete_topics fails db_text org_id (Suc i) names db1
      in (db2, (name, code) # rest))"

definition put_deleted_topic :: "i16 \<Rightarrow> bytes \<times> ErrorCode \<Rightarrow> bytes" where
  "put_deleted_topic api_version = (\<lambda>(name, code).
     let v = sint api_version; compact = (v \<ge> 4) in
     (if compact then encode_compact_nullable_string (Some name) else encode_string name) @ put_if (v \<ge> 6) zero_uuid @ put_i16 (ErrorCode_as_i16 code)
     @ put_if compact (encode_compact_nullable_string None) @ put_tags compact)"

definition handle_delete_topics :: "(nat \<Rightarrow> bool) \<Rightarrow> string \<Rightarrow> string \<Rightarrow> i16 \<Rightarrow> bytes \<Rightarrow> topic_db \<Rightarrow> topic_db \<times> (KafkaError, bytes) result" where
  "handle_delete_topics fails db_text org_id api_version body db =
     (let v = sint api_version; compact = (v \<ge> 4) in
      case rbind (parse_items compact 24 (parse_deleted_topic api_version) body) (\<lambda>(topics, buf).
           rbind (get_i32 buf) (\<lambda>(_, buf). rbind (parse_tags compact buf) (\<lambda>_. Ok topics))) of
        Err e \<Rightarrow> (db, Err e)
      | Panic \<Rightarrow> (db, Panic)
      | Ok topics \<Rightarrow>
          (let (db', rs) = kafka_delete_topics fails db_text org_id 0 (List.map_filter (\<lambda>x. x) topics) db
           in (db', Ok (put_if (v \<ge> 1) (put_i32 0) @ put_items compact (put_deleted_topic api_version) rs @ put_tags compact))))"

section \<open>Metadata\<close>

definition parse_metadata_name :: "i16 \<Rightarrow> bytes \<Rightarrow> (KafkaError, bytes \<times> bytes) result" where
  "parse_metadata_name api_version buf =
     (if sint api_version \<ge> 1
      then rbind (parse_nullable_str (sint api_version \<ge> 9) buf) (\<lambda>(s, buf). Ok (or_default s, buf))
      else rbind (get_i16 buf) (\<lambda>(len, buf).
           rbind (get_bytes (unat (scast len :: u64)) buf) (\<lambda>(bs, buf). Ok (if utf8_valid bs then bs else [], buf))))"

definition parse_metadata_request :: "i16 \<Rightarrow> bytes \<Rightarrow> (KafkaError, (bytes list \<times> bool) \<times> bytes) result" where
  "parse_metadata_request api_version body =
     (let v = sint api_version; compact = (v \<ge> 9) in
      rbind (parse_items compact 24 (parse_metadata_name api_version) body) (\<lambda>(topics, buf).
      rbind (parse_if (v \<ge> 4 \<and> length buf \<ge> 1) get_i8 1 buf) (\<lambda>(allow_auto, buf).
      rbind (parse_tags compact buf) (\<lambda>(_, buf). Ok ((topics, allow_auto \<noteq> 0), buf)))))"

record metadata_env =
  me_list_fails :: "string option"
  me_create_fails :: "nat \<Rightarrow> bool"
  me_refresh_fails :: "nat \<Rightarrow> bool"
  me_now :: int

fun auto_create :: "metadata_env \<Rightarrow> string \<Rightarrow> nat \<Rightarrow> bytes list \<Rightarrow> topic_db \<times> Topic list \<Rightarrow> topic_db \<times> Topic list" where
  "auto_create env org_id i [] s = s"
| "auto_create env org_id i (name # names) (db, all_topics) =
     auto_create env org_id (Suc i) names
       (if \<exists>t \<in> set all_topics. to_name t = string_of_bytes name then (db, all_topics)
        else case create_topic_for_org (me_create_fails env i) (me_now env) org_id \<lparr>tc_name = string_of_bytes name, tc_partition_count = 1,
                    tc_retention_ms = None, tc_cleanup_policy = DeletePolicy, tc_config = Map.empty\<rparr> db of
          (db', Ok _) \<Rightarrow> (db', if me_refresh_fails env i then all_topics else list_topics_for_org org_id db')
        | (db', _) \<Rightarrow> (db', all_topics))"

definition put_metadata_partition :: "KafkaServerConfig \<Rightarrow> i16 \<Rightarrow> nat \<Rightarrow> bytes" where
  "put_metadata_partition cfg api_version p =
     (let v = sint api_version; compact = (v \<ge> 9); node = put_items compact put_i32 [ks_node_id cfg] in
      put_i16 (ErrorCode_as_i16 EC_None) @ put_i32 (of_nat p) @ put_i32 (ks_node_id cfg) @ put_if (v \<ge> 7) (put_i32 0) @ node @ node
      @ put_if (v \<ge> 5) (put_items compact put_i32 []) @ put_tags compact)"

definition put_metadata_topic :: "KafkaServerConfig \<Rightarrow> i16 \<Rightarrow> ErrorCode \<times> bytes \<times> u32 \<Rightarrow> bytes" where
  "put_metadata_topic cfg api_version = (\<lambda>(code, name, partition_count).
     let v = sint api_version; compact = (v \<ge> 9) in
     put_i16 (ErrorCode_as_i16 code) @ put_str compact name @ put_if (v \<ge> 10) zero_uuid @ put_if (v \<ge> 1) [0]
     @ (if compact then encode_unsigned_varint (ucast (partition_count + 1)) else put_i32 partition_count)
     @ concat (map (put_metadata_partition cfg api_version) [0 ..< unat partition_count])
     @ put_if (v \<ge> 8) (put_i32 (- 2147483648)) @ put_tags compact)"

text \<open>In the compact protocol the count of topics leaves out the unknown ones, which are written all the same.\<close>

definition build_metadata_response :: "KafkaServerConfig \<Rightarrow> i16 \<Rightarrow> (bytes \<times> u32) list \<Rightarrow> bytes list \<Rightarrow> bytes" where
  "build_metadata_response cfg api_version found unknown =
     (let v = sint api_version; compact = (v \<ge> 9);
          broker = put_i32 (ks_node_id cfg) @ put_str compact (ks_advertised_host cfg) @ put_i32 (ks_advertised_port cfg)
            @ put_if (v \<ge> 1) (put_nullable_str compact None) @ put_tags compact
      in put_if (v \<ge> 3) (put_i32 0) @ put_items compact (\<lambda>b. b) [broker]
         @ put_if (v \<ge> 2) (put_nullable_str compact (Some (bytes_of_string ''streamhouse''))) @ put_if (v \<ge> 1) (put_i32 (ks_node_id cfg))
         @ (if compact then encode_unsigned_varint (of_nat (length found + 1)) else put_i32 (of_nat (length found + length unknown)))
         @ concat (map (\<lambda>(name, n). put_metadata_topic cfg api_version (EC_None, name, n)) found)
         @ concat (map (\<lambda>name. put_metadata_topic cfg api_version (EC_UnknownTopicOrPartition, name, 0)) unknown)
         @ put_if (v \<ge> 8) (put_i32 (- 2147483648)) @ put_tags compact)"

text \<open>An empty request asks for every topic.\<close>

definition describe_topics :: "KafkaServerConfig \<Rightarrow> i16 \<Rightarrow> bytes list \<Rightarrow> Topic list \<Rightarrow> bytes" where
  "describe_topics cfg api_version topics all_topics =
     (let requested = (if topics = [] then all_topics else filter (\<lambda>t. to_name t \<in> string_of_bytes ` set topics) all_topics);
          unknown = filter (\<lambda>name. string_of_bytes name \<notin> to_name ` set requested) topics
      in build_metadata_response cfg api_version (map (\<lambda>t. (bytes_of_string (to_name t), to_partition_count t)) requested) unknown)"

definition handle_metadata ::
  "metadata_env \<Rightarrow> KafkaServerConfig \<Rightarrow> string \<Rightarrow> i16 \<Rightarrow> bytes \<Rightarrow> topic_db \<Rightarrow> topic_db \<times> (KafkaError, bytes) result" where
  "handle_metadata env cfg org_id api_version body db =
     (case parse_metadata_request api_version body of
        Err e \<Rightarrow> (db, Err e)
      | Panic \<Rightarrow> (db, Panic)
      | Ok ((topics, allow_auto), _) \<Rightarrow>
          (case me_list_fails env of Some text \<Rightarrow> (db, Err (KafkaError.MetadataStore text))
           | None \<Rightarrow> let (db', all_topics) = (if allow_auto \<and> topics \<noteq> [] then auto_create env org_id 0 topics (db, list_topics_for_org org_id db)
                     else (db, list_topics_for_org org_id db))
               in (db', Ok (describe_topics cfg api_version topics all_topics))))"

section \<open>ApiVersions\<close>

definition handle_api_versions :: "i16 \<Rightarrow> bytes" where
  "handle_api_versions api_version =
     (let v = sint api_version; compact = (v \<ge> 3) in
      put_i16 (ErrorCode_as_i16 EC_None)
      @ put_items compact (\<lambda>a. put_i16 (avr_api_key a) @ put_i16 (avr_min_version a) @ put_i16 (avr_max_version a) @ put_tags compact) supported_api_versions
      @ put_if (v \<ge> 1) (put_i32 0) @ put_tags compact)"

end
