(* ===== verification/Kafka_Topic_Properties.thy ===== *)
theory Kafka_Topic_Properties
  imports Kafka_Topic_Handlers Kafka_Offset_Properties
begin

text \<open>
  What metadata requests do to the topics of an organization. In the versions that clients use without tagged fields the requested topics are created and all of them
  are described; from version 9 on the handler reads the tagged fields after a name as the flag that allows this, and it announces fewer topics than it writes.
\<close>

section \<open>Requests\<close>

text \<open>The body a client of the protocol sends, versions 4 to 9. From version 9 on a topic ends with tagged fields; since version 8 two more flags follow.\<close>

definition metadata_request :: "i16 \<Rightarrow> bytes list \<Rightarrow> bool \<Rightarrow> bytes" where
  "metadata_request v names allow_auto =
     (let compact = (sint v \<ge> 9) in
      put_items compact (\<lambda>name. put_nullable_str compact (Some name) @ put_tags compact) names
      @ [if allow_auto then 1 else 0] @ put_if (sint v \<ge> 8) [0, 0] @ put_tags compact)"

lemma byte_be: "be_bytes 1 (b :: 8 word) = [b]"
  by (simp add: be_bytes_def)

lemma get_i8_byte: "get_i8 (b # rest) = Ok (b, rest)"
  using get_be_put [where 'a = 8 and n = 1 and w = b and rest = rest] unfolding byte_be get_i8_def by simp

lemma parse_legacy_metadata:
  assumes "4 \<le> sint v" "sint v \<le> 8" and "length names < 2 ^ 31" and "\<forall>n \<in> set names. short_string n"
  shows "parse_metadata_request v (metadata_request v names allow_auto) = Ok ((names, allow_auto), if sint v \<ge> 8 then [0, 0] else [])"
proof -
  have "parse_items False 24 (parse_metadata_name v) (put_items False (\<lambda>name. put_nullable_str False (Some name) @ put_tags False) names @ rest) = Ok (names, rest)" for rest
    using assms by (intro parse_items_enc) (auto simp: parse_metadata_name_def put_tags_def parse_nullable_str_enc or_default_def)
  moreover have "\<not> 9 \<le> sint v" using assms(2) by simp
  ultimately show ?thesis using assms(1,2)
    by (simp add: parse_metadata_request_def metadata_request_def Let_def parse_if_def get_i8_byte parse_tags_def put_tags_def put_if_def)
qed

lemma bytes_of_string_of_bytes [simp]: "bytes_of_string (string_of_bytes bs) = bs"
proof -
  have "of_char (char_of (unat b)) = (b :: 8 word)" for b
  proof -
    have "of_char (char_of (unat b)) = (of_nat (of_char (char_of (unat b))) :: 8 word)" by (rule of_nat_of_char [symmetric])
    also have "of_char (char_of (unat b)) = unat b" using unsigned_less [where 'a = nat and w = b] by simp
    finally show ?thesis by simp
  qed
  then show ?thesis by (simp add: bytes_of_string_def string_of_bytes_def comp_def)
qed

section \<open>Automatic creation\<close>

definition metadata_undisturbed :: "metadata_env \<Rightarrow> bool" where
  "metadata_undisturbed env \<longleftrightarrow> me_list_fails env = None \<and> (\<forall>i. \<not> me_create_fails env i \<and> \<not> me_refresh_fails env i)"

definition topic_names :: "string \<Rightarrow> topic_db \<Rightarrow> string set" where
  "topic_names org db = {tr_name t |t. (org, t) \<in> set (td_topics db)}"

lemma image_filter_subset: "W \<subseteq> f ` set xs \<Longrightarrow> f ` set (filter (\<lambda>x. f x \<in> W) xs) = W"
  by auto

lemma listed_names: "to_name ` set (list_topics_for_org org db) = topic_names org db"
  by (force simp: list_topics_for_org_def topic_names_def row_to_topic_def)

text \<open>The rows that requests add: one partition, a requested name, none that the organization had before.\<close>

definition new_topics :: "string \<Rightarrow> string set \<Rightarrow> topic_db \<Rightarrow> topic_row list \<Rightarrow> topic_db \<Rightarrow> bool" where
  "new_topics org wanted db ts db' \<longleftrightarrow> td_topics db' = td_topics db @ map (Pair org) ts \<and> organization_ids db' = organization_ids db
     \<and> distinct (map tr_name ts) \<and> (\<forall>t \<in> set ts. tr_partition_count t = 1 \<and> tr_name t \<in> wanted - topic_names org db)"

lemma new_topics_names: "new_topics org wanted db ts db' \<Longrightarrow> topic_names org db' = topic_names org db \<union> tr_name ` set ts"
  by (auto simp: new_topics_def topic_names_def)

lemma auto_create_step:
  assumes "metadata_undisturbed env" and "org \<in> set (organization_ids db)" and "string_of_bytes n \<notin> topic_names org db"
  shows "\<exists>t db'. create_topic_for_org (me_create_fails env i) (me_now env) org \<lparr>tc_name = string_of_bytes n, tc_partition_count = 1,
       tc_retention_ms = None, tc_cleanup_policy = DeletePolicy, tc_config = Map.empty\<rparr> db = (db', Ok ())
     \<and> tr_name t = string_of_bytes n \<and> new_topics org {string_of_bytes n} db [t] db'"
  using assms by (auto simp: create_topic_for_org_def insert_topic_def metadata_undisturbed_def new_topics_def topic_names_def)

lemma auto_create_all:
  assumes "metadata_undisturbed env" and "org \<in> set (organization_ids db)"
  shows "\<exists>ts db'. auto_create env org i names (db, list_topics_for_org org db) = (db', list_topics_for_org org db')
     \<and> new_topics org (string_of_bytes ` set names) db ts db' \<and> string_of_bytes ` set names \<subseteq> topic_names org db'"
  using assms(2)
proof (induction names arbitrary: i db)
  case Nil
  then show ?case by (auto simp: new_topics_def intro!: exI [of _ "[]"])
next
  case (Cons n names)
  have known: "(\<exists>t \<in> set (list_topics_for_org org db). to_name t = string_of_bytes n) \<longleftrightarrow> string_of_bytes n \<in> topic_names org db"
    unfolding listed_names [symmetric] by force
  show ?case
  proof (cases "string_of_bytes n \<in> topic_names org db")
    case True
    then obtain ts db' where IH: "auto_create env org (Suc i) names (db, list_topics_for_org org db) = (db', list_topics_for_org org db')"
      "new_topics org (string_of_bytes ` set names) db ts db'" "string_of_bytes ` set names \<subseteq> topic_names org db'"
      using Cons.IH [OF Cons.prems] by blast
    then show ?thesis using True new_topics_names [OF IH(2)] by (auto simp: known new_topics_def)
  next
    case False
    obtain t db1 where s: "create_topic_for_org (me_create_fails env i) (me_now env) org \<lparr>tc_name = string_of_bytes n, tc_partition_count = 1,
       tc_retention_ms = None, tc_cleanup_policy = DeletePolicy, tc_config = Map.empty\<rparr> db = (db1, Ok ())"
      "tr_name t = string_of_bytes n" "new_topics org {string_of_bytes n} db [t] db1"
      using auto_create_step [OF assms(1) Cons.prems False] by blast
    then have "org \<in> set (organization_ids db1)" using Cons.prems by (simp add: new_topics_def)
    from Cons.IH [OF this] obtain ts db' where IH: "auto_create env org (Suc i) names (db1, list_topics_for_org org db1) = (db', list_topics_for_org org db')"
      "new_topics org (string_of_bytes ` set names) db1 ts db'" "string_of_bytes ` set names \<subseteq> topic_names org db'" by blast
    have "new_topics org (string_of_bytes ` set (n # names)) db (t # ts) db'"
      using s(2,3) IH(2) new_topics_names [OF s(3)] by (auto simp: new_topics_def)
    moreover have "string_of_bytes n \<in> topic_names org db'" using new_topics_names [OF IH(2)] new_topics_names [OF s(3)] s(2) by simp
    ultimately show ?thesis using IH s(1) False assms(1) by (auto simp: known metadata_undisturbed_def)
  qed
qed

lemma described_topics:
  assumes "names \<noteq> []" and "string_of_bytes ` set names \<subseteq> to_name ` set topics"
  shows "\<exists>found. describe_topics cfg v names topics = build_metadata_response cfg v found [] \<and> fst ` set found = set names"
proof -
  let ?req = "filter (\<lambda>t. to_name t \<in> string_of_bytes ` set names) topics"
  have req: "to_name ` set ?req = string_of_bytes ` set names" using assms(2) by (rule image_filter_subset)
  have "fst ` set (map (\<lambda>t. (bytes_of_string (to_name t), to_partition_count t)) ?req) = bytes_of_string ` (to_name ` set ?req)" by force
  then have "fst ` set (map (\<lambda>t. (bytes_of_string (to_name t), to_partition_count t)) ?req) = set names"
    unfolding req by (simp add: image_image)
  moreover have "filter (\<lambda>name. string_of_bytes name \<notin> to_name ` set ?req) names = []" unfolding req by (simp add: filter_empty_conv)
  ultimately show ?thesis using assms(1) unfolding describe_topics_def Let_def
    by (intro exI [of _ "map (\<lambda>t. (bytes_of_string (to_name t), to_partition_count t)) ?req"]) simp
qed

lemma metadata_effect:
  assumes "4 \<le> sint v" "sint v \<le> 8" and "length names < 2 ^ 31" and "\<forall>n \<in> set names. short_string n" and "names \<noteq> []"
    and "metadata_undisturbed env" and "org \<in> set (organization_ids db)"
  shows "\<exists>ts found db'. handle_metadata env cfg org v (metadata_request v names True) db = (db', Ok (build_metadata_response cfg v found []))
    \<and> new_topics org (string_of_bytes ` set names) db ts db' \<and> string_of_bytes ` set names \<subseteq> topic_names org db' \<and> fst ` set found = set names"
proof -
  obtain ts db' where a: "auto_create env org 0 names (db, list_topics_for_org org db) = (db', list_topics_for_org org db')"
    "new_topics org (string_of_bytes ` set names) db ts db'" "string_of_bytes ` set names \<subseteq> topic_names org db'"
    using auto_create_all [OF assms(6,7)] by blast
  obtain found where f: "describe_topics cfg v names (list_topics_for_org org db') = build_metadata_response cfg v found []" "fst ` set found = set names"
    using described_topics [OF assms(5), of "list_topics_for_org org db'"] a(3) unfolding listed_names by blast
  have "handle_metadata env cfg org v (metadata_request v names True) db = (db', Ok (describe_topics cfg v names (list_topics_for_org org db')))"
    using assms(5,6) unfolding handle_metadata_def parse_legacy_metadata [OF assms(1-4)] by (simp add: metadata_undisturbed_def a(1))
  then show ?thesis using a(2,3) f by auto
qed

text \<open>
  C30. A metadata request of the versions 4 to 8 that allows automatic creation makes every requested topic exist, with one partition if it did not, and changes
  no other topic; the response describes each of them and no unknown one.
\<close>

theorem metadata_creates_requested_topics:
  assumes "4 \<le> sint v" "sint v \<le> 8" and "length names < 2 ^ 31" and "\<forall>n \<in> set names. short_string n" and "names \<noteq> []"
    and "metadata_undisturbed env" and "org \<in> set (organization_ids db)"
  shows "\<exists>ts found db'. handle_metadata env cfg org v (metadata_request v names True) db = (db', Ok (build_metadata_response cfg v found []))
    \<and> new_topics org (string_of_bytes ` set names) db ts db' \<and> string_of_bytes ` set names \<subseteq> topic_names org db' \<and> fst ` set found = set names"
  using metadata_effect [OF assms] .

section \<open>Version 9\<close>

text \<open>The fields before the topics of a response of version 9: the throttle time, the one broker, the cluster and its controller.\<close>

definition response_head :: "KafkaServerConfig \<Rightarrow> bytes" where
  "response_head cfg = put_i32 0 @ encode_unsigned_varint 2 @ put_i32 (ks_node_id cfg) @ encode_compact_string (ks_advertised_host cfg) @ put_i32 (ks_advertised_port cfg)
     @ encode_compact_nullable_string None @ encode_empty_tagged_fields @ encode_compact_nullable_string (Some (bytes_of_string ''streamhouse''))
     @ put_i32 (ks_node_id cfg)"

lemma parse_metadata_v9:
  assumes "sint v = 9" and "short_string n"
  shows "parse_metadata_request v (metadata_request v [n] allow_auto) = Ok (([n], False), if allow_auto then [0] else [0, 0, 0])"
proof -
  have p: "parse_items True 24 (parse_metadata_name v) (put_items True (\<lambda>name. put_nullable_str True (Some name)) [n] @ rest) = Ok ([n], rest)" for rest
    using assms by (intro parse_items_enc) (auto simp: parse_metadata_name_def parse_nullable_str_enc or_default_def)
  have z: "encode_unsigned_varint 0 = [0]" by code_simp
  have skip: "skip_tagged_fields (1 # 0 # 0 # rest) = Ok ((), rest)" "skip_tagged_fields (0 # rest) = Ok ((), rest)" for rest
    by (simp_all add: skip_tagged_fields_def parse_unsigned_varint_def)
  have m: "metadata_request v [n] allow_auto = put_items True (\<lambda>name. put_nullable_str True (Some name)) [n] @ [0, if allow_auto then 1 else 0, 0, 0, 0]"
    using assms(1) by (simp add: metadata_request_def put_items_def put_tags_def put_if_def encode_empty_tagged_fields_def z Let_def)
  show ?thesis unfolding m using assms(1)
    by (simp add: parse_metadata_request_def p parse_if_def get_i8_byte parse_tags_def skip Let_def)
qed

text \<open>
  A metadata request of version 9 for one topic the organization does not have creates nothing even when it allows automatic creation, because the tagged fields
  after the name are read as that flag. The response announces no topic, although the entry with the error for the unknown one follows.
\<close>

theorem metadata_v9_announces_no_topic:
  assumes "sint v = 9" and "short_string n" and "me_list_fails env = None" and "string_of_bytes n \<notin> topic_names org db"
  shows "handle_metadata env cfg org v (metadata_request v [n] allow_auto) db
    = (db, Ok (response_head cfg @ encode_unsigned_varint (of_nat 0 + 1) @ put_metadata_topic cfg v (EC_UnknownTopicOrPartition, n, 0)
        @ put_i32 (- 2147483648) @ encode_empty_tagged_fields))"
proof -
  have none: "filter (\<lambda>t. to_name t = string_of_bytes n) (list_topics_for_org org db) = []"
    using assms(4) unfolding listed_names [symmetric] by (force simp: filter_empty_conv)
  show ?thesis using assms(1,3) unfolding handle_metadata_def parse_metadata_v9 [OF assms(1,2)]
    by (simp add: describe_topics_def none build_metadata_response_def response_head_def Let_def put_items_def put_str_def put_nullable_str_def put_tags_def put_if_def
        del: set_filter)
qed

section \<open>Examples\<close>

definition demo_kafka :: KafkaServerConfig where
  "demo_kafka = \<lparr>ks_node_id = 0, ks_advertised_host = [104], ks_advertised_port = 9092\<rparr>"

definition quiet_metadata :: metadata_env where
  "quiet_metadata = \<lparr>me_list_fails = None, me_create_fails = (\<lambda>_. False), me_refresh_fails = (\<lambda>_. False), me_now = 5\<rparr>"

lemma demo_metadata:
  "metadata_undisturbed quiet_metadata" "''a'' \<in> set (organization_ids demo_topic_db)" "topic_names ''a'' demo_topic_db = {''orders''}"
  by (auto simp: metadata_undisturbed_def quiet_metadata_def demo_topic_db_eval organization_ids_def topic_names_def)

theorem metadata_creates_requested_topics_witness:
  "\<exists>found db'. handle_metadata quiet_metadata demo_kafka ''a'' 4 (metadata_request 4 [[103], [116]] True) demo_topic_db
       = (db', Ok (build_metadata_response demo_kafka 4 found [])) \<and> {''g'', ''t''} \<subseteq> topic_names ''a'' db' \<and> fst ` set found = {[103], [116]}"
  using metadata_creates_requested_topics [of 4 "[[103], [116]]" quiet_metadata "''a''" demo_topic_db demo_kafka] demo_metadata(1,2)
  by (auto simp: demo_letters demo_letter)

theorem metadata_v9_announces_no_topic_witness:
  "fst (handle_metadata quiet_metadata demo_kafka ''a'' 9 (metadata_request 9 [[103]] True) demo_topic_db) = demo_topic_db"
  using metadata_v9_announces_no_topic [of 9 "[103]" quiet_metadata "''a''" demo_topic_db demo_kafka True] demo_metadata(3)
  by (simp add: demo_letters demo_letter quiet_metadata_def)

end
