(* ===== verification/Float64.thy ===== *)
theory Float64
  imports Prelude "HOL-Library.Log_Nat"
begin

text \<open>
  The double-precision arithmetic of the token buckets, \<^verbatim>\<open>f64\<close> in Rust. A number is the rational it denotes and every operation is the exact one followed
  by the rounding to 53 significant bits, ties to the even one. Only the non-negative range is modelled, and far from the smallest and the largest exponents:
  the buckets compute with rates, durations in microseconds and token counts. The relative error of the rounding is what the bounds on the buckets rest on.
\<close>

section \<open>Rounding\<close>

definition f64_exponent :: "rat \<Rightarrow> int" where
  "f64_exponent q = (case quotient_of q of (a, b) \<Rightarrow> let e = bitlen a - bitlen b in if 2 powi e \<le> q then e else e - 1)"

definition round_half_even :: "rat \<Rightarrow> int" where
  "round_half_even x = (let n = \<lfloor>x\<rfloor>; r = x - of_int n in if r < 1 / 2 \<or> r = 1 / 2 \<and> even n then n else n + 1)"

definition f64_round :: "rat \<Rightarrow> rat" where
  "f64_round q = (if q \<le> 0 then 0 else let ulp = 2 powi (f64_exponent q - 52) in of_int (round_half_even (q / ulp)) * ulp)"

text \<open>A cast to an unsigned integer truncates and saturates.\<close>

definition f64_to_u64 :: "rat \<Rightarrow> u64" where
  "f64_to_u64 q = (if q < 2 ^ 64 then word_of_int \<lfloor>q\<rfloor> else - 1)"

section \<open>The relative error\<close>

lemma f64_exponent_bounds:
  assumes "0 < q"
  shows "2 powi f64_exponent q \<le> q" and "q < 2 powi (f64_exponent q + 1)"
proof -
  obtain a b where ab: "quotient_of q = (a, b)" by (cases "quotient_of q")
  have b: "0 < b" using quotient_of_denom_pos [OF ab] .
  have q: "q = of_int a / of_int b" using quotient_of_div [OF ab] .
  have a: "0 < a" using assms b unfolding q by (simp add: zero_less_divide_iff)
  have len: "2 powi (bitlen x - 1) \<le> (of_int x :: rat)" "(of_int x :: rat) < 2 powi (bitlen x)" if x: "0 < x" for x :: int
  proof -
    have l: "1 \<le> bitlen x" using bitlen_nonneg [of x] bitlen_eq_zero_iff [of x] x by linarith
    have "2 ^ nat (bitlen x - 1) \<le> x" "x < 2 ^ nat (bitlen x)" using bitlen_bounds [OF x] by simp_all
    then have "(2 :: rat) ^ nat (bitlen x - 1) \<le> of_int x" "(of_int x :: rat) < 2 ^ nat (bitlen x)"
      using of_int_le_iff [of "2 ^ nat (bitlen x - 1)" x, where 'a = rat] of_int_less_iff [of x "2 ^ nat (bitlen x)", where 'a = rat] by simp_all
    then show "2 powi (bitlen x - 1) \<le> (of_int x :: rat)" "(of_int x :: rat) < 2 powi (bitlen x)" using l by (simp_all add: power_int_def)
  qed
  let ?e = "bitlen a - bitlen b"
  have "(2 :: rat) powi (?e - 1) = 2 powi (bitlen a - 1) / 2 powi (bitlen b)" by (simp add: power_int_diff power_int_add field_simps)
  also have "\<dots> \<le> of_int a / of_int b" using len(1) [OF a] len(2) [OF b] a b by (intro frac_le) auto
  finally have lo: "2 powi (?e - 1) \<le> q" unfolding q .
  have "of_int a / of_int b < (2 :: rat) powi (bitlen a) / 2 powi (bitlen b - 1)"
    using len(2) [OF a] len(1) [OF b] a by (intro frac_less) auto
  also have "\<dots> = 2 powi (?e + 1)" by (simp add: power_int_diff power_int_add field_simps)
  finally have hi: "q < 2 powi (?e + 1)" unfolding q .
  show "2 powi f64_exponent q \<le> q" and "q < 2 powi (f64_exponent q + 1)"
    using lo hi by (auto simp: f64_exponent_def ab Let_def)
qed

lemma round_half_even_near: "\<bar>of_int (round_half_even x) - x\<bar> \<le> 1 / 2"
proof -
  have "of_int \<lfloor>x\<rfloor> \<le> x" "x < of_int \<lfloor>x\<rfloor> + 1" using floor_correct [of x] by simp_all
  then show ?thesis by (auto simp: round_half_even_def Let_def abs_le_iff)
qed

lemma f64_round_error:
  assumes "0 \<le> q"
  shows "f64_round q \<le> q * (1 + 1 / 2 ^ 53)" and "q * (1 - 1 / 2 ^ 53) \<le> f64_round q"
proof -
  have "\<bar>f64_round q - q\<bar> \<le> q / 2 ^ 53" if "0 < q"
  proof -
    define ulp where "ulp = (2 :: rat) powi (f64_exponent q - 52)"
    have pos: "0 < ulp" by (simp add: ulp_def)
    have near: "\<bar>of_int (round_half_even (q / ulp)) - q / ulp\<bar> \<le> 1 / 2" by (rule round_half_even_near)
    have "f64_round q - q = (of_int (round_half_even (q / ulp)) - q / ulp) * ulp"
      using that pos by (simp add: f64_round_def Let_def ulp_def left_diff_distrib)
    then have "\<bar>f64_round q - q\<bar> \<le> ulp / 2" using mult_right_mono [OF near, of ulp] pos by (simp add: abs_mult)
    also have "ulp / 2 \<le> q / 2 ^ 53" using f64_exponent_bounds(1) [OF that] by (simp add: ulp_def power_int_diff)
    finally show ?thesis .
  qed
  then have "\<bar>f64_round q - q\<bar> \<le> q / 2 ^ 53" using assms by (cases "q = 0") (auto simp: f64_round_def)
  then have "f64_round q - q \<le> q / 2 ^ 53" "q - f64_round q \<le> q / 2 ^ 53" unfolding abs_le_iff by linarith+
  then show "f64_round q \<le> q * (1 + 1 / 2 ^ 53)" and "q * (1 - 1 / 2 ^ 53) \<le> f64_round q" by (simp_all add: distrib_left right_diff_distrib)
qed

lemma f64_round_nonneg: "0 \<le> f64_round q"
proof (cases "0 \<le> q")
  case True
  then have "0 \<le> q * (1 - 1 / 2 ^ 53)" by simp
  then show ?thesis using f64_round_error(2) [OF True] by linarith
qed (simp add: f64_round_def)

lemma f64_to_u64_le:
  assumes "0 \<le> q"
  shows "of_nat (unat (f64_to_u64 q)) \<le> q"
proof (cases "q < 2 ^ 64")
  case True
  have f: "0 \<le> \<lfloor>q\<rfloor>" "\<lfloor>q\<rfloor> < 2 ^ 64" using assms True by (simp_all add: floor_less_iff)
  have "int (unat (f64_to_u64 q)) = \<lfloor>q\<rfloor>" using True f by (simp add: f64_to_u64_def unsigned_of_int take_bit_int_eq_self_iff)
  then have "of_nat (unat (f64_to_u64 q)) = (of_int \<lfloor>q\<rfloor> :: rat)" by (metis of_int_of_nat_eq)
  then show ?thesis by (simp add: of_int_floor_le)
next
  case False
  have "of_nat (unat (- 1 :: u64)) \<le> (2 ^ 64 :: rat)" by (simp add: unsigned_minus_1_eq_mask mask_eq_exp_minus_1)
  then show ?thesis using False by (simp add: f64_to_u64_def)
qed

end
