(* ===== verification/Rate_Limiter.thy ===== *)
theory Rate_Limiter
  imports Float64
begin

text \<open>
  The adaptive rate limiter for S3 operations, \<^verbatim>\<open>streamhouse-storage/src/rate_limiter.rs\<close>. A bucket holds thousandths of tokens and is refilled, in
  floating point, when an operation asks for a token. The clock is an argument of each call. A call is one step: the compare-and-swap loops and the lock of the
  configuration make the updates of a bucket atomic one by one, and two calls that read the same time of the last refill are not interleaved here.
\<close>

section \<open>Buckets\<close>

datatype S3Operation = S3Put | S3Get | S3Delete

record BucketConfig =
  bc_rate :: rat
  bc_burst :: u64
  bc_min_rate :: rat
  bc_max_rate :: rat

record TokenBucket =
  tb_tokens :: u64
  tb_last_refill :: u64
  tb_config :: BucketConfig

definition burst_tokens :: "BucketConfig \<Rightarrow> u64" where
  "burst_tokens config = f64_to_u64 (f64_round (f64_round (of_nat (unat (bc_burst config))) * 1000))"

definition TokenBucket_new :: "u64 \<Rightarrow> BucketConfig \<Rightarrow> TokenBucket" where
  "TokenBucket_new now config = \<lparr>tb_tokens = burst_tokens config, tb_last_refill = now, tb_config = config\<rparr>"

text \<open>\<^verbatim>\<open>(rate * (elapsed as f64 / 1_000_000.0) * 1000.0) as u64\<close>\<close>

definition tokens_to_add :: "rat \<Rightarrow> u64 \<Rightarrow> u64" where
  "tokens_to_add rate elapsed_micros =
     f64_to_u64 (f64_round (f64_round (rate * f64_round (f64_round (of_nat (unat elapsed_micros)) / 1000000)) * 1000))"

definition TokenBucket_refill :: "u64 \<Rightarrow> TokenBucket \<Rightarrow> TokenBucket" where
  "TokenBucket_refill now b =
     (let elapsed_micros = saturating_sub now (tb_last_refill b);
          added = tokens_to_add (bc_rate (tb_config b)) elapsed_micros
      in if elapsed_micros = 0 \<or> added = 0 then b
         else b\<lparr>tb_tokens := min (tb_tokens b + added) (burst_tokens (tb_config b)), tb_last_refill := now\<rparr>)"

definition TokenBucket_try_acquire :: "u64 \<Rightarrow> TokenBucket \<Rightarrow> TokenBucket \<times> bool" where
  "TokenBucket_try_acquire now b =
     (let b = TokenBucket_refill now b in
      if tb_tokens b < 1000 then (b, False) else (b\<lparr>tb_tokens := tb_tokens b - 1000\<rparr>, True))"

definition TokenBucket_report_throttled :: "TokenBucket \<Rightarrow> TokenBucket" where
  "TokenBucket_report_throttled b =
     (let c = tb_config b in b\<lparr>tb_config := c\<lparr>bc_rate := max (f64_round (bc_rate c * f64_round (1 / 2))) (bc_min_rate c)\<rparr>\<rparr>)"

definition TokenBucket_report_success :: "TokenBucket \<Rightarrow> TokenBucket" where
  "TokenBucket_report_success b =
     (let c = tb_config b in b\<lparr>tb_config := c\<lparr>bc_rate := min (f64_round (bc_rate c * f64_round (105 / 100))) (bc_max_rate c)\<rparr>\<rparr>)"

definition TokenBucket_available_tokens :: "TokenBucket \<Rightarrow> rat" where
  "TokenBucket_available_tokens b = f64_round (f64_round (of_nat (unat (tb_tokens b))) / 1000)"

section \<open>The limiter\<close>

record RateLimiter =
  rl_put :: TokenBucket
  rl_get :: TokenBucket
  rl_delete :: TokenBucket

definition RateLimiter_new :: "u64 \<Rightarrow> BucketConfig \<Rightarrow> BucketConfig \<Rightarrow> BucketConfig \<Rightarrow> RateLimiter" where
  "RateLimiter_new now p g d = \<lparr>rl_put = TokenBucket_new now p, rl_get = TokenBucket_new now g, rl_delete = TokenBucket_new now d\<rparr>"

definition RateLimiter_with_defaults :: "u64 \<Rightarrow> RateLimiter" where
  "RateLimiter_with_defaults now = RateLimiter_new now
     \<lparr>bc_rate = 3000, bc_burst = 5000, bc_min_rate = 100, bc_max_rate = 10000\<rparr>
     \<lparr>bc_rate = 5000, bc_burst = 8000, bc_min_rate = 100, bc_max_rate = 15000\<rparr>
     \<lparr>bc_rate = 3000, bc_burst = 5000, bc_min_rate = 100, bc_max_rate = 10000\<rparr>"

fun bucket_of :: "S3Operation \<Rightarrow> RateLimiter \<Rightarrow> TokenBucket" where
  "bucket_of S3Put l = rl_put l"
| "bucket_of S3Get l = rl_get l"
| "bucket_of S3Delete l = rl_delete l"

fun set_bucket :: "S3Operation \<Rightarrow> TokenBucket \<Rightarrow> RateLimiter \<Rightarrow> RateLimiter" where
  "set_bucket S3Put b l = l\<lparr>rl_put := b\<rparr>"
| "set_bucket S3Get b l = l\<lparr>rl_get := b\<rparr>"
| "set_bucket S3Delete b l = l\<lparr>rl_delete := b\<rparr>"

definition RateLimiter_try_acquire :: "u64 \<Rightarrow> S3Operation \<Rightarrow> RateLimiter \<Rightarrow> RateLimiter \<times> bool" where
  "RateLimiter_try_acquire now op l = (let (b, ok) = TokenBucket_try_acquire now (bucket_of op l) in (set_bucket op b l, ok))"

definition RateLimiter_report_throttled :: "S3Operation \<Rightarrow> RateLimiter \<Rightarrow> RateLimiter" where
  "RateLimiter_report_throttled op l = set_bucket op (TokenBucket_report_throttled (bucket_of op l)) l"

definition RateLimiter_report_success :: "S3Operation \<Rightarrow> RateLimiter \<Rightarrow> RateLimiter" where
  "RateLimiter_report_success op l = set_bucket op (TokenBucket_report_success (bucket_of op l)) l"

definition RateLimiter_current_rates :: "RateLimiter \<Rightarrow> rat \<times> rat \<times> rat" where
  "RateLimiter_current_rates l = (bc_rate (tb_config (rl_put l)), bc_rate (tb_config (rl_get l)), bc_rate (tb_config (rl_delete l)))"

definition RateLimiter_available_tokens :: "RateLimiter \<Rightarrow> rat \<times> rat \<times> rat" where
  "RateLimiter_available_tokens l =
     (TokenBucket_available_tokens (rl_put l), TokenBucket_available_tokens (rl_get l), TokenBucket_available_tokens (rl_delete l))"

section \<open>Metered buckets\<close>

text \<open>
  What a token bucket promises: a step takes what it grants from the tokens, and tokens come only with the time on the bucket's clock. Then what a run grants is
  bounded by the tokens at its start and the time that passes.
\<close>

locale metered_bucket =
  fixes step :: "'e \<Rightarrow> 's \<Rightarrow> 's"
    and granted :: "'e \<Rightarrow> 's \<Rightarrow> nat"
    and tokens :: "'s \<Rightarrow> nat"
    and clock :: "'s \<Rightarrow> nat"
    and speed :: rat
    and invar :: "'s \<Rightarrow> bool"
  assumes step_invar: "invar s \<Longrightarrow> invar (step e s)"
    and step_clock: "invar s \<Longrightarrow> clock s \<le> clock (step e s)"
    and step_tokens: "invar s \<Longrightarrow> of_nat (tokens (step e s) + granted e s) \<le> of_nat (tokens s) + speed * of_nat (clock (step e s) - clock s)"
begin

fun total_granted :: "'e list \<Rightarrow> 's \<Rightarrow> nat" where
  "total_granted [] s = 0"
| "total_granted (e # es) s = granted e s + total_granted es (step e s)"

lemma run_bound:
  assumes "invar s"
  shows "clock s \<le> clock (fold step es s) \<and> of_nat (tokens (fold step es s) + total_granted es s)
    \<le> of_nat (tokens s) + speed * of_nat (clock (fold step es s) - clock s)"
  using assms
proof (induction es arbitrary: s)
  case (Cons e es)
  let ?s1 = "step e s" and ?s2 = "fold step es (step e s)"
  note IH = Cons.IH [OF step_invar [OF Cons.prems, of e]] and t = step_tokens [OF Cons.prems, of e] and c = step_clock [OF Cons.prems, of e]
  have "of_nat (clock ?s2 - clock s) = of_nat (clock ?s2 - clock ?s1) + (of_nat (clock ?s1 - clock s) :: rat)"
    using IH c by (simp flip: of_nat_add)
  then have "speed * of_nat (clock ?s2 - clock s) = speed * of_nat (clock ?s2 - clock ?s1) + speed * of_nat (clock ?s1 - clock s)"
    by (simp add: distrib_left)
  then have "of_nat (tokens ?s2 + (granted e s + total_granted es ?s1)) \<le> of_nat (tokens s) + speed * of_nat (clock ?s2 - clock s)"
    using IH t unfolding of_nat_add by linarith
  then show ?case using IH c by simp
qed simp

end

section \<open>Bounds on a bucket\<close>

lemma tokens_to_add_le:
  assumes "0 \<le> rate"
  shows "of_nat (unat (tokens_to_add rate t)) \<le> rate * of_nat (unat t) / 1000 * (1 + 1 / 2 ^ 50)"
proof -
  let ?k = "1 + 1 / 2 ^ 53 :: rat"
  define x0 where "x0 = f64_round (of_nat (unat t))"
  define x1 where "x1 = f64_round (x0 / 1000000)"
  define x2 where "x2 = f64_round (rate * x1)"
  define x3 where "x3 = f64_round (x2 * 1000)"
  have pos: "0 \<le> x0" "0 \<le> x1" "0 \<le> x2" "0 \<le> x3" by (simp_all add: x0_def x1_def x2_def x3_def f64_round_nonneg)
  have 0: "x0 \<le> of_nat (unat t) * ?k" unfolding x0_def by (intro f64_round_error of_nat_0_le_iff)
  have 1: "x1 \<le> x0 / 1000000 * ?k" unfolding x1_def using pos(1) by (intro f64_round_error) simp
  have 2: "x2 \<le> rate * x1 * ?k" unfolding x2_def using pos(2) assms by (intro f64_round_error) simp
  have 3: "x3 \<le> x2 * 1000 * ?k" unfolding x3_def using pos(3) by (intro f64_round_error) simp
  have "x3 \<le> (rate * x1 * ?k) * 1000 * ?k" using 2 3 by (simp add: field_simps)
  also have "\<dots> \<le> (rate * (x0 / 1000000 * ?k) * ?k) * 1000 * ?k" using 1 assms by (intro mult_right_mono mult_left_mono) simp_all
  also have "\<dots> \<le> (rate * (of_nat (unat t) * ?k / 1000000 * ?k) * ?k) * 1000 * ?k"
    using 0 assms by (intro mult_right_mono mult_left_mono divide_right_mono) simp_all
  also have "\<dots> = rate * of_nat (unat t) / 1000 * ?k ^ 4" by (simp add: field_simps power4_eq_xxxx)
  also have "\<dots> \<le> rate * of_nat (unat t) / 1000 * (1 + 1 / 2 ^ 50)"
    using assms by (intro mult_left_mono) (simp_all add: power_divide del: of_nat_unat)
  finally have "x3 \<le> rate * of_nat (unat t) / 1000 * (1 + 1 / 2 ^ 50)" .
  then show ?thesis using f64_to_u64_le [OF pos(4)] unfolding tokens_to_add_def x0_def x1_def x2_def x3_def by linarith
qed

text \<open>The rate lies within the limits, and the limits are those of the configuration the bucket started with.\<close>

definition bucket_ok :: "BucketConfig \<Rightarrow> TokenBucket \<Rightarrow> bool" where
  "bucket_ok config b \<longleftrightarrow> bc_min_rate (tb_config b) = bc_min_rate config \<and> bc_max_rate (tb_config b) = bc_max_rate config
     \<and> bc_burst (tb_config b) = bc_burst config \<and> 0 \<le> bc_min_rate config \<and> bc_min_rate config \<le> bc_rate (tb_config b)
     \<and> bc_rate (tb_config b) \<le> bc_max_rate config \<and> tb_tokens b \<le> burst_tokens config"

lemma burst_tokens_cong: "bc_burst c = bc_burst d \<Longrightarrow> burst_tokens c = burst_tokens d"
  by (simp add: burst_tokens_def)

lemma refill_bounds:
  assumes "bucket_ok config b"
  shows "bucket_ok config (TokenBucket_refill now b)" and "tb_last_refill b \<le> tb_last_refill (TokenBucket_refill now b)"
    and "of_nat (unat (tb_tokens (TokenBucket_refill now b))) \<le> of_nat (unat (tb_tokens b))
      + bc_max_rate config / 1000 * (1 + 1 / 2 ^ 50) * of_nat (unat (tb_last_refill (TokenBucket_refill now b)) - unat (tb_last_refill b))"
proof -
  let ?t = "saturating_sub now (tb_last_refill b)" and ?r = "bc_rate (tb_config b)"
  have r: "0 \<le> ?r" "?r \<le> bc_max_rate config" using assms by (auto simp: bucket_ok_def)
  have burst: "burst_tokens (tb_config b) = burst_tokens config" using assms by (intro burst_tokens_cong) (simp add: bucket_ok_def)
  show "bucket_ok config (TokenBucket_refill now b)" using assms burst by (auto simp: TokenBucket_refill_def Let_def bucket_ok_def)
  show "tb_last_refill b \<le> tb_last_refill (TokenBucket_refill now b)"
    by (auto simp: TokenBucket_refill_def Let_def saturating_sub_def split: if_splits)
  let ?s = "1 + 1 / 2 ^ 50 :: rat"
  have "unat (min (tb_tokens b + tokens_to_add ?r ?t) m) \<le> unat (tb_tokens b) + unat (tokens_to_add ?r ?t)" for m
    using unat_plus_if' [of "tb_tokens b" "tokens_to_add ?r ?t"] by (auto simp: min_def word_le_nat_alt split: if_splits)
  then have "of_nat (unat (min (tb_tokens b + tokens_to_add ?r ?t) m)) \<le> of_nat (unat (tb_tokens b)) + (of_nat (unat (tokens_to_add ?r ?t)) :: rat)" for m
    by (metis of_nat_add of_nat_le_iff)
  moreover have "of_nat (unat (tokens_to_add ?r ?t)) \<le> bc_max_rate config / 1000 * ?s * of_nat (unat ?t)"
  proof -
    have "?r * of_nat (unat ?t) / 1000 * ?s \<le> bc_max_rate config * of_nat (unat ?t) / 1000 * ?s"
      using r by (intro mult_right_mono divide_right_mono) (simp_all del: of_nat_unat)
    then show ?thesis using tokens_to_add_le [OF r(1), of ?t] by (simp add: mult_ac)
  qed
  ultimately have "of_nat (unat (min (tb_tokens b + tokens_to_add ?r ?t) m)) \<le> of_nat (unat (tb_tokens b)) + bc_max_rate config / 1000 * ?s * of_nat (unat ?t)" for m
    by (meson add_left_mono order_trans)
  then show "of_nat (unat (tb_tokens (TokenBucket_refill now b))) \<le> of_nat (unat (tb_tokens b))
      + bc_max_rate config / 1000 * ?s * of_nat (unat (tb_last_refill (TokenBucket_refill now b)) - unat (tb_last_refill b))"
    unfolding unat_saturating_sub by (simp add: TokenBucket_refill_def Let_def)
qed

section \<open>Runs\<close>

datatype bucket_event = Acquire u64 | Throttled | Succeeded

fun bucket_step :: "bucket_event \<Rightarrow> TokenBucket \<Rightarrow> TokenBucket" where
  "bucket_step (Acquire now) b = fst (TokenBucket_try_acquire now b)"
| "bucket_step Throttled b = TokenBucket_report_throttled b"
| "bucket_step Succeeded b = TokenBucket_report_success b"

fun permits :: "bucket_event list \<Rightarrow> TokenBucket \<Rightarrow> nat" where
  "permits [] b = 0"
| "permits (e # es) b = (case e of Acquire now \<Rightarrow> if snd (TokenBucket_try_acquire now b) then 1 else 0 | _ \<Rightarrow> 0) + permits es (bucket_step e b)"

definition granted_tokens :: "bucket_event \<Rightarrow> TokenBucket \<Rightarrow> nat" where
  "granted_tokens e b = (case e of Acquire now \<Rightarrow> if snd (TokenBucket_try_acquire now b) then 1000 else 0 | _ \<Rightarrow> 0)"

lemma acquire_tokens:
  "unat (tb_tokens (fst (TokenBucket_try_acquire now b))) + granted_tokens (Acquire now) b = unat (tb_tokens (TokenBucket_refill now b))"
  by (auto simp: TokenBucket_try_acquire_def granted_tokens_def Let_def unat_sub word_le_nat_alt word_less_nat_alt)

lemma rate_constants: "f64_round (1 / 2) = 1 / 2" "f64_round (105 / 100) = 4728779608739021 / 4503599627370496"
  by code_simp+

lemma success_raises_rate:
  assumes "0 \<le> r"
  shows "r \<le> f64_round (r * f64_round (105 / 100))"
proof -
  have "0 \<le> r * f64_round (105 / 100)" using assms unfolding rate_constants by simp
  from f64_round_error(2) [OF this] show ?thesis using assms unfolding rate_constants by (simp add: field_simps)
qed

lemma throttled_lowers_rate: "0 \<le> r \<Longrightarrow> r \<le> m \<Longrightarrow> f64_round (r * f64_round (1 / 2)) \<le> m"
  using f64_round_error(1) [of "r / 2"] unfolding rate_constants by (simp add: field_simps)

lemma bucket_step_ok: "bucket_ok config b \<Longrightarrow> bucket_ok config (bucket_step e b)"
proof (cases e)
  case (Acquire now)
  assume "bucket_ok config b"
  from refill_bounds(1) [OF this, of now] show ?thesis
    unfolding Acquire by (auto simp: TokenBucket_try_acquire_def bucket_ok_def Let_def word_le_nat_alt word_less_nat_alt unat_sub)
next
  case Throttled
  assume "bucket_ok config b"
  then show ?thesis unfolding Throttled using throttled_lowers_rate [of "bc_rate (tb_config b)" "bc_max_rate config"]
    by (auto simp: TokenBucket_report_throttled_def bucket_ok_def Let_def)
next
  case Succeeded
  assume "bucket_ok config b"
  then show ?thesis unfolding Succeeded using success_raises_rate [of "bc_rate (tb_config b)"]
    by (auto simp: TokenBucket_report_success_def bucket_ok_def Let_def)
qed

interpretation s3_bucket: metered_bucket bucket_step granted_tokens "\<lambda>b. unat (tb_tokens b)" "\<lambda>b. unat (tb_last_refill b)"
    "bc_max_rate config / 1000 * (1 + 1 / 2 ^ 50)" "bucket_ok config" for config
proof unfold_locales
  fix b e assume ok: "bucket_ok config b"
  show "bucket_ok config (bucket_step e b)" using ok by (rule bucket_step_ok)
  show "unat (tb_last_refill b) \<le> unat (tb_last_refill (bucket_step e b))"
    using refill_bounds(2) [OF ok]
    by (cases e) (auto simp: TokenBucket_try_acquire_def TokenBucket_report_throttled_def TokenBucket_report_success_def Let_def word_le_nat_alt)
  show "of_nat (unat (tb_tokens (bucket_step e b)) + granted_tokens e b) \<le> of_nat (unat (tb_tokens b))
      + bc_max_rate config / 1000 * (1 + 1 / 2 ^ 50) * of_nat (unat (tb_last_refill (bucket_step e b)) - unat (tb_last_refill b))"
  proof (cases e)
    case (Acquire now)
    have "tb_last_refill (bucket_step e b) = tb_last_refill (TokenBucket_refill now b)"
      by (simp add: Acquire TokenBucket_try_acquire_def Let_def)
    then show ?thesis using refill_bounds(3) [OF ok, of now] acquire_tokens [of now b] by (simp only: Acquire bucket_step.simps)
  qed (simp_all add: granted_tokens_def TokenBucket_report_throttled_def TokenBucket_report_success_def Let_def)
qed

lemma permits_granted: "s3_bucket.total_granted es b = 1000 * permits es b"
  by (induction es arbitrary: b) (auto simp: granted_tokens_def split: bucket_event.split)



end
