(* ===== verification/Tenancy.thy ===== *)
theory Tenancy
  imports Topic_Store
begin

text \<open>
  Organizations, API keys, quotas and usage: \<^verbatim>\<open>streamhouse-metadata/src/types.rs\<close>, the operations of the SQLite store in \<^verbatim>\<open>store.rs\<close> and the tenant
  contexts of \<^verbatim>\<open>tenant.rs\<close>. The tables are lists of rows in the order of their insertion; the unique and foreign keys of the migrations are the checks of the
  insertions. Lists that the store keeps as JSON texts are kept as they are; identifiers that the statements splice into their text unquoted are UUIDs. The hash
  of a key (SHA-256), new identifiers, random bytes, the clock and failing statements are arguments.
\<close>

section \<open>Data\<close>

datatype OrganizationPlan = Free | Pro | Enterprise

datatype OrganizationStatus = OrgActive | OrgSuspended | OrgDeleted

datatype DeploymentMode = SelfHosted | Byoc | Managed

fun OrganizationPlan_to_string :: "OrganizationPlan \<Rightarrow> string" where
  "OrganizationPlan_to_string Free = ''free''"
| "OrganizationPlan_to_string Pro = ''pro''"
| "OrganizationPlan_to_string Enterprise = ''enterprise''"

definition OrganizationPlan_from_str :: "string \<Rightarrow> OrganizationPlan option" where
  "OrganizationPlan_from_str s =
     (let l = to_lowercase s in
      if l = ''free'' then Some Free else if l = ''pro'' then Some Pro else if l = ''enterprise'' then Some Enterprise else None)"

fun OrganizationStatus_to_string :: "OrganizationStatus \<Rightarrow> string" where
  "OrganizationStatus_to_string OrgActive = ''active''"
| "OrganizationStatus_to_string OrgSuspended = ''suspended''"
| "OrganizationStatus_to_string OrgDeleted = ''deleted''"

definition OrganizationStatus_from_str :: "string \<Rightarrow> OrganizationStatus option" where
  "OrganizationStatus_from_str s =
     (let l = to_lowercase s in
      if l = ''active'' then Some OrgActive else if l = ''suspended'' then Some OrgSuspended else if l = ''deleted'' then Some OrgDeleted else None)"

fun DeploymentMode_to_string :: "DeploymentMode \<Rightarrow> string" where
  "DeploymentMode_to_string SelfHosted = ''self_hosted''"
| "DeploymentMode_to_string Byoc = ''byoc''"
| "DeploymentMode_to_string Managed = ''managed''"

definition DeploymentMode_from_str :: "string \<Rightarrow> DeploymentMode option" where
  "DeploymentMode_from_str s =
     (let l = to_lowercase s in
      if l = ''self_hosted'' then Some SelfHosted else if l = ''byoc'' then Some Byoc else if l = ''managed'' then Some Managed else None)"

record Organization =
  og_id :: string
  og_name :: string
  og_slug :: string
  og_plan :: OrganizationPlan
  og_status :: OrganizationStatus
  og_created_at :: int
  og_settings :: "string \<rightharpoonup> string"
  og_external_id :: "string option"
  og_deployment_mode :: DeploymentMode

record CreateOrganization =
  cro_name :: string
  cro_slug :: string
  cro_plan :: OrganizationPlan
  cro_settings :: "string \<rightharpoonup> string"
  cro_external_id :: "string option"
  cro_deployment_mode :: DeploymentMode

record ApiKeyRow =
  ak_id :: string
  ak_organization_id :: string
  ak_name :: string
  ak_key_prefix :: string
  ak_permissions :: "string list"
  ak_scopes :: "string list"
  ak_expires_at :: "int option"
  ak_last_used_at :: "int option"
  ak_created_at :: int
  ak_created_by :: "string option"
  ak_max_requests_per_sec :: "i32 option"
  ak_max_produce_bytes_per_sec :: "i64 option"
  ak_max_consume_bytes_per_sec :: "i64 option"

record CreateApiKey =
  cak_name :: string
  cak_permissions :: "string list"
  cak_scopes :: "string list"
  cak_expires_in_ms :: "int option"

definition default_permissions :: "string list" where "default_permissions = [''read'', ''write'']"

record OrganizationQuota =
  oq_organization_id :: string
  oq_max_topics :: i32
  oq_max_partitions_per_topic :: i32
  oq_max_total_partitions :: i32
  oq_max_storage_bytes :: i64
  oq_max_retention_days :: i32
  oq_max_produce_bytes_per_sec :: i64
  oq_max_consume_bytes_per_sec :: i64
  oq_max_requests_per_sec :: i32
  oq_max_consumer_groups :: i32
  oq_max_schemas :: i32
  oq_max_schema_versions_per_subject :: i32
  oq_max_connections :: i32

definition OrganizationQuota_default :: OrganizationQuota where
  "OrganizationQuota_default = \<lparr>oq_organization_id = [], oq_max_topics = 10, oq_max_partitions_per_topic = 12, oq_max_total_partitions = 100,
     oq_max_storage_bytes = 10737418240, oq_max_retention_days = 7, oq_max_produce_bytes_per_sec = 10485760, oq_max_consume_bytes_per_sec = 52428800,
     oq_max_requests_per_sec = 1000, oq_max_consumer_groups = 50, oq_max_schemas = 100, oq_max_schema_versions_per_subject = 100, oq_max_connections = 100\<rparr>"

record OrganizationUsage =
  ou_organization_id :: string
  ou_metric :: string
  ou_value :: i64
  ou_period_start :: int

text \<open>A row of the table of keys is the key and its hash.\<close>

record tenant_db =
  tn_organizations :: "Organization list"
  tn_api_keys :: "(ApiKeyRow \<times> string) list"
  tn_quotas :: "OrganizationQuota list"
  tn_usage :: "OrganizationUsage list"

definition tenant_db_empty :: tenant_db where
  "tenant_db_empty = \<lparr>tn_organizations = [], tn_api_keys = [], tn_quotas = [], tn_usage = []\<rparr>"

section \<open>Organizations\<close>

definition create_organization :: "bool \<Rightarrow> int \<Rightarrow> string \<Rightarrow> CreateOrganization \<Rightarrow> tenant_db \<Rightarrow> tenant_db \<times> (metadata_error, Organization) result" where
  "create_organization fails now new_id config db =
     (let o' = \<lparr>og_id = new_id, og_name = cro_name config, og_slug = cro_slug config, og_plan = cro_plan config, og_status = OrgActive, og_created_at = now,
            og_settings = cro_settings config, og_external_id = cro_external_id config, og_deployment_mode = cro_deployment_mode config\<rparr>
      in if fails then (db, Err DatabaseError)
         else if \<exists>r \<in> set (tn_organizations db). og_id r = new_id \<or> og_slug r = cro_slug config
                \<or> (cro_external_id config \<noteq> None \<and> og_external_id r = cro_external_id config)
         then (db, Err (ConflictError (''Organization with slug '' @ [CHR 0x27] @ cro_slug config @ [CHR 0x27] @ '' already exists'')))
         else (db\<lparr>tn_organizations := tn_organizations db @ [o']\<rparr>, Ok o'))"

definition get_organization :: "string \<Rightarrow> tenant_db \<Rightarrow> Organization option" where
  "get_organization org_id db = find (\<lambda>r. og_id r = org_id) (tn_organizations db)"

definition get_organization_by_slug :: "string \<Rightarrow> tenant_db \<Rightarrow> Organization option" where
  "get_organization_by_slug slug db = find (\<lambda>r. og_slug r = slug) (tn_organizations db)"

definition get_organization_by_external_id :: "string \<Rightarrow> tenant_db \<Rightarrow> Organization option" where
  "get_organization_by_external_id external_id db = find (\<lambda>r. og_external_id r = Some external_id) (tn_organizations db)"

definition update_organization :: "bool \<Rightarrow> string \<Rightarrow> (Organization \<Rightarrow> Organization) \<Rightarrow> tenant_db \<Rightarrow> tenant_db \<times> (metadata_error, unit) result" where
  "update_organization fails org_id change db =
     (if fails then (db, Err DatabaseError)
      else if \<not> (\<exists>r \<in> set (tn_organizations db). og_id r = org_id) then (db, Err (NotFoundError (''Organization '' @ org_id @ '' not found'')))
      else (db\<lparr>tn_organizations := map (\<lambda>r. if og_id r = org_id then change r else r) (tn_organizations db)\<rparr>, Ok ()))"

definition update_organization_status :: "bool \<Rightarrow> string \<Rightarrow> OrganizationStatus \<Rightarrow> tenant_db \<Rightarrow> tenant_db \<times> (metadata_error, unit) result" where
  "update_organization_status fails org_id status = update_organization fails org_id (\<lambda>r. r\<lparr>og_status := status\<rparr>)"

definition update_organization_plan :: "bool \<Rightarrow> string \<Rightarrow> OrganizationPlan \<Rightarrow> tenant_db \<Rightarrow> tenant_db \<times> (metadata_error, unit) result" where
  "update_organization_plan fails org_id plan = update_organization fails org_id (\<lambda>r. r\<lparr>og_plan := plan\<rparr>)"

definition delete_organization :: "bool \<Rightarrow> string \<Rightarrow> tenant_db \<Rightarrow> tenant_db \<times> (metadata_error, unit) result" where
  "delete_organization fails org_id = update_organization_status fails org_id OrgDeleted"

section \<open>API keys\<close>

definition create_api_key ::
  "bool \<Rightarrow> int \<Rightarrow> string \<Rightarrow> string \<Rightarrow> CreateApiKey \<Rightarrow> string \<Rightarrow> string \<Rightarrow> tenant_db \<Rightarrow> tenant_db \<times> (metadata_error, ApiKeyRow) result" where
  "create_api_key fails now new_id organization_id config key_hash key_prefix db =
     (let k = \<lparr>ak_id = new_id, ak_organization_id = organization_id, ak_name = cak_name config, ak_key_prefix = key_prefix,
            ak_permissions = cak_permissions config, ak_scopes = cak_scopes config, ak_expires_at = map_option (\<lambda>ms. now + ms) (cak_expires_in_ms config),
            ak_last_used_at = None, ak_created_at = now, ak_created_by = None, ak_max_requests_per_sec = None, ak_max_produce_bytes_per_sec = None,
            ak_max_consume_bytes_per_sec = None\<rparr>
      in if fails \<or> (\<exists>(r, _) \<in> set (tn_api_keys db). ak_id r = new_id \<or> ak_key_prefix r = key_prefix)
            \<or> organization_id \<notin> og_id ` set (tn_organizations db)
         then (db, Err DatabaseError)
         else (db\<lparr>tn_api_keys := tn_api_keys db @ [(k, key_hash)]\<rparr>, Ok k))"

definition get_api_key :: "string \<Rightarrow> tenant_db \<Rightarrow> ApiKeyRow option" where
  "get_api_key key_id db = map_option fst (find (\<lambda>(k, _). ak_id k = key_id) (tn_api_keys db))"

definition validate_api_key :: "int \<Rightarrow> string \<Rightarrow> tenant_db \<Rightarrow> ApiKeyRow option" where
  "validate_api_key now key_hash db =
     map_option fst (find (\<lambda>(k, h). h = key_hash \<and> (case ak_expires_at k of None \<Rightarrow> True | Some t \<Rightarrow> t > now)) (tn_api_keys db))"

definition list_api_keys :: "string \<Rightarrow> tenant_db \<Rightarrow> ApiKeyRow list" where
  "list_api_keys organization_id db = sort_key (\<lambda>k. - ak_created_at k) (filter (\<lambda>k. ak_organization_id k = organization_id) (map fst (tn_api_keys db)))"

definition touch_api_key :: "bool \<Rightarrow> int \<Rightarrow> string \<Rightarrow> tenant_db \<Rightarrow> tenant_db \<times> (metadata_error, unit) result" where
  "touch_api_key fails now key_id db =
     (if fails then (db, Err DatabaseError)
      else (db\<lparr>tn_api_keys := map (\<lambda>(k, h). (if ak_id k = key_id then k\<lparr>ak_last_used_at := Some now\<rparr> else k, h)) (tn_api_keys db)\<rparr>, Ok ()))"

definition revoke_api_key :: "bool \<Rightarrow> string \<Rightarrow> tenant_db \<Rightarrow> tenant_db \<times> (metadata_error, unit) result" where
  "revoke_api_key fails key_id db =
     (if fails then (db, Err DatabaseError) else (db\<lparr>tn_api_keys := filter (\<lambda>(k, _). ak_id k \<noteq> key_id) (tn_api_keys db)\<rparr>, Ok ()))"

section \<open>Quotas and usage\<close>

definition get_organization_quota :: "string \<Rightarrow> tenant_db \<Rightarrow> OrganizationQuota" where
  "get_organization_quota organization_id db =
     (case find (\<lambda>q. oq_organization_id q = organization_id) (tn_quotas db) of
        Some q \<Rightarrow> q
      | None \<Rightarrow> OrganizationQuota_default\<lparr>oq_organization_id := organization_id\<rparr>)"

definition set_organization_quota :: "bool \<Rightarrow> OrganizationQuota \<Rightarrow> tenant_db \<Rightarrow> tenant_db \<times> (metadata_error, unit) result" where
  "set_organization_quota fails q db =
     (if fails \<or> oq_organization_id q \<notin> og_id ` set (tn_organizations db) then (db, Err DatabaseError)
      else if \<exists>r \<in> set (tn_quotas db). oq_organization_id r = oq_organization_id q
      then (db\<lparr>tn_quotas := map (\<lambda>r. if oq_organization_id r = oq_organization_id q then q else r) (tn_quotas db)\<rparr>, Ok ())
      else (db\<lparr>tn_quotas := tn_quotas db @ [q]\<rparr>, Ok ()))"

definition get_organization_usage :: "string \<Rightarrow> tenant_db \<Rightarrow> OrganizationUsage list" where
  "get_organization_usage organization_id db = sort_key ou_metric (filter (\<lambda>u. ou_organization_id u = organization_id) (tn_usage db))"

text \<open>An upsert of a metric; every row has the period 0. \<open>combine\<close> is the new value given the old one.\<close>

definition upsert_usage :: "bool \<Rightarrow> string \<Rightarrow> string \<Rightarrow> i64 \<Rightarrow> (i64 \<Rightarrow> i64) \<Rightarrow> tenant_db \<Rightarrow> tenant_db \<times> (metadata_error, unit) result" where
  "upsert_usage fails organization_id metric val combine db =
     (let same = (\<lambda>u. ou_organization_id u = organization_id \<and> ou_metric u = metric \<and> ou_period_start u = 0) in
      if fails \<or> organization_id \<notin> og_id ` set (tn_organizations db) then (db, Err DatabaseError)
      else if \<exists>u \<in> set (tn_usage db). same u
      then (db\<lparr>tn_usage := map (\<lambda>u. if same u then u\<lparr>ou_value := combine (ou_value u)\<rparr> else u) (tn_usage db)\<rparr>, Ok ())
      else (db\<lparr>tn_usage := tn_usage db @ [\<lparr>ou_organization_id = organization_id, ou_metric = metric, ou_value = val, ou_period_start = 0\<rparr>]\<rparr>, Ok ()))"

definition update_organization_usage :: "bool \<Rightarrow> string \<Rightarrow> string \<Rightarrow> i64 \<Rightarrow> tenant_db \<Rightarrow> tenant_db \<times> (metadata_error, unit) result" where
  "update_organization_usage fails organization_id metric val = upsert_usage fails organization_id metric val (\<lambda>_. val)"

definition increment_organization_usage :: "bool \<Rightarrow> string \<Rightarrow> string \<Rightarrow> i64 \<Rightarrow> tenant_db \<Rightarrow> tenant_db \<times> (metadata_error, unit) result" where
  "increment_organization_usage fails organization_id metric delta = upsert_usage fails organization_id metric delta (\<lambda>v. v + delta)"

section \<open>Tenant contexts\<close>

definition TEST_ORG_ID :: string where "TEST_ORG_ID = ''00000000-0000-0000-0000-000000000001''"

record TenantContext =
  tcx_organization :: Organization
  tcx_api_key :: "ApiKeyRow option"
  tcx_quota :: OrganizationQuota
  tcx_is_default :: bool

definition TenantContext_default_context :: TenantContext where
  "TenantContext_default_context = \<lparr>tcx_organization = \<lparr>og_id = TEST_ORG_ID, og_name = ''Default Organization'', og_slug = ''default'', og_plan = Enterprise,
       og_status = OrgActive, og_created_at = 0, og_settings = Map.empty, og_external_id = None, og_deployment_mode = SelfHosted\<rparr>,
     tcx_api_key = None, tcx_quota = OrganizationQuota_default, tcx_is_default = True\<rparr>"

definition has_permission :: "string list \<Rightarrow> TenantContext \<Rightarrow> bool" where
  "has_permission ps ctx \<longleftrightarrow> tcx_is_default ctx \<or> (case tcx_api_key ctx of None \<Rightarrow> False | Some k \<Rightarrow> \<exists>p \<in> set (ak_permissions k). p \<in> set ps)"

definition can_read :: "TenantContext \<Rightarrow> bool" where "can_read = has_permission [''read'', ''admin'']"

definition can_write :: "TenantContext \<Rightarrow> bool" where "can_write = has_permission [''write'', ''admin'']"

definition can_admin :: "TenantContext \<Rightarrow> bool" where "can_admin = has_permission [''admin'']"

definition scope_matches :: "string \<Rightarrow> string \<Rightarrow> bool" where
  "scope_matches topic scope =
     (if scope \<noteq> [] \<and> last scope = CHR ''*'' then take (length scope - 1) topic = butlast scope else topic = scope)"

definition can_access_topic :: "string \<Rightarrow> TenantContext \<Rightarrow> bool" where
  "can_access_topic topic ctx \<longleftrightarrow>
     tcx_is_default ctx \<or> (case tcx_api_key ctx of None \<Rightarrow> False | Some k \<Rightarrow> ak_scopes k = [] \<or> (\<exists>s \<in> set (ak_scopes k). scope_matches topic s))"

definition s3_prefix :: "TenantContext \<Rightarrow> string" where
  "s3_prefix ctx = (if tcx_is_default ctx then ''data'' else ''org-'' @ og_id (tcx_organization ctx) @ ''/data'')"

definition s3_key_for_partition :: "TenantContext \<Rightarrow> string \<Rightarrow> u32 \<Rightarrow> string \<Rightarrow> string" where
  "s3_key_for_partition ctx topic n segment_id =
     s3_prefix ctx @ ''/'' @ topic @ ''/'' @ show_nat (unat n) @ ''/'' @ segment_id @ ''.seg''"

text \<open>The statements of a validation that can fail, in order; \<open>tv_touch\<close> is ignored by the code.\<close>

record tenant_faults =
  tv_key :: bool
  tv_touch :: bool
  tv_organization :: bool
  tv_quota :: bool

definition ApiKeyValidator_validate ::
  "(string \<Rightarrow> string) \<Rightarrow> tenant_faults \<Rightarrow> int \<Rightarrow> string \<Rightarrow> tenant_db \<Rightarrow> tenant_db \<times> (metadata_error, TenantContext) result" where
  "ApiKeyValidator_validate sha256 f now key db =
     (if tv_key f then (db, Err DatabaseError)
      else case validate_api_key now (sha256 key) db of
        None \<Rightarrow> (db, Err (metadata_error.AuthenticationError ''Invalid API key''))
      | Some k \<Rightarrow>
          (let db1 = fst (touch_api_key (tv_touch f) now (ak_id k) db) in
           if tv_organization f then (db1, Err DatabaseError)
           else case get_organization (ak_organization_id k) db1 of
             None \<Rightarrow> (db1, Err (NotFoundError (''Organization '' @ ak_organization_id k @ '' not found'')))
           | Some o' \<Rightarrow>
               if og_status o' \<noteq> OrgActive
               then (db1, Err (metadata_error.AuthenticationError (''Organization '' @ og_slug o' @ '' is '' @ OrganizationStatus_to_string (og_status o'))))
               else if tv_quota f then (db1, Err DatabaseError)
               else (db1, Ok \<lparr>tcx_organization = o', tcx_api_key = Some k, tcx_quota = get_organization_quota (og_id o') db1, tcx_is_default = False\<rparr>)))"

definition ApiKeyValidator_default_context :: "tenant_faults \<Rightarrow> tenant_db \<Rightarrow> (metadata_error, TenantContext) result" where
  "ApiKeyValidator_default_context f db =
     (if tv_organization f then Err DatabaseError
      else case get_organization TEST_ORG_ID db of
        None \<Rightarrow> Ok TenantContext_default_context
      | Some o' \<Rightarrow> if tv_quota f then Err DatabaseError
          else Ok \<lparr>tcx_organization = o', tcx_api_key = None, tcx_quota = get_organization_quota (og_id o') db, tcx_is_default = True\<rparr>)"

section \<open>New keys\<close>

definition hex_digit :: "nat \<Rightarrow> char" where "hex_digit d = ''0123456789abcdef'' ! d"

definition hex_byte :: "8 word \<Rightarrow> string" where "hex_byte b = [hex_digit (unat b div 16), hex_digit (unat b mod 16)]"

text \<open>The raw key, its hash and its prefix, for 32 random bytes.\<close>

definition generate_api_key :: "(string \<Rightarrow> string) \<Rightarrow> bytes \<Rightarrow> string \<Rightarrow> string \<times> string \<times> string" where
  "generate_api_key sha256 random_bytes key_type =
     (let raw_key = key_type @ ''_'' @ concat (map hex_byte random_bytes) in (raw_key, sha256 raw_key, take 12 raw_key))"

text \<open>The REST handler that creates a key (\<^verbatim>\<open>streamhouse-api/src/handlers/api_keys.rs\<close>); an error is an HTTP status. It answers with the raw key, once.\<close>

definition api_create_api_key ::
  "(string \<Rightarrow> string) \<Rightarrow> bool \<times> bool \<Rightarrow> int \<Rightarrow> string \<Rightarrow> bytes \<Rightarrow> string \<Rightarrow> CreateApiKey \<Rightarrow> tenant_db \<Rightarrow> tenant_db \<times> (nat, string \<times> ApiKeyRow) result" where
  "api_create_api_key sha256 fails now new_id random_bytes org_id req db =
     (if fst fails then (db, Err 500)
      else if get_organization org_id db = None then (db, Err 404)
      else if \<exists>perm \<in> set (cak_permissions req). perm \<notin> {''read'', ''write'', ''admin''} then (db, Err 400)
      else let (raw_key, key_hash, key_prefix) = generate_api_key sha256 random_bytes ''sk_live'' in
        case create_api_key (snd fails) now new_id org_id req key_hash key_prefix db of
          (db', Ok k) \<Rightarrow> (db', Ok (raw_key, k))
        | (db', _) \<Rightarrow> (db', Err 500))"

end
