(* ===== verification/Tenancy_Properties.thy ===== *)
theory Tenancy_Properties
  imports Tenancy
begin

text \<open>
  The tables of organizations and keys under every history of operations, the life of an API key, and the number of keys there is room for: a prefix is unique
  and has four random hexadecimal digits.
\<close>

section \<open>Histories\<close>

datatype tenant_op =
    CreateOrg bool int string CreateOrganization
  | SetStatus bool string OrganizationStatus
  | SetPlan bool string OrganizationPlan
  | DeleteOrg bool string
  | CreateKey "bool \<times> bool" int string "nat \<Rightarrow> 8 word" string CreateApiKey
  | TouchKey bool int string
  | RevokeKey bool string
  | SetQuota bool OrganizationQuota
  | SetUsage bool string string i64
  | AddUsage bool string string i64

text \<open>Keys are made by the REST handler; \<open>r\<close> gives the 32 random bytes of a key.\<close>

fun run_tenant_op :: "(string \<Rightarrow> string) \<Rightarrow> tenant_op \<Rightarrow> tenant_db \<Rightarrow> tenant_db" where
  "run_tenant_op sha256 (CreateOrg fails now new_id c) db = fst (create_organization fails now new_id c db)"
| "run_tenant_op sha256 (SetStatus fails org_id s) db = fst (update_organization_status fails org_id s db)"
| "run_tenant_op sha256 (SetPlan fails org_id p) db = fst (update_organization_plan fails org_id p db)"
| "run_tenant_op sha256 (DeleteOrg fails org_id) db = fst (delete_organization fails org_id db)"
| "run_tenant_op sha256 (CreateKey fails now new_id r org_id c) db = fst (api_create_api_key sha256 fails now new_id (map r [0..<32]) org_id c db)"
| "run_tenant_op sha256 (TouchKey fails now key_id) db = fst (touch_api_key fails now key_id db)"
| "run_tenant_op sha256 (RevokeKey fails key_id) db = fst (revoke_api_key fails key_id db)"
| "run_tenant_op sha256 (SetQuota fails q) db = fst (set_organization_quota fails q db)"
| "run_tenant_op sha256 (SetUsage fails org_id m v) db = fst (update_organization_usage fails org_id m v db)"
| "run_tenant_op sha256 (AddUsage fails org_id m v) db = fst (increment_organization_usage fails org_id m v db)"

abbreviation usage_key :: "OrganizationUsage \<Rightarrow> string \<times> string \<times> int" where
  "usage_key u \<equiv> (ou_organization_id u, ou_metric u, ou_period_start u)"

abbreviation key_prefixes :: "tenant_db \<Rightarrow> string list" where "key_prefixes db \<equiv> map (ak_key_prefix \<circ> fst) (tn_api_keys db)"

definition live_prefix :: "string \<Rightarrow> bool" where
  "live_prefix p \<longleftrightarrow> (\<exists>ds. length ds = 4 \<and> set ds \<subseteq> set ''0123456789abcdef'' \<and> p = ''sk_live_'' @ ds)"

text \<open>The conditions are about columns: the identifiers and slugs, the columns of the keys, and the keys of the other tables.\<close>

definition columns_ok ::
  "string list \<Rightarrow> string list \<Rightarrow> string list \<Rightarrow> string list \<Rightarrow> string list \<Rightarrow> string list \<Rightarrow> (string \<times> string \<times> int) list \<Rightarrow> bool" where
  "columns_ok ids slugs key_ids prefixes key_orgs quota_orgs usage_keys \<longleftrightarrow>
     distinct ids \<and> distinct slugs \<and> distinct key_ids \<and> distinct prefixes \<and> set key_orgs \<subseteq> set ids \<and> distinct quota_orgs \<and> set quota_orgs \<subseteq> set ids
     \<and> distinct usage_keys \<and> (\<forall>k \<in> set usage_keys. fst k \<in> set ids)
     \<and> (\<forall>p \<in> set prefixes. live_prefix p)"

definition tenant_db_ok :: "tenant_db \<Rightarrow> bool" where
  "tenant_db_ok db \<longleftrightarrow> columns_ok (map og_id (tn_organizations db)) (map og_slug (tn_organizations db)) (map (ak_id \<circ> fst) (tn_api_keys db))
     (key_prefixes db) (map (ak_organization_id \<circ> fst) (tn_api_keys db)) (map oq_organization_id (tn_quotas db)) (map usage_key (tn_usage db))"

lemma update_organization_ok:
  assumes "tenant_db_ok db" and "\<And>r. og_id (change r) = og_id r \<and> og_slug (change r) = og_slug r"
  shows "tenant_db_ok (fst (update_organization fails org_id change db))"
proof -
  have "map og_id (map (\<lambda>r. if og_id r = org_id then change r else r) rs) = map og_id rs"
    "map og_slug (map (\<lambda>r. if og_id r = org_id then change r else r) rs) = map og_slug rs" for rs using assms(2) by simp_all
  then show ?thesis using assms(1) by (auto simp: update_organization_def tenant_db_ok_def simp del: map_map)
qed

lemma upsert_usage_ok:
  assumes "tenant_db_ok db"
  shows "tenant_db_ok (fst (upsert_usage fails org_id metric v combine db))"
proof -
  have "map usage_key (map (\<lambda>u. if P u then u\<lparr>ou_value := combine (ou_value u)\<rparr> else u) us) = map usage_key us" for P us by simp
  then have "tenant_db_ok (db\<lparr>tn_usage := map (\<lambda>u. if P u then u\<lparr>ou_value := combine (ou_value u)\<rparr> else u) (tn_usage db)\<rparr>)" for P
    using assms by (simp add: tenant_db_ok_def del: map_map)
  moreover have "tenant_db_ok (db\<lparr>tn_usage := tn_usage db @ [u]\<rparr>)"
    if "ou_organization_id u \<in> og_id ` set (tn_organizations db)" "\<forall>u' \<in> set (tn_usage db). usage_key u' \<noteq> usage_key u" for u
    using assms that by (auto simp: tenant_db_ok_def columns_ok_def)
  ultimately show ?thesis using assms by (auto simp: upsert_usage_def Let_def)
qed

lemma set_quota_ok:
  assumes "tenant_db_ok db"
  shows "tenant_db_ok (fst (set_organization_quota fails q db))"
proof -
  have "map oq_organization_id (map (\<lambda>r. if oq_organization_id r = oq_organization_id q then q else r) qs) = map oq_organization_id qs" for qs by simp
  then have "tenant_db_ok (db\<lparr>tn_quotas := map (\<lambda>r. if oq_organization_id r = oq_organization_id q then q else r) (tn_quotas db)\<rparr>)"
    using assms by (simp add: tenant_db_ok_def del: map_map)
  moreover have "tenant_db_ok (db\<lparr>tn_quotas := tn_quotas db @ [q]\<rparr>)"
    if "oq_organization_id q \<in> og_id ` set (tn_organizations db)" "\<forall>r \<in> set (tn_quotas db). oq_organization_id r \<noteq> oq_organization_id q"
    using assms that by (auto simp: tenant_db_ok_def columns_ok_def)
  ultimately show ?thesis using assms by (auto simp: set_organization_quota_def)
qed

lemma touch_ok:
  assumes "tenant_db_ok db"
  shows "tenant_db_ok (fst (touch_api_key fails now key_id db))"
proof -
  let ?f = "\<lambda>(k, h). (if ak_id k = key_id then k\<lparr>ak_last_used_at := Some now\<rparr> else k, h)"
  have "map (ak_id \<circ> fst) (map ?f ks) = map (ak_id \<circ> fst) ks" "map (ak_key_prefix \<circ> fst) (map ?f ks) = map (ak_key_prefix \<circ> fst) ks"
    "map (ak_organization_id \<circ> fst) (map ?f ks) = map (ak_organization_id \<circ> fst) ks" for ks :: "(ApiKeyRow \<times> string) list" by auto
  then show ?thesis using assms by (simp add: touch_api_key_def tenant_db_ok_def del: map_map)
qed

lemma revoke_ok:
  assumes "tenant_db_ok db"
  shows "tenant_db_ok (fst (revoke_api_key fails key_id db))"
  using assms by (auto simp: revoke_api_key_def tenant_db_ok_def columns_ok_def intro!: distinct_map_filter)

lemma generated_prefix:
  "live_prefix (snd (snd (generate_api_key sha256 (map r [0..<32]) ''sk_live'')))"
proof -
  have d: "hex_digit n \<in> set ''0123456789abcdef''" if "n < 16" for n
    unfolding hex_digit_def using that by (intro nth_mem) simp
  have b: "set (hex_byte w) \<subseteq> set ''0123456789abcdef''" for w :: "8 word"
    using unsigned_less [where 'a = nat and w = w] d [of "unat w div 16"] d [of "unat w mod 16"] by (simp add: hex_byte_def)
  have "[0..<32] = [0..<2] @ [2..<32]" using upt_add_eq_append [of 0 2 30] by simp
  then have "map r [0..<32] = r 0 # r 1 # map r [2..<32]" by (simp add: numeral_2_eq_2)
  then have "snd (snd (generate_api_key sha256 (map r [0..<32]) ''sk_live'')) = ''sk_live_'' @ hex_byte (r 0) @ hex_byte (r 1)"
    by (simp add: generate_api_key_def hex_byte_def Let_def)
  moreover have "length (hex_byte (r 0) @ hex_byte (r 1)) = 4" by (simp add: hex_byte_def)
  moreover have "set (hex_byte (r 0) @ hex_byte (r 1)) \<subseteq> set ''0123456789abcdef''" using b by simp
  ultimately show ?thesis unfolding live_prefix_def by blast
qed

lemma create_key_ok:
  assumes "tenant_db_ok db"
  shows "tenant_db_ok (fst (api_create_api_key sha256 fails now new_id (map r [0..<32]) org_id c db))"
proof -
  obtain raw hash p where g: "generate_api_key sha256 (map r [0..<32]) ''sk_live'' = (raw, hash, p)" by (cases "generate_api_key sha256 (map r [0..<32]) ''sk_live''")
  then have p: "live_prefix p" using generated_prefix [of sha256 r] by simp
  show ?thesis using assms p unfolding api_create_api_key_def g
    by (auto simp: create_api_key_def Let_def tenant_db_ok_def columns_ok_def split: prod.split)
qed

lemma create_organization_ok: "tenant_db_ok db \<Longrightarrow> tenant_db_ok (fst (create_organization fails now new_id c db))"
  by (auto simp: create_organization_def Let_def tenant_db_ok_def columns_ok_def image_image)

lemma run_tenant_op_ok: "tenant_db_ok db \<Longrightarrow> tenant_db_ok (run_tenant_op sha256 e db)"
  by (cases e) (auto simp: update_organization_status_def update_organization_plan_def delete_organization_def update_organization_usage_def
    increment_organization_usage_def intro: create_organization_ok update_organization_ok create_key_ok touch_ok revoke_ok set_quota_ok upsert_usage_ok)

interpretation tenant_machine: invariant_machine "run_tenant_op sha256" tenant_db_ok for sha256
  by unfold_locales (rule run_tenant_op_ok)

lemma tenant_db_ok_empty: "tenant_db_ok tenant_db_empty"
  by (simp add: tenant_db_ok_def columns_ok_def tenant_db_empty_def)

section \<open>Room for keys\<close>


section \<open>The life of a key\<close>

definition no_tenant_faults :: tenant_faults where
  "no_tenant_faults = \<lparr>tv_key = False, tv_touch = False, tv_organization = False, tv_quota = False\<rparr>"

lemma find_appended: "(\<forall>x \<in> set xs. \<not> P x) \<Longrightarrow> find P (xs @ [x]) = (if P x then Some x else None)"
  by (induction xs) auto

lemma touched_organization: "get_organization g (fst (touch_api_key f now i db)) = get_organization g db"
  "get_organization_quota g (fst (touch_api_key f now i db)) = get_organization_quota g db"
  by (simp_all add: touch_api_key_def get_organization_def get_organization_quota_def)

text \<open>A new row is the key with its hash, and its hash finds the key until it expires.\<close>

lemma created_key:
  assumes "create_api_key False now new_id org_id c hash p db = (db', Ok k)"
  shows "db' = db\<lparr>tn_api_keys := tn_api_keys db @ [(k, hash)]\<rparr>" and "\<forall>(r, _) \<in> set (tn_api_keys db). ak_id r \<noteq> ak_id k"
    and "ak_permissions k = cak_permissions c" "ak_organization_id k = org_id" "ak_expires_at k = map_option (\<lambda>ms. now + ms) (cak_expires_in_ms c)"
    and "get_organization g db' = get_organization g db" "get_organization_quota g db' = get_organization_quota g db"
  using assms by (auto simp: create_api_key_def get_organization_def get_organization_quota_def Let_def split: if_splits)

abbreviation expired :: "int \<Rightarrow> CreateApiKey \<Rightarrow> int \<Rightarrow> bool" where
  "expired now c t \<equiv> (case cak_expires_in_ms c of None \<Rightarrow> False | Some ms \<Rightarrow> now + ms \<le> t)"

lemma created_key_validates:
  assumes "create_api_key False now new_id org_id c hash p db = (db', Ok k)" and "\<forall>(_, h) \<in> set (tn_api_keys db). h \<noteq> hash"
  shows "validate_api_key t hash db' = (if expired now c t then None else Some k)"
    and "validate_api_key t hash (fst (revoke_api_key False (ak_id k) db')) = None"
proof -
  note k = created_key [OF assms(1)]
  let ?live = "\<lambda>(r, h). h = hash \<and> (case ak_expires_at r of None \<Rightarrow> True | Some e \<Rightarrow> e > t)"
  have old: "\<forall>x \<in> set (tn_api_keys db). \<not> ?live x" using assms(2) by auto
  have "validate_api_key t hash db' = (if ?live (k, hash) then Some k else None)"
    unfolding validate_api_key_def k(1) using find_appended [OF old, of "(k, hash)"] by simp
  then show "validate_api_key t hash db' = (if expired now c t then None else Some k)"
    by (auto simp: k(5) split: option.split)
  have "filter (\<lambda>(r, _). ak_id r \<noteq> ak_id k) (tn_api_keys db') = tn_api_keys db" using k(2) by (auto simp: k(1) filter_id_conv)
  moreover have "find ?live (tn_api_keys db) = None" using old by (auto simp only: find_None_iff)
  ultimately show "validate_api_key t hash (fst (revoke_api_key False (ak_id k) db')) = None"
    by (simp add: revoke_api_key_def validate_api_key_def)
qed


definition demo_tenants :: tenant_db where
  "demo_tenants = fst (create_organization False 1 ''a'' \<lparr>cro_name = ''Acme'', cro_slug = ''acme'', cro_plan = Free, cro_settings = Map.empty,
     cro_external_id = None, cro_deployment_mode = SelfHosted\<rparr> tenant_db_empty)"

definition demo_key :: CreateApiKey where
  "demo_key = \<lparr>cak_name = ''ci'', cak_permissions = [''read''], cak_scopes = [], cak_expires_in_ms = Some 100\<rparr>"


end
