(* ===== verification/Quotas.thy ===== *)
theory Quotas
  imports Rate_Limiter Tenancy
begin

text \<open>
  The quota enforcer, \<^verbatim>\<open>streamhouse-metadata/src/quota.rs\<close>: token buckets per organization and per key, the checks that requests make against them and
  against the tables, the throttle time and the task that refreshes the rates. A bucket holds thousandths of tokens and refills in floating point; its clock and
  the other readings of the time are arguments, as are failing queries. A call on a bucket is one step.
\<close>

section \<open>Token buckets\<close>

datatype QuotaCheck = Allowed | Denied string | Warning string

fun is_allowed :: "QuotaCheck \<Rightarrow> bool" where
  "is_allowed Allowed = True" | "is_allowed (Warning _) = True" | "is_allowed (Denied _) = False"

fun is_denied :: "QuotaCheck \<Rightarrow> bool" where
  "is_denied (Denied _) = True" | "is_denied Allowed = False" | "is_denied (Warning _) = False"

fun quota_reason :: "QuotaCheck \<Rightarrow> string option" where
  "quota_reason Allowed = None" | "quota_reason (Denied r) = Some r" | "quota_reason (Warning r) = Some r"

record QuotaBucket =
  qb_tokens :: u64
  qb_last_refill_us :: u64
  qb_rate :: i64
  qb_burst :: i64
  qb_epoch :: u64

definition QuotaBucket_new :: "u64 \<Rightarrow> i64 \<Rightarrow> QuotaBucket" where
  "QuotaBucket_new now rate = \<lparr>qb_tokens = rate * 2 * 1000, qb_last_refill_us = 0, qb_rate = rate, qb_burst = rate * 2, qb_epoch = now\<rparr>"

definition f64_of_i64 :: "i64 \<Rightarrow> rat" where "f64_of_i64 i = f64_round (of_int (sint i))"

definition f64_of_u64 :: "u64 \<Rightarrow> rat" where "f64_of_u64 u = f64_round (of_nat (unat u))"

definition saturating_add :: "u64 \<Rightarrow> u64 \<Rightarrow> u64" where
  "saturating_add a b = (if unat a + unat b < 2 ^ 64 then a + b else - 1)"

definition QuotaBucket_refill :: "u64 \<Rightarrow> QuotaBucket \<Rightarrow> QuotaBucket" where
  "QuotaBucket_refill time b =
     (let now = time - qb_epoch b; elapsed_us = saturating_sub now (qb_last_refill_us b);
          added = tokens_to_add (f64_of_i64 (qb_rate b)) elapsed_us
      in if elapsed_us = 0 \<or> sint (qb_rate b) \<le> 0 \<or> sint (qb_burst b) \<le> 0 \<or> added = 0 then b
         else b\<lparr>qb_tokens := min (saturating_add (qb_tokens b) added) (qb_burst b * 1000), qb_last_refill_us := now\<rparr>)"

definition QuotaBucket_try_acquire :: "u64 \<Rightarrow> i64 \<Rightarrow> QuotaBucket \<Rightarrow> QuotaBucket \<times> bool" where
  "QuotaBucket_try_acquire time amount b =
     (if sint amount \<le> 0 then (b, True)
      else let b = QuotaBucket_refill time b; required = amount * 1000 in
        if qb_tokens b < required then (b, False) else (b\<lparr>qb_tokens := qb_tokens b - required\<rparr>, True))"

text \<open>A duration is in nanoseconds; \<^verbatim>\<open>Duration::from_secs_f64\<close> rounds to the nearest one.\<close>

definition QuotaBucket_time_until_available :: "u64 \<Rightarrow> i64 \<Rightarrow> QuotaBucket \<Rightarrow> QuotaBucket \<times> nat" where
  "QuotaBucket_time_until_available time amount b =
     (if sint amount \<le> 0 then (b, 0)
      else let b = QuotaBucket_refill time b; required = amount * 1000 in
        if required \<le> qb_tokens b then (b, 0)
        else if sint (qb_rate b) \<le> 0 then (b, 3600 * 10 ^ 9)
        else (b, nat (round_half_even (f64_round (f64_of_u64 (required - qb_tokens b) / f64_of_u64 (qb_rate b * 1000)) * 10 ^ 9))))"

definition f64_percent :: "rat \<Rightarrow> rat \<Rightarrow> rat" where "f64_percent used whole = f64_round (f64_round (used / whole) * 100)"

definition QuotaBucket_usage_percent :: "u64 \<Rightarrow> QuotaBucket \<Rightarrow> QuotaBucket \<times> rat" where
  "QuotaBucket_usage_percent time b =
     (let b = QuotaBucket_refill time b; max_tokens = qb_burst b * 1000 in
      if sint (qb_burst b) \<le> 0 then (b, 100)
      else (b, f64_percent (f64_of_u64 (saturating_sub max_tokens (qb_tokens b))) (f64_of_u64 max_tokens)))"

definition QuotaBucket_update_rate :: "i64 \<Rightarrow> QuotaBucket \<Rightarrow> QuotaBucket" where
  "QuotaBucket_update_rate new_rate b = b\<lparr>qb_rate := new_rate, qb_burst := new_rate * 2\<rparr>"

section \<open>The state of the enforcer\<close>

record OrgRateLimitState =
  ol_produce_limiter :: QuotaBucket
  ol_consume_limiter :: QuotaBucket
  ol_request_limiter :: QuotaBucket
  ol_last_activity :: u64

record KeyRateLimitState =
  kl_produce_limiter :: "QuotaBucket option"
  kl_consume_limiter :: "QuotaBucket option"
  kl_request_limiter :: "QuotaBucket option"

record QuotaEnforcer =
  qe_rate_limiters :: "string \<rightharpoonup> OrgRateLimitState"
  qe_key_limiters :: "string \<times> string \<rightharpoonup> KeyRateLimitState"

definition QuotaEnforcer_new :: QuotaEnforcer where
  "QuotaEnforcer_new = \<lparr>qe_rate_limiters = Map.empty, qe_key_limiters = Map.empty\<rparr>"

definition OrgRateLimitState_new :: "u64 \<Rightarrow> u64 \<Rightarrow> OrganizationQuota \<Rightarrow> OrgRateLimitState" where
  "OrgRateLimitState_new time secs q = \<lparr>ol_produce_limiter = QuotaBucket_new time (oq_max_produce_bytes_per_sec q),
     ol_consume_limiter = QuotaBucket_new time (oq_max_consume_bytes_per_sec q), ol_request_limiter = QuotaBucket_new time (scast (oq_max_requests_per_sec q)),
     ol_last_activity = secs\<rparr>"

definition update_rates :: "OrganizationQuota \<Rightarrow> OrgRateLimitState \<Rightarrow> OrgRateLimitState" where
  "update_rates q s = s\<lparr>ol_produce_limiter := QuotaBucket_update_rate (oq_max_produce_bytes_per_sec q) (ol_produce_limiter s),
     ol_consume_limiter := QuotaBucket_update_rate (oq_max_consume_bytes_per_sec q) (ol_consume_limiter s),
     ol_request_limiter := QuotaBucket_update_rate (scast (oq_max_requests_per_sec q)) (ol_request_limiter s)\<rparr>"

definition KeyRateLimitState_from_api_key :: "u64 \<Rightarrow> ApiKeyRow \<Rightarrow> KeyRateLimitState option" where
  "KeyRateLimitState_from_api_key time key =
     (if ak_max_requests_per_sec key = None \<and> ak_max_produce_bytes_per_sec key = None \<and> ak_max_consume_bytes_per_sec key = None then None
      else Some \<lparr>kl_produce_limiter = map_option (QuotaBucket_new time) (ak_max_produce_bytes_per_sec key),
        kl_consume_limiter = map_option (QuotaBucket_new time) (ak_max_consume_bytes_per_sec key),
        kl_request_limiter = map_option (\<lambda>r. QuotaBucket_new time (scast r)) (ak_max_requests_per_sec key)\<rparr>)"

text \<open>The readings of a check: the clock of the buckets, one for each use, and the seconds of the activity.\<close>

record quota_clock =
  qc_time :: "nat \<Rightarrow> u64"
  qc_secs :: u64

abbreviation org_of :: "TenantContext \<Rightarrow> string" where "org_of ctx \<equiv> og_id (tcx_organization ctx)"

definition get_or_create_limiter :: "quota_clock \<Rightarrow> TenantContext \<Rightarrow> QuotaEnforcer \<Rightarrow> QuotaEnforcer" where
  "get_or_create_limiter c ctx qe =
     (if qe_rate_limiters qe (org_of ctx) \<noteq> None then qe
      else qe\<lparr>qe_rate_limiters := (qe_rate_limiters qe)(org_of ctx \<mapsto> OrgRateLimitState_new (qc_time c 0) (qc_secs c) (tcx_quota ctx))\<rparr>)"

definition ensure_key_limiter :: "quota_clock \<Rightarrow> string \<Rightarrow> ApiKeyRow \<Rightarrow> QuotaEnforcer \<Rightarrow> QuotaEnforcer" where
  "ensure_key_limiter c org_id key qe =
     (if qe_key_limiters qe (org_id, ak_id key) \<noteq> None then qe
      else case KeyRateLimitState_from_api_key (qc_time c 0) key of
        None \<Rightarrow> qe
      | Some s \<Rightarrow> qe\<lparr>qe_key_limiters := (qe_key_limiters qe)((org_id, ak_id key) \<mapsto> s)\<rparr>)"

definition is_paying :: "TenantContext \<Rightarrow> bool" where
  "is_paying ctx \<longleftrightarrow> og_plan (tcx_organization ctx) \<in> {Pro, Enterprise}"

text \<open>What every check starts with: an inactive organization is refused, a paying one is allowed; \<open>None\<close> lets the check go on.\<close>

definition check_organization :: "TenantContext \<Rightarrow> QuotaCheck option" where
  "check_organization ctx =
     (if og_status (tcx_organization ctx) \<noteq> OrgActive then Some (Denied (''Organization is '' @ OrganizationStatus_to_string (og_status (tcx_organization ctx))))
      else if is_paying ctx then Some Allowed else None)"

section \<open>Counts\<close>

definition show_percent :: "rat \<Rightarrow> string" where "show_percent q = show_int (round_half_even q)"

text \<open>The three checks of a count against its limit; \<open>extra\<close> is a further condition, with its text.\<close>

definition check_count :: "string \<Rightarrow> i32 \<Rightarrow> i32 \<Rightarrow> QuotaCheck option \<Rightarrow> QuotaCheck" where
  "check_count what current limit extra =
     (let ratio = ''('' @ show_int (sint current) @ ''/'' @ show_int (sint limit) @ '')'' in
      if sint current \<ge> sint limit then Denied (what @ '' limit reached '' @ ratio)
      else case extra of Some q \<Rightarrow> q
      | None \<Rightarrow> (let usage_percent = f64_percent (of_int (sint current)) (of_int (sint limit)) in
          if usage_percent > 80 then Warning (what @ '' usage at '' @ show_percent usage_percent @ ''% '' @ ratio) else Allowed))"

definition check_topic_creation :: "bool \<Rightarrow> TenantContext \<Rightarrow> u32 \<Rightarrow> topic_db \<Rightarrow> (metadata_error, QuotaCheck) result" where
  "check_topic_creation fails ctx partition_count tdb =
     (case check_organization ctx of Some q \<Rightarrow> Ok q
      | None \<Rightarrow> if fails then Err DatabaseError
          else Ok (check_count ''Topic'' (of_nat (length (list_topics_for_org (org_of ctx) tdb))) (oq_max_topics (tcx_quota ctx))
            (if sint partition_count > sint (oq_max_partitions_per_topic (tcx_quota ctx))
             then Some (Denied (''Partition count '' @ show_nat (unat partition_count) @ '' exceeds limit of '' @ show_int (sint (oq_max_partitions_per_topic (tcx_quota ctx)))))
             else None)))"

definition check_consumer_group_creation :: "bool \<Rightarrow> TenantContext \<Rightarrow> topic_db \<Rightarrow> (metadata_error, QuotaCheck) result" where
  "check_consumer_group_creation fails ctx tdb =
     (case check_organization ctx of Some q \<Rightarrow> Ok q
      | None \<Rightarrow> if fails then Err DatabaseError
          else Ok (check_count ''Consumer group'' (of_nat (length (list_consumer_groups_for_org (org_of ctx) tdb))) (oq_max_consumer_groups (tcx_quota ctx)) None))"

definition check_connection :: "TenantContext \<Rightarrow> i32 \<Rightarrow> QuotaCheck" where
  "check_connection ctx current_connections =
     (case check_organization ctx of Some q \<Rightarrow> q
      | None \<Rightarrow> check_count ''Connection'' current_connections (oq_max_connections (tcx_quota ctx)) None)"

section \<open>Rates\<close>

text \<open>An acquisition from a bucket of the organization or of a key; \<open>change\<close> is the update of the bucket's field.\<close>

definition org_acquire ::
  "quota_clock \<Rightarrow> TenantContext \<Rightarrow> (OrgRateLimitState \<Rightarrow> QuotaBucket) \<Rightarrow> ((QuotaBucket \<Rightarrow> QuotaBucket) \<Rightarrow> OrgRateLimitState \<Rightarrow> OrgRateLimitState)
     \<Rightarrow> i64 \<Rightarrow> QuotaEnforcer \<Rightarrow> QuotaEnforcer \<times> bool" where
  "org_acquire c ctx bucket change amount qe =
     (let qe = get_or_create_limiter c ctx qe in
      case qe_rate_limiters qe (org_of ctx) of
        None \<Rightarrow> (qe, True)
      | Some s \<Rightarrow> let (b, ok) = QuotaBucket_try_acquire (qc_time c 1) amount (bucket s)
          in (qe\<lparr>qe_rate_limiters := (qe_rate_limiters qe)(org_of ctx \<mapsto> change (\<lambda>_. b) (s\<lparr>ol_last_activity := qc_secs c\<rparr>))\<rparr>, ok))"

definition key_acquire ::
  "quota_clock \<Rightarrow> TenantContext \<Rightarrow> ApiKeyRow \<Rightarrow> (KeyRateLimitState \<Rightarrow> QuotaBucket option)
     \<Rightarrow> ((QuotaBucket option \<Rightarrow> QuotaBucket option) \<Rightarrow> KeyRateLimitState \<Rightarrow> KeyRateLimitState) \<Rightarrow> i64 \<Rightarrow> QuotaEnforcer \<Rightarrow> QuotaEnforcer \<times> bool" where
  "key_acquire c ctx key bucket change amount qe =
     (let qe = ensure_key_limiter c (org_of ctx) key qe in
      case qe_key_limiters qe (org_of ctx, ak_id key) of
        None \<Rightarrow> (qe, True)
      | Some s \<Rightarrow>
          (case bucket s of
             None \<Rightarrow> (qe, True)
           | Some b \<Rightarrow> let (b, ok) = QuotaBucket_try_acquire (qc_time c 2) amount b
               in (qe\<lparr>qe_key_limiters := (qe_key_limiters qe)((org_of ctx, ak_id key) \<mapsto> change (\<lambda>_. Some b) s)\<rparr>, ok)))"

definition org_usage ::
  "quota_clock \<Rightarrow> TenantContext \<Rightarrow> (OrgRateLimitState \<Rightarrow> QuotaBucket) \<Rightarrow> ((QuotaBucket \<Rightarrow> QuotaBucket) \<Rightarrow> OrgRateLimitState \<Rightarrow> OrgRateLimitState)
     \<Rightarrow> QuotaEnforcer \<Rightarrow> QuotaEnforcer \<times> rat" where
  "org_usage c ctx bucket change qe =
     (case qe_rate_limiters qe (org_of ctx) of
        None \<Rightarrow> (qe, 0)
      | Some s \<Rightarrow> let (b, p) = QuotaBucket_usage_percent (qc_time c 3) (bucket s)
          in (qe\<lparr>qe_rate_limiters := (qe_rate_limiters qe)(org_of ctx \<mapsto> change (\<lambda>_. b) s)\<rparr>, p))"

definition check_bytes ::
  "quota_clock \<Rightarrow> TenantContext \<Rightarrow> i64 \<Rightarrow> ApiKeyRow option \<Rightarrow> string \<Rightarrow> i64 \<Rightarrow> (OrgRateLimitState \<Rightarrow> QuotaBucket)
     \<Rightarrow> ((QuotaBucket \<Rightarrow> QuotaBucket) \<Rightarrow> OrgRateLimitState \<Rightarrow> OrgRateLimitState) \<Rightarrow> (ApiKeyRow \<Rightarrow> i64 option) \<Rightarrow> (KeyRateLimitState \<Rightarrow> QuotaBucket option)
     \<Rightarrow> ((QuotaBucket option \<Rightarrow> QuotaBucket option) \<Rightarrow> KeyRateLimitState \<Rightarrow> KeyRateLimitState) \<Rightarrow> QuotaEnforcer \<Rightarrow> QuotaEnforcer \<times> QuotaCheck" where
  "check_bytes c ctx amount api_key what limit bucket change key_limit key_bucket key_change qe =
     (case check_organization ctx of Some q \<Rightarrow> (qe, q)
      | None \<Rightarrow>
          (let (qe1, ok) = org_acquire c ctx bucket change amount qe in
           if \<not> ok then (qe1, Denied (what @ '' rate limit exceeded ('' @ show_int (sint limit) @ '' bytes/s)''))
           else let (qe2, refused) = (case api_key of None \<Rightarrow> (qe1, None)
                  | Some key \<Rightarrow> (case key_limit key of None \<Rightarrow> (qe1, None)
                      | Some l \<Rightarrow> (let (qe2, ok) = key_acquire c ctx key key_bucket key_change amount qe1 in (qe2, if ok then None else Some l))))
                in case refused of
                     Some l \<Rightarrow> (qe2, Denied (''API key '' @ to_lowercase what @ '' rate limit exceeded ('' @ show_int (sint l) @ '' bytes/s)''))
                   | None \<Rightarrow> (let (qe3, usage_percent) = org_usage c ctx bucket change qe2
                       in (qe3, if usage_percent > 80 then Warning (what @ '' rate at '' @ show_percent usage_percent @ ''% of limit'') else Allowed))))"

definition check_produce :: "quota_clock \<Rightarrow> TenantContext \<Rightarrow> i64 \<Rightarrow> ApiKeyRow option \<Rightarrow> QuotaEnforcer \<Rightarrow> QuotaEnforcer \<times> QuotaCheck" where
  "check_produce c ctx amount api_key = check_bytes c ctx amount api_key ''Produce'' (oq_max_produce_bytes_per_sec (tcx_quota ctx))
     ol_produce_limiter ol_produce_limiter_update ak_max_produce_bytes_per_sec kl_produce_limiter kl_produce_limiter_update"

definition check_consume :: "quota_clock \<Rightarrow> TenantContext \<Rightarrow> i64 \<Rightarrow> ApiKeyRow option \<Rightarrow> QuotaEnforcer \<Rightarrow> QuotaEnforcer \<times> QuotaCheck" where
  "check_consume c ctx amount api_key = check_bytes c ctx amount api_key ''Consume'' (oq_max_consume_bytes_per_sec (tcx_quota ctx))
     ol_consume_limiter ol_consume_limiter_update ak_max_consume_bytes_per_sec kl_consume_limiter kl_consume_limiter_update"

definition check_request :: "quota_clock \<Rightarrow> TenantContext \<Rightarrow> ApiKeyRow option \<Rightarrow> QuotaEnforcer \<Rightarrow> QuotaEnforcer \<times> QuotaCheck" where
  "check_request c ctx api_key qe =
     (case check_organization ctx of Some q \<Rightarrow> (qe, q)
      | None \<Rightarrow>
          (let (qe1, ok) = org_acquire c ctx ol_request_limiter ol_request_limiter_update 1 qe in
           if \<not> ok then (qe1, Denied (''Request rate limit exceeded ('' @ show_int (sint (oq_max_requests_per_sec (tcx_quota ctx))) @ ''/s)''))
           else case api_key of None \<Rightarrow> (qe1, Allowed)
             | Some key \<Rightarrow> (case ak_max_requests_per_sec key of None \<Rightarrow> (qe1, Allowed)
                 | Some l \<Rightarrow> (let (qe2, ok) = key_acquire c ctx key kl_request_limiter kl_request_limiter_update 1 qe1 in
                     (qe2, if ok then Allowed else Denied (''API key request rate limit exceeded ('' @ show_int (sint l) @ ''/s)''))))))"

text \<open>The throttle time in milliseconds; the buckets are refilled on the way. The last conversion is \<^verbatim>\<open>u128 as i32\<close>.\<close>

definition wait_org ::
  "u64 \<Rightarrow> (OrgRateLimitState \<Rightarrow> QuotaBucket) \<Rightarrow> ((QuotaBucket \<Rightarrow> QuotaBucket) \<Rightarrow> OrgRateLimitState \<Rightarrow> OrgRateLimitState) \<Rightarrow> i64 option
     \<Rightarrow> OrgRateLimitState \<times> nat \<Rightarrow> OrgRateLimitState \<times> nat" where
  "wait_org time bucket change amount = (\<lambda>(s, max_wait).
     case amount of None \<Rightarrow> (s, max_wait)
     | Some a \<Rightarrow> let (b, w) = QuotaBucket_time_until_available time a (bucket s) in (change (\<lambda>_. b) s, max max_wait w))"

definition throttle_time_ms_for ::
  "quota_clock \<Rightarrow> TenantContext \<Rightarrow> ApiKeyRow option \<Rightarrow> i64 option \<Rightarrow> i64 option \<Rightarrow> QuotaEnforcer \<Rightarrow> QuotaEnforcer \<times> i32" where
  "throttle_time_ms_for c ctx api_key produce_bytes consume_bytes qe =
     (let qe = get_or_create_limiter c ctx qe;
          (qe, max_wait) = (case qe_rate_limiters qe (org_of ctx) of
             None \<Rightarrow> (qe, 0)
           | Some s \<Rightarrow>
               (let (s, w) = wait_org (qc_time c 3) ol_consume_limiter ol_consume_limiter_update consume_bytes
                      (wait_org (qc_time c 2) ol_produce_limiter ol_produce_limiter_update produce_bytes
                      (wait_org (qc_time c 1) ol_request_limiter ol_request_limiter_update (Some 1) (s, 0)))
                in (qe\<lparr>qe_rate_limiters := (qe_rate_limiters qe)(org_of ctx \<mapsto> s)\<rparr>, w)));
          (qe, max_wait) = (case api_key of None \<Rightarrow> (qe, max_wait)
           | Some key \<Rightarrow> if ak_max_requests_per_sec key = None then (qe, max_wait)
               else case qe_key_limiters qe (org_of ctx, ak_id key) of None \<Rightarrow> (qe, max_wait)
                 | Some s \<Rightarrow> (case kl_request_limiter s of None \<Rightarrow> (qe, max_wait)
                     | Some b \<Rightarrow> (let (b, w) = QuotaBucket_time_until_available (qc_time c 4) 1 b in
                         (qe\<lparr>qe_key_limiters := (qe_key_limiters qe)((org_of ctx, ak_id key) \<mapsto> s\<lparr>kl_request_limiter := Some b\<rparr>)\<rparr>, max max_wait w))))
      in (qe, of_nat (max_wait div 10 ^ 6)))"

definition throttle_time_ms :: "quota_clock \<Rightarrow> TenantContext \<Rightarrow> ApiKeyRow option \<Rightarrow> QuotaEnforcer \<Rightarrow> QuotaEnforcer \<times> i32" where
  "throttle_time_ms c ctx api_key = throttle_time_ms_for c ctx api_key None None"

section \<open>Storage and usage\<close>

definition usage_of :: "string \<Rightarrow> OrganizationUsage list \<Rightarrow> i64" where
  "usage_of metric us = (case find (\<lambda>u. ou_metric u = metric) us of Some u \<Rightarrow> ou_value u | None \<Rightarrow> 0)"

definition check_storage :: "bool \<Rightarrow> TenantContext \<Rightarrow> tenant_db \<Rightarrow> (metadata_error, QuotaCheck) result" where
  "check_storage fails ctx db =
     (case check_organization ctx of Some q \<Rightarrow> Ok q
      | None \<Rightarrow> if fails then Err DatabaseError
          else let storage_bytes = usage_of ''storage_bytes'' (get_organization_usage (org_of ctx) db); limit = oq_max_storage_bytes (tcx_quota ctx);
                   ratio = ''('' @ show_int (sint storage_bytes) @ '' of '' @ show_int (sint limit) @ '' bytes)'';
                   usage_percent = f64_percent (f64_of_i64 storage_bytes) (f64_of_i64 limit)
               in Ok (if sint storage_bytes \<ge> sint limit then Denied (''Storage limit exceeded '' @ ratio)
                      else if usage_percent > 80 then Warning (''Storage usage at '' @ show_percent usage_percent @ ''% '' @ ratio) else Allowed))"

definition track_produce_bytes :: "bool \<Rightarrow> TenantContext \<Rightarrow> i64 \<Rightarrow> tenant_db \<Rightarrow> tenant_db \<times> (metadata_error, unit) result" where
  "track_produce_bytes fails ctx = increment_organization_usage fails (org_of ctx) ''produce_bytes''"

definition track_consume_bytes :: "bool \<Rightarrow> TenantContext \<Rightarrow> i64 \<Rightarrow> tenant_db \<Rightarrow> tenant_db \<times> (metadata_error, unit) result" where
  "track_consume_bytes fails ctx = increment_organization_usage fails (org_of ctx) ''consume_bytes''"

definition track_storage_bytes :: "bool \<Rightarrow> TenantContext \<Rightarrow> i64 \<Rightarrow> tenant_db \<Rightarrow> tenant_db \<times> (metadata_error, unit) result" where
  "track_storage_bytes fails ctx = increment_organization_usage fails (org_of ctx) ''storage_bytes''"

record QuotaSummary =
  qs_organization_id :: string
  qs_plan :: OrganizationPlan
  qs_topics_used :: i32
  qs_topics_limit :: i32
  qs_storage_used_bytes :: i64
  qs_storage_limit_bytes :: i64
  qs_produce_rate_limit :: i64
  qs_consume_rate_limit :: i64
  qs_request_rate_limit :: i32
  qs_produce_bytes_total :: i64
  qs_consume_bytes_total :: i64

definition get_quota_summary :: "bool \<Rightarrow> bool \<Rightarrow> TenantContext \<Rightarrow> topic_db \<Rightarrow> tenant_db \<Rightarrow> (metadata_error, QuotaSummary) result" where
  "get_quota_summary topics_fail usage_fails ctx tdb db =
     (if topics_fail \<or> usage_fails then Err DatabaseError
      else let us = get_organization_usage (org_of ctx) db; q = tcx_quota ctx
           in Ok \<lparr>qs_organization_id = org_of ctx, qs_plan = og_plan (tcx_organization ctx),
                qs_topics_used = of_nat (length (list_topics_for_org (org_of ctx) tdb)), qs_topics_limit = oq_max_topics q,
                qs_storage_used_bytes = usage_of ''storage_bytes'' us, qs_storage_limit_bytes = oq_max_storage_bytes q,
                qs_produce_rate_limit = oq_max_produce_bytes_per_sec q, qs_consume_rate_limit = oq_max_consume_bytes_per_sec q,
                qs_request_rate_limit = oq_max_requests_per_sec q, qs_produce_bytes_total = usage_of ''produce_bytes'' us,
                qs_consume_bytes_total = usage_of ''consume_bytes'' us\<rparr>)"

section \<open>Plans\<close>

fun default_quotas_for_plan :: "OrganizationPlan \<Rightarrow> string \<Rightarrow> OrganizationQuota" where
  "default_quotas_for_plan Free org_id = \<lparr>oq_organization_id = org_id, oq_max_topics = 10, oq_max_partitions_per_topic = 12, oq_max_total_partitions = 100,
     oq_max_storage_bytes = 10737418240, oq_max_retention_days = 7, oq_max_produce_bytes_per_sec = 10485760, oq_max_consume_bytes_per_sec = 52428800,
     oq_max_requests_per_sec = 1000, oq_max_consumer_groups = 50, oq_max_schemas = 100, oq_max_schema_versions_per_subject = 100, oq_max_connections = 100\<rparr>"
| "default_quotas_for_plan Pro org_id = \<lparr>oq_organization_id = org_id, oq_max_topics = 100, oq_max_partitions_per_topic = 48, oq_max_total_partitions = 2000,
     oq_max_storage_bytes = 1099511627776, oq_max_retention_days = 90, oq_max_produce_bytes_per_sec = 104857600, oq_max_consume_bytes_per_sec = 524288000,
     oq_max_requests_per_sec = 10000, oq_max_consumer_groups = 500, oq_max_schemas = 1000, oq_max_schema_versions_per_subject = 500, oq_max_connections = 1000\<rparr>"
| "default_quotas_for_plan Enterprise org_id = \<lparr>oq_organization_id = org_id, oq_max_topics = 10000, oq_max_partitions_per_topic = 256, oq_max_total_partitions = 100000,
     oq_max_storage_bytes = 9223372036854775807, oq_max_retention_days = 365, oq_max_produce_bytes_per_sec = 1073741824, oq_max_consume_bytes_per_sec = 5368709120,
     oq_max_requests_per_sec = 100000, oq_max_consumer_groups = 10000, oq_max_schemas = 10000, oq_max_schema_versions_per_subject = 1000, oq_max_connections = 10000\<rparr>"

definition unknown_organization :: "string \<Rightarrow> Organization" where
  "unknown_organization org_id = \<lparr>og_id = org_id, og_name = [], og_slug = [], og_plan = Free, og_status = OrgActive, og_created_at = 0,
     og_settings = Map.empty, og_external_id = None, og_deployment_mode = SelfHosted\<rparr>"

definition resolve_tenant_context :: "bool \<Rightarrow> bool \<Rightarrow> string \<Rightarrow> tenant_db \<Rightarrow> TenantContext" where
  "resolve_tenant_context org_fails quota_fails org_id db =
     (case (if org_fails then None else get_organization org_id db) of
        Some g \<Rightarrow> \<lparr>tcx_organization = g, tcx_api_key = None,
          tcx_quota = (if quota_fails then default_quotas_for_plan (og_plan g) org_id else get_organization_quota org_id db), tcx_is_default = (org_id = TEST_ORG_ID)\<rparr>
      | None \<Rightarrow> \<lparr>tcx_organization = unknown_organization org_id, tcx_api_key = None, tcx_quota = default_quotas_for_plan Free org_id, tcx_is_default = False\<rparr>)"

section \<open>The refresh\<close>

text \<open>One round of the task, for the organizations that had limiters at its start, in the order the map yields them.\<close>

fun refresh_organizations ::
  "u64 \<Rightarrow> (string \<Rightarrow> bool) \<Rightarrow> tenant_db \<Rightarrow> string list \<Rightarrow> QuotaEnforcer \<Rightarrow> QuotaEnforcer \<times> string list" where
  "refresh_organizations now_secs fails db [] qe = (qe, [])"
| "refresh_organizations now_secs fails db (org_id # org_ids) qe =
     (let last_activity = (case qe_rate_limiters qe org_id of Some s \<Rightarrow> ol_last_activity s | None \<Rightarrow> 0) in
      if saturating_sub now_secs last_activity > 300
      then (let (qe', evicted) = refresh_organizations now_secs fails db org_ids qe in (qe', org_id # evicted))
      else refresh_organizations now_secs fails db org_ids
        (if fails org_id then qe
         else qe\<lparr>qe_rate_limiters := (qe_rate_limiters qe)(org_id := map_option (update_rates (get_organization_quota org_id db)) (qe_rate_limiters qe org_id))\<rparr>))"

definition quota_refresh :: "u64 \<Rightarrow> (string \<Rightarrow> bool) \<Rightarrow> tenant_db \<Rightarrow> string list \<Rightarrow> QuotaEnforcer \<Rightarrow> QuotaEnforcer" where
  "quota_refresh now_secs fails db org_ids qe =
     (let (qe', to_evict) = refresh_organizations now_secs fails db org_ids qe
      in qe'\<lparr>qe_rate_limiters := qe_rate_limiters qe' |` (- set to_evict),
             qe_key_limiters := qe_key_limiters qe' |` {k. fst k \<notin> set to_evict}\<rparr>)"

end
