(* ===== verification/Quota_Properties.thy ===== *)
theory Quota_Properties
  imports Quotas Kafka_Topic_Properties
begin

text \<open>
  What the quotas of an organization without a paid plan bound: the amounts that a token bucket lets through, the topics created by requests for them; and how
  a metadata request gets around the latter.
\<close>

section \<open>Buckets\<close>

datatype quota_event = Take u64 i64 | Look u64

text \<open>Both the waiting time and the usage refill the bucket and take nothing.\<close>

fun quota_step :: "quota_event \<Rightarrow> QuotaBucket \<Rightarrow> QuotaBucket" where
  "quota_step (Take time amount) b = fst (QuotaBucket_try_acquire time amount b)"
| "quota_step (Look time) b = QuotaBucket_refill time b"

definition taken :: "quota_event \<Rightarrow> QuotaBucket \<Rightarrow> nat" where
  "taken e b = (case e of Take time amount \<Rightarrow> if 0 < sint amount \<and> snd (QuotaBucket_try_acquire time amount b) then unat (amount * 1000) else 0 | Look _ \<Rightarrow> 0)"

fun accepted :: "quota_event list \<Rightarrow> QuotaBucket \<Rightarrow> nat" where
  "accepted [] b = 0"
| "accepted (e # es) b = (case e of Take time amount \<Rightarrow> if 0 < sint amount \<and> snd (QuotaBucket_try_acquire time amount b) then unat amount else 0 | Look _ \<Rightarrow> 0)
     + accepted es (quota_step e b)"

abbreviation quota_speed :: "i64 \<Rightarrow> rat" where "quota_speed rate \<equiv> of_int (sint rate) / 1000 * (1 + 1 / 2 ^ 49)"

lemma quota_tokens_le:
  assumes "0 \<le> sint rate"
  shows "of_nat (unat (tokens_to_add (f64_of_i64 rate) t)) \<le> quota_speed rate * of_nat (unat t)"
proof -
  let ?r = "of_int (sint rate) :: rat" and ?t = "of_nat (unat t) :: rat"
  have r: "0 \<le> f64_of_i64 rate" "f64_of_i64 rate \<le> ?r * (1 + 1 / 2 ^ 53)" using assms f64_round_error(1) [of ?r] by (simp_all add: f64_of_i64_def f64_round_nonneg del: of_int_sint)
  have "of_nat (unat (tokens_to_add (f64_of_i64 rate) t)) \<le> f64_of_i64 rate * ?t / 1000 * (1 + 1 / 2 ^ 50)" by (rule tokens_to_add_le [OF r(1)])
  also have "\<dots> \<le> ?r * (1 + 1 / 2 ^ 53) * ?t / 1000 * (1 + 1 / 2 ^ 50)" using r by (intro mult_right_mono divide_right_mono) (simp_all del: of_nat_unat)
  also have "\<dots> = ?r * ?t / 1000 * ((1 + 1 / 2 ^ 53) * (1 + 1 / 2 ^ 50))" by (simp add: mult_ac)
  also have "\<dots> \<le> ?r * ?t / 1000 * (1 + 1 / 2 ^ 49)" using assms by (intro mult_left_mono) (simp_all del: of_nat_unat of_int_sint)
  finally show ?thesis by (simp add: mult_ac)
qed

definition quota_bucket_ok :: "i64 \<Rightarrow> QuotaBucket \<Rightarrow> bool" where
  "quota_bucket_ok rate b \<longleftrightarrow> qb_rate b = rate \<and> 0 \<le> sint rate"

lemma quota_refill:
  assumes "quota_bucket_ok rate b"
  shows "quota_bucket_ok rate (QuotaBucket_refill time b)" and "qb_last_refill_us b \<le> qb_last_refill_us (QuotaBucket_refill time b)"
    and "of_nat (unat (qb_tokens (QuotaBucket_refill time b))) \<le> of_nat (unat (qb_tokens b))
      + quota_speed rate * of_nat (unat (qb_last_refill_us (QuotaBucket_refill time b)) - unat (qb_last_refill_us b))"
proof -
  show "quota_bucket_ok rate (QuotaBucket_refill time b)" using assms by (simp add: quota_bucket_ok_def QuotaBucket_refill_def Let_def)
  show "qb_last_refill_us b \<le> qb_last_refill_us (QuotaBucket_refill time b)"
    by (auto simp: QuotaBucket_refill_def Let_def saturating_sub_def split: if_splits)
  let ?t = "saturating_sub (time - qb_epoch b) (qb_last_refill_us b)" and ?a = "\<lambda>t. tokens_to_add (f64_of_i64 (qb_rate b)) t"
  have "unat (min (saturating_add x y) m) \<le> unat x + unat y" for x y m :: u64
    using unat_plus_if' [of x y] unsigned_less [where 'a = nat and w = "- 1 :: u64"] by (auto simp: saturating_add_def min_def word_le_nat_alt split: if_splits)
  then have "of_nat (unat (min (saturating_add (qb_tokens b) (?a ?t)) m)) \<le> of_nat (unat (qb_tokens b)) + (of_nat (unat (?a ?t)) :: rat)" for m
    by (metis of_nat_add of_nat_le_iff)
  moreover have "of_nat (unat (?a ?t)) \<le> quota_speed rate * of_nat (unat ?t)" using quota_tokens_le [of rate ?t] assms by (simp add: quota_bucket_ok_def)
  ultimately have "of_nat (unat (min (saturating_add (qb_tokens b) (?a ?t)) m)) \<le> of_nat (unat (qb_tokens b)) + quota_speed rate * of_nat (unat ?t)" for m
    by (meson add_left_mono order_trans)
  then show "of_nat (unat (qb_tokens (QuotaBucket_refill time b))) \<le> of_nat (unat (qb_tokens b))
      + quota_speed rate * of_nat (unat (qb_last_refill_us (QuotaBucket_refill time b)) - unat (qb_last_refill_us b))"
    unfolding unat_saturating_sub by (simp add: QuotaBucket_refill_def Let_def)
qed

lemma take_tokens:
  "0 < sint amount \<Longrightarrow> unat (qb_tokens (fst (QuotaBucket_try_acquire time amount b))) + taken (Take time amount) b = unat (qb_tokens (QuotaBucket_refill time b))"
  by (auto simp: QuotaBucket_try_acquire_def taken_def Let_def unat_sub word_le_nat_alt word_less_nat_alt)

lemma take_kept:
  "0 < sint amount \<Longrightarrow> qb_last_refill_us (fst (QuotaBucket_try_acquire time amount b)) = qb_last_refill_us (QuotaBucket_refill time b)"
  "0 < sint amount \<Longrightarrow> qb_rate (fst (QuotaBucket_try_acquire time amount b)) = qb_rate (QuotaBucket_refill time b)"
  "\<not> 0 < sint amount \<Longrightarrow> QuotaBucket_try_acquire time amount b = (b, True)"
  by (simp_all add: QuotaBucket_try_acquire_def Let_def)

interpretation org_bucket: metered_bucket quota_step taken "\<lambda>b. unat (qb_tokens b)" "\<lambda>b. unat (qb_last_refill_us b)" "quota_speed rate" "quota_bucket_ok rate" for rate
proof unfold_locales
  fix b e assume ok: "quota_bucket_ok rate b"
  note refill = quota_refill [OF ok]
  show "quota_bucket_ok rate (quota_step e b)"
  proof (cases e)
    case (Take time amount)
    then show ?thesis using ok refill(1) [of time] take_kept [of amount time b] by (cases "0 < sint amount") (simp_all add: quota_bucket_ok_def)
  qed (simp add: refill)
  show "unat (qb_last_refill_us b) \<le> unat (qb_last_refill_us (quota_step e b))"
  proof (cases e)
    case (Take time amount)
    then show ?thesis using refill(2) [of time] take_kept [of amount time b] by (cases "0 < sint amount") (simp_all add: word_le_nat_alt)
  qed (use refill(2) in \<open>simp add: word_le_nat_alt\<close>)
  show "of_nat (unat (qb_tokens (quota_step e b)) + taken e b) \<le> of_nat (unat (qb_tokens b))
      + quota_speed rate * of_nat (unat (qb_last_refill_us (quota_step e b)) - unat (qb_last_refill_us b))"
  proof (cases e)
    case (Take time amount)
    show ?thesis
    proof (cases "0 < sint amount")
      case True
      then show ?thesis unfolding Take quota_step.simps take_tokens [OF True] take_kept(1) [OF True] by (intro refill)
    next
      case False
      then show ?thesis by (simp add: Take take_kept taken_def)
    qed
  next
    case (Look time)
    then show ?thesis using refill(3) [of time] by (simp add: taken_def del: of_nat_unat)
  qed
qed

definition amounts_fit :: "quota_event list \<Rightarrow> bool" where
  "amounts_fit es \<longleftrightarrow> (\<forall>time amount. Take time amount \<in> set es \<longrightarrow> unat amount < 2 ^ 53)"

lemma taken_accepted: "amounts_fit es \<Longrightarrow> org_bucket.total_granted es b = 1000 * accepted es b"
proof (induction es arbitrary: b)
  case (Cons e es)
  have fit: "amounts_fit es" using Cons.prems by (simp add: amounts_fit_def)
  have "taken e b = 1000 * (case e of Take time amount \<Rightarrow> if 0 < sint amount \<and> snd (QuotaBucket_try_acquire time amount b) then unat amount else 0 | Look _ \<Rightarrow> 0)"
  proof (cases e)
    case (Take time amount)
    then have "unat amount < 2 ^ 53" using Cons.prems by (simp add: amounts_fit_def)
    then have "unat (amount * 1000) = unat amount * 1000" by (subst unat_mult_lem [THEN iffD1]) simp_all
    then show ?thesis by (simp add: Take taken_def)
  qed (simp add: taken_def)
  then show ?case using Cons.IH [OF fit] by simp
qed simp


section \<open>Topics\<close>

text \<open>The quota check of a creation as the request handler makes it: only a refusal counts.\<close>

definition topic_quota :: "TenantContext \<Rightarrow> u32 \<Rightarrow> topic_db \<Rightarrow> string option" where
  "topic_quota ctx n db = (case check_topic_creation False ctx n db of Ok (Denied reason) \<Rightarrow> Some reason | _ \<Rightarrow> None)"

abbreviation topic_count :: "string \<Rightarrow> topic_db \<Rightarrow> nat" where "topic_count org db \<equiv> length (list_topics_for_org org db)"

lemma topic_count_filter: "topic_count org db = length (filter (\<lambda>(o', _). o' = org) (td_topics db))"
  by (simp add: list_topics_for_org_def)

lemma unpaid_topic_quota:
  assumes "og_status (tcx_organization ctx) = OrgActive" and "og_plan (tcx_organization ctx) = Free" and "topic_count (org_of ctx) db < 2 ^ 31"
  shows "int (topic_count (org_of ctx) db) \<ge> sint (oq_max_topics (tcx_quota ctx)) \<Longrightarrow> topic_quota ctx n db \<noteq> None"
proof -
  have "sint (of_nat (topic_count (org_of ctx) db) :: i32) = int (topic_count (org_of ctx) db)"
    using sint_of_nat_small(2) [of "topic_count (org_of ctx) db"] assms(3) by simp
  then show "int (topic_count (org_of ctx) db) \<ge> sint (oq_max_topics (tcx_quota ctx)) \<Longrightarrow> topic_quota ctx n db \<noteq> None"
    using assms(1,2) by (simp add: topic_quota_def check_topic_creation_def check_organization_def is_paying_def check_count_def Let_def)
qed

lemma created_topic_count:
  "topic_count org (fst (create_topic_for_org fails now org' c db)) \<le> topic_count org db + (if org = org' then 1 else 0)"
  by (auto simp: topic_count_filter create_topic_for_org_def insert_topic_def)

lemma kafka_create_count:
  assumes "og_status (tcx_organization ctx) = OrgActive" and "og_plan (tcx_organization ctx) = Free" and "ct_quota env = topic_quota ctx"
    and "int (topic_count (org_of ctx) db) \<le> m" and "sint (oq_max_topics (tcx_quota ctx)) \<le> m" and "m < 2 ^ 31"
  shows "int (topic_count (org_of ctx) (fst (kafka_create_topic env (org_of ctx) r db))) \<le> m"
proof -
  let ?n = "if sint (ctq_num_partitions r) \<le> 0 then 1 else ctq_num_partitions r"
  let ?c = "\<lparr>tc_name = string_of_bytes (ctq_name r), tc_partition_count = ?n, tc_retention_ms = None, tc_cleanup_policy = DeletePolicy, tc_config = Map.empty\<rparr>"
  show ?thesis
  proof (cases "topic_quota ctx ?n db")
    case None
    have "topic_count (org_of ctx) db < 2 ^ 31" using assms(4,6) by simp
    then have "\<not> sint (oq_max_topics (tcx_quota ctx)) \<le> int (topic_count (org_of ctx) db)" using unpaid_topic_quota [OF assms(1,2)] None by blast
    then have "int (topic_count (org_of ctx) db) < m" using assms(5) by linarith
    moreover have "fst (kafka_create_topic env (org_of ctx) r db) = fst (create_topic_for_org (ct_fails env) (ct_now env) (org_of ctx) ?c db)"
      using None assms(3) by (auto simp: kafka_create_topic_def Let_def split: prod.split result.split)
    ultimately show ?thesis using created_topic_count [of "org_of ctx" "ct_fails env" "ct_now env" "org_of ctx" ?c db] by simp
  next
    case (Some reason)
    then show ?thesis using assms(3,4) by (simp add: kafka_create_topic_def Let_def)
  qed
qed

lemma created_first:
  "fst (create_topics env validate_only org i (r # rs) db)
    = fst (create_topics env validate_only org (Suc i) rs (if validate_only then db else fst (kafka_create_topic (env i) org r db)))"
  by (simp add: Let_def case_prod_beta)

lemma create_topics_count:
  assumes "og_status (tcx_organization ctx) = OrgActive" and "og_plan (tcx_organization ctx) = Free" and "\<And>i. ct_quota (env i) = topic_quota ctx"
    and "sint (oq_max_topics (tcx_quota ctx)) \<le> m" and "m < 2 ^ 31" and "int (topic_count (org_of ctx) db) \<le> m"
  shows "int (topic_count (org_of ctx) (fst (create_topics env validate_only (org_of ctx) i rs db))) \<le> m"
  using assms(6)
proof (induction rs arbitrary: i db)
  case (Cons r rs)
  have "int (topic_count (org_of ctx) (fst (kafka_create_topic (env i) (org_of ctx) r db))) \<le> m"
    by (rule kafka_create_count) (use assms Cons.prems in auto)
  then have "int (topic_count (org_of ctx) (if validate_only then db else fst (kafka_create_topic (env i) (org_of ctx) r db))) \<le> m" using Cons.prems by simp
  from Cons.IH [OF this] show ?case unfolding created_first .
qed simp


text \<open>
  A metadata request gets around the quota: where the creation of a topic is refused for an organization without a paid plan because it is at its limit, and a
  request to create it leaves the tables as they are, a metadata request that allows automatic creation creates the topic.
\<close>

theorem metadata_request_exceeds_quota:
  assumes "og_status (tcx_organization ctx) = OrgActive" and "og_plan (tcx_organization ctx) = Free" and "ct_quota env = topic_quota ctx"
    and "sint (oq_max_topics (tcx_quota ctx)) \<le> int (topic_count (org_of ctx) db)" and "topic_count (org_of ctx) db < 2 ^ 31"
    and "4 \<le> sint v" "sint v \<le> 8" and "short_string (ctq_name r)" and "metadata_undisturbed menv" and "org_of ctx \<in> set (organization_ids db)"
    and "string_of_bytes (ctq_name r) \<notin> topic_names (org_of ctx) db"
  shows "fst (kafka_create_topic env (org_of ctx) r db) = db \<and> ctr_error_code (snd (kafka_create_topic env (org_of ctx) r db)) = EC_PolicyViolation
    \<and> topic_names (org_of ctx) (fst (handle_metadata menv cfg (org_of ctx) v (metadata_request v [ctq_name r] True) db))
        = insert (string_of_bytes (ctq_name r)) (topic_names (org_of ctx) db)"
proof -
  let ?n = "if sint (ctq_num_partitions r) \<le> 0 then 1 else ctq_num_partitions r" and ?db' = "fst (handle_metadata menv cfg (org_of ctx) v (metadata_request v [ctq_name r] True) db)"
  obtain reason where "topic_quota ctx ?n db = Some reason" using unpaid_topic_quota [OF assms(1,2,5,4), of ?n] by blast
  moreover obtain ts where new: "new_topics (org_of ctx) {string_of_bytes (ctq_name r)} db ts ?db'" and known: "string_of_bytes (ctq_name r) \<in> topic_names (org_of ctx) ?db'"
    using metadata_effect [OF assms(6,7) _ _ _ assms(9,10), of "[ctq_name r]" cfg] assms(8) by auto
  have "tr_name ` set ts \<subseteq> {string_of_bytes (ctq_name r)}" using new by (auto simp: new_topics_def)
  then have "topic_names (org_of ctx) ?db' = insert (string_of_bytes (ctq_name r)) (topic_names (org_of ctx) db)"
    using new_topics_names [OF new] known by blast
  ultimately show ?thesis using assms(3) by (simp add: kafka_create_topic_def Let_def)
qed

section \<open>Examples\<close>

definition free_tenant :: TenantContext where
  "free_tenant = \<lparr>tcx_organization = (unknown_organization ''a''), tcx_api_key = None, tcx_quota = OrganizationQuota_default\<lparr>oq_max_topics := 1\<rparr>, tcx_is_default = False\<rparr>"

definition quota_env :: create_env where
  "quota_env = \<lparr>ct_quota = topic_quota free_tenant, ct_fails = False, ct_now = 5, ct_db_text = []\<rparr>"

lemma free_tenant_at_limit: "og_id (tcx_organization free_tenant) = ''a''" "topic_count ''a'' demo_topic_db = 1" "sint (oq_max_topics (tcx_quota free_tenant)) = 1"
  "og_status (tcx_organization free_tenant) = OrgActive" "og_plan (tcx_organization free_tenant) = Free"
  by (simp_all add: free_tenant_def unknown_organization_def demo_topic_db_eval list_topics_for_org_def)



theorem metadata_request_exceeds_quota_witness:
  "ctr_error_code (snd (kafka_create_topic quota_env ''a'' \<lparr>ctq_name = [103], ctq_num_partitions = 1, ctq_replication_factor = 1\<rparr> demo_topic_db)) = EC_PolicyViolation
   \<and> topic_names ''a'' (fst (handle_metadata quiet_metadata demo_kafka ''a'' 4 (metadata_request 4 [[103]] True) demo_topic_db)) = {''g'', ''orders''}"
  using metadata_request_exceeds_quota [of free_tenant quota_env demo_topic_db 4 "\<lparr>ctq_name = [103], ctq_num_partitions = 1, ctq_replication_factor = 1\<rparr>" quiet_metadata demo_kafka]
    demo_metadata by (simp add: free_tenant_at_limit quota_env_def demo_letters demo_letter)

end
