(* ===== verification/Kafka_Server.thy ===== *)
theory Kafka_Server
  imports Quotas Kafka_Topic_Handlers
begin

text \<open>
  The Kafka server: \<^verbatim>\<open>streamhouse-kafka/src/tenant.rs\<close>, \<^verbatim>\<open>handlers/sasl.rs\<close> and \<^verbatim>\<open>server.rs\<close>. A connection is a state and a frame is one step of it: the header,
  the tenant of the connection, its place in the count of connections, and the handler of the request. What a handler asks the world for (the clock, new
  identifiers, failing statements, the answers of routers and enforcers) is one record per request. Sockets, the sleep of a throttled response and metrics are left out.
\<close>

section \<open>Tenants of connections\<close>

datatype AuthMethod = Anonymous | SaslPlain | ClientIdPrefix

record KafkaTenantContext =
  kt_tenant :: TenantContext
  kt_auth_method :: AuthMethod

definition KafkaTenantContext_default_context :: KafkaTenantContext where
  "KafkaTenantContext_default_context = \<lparr>kt_tenant = TenantContext_default_context, kt_auth_method = Anonymous\<rparr>"

definition is_anonymous :: "KafkaTenantContext \<Rightarrow> bool" where "is_anonymous ctx \<longleftrightarrow> kt_auth_method ctx = Anonymous"

record KafkaTenantResolver =
  kr_allow_anonymous :: bool

definition with_anonymous_allowed :: "bool \<Rightarrow> KafkaTenantResolver \<Rightarrow> KafkaTenantResolver" where
  "with_anonymous_allowed allow r = r\<lparr>kr_allow_anonymous := allow\<rparr>"

text \<open>The store, as the resolver sees it: the hash, the clock, faults and the text of a database error.\<close>

record auth_env =
  ae_sha256 :: "string \<Rightarrow> string"
  ae_now :: int
  ae_faults :: tenant_faults
  ae_db_text :: string

definition resolve_sasl_plain ::
  "auth_env \<Rightarrow> string \<Rightarrow> string \<Rightarrow> tenant_db \<Rightarrow> tenant_db \<times> (KafkaError, KafkaTenantContext) result" where
  "resolve_sasl_plain env username password db =
     (let failed = (\<lambda>text. Err (KafkaError.AuthenticationError text)); db_failed = failed (metadata_error_text (ae_db_text env) DatabaseError) in
      if tv_key (ae_faults env) then (db, db_failed)
      else case validate_api_key (ae_now env) (ae_sha256 env username) db of
        None \<Rightarrow> (db, failed ''Invalid API key'')
      | Some key \<Rightarrow>
          if tv_organization (ae_faults env) then (db, db_failed)
          else case get_organization (ak_organization_id key) db of
            None \<Rightarrow> (db, failed ''Organization not found'')
          | Some g \<Rightarrow>
              if og_status g \<noteq> OrgActive then (db, failed (''Organization is '' @ OrganizationStatus_to_string (og_status g)))
              else if tv_quota (ae_faults env) then (db, db_failed)
              else (fst (touch_api_key (tv_touch (ae_faults env)) (ae_now env) (ak_id key) db),
                Ok \<lparr>kt_tenant = \<lparr>tcx_organization = g, tcx_api_key = Some key, tcx_quota = get_organization_quota (ak_organization_id key) db, tcx_is_default = False\<rparr>,
                    kt_auth_method = SaslPlain\<rparr>))"

definition client_id_starts_with :: "string \<Rightarrow> bytes \<Rightarrow> bool" where
  "client_id_starts_with p bs \<longleftrightarrow> take (length p) bs = bytes_of_string p"

text \<open>Slicing a string off a character boundary panics.\<close>

definition char_boundary :: "nat \<Rightarrow> bytes \<Rightarrow> bool" where
  "char_boundary i bs \<longleftrightarrow> i = length bs \<or> i < length bs \<and> \<not> (0x80 \<le> bs ! i \<and> bs ! i \<le> 0xBF)"

definition try_resolve_from_client_id ::
  "auth_env \<Rightarrow> bytes \<Rightarrow> tenant_db \<Rightarrow> tenant_db \<times> (KafkaError, KafkaTenantContext option) result" where
  "try_resolve_from_client_id env client_id db =
     (if \<not> (client_id_starts_with ''sk_live_'' client_id \<or> client_id_starts_with ''sk_test_'' client_id) \<or> length client_id < 20 then (db, Ok None)
      else if \<not> char_boundary 20 client_id then (db, Panic)
      else if length client_id < 32 then (db, Ok None)
      else case resolve_sasl_plain env (string_of_bytes client_id) (string_of_bytes client_id) db of
        (db', Ok ctx) \<Rightarrow> (db', Ok (Some (ctx\<lparr>kt_auth_method := ClientIdPrefix\<rparr>)))
      | (db', Err _) \<Rightarrow> (db', Ok None)
      | (db', Panic) \<Rightarrow> (db', Panic))"

definition resolver_default_context :: "KafkaTenantResolver \<Rightarrow> (KafkaError, KafkaTenantContext) result" where
  "resolver_default_context r =
     (if \<not> kr_allow_anonymous r then Err (KafkaError.AuthenticationError ''Anonymous connections not allowed'') else Ok KafkaTenantContext_default_context)"

definition resolver_resolve ::
  "auth_env \<Rightarrow> KafkaTenantResolver \<Rightarrow> string option \<Rightarrow> string option \<Rightarrow> bytes option \<Rightarrow> tenant_db \<Rightarrow> tenant_db \<times> (KafkaError, KafkaTenantContext) result" where
  "resolver_resolve env r sasl_username sasl_password client_id db =
     (case (sasl_username, sasl_password) of
        (Some u, Some p) \<Rightarrow> resolve_sasl_plain env u p db
      | _ \<Rightarrow>
          (case client_id of
             None \<Rightarrow> (db, resolver_default_context r)
           | Some cid \<Rightarrow>
               (case try_resolve_from_client_id env cid db of
                  (db', Ok (Some ctx)) \<Rightarrow> (db', Ok ctx)
                | (db', Panic) \<Rightarrow> (db', Panic)
                | (db', _) \<Rightarrow> (db', resolver_default_context r))))"

section \<open>SASL\<close>

definition handle_sasl_handshake :: "i16 \<Rightarrow> bytes \<Rightarrow> (KafkaError, bytes) result" where
  "handle_sasl_handshake api_version body =
     rbind (parse_string body) (\<lambda>(mechanism, _).
       Ok (put_i16 (ErrorCode_as_i16 (if to_lowercase (string_of_bytes mechanism) = ''plain'' then EC_None else EC_UnsupportedSaslMechanism))
         @ put_i32 1 @ encode_string (bytes_of_string ''PLAIN'')))"

text \<open>\<^verbatim>\<open>splitn(3, |b| b == 0)\<close>: the third part keeps its separators.\<close>

definition decode_sasl_plain :: "bytes \<Rightarrow> (bytes \<times> bytes) option" where
  "decode_sasl_plain data =
     (case dropWhile (\<lambda>b. b \<noteq> 0) data of
        [] \<Rightarrow> None
      | _ # rest \<Rightarrow>
          (case dropWhile (\<lambda>b. b \<noteq> 0) rest of
             [] \<Rightarrow> None
           | _ # password \<Rightarrow>
               (let username = takeWhile (\<lambda>b. b \<noteq> 0) rest in
                if \<not> utf8_valid username \<or> \<not> utf8_valid password \<or> username = [] then None else Some (username, password))))"

definition sasl_auth_response :: "i16 \<Rightarrow> ErrorCode \<Rightarrow> string option \<Rightarrow> bytes" where
  "sasl_auth_response api_version code message =
     (let v = sint api_version; compact = (v \<ge> 2) in
      put_i16 (ErrorCode_as_i16 code) @ put_nullable_str compact (map_option bytes_of_string message)
      @ (if compact then encode_compact_nullable_bytes None else put_i32 (- 1)) @ put_if (v \<ge> 1) (put_i64 0) @ put_tags compact)"

definition build_sasl_auth_error :: "i16 \<Rightarrow> string \<Rightarrow> bytes" where
  "build_sasl_auth_error api_version message = sasl_auth_response api_version EC_SaslAuthenticationFailed (Some message)"

text \<open>The bytes of the credentials; the inner \<open>None\<close> stands for data that does not fit the request.\<close>

definition parse_auth_bytes :: "i16 \<Rightarrow> bytes \<Rightarrow> (KafkaError, bytes option) result" where
  "parse_auth_bytes api_version body =
     (if sint api_version \<ge> 2
      then rbind (parse_unsigned_varint body) (\<lambda>(len, buf).
        Ok (if len = 0 then Some [] else if length buf < unat (len - 1) then None else Some (take (unat (len - 1)) buf)))
      else if length body < 4 then Ok None
      else rbind (get_i32 body) (\<lambda>(len, buf).
        Ok (if sint len < 0 \<or> length buf < unat len then None else Some (take (unat len) buf))))"

text \<open>The text of an error; the system's text of an I/O error is an argument.\<close>

fun kafka_error_text :: "string \<Rightarrow> KafkaError \<Rightarrow> string" where
  "kafka_error_text io (Unknown t) = ''Unknown error: '' @ t"
| "kafka_error_text io KIo = ''IO error: '' @ io"
| "kafka_error_text io (Protocol t) = ''Protocol error: '' @ t"
| "kafka_error_text io (TopicNotFound t) = ''Topic not found: '' @ t"
| "kafka_error_text io (PartitionNotFound t p) = ''Partition not found: topic='' @ t @ '', partition='' @ show_int (int (unat p))"
| "kafka_error_text io (InvalidRequest t) = ''Invalid request: '' @ t"
| "kafka_error_text io (UnsupportedApi k v) = ''Unsupported API: key='' @ show_int (sint k) @ '', version='' @ show_int (sint v)"
| "kafka_error_text io (ConsumerGroupError t) = ''Consumer group error: '' @ t"
| "kafka_error_text io (NotCoordinator t) = ''Not coordinator for group: '' @ t"
| "kafka_error_text io (RebalanceInProgress t) = ''Rebalance in progress for group: '' @ t"
| "kafka_error_text io (MemberNotFound g m) = ''Member not found: group='' @ g @ '', member='' @ m"
| "kafka_error_text io (InvalidGeneration a b) = ''Invalid generation: expected='' @ show_int (sint a) @ '', got='' @ show_int (sint b)"
| "kafka_error_text io (OffsetOutOfRange n) = ''Offset out of range: '' @ show_int (int (unat n))"
| "kafka_error_text io (MetadataStore t) = ''Metadata store error: '' @ t"
| "kafka_error_text io (Storage t) = ''Storage error: '' @ t"
| "kafka_error_text io (KCompression t) = ''Compression error: '' @ t"
| "kafka_error_text io ConnectionClosed = ''Connection closed''"
| "kafka_error_text io (KafkaError.AuthenticationError t) = ''Authentication error: '' @ t"
| "kafka_error_text io (AuthorizationError t) = ''Authorization error: '' @ t"

definition handle_sasl_authenticate ::
  "auth_env \<Rightarrow> KafkaTenantResolver option \<Rightarrow> i16 \<Rightarrow> bytes \<Rightarrow> tenant_db \<Rightarrow> tenant_db \<times> (KafkaError, bytes \<times> KafkaTenantContext option) result" where
  "handle_sasl_authenticate env resolver api_version body db =
     (let failed = (\<lambda>message. Ok (build_sasl_auth_error api_version message, None)) in
      case parse_auth_bytes api_version body of
        Err e \<Rightarrow> (db, Err e)
      | Panic \<Rightarrow> (db, Panic)
      | Ok None \<Rightarrow> (db, failed ''Invalid auth data'')
      | Ok (Some data) \<Rightarrow>
          (case decode_sasl_plain data of
             None \<Rightarrow> (db, failed ''Invalid SASL/PLAIN format'')
           | Some (username, password) \<Rightarrow>
               if resolver = None then (db, failed ''Authentication not configured'')
               else case resolve_sasl_plain env (string_of_bytes username) (string_of_bytes password) db of
                 (db', Ok ctx) \<Rightarrow> (db', Ok (sasl_auth_response api_version EC_None None, Some ctx))
               | (db', Err e) \<Rightarrow> (db', failed (''Authentication failed: '' @ kafka_error_text (ae_db_text env) e))
               | (db', Panic) \<Rightarrow> (db', Panic)))"

section \<open>The state of the server\<close>

text \<open>\<open>'r\<close> is the state of the router to the agents, \<open>'l\<close> that of the cache's list of recent segments.\<close>

record ('r, 'l) kafka_state =
  kq_tenants :: tenant_db
  kq_topics :: topic_db
  kq_producers :: producer_db
  kq_router :: 'r
  kq_groups :: GroupCoordinator
  kq_cache :: "'l SegmentCache"
  kq_enforcer :: "QuotaEnforcer option"
  kq_active_connections :: "string \<rightharpoonup> u32"

record 'l kafka_setup =
  kp_config :: KafkaServerConfig
  kp_resolver :: "KafkaTenantResolver option"
  kp_lru :: "'l LruOps"

text \<open>The answers of the world to one request; those that depend on the organization take it as an argument.\<close>

record 'r request_env =
  rq_auth :: auth_env
  rq_context_fails :: "bool \<times> bool"
  rq_clock :: "nat \<Rightarrow> quota_clock"
  rq_produce :: "string \<Rightarrow> nat \<Rightarrow> 'r kafka_env"
  rq_produce_quota :: "nat \<Rightarrow> (i32 option \<times> bool) option"
  rq_fetch :: "string \<Rightarrow> bytes \<Rightarrow> u32 \<Rightarrow> fetch_env"
  rq_fetch_quota :: "nat \<Rightarrow> i32 option"
  rq_list_offsets :: "nat \<Rightarrow> list_offsets_env"
  rq_iteration :: iteration
  rq_uuid :: string
  rq_group_now :: "nat \<Rightarrow> nat"
  rq_group_quota :: bool
  rq_commit_fails :: "nat \<Rightarrow> bool \<times> bool"
  rq_offsets_fail :: "nat \<Rightarrow> bool"
  rq_create :: "nat \<Rightarrow> create_env"
  rq_delete_fails :: "nat \<Rightarrow> bool"
  rq_metadata :: metadata_env
  rq_init_fails :: bool
  rq_txn :: txn_env

record ConnectionState =
  cs_client_id :: "bytes option"
  cs_tenant :: "KafkaTenantContext option"
  cs_connection_guard :: "string option"

definition ConnectionState_new :: ConnectionState where
  "ConnectionState_new = \<lparr>cs_client_id = None, cs_tenant = None, cs_connection_guard = None\<rparr>"

section \<open>Requests\<close>

definition build_response :: "RequestHeader \<Rightarrow> bytes \<Rightarrow> bytes" where
  "build_response header response_body =
     (if is_flexible_version (rh_api_key header) (rh_api_version header) \<and> rh_api_key header \<noteq> ApiKey_as_i16 Api_ApiVersions
      then ResponseHeader_encode_flexible (rh_correlation_id header) else ResponseHeader_encode (rh_correlation_id header)) @ response_body"

text \<open>A handler works on a part of the state.\<close>

definition on_topics :: "(topic_db \<Rightarrow> topic_db \<times> 'x) \<Rightarrow> ('r, 'l) kafka_state \<Rightarrow> ('r, 'l) kafka_state \<times> 'x" where
  "on_topics h st = (let (db, x) = h (kq_topics st) in (st\<lparr>kq_topics := db\<rparr>, x))"

definition on_producers :: "(producer_db \<Rightarrow> producer_db \<times> 'x) \<Rightarrow> ('r, 'l) kafka_state \<Rightarrow> ('r, 'l) kafka_state \<times> 'x" where
  "on_producers h st = (let (db, x) = h (kq_producers st) in (st\<lparr>kq_producers := db\<rparr>, x))"

definition on_groups :: "(GroupCoordinator \<Rightarrow> GroupCoordinator \<times> 'x) \<Rightarrow> ('r, 'l) kafka_state \<Rightarrow> ('r, 'l) kafka_state \<times> 'x" where
  "on_groups h st = (let (g, x) = h (kq_groups st) in (st\<lparr>kq_groups := g\<rparr>, x))"

text \<open>The \<^verbatim>\<open>match\<close> of \<^verbatim>\<open>handle_request\<close>; the SASL requests are handled before it.\<close>

fun dispatch ::
  "'l kafka_setup \<Rightarrow> 'r request_env \<Rightarrow> string \<Rightarrow> RequestHeader \<Rightarrow> i32 \<Rightarrow> bytes \<Rightarrow> ApiKey \<Rightarrow> ('r, 'l) kafka_state \<Rightarrow> ('r, 'l) kafka_state \<times> (KafkaError, bytes) result" where
  "dispatch kp env org h ms body Api_ApiVersions st = (st, Ok (handle_api_versions (rh_api_version h)))"
| "dispatch kp env org h ms body Api_Metadata st = on_topics (handle_metadata (rq_metadata env) (kp_config kp) org (rh_api_version h) body) st"
| "dispatch kp env org h ms body Api_Produce st =
     (case handle_produce (rq_produce env org) (rq_produce_quota env) (rh_api_version h) ms body (kq_producers st, kq_router st) of
        ((db, r), x) \<Rightarrow> (st\<lparr>kq_producers := db, kq_router := r\<rparr>, x))"
| "dispatch kp env org h ms body Api_Fetch st = (st, handle_fetch (rq_fetch env org) (rq_fetch_quota env) (rh_api_version h) ms body (kq_producers st))"
| "dispatch kp env org h ms body Api_ListOffsets st =
     (case handle_list_offsets (kp_lru kp) (rq_list_offsets env) org (rh_api_version h) body (kq_topics st) (kq_producers st) (kq_cache st) of
        (c, x) \<Rightarrow> (st\<lparr>kq_cache := c\<rparr>, x))"
| "dispatch kp env org h ms body Api_FindCoordinator st = (st, handle_find_coordinator (kp_config kp) (rh_api_version h) body)"
| "dispatch kp env org h ms body Api_JoinGroup st =
     on_groups (handle_join_group (rq_iteration env) (rq_uuid env) (rq_group_now env 0) (rq_group_quota env) org (rh_api_version h) (rh_client_id h) body) st"
| "dispatch kp env org h ms body Api_SyncGroup st = on_groups (handle_sync_group (rq_group_now env 0) org (rh_api_version h) body) st"
| "dispatch kp env org h ms body Api_Heartbeat st = on_groups (handle_heartbeat (rq_group_now env 0) org (rh_api_version h) body) st"
| "dispatch kp env org h ms body Api_LeaveGroup st = on_groups (handle_leave_group (rq_iteration env) (rq_group_now env) org (rh_api_version h) body) st"
| "dispatch kp env org h ms body Api_OffsetCommit st = on_topics (handle_offset_commit (rq_commit_fails env) org (rh_api_version h) body) st"
| "dispatch kp env org h ms body Api_OffsetFetch st = (st, handle_offset_fetch (rq_offsets_fail env) org (rh_api_version h) body (kq_topics st))"
| "dispatch kp env org h ms body Api_CreateTopics st = on_topics (handle_create_topics (rq_create env) org (rh_api_version h) body) st"
| "dispatch kp env org h ms body Api_DeleteTopics st = on_topics (handle_delete_topics (rq_delete_fails env) (ae_db_text (rq_auth env)) org (rh_api_version h) body) st"
| "dispatch kp env org h ms body Api_DescribeGroups st = (st, handle_describe_groups (rq_iteration env) org (rh_api_version h) body (kq_groups st))"
| "dispatch kp env org h ms body Api_ListGroups st = (st, handle_list_groups (rq_iteration env) org (rh_api_version h) body (kq_groups st))"
| "dispatch kp env org h ms body Api_InitProducerId st =
     on_producers (handle_init_producer_id (rq_init_fails env) (ae_now (rq_auth env)) (rq_uuid env) org (rh_api_version h) body) st"
| "dispatch kp env org h ms body Api_AddPartitionsToTxn st = on_producers (handle_add_partitions_to_txn (rq_txn env) org (rh_api_version h) body) st"
| "dispatch kp env org h ms body Api_AddOffsetsToTxn st = on_producers (handle_add_offsets_to_txn (rq_txn env) org (rh_api_version h) body) st"
| "dispatch kp env org h ms body Api_EndTxn st = on_producers (handle_end_txn (rq_txn env) org (rh_api_version h) body) st"
| "dispatch kp env org h ms body Api_TxnOffsetCommit st = on_topics (handle_txn_offset_commit (rq_commit_fails env) org (rh_api_version h) body) st"
| "dispatch kp env org h ms body Api_SaslHandshake st = (st, Panic)"
| "dispatch kp env org h ms body Api_SaslAuthenticate st = (st, Panic)"

definition connection_org :: "ConnectionState \<Rightarrow> string" where
  "connection_org conn = (case cs_tenant conn of Some t \<Rightarrow> org_of (kt_tenant t) | None \<Rightarrow> [])"

text \<open>The throttle time of a request; only the rate of requests is asked for, and not that of the key.\<close>

definition request_throttle :: "'r request_env \<Rightarrow> ConnectionState \<Rightarrow> ('r, 'l) kafka_state \<Rightarrow> ('r, 'l) kafka_state \<times> i32" where
  "request_throttle env conn st =
     (case kq_enforcer st of
        None \<Rightarrow> (st, 0)
      | Some qe \<Rightarrow>
          (let ctx = (case cs_tenant conn of Some t \<Rightarrow> kt_tenant t
             | None \<Rightarrow> resolve_tenant_context (fst (rq_context_fails env)) (snd (rq_context_fails env)) (connection_org conn) (kq_tenants st));
               (qe, ms) = throttle_time_ms (rq_clock env 1) ctx None (fst (check_request (rq_clock env 0) ctx None qe))
           in (st\<lparr>kq_enforcer := Some qe\<rparr>, ms)))"

definition handle_request ::
  "'l kafka_setup \<Rightarrow> 'r request_env \<Rightarrow> RequestHeader \<Rightarrow> bytes \<Rightarrow> ConnectionState \<Rightarrow> ('r, 'l) kafka_state
     \<Rightarrow> ('r, 'l) kafka_state \<times> ConnectionState \<times> (KafkaError, bytes \<times> i32) result" where
  "handle_request kp env header body conn st =
     (case ApiKey_from_i16 (rh_api_key header) of
        Some Api_SaslHandshake \<Rightarrow> (st, conn, rbind (handle_sasl_handshake (rh_api_version header) body) (\<lambda>bs. Ok (build_response header bs, 0)))
      | Some Api_SaslAuthenticate \<Rightarrow>
          (case handle_sasl_authenticate (rq_auth env) (kp_resolver kp) (rh_api_version header) body (kq_tenants st) of
             (db, x) \<Rightarrow> (st\<lparr>kq_tenants := db\<rparr>, (case x of Ok (_, Some ctx) \<Rightarrow> conn\<lparr>cs_tenant := Some ctx\<rparr> | _ \<Rightarrow> conn),
               rbind x (\<lambda>(bs, _). Ok (build_response header bs, 0))))
      | key \<Rightarrow>
          (let (st1, throttle_time_ms) = request_throttle env conn st in
           case key of
             None \<Rightarrow> (st1, conn, Err (UnsupportedApi (rh_api_key header) (rh_api_version header)))
           | Some k \<Rightarrow> (let (st2, x) = dispatch kp env (connection_org conn) header throttle_time_ms body k st1
               in (st2, conn, rbind x (\<lambda>bs. Ok (build_response header bs, throttle_time_ms))))))"

section \<open>Connections\<close>

text \<open>The count of connections: the increment comes before the check, and the guard undoes it when the connection ends.\<close>

definition admit_connection :: "bool \<Rightarrow> TenantContext \<Rightarrow> (string \<rightharpoonup> u32) \<Rightarrow> (string \<rightharpoonup> u32) \<times> bool" where
  "admit_connection enforced ctx active =
     (let count = (case active (org_of ctx) of Some n \<Rightarrow> n | None \<Rightarrow> 0) + 1
      in (active(org_of ctx \<mapsto> count), \<not> (enforced \<and> is_denied (check_connection ctx count))))"

definition release_connection :: "string \<Rightarrow> (string \<rightharpoonup> u32) \<Rightarrow> (string \<rightharpoonup> u32)" where
  "release_connection org active = (case active org of Some n \<Rightarrow> active(org \<mapsto> n - 1) | None \<Rightarrow> active)"

text \<open>A frame: the header, the tenant by the client's identifier, the admission, the request. After an error the connection ends.\<close>

definition identify_client :: "'l kafka_setup \<Rightarrow> 'r request_env \<Rightarrow> ConnectionState \<Rightarrow> ('r, 'l) kafka_state \<Rightarrow> ('r, 'l) kafka_state \<times> (KafkaError, ConnectionState) result" where
  "identify_client kp env conn st =
     (case (cs_tenant conn, cs_client_id conn, kp_resolver kp) of
        (None, Some client_id, Some _) \<Rightarrow>
          (case try_resolve_from_client_id (rq_auth env) client_id (kq_tenants st) of
             (db, Ok (Some ctx)) \<Rightarrow> (st\<lparr>kq_tenants := db\<rparr>, Ok (conn\<lparr>cs_tenant := Some ctx\<rparr>))
           | (db, Panic) \<Rightarrow> (st\<lparr>kq_tenants := db\<rparr>, Panic)
           | (db, _) \<Rightarrow> (st\<lparr>kq_tenants := db\<rparr>, Ok conn))
      | _ \<Rightarrow> (st, Ok conn))"

definition track_connection :: "ConnectionState \<Rightarrow> ('r, 'l) kafka_state \<Rightarrow> ('r, 'l) kafka_state \<times> ConnectionState \<times> (KafkaError, unit) result" where
  "track_connection conn st =
     (case (cs_connection_guard conn, cs_tenant conn) of
        (None, Some t) \<Rightarrow>
          (let (active, ok) = admit_connection (kq_enforcer st \<noteq> None) (kt_tenant t) (kq_active_connections st)
           in (st\<lparr>kq_active_connections := active\<rparr>, conn\<lparr>cs_connection_guard := Some (org_of (kt_tenant t))\<rparr>, if ok then Ok () else Err ConnectionClosed))
      | _ \<Rightarrow> (st, conn, Ok ()))"

definition handle_frame ::
  "'l kafka_setup \<Rightarrow> 'r request_env \<Rightarrow> bytes \<Rightarrow> ConnectionState \<Rightarrow> ('r, 'l) kafka_state \<Rightarrow> ('r, 'l) kafka_state \<times> ConnectionState \<times> (KafkaError, bytes \<times> i32) result" where
  "handle_frame kp env frame conn st =
     (case RequestHeader_parse frame of
        Err e \<Rightarrow> (st, conn, Err e)
      | Panic \<Rightarrow> (st, conn, Panic)
      | Ok (header, body) \<Rightarrow>
          (let conn = (case rh_client_id header of Some c \<Rightarrow> conn\<lparr>cs_client_id := Some c\<rparr> | None \<Rightarrow> conn) in
           case identify_client kp env conn st of
             (st1, Err e) \<Rightarrow> (st1, conn, Err e)
           | (st1, Panic) \<Rightarrow> (st1, conn, Panic)
           | (st1, Ok conn1) \<Rightarrow>
               (case track_connection conn1 st1 of
                  (st2, conn2, Err e) \<Rightarrow> (st2, conn2, Err e)
                | (st2, conn2, Panic) \<Rightarrow> (st2, conn2, Panic)
                | (st2, conn2, Ok _) \<Rightarrow> handle_request kp env header body conn2 st2)))"

definition close_connection :: "ConnectionState \<Rightarrow> ('r, 'l) kafka_state \<Rightarrow> ('r, 'l) kafka_state" where
  "close_connection conn st =
     (case cs_connection_guard conn of None \<Rightarrow> st | Some org \<Rightarrow> st\<lparr>kq_active_connections := release_connection org (kq_active_connections st)\<rparr>)"

end
