(* ===== verification/Kafka_Server_Properties.thy ===== *)
theory Kafka_Server_Properties
  imports Kafka_Server Tenancy_Properties Kafka_Topic_Properties
begin

text \<open>
  The server as a whole: who a connection is after it has authenticated, what its requests can change, and how many connections an organization can hold.
\<close>

section \<open>Other organizations\<close>

text \<open>The topics, partitions and segments of an organization.\<close>

definition rows_of :: "string \<Rightarrow> topic_db \<Rightarrow> (string \<times> topic_row) list \<times> (string \<times> Partition) list \<times> (string \<times> SegmentMeta) list" where
  "rows_of org db = (filter (\<lambda>r. fst r = org) (td_topics db), filter (\<lambda>r. fst r = org) (td_partitions db), filter (\<lambda>r. fst r = org) (td_segments db))"

text \<open>The loops of the handlers keep what each of their steps keeps.\<close>

lemma for_partitions_keeps: "(\<And>i p s. g (fst (f i p s)) = g s) \<Longrightarrow> g (fst (for_partitions f i ps s)) = g s"
proof (induction ps arbitrary: i s)
  case (Cons p ps)
  obtain s1 r where f: "f i p s = (s1, r)" by (cases "f i p s")
  have "g s1 = g s" using Cons.prems [of i p s] by (simp add: f)
  then show ?case using Cons.IH [OF Cons.prems, of "Suc i" s1] by (cases r) (simp_all add: f Let_def case_prod_beta)
qed simp

lemma for_topics_keeps: "(\<And>name i p s. g (fst (f name i p s)) = g s) \<Longrightarrow> g (fst (for_topics f i ts s)) = g s"
proof (induction ts arbitrary: i s)
  case (Cons t ts)
  obtain name ps where t: "t = (name, ps)" by (cases t)
  obtain s1 r where f: "for_partitions (f name) i ps s = (s1, r)" by (cases "for_partitions (f name) i ps s")
  have "g (fst (for_partitions (f name) i ps s)) = g s" by (rule for_partitions_keeps) (rule Cons.prems)
  then show ?case using Cons.IH [OF Cons.prems, of "i + length ps" s1] by (cases r) (simp_all add: t f Let_def case_prod_beta)
qed simp

lemma create_confined: "other \<noteq> org \<Longrightarrow> rows_of other (fst (create_topic_for_org fails now org c db)) = rows_of other db"
  by (auto simp: create_topic_for_org_def insert_topic_def rows_of_def filter_map comp_def)

lemma delete_confined: "other \<noteq> org \<Longrightarrow> rows_of other (fst (delete_topic_for_org fails org name db)) = rows_of other db"
  by (auto simp: delete_topic_for_org_def delete_topics_def rows_of_def intro!: filter_cong)

lemma commit_confined: "rows_of other (fst (commit_offset_for_org f1 f2 org g t n off m db)) = rows_of other db"
  by (auto simp: commit_offset_for_org_def ensure_consumer_group_for_org_def insert_group_def upsert_offset_def rows_of_def Let_def split: option.split)

lemma commit_loop_confined: "rows_of other (fst (for_topics (commit_partition fails org g) i ts db)) = rows_of other db"
  by (rule for_topics_keeps) (auto simp: commit_partition_def commit_confined Let_def case_prod_beta split: prod.split)

lemma auto_create_confined: "other \<noteq> org \<Longrightarrow> rows_of other (fst (auto_create env org i names (db, all))) = rows_of other db"
proof (induction names arbitrary: i db all)
  case (Cons n names)
  let ?c = "create_topic_for_org (me_create_fails env i) (me_now env) org \<lparr>tc_name = string_of_bytes n, tc_partition_count = 1,
     tc_retention_ms = None, tc_cleanup_policy = DeletePolicy, tc_config = Map.empty\<rparr> db"
  have "rows_of other (fst ?c) = rows_of other db" using Cons.prems by (rule create_confined)
  then show ?case using Cons.IH [OF Cons.prems] by (cases ?c) (auto split: result.split)
qed simp

lemma kafka_create_confined: "other \<noteq> org \<Longrightarrow> rows_of other (fst (kafka_create_topic env org r db)) = rows_of other db"
  using create_confined [of other org "ct_fails env" "ct_now env"]
  by (auto simp: kafka_create_topic_def Let_def split: option.split prod.split result.split) (metis fst_conv)+

lemma create_topics_confined: "other \<noteq> org \<Longrightarrow> rows_of other (fst (create_topics env only org i rs db)) = rows_of other db"
proof (induction rs arbitrary: i db)
  case (Cons r rs)
  then show ?case using kafka_create_confined [OF Cons.prems, of "env i" r db] by (simp add: Let_def case_prod_beta)
qed simp

lemma kafka_delete_confined: "other \<noteq> org \<Longrightarrow> rows_of other (fst (kafka_delete_topics fails text org i names db)) = rows_of other db"
proof (induction names arbitrary: i db)
  case (Cons n names)
  then show ?case using delete_confined [OF Cons.prems, of "fails i" "string_of_bytes n" db] by (simp add: Let_def case_prod_beta)
qed simp

lemma metadata_confined: "other \<noteq> org \<Longrightarrow> rows_of other (fst (handle_metadata env cfg org v body db)) = rows_of other db"
  using auto_create_confined [of other org env 0]
  by (cases "parse_metadata_request v body") (auto simp: handle_metadata_def Let_def case_prod_beta split: option.split)

lemma create_request_confined: "other \<noteq> org \<Longrightarrow> rows_of other (fst (handle_create_topics env org v body db)) = rows_of other db"
  using create_topics_confined [of other org]
  by (cases "parse_create_request v body") (auto simp: handle_create_topics_def Let_def case_prod_beta)

lemma delete_request_confined: "other \<noteq> org \<Longrightarrow> rows_of other (fst (handle_delete_topics fails text org v body db)) = rows_of other db"
  using kafka_delete_confined [of other org] by (auto simp: handle_delete_topics_def Let_def case_prod_beta split: result.split)

lemma commit_request_confined: "rows_of other (fst (handle_offset_commit fails org v body db)) = rows_of other db"
  "rows_of other (fst (handle_txn_offset_commit fails org v body db)) = rows_of other db"
  using commit_loop_confined [of other]
  by (auto simp: handle_offset_commit_def handle_txn_offset_commit_def Let_def case_prod_beta split: result.split)

lemma dispatch_confined: "other \<noteq> org \<Longrightarrow> rows_of other (kq_topics (fst (dispatch kp env org h ms body k st))) = rows_of other (kq_topics st)"
  by (cases k) (simp_all add: on_topics_def on_producers_def on_groups_def Let_def case_prod_beta metadata_confined create_request_confined
    delete_request_confined commit_request_confined)

lemma throttle_topics: "kq_topics (fst (request_throttle env conn st)) = kq_topics st"
  by (auto simp: request_throttle_def Let_def case_prod_beta split: option.split)

text \<open>Only an authentication changes the tenant of a connection, and it changes no topics.\<close>

lemma request_confined:
  assumes "handle_request kp env header body conn st = (st', conn', r)" and "other \<noteq> connection_org conn'"
  shows "rows_of other (kq_topics st') = rows_of other (kq_topics st)"
proof -
  have d: "rows_of other (kq_topics (fst (dispatch kp env (connection_org conn) header ms body k (fst (request_throttle env conn st))))) = rows_of other (kq_topics st)"
    if "other \<noteq> connection_org conn" for ms k
    using dispatch_confined [OF that] throttle_topics [of env conn st] by metis
  show ?thesis
  proof (cases "ApiKey_from_i16 (rh_api_key header)")
    case None
    then show ?thesis using assms(1) throttle_topics [of env conn st] by (auto simp: handle_request_def Let_def case_prod_beta)
  next
    case (Some k)
    then show ?thesis using assms d [of _ k]
      by (cases k) (auto simp: handle_request_def Let_def case_prod_beta simp del: dispatch.simps)
  qed
qed

lemma identify_topics: "kq_topics (fst (identify_client kp env conn st)) = kq_topics st"
  by (auto simp: identify_client_def split: option.split prod.split result.split)

lemma track_topics: "kq_topics (fst (track_connection conn st)) = kq_topics st"
  by (auto simp: track_connection_def Let_def case_prod_beta split: option.split)

text \<open>
  C9. Whatever bytes a connection sends, a frame leaves the topics, the partitions and the segments of every organization but its own as they are.
\<close>

theorem requests_leave_other_organizations:
  assumes "handle_frame kp env frame conn st = (st', conn', r)" and "other \<noteq> connection_org conn'"
  shows "rows_of other (kq_topics st') = rows_of other (kq_topics st)"
proof (cases "RequestHeader_parse frame")
  case (Ok x)
  obtain header body where x: "x = (header, body)" by (cases x)
  define conn0 where "conn0 = (case rh_client_id header of Some c \<Rightarrow> conn\<lparr>cs_client_id := Some c\<rparr> | None \<Rightarrow> conn)"
  obtain st1 r1 where i: "identify_client kp env conn0 st = (st1, r1)" by (cases "identify_client kp env conn0 st")
  note t1 = identify_topics [of kp env conn0 st, unfolded i fst_conv]
  show ?thesis
  proof (cases r1)
    case (Ok conn1)
    obtain st2 conn2 r2 where t: "track_connection conn1 st1 = (st2, conn2, r2)" by (cases "track_connection conn1 st1")
    note t2 = track_topics [of conn1 st1, unfolded t fst_conv]
    show ?thesis using assms \<open>RequestHeader_parse frame = Ok x\<close> t1 t2 request_confined [of kp env header body conn2 st2 st' conn' r]
      by (cases r2) (simp_all add: handle_frame_def x Let_def conn0_def [symmetric] i t Ok)
  qed (use assms \<open>RequestHeader_parse frame = Ok x\<close> t1 in \<open>simp_all add: handle_frame_def x Let_def conn0_def [symmetric] i\<close>)
qed (use assms in \<open>simp_all add: handle_frame_def\<close>)

section \<open>Authentication\<close>

text \<open>The body of a SASL/PLAIN authentication with the credentials \<open>u\<close> and \<open>w\<close>.\<close>

definition sasl_request :: "i16 \<Rightarrow> bytes \<Rightarrow> bytes \<Rightarrow> bytes" where
  "sasl_request v u w =
     (let data = 0 # u @ 0 # w in
      if sint v \<ge> 2 then encode_unsigned_varint (of_nat (length data + 1)) @ data @ put_tags True else put_i32 (of_nat (length data)) @ data)"

lemma decode_credentials: "0 \<notin> set u \<Longrightarrow> u \<noteq> [] \<Longrightarrow> utf8_valid u \<Longrightarrow> utf8_valid w \<Longrightarrow> decode_sasl_plain (0 # u @ 0 # w) = Some (u, w)"
  by (auto simp: decode_sasl_plain_def Let_def dropWhile_append takeWhile_append dropWhile_eq_Nil_conv)

lemma parse_auth_data:
  assumes "length data < 2 ^ 31"
  shows "2 \<le> sint v \<Longrightarrow> parse_auth_bytes v (encode_unsigned_varint (of_nat (length data + 1)) @ data @ rest) = Ok (Some data)"
    and "sint v < 2 \<Longrightarrow> parse_auth_bytes v (put_i32 (of_nat (length data)) @ data) = Ok (Some data)"
proof -
  have n: "length data + 1 < 2 ^ 64" using assms by simp
  have "(of_nat (length data + 1) :: u64) \<noteq> 0" using of_nat_u64_eq_0 [OF n] by simp
  moreover have "(of_nat (length data + 1) :: u64) - 1 = of_nat (length data)" by simp
  moreover have "unat (of_nat (length data) :: u64) = length data" using n by simp
  ultimately show "2 \<le> sint v \<Longrightarrow> parse_auth_bytes v (encode_unsigned_varint (of_nat (length data + 1)) @ data @ rest) = Ok (Some data)"
    by (simp add: parse_auth_bytes_def codec_simps del: of_nat_Suc of_nat_add)
  have "0 \<le> sint (of_nat (length data) :: i32)" "unat (of_nat (length data) :: i32) = length data"
    using assms sint_of_nat_small(2) [of "length data"] by simp_all
  then show "sint v < 2 \<Longrightarrow> parse_auth_bytes v (put_i32 (of_nat (length data)) @ data) = Ok (Some data)"
    by (simp add: parse_auth_bytes_def codec_simps)
qed

lemma parse_credentials:
  assumes "length u + length w < 2 ^ 30"
  shows "parse_auth_bytes v (sasl_request v u w) = Ok (Some (0 # u @ 0 # w))"
proof -
  have "length (0 # u @ 0 # w) < 2 ^ 31" using assms by simp
  from parse_auth_data [OF this, of v] show ?thesis unfolding sasl_request_def Let_def by (cases "2 \<le> sint v") simp_all
qed


section \<open>Permissions\<close>

definition delete_request :: "bytes list \<Rightarrow> bytes" where
  "delete_request names = put_items False encode_string names @ put_i32 30000"

lemma delete_removes:
  assumes "\<And>i. \<not> fails i" and "string_of_bytes ` set names \<subseteq> topic_names org db" and "distinct (map string_of_bytes names)"
  shows "topic_names org (fst (kafka_delete_topics fails text org i names db)) = topic_names org db - string_of_bytes ` set names
    \<and> snd (kafka_delete_topics fails text org i names db) = map (\<lambda>n. (n, EC_None)) names"
  using assms(2,3)
proof (induction names arbitrary: i db)
  case (Cons n names)
  let ?d = "delete_topic_for_org (fails i) org (string_of_bytes n) db"
  have "\<exists>(o', t) \<in> set (td_topics db). o' = org \<and> tr_name t = string_of_bytes n" using Cons.prems(1) by (auto simp: topic_names_def)
  then have d: "snd ?d = Ok ()" "topic_names org (fst ?d) = topic_names org db - {string_of_bytes n}"
    using assms(1) by (auto simp: delete_topic_for_org_def delete_topics_def topic_names_def)
  have "string_of_bytes ` set names \<subseteq> topic_names org (fst ?d)" unfolding d(2) using Cons.prems by (simp add: subset_Diff_insert)
  from Cons.IH [OF this, of "Suc i"] show ?case using Cons.prems(2) d by (auto simp: Let_def case_prod_beta)
qed simp

text \<open>
  Permissions do not matter to the server: a connection that authenticated with a key that may not write, and not administer, deletes topics of its organization.
\<close>

theorem read_only_key_deletes_topics:
  assumes "cs_tenant conn = Some t" and "\<not> can_write (kt_tenant t)" and "\<not> can_admin (kt_tenant t)" and "kq_enforcer st = None"
    and "rh_api_key h = 20" and "0 \<le> sint (rh_api_version h)" "sint (rh_api_version h) < 4" and "\<And>i. \<not> rq_delete_fails env i"
    and "\<forall>n \<in> set names. short_string n" and "length names < 2 ^ 31" and "distinct (map string_of_bytes names)"
    and "string_of_bytes ` set names \<subseteq> topic_names (org_of (kt_tenant t)) (kq_topics st)"
  shows "topic_names (org_of (kt_tenant t)) (kq_topics (fst (handle_request kp env h (delete_request names) conn st)))
    = topic_names (org_of (kt_tenant t)) (kq_topics st) - string_of_bytes ` set names"
proof -
  let ?v = "rh_api_version h" and ?org = "org_of (kt_tenant t)"
  have "parse_items False 24 (parse_deleted_topic ?v) (put_items False (\<lambda>x. encode_string (the x)) (map Some names) @ rest) = Ok (map Some names, rest)" for rest
  proof (rule parse_items_enc)
    fix x rest assume "x \<in> set (map Some names)"
    then obtain n where n: "x = Some n" "short_string n" using assms(9) by auto
    have "parse_str False (encode_string n @ rest) = Ok (n, rest)" using parse_str_enc [OF n(2), of False rest] by (simp add: put_str_def)
    then show "parse_deleted_topic ?v (encode_string (the x) @ rest) = Ok (x, rest)"
      using assms(7) by (simp add: parse_deleted_topic_def n(1) parse_if_def parse_tags_def Let_def)
  qed (use assms(10) in \<open>simp_all\<close>)
  then have p: "parse_items False 24 (parse_deleted_topic ?v) (put_items False encode_string names @ rest) = Ok (map Some names, rest)" for rest
    by (simp add: put_items_def comp_def)
  have m: "List.map_filter (\<lambda>x. x) (map Some names) = names" by (simp add: map_filter_def comp_def)
  have "fst (handle_delete_topics (rq_delete_fails env) d ?org ?v (delete_request names) (kq_topics st))
      = fst (kafka_delete_topics (rq_delete_fails env) d ?org 0 names (kq_topics st))" for d
    using assms(7) p [of "put_i32 30000"] get_i_put(2) [of 30000 "[]"]
    by (simp add: handle_delete_topics_def delete_request_def parse_tags_def Let_def m case_prod_beta)
  then show ?thesis using delete_removes [OF assms(8,12,11)] assms(1,4,5)
    by (simp add: handle_request_def request_throttle_def connection_org_def ApiKey_from_i16_def on_topics_def Let_def case_prod_beta)
qed

section \<open>The limit on connections\<close>

text \<open>Connections of many clients: each is admitted with its tenant, and its guard releases it when it ends, at once if it was refused.\<close>

datatype connection_event = Connect TenantContext | Disconnect nat

fun connection_step :: "connection_event \<Rightarrow> (string \<rightharpoonup> u32) \<times> string list \<Rightarrow> (string \<rightharpoonup> u32) \<times> string list" where
  "connection_step (Connect ctx) (active, guards) =
     (let (active', ok) = admit_connection True ctx active in
      if ok then (active', org_of ctx # guards) else (release_connection (org_of ctx) active', guards))"
| "connection_step (Disconnect i) (active, guards) =
     (if i < length guards then (release_connection (guards ! i) active, take i guards @ drop (Suc i) guards) else (active, guards))"

abbreviation active_of :: "(string \<rightharpoonup> u32) \<Rightarrow> string \<Rightarrow> u32" where
  "active_of active org \<equiv> (case active org of Some n \<Rightarrow> n | None \<Rightarrow> 0)"

definition unpaid_limit :: "(string \<Rightarrow> i32) \<Rightarrow> TenantContext \<Rightarrow> bool" where
  "unpaid_limit limit ctx \<longleftrightarrow> og_status (tcx_organization ctx) = OrgActive \<and> og_plan (tcx_organization ctx) = Free \<and> oq_max_connections (tcx_quota ctx) = limit (org_of ctx)"

definition connections_ok :: "(string \<Rightarrow> i32) \<Rightarrow> (string \<rightharpoonup> u32) \<times> string list \<Rightarrow> bool" where
  "connections_ok limit s \<longleftrightarrow> (\<forall>org. active_of (fst s) org = of_nat (count_list (snd s) org) \<and> int (count_list (snd s) org) < max 1 (sint (limit org)))"

lemma count_list_remove: "i < length xs \<Longrightarrow> count_list xs y = count_list (take i xs @ drop (Suc i) xs) y + (if xs ! i = y then 1 else 0)"
  by (subst id_take_nth_drop [of i xs]) simp_all

lemma released: "active_of (release_connection org active) o' = (if o' = org \<and> active org \<noteq> None then active_of active org - 1 else active_of active o')"
  by (auto simp: release_connection_def split: option.split)

lemma open_ok:
  assumes "connections_ok limit (active, guards)" and "unpaid_limit limit ctx"
  shows "connections_ok limit (connection_step (Connect ctx) (active, guards))"
proof -
  let ?g = "org_of ctx" and ?n = "count_list guards (org_of ctx)"
  have c: "active_of active ?g = of_nat ?n" "int ?n < max 1 (sint (limit ?g))" using assms(1) by (simp_all add: connections_ok_def)
  have small: "int ?n + 1 < 2 ^ 31" using c(2) sint_lt [of "limit ?g"] by simp
  have "sint (of_nat ?n + 1 :: i32) = int ?n + 1" using sint_of_nat_small(2) [of "?n + 1"] small by (simp add: add.commute)
  then have "is_denied (check_connection ctx (of_nat ?n + 1)) \<longleftrightarrow> sint (limit ?g) \<le> int ?n + 1"
    using assms(2) by (simp add: check_connection_def check_organization_def is_paying_def unpaid_limit_def check_count_def Let_def)
  then have ok: "snd (admit_connection True ctx active) \<longleftrightarrow> int ?n + 1 < sint (limit ?g)" and a: "fst (admit_connection True ctx active) = active(?g \<mapsto> of_nat ?n + 1)"
    using c(1) by (simp_all add: admit_connection_def Let_def not_le)
  show ?thesis
  proof (cases "int ?n + 1 < sint (limit ?g)")
    case True
    then show ?thesis using assms(1) ok a by (auto simp: connections_ok_def case_prod_beta Let_def)
  next
    case False
    then show ?thesis using assms(1) ok a c(1) by (auto simp: connections_ok_def case_prod_beta Let_def released)
  qed
qed

lemma close_ok:
  assumes "connections_ok limit (active, guards)"
  shows "connections_ok limit (connection_step (Disconnect i) (active, guards))"
proof (cases "i < length guards")
  case True
  let ?g = "guards ! i" and ?rest = "take i guards @ drop (Suc i) guards"
  note n = count_list_remove [OF True]
  have c: "active_of active o' = of_nat (count_list guards o') \<and> int (count_list guards o') < max 1 (sint (limit o'))" for o'
    using assms by (simp add: connections_ok_def)
  have "active ?g \<noteq> None"
  proof
    assume "active ?g = None"
    then have "(of_nat (count_list guards ?g) :: u32) = 0" using c [of ?g] by simp
    moreover have "count_list guards ?g < 2 ^ 32" using c [of ?g] sint_lt [of "limit ?g"] by (auto simp: max_def split: if_splits)
    ultimately have "count_list guards ?g = 0" by simp
    then show False using n [of ?g] by simp
  qed
  then have r: "active_of (release_connection ?g active) o' = (if o' = ?g then active_of active ?g - 1 else active_of active o')" for o' by (simp add: released)
  have "active_of (release_connection ?g active) o' = of_nat (count_list ?rest o') \<and> int (count_list ?rest o') < max 1 (sint (limit o'))" for o'
    using c [of o'] n [of o'] r [of o'] by (auto split: if_splits)
  then show ?thesis using True by (simp add: connections_ok_def)
qed (use assms in \<open>simp\<close>)


section \<open>Examples\<close>

definition demo_org :: Organization where
  "demo_org = \<lparr>og_id = ''a'', og_name = ''Acme'', og_slug = ''acme'', og_plan = Free, og_status = OrgActive, og_created_at = 1, og_settings = Map.empty,
     og_external_id = None, og_deployment_mode = SelfHosted\<rparr>"

definition reader_key :: ApiKeyRow where
  "reader_key = \<lparr>ak_id = ''k'', ak_organization_id = ''a'', ak_name = ''ci'', ak_key_prefix = ''sk_live_0000'', ak_permissions = [''read''], ak_scopes = [],
     ak_expires_at = None, ak_last_used_at = None, ak_created_at = 5, ak_created_by = None, ak_max_requests_per_sec = None, ak_max_produce_bytes_per_sec = None,
     ak_max_consume_bytes_per_sec = None\<rparr>"

definition reader_connection :: ConnectionState where
  "reader_connection = \<lparr>cs_client_id = None, cs_tenant = Some \<lparr>kt_tenant = \<lparr>tcx_organization = demo_org, tcx_api_key = Some reader_key,
     tcx_quota = OrganizationQuota_default, tcx_is_default = False\<rparr>, kt_auth_method = SaslPlain\<rparr>, cs_connection_guard = Some ''a''\<rparr>"

lemma reader_org: "connection_org reader_connection = ''a''"
  by (simp add: reader_connection_def connection_org_def demo_org_def)

theorem requests_leave_other_organizations_witness:
  "\<forall>(kp :: unit kafka_setup) (env :: unit request_env) (st :: (unit, unit) kafka_state).
     rows_of ''b'' (kq_topics (fst (handle_frame kp env [0, 3, 0, 4, 0, 0, 0, 7, 255, 255, 0, 0, 0, 1, 0, 1, 103, 1] reader_connection (st\<lparr>kq_topics := demo_topic_db\<rparr>))))
     = rows_of ''b'' demo_topic_db"
proof (intro allI)
  fix kp :: "unit kafka_setup" and env :: "unit request_env" and st :: "(unit, unit) kafka_state"
  let ?frame = "[0, 3, 0, 4, 0, 0, 0, 7, 255, 255, 0, 0, 0, 1, 0, 1, 103, 1] :: bytes" and ?h = "\<lparr>rh_api_key = 3, rh_api_version = 4, rh_correlation_id = 7, rh_client_id = None\<rparr>"
  obtain st' conn' r where f: "handle_frame kp env ?frame reader_connection (st\<lparr>kq_topics := demo_topic_db\<rparr>) = (st', conn', r)"
    by (cases "handle_frame kp env ?frame reader_connection (st\<lparr>kq_topics := demo_topic_db\<rparr>)")
  have h: "RequestHeader_parse ?frame = Ok (?h, [0, 0, 0, 1, 0, 1, 103, 1])" by code_simp
  have "conn' = reader_connection" using f unfolding handle_frame_def h
    by (simp add: identify_client_def track_connection_def reader_connection_def handle_request_def ApiKey_from_i16_def Let_def case_prod_beta)
  then show "rows_of ''b'' (kq_topics (fst (handle_frame kp env ?frame reader_connection (st\<lparr>kq_topics := demo_topic_db\<rparr>)))) = rows_of ''b'' demo_topic_db"
    using requests_leave_other_organizations [OF f, of "''b''"] f reader_org by simp
qed

definition demo_auth :: auth_env where
  "demo_auth = \<lparr>ae_sha256 = (\<lambda>_. ''h''), ae_now = 50, ae_faults = no_tenant_faults, ae_db_text = []\<rparr>"

definition demo_header :: "i16 \<Rightarrow> RequestHeader" where
  "demo_header key = \<lparr>rh_api_key = key, rh_api_version = 1, rh_correlation_id = 7, rh_client_id = None\<rparr>"


theorem read_only_key_deletes_topics_witness:
  "\<forall>(kp :: unit kafka_setup) (env :: unit request_env) (st :: (unit, unit) kafka_state).
     topic_names ''a'' (kq_topics (fst (handle_request kp (env\<lparr>rq_delete_fails := (\<lambda>_. False)\<rparr>) (demo_header 20) (delete_request [[111, 114, 100, 101, 114, 115]])
       reader_connection (st\<lparr>kq_topics := demo_topic_db, kq_enforcer := None\<rparr>)))) = {}"
proof (intro allI)
  fix kp :: "unit kafka_setup" and env :: "unit request_env" and st :: "(unit, unit) kafka_state"
  have n: "string_of_bytes [111, 114, 100, 101, 114, 115] = ''orders''" by code_simp
  have "short_string [111, 114, 100, 101, 114, 115]" by (simp add: short_string_def)
  then show "topic_names ''a'' (kq_topics (fst (handle_request kp (env\<lparr>rq_delete_fails := (\<lambda>_. False)\<rparr>) (demo_header 20) (delete_request [[111, 114, 100, 101, 114, 115]])
       reader_connection (st\<lparr>kq_topics := demo_topic_db, kq_enforcer := None\<rparr>)))) = {}"
    using read_only_key_deletes_topics [of reader_connection "the (cs_tenant reader_connection)" "st\<lparr>kq_topics := demo_topic_db, kq_enforcer := None\<rparr>" "demo_header 20"
        "env\<lparr>rq_delete_fails := (\<lambda>_. False)\<rparr>" "[[111, 114, 100, 101, 114, 115]]" kp] demo_metadata(3) n
    by (simp add: reader_connection_def demo_header_def demo_org_def reader_key_def can_write_def can_admin_def has_permission_def)
qed

definition demo_tenant :: TenantContext where
  "demo_tenant = \<lparr>tcx_organization = demo_org, tcx_api_key = Some reader_key, tcx_quota = OrganizationQuota_default\<lparr>oq_max_connections := 2\<rparr>, tcx_is_default = False\<rparr>"


end
