(* ===== verification/Spec2Isabelle.thy ===== *)
theory Spec2Isabelle
  imports Segment_Properties Wal_Recovery Wal_Writer Partition_Properties Circuit_Breaker Reader_Properties
    Kafka_Types Kafka_Wire Group_Properties Lease_Properties Partition_Assigner Producer_Properties Produce_Properties
    Kafka_Batch Kafka_Handler_Properties Topic_Properties Reconciler_Properties Client_Pipeline Compaction_Properties
    Kafka_Offset_Properties Kafka_Group_Handlers Kafka_Topic_Properties Rate_Limiter Tenancy_Properties Quota_Properties
    Kafka_Server_Properties
begin

text \<open>
  A verification development of the core of StreamHouse, a streaming platform that keeps a partitioned
  log in object storage and speaks the Kafka protocol.

  \<^bold>\<open>The program.\<close> A producer's records reach an agent, which checks that it holds the partition's lease and that an idempotent
  batch is in sequence, and hands them to a partition writer. The writer gives them offsets, logs them to a write-ahead log,
  keeps them in a buffer for readers and appends them to the current segment. From time to time the segment is finished,
  uploaded to S3 behind a throttle and a circuit breaker, registered in the metadata store with the new high watermark, and the
  log is truncated. After a crash the log is read back and replayed, including the logs left behind by other agents. Readers
  find segments through an index, fetch them through a cache, check them and decode their blocks. Agents divide the partitions
  among themselves and take leases on them in the metadata store. Kafka clients talk to the same partitions over
  length-prefixed frames; consumer groups are run by a coordinator that assigns generations, leaders and partition assignments. A connection belongs to the organization of its
  API key, whose quotas limit its topics, connections, requests and bytes. The
  client library collects records in batches and sends them, with retries, to a server or an agent; a server finds the agent that holds the lease.
  In the background a reconciler compares the object store with the segment table, and a compactor rewrites the segments of compacted topics.

  \<^bold>\<open>Theories and sources\<close> (paths below \<^verbatim>\<open>src/crates\<close>).
  \<^item> \<open>Prelude\<close>: machine words, outcomes (\<open>Ok\<close>, \<open>Err\<close>, \<open>Panic\<close>), slices and cursors, endian codecs, the interface
    \<open>prefix_codec\<close> of a self-delimiting code and the interface \<open>invariant_machine\<close>.
  \<^item> \<open>Core_Types\<close>: \<^verbatim>\<open>streamhouse-core\<close> \<^verbatim>\<open>record.rs\<close>, \<^verbatim>\<open>segment.rs\<close>, \<^verbatim>\<open>error.rs\<close>. \<open>Varint\<close>: \<^verbatim>\<open>varint.rs\<close>.
    \<open>Storage_Types\<close>: \<^verbatim>\<open>streamhouse-storage\<close> \<^verbatim>\<open>error.rs\<close> and the segment row of \<^verbatim>\<open>streamhouse-metadata/src/types.rs\<close>.
  \<^item> \<open>Segment_Writer\<close>, \<open>Segment_Reader\<close>: \<^verbatim>\<open>streamhouse-storage/src/segment/writer.rs\<close> and \<^verbatim>\<open>reader.rs\<close>. \<open>Segment_Layout\<close>
    is the abstract file format the writer is shown to produce; \<open>Segment_Roundtrip\<close> shows that the reader inverts
    it, under the interface \<open>block_codec\<close> of a block compressor; \<open>Segment_Properties\<close> holds the theorems.
  \<^item> \<open>Wal_Format\<close>, \<open>Wal_Recovery\<close>, \<open>Wal_Writer\<close>: \<^verbatim>\<open>streamhouse-storage/src/wal.rs\<close>, the record format and the reader
    of a log file, the scan of the shared directory, and the group-commit task with its callers.
  \<^item> \<open>Circuit_Breaker\<close>: \<^verbatim>\<open>streamhouse-storage/src/circuit_breaker.rs\<close>. \<open>Rate_Limiter\<close>: \<^verbatim>\<open>rate_limiter.rs\<close>, over \<open>Float64\<close>, the rounding of rationals to
    binary64; the interface \<open>metered_bucket\<close> bounds what any token bucket grants.
  \<^item> \<open>Partition_Writer\<close>, \<open>Partition_Properties\<close>: \<^verbatim>\<open>streamhouse-storage/src/writer.rs\<close> with \<^verbatim>\<open>config.rs\<close> and \<^verbatim>\<open>throttle.rs\<close>.
    It composes the segment writer, the WAL task, recovery and the breaker.
  \<^item> \<open>Segment_Index\<close>, \<open>Segment_Cache\<close>, \<open>Partition_Reader\<close>: \<^verbatim>\<open>segment_index.rs\<close>, \<^verbatim>\<open>cache.rs\<close> and \<^verbatim>\<open>reader.rs\<close> of the same crate;
    \<open>Reader_Properties\<close> composes them with the segment reader.
  \<^item> \<open>Metadata_Types\<close>, \<open>Lease_Store\<close>, \<open>Lease_Store_Postgres\<close>: the lease tables of \<^verbatim>\<open>streamhouse-metadata\<close> \<^verbatim>\<open>store.rs\<close> and \<^verbatim>\<open>postgres.rs\<close>.
    \<open>Lease_Manager\<close>: \<^verbatim>\<open>streamhouse-agent/src/lease_manager.rs\<close> over a store that is a record of functions, as the trait object is.
    \<open>Lease_Safety\<close> states what a store promises as the interface \<open>lease_service\<close> and proves exclusion for a cluster once;
    \<open>Lease_Properties\<close> interprets it for both stores.
  \<^item> \<open>Partition_Assigner\<close>: \<^verbatim>\<open>streamhouse-agent/src/assigner.rs\<close>.
  \<^item> \<open>Topic_Store\<close>, \<open>Topic_Properties\<close>: organizations, topics, partitions, segments, consumer groups and committed offsets of \<^verbatim>\<open>store.rs\<close>.
  \<^item> \<open>Reconciler\<close>, \<open>Reconciler_Properties\<close>: \<^verbatim>\<open>streamhouse-storage/src/reconciler.rs\<close> over these tables; the deletion of orphaned objects and the
    recovery of rows from objects.
  \<^item> \<open>Log_Compaction\<close>, \<open>Compaction_Properties\<close>: \<^verbatim>\<open>streamhouse-server/src/compaction.rs\<close> over the tables and the segment format. \<open>compact_spec\<close> says
    by a filter over the log what compaction should keep.
  \<^item> \<open>Producer_Store\<close>, \<open>Producer_Properties\<close>: producers, sequence numbers and transactions of \<^verbatim>\<open>store.rs\<close>; the abstract lifecycle of a
    transaction is the relation \<open>lifecycle\<close>.
  \<^item> \<open>Produce_Service\<close>, \<open>Produce_Properties\<close>: the producer service of \<^verbatim>\<open>streamhouse-agent/src/grpc_service.rs\<close> with the writer pool and
    the durable flush, composed with leases, producer tables and partition writers.
  \<^item> \<open>Client_Retry\<close>, \<open>Client_Batch\<close>, \<open>Client_Producer\<close>: \<^verbatim>\<open>retry.rs\<close>, \<^verbatim>\<open>batch.rs\<close> and \<^verbatim>\<open>producer.rs\<close> of \<^verbatim>\<open>streamhouse-client\<close>. \<open>Client_Properties\<close> runs sends and
    rounds of the flush task as an \<open>invariant_machine\<close>.
  \<^item> \<open>Agent_Router\<close>, \<open>Client_Pipeline\<close>: \<^verbatim>\<open>streamhouse-client/src/agent_router.rs\<close> and the produce calls of \<^verbatim>\<open>streamhouse-server/src/services/mod.rs\<close>;
    \<open>Client_Pipeline\<close> composes client, router and the agent's producer service.
  \<^item> \<open>Kafka_Types\<close>, \<open>Kafka_Codec\<close>, \<open>Kafka_Wire\<close>: \<^verbatim>\<open>streamhouse-kafka/src/error.rs\<close>, \<^verbatim>\<open>types.rs\<close> and \<^verbatim>\<open>codec.rs\<close>. The
    interface \<open>wire_element\<close> extends \<open>prefix_codec\<close> and gives arrays of any element.
  \<^item> \<open>Kafka_Batch\<close>, \<open>Kafka_Handlers\<close>, \<open>Kafka_Handler_Properties\<close>: the record batches of \<^verbatim>\<open>handlers/produce.rs\<close> and \<^verbatim>\<open>fetch.rs\<close>, and the handlers of
    produce, fetch, \<^verbatim>\<open>InitProducerId\<close>, \<^verbatim>\<open>AddPartitionsToTxn\<close> and \<^verbatim>\<open>EndTxn\<close>.
  \<^item> \<open>Group_Coordinator\<close>, \<open>Group_Invariants\<close>, \<open>Group_Properties\<close>: \<^verbatim>\<open>streamhouse-kafka/src/coordinator.rs\<close>.
  \<^item> \<open>Kafka_Offset_Handlers\<close>, \<open>Kafka_Offset_Properties\<close>: \<^verbatim>\<open>handlers/offsets.rs\<close>, \<^verbatim>\<open>txn_offset_commit.rs\<close> and \<^verbatim>\<open>add_offsets_to_txn.rs\<close>. The interface \<open>offset_store\<close> says what
    a table of committed offsets promises. \<open>Kafka_Group_Handlers\<close>: \<^verbatim>\<open>handlers/consumer_groups.rs\<close> over the coordinator. \<open>Kafka_Topic_Handlers\<close>,
    \<open>Kafka_Topic_Properties\<close>: \<^verbatim>\<open>handlers/topics.rs\<close>, \<^verbatim>\<open>metadata.rs\<close> and \<^verbatim>\<open>api_versions.rs\<close> over the topic tables.
  \<^item> \<open>Tenancy\<close>, \<open>Tenancy_Properties\<close>: organizations, API keys, quotas and usage of \<^verbatim>\<open>store.rs\<close>, the tenant contexts of \<^verbatim>\<open>streamhouse-metadata/src/tenant.rs\<close> and the
    creation of a key in \<^verbatim>\<open>streamhouse-api/src/handlers/api_keys.rs\<close>. \<open>Quotas\<close>, \<open>Quota_Properties\<close>: \<^verbatim>\<open>streamhouse-metadata/src/quota.rs\<close>.
  \<^item> \<open>Kafka_Server\<close>, \<open>Kafka_Server_Properties\<close>: \<^verbatim>\<open>streamhouse-kafka/src/server.rs\<close>, \<^verbatim>\<open>tenant.rs\<close> and \<^verbatim>\<open>handlers/sasl.rs\<close>: the state of the server, and a frame of a
    connection from its bytes through tenant, admission, throttle and all the handlers to its answer.

  \<^bold>\<open>How code becomes definitions.\<close> A struct is a record, an enum a datatype, \<^verbatim>\<open>u64\<close> a 64-bit word whose addition
  wraps as in the release build, a length a \<open>nat\<close>. \<^verbatim>\<open>Result\<close> and panics are values of \<open>result\<close>, so every early return is
  a branch. A \<^verbatim>\<open>HashMap\<close> is an association list together with an arbitrary iteration order; a table of a SQL store is a
  field of a database record and a statement a function on it, with the constraints of the schema. Asynchronous code is
  cut where it holds a lock or owns its state: a coordinator request, a turn of the WAL task and an operation
  of the partition writer are single steps, a send of the client is two, and sequences of steps are folds. What the outside answers
  (files, object store, failing statements, clocks, random identifiers) is an argument of the
  step. LZ4, CRC-32, SHA-256 and the LRU map are parameters; the laws assumed of them are \<open>lz4_contract\<close>, that decompression inverts
  compression of blocks below 4 GiB, and \<open>lru_contract\<close>.

  \<^bold>\<open>What is shown.\<close> Segments read back exactly what was written, from the start or from any offset. The log reader recovers every
  complete entry of a torn file; an acknowledged flush is on disk; the task neither loses nor reorders.
  A durable flush leaves an object that decodes to the writer's records and metadata that spans them;
  buffered reads are complete; a read through index and cache returns the log. An acknowledged produce request is in the
  log of the partition, under a valid lease, and a durable one in an uploaded segment. At most one agent writes a partition, as
  long as no transfer is completed out of turn. The producer tables stay consistent under every history, a transaction follows its
  lifecycle, ending one is atomic, and the sequence numbers of a producer are accepted once and in order. The breaker follows its
  counters over every history. Frames survive any chunking, wire values and record batches read back, and the value readers never
  panic. Read-committed fetches stop at the last stable offset. The coordinator keeps its invariant under every sequence of requests,
  fences old generations, distributes assignments and isolates tenants. The topic tables stay consistent under every history. The reconciler
  deletes only unregistered objects past the grace period, if its listings succeed, and recovers the row of an uploaded segment. Compaction keeps
  exactly the last record of each key. In the client every send is answered with the offset of its own record, over all sequences of sends and
  background rounds, retries are bounded in number and time, and the router follows a lease that moved. A commit of offsets is what a later fetch
  answers, in all versions of the protocol; the search by timestamp finds the first record of the log at or after the time. No frame changes topics, partitions or
  segments of another organization; a key is accepted for its organization until it expires or is revoked; creating topics stays within the quota, and
  token buckets grant at most their capacity and their rate over time. Several theorems state behaviour the code
  has and its documentation does not: records lost after a failed upload or a failed append, by the limit of a compaction run or by a reconciler
  whose listing failed, offsets reported to the wrong sender after a failed flush or a lost answer, records that outlive their transaction, offsets
  shared between organizations, transactions that \<^verbatim>\<open>EndTxn\<close> leaves open,
  idempotent Kafka producers that are always refused, aborted records that are delivered, leases held twice after a transfer,
  files of another topic taken over, panics on hostile input, commits of fenced group members, transactional offsets that survive an abort, quotas that
  a metadata request passes by, keys whose permissions the server does not ask for, and a limit on the number of keys.

  \<^bold>\<open>Loops and bounds.\<close> Every loop of the sources terminates in the model without fuel: by structural recursion, or
  by a measure (the value being shifted in the varint encoder, the bytes left in the block and log readers
  and in the frame stream, the attempts left in the retry loop of the client and in the router, the interval of the binary search, the attempts left in the upload, the offsets left in the read loop,
  the entries left in the eviction loop). Hypotheses of the form \<open>length data < 2 ^ 64\<close> say that a file fits the address
  space, \<open>length rs < 2 ^ 32\<close> that the record count fits its field. Sequence numbers, times and offsets of the SQL tables are
  unbounded; identifiers are assumed to hold no quote, because the statements are formatted strings.

  \<^bold>\<open>Not modelled.\<close> Serving and transport (listeners and sockets, gRPC and REST servers but for the handlers named above, CLI, load tests), SQL and
  connectors, which work over third-party engines, the remaining tables of the SQL stores and, beyond leases, the PostgreSQL store, compaction statistics, metrics
  and log output, message texts that quote another library's error, and allocation failure. Two flushes of one client that run at the same time are not
  interleaved, and its connection pool is an argument; so are the answers of the quota checks in the produce, fetch and group handlers and of the rate limiter in the
  throttle. The plan-based rebalancer, the in-memory transaction coordinator and deduplication of \<^verbatim>\<open>streamhouse-metadata\<close>, access control lists, schema
  compatibility, bloom filters and tiering carry logic of their own and are left out: the request paths modelled here do not call them.
\<close>

end
